(* ===== verification/Prelude.thy ===== *)
theory Prelude
  imports Main "HOL-Library.AList" "HOL-Library.Char_ord" "HOL-Library.List_Lexorder"
    "HOL-Library.Product_Lexorder" "HOL-Library.Multiset"
begin

text \<open>
  Shared vocabulary of the development: how a Go \<open>error\<close>, an early return, a panic and a
  loop that never ends are represented, the loop shapes the validators of
  \<open>internal/aidocument\<close> are written with, and the list lemmas (first match, replace the first
  match, sort by key, insert after) that the component theories share.
\<close>

section \<open>Errors and results\<close>

text \<open>
  \<^item> \<open>Err m\<close>: a returned Go \<open>error\<close>; \<open>m\<close> is the constant text of its message, the values that
    \<open>fmt.Errorf\<close> interpolates are left out;
  \<^item> \<open>NilDeref\<close>: a run-time panic (nil pointer, nil map, index out of range);
  \<^item> \<open>NoReturn\<close>: a loop or recursion that does not end.
  A Go function returning \<open>error\<close> is a function into \<open>error option\<close> (\<open>None\<close> is \<open>nil\<close>), one
  returning \<open>(T, error)\<close> a function into \<open>error + T\<close>.
\<close>

datatype error = Err string | NilDeref | NoReturn

type_synonym 'a result = "error + 'a"

named_theorems validation_simps \<open>when a validator accepts\<close>
named_theorems loop_cong \<open>congruence rules of the loop combinators\<close>

text \<open>\<open>if err := e1; err != nil { return err }; \<dots>\<close>: the first error of a sequence of checks.\<close>

fun first_error :: "'e option list \<Rightarrow> 'e option" where
  "first_error [] = None"
| "first_error (None # rest) = first_error rest"
| "first_error (Some e # rest) = Some e"

definition fail_if :: "bool \<Rightarrow> string \<Rightarrow> error option" where
  "fail_if b m = (if b then Some (Err m) else None)"

definition and_then :: "'e + 'a \<Rightarrow> ('a \<Rightarrow> 'e + 'b) \<Rightarrow> 'e + 'b" where
  "and_then r f = (case r of Inl e \<Rightarrow> Inl e | Inr x \<Rightarrow> f x)"

definition guard_error :: "'e option \<Rightarrow> 'e + 'a \<Rightarrow> 'e + 'a" where
  "guard_error c r = (case c of Some e \<Rightarrow> Inl e | None \<Rightarrow> r)"

lemma first_error_None [validation_simps]:
  "first_error es = None \<longleftrightarrow> (\<forall>e \<in> set es. e = None)"
  by (induction es rule: first_error.induct) auto

lemma fail_if_None [simp, validation_simps]: "fail_if b m = None \<longleftrightarrow> \<not> b"
  by (simp add: fail_if_def)

lemma fail_if_Some [simp]: "fail_if b m = Some e \<longleftrightarrow> b \<and> e = Err m"
  by (auto simp: fail_if_def)

lemma fail_if_simps [simp]: "fail_if True m = Some (Err m)" "fail_if False m = None"
  by (simp_all add: fail_if_def)

lemma and_then_simps [simp]: "and_then (Inl e) f = Inl e" "and_then (Inr x) f = f x"
  by (simp_all add: and_then_def)

lemma and_then_Inr: "and_then r f = Inr y \<longleftrightarrow> (\<exists>x. r = Inr x \<and> f x = Inr y)"
  by (cases r) auto

lemma guard_error_simps [simp]: "guard_error (Some e) r = Inl e" "guard_error None r = r"
  by (simp_all add: guard_error_def)

lemma guard_error_Inr: "guard_error c r = Inr y \<longleftrightarrow> c = None \<and> r = Inr y"
  by (cases c) auto

section \<open>Loops with early return\<close>

text \<open>\<open>for _, x := range xs { if err := f(x); err != nil { return err } }\<close>\<close>

fun check_all :: "('a \<Rightarrow> 'e option) \<Rightarrow> 'a list \<Rightarrow> 'e option" where
  "check_all f [] = None"
| "check_all f (x # xs) = (case f x of Some e \<Rightarrow> Some e | None \<Rightarrow> check_all f xs)"

lemma check_all_None [validation_simps]: "check_all f xs = None \<longleftrightarrow> (\<forall>x \<in> set xs. f x = None)"
  by (induction xs) (auto split: option.splits)

lemma check_all_cong [fundef_cong, loop_cong]:
  "xs = ys \<Longrightarrow> (\<And>x. x \<in> set ys \<Longrightarrow> f x = g x) \<Longrightarrow> check_all f xs = check_all g ys"
  by (induction ys arbitrary: xs) (auto split: option.splits)

text \<open>
  The same loop with a set of the keys seen so far, \<open>seen[key(x)] = struct{}{}\<close> at the end of
  each round that did not return.
\<close>

fun loop_seen :: "('a \<Rightarrow> 'k) \<Rightarrow> ('k set \<Rightarrow> 'a \<Rightarrow> 'e option) \<Rightarrow> 'k set \<Rightarrow> 'a list \<Rightarrow> 'e option" where
  "loop_seen key body seen [] = None"
| "loop_seen key body seen (x # xs) =
     (case body seen x of Some e \<Rightarrow> Some e | None \<Rightarrow> loop_seen key body (insert (key x) seen) xs)"

lemma loop_seen_cong [fundef_cong, loop_cong]:
  "key = key' \<Longrightarrow> seen = seen' \<Longrightarrow> xs = ys \<Longrightarrow> (\<And>s x. x \<in> set ys \<Longrightarrow> f s x = g s x) \<Longrightarrow>
   loop_seen key f seen xs = loop_seen key' g seen' ys"
proof (induction ys arbitrary: xs seen seen')
  case Nil
  then show ?case by simp
next
  case (Cons y ys)
  have "loop_seen key' f (insert (key' y) seen') ys = loop_seen key' g (insert (key' y) seen') ys"
    using Cons.IH [OF _ refl refl] Cons.prems by simp
  then show ?case using Cons.prems by (simp split: option.splits)
qed

text \<open>
  The pattern all the duplicate checks share: checks before, the duplicate check, checks after.
\<close>

lemma loop_seen_distinct [validation_simps]:
  assumes "\<And>seen x. body seen x = None \<longleftrightarrow> P x \<and> key x \<notin> seen"
  shows "loop_seen key body seen xs = None \<longleftrightarrow>
    (\<forall>x \<in> set xs. P x) \<and> distinct (map key xs) \<and> key ` set xs \<inter> seen = {}"
proof (induction xs arbitrary: seen)
  case Nil
  then show ?case by simp
next
  case (Cons x xs)
  have "loop_seen key body seen (x # xs) = None \<longleftrightarrow>
      body seen x = None \<and> loop_seen key body (insert (key x) seen) xs = None"
    by (simp split: option.splits)
  then show ?case using Cons.IH [of "insert (key x) seen"] assms by auto
qed

text \<open>\<open>for _, x := range xs { if err := step(&s, x); err != nil { return err } }\<close>\<close>

fun fold_result :: "('s \<Rightarrow> 'a \<Rightarrow> 'e + 's) \<Rightarrow> 's \<Rightarrow> 'a list \<Rightarrow> 'e + 's" where
  "fold_result f s [] = Inr s"
| "fold_result f s (x # xs) = and_then (f s x) (\<lambda>s'. fold_result f s' xs)"

lemma fold_result_append:
  "fold_result f s (xs @ ys) = and_then (fold_result f s xs) (\<lambda>s'. fold_result f s' ys)"
  by (induction xs arbitrary: s) (auto simp: and_then_def split: sum.splits)

lemma fold_result_invariant:
  assumes step: "\<And>s x s'. I s \<Longrightarrow> x \<in> set xs \<Longrightarrow> f s x = Inr s' \<Longrightarrow> I s'"
    and "I s" and "fold_result f s xs = Inr s'"
  shows "I s'"
  using assms
proof (induction xs arbitrary: s)
  case Nil
  then show ?case by simp
next
  case (Cons x xs)
  from Cons.prems(3) obtain t where t: "f s x = Inr t" and rest: "fold_result f t xs = Inr s'"
    by (auto simp: and_then_Inr)
  have "I t" using Cons.prems(1) [OF Cons.prems(2) _ t] by simp
  show ?case
    by (rule Cons.IH [OF _ \<open>I t\<close> rest]) (use Cons.prems(1) in auto)
qed

lemma fold_result_each: "fold_result f s xs = Inr t \<Longrightarrow> x \<in> set xs \<Longrightarrow> \<exists>u v. f u x = Inr v"
  by (induction xs arbitrary: s) (auto simp: and_then_Inr)

section \<open>First match in a slice\<close>

fun replace_first :: "('a \<Rightarrow> bool) \<Rightarrow> 'a \<Rightarrow> 'a list \<Rightarrow> 'a list" where
  "replace_first P y [] = []"
| "replace_first P y (x # xs) = (if P x then y # xs else x # replace_first P y xs)"

fun remove_first :: "('a \<Rightarrow> bool) \<Rightarrow> 'a list \<Rightarrow> 'a list" where
  "remove_first P [] = []"
| "remove_first P (x # xs) = (if P x then xs else x # remove_first P xs)"

lemma length_replace_first [simp]: "length (replace_first P y xs) = length xs"
  by (induction xs) auto

lemma set_replace_first: "set (replace_first P y xs) \<subseteq> insert y (set xs)"
  by (induction xs) auto

lemma replace_first_idem: "find P xs = Some x \<Longrightarrow> replace_first P x xs = xs"
  by (induction xs) (auto split: if_splits)

lemma map_replace_first:
  "find P xs = Some x \<Longrightarrow> h y = h x \<Longrightarrow> map h (replace_first P y xs) = map h xs"
  by (induction xs) (auto split: if_splits)

lemma find_SomeD: "find P xs = Some x \<Longrightarrow> x \<in> set xs \<and> P x"
  by (induction xs) (auto split: if_splits)

lemma find_distinct_key:
  "distinct (map key xs) \<Longrightarrow> x \<in> set xs \<Longrightarrow> find (\<lambda>y. key y = key x) xs = Some x"
  by (induction xs) (auto simp: image_iff)

lemma find_replace_first:
  "find (\<lambda>x. key x = k) xs \<noteq> None \<Longrightarrow> key y = k \<Longrightarrow>
   find (\<lambda>x. key x = k) (replace_first (\<lambda>x. key x = k) y xs) = Some y"
  by (induction xs) auto

lemma find_replace_first_other:
  "key y = k \<Longrightarrow> k' \<noteq> k \<Longrightarrow>
   find (\<lambda>x. key x = k') (replace_first (\<lambda>x. key x = k) y xs) = find (\<lambda>x. key x = k') xs"
  by (induction xs) auto

lemma replace_first_distinct:
  "distinct (map key xs) \<Longrightarrow> x \<in> set xs \<Longrightarrow> key x = k \<Longrightarrow>
   replace_first (\<lambda>x. key x = k) y xs = map (\<lambda>z. if key z = k then y else z) xs"
proof (induction xs)
  case Nil
  then show ?case by simp
next
  case (Cons a xs)
  show ?case
  proof (cases "key a = k")
    case True
    with Cons.prems have "k \<notin> key ` set xs" by auto
    then have "map (\<lambda>z. if key z = k then y else z) xs = xs"
      by (intro map_idI) auto
    with True show ?thesis by simp
  next
    case False
    with Cons show ?thesis by auto
  qed
qed

section \<open>Sorting by a key\<close>

text \<open>
  \<open>sort.Slice\<close> and \<open>sort.SliceStable\<close> are \<^const>\<open>sort_key\<close> (stable). \<open>sort.Slice\<close> only promises
  some sorted permutation; where the keys are distinct there is only one.
\<close>

lemma sort_key_unique:
  assumes "mset ys = mset xs" and "sorted (map key ys)" and "distinct (map key xs)"
  shows "ys = sort_key key xs"
proof (rule properties_for_sort_key [symmetric])
  show "mset ys = mset xs" by (fact assms(1))
  show "sorted (map key ys)" by (fact assms(2))
  fix k assume "k \<in> set ys"
  have d: "distinct (map key ys)"
    using assms(1,3) by (metis distinct_map mset_eq_setD mset_eq_imp_distinct_iff)
  have one: "filter (\<lambda>x. key k = key x) zs = [k]" if "distinct (map key zs)" "k \<in> set zs" for zs
    using that by (induction zs) (auto simp: filter_empty_conv image_iff)
  have dx: "distinct (map key xs)" by (fact assms(3))
  have "k \<in> set xs" using \<open>k \<in> set ys\<close> assms(1) by (metis mset_eq_setD)
  then show "filter (\<lambda>x. key k = key x) ys = filter (\<lambda>x. key k = key x) xs"
    using one [OF d \<open>k \<in> set ys\<close>] one [OF dx] by simp
qed

lemma map_sort_key_idem: "sorted (map key xs) \<Longrightarrow> sort_key key xs = xs"
  by (rule sort_key_id_if_sorted)

end
