(* ===== verification/Go_Strings.thy ===== *)
theory Go_Strings
  imports Prelude
begin

text \<open>
  The parts of Go's \<open>strings\<close>, \<open>strconv\<close> and \<open>unicode/utf8\<close> packages that
  \<open>internal/aidocument\<close> calls. A Go string is a byte string; \<^typ>\<open>string\<close> is a list of bytes
  here, \<open>len\<close> is \<^const>\<open>length\<close> and \<open><\<close> on strings is the lexicographic order on bytes.
\<close>

section \<open>White space\<close>

text \<open>
  The UTF-8 encodings of the runes with \<open>unicode.IsSpace\<close>. Every encoding starts with an ASCII
  byte or a UTF-8 lead byte, so matching an encoding at the front or at the back of the bytes
  finds exactly the runes that \<open>strings.TrimSpace\<close> decodes there, in invalid UTF-8 too.
\<close>

definition space_encodings :: "string list" where
  "space_encodings =
    [[CHR 0x09], [CHR 0x0A], [CHR 0x0B], [CHR 0x0C], [CHR 0x0D], [CHR 0x20],
     [CHR 0xC2, CHR 0x85], [CHR 0xC2, CHR 0xA0], [CHR 0xE1, CHR 0x9A, CHR 0x80],
     [CHR 0xE2, CHR 0x80, CHR 0x80], [CHR 0xE2, CHR 0x80, CHR 0x81], [CHR 0xE2, CHR 0x80, CHR 0x82],
     [CHR 0xE2, CHR 0x80, CHR 0x83], [CHR 0xE2, CHR 0x80, CHR 0x84], [CHR 0xE2, CHR 0x80, CHR 0x85],
     [CHR 0xE2, CHR 0x80, CHR 0x86], [CHR 0xE2, CHR 0x80, CHR 0x87], [CHR 0xE2, CHR 0x80, CHR 0x88],
     [CHR 0xE2, CHR 0x80, CHR 0x89], [CHR 0xE2, CHR 0x80, CHR 0x8A], [CHR 0xE2, CHR 0x80, CHR 0xA8],
     [CHR 0xE2, CHR 0x80, CHR 0xA9], [CHR 0xE2, CHR 0x80, CHR 0xAF], [CHR 0xE2, CHR 0x81, CHR 0x9F],
     [CHR 0xE3, CHR 0x80, CHR 0x80]]"

definition has_prefix :: "string \<Rightarrow> string \<Rightarrow> bool" where
  "has_prefix s p \<longleftrightarrow> take (length p) s = p"

function strip_front :: "string list \<Rightarrow> string \<Rightarrow> string" where
  "strip_front ws s =
     (case find (\<lambda>w. w \<noteq> [] \<and> has_prefix s w) ws of
        None \<Rightarrow> s
      | Some w \<Rightarrow> strip_front ws (drop (length w) s))"
  by pat_completeness auto
termination
proof (relation "measure (\<lambda>(ws, s). length s)", simp)
  fix ws s w
  assume "find (\<lambda>w. w \<noteq> [] \<and> has_prefix s w) ws = Some w"
  then have "w \<noteq> [] \<and> has_prefix s w" by (auto dest: find_SomeD)
  then show "((ws, drop (length w) s), ws, s) \<in> measure (\<lambda>(ws, s). length s)"
    by (cases s) (auto simp: has_prefix_def)
qed

declare strip_front.simps [simp del]

definition trim_space :: "string \<Rightarrow> string" where
  "trim_space s =
     rev (strip_front (map rev space_encodings) (rev (strip_front space_encodings s)))"

definition contains_any :: "string \<Rightarrow> string \<Rightarrow> bool" where
  "contains_any s chars \<longleftrightarrow> list_ex (\<lambda>c. c \<in> set chars) s"

text \<open>\<open>strings.FieldsFunc\<close> for a separator test on ASCII characters.\<close>

fun fields_func :: "(char \<Rightarrow> bool) \<Rightarrow> string \<Rightarrow> string \<Rightarrow> string list" where
  "fields_func sep acc [] = (if acc = [] then [] else [rev acc])"
| "fields_func sep acc (c # s) =
     (if sep c then (if acc = [] then fields_func sep [] s else rev acc # fields_func sep [] s)
      else fields_func sep (c # acc) s)"

definition is_digit :: "char \<Rightarrow> bool" where
  "is_digit c \<longleftrightarrow> CHR ''0'' \<le> c \<and> c \<le> CHR ''9''"

definition is_lower :: "char \<Rightarrow> bool" where
  "is_lower c \<longleftrightarrow> CHR ''a'' \<le> c \<and> c \<le> CHR ''z''"

definition is_upper :: "char \<Rightarrow> bool" where
  "is_upper c \<longleftrightarrow> CHR ''A'' \<le> c \<and> c \<le> CHR ''Z''"

definition ascii_lower :: "char \<Rightarrow> char" where
  "ascii_lower c = (if is_upper c then char_of (of_char c + 32 :: nat) else c)"

text \<open>\<open>strings.Split(s, sep)\<close> for a one-byte separator; the result is never empty.\<close>

fun split_on :: "char \<Rightarrow> string \<Rightarrow> string list" where
  "split_on sep [] = [[]]"
| "split_on sep (c # s) =
     (if c = sep then [] # split_on sep s
      else (case split_on sep s of [] \<Rightarrow> [[c]] | w # ws \<Rightarrow> (c # w) # ws))"

fun join_with :: "string \<Rightarrow> string list \<Rightarrow> string" where
  "join_with sep [] = []"
| "join_with sep [w] = w"
| "join_with sep (w # ws) = w @ sep @ join_with sep ws"

section \<open>Integers as decimal text\<close>

definition digit_char :: "nat \<Rightarrow> char" where
  "digit_char d = char_of (48 + d)"

definition digit_value :: "char \<Rightarrow> nat" where
  "digit_value c = of_char c - 48"

fun decimal :: "nat \<Rightarrow> string" where
  "decimal n = (if n < 10 then [digit_char n] else decimal (n div 10) @ [digit_char (n mod 10)])"

declare decimal.simps [simp del]

text \<open>\<open>strconv.Itoa\<close>\<close>

definition itoa :: "int \<Rightarrow> string" where
  "itoa i = (if i < 0 then CHR ''-'' # decimal (nat (- i)) else decimal (nat i))"

definition decimal_value :: "string \<Rightarrow> nat" where
  "decimal_value s = foldl (\<lambda>n c. 10 * n + digit_value c) 0 s"

text \<open>\<open>strconv.Atoi\<close> on a 64-bit platform: \<open>None\<close> is a \<open>*NumError\<close> (syntax or range).\<close>

definition atoi :: "string \<Rightarrow> int option" where
  "atoi s =
     (let neg = has_prefix s ''-'';
          body = (if neg \<or> has_prefix s ''+'' then tl s else s);
          v = int (decimal_value body)
      in if body = [] \<or> \<not> list_all is_digit body then None
         else if neg then (if v \<le> 2 ^ 63 then Some (- v) else None)
         else (if v < 2 ^ 63 then Some v else None))"

section \<open>Finite floating-point text\<close>

text \<open>
  \<open>strconv.ParseFloat(s, 64)\<close> followed by the tests that the result is finite. The texts of the
  infinities and of NaN are not numbers for \<open>readFloat\<close>, so the number is accepted iff it has the
  syntax of a Go floating-point literal, with an optional sign, and does not round to an infinity.
  The loops follow \<open>readFloat\<close>: \<open>nd\<close> counts the digits after the leading zeros, \<open>dp\<close> places the
  point, \<open>m\<close> is the digits' value, an exponent stops growing at 10000.
\<close>

definition hex_value :: "char \<Rightarrow> nat" where
  "hex_value c = (if is_digit c then digit_value c else of_char (ascii_lower c) - 87)"

definition is_hex_letter :: "char \<Rightarrow> bool" where
  "is_hex_letter c \<longleftrightarrow> CHR ''a'' \<le> ascii_lower c \<and> ascii_lower c \<le> CHR ''f''"

record float_scan =
  sawdot :: bool
  sawdigits :: bool
  nd :: nat
  dp :: int
  mant :: nat

fun scan_digits :: "bool \<Rightarrow> float_scan \<Rightarrow> string \<Rightarrow> float_scan \<times> string" where
  "scan_digits hex f [] = (f, [])"
| "scan_digits hex f (c # s) =
     (if c = CHR ''_'' then scan_digits hex f s
      else if c = CHR ''.'' then
        (if sawdot f then (f, c # s) else scan_digits hex (f\<lparr>sawdot := True, dp := int (nd f)\<rparr>) s)
      else if is_digit c then
        (if c = CHR ''0'' \<and> nd f = 0 then scan_digits hex (f\<lparr>sawdigits := True, dp := dp f - 1\<rparr>) s
         else scan_digits hex (f\<lparr>sawdigits := True, nd := Suc (nd f),
                mant := (if hex then 16 else 10) * mant f + digit_value c\<rparr>) s)
      else if hex \<and> is_hex_letter c then
        scan_digits hex (f\<lparr>sawdigits := True, nd := Suc (nd f), mant := 16 * mant f + hex_value c\<rparr>) s
      else (f, c # s))"

fun scan_exponent :: "nat \<Rightarrow> string \<Rightarrow> nat \<times> string" where
  "scan_exponent e [] = (e, [])"
| "scan_exponent e (c # s) =
     (if c = CHR ''_'' then scan_exponent e s
      else if is_digit c then scan_exponent (if e < 10000 then 10 * e + digit_value c else e) s
      else (e, c # s))"

datatype underscore_state = SawStart | SawDigit | SawUnderscore | SawOther

fun underscores_between :: "bool \<Rightarrow> underscore_state \<Rightarrow> string \<Rightarrow> bool" where
  "underscores_between hex saw [] \<longleftrightarrow> saw \<noteq> SawUnderscore"
| "underscores_between hex saw (c # s) \<longleftrightarrow>
     (if is_digit c \<or> hex \<and> is_hex_letter c then underscores_between hex SawDigit s
      else if c = CHR ''_'' then saw = SawDigit \<and> underscores_between hex SawUnderscore s
      else saw \<noteq> SawUnderscore \<and> underscores_between hex SawOther s)"

definition float_limit :: nat where
  "float_limit = 2 ^ 1024 - 2 ^ 970"

definition float_in_range :: "nat \<Rightarrow> nat \<Rightarrow> int \<Rightarrow> bool" where
  "float_in_range m b e \<longleftrightarrow>
     (if 0 \<le> e then m * b ^ nat e < float_limit else m < float_limit * b ^ nat (- e))"

definition parse_float_finite :: "string \<Rightarrow> bool" where
  "parse_float_finite s =
     (let body = (if has_prefix s ''+'' \<or> has_prefix s ''-'' then tl s else s);
          hex = (2 < length body \<and> body ! 0 = CHR ''0'' \<and> ascii_lower (body ! 1) = CHR ''x'');
          digits = (if hex then drop 2 body else body);
          (f, rest) = scan_digits hex \<lparr>sawdot = False, sawdigits = False, nd = 0, dp = 0, mant = 0\<rparr> digits;
          point = (if sawdot f then dp f else int (nd f));
          expchar = (if hex then CHR ''p'' else CHR ''e'');
          has_exp = (rest \<noteq> [] \<and> ascii_lower (hd rest) = expchar);
          after = tl rest;
          negexp = has_prefix after ''-'';
          exptext = (if negexp \<or> has_prefix after ''+'' then tl after else after);
          (e, trail) = (if has_exp then scan_exponent 0 exptext else (0, rest));
          shift = (if negexp \<and> has_exp then - int e else int e);
          underscores_ok = (CHR ''_'' \<notin> set s \<or>
            underscores_between hex (if hex then SawDigit else SawStart) digits)
      in sawdigits f \<and> trail = [] \<and> underscores_ok
         \<and> (if has_exp then exptext \<noteq> [] \<and> is_digit (hd exptext) else \<not> hex)
         \<and> (if hex then float_in_range (mant f) 2 (4 * point + shift - 4 * int (nd f))
            else float_in_range (mant f) 10 (point + shift - int (nd f))))"

end
