(* ===== verification/Doc_Types.thy ===== *)
theory Doc_Types
  imports Go_Strings
begin

text \<open>
  The data of \<open>internal/aidocument\<close>: \<open>types.go\<close> (documents, nodes, typed values, catalogs) and the
  operation types of \<open>operations.go\<close>. A Go struct is a record (a datatype with selectors where it
  is recursive), a pointer an \<^typ>\<open>'a option\<close>, a slice a list. A closed set of string constants is
  a datatype; where the code also meets other strings of that type (a value kind read from a
  caller, the empty kind of a file field) the datatype has a last constructor for them.
\<close>

type_synonym Domain = string
type_synonym DocumentReference = string
type_synonym Revision = string
type_synonym Locale = string
type_synonym BlockID = string
type_synonym BlockKind = string
type_synonym RelationID = string
type_synonym RelationItemID = string
type_synonym RelationItemKind = string
type_synonym FieldID = string
type_synonym FileReference = string
type_synonym Cursor = string

definition ProtocolVersion :: string where
  "ProtocolVersion = ''dcdp/1''"

definition supportedDomains :: "Domain list" where
  "supportedDomains =
    [''post'', ''page'', ''work'', ''program_event'', ''release'', ''artist'', ''label'', ''menu'',
     ''email_template'', ''email_layout'', ''campaign'', ''form'', ''privacy'', ''terms'',
     ''post_series'']"

record DocumentIdentity =
  idDomain :: Domain
  idReference :: DocumentReference

datatype LocaleRole = LocaleRoleSource | LocaleRoleNonSource

definition deriveLocaleRole :: "Locale \<Rightarrow> Locale \<Rightarrow> LocaleRole" where
  "deriveLocaleRole source requested =
     (if source = requested then LocaleRoleSource else LocaleRoleNonSource)"

section \<open>Typed values\<close>

datatype ValueKind =
    ValueKindText | ValueKindBoolean | ValueKindNumber | ValueKindInline | ValueKindList
  | ValueKindObject | ValueKindOther string

datatype InlineKind =
    InlineKindSiteVariable | InlineKindText | InlineKindBold | InlineKindItalic
  | InlineKindUnderline | InlineKindStrike | InlineKindCode | InlineKindTextColor
  | InlineKindBackground | InlineKindLink | InlineKindHardBreak | InlineKindMath
  | InlineKindPlaceholder | InlineKindOther string

datatype InlineItem =
  InlineItem (iLinked: bool) (iKind: InlineKind) (iText: string) (iTarget: string)
    (iChildren: "InlineItem list")

text \<open>\<open>ListItem\<close> is a pair of its handle and value, \<open>ObjectField\<close> of its field and value.\<close>

datatype Value =
  Value (vKind: ValueKind) (vText: string) (vBoolean: bool) (vInline: "InlineItem list")
    (vList: "(RelationItemID \<times> Value) list") (vObject: "(FieldID \<times> Value) list")

definition zeroValue :: Value where
  "zeroValue = Value (ValueKindOther '''') '''' False [] [] []"

definition TextValue :: "string \<Rightarrow> Value" where
  "TextValue t = Value ValueKindText t False [] [] []"

definition BooleanValue :: "bool \<Rightarrow> Value" where
  "BooleanValue b = Value ValueKindBoolean '''' b [] [] []"

definition NumberValue :: "string \<Rightarrow> Value" where
  "NumberValue t = Value ValueKindNumber t False [] [] []"

definition RichText :: "InlineItem list \<Rightarrow> Value" where
  "RichText items = Value ValueKindInline '''' False items [] []"

definition ListValue :: "(RelationItemID \<times> Value) list \<Rightarrow> Value" where
  "ListValue items = Value ValueKindList '''' False [] items []"

definition ObjectOf :: "(FieldID \<times> Value) list \<Rightarrow> Value" where
  "ObjectOf fs = Value ValueKindObject '''' False [] [] fs"

definition InlineText :: "string \<Rightarrow> InlineItem" where
  "InlineText t = InlineItem False InlineKindText t '''' []"

definition Mark :: "InlineKind \<Rightarrow> string \<Rightarrow> InlineItem list \<Rightarrow> InlineItem" where
  "Mark k target children = InlineItem False k '''' target children"

lemmas value_constructors = zeroValue_def TextValue_def BooleanValue_def NumberValue_def
  RichText_def ListValue_def ObjectOf_def InlineText_def Mark_def

lemma size_vList [termination_simp]: "(k, w) \<in> set (vList v) \<Longrightarrow> size w < size v"
  by (cases v) (auto dest!: split_list simp: size_list_append)

lemma size_vObject [termination_simp]: "(k, w) \<in> set (vObject v) \<Longrightarrow> size w < size v"
  by (cases v) (auto dest!: split_list simp: size_list_append)

lemma size_iChildren [termination_simp]: "c \<in> set (iChildren i) \<Longrightarrow> size c < size i"
  by (cases i) (auto dest!: split_list simp: size_list_append)

lemma Value_tree_induct [case_names Value]:
  assumes "\<And>v. (\<And>k w. (k, w) \<in> set (vList v) \<Longrightarrow> P w) \<Longrightarrow>
      (\<And>k w. (k, w) \<in> set (vObject v) \<Longrightarrow> P w) \<Longrightarrow> P v"
  shows "P v"
proof (induction v rule: measure_induct_rule [where f = size])
  case (less v)
  then show ?case by (meson assms size_vList size_vObject)
qed

section \<open>Document structure\<close>

record FieldPathSegment =
  segField :: FieldID
  segItem :: RelationItemID

record FieldValue =
  fvID :: FieldID
  fvValue :: Value

record FileBinding =
  fbField :: FieldID
  fbPath :: "FieldPathSegment list"
  fbFile :: FileReference

record RelationItem =
  riID :: RelationItemID
  riKind :: RelationItemKind
  riOrder :: int
  riShared :: "FieldValue list"
  riLocalized :: "FieldValue list"
  riFiles :: "FileBinding list"

record Relation =
  relID :: RelationID
  relItems :: "RelationItem list"

record Node =
  nodeID :: BlockID
  nodeKind :: BlockKind
  nodeParent :: BlockID
  nodeOrder :: int
  nodeShared :: "FieldValue list"
  nodeLocalized :: "FieldValue list"
  nodeFiles :: "FileBinding list"
  nodeRelations :: "Relation list"

section \<open>Catalogs\<close>

datatype FieldOwnership =
    FieldOwnershipShared | FieldOwnershipSource | FieldOwnershipLocale | FieldOwnershipOther string

datatype ListIdentityKind =
    ListIdentityPositional | ListIdentityValue | ListIdentityField | ListIdentityFixed
  | ListIdentityOther string

record ListIdentityRule =
  liKind :: ListIdentityKind
  liField :: FieldID
  liHandles :: "RelationItemID list"

text \<open>
  The enumeration, the numeric bounds and the required flag of a \<open>FieldSchema\<close> are discovery
  metadata that no code of the package reads; they are left out.
\<close>

datatype FieldSchema =
  FieldSchema (sKind: ValueKind) (sOwnership: FieldOwnership) (sTranslatable: bool) (sFile: bool)
    (sItem: "FieldSchema option") (sFields: "(FieldID \<times> FieldSchema) list")
    (sIdentity: ListIdentityRule)

record FieldRule =
  frBlockKind :: BlockKind
  frField :: FieldID
  frValueKind :: ValueKind
  frOwnership :: FieldOwnership
  frTranslatable :: bool
  frFile :: bool
  frSchema :: "FieldSchema option"

record RelationRule =
  rrBlockKind :: BlockKind
  rrRelation :: RelationID
  rrItemKinds :: "RelationItemKind list"

record RelationFieldRule =
  rfBlockKind :: BlockKind
  rfRelation :: RelationID
  rfItemKind :: RelationItemKind
  rfField :: FieldID
  rfValueKind :: ValueKind
  rfOwnership :: FieldOwnership
  rfTranslatable :: bool
  rfFile :: bool
  rfSchema :: "FieldSchema option"

record BlockKindRule =
  bkKind :: BlockKind
  bkCategory :: string
  bkAllowedParents :: "BlockKind list"

record Catalog =
  catBlockRules :: "BlockKindRule list"
  catFingerprint :: string
  catBlockKinds :: "BlockKind list"
  catFields :: "FieldRule list"
  catRelations :: "RelationRule list"
  catRelationFields :: "RelationFieldRule list"

record Document =
  docIdentity :: DocumentIdentity
  docRevision :: Revision
  docTargetRevision :: "Revision option"
  docSourceLocale :: Locale
  docLocale :: Locale
  docLocaleExists :: bool
  docCatalog :: Catalog
  docNodes :: "Node list"

definition Role :: "Document \<Rightarrow> LocaleRole" where
  "Role d = deriveLocaleRole (docSourceLocale d) (docLocale d)"

section \<open>Operations\<close>

datatype OperationKind =
    OperationSetField | OperationUnsetField | OperationInsertBlock | OperationDeleteBlock
  | OperationMoveBlock | OperationReplaceBlockKind | OperationInsertRelationItem
  | OperationDeleteRelationItem | OperationMoveRelationItem | OperationAttachFile
  | OperationDetachFile | OperationCreateTranslation | OperationDeleteTranslation
  | OperationOther string

record FieldTarget =
  tgtBlock :: BlockID
  tgtRelation :: RelationID
  tgtItem :: RelationItemID
  tgtField :: FieldID
  tgtPath :: "FieldPathSegment list"

definition relationItem :: "FieldTarget \<Rightarrow> bool" where
  "relationItem t \<longleftrightarrow> tgtRelation t \<noteq> '''' \<or> tgtItem t \<noteq> ''''"

record SetField =
  sfTarget :: FieldTarget
  sfValue :: Value

record InsertBlock =
  ibBlock :: BlockID
  ibKind :: BlockKind
  ibParent :: BlockID
  ibAfter :: BlockID

record MoveBlock =
  mbBlock :: BlockID
  mbParent :: BlockID
  mbAfter :: BlockID

record ReplaceBlockKind =
  rbBlock :: BlockID
  rbKind :: BlockKind

record InsertRelationItem =
  iriBlock :: BlockID
  iriRelation :: RelationID
  iriItem :: RelationItemID
  iriKind :: RelationItemKind
  iriAfter :: RelationItemID

record DeleteRelationItem =
  driBlock :: BlockID
  driRelation :: RelationID
  driItem :: RelationItemID

record MoveRelationItem =
  mriBlock :: BlockID
  mriRelation :: RelationID
  mriItem :: RelationItemID
  mriTargetBlock :: BlockID
  mriTarget :: RelationID
  mriAfter :: RelationItemID

record AttachFile =
  afTarget :: FieldTarget
  afFile :: FileReference

text \<open>
  The payload structs with one field (\<open>UnsetField\<close>, \<open>DeleteBlock\<close>, \<open>DetachFile\<close>) are that field,
  the two empty ones are \<^typ>\<open>unit\<close>.
\<close>

record Operation =
  opKind :: OperationKind
  opSetField :: "SetField option"
  opUnsetField :: "FieldTarget option"
  opInsertBlock :: "InsertBlock option"
  opDeleteBlock :: "BlockID option"
  opMoveBlock :: "MoveBlock option"
  opReplaceBlockKind :: "ReplaceBlockKind option"
  opInsertRelationItem :: "InsertRelationItem option"
  opDeleteRelationItem :: "DeleteRelationItem option"
  opMoveRelationItem :: "MoveRelationItem option"
  opAttachFile :: "AttachFile option"
  opDetachFile :: "FieldTarget option"
  opCreateTranslation :: "unit option"
  opDeleteTranslation :: "unit option"

definition emptyOperation :: "OperationKind \<Rightarrow> Operation" where
  "emptyOperation k =
     \<lparr>opKind = k, opSetField = None, opUnsetField = None, opInsertBlock = None,
      opDeleteBlock = None, opMoveBlock = None, opReplaceBlockKind = None,
      opInsertRelationItem = None, opDeleteRelationItem = None, opMoveRelationItem = None,
      opAttachFile = None, opDetachFile = None, opCreateTranslation = None,
      opDeleteTranslation = None\<rparr>"

definition fieldTargetOf :: "BlockID \<Rightarrow> FieldID \<Rightarrow> FieldTarget" where
  "fieldTargetOf block field =
     \<lparr>tgtBlock = block, tgtRelation = '''', tgtItem = '''', tgtField = field, tgtPath = []\<rparr>"

definition relationTargetOf :: "BlockID \<Rightarrow> RelationID \<Rightarrow> RelationItemID \<Rightarrow> FieldID \<Rightarrow> FieldTarget" where
  "relationTargetOf block relation item field =
     \<lparr>tgtBlock = block, tgtRelation = relation, tgtItem = item, tgtField = field, tgtPath = []\<rparr>"

definition SetFieldTo :: "FieldTarget \<Rightarrow> Value \<Rightarrow> Operation" where
  "SetFieldTo target v =
     (emptyOperation OperationSetField)\<lparr>opSetField := Some \<lparr>sfTarget = target, sfValue = v\<rparr>\<rparr>"

definition SetFieldOperation :: "BlockID \<Rightarrow> FieldID \<Rightarrow> Value \<Rightarrow> Operation" where
  "SetFieldOperation block field v = SetFieldTo (fieldTargetOf block field) v"

definition SetNestedFieldOperation :: "BlockID \<Rightarrow> FieldID \<Rightarrow> FieldPathSegment list \<Rightarrow> Value \<Rightarrow> Operation" where
  "SetNestedFieldOperation block field path v =
     SetFieldTo ((fieldTargetOf block field)\<lparr>tgtPath := path\<rparr>) v"

definition SetRelationFieldOperation :: "BlockID \<Rightarrow> RelationID \<Rightarrow> RelationItemID \<Rightarrow> FieldID \<Rightarrow> Value \<Rightarrow> Operation" where
  "SetRelationFieldOperation block relation item field v =
     SetFieldTo (relationTargetOf block relation item field) v"

definition UnsetFieldAt :: "FieldTarget \<Rightarrow> Operation" where
  "UnsetFieldAt target = (emptyOperation OperationUnsetField)\<lparr>opUnsetField := Some target\<rparr>"

definition UnsetFieldOperation :: "BlockID \<Rightarrow> FieldID \<Rightarrow> Operation" where
  "UnsetFieldOperation block field = UnsetFieldAt (fieldTargetOf block field)"

definition UnsetNestedFieldOperation :: "BlockID \<Rightarrow> FieldID \<Rightarrow> FieldPathSegment list \<Rightarrow> Operation" where
  "UnsetNestedFieldOperation block field path =
     UnsetFieldAt ((fieldTargetOf block field)\<lparr>tgtPath := path\<rparr>)"

definition UnsetRelationFieldOperation :: "BlockID \<Rightarrow> RelationID \<Rightarrow> RelationItemID \<Rightarrow> FieldID \<Rightarrow> Operation" where
  "UnsetRelationFieldOperation block relation item field =
     UnsetFieldAt (relationTargetOf block relation item field)"

definition InsertBlockOperation :: "BlockID \<Rightarrow> BlockKind \<Rightarrow> BlockID \<Rightarrow> BlockID \<Rightarrow> Operation" where
  "InsertBlockOperation block kind parent after =
     (emptyOperation OperationInsertBlock)\<lparr>opInsertBlock :=
        Some \<lparr>ibBlock = block, ibKind = kind, ibParent = parent, ibAfter = after\<rparr>\<rparr>"

definition DeleteBlockOperation :: "BlockID \<Rightarrow> Operation" where
  "DeleteBlockOperation block = (emptyOperation OperationDeleteBlock)\<lparr>opDeleteBlock := Some block\<rparr>"

definition MoveBlockOperation :: "BlockID \<Rightarrow> BlockID \<Rightarrow> BlockID \<Rightarrow> Operation" where
  "MoveBlockOperation block parent after =
     (emptyOperation OperationMoveBlock)\<lparr>opMoveBlock :=
        Some \<lparr>mbBlock = block, mbParent = parent, mbAfter = after\<rparr>\<rparr>"

definition ReplaceBlockKindOperation :: "BlockID \<Rightarrow> BlockKind \<Rightarrow> Operation" where
  "ReplaceBlockKindOperation block kind =
     (emptyOperation OperationReplaceBlockKind)\<lparr>opReplaceBlockKind :=
        Some \<lparr>rbBlock = block, rbKind = kind\<rparr>\<rparr>"

definition InsertRelationItemOperation ::
    "BlockID \<Rightarrow> RelationID \<Rightarrow> RelationItemID \<Rightarrow> RelationItemKind \<Rightarrow> RelationItemID \<Rightarrow> Operation" where
  "InsertRelationItemOperation block relation item kind after =
     (emptyOperation OperationInsertRelationItem)\<lparr>opInsertRelationItem :=
        Some \<lparr>iriBlock = block, iriRelation = relation, iriItem = item, iriKind = kind,
              iriAfter = after\<rparr>\<rparr>"

definition DeleteRelationItemOperation :: "BlockID \<Rightarrow> RelationID \<Rightarrow> RelationItemID \<Rightarrow> Operation" where
  "DeleteRelationItemOperation block relation item =
     (emptyOperation OperationDeleteRelationItem)\<lparr>opDeleteRelationItem :=
        Some \<lparr>driBlock = block, driRelation = relation, driItem = item\<rparr>\<rparr>"

definition MoveRelationItemOperation ::
    "BlockID \<Rightarrow> RelationID \<Rightarrow> RelationItemID \<Rightarrow> BlockID \<Rightarrow> RelationID \<Rightarrow> RelationItemID \<Rightarrow> Operation" where
  "MoveRelationItemOperation block relation item targetBlock target after =
     (emptyOperation OperationMoveRelationItem)\<lparr>opMoveRelationItem :=
        Some \<lparr>mriBlock = block, mriRelation = relation, mriItem = item,
              mriTargetBlock = targetBlock, mriTarget = target, mriAfter = after\<rparr>\<rparr>"

definition AttachFileTo :: "FieldTarget \<Rightarrow> FileReference \<Rightarrow> Operation" where
  "AttachFileTo target file =
     (emptyOperation OperationAttachFile)\<lparr>opAttachFile := Some \<lparr>afTarget = target, afFile = file\<rparr>\<rparr>"

definition AttachFileOperation :: "BlockID \<Rightarrow> FieldID \<Rightarrow> FileReference \<Rightarrow> Operation" where
  "AttachFileOperation block field file = AttachFileTo (fieldTargetOf block field) file"

definition AttachRelationFileOperation ::
    "BlockID \<Rightarrow> RelationID \<Rightarrow> RelationItemID \<Rightarrow> FieldID \<Rightarrow> FileReference \<Rightarrow> Operation" where
  "AttachRelationFileOperation block relation item field file =
     AttachFileTo (relationTargetOf block relation item field) file"

definition DetachFileAt :: "FieldTarget \<Rightarrow> Operation" where
  "DetachFileAt target = (emptyOperation OperationDetachFile)\<lparr>opDetachFile := Some target\<rparr>"

definition DetachFileOperation :: "BlockID \<Rightarrow> FieldID \<Rightarrow> Operation" where
  "DetachFileOperation block field = DetachFileAt (fieldTargetOf block field)"

definition DetachRelationFileOperation :: "BlockID \<Rightarrow> RelationID \<Rightarrow> RelationItemID \<Rightarrow> FieldID \<Rightarrow> Operation" where
  "DetachRelationFileOperation block relation item field =
     DetachFileAt (relationTargetOf block relation item field)"

definition CreateTranslationOperation :: Operation where
  "CreateTranslationOperation =
     (emptyOperation OperationCreateTranslation)\<lparr>opCreateTranslation := Some ()\<rparr>"

definition DeleteTranslationOperation :: Operation where
  "DeleteTranslationOperation =
     (emptyOperation OperationDeleteTranslation)\<lparr>opDeleteTranslation := Some ()\<rparr>"

lemmas operation_builders = emptyOperation_def fieldTargetOf_def relationTargetOf_def
  SetFieldTo_def SetFieldOperation_def SetNestedFieldOperation_def SetRelationFieldOperation_def
  UnsetFieldAt_def UnsetFieldOperation_def UnsetNestedFieldOperation_def
  UnsetRelationFieldOperation_def InsertBlockOperation_def DeleteBlockOperation_def
  MoveBlockOperation_def ReplaceBlockKindOperation_def InsertRelationItemOperation_def
  DeleteRelationItemOperation_def MoveRelationItemOperation_def AttachFileTo_def
  AttachFileOperation_def AttachRelationFileOperation_def DetachFileAt_def
  DetachFileOperation_def DetachRelationFileOperation_def CreateTranslationOperation_def
  DeleteTranslationOperation_def

definition payloadCount :: "Operation \<Rightarrow> nat" where
  "payloadCount op = length (filter id
     [opSetField op \<noteq> None, opUnsetField op \<noteq> None, opInsertBlock op \<noteq> None,
      opDeleteBlock op \<noteq> None, opMoveBlock op \<noteq> None, opReplaceBlockKind op \<noteq> None,
      opAttachFile op \<noteq> None, opDetachFile op \<noteq> None, opInsertRelationItem op \<noteq> None,
      opDeleteRelationItem op \<noteq> None, opMoveRelationItem op \<noteq> None,
      opCreateTranslation op \<noteq> None, opDeleteTranslation op \<noteq> None])"

definition kindMatchesPayload :: "Operation \<Rightarrow> bool" where
  "kindMatchesPayload op \<longleftrightarrow>
     (case opKind op of
        OperationSetField \<Rightarrow> opSetField op \<noteq> None
      | OperationUnsetField \<Rightarrow> opUnsetField op \<noteq> None
      | OperationInsertBlock \<Rightarrow> opInsertBlock op \<noteq> None
      | OperationDeleteBlock \<Rightarrow> opDeleteBlock op \<noteq> None
      | OperationMoveBlock \<Rightarrow> opMoveBlock op \<noteq> None
      | OperationReplaceBlockKind \<Rightarrow> opReplaceBlockKind op \<noteq> None
      | OperationInsertRelationItem \<Rightarrow> opInsertRelationItem op \<noteq> None
      | OperationDeleteRelationItem \<Rightarrow> opDeleteRelationItem op \<noteq> None
      | OperationMoveRelationItem \<Rightarrow> opMoveRelationItem op \<noteq> None
      | OperationAttachFile \<Rightarrow> opAttachFile op \<noteq> None
      | OperationDetachFile \<Rightarrow> opDetachFile op \<noteq> None
      | OperationCreateTranslation \<Rightarrow> opCreateTranslation op \<noteq> None
      | OperationDeleteTranslation \<Rightarrow> opDeleteTranslation op \<noteq> None
      | OperationOther _ \<Rightarrow> False)"

definition validateShape :: "Operation \<Rightarrow> error option" where
  "validateShape op =
     (if payloadCount op \<noteq> 1 then Some (Err ''operation must contain exactly one typed payload'')
      else if \<not> kindMatchesPayload op then Some (Err ''operation kind does not match its payload'')
      else None)"

end
