(* ===== verification/Value_Validation.thy ===== *)
theory Value_Validation
  imports Doc_Types
begin

text \<open>
  Identifiers and typed values: \<open>validateOpaque\<close>, \<open>validateStableID\<close>, \<open>validateLocale\<close>,
  \<open>validateFileReference\<close> of \<open>validate_document.go\<close>, \<open>FieldPathSegment.validate\<close> of
  \<open>operations.go\<close> and the value and inline validation of \<open>values.go\<close>.

  \<open>contentv1.IsSiteVariableKey\<close> belongs to the generated contracts module; it is the parameter
  \<open>K\<close> of the definitions that validate inline items.
\<close>

section \<open>Identifiers\<close>

definition validateOpaque :: "string \<Rightarrow> string \<Rightarrow> nat \<Rightarrow> error option" where
  "validateOpaque name v limit =
     (if v = [] \<or> length v > limit
        then Some (Err (name @ '' must contain 1 to the allowed number of characters''))
      else if trim_space v \<noteq> v \<or> contains_any v [CHR 0x0D, CHR 0x0A, CHR 0x09]
        then Some (Err (name @ '' contains whitespace outside its opaque value''))
      else None)"

definition maxHandleLength :: nat where "maxHandleLength = 160"
definition maxCatalogIDLength :: nat where "maxCatalogIDLength = 120"
definition maxKindLength :: nat where "maxKindLength = 80"

lemmas id_limits = maxHandleLength_def maxCatalogIDLength_def maxKindLength_def

definition path_separator :: "char \<Rightarrow> bool" where
  "path_separator c \<longleftrightarrow> c = CHR ''/'' \<or> c = CHR ''.'' \<or> c = CHR '':''"

definition validateStableID :: "string \<Rightarrow> string \<Rightarrow> nat \<Rightarrow> error option" where
  "validateStableID name v limit =
     (case validateOpaque name v limit of
        Some e \<Rightarrow> Some e
      | None \<Rightarrow>
          if contains_any v ''[]'' then Some (Err (name @ '' contains a positional path''))
          else check_all
            (\<lambda>segment. fail_if (segment \<noteq> [] \<and> list_all is_digit segment)
               (name @ '' contains a positional index''))
            (fields_func path_separator [] v))"

text \<open>
  \<open>validateLocale\<close> ranges over runes with their byte offset. A byte of a non-ASCII rune matches
  none of the accepted ranges, so ranging over bytes accepts the same strings.
\<close>

fun locale_characters :: "nat \<Rightarrow> nat \<Rightarrow> string \<Rightarrow> bool" where
  "locale_characters n i [] \<longleftrightarrow> True"
| "locale_characters n i (c # s) \<longleftrightarrow>
     (is_lower c \<or> is_upper c \<or> is_digit c \<or> (c = CHR ''-'' \<and> 0 < i \<and> i < n - 1))
     \<and> locale_characters n (Suc i) s"

definition validateLocale :: "Locale \<Rightarrow> error option" where
  "validateLocale v =
     (if v = [] \<or> length v > 35 then Some (Err ''locale must contain 1 to 35 characters'')
      else if \<not> locale_characters (length v) 0 v
        then Some (Err ''locale is not a canonical locale identifier'')
      else None)"

definition DocumentIdentity_validate :: "DocumentIdentity \<Rightarrow> error option" where
  "DocumentIdentity_validate i =
     (if idDomain i \<notin> set supportedDomains then Some (Err ''unsupported document domain'')
      else validateOpaque ''document reference'' (idReference i) 256)"

text \<open>
  \<open>strings.ToLower\<close> maps no non-ASCII rune to one of the characters of \<open>data:\<close>, so lowering the
  ASCII letters decides the prefix.
\<close>

definition validateFileReference :: "FileReference \<Rightarrow> error option" where
  "validateFileReference v =
     (case validateOpaque ''file reference'' v 256 of
        Some e \<Rightarrow> Some e
      | None \<Rightarrow> fail_if (has_prefix (map ascii_lower v) ''data:'')
          ''inline data file payloads are forbidden'')"

definition FieldPathSegment_validate :: "FieldPathSegment \<Rightarrow> error option" where
  "FieldPathSegment_validate s =
     (if (segField s = '''') = (segItem s = '''')
        then Some (Err ''field path segment must contain exactly one field or list item handle'')
      else if segField s \<noteq> '''' then validateStableID ''nested field ID'' (segField s) maxCatalogIDLength
      else validateStableID ''list item handle'' (segItem s) maxHandleLength)"

definition validateCanonicalFieldTarget :: "FieldTarget \<Rightarrow> error option" where
  "validateCanonicalFieldTarget t = first_error
     [validateStableID ''block ID'' (tgtBlock t) maxHandleLength,
      (if relationItem t then
         (if tgtRelation t = '''' \<or> tgtItem t = ''''
            then Some (Err ''relation-item field target requires both relation and item IDs'')
          else first_error
            [validateStableID ''relation ID'' (tgtRelation t) maxCatalogIDLength,
             validateStableID ''relation item ID'' (tgtItem t) maxHandleLength])
       else None),
      validateStableID ''field ID'' (tgtField t) maxCatalogIDLength,
      check_all FieldPathSegment_validate (tgtPath t)]"

lemma validateOpaque_None [validation_simps]:
  "validateOpaque name v limit = None \<longleftrightarrow>
     v \<noteq> [] \<and> length v \<le> limit \<and> trim_space v = v \<and>
     \<not> contains_any v [CHR 0x0D, CHR 0x0A, CHR 0x09]"
  by (auto simp: validateOpaque_def)

lemma validateStableID_nonempty: "validateStableID name v limit = None \<Longrightarrow> v \<noteq> []"
  by (auto simp: validateStableID_def validateOpaque_def split: if_splits option.splits)

section \<open>Inline items\<close>

definition validateChildren ::
    "(InlineItem \<Rightarrow> error option) \<Rightarrow> InlineItem \<Rightarrow> error option" where
  "validateChildren check i =
     (if iChildren i = [] then Some (Err ''inline item requires children'')
      else if iText i \<noteq> '''' then Some (Err ''inline item cannot contain scalar text'')
      else check_all check (iChildren i))"

lemma validateChildren_cong [fundef_cong]:
  "i = j \<Longrightarrow> (\<And>c. c \<in> set (iChildren j) \<Longrightarrow> f c = g c) \<Longrightarrow>
   validateChildren f i = validateChildren g j"
  by (auto simp: validateChildren_def intro: check_all_cong)

fun InlineItem_validate :: "(string \<Rightarrow> bool) \<Rightarrow> nat \<Rightarrow> InlineItem \<Rightarrow> error option" where
  "InlineItem_validate K depth i =
     (if depth > 32 then Some (Err ''inline nesting exceeds 32 levels'')
      else if iLinked i \<and> iKind i \<noteq> InlineKindSiteVariable
        then Some (Err ''linked is only valid for siteVariable'')
      else if iKind i = InlineKindSiteVariable then
        (if \<not> K (iText i) \<or> iTarget i \<noteq> '''' \<or> iChildren i \<noteq> []
           then Some (Err ''siteVariable requires one of the six catalog keys'')
         else if iLinked i \<and> iText i \<noteq> ''site.url'' \<and> \<not> has_prefix (iText i) ''contact.''
           then Some (Err ''siteVariable key cannot be linked'')
         else None)
      else if iKind i = InlineKindText then
        fail_if (iTarget i \<noteq> '''' \<or> iChildren i \<noteq> [])
          ''inline text cannot contain a target or children''
      else if iKind i \<in> {InlineKindBold, InlineKindItalic, InlineKindUnderline, InlineKindStrike,
          InlineKindCode} then
        (if iTarget i \<noteq> '''' then Some (Err ''inline item cannot contain a target'')
         else validateChildren (InlineItem_validate K (Suc depth)) i)
      else if iKind i \<in> {InlineKindTextColor, InlineKindBackground} then
        (case validateOpaque ''inline mark parameter'' (iTarget i) 64 of
           Some e \<Rightarrow> Some e
         | None \<Rightarrow> validateChildren (InlineItem_validate K (Suc depth)) i)
      else if iKind i = InlineKindLink then
        (case validateOpaque ''inline link target'' (iTarget i) 2048 of
           Some e \<Rightarrow> Some e
         | None \<Rightarrow> validateChildren (InlineItem_validate K (Suc depth)) i)
      else if iKind i = InlineKindHardBreak then
        fail_if (iText i \<noteq> '''' \<or> iTarget i \<noteq> '''' \<or> iChildren i \<noteq> [])
          ''hard break cannot contain payload''
      else if iKind i = InlineKindMath then
        fail_if (iText i = '''' \<or> iTarget i \<noteq> '''' \<or> iChildren i \<noteq> [])
          ''inline math requires only an expression''
      else if iKind i = InlineKindPlaceholder then
        (if iTarget i \<noteq> '''' \<or> iChildren i \<noteq> []
           then Some (Err ''placeholder cannot contain a target or children'')
         else validateStableID ''placeholder handle'' (iText i) maxHandleLength)
      else Some (Err ''unsupported inline item kind''))"

declare InlineItem_validate.simps [simp del]

definition ValidateInlineItems :: "(string \<Rightarrow> bool) \<Rightarrow> InlineItem list \<Rightarrow> error option" where
  "ValidateInlineItems K items = check_all (InlineItem_validate K 0) items"

section \<open>Values\<close>

definition validateFiniteNumber :: "string \<Rightarrow> error option" where
  "validateFiniteNumber t = fail_if (\<not> parse_float_finite t) ''invalid number''"

definition listItemRound ::
    "bool \<Rightarrow> (Value \<Rightarrow> error option) \<Rightarrow> RelationItemID set \<Rightarrow> RelationItemID \<times> Value \<Rightarrow> error option" where
  "listItemRound st check seen item =
     (if (fst item \<noteq> '''') \<noteq> st
        then Some (Err ''list item handles must be either present for every item or absent for every item'')
      else first_error
        [(if st then first_error
            [validateStableID ''list item handle'' (fst item) maxHandleLength,
             fail_if (fst item \<in> seen) ''duplicate list item handle'']
          else None),
         check (snd item)])"

definition validateListItems ::
    "(Value \<Rightarrow> error option) \<Rightarrow> (RelationItemID \<times> Value) list \<Rightarrow> error option" where
  "validateListItems check items =
     loop_seen fst (listItemRound (items \<noteq> [] \<and> fst (hd items) \<noteq> '''') check) {} items"

definition validateObjectFields ::
    "(Value \<Rightarrow> error option) \<Rightarrow> (FieldID \<times> Value) list \<Rightarrow> error option" where
  "validateObjectFields check fs =
     loop_seen fst
       (\<lambda>seen f. first_error
          [validateStableID ''object field ID'' (fst f) maxCatalogIDLength,
           fail_if (fst f \<in> seen) ''duplicate object field'',
           check (snd f)])
       {} fs"

lemma validateListItems_cong [fundef_cong]:
  "xs = ys \<Longrightarrow> (\<And>k v. (k, v) \<in> set ys \<Longrightarrow> f v = g v) \<Longrightarrow>
   validateListItems f xs = validateListItems g ys"
  unfolding validateListItems_def
  by (intro loop_seen_cong) (auto simp: listItemRound_def)

lemma validateObjectFields_cong [fundef_cong]:
  "xs = ys \<Longrightarrow> (\<And>k v. (k, v) \<in> set ys \<Longrightarrow> f v = g v) \<Longrightarrow>
   validateObjectFields f xs = validateObjectFields g ys"
  unfolding validateObjectFields_def
  by (intro loop_seen_cong) auto

fun validateDepth :: "(string \<Rightarrow> bool) \<Rightarrow> nat \<Rightarrow> Value \<Rightarrow> error option" where
  "validateDepth K depth v =
     (if depth > 32 then Some (Err ''typed value nesting exceeds 32 levels'')
      else if vKind v = ValueKindText then
        fail_if (vInline v \<noteq> [] \<or> vList v \<noteq> [] \<or> vObject v \<noteq> [])
          ''text value cannot contain nested values''
      else if vKind v = ValueKindBoolean then
        fail_if (vText v \<noteq> '''' \<or> vInline v \<noteq> [] \<or> vList v \<noteq> [] \<or> vObject v \<noteq> [])
          ''boolean value cannot contain nested values''
      else if vKind v = ValueKindNumber then
        (if vText v = '''' \<or> trim_space (vText v) \<noteq> vText v \<or> vInline v \<noteq> [] \<or> vList v \<noteq> []
             \<or> vObject v \<noteq> []
           then Some (Err ''number must be a non-empty canonical decimal string'')
         else validateFiniteNumber (vText v))
      else if vKind v = ValueKindInline then
        (if vText v \<noteq> '''' \<or> vList v \<noteq> [] \<or> vObject v \<noteq> []
           then Some (Err ''inline value cannot contain another value representation'')
         else ValidateInlineItems K (vInline v))
      else if vKind v = ValueKindList then
        (if vText v \<noteq> '''' \<or> vInline v \<noteq> [] \<or> vObject v \<noteq> []
           then Some (Err ''list value cannot contain another value representation'')
         else validateListItems (validateDepth K (Suc depth)) (vList v))
      else if vKind v = ValueKindObject then
        (if vText v \<noteq> '''' \<or> vInline v \<noteq> [] \<or> vList v \<noteq> []
           then Some (Err ''object value cannot contain another value representation'')
         else validateObjectFields (validateDepth K (Suc depth)) (vObject v))
      else Some (Err ''unsupported value kind''))"

declare validateDepth.simps [simp del]

definition Value_validate :: "(string \<Rightarrow> bool) \<Rightarrow> Value \<Rightarrow> error option" where
  "Value_validate K v = validateDepth K 0 v"

lemma listItemRound_stable:
  "listItemRound True check seen x = None \<longleftrightarrow>
     (validateStableID ''list item handle'' (fst x) maxHandleLength = None \<and> check (snd x) = None)
     \<and> fst x \<notin> seen"
  using validateStableID_nonempty by (auto simp: listItemRound_def first_error_None)

lemma loop_positional:
  "loop_seen fst (listItemRound False check) seen xs = None \<longleftrightarrow>
     (\<forall>x \<in> set xs. fst x = '''' \<and> check (snd x) = None)"
  by (induction xs arbitrary: seen)
    (auto simp: listItemRound_def first_error_None split: option.splits)

lemma validateListItems_None:
  "validateListItems check items = None \<longleftrightarrow>
     (\<forall>(k, v) \<in> set items. check v = None) \<and>
     ((\<forall>(k, v) \<in> set items. k = '''') \<or>
      (\<forall>(k, v) \<in> set items. validateStableID ''list item handle'' k maxHandleLength = None)
        \<and> distinct (map fst items))"
proof (cases "items \<noteq> [] \<and> fst (hd items) \<noteq> ''''")
  case True
  then have "validateListItems check items = loop_seen fst (listItemRound True check) {} items"
    by (simp add: validateListItems_def)
  then have "validateListItems check items = None \<longleftrightarrow>
      (\<forall>x \<in> set items. validateStableID ''list item handle'' (fst x) maxHandleLength = None
         \<and> check (snd x) = None) \<and> distinct (map fst items)"
    by (simp add: loop_seen_distinct [OF listItemRound_stable])
  moreover have "\<not> (\<forall>(k, v) \<in> set items. k = '''')"
    using True by (cases items) auto
  ultimately show ?thesis by (auto simp: case_prod_beta)
next
  case False
  then have "validateListItems check items = loop_seen fst (listItemRound False check) {} items"
    by (auto simp: validateListItems_def)
  moreover have "(\<forall>(k, v) \<in> set items. validateStableID ''list item handle'' k maxHandleLength = None) \<Longrightarrow>
      items = []"
    using False validateStableID_nonempty by (cases items) fastforce+
  ultimately show ?thesis by (auto simp: loop_positional)
qed

lemma validateObjectFields_None:
  "validateObjectFields check fs = None \<longleftrightarrow>
     (\<forall>(k, v) \<in> set fs. validateStableID ''object field ID'' k maxCatalogIDLength = None \<and>
        check v = None) \<and> distinct (map fst fs)"
  unfolding validateObjectFields_def
  by (subst loop_seen_distinct [where P = "\<lambda>f. validateStableID ''object field ID'' (fst f) maxCatalogIDLength = None \<and> check (snd f) = None"])
    (auto simp: first_error_None)

end
