(* ===== verification/Catalog_Validation.thy ===== *)
theory Catalog_Validation
  imports Value_Validation
begin

text \<open>
  Catalogs: the keyed index of \<open>catalog_index.go\<close>, the catalog checks and the schema-directed
  value checks of \<open>validate_catalog.go\<close>, and the nested rule resolution of \<open>validation.go\<close>.
\<close>

section \<open>The catalog index\<close>

definition fieldRule :: "RelationFieldRule \<Rightarrow> FieldRule" where
  "fieldRule r =
     \<lparr>frBlockKind = rfBlockKind r, frField = rfField r, frValueKind = rfValueKind r,
      frOwnership = rfOwnership r, frTranslatable = rfTranslatable r, frFile = rfFile r,
      frSchema = rfSchema r\<rparr>"

definition fieldRuleKey :: "BlockKind \<Rightarrow> FieldID \<Rightarrow> string" where
  "fieldRuleKey kind field = kind @ [CHR 0x00] @ field"

definition relationRuleKey :: "BlockKind \<Rightarrow> RelationID \<Rightarrow> string" where
  "relationRuleKey kind relation = kind @ [CHR 0x00] @ relation"

definition relationFieldRuleKey ::
    "BlockKind \<Rightarrow> RelationID \<Rightarrow> RelationItemKind \<Rightarrow> FieldID \<Rightarrow> string" where
  "relationFieldRuleKey kind relation itemKind field =
     kind @ [CHR 0x00] @ relation @ [CHR 0x00] @ itemKind @ [CHR 0x00] @ field"

text \<open>
  A Go map filled by a loop is the reversed association list of the assignments: \<^const>\<open>map_of\<close>
  finds the last assignment to a key.
\<close>

record catalogIndex =
  ciKinds :: "BlockKind list"
  ciFields :: "(string \<times> FieldRule) list"
  ciRelations :: "(string \<times> RelationItemKind list) list"
  ciRelationFields :: "(string \<times> FieldRule) list"

definition newCatalogIndex :: "Catalog \<Rightarrow> catalogIndex" where
  "newCatalogIndex c =
     \<lparr>ciKinds = catBlockKinds c,
      ciFields = rev (map (\<lambda>r. (fieldRuleKey (frBlockKind r) (frField r), r)) (catFields c)),
      ciRelations = rev (map (\<lambda>r. (relationRuleKey (rrBlockKind r) (rrRelation r), rrItemKinds r))
        (catRelations c)),
      ciRelationFields = rev (map
        (\<lambda>r. (relationFieldRuleKey (rfBlockKind r) (rfRelation r) (rfItemKind r) (rfField r),
              fieldRule r)) (catRelationFields c))\<rparr>"

definition hasBlockKind :: "catalogIndex \<Rightarrow> BlockKind \<Rightarrow> bool" where
  "hasBlockKind ix kind \<longleftrightarrow> kind \<in> set (ciKinds ix)"

definition catalogField :: "catalogIndex \<Rightarrow> BlockKind \<Rightarrow> FieldID \<Rightarrow> FieldRule option" where
  "catalogField ix kind field = map_of (ciFields ix) (fieldRuleKey kind field)"

definition relationItemKinds :: "catalogIndex \<Rightarrow> BlockKind \<Rightarrow> RelationID \<Rightarrow> RelationItemKind list option" where
  "relationItemKinds ix kind relation = map_of (ciRelations ix) (relationRuleKey kind relation)"

definition relationField ::
    "catalogIndex \<Rightarrow> BlockKind \<Rightarrow> RelationID \<Rightarrow> RelationItemKind \<Rightarrow> FieldID \<Rightarrow> FieldRule option" where
  "relationField ix kind relation itemKind field =
     map_of (ciRelationFields ix) (relationFieldRuleKey kind relation itemKind field)"

section \<open>Catalog validation\<close>

lemma size_sItem [termination_simp]: "sItem s = Some t \<Longrightarrow> size t < size s"
  by (cases s) auto

lemma size_sFields [termination_simp]: "(k, t) \<in> set (sFields s) \<Longrightarrow> size t < size s"
  by (cases s) (auto dest!: split_list simp: size_list_append)

definition validateKindOnly :: "ValueKind \<Rightarrow> error option" where
  "validateKindOnly k =
     (case k of ValueKindOther _ \<Rightarrow> Some (Err ''unsupported value kind'') | _ \<Rightarrow> None)"

definition validateFieldRuleShape ::
    "ValueKind \<Rightarrow> FieldOwnership \<Rightarrow> bool \<Rightarrow> bool \<Rightarrow> error option" where
  "validateFieldRuleShape kind ownership translatable file =
     (if file then
        fail_if (translatable \<or>
            (ownership \<noteq> FieldOwnershipShared \<and> ownership \<noteq> FieldOwnershipSource) \<or>
            kind \<noteq> ValueKindOther '''')
          ''file field must be shared or source-owned and cannot declare a scalar kind''
      else if ownership \<noteq> FieldOwnershipShared \<and> ownership \<noteq> FieldOwnershipSource \<and>
          ownership \<noteq> FieldOwnershipLocale
        then Some (Err ''field has unsupported ownership'')
      else if translatable \<and> ownership \<noteq> FieldOwnershipLocale
        then Some (Err ''translatable field must be locale-owned'')
      else validateKindOnly kind)"

definition validateListIdentity :: "ListIdentityRule \<Rightarrow> error option" where
  "validateListIdentity identity =
     (case liKind identity of
        ListIdentityPositional \<Rightarrow>
          fail_if (liField identity \<noteq> '''' \<or> liHandles identity \<noteq> [])
            ''positional list identity cannot carry handles or a field''
      | ListIdentityValue \<Rightarrow>
          fail_if (liField identity \<noteq> '''' \<or> liHandles identity \<noteq> [])
            ''value list identity cannot carry handles or a field''
      | ListIdentityField \<Rightarrow> first_error
          [validateStableID ''list identity field'' (liField identity) maxCatalogIDLength,
           fail_if (liHandles identity \<noteq> []) ''field list identity cannot carry fixed handles'']
      | ListIdentityFixed \<Rightarrow>
          if liField identity \<noteq> '''' \<or> liHandles identity = []
            then Some (Err ''fixed list identity requires handles and no field'')
          else loop_seen id
            (\<lambda>seen handle. first_error
               [validateStableID ''fixed list handle'' handle maxHandleLength,
                fail_if (handle \<in> seen) ''duplicate fixed list handle''])
            {} (liHandles identity)
      | ListIdentityOther _ \<Rightarrow> Some (Err ''unsupported list identity''))"

text \<open>The nested fields of an object schema: a loop over the rules with the fields seen so far.\<close>

definition validateNestedFields ::
    "(FieldSchema \<Rightarrow> error option) \<Rightarrow> (FieldID \<times> FieldSchema) list \<Rightarrow> error option" where
  "validateNestedFields check fs =
     loop_seen fst
       (\<lambda>seen f. first_error
          [validateStableID ''nested field ID'' (fst f) maxCatalogIDLength,
           fail_if (fst f \<in> seen) ''duplicate nested field'',
           check (snd f)])
       {} fs"

lemma validateNestedFields_cong [fundef_cong]:
  "xs = ys \<Longrightarrow> (\<And>k s. (k, s) \<in> set ys \<Longrightarrow> f s = g s) \<Longrightarrow>
   validateNestedFields f xs = validateNestedFields g ys"
  unfolding validateNestedFields_def by (intro loop_seen_cong) auto

lemma validateNestedFields_None:
  "validateNestedFields check fs = None \<longleftrightarrow>
     (\<forall>(k, s) \<in> set fs. validateStableID ''nested field ID'' k maxCatalogIDLength = None \<and>
        check s = None) \<and> distinct (map fst fs)"
  unfolding validateNestedFields_def
  by (subst loop_seen_distinct [where P = "\<lambda>f. validateStableID ''nested field ID'' (fst f)
        maxCatalogIDLength = None \<and> check (snd f) = None"]) (auto simp: first_error_None)

fun validateFieldSchema :: "FieldSchema \<Rightarrow> nat \<Rightarrow> error option" where
  "validateFieldSchema s depth =
     (if depth > 32 then Some (Err ''field schema nesting exceeds 32 levels'')
      else case validateFieldRuleShape (sKind s) (sOwnership s) (sTranslatable s) (sFile s) of
        Some e \<Rightarrow> Some e
      | None \<Rightarrow>
          if sFile s then
            fail_if (sItem s \<noteq> None \<or> sFields s \<noteq> [] \<or> liKind (sIdentity s) \<noteq> ListIdentityOther '''')
              ''file schema cannot contain child shape''
          else if sKind s = ValueKindList then
            (case sItem s of
               None \<Rightarrow> Some (Err ''list schema requires exactly one item schema'')
             | Some item \<Rightarrow>
                 if sFields s \<noteq> [] then Some (Err ''list schema requires exactly one item schema'')
                 else case validateListIdentity (sIdentity s) of
                     Some e \<Rightarrow> Some e
                   | None \<Rightarrow> validateFieldSchema item (Suc depth))
          else if sKind s = ValueKindObject then
            (if sItem s \<noteq> None \<or> liKind (sIdentity s) \<noteq> ListIdentityOther '''' \<or> sFields s = []
               then Some (Err ''object schema requires fields and cannot declare list shape'')
             else validateNestedFields (\<lambda>t. validateFieldSchema t (Suc depth)) (sFields s))
          else fail_if (sItem s \<noteq> None \<or> sFields s \<noteq> [] \<or> liKind (sIdentity s) \<noteq> ListIdentityOther '''')
            ''scalar schema cannot contain nested shape'')"

declare validateFieldSchema.simps [simp del]

definition validateRuleSchema :: "FieldRule \<Rightarrow> error option" where
  "validateRuleSchema rule =
     (case validateFieldRuleShape (frValueKind rule) (frOwnership rule) (frTranslatable rule)
         (frFile rule) of
        Some e \<Rightarrow> Some e
      | None \<Rightarrow>
          (case frSchema rule of
             None \<Rightarrow> None
           | Some s \<Rightarrow>
               if sKind s \<noteq> frValueKind rule \<or> sOwnership s \<noteq> frOwnership rule \<or>
                  sTranslatable s \<noteq> frTranslatable rule \<or> sFile s \<noteq> frFile rule
                 then Some (Err ''recursive schema root does not match its field rule'')
               else validateFieldSchema s 0))"

definition validateBlockKinds :: "BlockKind list \<Rightarrow> error option" where
  "validateBlockKinds kinds =
     loop_seen id
       (\<lambda>seen kind. first_error
          [validateStableID ''block kind'' kind maxKindLength,
           fail_if (kind \<in> seen) ''duplicate block kind''])
       {} kinds"

definition validateFieldRules :: "BlockKind list \<Rightarrow> FieldRule list \<Rightarrow> error option" where
  "validateFieldRules kinds rules =
     loop_seen (\<lambda>r. fieldRuleKey (frBlockKind r) (frField r))
       (\<lambda>seen r. first_error
          [fail_if (frBlockKind r \<notin> set kinds) ''field refers to unknown block kind'',
           validateStableID ''field ID'' (frField r) maxCatalogIDLength,
           fail_if (fieldRuleKey (frBlockKind r) (frField r) \<in> seen) ''duplicate field rule'',
           validateRuleSchema r])
       {} rules"

definition validateRelationRules :: "BlockKind list \<Rightarrow> RelationRule list \<Rightarrow> error option" where
  "validateRelationRules kinds rules =
     loop_seen (\<lambda>r. relationRuleKey (rrBlockKind r) (rrRelation r))
       (\<lambda>seen r. first_error
          [fail_if (rrBlockKind r \<notin> set kinds) ''relation refers to unknown block kind'',
           validateStableID ''relation ID'' (rrRelation r) maxCatalogIDLength,
           fail_if (relationRuleKey (rrBlockKind r) (rrRelation r) \<in> seen) ''duplicate relation rule'',
           loop_seen id
             (\<lambda>itemKinds kind. first_error
                [validateStableID ''relation item kind'' kind maxKindLength,
                 fail_if (kind \<in> itemKinds) ''duplicate relation item kind''])
             {} (rrItemKinds r),
           fail_if (rrItemKinds r = []) ''relation must allow at least one item kind''])
       {} rules"

definition validateRelationFieldRules ::
    "(string \<times> RelationItemKind list) list \<Rightarrow> RelationFieldRule list \<Rightarrow> error option" where
  "validateRelationFieldRules relations rules =
     loop_seen (\<lambda>r. relationFieldRuleKey (rfBlockKind r) (rfRelation r) (rfItemKind r) (rfField r))
       (\<lambda>seen r.
          case map_of relations (relationRuleKey (rfBlockKind r) (rfRelation r)) of
            None \<Rightarrow> Some (Err ''relation field refers to unknown relation'')
          | Some itemKinds \<Rightarrow> first_error
              [fail_if (rfItemKind r \<notin> set itemKinds) ''relation field refers to unsupported item kind'',
               validateStableID ''relation field ID'' (rfField r) maxCatalogIDLength,
               fail_if (relationFieldRuleKey (rfBlockKind r) (rfRelation r) (rfItemKind r) (rfField r)
                   \<in> seen) ''duplicate relation field rule'',
               validateRuleSchema (fieldRule r)])
       {} rules"

definition Catalog_validate :: "Catalog \<Rightarrow> error option" where
  "Catalog_validate c = first_error
     [validateOpaque ''catalog fingerprint'' (catFingerprint c) 256,
      validateBlockKinds (catBlockKinds c),
      validateFieldRules (catBlockKinds c) (catFields c),
      validateRelationRules (catBlockKinds c) (catRelations c),
      validateRelationFieldRules (ciRelations (newCatalogIndex c)) (catRelationFields c)]"

section \<open>Nested rules\<close>

record resolvedFieldRule =
  rvValueKind :: ValueKind
  rvOwnership :: FieldOwnership
  rvTranslatable :: bool
  rvFile :: bool
  rvSchema :: "FieldSchema option"

definition objectFieldSchema :: "FieldSchema \<Rightarrow> FieldID \<Rightarrow> FieldSchema result" where
  "objectFieldSchema s field =
     (if sFile s \<or> sKind s \<noteq> ValueKindObject
        then Inl (Err ''path field does not target an object'')
      else case find (\<lambda>f. fst f = field) (sFields s) of
          Some f \<Rightarrow> Inr (snd f)
        | None \<Rightarrow> Inl (Err ''path field is not in the catalog''))"

definition listItemSchema :: "FieldSchema \<Rightarrow> RelationItemID \<Rightarrow> FieldSchema result" where
  "listItemSchema s item =
     (if sFile s \<or> sKind s \<noteq> ValueKindList
        then Inl (Err ''path item does not target a list'')
      else case sItem s of
          None \<Rightarrow> Inl (Err ''path item does not target a list'')
        | Some child \<Rightarrow>
            (case liKind (sIdentity s) of
               ListIdentityPositional \<Rightarrow>
                 Inl (Err ''positional lists can only be replaced as a whole typed value'')
             | ListIdentityFixed \<Rightarrow>
                 if item \<notin> set (liHandles (sIdentity s))
                   then Inl (Err ''fixed list item is not in the catalog'')
                 else Inr child
             | _ \<Rightarrow> Inr child))"

definition schemaStep :: "FieldSchema \<Rightarrow> FieldPathSegment \<Rightarrow> FieldSchema result" where
  "schemaStep s seg =
     guard_error (FieldPathSegment_validate seg)
       (if segField seg \<noteq> '''' then objectFieldSchema s (segField seg)
        else listItemSchema s (segItem seg))"

definition resolveNestedFieldRule :: "FieldRule \<Rightarrow> FieldPathSegment list \<Rightarrow> resolvedFieldRule result" where
  "resolveNestedFieldRule rule path =
     (case frSchema rule of
        None \<Rightarrow>
          if path \<noteq> [] then Inl (Err ''field does not define nested catalog shape'')
          else Inr \<lparr>rvValueKind = frValueKind rule, rvOwnership = frOwnership rule,
                    rvTranslatable = frTranslatable rule, rvFile = frFile rule, rvSchema = None\<rparr>
      | Some s \<Rightarrow>
          and_then (fold_result schemaStep s path)
            (\<lambda>cur. Inr \<lparr>rvValueKind = sKind cur, rvOwnership = sOwnership cur,
                        rvTranslatable = sTranslatable cur, rvFile = sFile cur,
                        rvSchema = Some cur\<rparr>))"

section \<open>Values against schemas\<close>

definition objectField :: "Value \<Rightarrow> FieldID \<Rightarrow> Value option" where
  "objectField v field =
     (if vKind v \<noteq> ValueKindObject then None
      else map_option snd (find (\<lambda>f. fst f = field) (vObject v)))"

definition validateListItemIdentity :: "RelationItemID \<times> Value \<Rightarrow> ListIdentityRule \<Rightarrow> error option" where
  "validateListItemIdentity item identity =
     (case liKind identity of
        ListIdentityValue \<Rightarrow>
          if vKind (snd item) \<noteq> ValueKindText \<and> vKind (snd item) \<noteq> ValueKindNumber
            then Some (Err ''value-identified list items must be canonical text or number scalars'')
          else fail_if (fst item \<noteq> vText (snd item))
            ''value-identified list item handle must equal its canonical scalar value''
      | ListIdentityField \<Rightarrow>
          (case objectField (snd item) (liField identity) of
             None \<Rightarrow> Some (Err ''field-identified list item handle must equal text field'')
           | Some w \<Rightarrow> fail_if (vKind w \<noteq> ValueKindText \<or> fst item \<noteq> vText w)
               ''field-identified list item handle must equal text field'')
      | _ \<Rightarrow> None)"

definition validateListForSchema ::
    "(Value \<Rightarrow> FieldSchema \<Rightarrow> error option) \<Rightarrow> (RelationItemID \<times> Value) list \<Rightarrow> FieldSchema \<Rightarrow> error option" where
  "validateListForSchema check items s =
     (let identity = sIdentity s; st = (liKind identity \<noteq> ListIdentityPositional) in
      first_error
        [fail_if (items \<noteq> [] \<and> (fst (hd items) \<noteq> '''') \<noteq> st) ''list identity does not match item handles'',
         (if liKind identity = ListIdentityFixed then
            (if length items \<noteq> length (liHandles identity)
               then Some (Err ''fixed list length does not match its catalog handles'')
             else fail_if (map fst items \<noteq> liHandles identity) ''fixed list item must use its handle'')
          else None),
         check_all
           (\<lambda>item. first_error
              [validateListItemIdentity item identity,
               (case sItem s of None \<Rightarrow> Some NilDeref | Some child \<Rightarrow> check (snd item) child)])
           items])"

text \<open>\<open>rules[field.Field] = field.Schema\<close> in a loop: the last rule of a field counts.\<close>

definition validateObjectForSchema ::
    "(Value \<Rightarrow> FieldSchema \<Rightarrow> error option) \<Rightarrow> (FieldID \<times> Value) list \<Rightarrow> FieldSchema \<Rightarrow> error option" where
  "validateObjectForSchema check fs s =
     check_all
       (\<lambda>f. case map_of (rev (sFields s)) (fst f) of
              None \<Rightarrow> Some (Err ''object field is not in the catalog'')
            | Some rule \<Rightarrow>
                if sFile rule then Some (Err ''object file field requires a typed file binding'')
                else check (snd f) rule)
       fs"

lemma validateListForSchema_cong [fundef_cong]:
  "xs = ys \<Longrightarrow> s = t \<Longrightarrow> (\<And>k v c. (k, v) \<in> set ys \<Longrightarrow> f v c = g v c) \<Longrightarrow>
   validateListForSchema f xs s = validateListForSchema g ys t"
  unfolding validateListForSchema_def Let_def
  by (auto intro!: arg_cong [where f = first_error] check_all_cong split: option.splits)

lemma validateObjectForSchema_cong [fundef_cong]:
  "xs = ys \<Longrightarrow> s = t \<Longrightarrow> (\<And>k v c. (k, v) \<in> set ys \<Longrightarrow> f v c = g v c) \<Longrightarrow>
   validateObjectForSchema f xs s = validateObjectForSchema g ys t"
  unfolding validateObjectForSchema_def
  by (intro check_all_cong) (auto split: option.splits)

fun validateValueForSchema :: "(string \<Rightarrow> bool) \<Rightarrow> nat \<Rightarrow> Value \<Rightarrow> FieldSchema \<Rightarrow> error option" where
  "validateValueForSchema K depth v s =
     (if depth > 32 then Some (Err ''typed value nesting exceeds 32 levels'')
      else if sFile s then Some (Err ''file schema requires a typed file binding'')
      else if vKind v \<noteq> sKind s then Some (Err ''value kind does not match schema kind'')
      else case validateDepth K depth v of
          Some e \<Rightarrow> Some e
        | None \<Rightarrow>
            if sKind s = ValueKindList
              then validateListForSchema (validateValueForSchema K (Suc depth)) (vList v) s
            else if sKind s = ValueKindObject
              then validateObjectForSchema (validateValueForSchema K (Suc depth)) (vObject v) s
            else None)"

declare validateValueForSchema.simps [simp del]

section \<open>Documents against catalogs\<close>

datatype valueScope = sharedScope | localizedScope

definition scope_owns :: "valueScope \<Rightarrow> FieldOwnership \<Rightarrow> bool" where
  "scope_owns s ownership \<longleftrightarrow>
     (if s = localizedScope then ownership = FieldOwnershipLocale
      else ownership = FieldOwnershipShared \<or> ownership = FieldOwnershipSource)"

definition validateScopedValues ::
    "(string \<Rightarrow> bool) \<Rightarrow> valueScope \<Rightarrow> FieldValue list \<Rightarrow> (FieldID \<Rightarrow> FieldRule option) \<Rightarrow> error option" where
  "validateScopedValues K scope vs lookup =
     check_all
       (\<lambda>field.
          case lookup (fvID field) of
            None \<Rightarrow> Some (Err ''field does not match the catalog'')
          | Some rule \<Rightarrow>
              if frFile rule \<or> \<not> scope_owns scope (frOwnership rule) \<or>
                 frValueKind rule \<noteq> vKind (fvValue field)
                then Some (Err ''field does not match the catalog'')
              else (case frSchema rule of
                      None \<Rightarrow> None
                    | Some s \<Rightarrow> validateValueForSchema K 0 (fvValue field) s))
       vs"

definition validateCatalogFiles ::
    "FileBinding list \<Rightarrow> (FieldID \<Rightarrow> FieldRule option) \<Rightarrow> error option" where
  "validateCatalogFiles files lookup =
     check_all
       (\<lambda>file.
          case lookup (fbField file) of
            None \<Rightarrow> Some (Err ''file field does not match the catalog'')
          | Some rule \<Rightarrow>
              (case resolveNestedFieldRule rule (fbPath file) of
                 Inl _ \<Rightarrow> Some (Err ''file target does not match the catalog'')
               | Inr resolved \<Rightarrow>
                   fail_if (\<not> rvFile resolved) ''file target does not match the catalog''))
       files"

definition validateFieldSet ::
    "(string \<Rightarrow> bool) \<Rightarrow> FieldValue list \<Rightarrow> FieldValue list \<Rightarrow> FileBinding list \<Rightarrow>
     (FieldID \<Rightarrow> FieldRule option) \<Rightarrow> error option" where
  "validateFieldSet K shared localized files lookup = first_error
     [validateScopedValues K sharedScope shared lookup,
      validateScopedValues K localizedScope localized lookup,
      validateCatalogFiles files lookup]"

definition validateRelations :: "(string \<Rightarrow> bool) \<Rightarrow> catalogIndex \<Rightarrow> Node \<Rightarrow> error option" where
  "validateRelations K ix node =
     check_all
       (\<lambda>relation.
          case relationItemKinds ix (nodeKind node) (relID relation) of
            None \<Rightarrow> Some (Err ''block relation does not match the catalog'')
          | Some allowed \<Rightarrow>
              check_all
                (\<lambda>item.
                   if riKind item \<notin> set allowed
                     then Some (Err ''relation item kind does not match the catalog'')
                   else validateFieldSet K (riShared item) (riLocalized item) (riFiles item)
                     (relationField ix (nodeKind node) (relID relation) (riKind item)))
                (relItems relation))
       (nodeRelations node)"

definition validateDocumentCatalogValues ::
    "(string \<Rightarrow> bool) \<Rightarrow> Catalog \<Rightarrow> Node list \<Rightarrow> error option" where
  "validateDocumentCatalogValues K catalog nodes =
     (let ix = newCatalogIndex catalog in
      check_all
        (\<lambda>node. first_error
           [fail_if (\<not> hasBlockKind ix (nodeKind node)) ''block has unknown kind'',
            validateFieldSet K (nodeShared node) (nodeLocalized node) (nodeFiles node)
              (catalogField ix (nodeKind node)),
            validateRelations K ix node])
        nodes)"

end
