(* ===== verification/Forest.thy ===== *)
theory Forest
  imports Prelude
begin

text \<open>
  Parent links. A block table is a partial map from a block to its parent; a parent outside the
  map (the empty identifier of a root block, or a block a projection left out) ends the walk.
  \<open>rooted\<close> says that the walk from a block ends. The theory holds the loops of the code that
  follow parent links (the ancestor walk, the cycle check, the closure that deletes a subtree),
  when they end and what they compute, and the interface of a block table that every
  representation of the block tree has to meet.
\<close>

section \<open>Rooted blocks and heights\<close>

inductive rooted :: "('k \<rightharpoonup> 'k) \<Rightarrow> 'k \<Rightarrow> bool" for par where
  outside: "par x = None \<Longrightarrow> rooted par x"
| child: "par x = Some p \<Longrightarrow> rooted par p \<Longrightarrow> rooted par x"

inductive height :: "('k \<rightharpoonup> 'k) \<Rightarrow> 'k \<Rightarrow> nat \<Rightarrow> bool" for par where
  outside: "par x = None \<Longrightarrow> height par x 0"
| child: "par x = Some p \<Longrightarrow> height par p n \<Longrightarrow> height par x (Suc n)"

inductive ancestor :: "('k \<rightharpoonup> 'k) \<Rightarrow> 'k \<Rightarrow> 'k \<Rightarrow> bool" for par where
  parent: "par x = Some a \<Longrightarrow> ancestor par a x"
| above: "par x = Some p \<Longrightarrow> ancestor par a p \<Longrightarrow> ancestor par a x"

inductive_cases rooted_someE: "rooted par x"
inductive_cases height_someE: "height par x n"
inductive_cases ancestorE: "ancestor par a x"

definition forest :: "('k \<rightharpoonup> 'k) \<Rightarrow> bool" where
  "forest par \<longleftrightarrow> (\<forall>x. rooted par x)"

lemma rooted_parent: "rooted par x \<Longrightarrow> par x = Some p \<Longrightarrow> rooted par p"
  by (auto elim: rooted_someE)

lemma height_functional: "height par x n \<Longrightarrow> height par x m \<Longrightarrow> n = m"
proof (induction arbitrary: m rule: height.induct)
  case (outside x)
  then show ?case by (auto elim: height_someE)
next
  case (child x p n)
  from child.prems child.hyps(1) obtain k where "m = Suc k" "height par p k"
    by (auto elim: height_someE)
  with child.IH show ?case by simp
qed

lemma rooted_height: "rooted par x \<Longrightarrow> \<exists>n. height par x n"
  by (induction rule: rooted.induct) (auto intro: height.intros)

lemma height_bound:
  assumes "height par x n" and "finite (dom par)"
  shows "n \<le> card (dom par)"
proof -
  from assms(1) have "\<exists>S. S \<subseteq> dom par \<and> finite S \<and> card S = n \<and> (\<forall>y \<in> S. \<exists>m \<le> n. height par y m)"
  proof (induction rule: height.induct)
    case (outside x)
    then show ?case by (intro exI [of _ "{}"]) simp
  next
    case (child x p n)
    then obtain S where S: "S \<subseteq> dom par" "finite S" "card S = n"
      "\<forall>y \<in> S. \<exists>m \<le> n. height par y m" by blast
    have hx: "height par x (Suc n)" using child.hyps by (rule height.child)
    have "x \<notin> S"
    proof
      assume "x \<in> S"
      with S(4) obtain m where "m \<le> n" "height par x m" by blast
      with height_functional [OF hx] show False by fastforce
    qed
    moreover have "\<exists>m \<le> Suc n. height par y m" if "y \<in> insert x S" for y
      using that S(4) hx le_SucI by blast
    ultimately show ?case
      using S(1-3) child.hyps(1) by (intro exI [of _ "insert x S"]) auto
  qed
  then show ?thesis using assms(2) by (metis card_mono)
qed

lemma ancestor_height: "ancestor par a y \<Longrightarrow> height par a m \<Longrightarrow> height par y k \<Longrightarrow> m < k"
proof (induction arbitrary: k rule: ancestor.induct)
  case (parent y a)
  from parent.prems(2) parent.hyps obtain j where "k = Suc j" "height par a j"
    by (auto elim: height_someE)
  with height_functional [OF parent.prems(1)] show ?case by simp
next
  case (above y p a)
  from above.prems(2) above.hyps(1) obtain j where "k = Suc j" "height par p j"
    by (auto elim: height_someE)
  with above.IH [OF above.prems(1)] show ?case by (meson less_SucI)
qed

lemma ancestor_rooted_irrefl: "rooted par x \<Longrightarrow> \<not> ancestor par x x"
  using rooted_height ancestor_height by (metis less_irrefl)

lemma ancestor_trans: "ancestor par b x \<Longrightarrow> ancestor par a b \<Longrightarrow> ancestor par a x"
  by (induction rule: ancestor.induct) (auto intro: ancestor.intros)

lemma rooted_restrict: "rooted par x \<Longrightarrow> rooted (par |` A) x"
proof (induction rule: rooted.induct)
  case (outside x)
  then show ?case by (auto intro: rooted.outside simp: restrict_map_def)
next
  case (child x p)
  then show ?case by (cases "x \<in> A") (auto intro: rooted.intros simp: restrict_map_def)
qed

lemma rooted_update_avoiding:
  "rooted par x \<Longrightarrow> x \<noteq> b \<Longrightarrow> \<not> ancestor par b x \<Longrightarrow> rooted (par(b \<mapsto> p)) x"
proof (induction rule: rooted.induct)
  case (outside x)
  then show ?case by (auto intro: rooted.outside)
next
  case (child x q)
  then have "q \<noteq> b" "\<not> ancestor par b q" by (auto intro: ancestor.intros)
  with child show ?case by (auto intro: rooted.child)
qed

lemma forest_restrict: "forest par \<Longrightarrow> forest (par |` A)"
  by (simp add: forest_def rooted_restrict)

lemma forest_update:
  assumes "forest par" and "p \<noteq> b" and "\<not> ancestor par b p"
  shows "forest (par(b \<mapsto> p))"
  unfolding forest_def
proof
  fix x
  have p: "rooted (par(b \<mapsto> p)) p"
    using assms by (auto simp: forest_def intro: rooted_update_avoiding)
  then have b: "rooted (par(b \<mapsto> p)) b" by (auto intro: rooted.child)
  from assms(1) have "rooted par x" by (simp add: forest_def)
  then show "rooted (par(b \<mapsto> p)) x"
  proof (induction rule: rooted.induct)
    case (outside x)
    show ?case
    proof (cases "x = b")
      case True
      with b show ?thesis by (simp add: fun_upd_def)
    next
      case False
      with outside show ?thesis by (intro rooted.outside) simp
    qed
  next
    case (child x q)
    show ?case
    proof (cases "x = b")
      case True
      with b show ?thesis by (simp add: fun_upd_def)
    next
      case False
      with child show ?thesis by (intro rooted.child [of _ x q]) simp_all
    qed
  qed
qed

lemma no_ancestor_of_leaf: "b \<notin> ran par \<Longrightarrow> \<not> ancestor par b x"
proof
  assume "b \<notin> ran par" and "ancestor par b x"
  from this(2,1) show False
    by (induction rule: ancestor.induct) (auto simp: ran_def)
qed

section \<open>The ancestor walk\<close>

text \<open>
  \<open>for candidate != "" { if candidate == ancestor { return true }; block, ok := graph[candidate];
  if !ok { return false }; candidate = block.parent }\<close>. The walk runs forever on a cycle that
  avoids the ancestor; \<open>fuel\<close> counts its rounds and \<open>None\<close> is running out of it.
\<close>

fun ancestor_walk :: "nat \<Rightarrow> (string \<rightharpoonup> string) \<Rightarrow> string \<Rightarrow> string \<Rightarrow> bool option" where
  "ancestor_walk 0 par candidate anc = None"
| "ancestor_walk (Suc fuel) par candidate anc =
     (if candidate = '''' then Some False
      else if candidate = anc then Some True
      else case par candidate of
          None \<Rightarrow> Some False
        | Some p \<Rightarrow> ancestor_walk fuel par p anc)"

lemma ancestor_walk_returns:
  "height par c n \<Longrightarrow> n < fuel \<Longrightarrow> \<exists>r. ancestor_walk fuel par c anc = Some r"
proof (induction arbitrary: fuel rule: height.induct)
  case (outside x)
  then show ?case by (cases fuel) auto
next
  case (child x p n)
  then show ?case by (cases fuel) auto
qed

lemma ancestor_walk_sound:
  "ancestor_walk fuel par c anc = Some r \<Longrightarrow> '''' \<notin> dom par \<Longrightarrow> anc \<noteq> '''' \<Longrightarrow>
   r \<longleftrightarrow> c = anc \<or> ancestor par anc c"
proof (induction fuel arbitrary: c)
  case 0
  then show ?case by simp
next
  case (Suc fuel)
  show ?case
  proof (cases "c = '''' \<or> c = anc")
    case True
    then show ?thesis using Suc.prems by (auto elim: ancestorE)
  next
    case False
    show ?thesis
    proof (cases "par c")
      case None
      then show ?thesis using False Suc.prems by (auto elim: ancestorE)
    next
      case (Some p)
      with False Suc.prems have "r \<longleftrightarrow> p = anc \<or> ancestor par anc p"
        using Suc.IH [of p] by simp
      then show ?thesis using Some False by (auto intro: ancestor.intros elim: ancestorE)
    qed
  qed
qed

section \<open>The cycle check\<close>

text \<open>
  \<open>for parent := node.Parent; parent != ""; parent = parents[parent]\<close>, stopping at a parent that
  is not included and reporting a cycle at one already visited.
\<close>

function cycle_walk :: "(string \<times> string) list \<Rightarrow> string set \<Rightarrow> string \<Rightarrow> bool" where
  "cycle_walk parents visited p =
     (if p = '''' then False
      else case map_of parents p of
          None \<Rightarrow> False
        | Some q \<Rightarrow> if p \<in> visited then True else cycle_walk parents (insert p visited) q)"
  by pat_completeness auto
termination
proof (relation "measure (\<lambda>(parents, visited, p). card (fst ` set parents - visited))", simp)
  fix parents :: "(string \<times> string) list" and visited p q
  assume a: "map_of parents p = Some q" "p \<notin> visited"
  then have "p \<in> fst ` set parents" by (force dest: map_of_SomeD)
  with a(2) have "fst ` set parents - insert p visited \<subset> fst ` set parents - visited" by auto
  then have "card (fst ` set parents - insert p visited) < card (fst ` set parents - visited)"
    by (intro psubset_card_mono) auto
  then show "((parents, insert p visited, q), parents, visited, p)
      \<in> measure (\<lambda>(parents, visited, p). card (fst ` set parents - visited))" by simp
qed

declare cycle_walk.simps [simp del]

lemma cycle_walk_rooted:
  "\<not> cycle_walk parents visited p \<Longrightarrow> '''' \<notin> dom (map_of parents) \<Longrightarrow> rooted (map_of parents) p"
proof (induction parents visited p rule: cycle_walk.induct)
  case (1 parents visited p)
  show ?case
  proof (cases "map_of parents p")
    case None
    then show ?thesis by (rule rooted.outside)
  next
    case (Some q)
    with "1.prems" have "p \<noteq> ''''" by auto
    with Some "1.prems" have "p \<notin> visited" "\<not> cycle_walk parents (insert p visited) q"
      by (auto simp: cycle_walk.simps [of parents visited p] split: if_splits)
    with "1.IH" Some \<open>p \<noteq> ''''\<close> "1.prems"(2) have "rooted (map_of parents) q" by simp
    with Some show ?thesis by (rule rooted.child)
  qed
qed

lemma cycle_walk_complete:
  "rooted (map_of parents) p \<Longrightarrow> p \<notin> visited \<Longrightarrow>
   (\<And>a. ancestor (map_of parents) a p \<Longrightarrow> a \<notin> visited) \<Longrightarrow> \<not> cycle_walk parents visited p"
proof (induction arbitrary: visited rule: rooted.induct)
  case (outside x)
  then show ?case by (simp add: cycle_walk.simps)
next
  case (child x q)
  have "\<not> ancestor (map_of parents) x x"
    using rooted.child [of _ x q, OF child.hyps] by (rule ancestor_rooted_irrefl)
  then have "\<not> cycle_walk parents (insert x visited) q"
    using child.prems child.hyps by (intro child.IH) (auto intro: ancestor.intros)
  then show ?case using child.prems child.hyps
    by (auto simp: cycle_walk.simps [of parents visited x])
qed

section \<open>Deleting a subtree\<close>

text \<open>
  \<open>for changed := true; changed; { changed = false; for _, node := range nodes { if
  deleted[node.Parent] && !deleted[node.ID] { deleted[node.ID] = true; changed = true } } }\<close> over
  the pairs of a block and its parent. The deleted set grows during a pass.
\<close>

fun closure_pass :: "('k \<times> 'k) list \<Rightarrow> 'k set \<Rightarrow> bool \<Rightarrow> 'k set \<times> bool" where
  "closure_pass [] deleted changed = (deleted, changed)"
| "closure_pass ((b, p) # rest) deleted changed =
     (if p \<in> deleted \<and> b \<notin> deleted then closure_pass rest (insert b deleted) True
      else closure_pass rest deleted changed)"

lemma closure_pass_grows: "closure_pass links D c = (D', c') \<Longrightarrow> D \<subseteq> D' \<and> D' \<subseteq> D \<union> fst ` set links"
  by (induction links D c rule: closure_pass.induct) (auto split: if_splits)

lemma closure_pass_unchanged:
  "closure_pass links D c = (D', False) \<Longrightarrow> c = False \<and> D' = D \<and> (\<forall>(b, p) \<in> set links. p \<in> D \<longrightarrow> b \<in> D)"
  by (induction links D c rule: closure_pass.induct) (auto split: if_splits)

lemma closure_pass_changed: "closure_pass links D False = (D', True) \<Longrightarrow> D \<subset> D'"
proof (induction links D False rule: closure_pass.induct)
  case (1 deleted)
  then show ?case by simp
next
  case (2 b p rest deleted)
  show ?case
  proof (cases "p \<in> deleted \<and> b \<notin> deleted")
    case True
    with 2 have "closure_pass rest (insert b deleted) True = (D', True)" by simp
    from closure_pass_grows [OF this] True show ?thesis by auto
  next
    case False
    with 2 show ?thesis by auto
  qed
qed

function subtree_closure :: "('k \<times> 'k) list \<Rightarrow> 'k set \<Rightarrow> 'k set" where
  "subtree_closure links D =
     (case closure_pass links D False of (D', changed) \<Rightarrow> if changed then subtree_closure links D' else D')"
  by pat_completeness auto
termination
proof (relation "measure (\<lambda>(links, D). card (fst ` set links - D))", goal_cases)
  case 1
  show ?case by simp
next
  case (2 links D D' changed)
  then have pass: "closure_pass links D False = (D', True)" by simp
  have "fst ` set links - D' \<subset> fst ` set links - D"
    using closure_pass_changed [OF pass] closure_pass_grows [OF pass] by auto
  then show ?case
    by (simp add: psubset_card_mono)
qed

declare subtree_closure.simps [simp del]

lemma closure_pass_sound:
  "closure_pass links D c = (D', c') \<Longrightarrow> set links \<subseteq> L \<Longrightarrow> x \<in> D' \<Longrightarrow>
   \<exists>d \<in> D. (d, x) \<in> {(p, b). (b, p) \<in> L}\<^sup>*"
proof (induction links D c rule: closure_pass.induct)
  case (1 deleted changed)
  then show ?case by auto
next
  case (2 b p rest deleted changed)
  show ?case
  proof (cases "p \<in> deleted \<and> b \<notin> deleted")
    case True
    then obtain d where d: "d \<in> insert b deleted" "(d, x) \<in> {(p, b). (b, p) \<in> L}\<^sup>*"
      using "2.IH"(1) "2.prems" by auto
    moreover have "(p, b) \<in> {(p, b). (b, p) \<in> L}" using "2.prems"(2) by auto
    ultimately show ?thesis using True by (auto intro: converse_rtrancl_into_rtrancl)
  next
    case False
    with "2.IH"(2) "2.prems" show ?thesis by auto
  qed
qed

lemma subtree_closure_reachable:
  "subtree_closure links D = {(p, b). (b, p) \<in> set links}\<^sup>* `` D"
proof (induction links D rule: subtree_closure.induct)
  case (1 links D)
  obtain D' c where pass: "closure_pass links D False = (D', c)" by fastforce
  have sub: "D \<subseteq> D'" using closure_pass_grows [OF pass] by simp
  have sound: "D' \<subseteq> {(p, b). (b, p) \<in> set links}\<^sup>* `` D"
    using closure_pass_sound [OF pass] by auto
  show ?case
  proof (cases c)
    case True
    with pass have "subtree_closure links D = {(p, b). (b, p) \<in> set links}\<^sup>* `` D'"
      using "1.IH" [OF pass [symmetric] True] by (simp add: subtree_closure.simps [of links D])
    moreover have "{(p, b). (b, p) \<in> set links}\<^sup>* `` D' = {(p, b). (b, p) \<in> set links}\<^sup>* `` D"
      using sub sound by (blast intro: rtrancl_trans)
    ultimately show ?thesis by simp
  next
    case False
    with closure_pass_unchanged [of links D False D'] pass
    have D': "D' = D" and closed: "\<forall>(b, p) \<in> set links. p \<in> D \<longrightarrow> b \<in> D" by auto
    have "x \<in> D" if "(d, x) \<in> {(p, b). (b, p) \<in> set links}\<^sup>*" "d \<in> D" for d x
      using that by (induction rule: rtrancl_induct) (use closed in auto)
    then have "{(p, b). (b, p) \<in> set links}\<^sup>* `` D = D" by auto
    with False pass D' show ?thesis by (simp add: subtree_closure.simps [of links D])
  qed
qed

lemma reachable_iff_ancestor:
  assumes "distinct (map fst links)"
  shows "(d, x) \<in> {(p, b). (b, p) \<in> set links}\<^sup>* \<longleftrightarrow> x = d \<or> ancestor (map_of links) d x"
proof
  assume "(d, x) \<in> {(p, b). (b, p) \<in> set links}\<^sup>*"
  then show "x = d \<or> ancestor (map_of links) d x"
  proof (induction rule: rtrancl_induct)
    case base
    then show ?case by simp
  next
    case (step y z)
    then have "map_of links z = Some y" using assms by simp
    with step.IH show ?case by (auto intro: ancestor.intros)
  qed
next
  have "(d, x) \<in> {(p, b). (b, p) \<in> set links}\<^sup>*" if "ancestor (map_of links) d x" for x
    using that by (induction rule: ancestor.induct)
      (auto dest!: map_of_SomeD intro: rtrancl_into_rtrancl)
  then show "x = d \<or> ancestor (map_of links) d x \<Longrightarrow> (d, x) \<in> {(p, b). (b, p) \<in> set links}\<^sup>*"
    by auto
qed

lemma subtree_closure_descendants:
  "distinct (map fst links) \<Longrightarrow>
   subtree_closure links {d} = {x. x = d \<or> ancestor (map_of links) d x}"
  by (auto simp: subtree_closure_reachable reachable_iff_ancestor)

section \<open>The interface of a block table\<close>

text \<open>
  What every representation of the block tree provides: the parent map of a state, and the three
  operations that change it. A client of the interface gets the tree invariant for all of them.
\<close>

definition tree_ok :: "(string \<rightharpoonup> string) \<Rightarrow> bool" where
  "tree_ok par \<longleftrightarrow>
     finite (dom par) \<and> '''' \<notin> dom par \<and> forest par \<and> (\<forall>x p. par x = Some p \<longrightarrow> p = '''' \<or> p \<in> dom par)"

locale block_table =
  fixes parents :: "'s \<Rightarrow> string \<rightharpoonup> string"
    and wf :: "'s \<Rightarrow> bool"
    and insert_block :: "string \<Rightarrow> string \<Rightarrow> 's \<Rightarrow> 's"
    and move_block :: "string \<Rightarrow> string \<Rightarrow> 's \<Rightarrow> 's"
    and delete_block :: "string \<Rightarrow> 's \<Rightarrow> 's"
  assumes parents_insert: "wf s \<Longrightarrow> b \<notin> dom (parents s) \<Longrightarrow>
      parents (insert_block b p s) = (parents s)(b \<mapsto> p)"
    and parents_move: "wf s \<Longrightarrow> b \<in> dom (parents s) \<Longrightarrow>
      parents (move_block b p s) = (parents s)(b \<mapsto> p)"
    and parents_delete: "wf s \<Longrightarrow>
      parents (delete_block b s) = parents s |` {x. \<not> (x = b \<or> ancestor (parents s) b x)}"
begin

lemma insert_tree_ok:
  assumes "wf s" and t: "tree_ok (parents s)" and b: "b \<notin> dom (parents s)" "b \<noteq> ''''"
    and p: "p = '''' \<or> p \<in> dom (parents s)"
  shows "tree_ok (parents (insert_block b p s))"
proof -
  have "b \<notin> ran (parents s)" using t b by (auto simp: tree_ok_def ran_def)
  then have "\<not> ancestor (parents s) b p" by (rule no_ancestor_of_leaf)
  moreover have "p \<noteq> b" using b p by auto
  ultimately have "forest ((parents s)(b \<mapsto> p))"
    using t by (intro forest_update) (auto simp: tree_ok_def)
  then show ?thesis
    using t b p by (auto simp: tree_ok_def parents_insert [OF assms(1) b(1)])
qed

lemma move_tree_ok:
  assumes "wf s" and t: "tree_ok (parents s)" and b: "b \<in> dom (parents s)"
    and p: "p = '''' \<or> p \<in> dom (parents s)" "p \<noteq> b" "\<not> ancestor (parents s) b p"
  shows "tree_ok (parents (move_block b p s))"
proof -
  have "forest ((parents s)(b \<mapsto> p))" using t p by (intro forest_update) (auto simp: tree_ok_def)
  then show ?thesis
    using t b p by (auto simp: tree_ok_def parents_move [OF assms(1) b])
qed

lemma delete_tree_ok:
  assumes "wf s" and t: "tree_ok (parents s)"
  shows "tree_ok (parents (delete_block b s))"
proof -
  let ?keep = "{x. \<not> (x = b \<or> ancestor (parents s) b x)}"
  have "forest (parents s |` ?keep)" using t by (simp add: tree_ok_def forest_restrict)
  moreover have "p = '''' \<or> p \<in> dom (parents s |` ?keep)"
    if "(parents s |` ?keep) x = Some p" for x p
  proof -
    from that have x: "parents s x = Some p" "x \<in> ?keep"
      by (auto simp: restrict_map_def split: if_splits)
    then have "p \<in> ?keep" by (auto intro: ancestor.intros)
    with x t show ?thesis unfolding tree_ok_def by fastforce
  qed
  ultimately show ?thesis
    using t by (auto simp: tree_ok_def parents_delete [OF assms(1)])
qed

end

end
