(* ===== verification/Doc_Validation.thy ===== *)
theory Doc_Validation
  imports Catalog_Validation Forest
begin

text \<open>
  Whole documents: the shape checks of \<open>validate_document.go\<close> on nodes, relations, fields and file
  bindings, the parent-cycle check, and \<open>Document.validate\<close>.
\<close>

section \<open>Field sets and file bindings\<close>

definition nestedFieldKey :: "FieldID \<Rightarrow> FieldPathSegment list \<Rightarrow> string" where
  "nestedFieldKey field path =
     foldl (\<lambda>key s. if segField s \<noteq> '''' then key @ ''/field:'' @ segField s
                    else key @ ''/item:'' @ segItem s) field path"

definition validateFieldValues :: "(string \<Rightarrow> bool) \<Rightarrow> FieldValue list \<Rightarrow> error option" where
  "validateFieldValues K fs =
     loop_seen fvID
       (\<lambda>seen f. first_error
          [validateStableID ''field ID'' (fvID f) maxCatalogIDLength,
           fail_if (fvID f \<in> seen) ''duplicate field'',
           Value_validate K (fvValue f)])
       {} fs"

definition validateFileBindings :: "FileBinding list \<Rightarrow> error option" where
  "validateFileBindings files =
     loop_seen (\<lambda>b. nestedFieldKey (fbField b) (fbPath b))
       (\<lambda>targets b. first_error
          [fail_if (nestedFieldKey (fbField b) (fbPath b) \<in> targets) ''duplicate file target'',
           validateStableID ''file field ID'' (fbField b) maxCatalogIDLength,
           check_all FieldPathSegment_validate (fbPath b),
           validateFileReference (fbFile b)])
       {} files"

definition validateProjectedFieldSet ::
    "(string \<Rightarrow> bool) \<Rightarrow> FieldValue list \<Rightarrow> FieldValue list \<Rightarrow> FileBinding list \<Rightarrow> error option" where
  "validateProjectedFieldSet K shared localized files = first_error
     [validateFieldValues K shared, validateFieldValues K localized, validateFileBindings files]"

section \<open>Nodes\<close>

text \<open>
  The relation loop shares one set of item IDs across the relations of a node, so the item check
  runs over the concatenation of the items, each relation's own check coming first. The model
  threads that set through \<open>relationRounds\<close>.
\<close>

definition relationItemRound ::
    "(string \<Rightarrow> bool) \<Rightarrow> RelationItemID set \<Rightarrow> RelationItem \<Rightarrow> error option" where
  "relationItemRound K items item = first_error
     [validateStableID ''relation item ID'' (riID item) maxHandleLength,
      validateStableID ''relation item kind'' (riKind item) maxKindLength,
      fail_if (riID item \<in> items) ''block has duplicate relation item ID'',
      fail_if (riOrder item < 0) ''relation item has negative order'',
      validateProjectedFieldSet K (riShared item) (riLocalized item) (riFiles item)]"

fun relationRounds ::
    "(string \<Rightarrow> bool) \<Rightarrow> RelationID set \<Rightarrow> RelationItemID set \<Rightarrow> Relation list \<Rightarrow> error option" where
  "relationRounds K relations items [] = None"
| "relationRounds K relations items (r # rest) =
     (case first_error
        [validateStableID ''relation ID'' (relID r) maxCatalogIDLength,
         fail_if (relID r \<in> relations) ''block has duplicate relation'',
         loop_seen riID (relationItemRound K) items (relItems r)] of
        Some e \<Rightarrow> Some e
      | None \<Rightarrow> relationRounds K (insert (relID r) relations) (items \<union> riID ` set (relItems r)) rest)"

definition validateProjectedRelations :: "(string \<Rightarrow> bool) \<Rightarrow> Node \<Rightarrow> error option" where
  "validateProjectedRelations K node = relationRounds K {} {} (nodeRelations node)"

definition validateProjectedNode :: "(string \<Rightarrow> bool) \<Rightarrow> Node \<Rightarrow> error option" where
  "validateProjectedNode K node = first_error
     [(if nodeParent node \<noteq> '''' then validateStableID ''parent block ID'' (nodeParent node) maxHandleLength
       else None),
      fail_if (nodeOrder node < 0) ''block has negative order'',
      validateProjectedFieldSet K (nodeShared node) (nodeLocalized node) (nodeFiles node),
      validateProjectedRelations K node]"

definition node_links :: "Node list \<Rightarrow> (BlockID \<times> BlockID) list" where
  "node_links nodes = map (\<lambda>n. (nodeID n, nodeParent n)) nodes"

definition detectParentCycles :: "Node list \<Rightarrow> (BlockID \<times> BlockID) list \<Rightarrow> error option" where
  "detectParentCycles nodes parents =
     check_all
       (\<lambda>node. fail_if (cycle_walk parents {nodeID node} (nodeParent node))
          ''block is part of a parent cycle'')
       nodes"

definition nodeRound :: "(string \<Rightarrow> bool) \<Rightarrow> BlockID set \<Rightarrow> Node \<Rightarrow> error option" where
  "nodeRound K seen node = first_error
     [validateStableID ''block ID'' (nodeID node) maxHandleLength,
      fail_if (nodeID node \<in> seen) ''duplicate block ID'',
      validateProjectedNode K node]"

definition validateProjectedNodes :: "(string \<Rightarrow> bool) \<Rightarrow> Node list \<Rightarrow> error option" where
  "validateProjectedNodes K nodes = first_error
     [loop_seen nodeID (nodeRound K) {} nodes,
      detectParentCycles nodes (node_links nodes)]"

definition validateNodes :: "(string \<Rightarrow> bool) \<Rightarrow> Node list \<Rightarrow> error option" where
  "validateNodes K nodes = first_error
     [validateProjectedNodes K nodes,
      check_all
        (\<lambda>node. fail_if (nodeParent node \<noteq> '''' \<and> nodeParent node \<notin> nodeID ` set nodes)
           ''block has missing parent'')
        nodes]"

section \<open>Documents\<close>

definition validateLocaleState :: "LocaleRole \<Rightarrow> bool \<Rightarrow> Revision option \<Rightarrow> error option" where
  "validateLocaleState role exists target =
     (if role = LocaleRoleSource \<and> \<not> exists then Some (Err ''source locale must exist'')
      else if role = LocaleRoleSource \<and> target \<noteq> None
        then Some (Err ''source locale cannot carry a target revision'')
      else if role = LocaleRoleNonSource \<and> exists \<and> target = None
        then Some (Err ''existing target locale requires a target revision'')
      else if role = LocaleRoleNonSource \<and> \<not> exists \<and> target \<noteq> None
        then Some (Err ''absent target locale cannot carry a target revision'')
      else None)"

definition validateAbsentLocaleValues :: "Node list \<Rightarrow> error option" where
  "validateAbsentLocaleValues nodes =
     check_all
       (\<lambda>node. first_error
          [fail_if (nodeLocalized node \<noteq> [])
             ''absent translation locale cannot contain locale-owned values'',
           check_all
             (\<lambda>relation. check_all
                (\<lambda>item. fail_if (riLocalized item \<noteq> [])
                   ''absent translation locale cannot contain relation-item locale-owned values'')
                (relItems relation))
             (nodeRelations node)])
       nodes"

definition optional_opaque :: "string \<Rightarrow> Revision option \<Rightarrow> error option" where
  "optional_opaque name r =
     (case r of None \<Rightarrow> None | Some v \<Rightarrow> validateOpaque name v 256)"

definition Document_validate :: "(string \<Rightarrow> bool) \<Rightarrow> Document \<Rightarrow> error option" where
  "Document_validate K d = first_error
     [DocumentIdentity_validate (docIdentity d),
      validateOpaque ''document revision'' (docRevision d) 256,
      validateLocale (docSourceLocale d),
      validateLocale (docLocale d),
      validateLocaleState (Role d) (docLocaleExists d) (docTargetRevision d),
      optional_opaque ''target revision'' (docTargetRevision d),
      (if Role d = LocaleRoleNonSource \<and> \<not> docLocaleExists d
         then validateAbsentLocaleValues (docNodes d) else None),
      Catalog_validate (docCatalog d),
      validateNodes K (docNodes d),
      validateDocumentCatalogValues K (docCatalog d) (docNodes d)]"

section \<open>What the node checks establish\<close>

abbreviation node_parents :: "Node list \<Rightarrow> BlockID \<rightharpoonup> BlockID" where
  "node_parents nodes \<equiv> map_of (node_links nodes)"

lemma map_fst_node_links [simp]: "map fst (node_links nodes) = map nodeID nodes"
  by (simp add: node_links_def)

lemma dom_node_parents [simp]: "dom (node_parents nodes) = nodeID ` set nodes"
  by (simp add: node_links_def dom_map_of_conv_image_fst image_image)

lemma node_parents_Some:
  "distinct (map nodeID nodes) \<Longrightarrow> n \<in> set nodes \<Longrightarrow> node_parents nodes (nodeID n) = Some (nodeParent n)"
  by (intro map_of_is_SomeI) (auto simp: node_links_def o_def)

lemma node_parents_SomeD:
  "node_parents nodes b = Some p \<Longrightarrow> \<exists>n \<in> set nodes. nodeID n = b \<and> nodeParent n = p"
  by (auto dest!: map_of_SomeD simp: node_links_def)

definition nodes_ok :: "Node list \<Rightarrow> bool" where
  "nodes_ok nodes \<longleftrightarrow> distinct (map nodeID nodes) \<and> tree_ok (node_parents nodes)"

lemma relationRounds_None:
  "relationRounds K R I rs = None \<longleftrightarrow>
     (\<forall>r \<in> set rs. validateStableID ''relation ID'' (relID r) maxCatalogIDLength = None \<and>
        (\<forall>item \<in> set (relItems r). relationItemRound K {} item = None)) \<and>
     distinct (map relID rs) \<and> relID ` set rs \<inter> R = {} \<and>
     distinct (map riID (concat (map relItems rs))) \<and>
     riID ` set (concat (map relItems rs)) \<inter> I = {}"
proof (induction rs arbitrary: R I)
  case Nil
  then show ?case by simp
next
  case (Cons r rs)
  have items: "loop_seen riID (relationItemRound K) I (relItems r) = None \<longleftrightarrow>
      (\<forall>item \<in> set (relItems r). relationItemRound K {} item = None) \<and>
      distinct (map riID (relItems r)) \<and> riID ` set (relItems r) \<inter> I = {}"
    by (rule loop_seen_distinct) (auto simp: relationItemRound_def first_error_None)
  have "relationRounds K R I (r # rs) = None \<longleftrightarrow>
      validateStableID ''relation ID'' (relID r) maxCatalogIDLength = None \<and> relID r \<notin> R \<and>
      loop_seen riID (relationItemRound K) I (relItems r) = None \<and>
      relationRounds K (insert (relID r) R) (I \<union> riID ` set (relItems r)) rs = None"
    by (auto simp: first_error_None split: option.splits)
  then have step: "relationRounds K R I (r # rs) = None \<longleftrightarrow>
      validateStableID ''relation ID'' (relID r) maxCatalogIDLength = None \<and> relID r \<notin> R \<and>
      ((\<forall>item \<in> set (relItems r). relationItemRound K {} item = None) \<and>
        distinct (map riID (relItems r)) \<and> riID ` set (relItems r) \<inter> I = {}) \<and>
      relationRounds K (insert (relID r) R) (I \<union> riID ` set (relItems r)) rs = None"
    unfolding items .
  define A B C where sets: "A = riID ` set (relItems r)"
    "B = riID ` set (concat (map relItems rs))" "C = relID ` set rs"
  have cons: "riID ` set (concat (map relItems (r # rs))) = A \<union> B"
    "distinct (map riID (concat (map relItems (r # rs)))) \<longleftrightarrow>
       distinct (map riID (relItems r)) \<and> distinct (map riID (concat (map relItems rs))) \<and> A \<inter> B = {}"
    "distinct (map relID (r # rs)) \<longleftrightarrow> relID r \<notin> C \<and> distinct (map relID rs)"
    "relID ` insert r (set rs) = insert (relID r) C" "set (r # rs) = insert r (set rs)"
    by (simp_all add: sets image_Un)
  have split: "B \<inter> (I \<union> A) = {} \<longleftrightarrow> B \<inter> I = {} \<and> A \<inter> B = {}"
    "(A \<union> B) \<inter> I = {} \<longleftrightarrow> A \<inter> I = {} \<and> B \<inter> I = {}"
    "C \<inter> insert (relID r) R = {} \<longleftrightarrow> relID r \<notin> C \<and> C \<inter> R = {}"
    "insert (relID r) C \<inter> R = {} \<longleftrightarrow> relID r \<notin> R \<and> C \<inter> R = {}"
    by blast+
  show ?case
    unfolding step Cons.IH cons sets [symmetric] split ball_simps by argo
qed

lemma validateProjectedNodes_None:
  "validateProjectedNodes K nodes = None \<longleftrightarrow>
     (\<forall>n \<in> set nodes. validateStableID ''block ID'' (nodeID n) maxHandleLength = None \<and>
        validateProjectedNode K n = None) \<and> distinct (map nodeID nodes) \<and>
     (\<forall>n \<in> set nodes. \<not> cycle_walk (node_links nodes) {nodeID n} (nodeParent n))"
proof -
  have "loop_seen nodeID (nodeRound K) {} nodes = None \<longleftrightarrow>
      (\<forall>n \<in> set nodes. validateStableID ''block ID'' (nodeID n) maxHandleLength = None \<and>
        validateProjectedNode K n = None) \<and> distinct (map nodeID nodes) \<and> nodeID ` set nodes \<inter> {} = {}"
    by (rule loop_seen_distinct) (auto simp: nodeRound_def first_error_None)
  then show ?thesis
    by (simp add: validateProjectedNodes_def first_error_None detectParentCycles_def check_all_None)
qed

lemma validateNodes_None:
  "validateNodes K nodes = None \<longleftrightarrow>
     validateProjectedNodes K nodes = None \<and>
     (\<forall>n \<in> set nodes. nodeParent n = '''' \<or> nodeParent n \<in> nodeID ` set nodes)"
  by (auto simp: validateNodes_def first_error_None check_all_None)

lemma tree_ok_no_cycles:
  assumes "distinct (map nodeID nodes)" and "tree_ok (node_parents nodes)" and n: "n \<in> set nodes"
  shows "\<not> cycle_walk (node_links nodes) {nodeID n} (nodeParent n)"
proof -
  let ?par = "node_parents nodes"
  have r: "rooted ?par x" for x using assms(2) by (simp add: tree_ok_def forest_def)
  have p: "?par (nodeID n) = Some (nodeParent n)" by (rule node_parents_Some [OF assms(1) n])
  have no: "\<not> ancestor ?par (nodeID n) (nodeID n)" by (rule ancestor_rooted_irrefl [OF r])
  then have "nodeParent n \<noteq> nodeID n" using p by (auto intro: ancestor.intros)
  moreover have "a \<noteq> nodeID n" if "ancestor ?par a (nodeParent n)" for a
    using that no p by (auto intro: ancestor.above)
  ultimately show ?thesis
    using r by (intro cycle_walk_complete) auto
qed

lemma no_cycles_forest:
  assumes "'''' \<notin> nodeID ` set nodes"
    and "\<forall>n \<in> set nodes. \<not> cycle_walk (node_links nodes) {nodeID n} (nodeParent n)"
  shows "forest (node_parents nodes)"
  unfolding forest_def
proof
  fix x
  show "rooted (node_parents nodes) x"
  proof (cases "node_parents nodes x")
    case None
    then show ?thesis by (rule rooted.outside)
  next
    case (Some p)
    then obtain n where "n \<in> set nodes" "nodeParent n = p" by (auto dest: node_parents_SomeD)
    with assms have "rooted (node_parents nodes) p"
      by (intro cycle_walk_rooted [where visited = "{nodeID n}"]) auto
    with Some show ?thesis by (rule rooted.child)
  qed
qed

lemma validateNodes_ok: "validateNodes K nodes = None \<Longrightarrow> nodes_ok nodes"
proof -
  assume "validateNodes K nodes = None"
  then have ids: "\<forall>n \<in> set nodes. validateStableID ''block ID'' (nodeID n) maxHandleLength = None"
    and d: "distinct (map nodeID nodes)"
    and c: "\<forall>n \<in> set nodes. \<not> cycle_walk (node_links nodes) {nodeID n} (nodeParent n)"
    and p: "\<forall>n \<in> set nodes. nodeParent n = '''' \<or> nodeParent n \<in> nodeID ` set nodes"
    by (auto simp: validateNodes_None validateProjectedNodes_None)
  have e: "'''' \<notin> nodeID ` set nodes" using ids validateStableID_nonempty by fastforce
  have "forest (node_parents nodes)" using e c by (rule no_cycles_forest)
  moreover have "q = '''' \<or> q \<in> nodeID ` set nodes" if "node_parents nodes x = Some q" for x q
    using node_parents_SomeD [OF that] p by auto
  ultimately show ?thesis using d e by (auto simp: nodes_ok_def tree_ok_def)
qed

text \<open>The graph part of the node checks is exactly the tree invariant.\<close>

lemma validateNodes_iff:
  "validateNodes K nodes = None \<longleftrightarrow>
     nodes_ok nodes \<and>
     (\<forall>n \<in> set nodes. validateStableID ''block ID'' (nodeID n) maxHandleLength = None \<and>
        validateProjectedNode K n = None)"
proof
  assume a: "validateNodes K nodes = None"
  then show "nodes_ok nodes \<and> (\<forall>n \<in> set nodes.
      validateStableID ''block ID'' (nodeID n) maxHandleLength = None \<and> validateProjectedNode K n = None)"
    using validateNodes_ok by (auto simp: validateNodes_None validateProjectedNodes_None)
next
  assume a: "nodes_ok nodes \<and> (\<forall>n \<in> set nodes.
      validateStableID ''block ID'' (nodeID n) maxHandleLength = None \<and> validateProjectedNode K n = None)"
  then have d: "distinct (map nodeID nodes)" and t: "tree_ok (node_parents nodes)"
    by (auto simp: nodes_ok_def)
  have "nodeParent n = '''' \<or> nodeParent n \<in> nodeID ` set nodes" if "n \<in> set nodes" for n
    using t node_parents_Some [OF d that] unfolding tree_ok_def by fastforce
  then show "validateNodes K nodes = None"
    using a d tree_ok_no_cycles [OF d t] by (auto simp: validateNodes_None validateProjectedNodes_None)
qed

end
