(* ===== verification/Canonical.thy ===== *)
theory Canonical
  imports Doc_Validation
begin

text \<open>
  The canonical node order of \<open>clone.go\<close>. Copying a value is the identity on the values of the
  model, so \<open>canonicalNodes\<close> sorts the fields, files, relations and items of every node and lists
  the nodes in pre-order of the block tree, siblings by order and identifier.
\<close>

section \<open>Deep copies\<close>

fun cloneInlineItem :: "InlineItem \<Rightarrow> InlineItem" where
  "cloneInlineItem (InlineItem l k t g cs) = InlineItem l k t g (map cloneInlineItem cs)"

definition cloneInlineItems :: "InlineItem list \<Rightarrow> InlineItem list" where
  "cloneInlineItems items = map cloneInlineItem items"

fun cloneValue :: "Value \<Rightarrow> Value" where
  "cloneValue v =
     Value (vKind v) (vText v) (vBoolean v) (cloneInlineItems (vInline v))
       (map (\<lambda>(k, w). (k, cloneValue w)) (vList v)) (map (\<lambda>(k, w). (k, cloneValue w)) (vObject v))"

declare cloneValue.simps [simp del]

lemma cloneInlineItem_id: "cloneInlineItem i = i"
  by (induction i) (simp add: map_idI)

lemma cloneInlineItems_id [simp]: "cloneInlineItems items = items"
  by (simp add: cloneInlineItems_def cloneInlineItem_id map_idI)

lemma cloneValue_id [simp]: "cloneValue v = v"
proof (induction v rule: Value_tree_induct)
  case (Value v)
  have "map (\<lambda>(k, w). (k, cloneValue w)) (vList v) = vList v"
    using Value(1) by (intro map_idI) auto
  moreover have "map (\<lambda>(k, w). (k, cloneValue w)) (vObject v) = vObject v"
    using Value(2) by (intro map_idI) auto
  ultimately show ?case
    by (subst cloneValue.simps) simp
qed

section \<open>Sorting inside a node\<close>

definition sortFields :: "FieldValue list \<Rightarrow> FieldValue list" where
  "sortFields fs = sort_key fvID (map (\<lambda>f. f\<lparr>fvValue := cloneValue (fvValue f)\<rparr>) fs)"

definition canonicalItem :: "RelationItem \<Rightarrow> RelationItem" where
  "canonicalItem item = item\<lparr>
     riShared := sortFields (riShared item),
     riLocalized := sortFields (riLocalized item),
     riFiles := sort_key (\<lambda>b. nestedFieldKey (fbField b) (fbPath b)) (riFiles item)\<rparr>"

definition canonicalRelation :: "Relation \<Rightarrow> Relation" where
  "canonicalRelation r = r\<lparr>relItems :=
     sort_key (\<lambda>item. (riOrder item, riID item)) (map canonicalItem (relItems r))\<rparr>"

definition canonicalNode :: "Node \<Rightarrow> Node" where
  "canonicalNode n = n\<lparr>
     nodeShared := sortFields (nodeShared n),
     nodeLocalized := sortFields (nodeLocalized n),
     nodeFiles := sort_key (\<lambda>b. (nestedFieldKey (fbField b) (fbPath b), fbFile b)) (nodeFiles n),
     nodeRelations := sort_key relID (map canonicalRelation (nodeRelations n))\<rparr>"

section \<open>Pre-order of the block tree\<close>

definition sibling_key :: "Node \<Rightarrow> BlockID \<times> int \<times> BlockID" where
  "sibling_key n = (nodeParent n, nodeOrder n, nodeID n)"

definition canonical_children :: "Node list \<Rightarrow> BlockID \<Rightarrow> Node list" where
  "canonical_children nodes parent = sort_key sibling_key
     (filter (\<lambda>n. nodeParent n \<noteq> '''' \<and> nodeParent n \<in> nodeID ` set nodes \<and> nodeParent n = parent) nodes)"

definition canonical_roots :: "Node list \<Rightarrow> Node list" where
  "canonical_roots nodes = sort_key sibling_key
     (filter (\<lambda>n. nodeParent n = '''' \<or> nodeParent n \<notin> nodeID ` set nodes) nodes)"

text \<open>
  \<open>appendSubtree\<close> recurses along the children; with a repeated identifier it need not end. Fuel
  bounds the depth; a depth of the number of nodes is enough for distinct identifiers.
\<close>

fun appendSubtree :: "nat \<Rightarrow> (BlockID \<Rightarrow> Node list) \<Rightarrow> Node \<Rightarrow> Node list option" where
  "appendSubtree 0 children n = None"
| "appendSubtree (Suc fuel) children n =
     map_option (\<lambda>subtrees. n # concat subtrees)
       (those (map (appendSubtree fuel children) (children (nodeID n))))"

definition canonicalNodes :: "Node list \<Rightarrow> Node list result" where
  "canonicalNodes nodes =
     (let clones = map canonicalNode nodes in
      case those (map (appendSubtree (length clones) (canonical_children clones))
             (canonical_roots clones)) of
        None \<Rightarrow> Inl NoReturn
      | Some subtrees \<Rightarrow> Inr (concat subtrees))"

section \<open>Canonical fields\<close>

lemma sortFields_eq: "sortFields fs = sort_key fvID fs"
  by (simp add: sortFields_def)

lemma canonicalNode_simps [simp]:
  "nodeID (canonicalNode n) = nodeID n" "nodeKind (canonicalNode n) = nodeKind n"
  "nodeParent (canonicalNode n) = nodeParent n" "nodeOrder (canonicalNode n) = nodeOrder n"
  "sibling_key (canonicalNode n) = sibling_key n"
  by (simp_all add: canonicalNode_def sibling_key_def)

lemma canonicalItem_simps [simp]:
  "riID (canonicalItem i) = riID i" "riKind (canonicalItem i) = riKind i"
  "riOrder (canonicalItem i) = riOrder i"
  by (simp_all add: canonicalItem_def)

lemma canonicalRelation_id [simp]: "relID (canonicalRelation r) = relID r"
  by (simp add: canonicalRelation_def)

lemma canonicalItem_idem: "canonicalItem (canonicalItem i) = canonicalItem i"
  by (simp add: canonicalItem_def sortFields_eq sort_key_id_if_sorted)

lemma map_sort_key_fixed:
  "(\<And>x. x \<in> set xs \<Longrightarrow> f x = x) \<Longrightarrow> map f (sort_key k xs) = sort_key k xs"
  by (rule map_idI) simp

lemma canonicalRelation_idem: "canonicalRelation (canonicalRelation r) = canonicalRelation r"
proof -
  have "map canonicalItem (relItems (canonicalRelation r)) = relItems (canonicalRelation r)"
    unfolding canonicalRelation_def by (auto intro!: map_sort_key_fixed simp: canonicalItem_idem)
  then show ?thesis
    by (simp add: canonicalRelation_def sort_key_id_if_sorted)
qed

lemma canonicalNode_idem: "canonicalNode (canonicalNode n) = canonicalNode n"
proof -
  have "map canonicalRelation (nodeRelations (canonicalNode n)) = nodeRelations (canonicalNode n)"
    unfolding canonicalNode_def by (auto intro!: map_sort_key_fixed simp: canonicalRelation_idem)
  then show ?thesis
    by (simp add: canonicalNode_def sortFields_eq sort_key_id_if_sorted)
qed

section \<open>The traversal ends and visits every block once\<close>

definition nodes_forest :: "Node list \<Rightarrow> bool" where
  "nodes_forest nodes \<longleftrightarrow>
     distinct (map nodeID nodes) \<and> '''' \<notin> nodeID ` set nodes \<and> forest (node_parents nodes)"

lemma nodes_ok_forest: "nodes_ok nodes \<Longrightarrow> nodes_forest nodes"
  by (auto simp: nodes_ok_def nodes_forest_def tree_ok_def)

lemma node_links_canonical [simp]: "node_links (map canonicalNode nodes) = node_links nodes"
  by (simp add: node_links_def)

lemma nodes_forest_canonical [simp]: "nodes_forest (map canonicalNode nodes) = nodes_forest nodes"
  by (simp add: nodes_forest_def image_image o_def)

lemma set_canonical_children:
  "set (canonical_children nodes b) =
     {n \<in> set nodes. nodeParent n \<noteq> '''' \<and> nodeParent n = b \<and> b \<in> nodeID ` set nodes}"
  by (auto simp: canonical_children_def)

lemma set_canonical_roots:
  "set (canonical_roots nodes) = {n \<in> set nodes. nodeParent n = '''' \<or> nodeParent n \<notin> nodeID ` set nodes}"
  by (auto simp: canonical_roots_def)

lemma those_map_Some:
  "those (map f xs) = Some ys \<longleftrightarrow> (\<forall>x \<in> set xs. f x \<noteq> None) \<and> ys = map (the \<circ> f) xs"
  by (induction xs arbitrary: ys) (auto split: option.splits)

lemma those_map_defined: "(\<forall>x \<in> set xs. f x \<noteq> None) \<Longrightarrow> those (map f xs) = Some (map (the \<circ> f) xs)"
  by (simp add: those_map_Some)

lemma nodes_forest_parent:
  "nodes_forest nodes \<Longrightarrow> n \<in> set nodes \<Longrightarrow> node_parents nodes (nodeID n) = Some (nodeParent n)"
  using node_parents_Some by (auto simp: nodes_forest_def)

lemma nodes_forest_rooted: "nodes_forest nodes \<Longrightarrow> rooted (node_parents nodes) x"
  by (simp add: nodes_forest_def forest_def)

lemma nodes_forest_same:
  "nodes_forest nodes \<Longrightarrow> m \<in> set nodes \<Longrightarrow> n \<in> set nodes \<Longrightarrow> nodeID m = nodeID n \<Longrightarrow> m = n"
  by (auto simp: nodes_forest_def distinct_map dest: inj_onD)

lemma subtree_returns:
  assumes ok: "nodes_forest nodes"
  shows "n \<in> set nodes \<Longrightarrow> height (node_parents nodes) (nodeID n) h \<Longrightarrow> length nodes < fuel + h \<Longrightarrow>
   \<exists>r. appendSubtree fuel (canonical_children nodes) n = Some r"
proof (induction fuel arbitrary: n h)
  case 0
  have "h \<le> card (dom (node_parents nodes))" by (rule height_bound [OF "0.prems"(2)]) simp
  moreover have "card (nodeID ` set nodes) \<le> length nodes"
    using card_length [of "map nodeID nodes"] by simp
  ultimately show ?case using "0.prems"(3) by simp
next
  case (Suc fuel)
  have "appendSubtree fuel (canonical_children nodes) c \<noteq> None"
    if "c \<in> set (canonical_children nodes (nodeID n))" for c
  proof -
    from that have c: "c \<in> set nodes" "nodeParent c = nodeID n" by (auto simp: set_canonical_children)
    have "height (node_parents nodes) (nodeID c) (Suc h)"
      using nodes_forest_parent [OF ok c(1)] c(2) Suc.prems(2) by (auto intro: height.child)
    then show ?thesis using Suc.IH [OF c(1)] Suc.prems(3) by fastforce
  qed
  then show ?case by (simp add: those_map_defined)
qed

lemma descendants_by_children:
  assumes ok: "nodes_forest nodes" and n: "n \<in> set nodes"
  shows "(\<Union>c \<in> set (canonical_children nodes (nodeID n)).
      {m \<in> set nodes. m = c \<or> ancestor (node_parents nodes) (nodeID c) (nodeID m)}) =
    {m \<in> set nodes. ancestor (node_parents nodes) (nodeID n) (nodeID m)}" (is "?L = ?R")
proof
  let ?cs = "canonical_children nodes (nodeID n)" and ?par = "node_parents nodes"
  show "?L \<subseteq> ?R"
  proof
    fix m assume "m \<in> ?L"
    then obtain c where c: "c \<in> set nodes" "nodeParent c = nodeID n" and m: "m \<in> set nodes"
      "m = c \<or> ancestor ?par (nodeID c) (nodeID m)" by (auto simp: set_canonical_children)
    have "ancestor ?par (nodeID n) (nodeID c)"
      using nodes_forest_parent [OF ok c(1)] c(2) by (auto intro: ancestor.parent)
    with m show "m \<in> ?R" by (auto intro: ancestor_trans)
  qed
  show "?R \<subseteq> ?L"
  proof
    fix m assume "m \<in> ?R"
    then have m: "m \<in> set nodes" "ancestor ?par (nodeID n) (nodeID m)" by auto
    have "\<exists>c \<in> set ?cs. nodeID c = y \<or> ancestor ?par (nodeID c) y"
      if "ancestor ?par (nodeID n) y" for y
      using that
    proof (induction "nodeID n" y rule: ancestor.induct)
      case (parent y)
      then obtain c where "c \<in> set nodes" "nodeID c = y" "nodeParent c = nodeID n"
        by (auto dest: node_parents_SomeD)
      moreover have "nodeID n \<noteq> ''''" using n ok by (force simp: nodes_forest_def)
      ultimately show ?case using n by (auto simp: set_canonical_children)
    next
      case (above y p)
      then show ?case by (auto intro: ancestor.intros)
    qed
    from this [OF m(2)] obtain c where c: "c \<in> set ?cs"
      "nodeID c = nodeID m \<or> ancestor ?par (nodeID c) (nodeID m)" by blast
    moreover have "c \<in> set nodes" using c(1) by (simp add: set_canonical_children)
    ultimately show "m \<in> ?L" using m(1) nodes_forest_same [OF ok] by blast
  qed
qed

lemma subtree_set:
  assumes ok: "nodes_forest nodes"
  shows "appendSubtree fuel (canonical_children nodes) n = Some r \<Longrightarrow> n \<in> set nodes \<Longrightarrow>
   set r = {m \<in> set nodes. m = n \<or> ancestor (node_parents nodes) (nodeID n) (nodeID m)}"
proof (induction fuel arbitrary: n r)
  case 0
  then show ?case by simp
next
  case (Suc fuel)
  let ?cs = "canonical_children nodes (nodeID n)" and ?par = "node_parents nodes"
  let ?sub = "the \<circ> appendSubtree fuel (canonical_children nodes)"
  from Suc.prems(1) have def: "\<forall>c \<in> set ?cs. appendSubtree fuel (canonical_children nodes) c \<noteq> None"
    and r: "r = n # concat (map ?sub ?cs)"
    by (auto simp: those_map_Some)
  have "set (?sub c) = {m \<in> set nodes. m = c \<or> ancestor ?par (nodeID c) (nodeID m)}"
    if "c \<in> set ?cs" for c
    using Suc.IH [of c] def that by (auto simp: set_canonical_children)
  then have "set (concat (map ?sub ?cs)) =
      (\<Union>c \<in> set ?cs. {m \<in> set nodes. m = c \<or> ancestor ?par (nodeID c) (nodeID m)})"
    by simp
  then show ?case
    using r Suc.prems(2) descendants_by_children [OF ok Suc.prems(2)] by auto
qed


lemma ancestors_comparable:
  "ancestor par a x \<Longrightarrow> b = x \<or> ancestor par b x \<Longrightarrow> a = b \<or> ancestor par a b \<or> ancestor par b a"
proof (induction arbitrary: b rule: ancestor.induct)
  case (parent x a)
  then show ?case by (auto elim: ancestorE intro: ancestor.intros)
next
  case (above x p a)
  show ?case
  proof (cases "b = x")
    case True
    with above.hyps show ?thesis by (auto intro: ancestor.intros)
  next
    case False
    with above.prems above.hyps(1) have "b = p \<or> ancestor par b p" by (auto elim: ancestorE)
    then show ?thesis by (rule above.IH)
  qed
qed

lemma ancestor_parent_cases:
  "ancestor par a x \<Longrightarrow> par x = Some p \<Longrightarrow> a = p \<or> ancestor par a p"
  by (auto elim: ancestorE)

text \<open>The subtrees of two blocks with the same parent have no block in common.\<close>

lemma sibling_subtrees_disjoint:
  assumes ok: "nodes_forest nodes" and c: "c \<in> set nodes" "d \<in> set nodes" "c \<noteq> d"
    and parent: "nodeParent c = nodeParent d"
    and m: "m = c \<or> ancestor (node_parents nodes) (nodeID c) (nodeID m)"
      "m = d \<or> ancestor (node_parents nodes) (nodeID d) (nodeID m)"
  shows False
proof -
  let ?par = "node_parents nodes"
  have pc: "?par (nodeID c) = Some (nodeParent c)" and pd: "?par (nodeID d) = Some (nodeParent c)"
    using nodes_forest_parent [OF ok] c parent by auto
  have irrefl: "\<not> ancestor ?par x x" for x
    using nodes_forest_rooted [OF ok] by (rule ancestor_rooted_irrefl)
  have no: "\<not> ancestor ?par (nodeID x) (nodeID y)"
    if "?par (nodeID x) = Some (nodeParent c)" "?par (nodeID y) = Some (nodeParent c)" for x y
  proof
    assume "ancestor ?par (nodeID x) (nodeID y)"
    then have "nodeID x = nodeParent c \<or> ancestor ?par (nodeID x) (nodeParent c)"
      using that(2) by (rule ancestor_parent_cases)
    then show False using that(1) irrefl [of "nodeID x"] irrefl [of "nodeParent c"]
      by (metis ancestor.parent ancestor_trans)
  qed
  have ne: "nodeID c \<noteq> nodeID d" using nodes_forest_same [OF ok] c by blast
  show False
    using m no [OF pc pd] no [OF pd pc] ne
      ancestors_comparable [of ?par "nodeID c" "nodeID m" "nodeID d"]
    by (auto dest: ancestors_comparable)
qed

lemma distinct_concat_map:
  assumes "distinct xs" and "\<And>x. x \<in> set xs \<Longrightarrow> distinct (f x)"
    and "\<And>x y. x \<in> set xs \<Longrightarrow> y \<in> set xs \<Longrightarrow> x \<noteq> y \<Longrightarrow> set (f x) \<inter> set (f y) = {}"
  shows "distinct (concat (map f xs))"
  using assms
proof (induction xs)
  case Nil
  then show ?case by simp
next
  case (Cons x xs)
  have "distinct (concat (map f xs))"
    by (rule Cons.IH) (use Cons.prems in auto)
  moreover have "set (f x) \<inter> set (f y) = {}" if "y \<in> set xs" for y
    using Cons.prems that by (intro Cons.prems(3)) auto
  ultimately show ?case using Cons.prems(2) [of x] by auto
qed

lemma nodes_forest_distinct: "nodes_forest nodes \<Longrightarrow> distinct nodes"
  by (auto simp: nodes_forest_def distinct_map)

lemma subtree_distinct:
  assumes ok: "nodes_forest nodes"
  shows "appendSubtree fuel (canonical_children nodes) n = Some r \<Longrightarrow> n \<in> set nodes \<Longrightarrow> distinct r"
proof (induction fuel arbitrary: n r)
  case 0
  then show ?case by simp
next
  case (Suc fuel)
  let ?cs = "canonical_children nodes (nodeID n)" and ?par = "node_parents nodes"
  let ?sub = "the \<circ> appendSubtree fuel (canonical_children nodes)"
  from Suc.prems(1) have "\<forall>c \<in> set ?cs. appendSubtree fuel (canonical_children nodes) c \<noteq> None"
    and r: "r = n # concat (map ?sub ?cs)"
    by (auto simp: those_map_Some)
  then have def: "appendSubtree fuel (canonical_children nodes) c = Some (?sub c)" if "c \<in> set ?cs" for c
    using that by auto
  have kid: "c \<in> set nodes" "nodeParent c = nodeID n" if "c \<in> set ?cs" for c
    using that by (auto simp: set_canonical_children)
  have sub: "set (?sub c) = {m \<in> set nodes. m = c \<or> ancestor ?par (nodeID c) (nodeID m)}"
    if "c \<in> set ?cs" for c
    using subtree_set [OF ok def [OF that] kid(1) [OF that]] .
  have "distinct ?cs" using nodes_forest_distinct [OF ok] by (simp add: canonical_children_def)
  then have "distinct (concat (map ?sub ?cs))"
  proof (rule distinct_concat_map)
    show "distinct (?sub c)" if "c \<in> set ?cs" for c
      by (rule Suc.IH [OF def [OF that] kid(1) [OF that]])
    show "set (?sub c) \<inter> set (?sub d) = {}" if "c \<in> set ?cs" "d \<in> set ?cs" "c \<noteq> d" for c d
      using sibling_subtrees_disjoint [OF ok kid(1) [OF that(1)] kid(1) [OF that(2)] that(3)]
        kid(2) [OF that(1)] kid(2) [OF that(2)] sub [OF that(1)] sub [OF that(2)] by fastforce
  qed
  moreover have "n \<notin> set (concat (map ?sub ?cs))"
  proof -
    have "set (concat (map ?sub ?cs)) = {m \<in> set nodes. ancestor ?par (nodeID n) (nodeID m)}"
      using sub descendants_by_children [OF ok Suc.prems(2)] by simp
    then show ?thesis
      using ancestor_rooted_irrefl [OF nodes_forest_rooted [OF ok]] by auto
  qed
  ultimately show ?case using r by simp
qed


lemma ancestor_in_nodes: "ancestor (node_parents nodes) a x \<Longrightarrow> x \<in> nodeID ` set nodes"
  by (induction rule: ancestor.induct) (auto dest: node_parents_SomeD)

lemma below_some_root:
  assumes ok: "nodes_forest nodes" and m: "m \<in> set nodes"
  shows "\<exists>n \<in> set (canonical_roots nodes). m = n \<or> ancestor (node_parents nodes) (nodeID n) (nodeID m)"
proof -
  let ?par = "node_parents nodes"
  have "rooted ?par x \<Longrightarrow> x \<in> nodeID ` set nodes \<Longrightarrow>
      \<exists>n \<in> set (canonical_roots nodes). nodeID n = x \<or> ancestor ?par (nodeID n) x" for x
  proof (induction rule: rooted.induct)
    case (outside x)
    then show ?case using dom_node_parents [of nodes] by (metis domIff)
  next
    case (child x p)
    then obtain c where c: "c \<in> set nodes" "nodeID c = x" "nodeParent c = p"
      by (auto dest: node_parents_SomeD)
    show ?case
    proof (cases "p = '''' \<or> p \<notin> nodeID ` set nodes")
      case True
      with c show ?thesis by (auto simp: set_canonical_roots)
    next
      case False
      with child obtain n where "n \<in> set (canonical_roots nodes)" "nodeID n = p \<or> ancestor ?par (nodeID n) p"
        by auto
      with child.hyps(1) show ?thesis by (auto intro: ancestor.intros)
    qed
  qed
  from this [OF nodes_forest_rooted [OF ok], of "nodeID m"] m obtain n
    where n: "n \<in> set (canonical_roots nodes)" "nodeID n = nodeID m \<or> ancestor ?par (nodeID n) (nodeID m)"
    by auto
  moreover have "n \<in> set nodes" using n(1) by (simp add: set_canonical_roots)
  ultimately show ?thesis using nodes_forest_same [OF ok m] by metis
qed

lemma root_subtrees_disjoint:
  assumes ok: "nodes_forest nodes" and c: "c \<in> set (canonical_roots nodes)" "d \<in> set (canonical_roots nodes)"
    and "c \<noteq> d"
    and m: "m = c \<or> ancestor (node_parents nodes) (nodeID c) (nodeID m)"
      "m = d \<or> ancestor (node_parents nodes) (nodeID d) (nodeID m)"
  shows False
proof -
  let ?par = "node_parents nodes"
  have top: "\<not> ancestor ?par a (nodeID x)" if "x \<in> set (canonical_roots nodes)" "a \<in> nodeID ` set nodes" for a x
  proof
    assume anc: "ancestor ?par a (nodeID x)"
    have x: "x \<in> set nodes" "nodeParent x = '''' \<or> nodeParent x \<notin> nodeID ` set nodes"
      using that(1) by (auto simp: set_canonical_roots)
    have "a = nodeParent x \<or> ancestor ?par a (nodeParent x)"
      by (rule ancestor_parent_cases [OF anc nodes_forest_parent [OF ok x(1)]])
    then have "nodeParent x \<in> nodeID ` set nodes" using that(2) ancestor_in_nodes by blast
    then show False using x(2) ok by (simp add: nodes_forest_def)
  qed
  have cd: "c \<in> set nodes" "d \<in> set nodes" using c by (auto simp: set_canonical_roots)
  have ne: "nodeID c \<noteq> nodeID d" using nodes_forest_same [OF ok cd] \<open>c \<noteq> d\<close> by blast
  show False
    using m top [OF c(1), of "nodeID d"] top [OF c(2), of "nodeID c"] cd ne \<open>c \<noteq> d\<close>
      ancestors_comparable [of ?par "nodeID c" "nodeID m" "nodeID d"]
    by auto
qed

lemma canonicalNodes_forest:
  assumes ok: "nodes_forest nodes"
  shows "\<exists>r. canonicalNodes nodes = Inr r \<and> mset r = mset (map canonicalNode nodes)"
proof -
  let ?ns = "map canonicalNode nodes"
  let ?app = "appendSubtree (length ?ns) (canonical_children ?ns)"
  have ok': "nodes_forest ?ns" using ok by simp
  have root: "n \<in> set ?ns" if "n \<in> set (canonical_roots ?ns)" for n
    using that by (simp add: set_canonical_roots)
  have def: "?app n \<noteq> None" if n: "n \<in> set (canonical_roots ?ns)" for n
  proof -
    have "node_parents ?ns (nodeID n) = Some (nodeParent n)"
      by (rule nodes_forest_parent [OF ok' root [OF n]])
    moreover obtain h where "height (node_parents ?ns) (nodeParent n) h"
      using rooted_height [OF nodes_forest_rooted [OF ok']] by blast
    ultimately have "height (node_parents ?ns) (nodeID n) (Suc h)" by (rule height.child)
    then show ?thesis using subtree_returns [OF ok' root [OF n], of "Suc h" "length ?ns"] by auto
  qed
  let ?r = "concat (map (the \<circ> ?app) (canonical_roots ?ns))"
  have c: "canonicalNodes nodes = Inr ?r"
    unfolding canonicalNodes_def Let_def using def by (subst those_map_defined) auto
  have some: "?app n = Some (the (?app n))" if "n \<in> set (canonical_roots ?ns)" for n
    using def [OF that] by auto
  have sub: "set (the (?app n)) = {m \<in> set ?ns. m = n \<or> ancestor (node_parents ?ns) (nodeID n) (nodeID m)}"
    if "n \<in> set (canonical_roots ?ns)" for n
    by (rule subtree_set [OF ok' some [OF that] root [OF that]])
  have "set ?r = (\<Union>n \<in> set (canonical_roots ?ns).
      {m \<in> set ?ns. m = n \<or> ancestor (node_parents ?ns) (nodeID n) (nodeID m)})"
    using sub by simp
  also have "\<dots> = set ?ns" using below_some_root [OF ok'] by blast
  finally have "set ?r = set ?ns" .
  moreover have "distinct ?r"
  proof (rule distinct_concat_map)
    show "distinct (canonical_roots ?ns)"
      using nodes_forest_distinct [OF ok'] unfolding canonical_roots_def by simp
    show "distinct ((the \<circ> ?app) n)" if "n \<in> set (canonical_roots ?ns)" for n
      using subtree_distinct [OF ok' some [OF that] root [OF that]] by simp
    show "set ((the \<circ> ?app) c) \<inter> set ((the \<circ> ?app) d) = {}"
      if "c \<in> set (canonical_roots ?ns)" "d \<in> set (canonical_roots ?ns)" "c \<noteq> d" for c d
      using root_subtrees_disjoint [OF ok' that] sub [OF that(1)] sub [OF that(2)] by fastforce
  qed
  ultimately have "mset ?r = mset ?ns"
    using nodes_forest_distinct [OF ok'] set_eq_iff_mset_eq_distinct by blast
  with c show ?thesis by blast
qed

section \<open>The order does not depend on the input order\<close>

lemma sort_key_perm:
  assumes "mset xs = mset ys" and "distinct (map key xs)"
  shows "sort_key key xs = sort_key key ys"
proof (rule sort_key_unique)
  show "mset (sort_key key xs) = mset ys" using assms(1) by simp
  show "sorted (map key (sort_key key xs))" by simp
  have "mset (map key xs) = mset (map key ys)" using assms(1) by simp
  then show "distinct (map key ys)" using assms(2) mset_eq_imp_distinct_iff by blast
qed

lemma canonicalNodes_perm:
  assumes "mset ms = mset ns" and "distinct (map nodeID ns)"
  shows "canonicalNodes ms = canonicalNodes ns"
proof -
  let ?m = "map canonicalNode ms" and ?n = "map canonicalNode ns"
  have mset: "mset ?m = mset ?n" using assms(1) by simp
  have set: "set ?m = set ?n" and len: "length ?m = length ?n"
    by (fact mset_eq_setD [OF mset], fact mset_eq_length [OF mset])
  have "distinct (map nodeID ?n)" using assms(2) by (simp add: o_def)
  then have dist: "distinct (map sibling_key (filter P ?n))" for P
    by (induction ns) (auto simp: sibling_key_def image_iff)
  have filt: "sort_key sibling_key (filter P ?m) = sort_key sibling_key (filter P ?n)" for P
    using mset dist by (intro sort_key_perm [symmetric]) simp_all
  have "canonical_roots ?m = canonical_roots ?n" "canonical_children ?m = canonical_children ?n"
    unfolding canonical_roots_def canonical_children_def set using filt by auto
  then show ?thesis unfolding canonicalNodes_def Let_def len by simp
qed

lemma canonicalNodes_fixed: "canonicalNodes (map canonicalNode nodes) = canonicalNodes nodes"
  by (simp add: canonicalNodes_def o_def canonicalNode_idem)

lemma canonicalNodes_idem:
  assumes "nodes_forest nodes" and r: "canonicalNodes nodes = Inr r"
  shows "canonicalNodes r = Inr r"
proof -
  have m: "mset r = mset (map canonicalNode nodes)" using canonicalNodes_forest [OF assms(1)] r by auto
  have "distinct (map nodeID (map canonicalNode nodes))"
    using assms(1) by (simp add: nodes_forest_def o_def)
  with canonicalNodes_perm [OF m] show ?thesis using r by (simp add: canonicalNodes_fixed)
qed

section \<open>Parents come before their children\<close>

fun parents_first :: "BlockID set \<Rightarrow> BlockID set \<Rightarrow> Node list \<Rightarrow> bool" where
  "parents_first ids seen [] \<longleftrightarrow> True"
| "parents_first ids seen (n # ns) \<longleftrightarrow>
     (nodeParent n = '''' \<or> nodeParent n \<notin> ids \<or> nodeParent n \<in> seen) \<and>
     parents_first ids (insert (nodeID n) seen) ns"

lemma parents_first_mono: "parents_first ids seen ns \<Longrightarrow> seen \<subseteq> seen' \<Longrightarrow> parents_first ids seen' ns"
proof (induction ns arbitrary: seen seen')
  case Nil
  then show ?case by simp
next
  case (Cons n ns)
  have "parents_first ids (insert (nodeID n) seen) ns" using Cons.prems(1) by simp
  then have "parents_first ids (insert (nodeID n) seen') ns"
    by (rule Cons.IH) (use Cons.prems(2) in blast)
  then show ?case using Cons.prems by auto
qed

lemma parents_first_append:
  "parents_first ids seen (xs @ ys) \<longleftrightarrow>
     parents_first ids seen xs \<and> parents_first ids (seen \<union> nodeID ` set xs) ys"
  by (induction xs arbitrary: seen) auto

lemma parents_first_concat:
  "(\<And>x. x \<in> set xs \<Longrightarrow> parents_first ids seen (f x)) \<Longrightarrow> parents_first ids seen (concat (map f xs))"
proof (induction xs arbitrary: seen)
  case Nil
  then show ?case by simp
next
  case (Cons x xs)
  have "parents_first ids (seen \<union> nodeID ` set (f x)) (concat (map f xs))"
    by (rule Cons.IH) (auto intro: parents_first_mono [OF Cons.prems])
  then show ?case using Cons.prems [of x] by (simp add: parents_first_append)
qed

lemma subtree_parents_first:
  "appendSubtree fuel (canonical_children nodes) n = Some r \<Longrightarrow>
   nodeParent n = '''' \<or> nodeParent n \<notin> ids \<or> nodeParent n \<in> seen \<Longrightarrow> parents_first ids seen r"
proof (induction fuel arbitrary: n r seen)
  case 0
  then show ?case by simp
next
  case (Suc fuel)
  let ?cs = "canonical_children nodes (nodeID n)"
  let ?sub = "the \<circ> appendSubtree fuel (canonical_children nodes)"
  from Suc.prems(1) have def: "\<forall>c \<in> set ?cs. appendSubtree fuel (canonical_children nodes) c \<noteq> None"
    and r: "r = n # concat (map ?sub ?cs)"
    by (auto simp: those_map_Some)
  have "parents_first ids (insert (nodeID n) seen) (?sub c)" if "c \<in> set ?cs" for c
    using def that by (intro Suc.IH [of c]) (auto simp: set_canonical_children)
  then show ?case using r Suc.prems(2) by (simp add: parents_first_concat)
qed

lemma canonicalNodes_parents_first:
  assumes "canonicalNodes nodes = Inr r"
  shows "parents_first (nodeID ` set nodes) {} r"
proof -
  let ?ns = "map canonicalNode nodes"
  let ?app = "appendSubtree (length ?ns) (canonical_children ?ns)"
  from assms have def: "\<forall>n \<in> set (canonical_roots ?ns). ?app n \<noteq> None"
    and r: "r = concat (map (the \<circ> ?app) (canonical_roots ?ns))"
    by (auto simp: canonicalNodes_def Let_def those_map_Some split: option.splits)
  have "parents_first (nodeID ` set nodes) {} ((the \<circ> ?app) n)" if "n \<in> set (canonical_roots ?ns)" for n
    using def that by (intro subtree_parents_first [where nodes = ?ns and fuel = "length ?ns"])
      (auto simp: set_canonical_roots image_image)
  then show ?thesis unfolding r by (rule parents_first_concat)
qed

end
