(* ===== verification/Placement.thy ===== *)
theory Placement
  imports Prelude
begin

text \<open>
  Ordered sequences with an insert-after operation: the abstract contract that the block order of a
  parent and the item order of a relation both implement, and the list lemmas about positions that
  the implementations share.
\<close>

section \<open>Positions\<close>

definition position :: "'a list \<Rightarrow> 'a \<Rightarrow> nat" where
  "position xs x = length (takeWhile (\<lambda>y. y \<noteq> x) xs)"

lemma position_Cons: "position (y # ys) x = (if y = x then 0 else Suc (position ys x))"
  by (simp add: position_def)

lemma map_position: "distinct xs \<Longrightarrow> map (position xs) xs = [0..<length xs]"
proof (induction xs)
  case Nil
  then show ?case by simp
next
  case (Cons x xs)
  then have "map (position (x # xs)) xs = map Suc (map (position xs) xs)"
    unfolding map_map by (intro map_cong) (auto simp: position_Cons)
  also have "\<dots> = [1..<length (x # xs)]" using Cons by (simp add: map_Suc_upt del: upt_Suc)
  finally have tail: "map (position (x # xs)) xs = [1..<length (x # xs)]" .
  have "position (x # xs) x = 0" by (simp add: position_Cons)
  with tail have "map (position (x # xs)) (x # xs) = 0 # [1..<length (x # xs)]" by (simp only: list.map)
  also have "\<dots> = [0..<length (x # xs)]" by (simp add: upt_conv_Cons del: upt_Suc)
  finally show ?case .
qed

text \<open>Elements that carry their position in a sequence as their sort key sort into the sequence.\<close>

lemma sort_by_position:
  assumes d: "distinct (map ident F)" and s: "ident ` set F = set ordered" and o: "distinct ordered"
    and k: "\<And>x y. x \<in> set F \<Longrightarrow> y \<in> set F \<Longrightarrow> key x \<le> key y \<Longrightarrow>
      position ordered (ident x) \<le> position ordered (ident y)"
  shows "map ident (sort_key key F) = ordered"
proof -
  have "sorted_wrt (\<lambda>x y. key x \<le> key y) (sort_key key F)"
    using sorted_sort_key [of key F] unfolding sorted_map by simp
  then have "sorted (map (position ordered) (map ident (sort_key key F)))"
    unfolding map_map sorted_map o_def by (rule sorted_wrt_mono_rel [rotated]) (auto intro: k)
  moreover have "mset (map ident (sort_key key F)) = mset ordered"
  proof -
    have "distinct (map ident (sort_key key F))" using d by (simp add: distinct_map)
    then show ?thesis using o s by (intro set_eq_iff_mset_eq_distinct [THEN iffD1]) auto
  qed
  moreover have "distinct (map (position ordered) ordered)" by (simp add: map_position o)
  ultimately have "map ident (sort_key key F) = sort_key (position ordered) ordered"
    by (intro sort_key_unique) auto
  also have "\<dots> = ordered" by (intro map_sort_key_idem) (simp add: map_position o)
  finally show ?thesis .
qed

section \<open>Insert after\<close>

text \<open>The empty identifier asks for the first place.\<close>

fun insert_after :: "string \<Rightarrow> string \<Rightarrow> string list \<Rightarrow> string list" where
  "insert_after a x [] = [x]"
| "insert_after a x (y # ys) =
     (if a = '''' then x # y # ys else if y = a then y # x # ys else y # insert_after a x ys)"

lemma set_insert_after [simp]: "set (insert_after a x ys) = insert x (set ys)"
  by (induction a x ys rule: insert_after.induct) auto

lemma distinct_insert_after [simp]:
  "distinct (insert_after a x ys) \<longleftrightarrow> distinct ys \<and> x \<notin> set ys"
  by (induction a x ys rule: insert_after.induct) auto

lemma removeAll_insert_after [simp]: "removeAll x (insert_after a x ys) = removeAll x ys"
  by (induction a x ys rule: insert_after.induct) auto

lemma insert_after_first: "insert_after '''' x ys = x # ys"
  by (cases ys) auto

lemma insert_after_next:
  "a \<in> set ys \<Longrightarrow> a \<noteq> '''' \<Longrightarrow> \<exists>us vs. ys = us @ a # vs \<and> insert_after a x ys = us @ a # x # vs"
proof (induction ys)
  case Nil
  then show ?case by simp
next
  case (Cons y ys)
  show ?case
  proof (cases "y = a")
    case True
    then have "y # ys = [] @ a # ys" "insert_after a x (y # ys) = [] @ a # x # ys"
      using Cons.prems by auto
    then show ?thesis by blast
  next
    case False
    with Cons obtain us vs where "ys = us @ a # vs" "insert_after a x ys = us @ a # x # vs" by auto
    with False Cons.prems have "y # ys = (y # us) @ a # vs"
      "insert_after a x (y # ys) = (y # us) @ a # x # vs" by auto
    then show ?thesis by blast
  qed
qed

section \<open>The contract\<close>

text \<open>
  A provider has a sequence of identifiers per state and places one identifier in it; \<open>ready s x a\<close>
  is what the caller has to establish before placing \<open>x\<close> after \<open>a\<close>. Placing takes the identifier
  out of the sequence and puts it back right after the anchor.
\<close>

locale placement =
  fixes sequence :: "'s \<Rightarrow> string list"
    and place :: "string \<Rightarrow> string \<Rightarrow> 's \<Rightarrow> 's"
    and ready :: "'s \<Rightarrow> string \<Rightarrow> string \<Rightarrow> bool"
  assumes ready_anchor: "ready s x a \<Longrightarrow> a = '''' \<or> a \<in> set (sequence s) \<and> a \<noteq> x"
    and sequence_place: "ready s x a \<Longrightarrow>
      sequence (place x a s) = insert_after a x (removeAll x (sequence s))"
begin

lemma place_members: "ready s x a \<Longrightarrow> set (sequence (place x a s)) = insert x (set (sequence s))"
  by (auto simp: sequence_place)

lemma place_distinct: "ready s x a \<Longrightarrow> distinct (sequence s) \<Longrightarrow> distinct (sequence (place x a s))"
  by (simp add: sequence_place distinct_removeAll)

lemma place_keeps_others:
  "ready s x a \<Longrightarrow> removeAll x (sequence (place x a s)) = removeAll x (sequence s)"
  by (simp add: sequence_place)

lemma place_adjacent:
  assumes "ready s x a"
  shows "if a = '''' then sequence (place x a s) = x # removeAll x (sequence s)
    else \<exists>us vs. sequence (place x a s) = us @ a # x # vs"
proof (cases "a = ''''")
  case True
  then show ?thesis using assms by (simp add: sequence_place insert_after_first)
next
  case False
  then have "a \<in> set (removeAll x (sequence s))" using ready_anchor [OF assms] by auto
  from insert_after_next [OF this False, of x] show ?thesis
    using False unfolding sequence_place [OF assms] by auto
qed

end

end
