(* ===== verification/Handles.thy ===== *)
theory Handles
  imports Doc_Types
begin

text \<open>
  The public handles of operations: \<open>operation_handles.go\<close>. A batch is reported by the sorted set of
  the handles it touches.
\<close>

definition blockHandle :: "BlockID \<Rightarrow> string" where
  "blockHandle block = ''block:'' @ block"

definition relationHandle :: "BlockID \<Rightarrow> RelationID \<Rightarrow> string" where
  "relationHandle block relation = ''relation:'' @ block @ ''/'' @ relation"

definition relationItemHandle :: "BlockID \<Rightarrow> RelationID \<Rightarrow> RelationItemID \<Rightarrow> string" where
  "relationItemHandle block relation item =
     ''relation-item:'' @ block @ ''/'' @ relation @ ''/'' @ item"

definition pathHandle :: "FieldPathSegment list \<Rightarrow> string" where
  "pathHandle path = foldl
     (\<lambda>acc s. if segField s \<noteq> '''' then acc @ ''/field:'' @ segField s
              else acc @ ''/item:'' @ segItem s) '''' path"

definition fieldHandle :: "FieldTarget \<Rightarrow> string" where
  "fieldHandle t =
     (if relationItem t
        then ''field:'' @ tgtBlock t @ ''/'' @ tgtRelation t @ ''/'' @ tgtItem t @ ''/'' @ tgtField t @
          pathHandle (tgtPath t)
      else ''field:'' @ tgtBlock t @ ''/'' @ tgtField t @ pathHandle (tgtPath t))"

text \<open>Reading the payload of an operation whose payload is nil panics.\<close>

definition deref :: "'a option \<Rightarrow> ('a \<Rightarrow> 'b result) \<Rightarrow> 'b result" where
  "deref p f = (case p of None \<Rightarrow> Inl NilDeref | Some x \<Rightarrow> f x)"

lemma deref_simps [simp]: "deref None f = Inl NilDeref" "deref (Some x) f = f x"
  by (simp_all add: deref_def)

definition operationHandles :: "Operation \<Rightarrow> Locale \<Rightarrow> string list result" where
  "operationHandles op locale =
     (case opKind op of
        OperationSetField \<Rightarrow> deref (opSetField op) (\<lambda>p. Inr [fieldHandle (sfTarget p)])
      | OperationUnsetField \<Rightarrow> deref (opUnsetField op) (\<lambda>t. Inr [fieldHandle t])
      | OperationInsertBlock \<Rightarrow> deref (opInsertBlock op)
          (\<lambda>p. Inr [blockHandle (ibBlock p), blockHandle (ibParent p)])
      | OperationDeleteBlock \<Rightarrow> deref (opDeleteBlock op) (\<lambda>b. Inr [blockHandle b])
      | OperationMoveBlock \<Rightarrow> deref (opMoveBlock op)
          (\<lambda>p. Inr [blockHandle (mbBlock p), blockHandle (mbParent p)])
      | OperationReplaceBlockKind \<Rightarrow> deref (opReplaceBlockKind op) (\<lambda>p. Inr [blockHandle (rbBlock p)])
      | OperationInsertRelationItem \<Rightarrow> deref (opInsertRelationItem op)
          (\<lambda>p. Inr [relationHandle (iriBlock p) (iriRelation p),
                    relationItemHandle (iriBlock p) (iriRelation p) (iriItem p)])
      | OperationDeleteRelationItem \<Rightarrow> deref (opDeleteRelationItem op)
          (\<lambda>p. Inr [relationHandle (driBlock p) (driRelation p),
                    relationItemHandle (driBlock p) (driRelation p) (driItem p)])
      | OperationMoveRelationItem \<Rightarrow> deref (opMoveRelationItem op)
          (\<lambda>p. Inr [relationItemHandle (mriBlock p) (mriRelation p) (mriItem p),
                    relationHandle (mriBlock p) (mriRelation p),
                    relationHandle (mriTargetBlock p) (mriTarget p)])
      | OperationAttachFile \<Rightarrow> deref (opAttachFile op) (\<lambda>p. Inr [fieldHandle (afTarget p)])
      | OperationDetachFile \<Rightarrow> deref (opDetachFile op) (\<lambda>t. Inr [fieldHandle t])
      | OperationCreateTranslation \<Rightarrow> Inr [''translation:'' @ locale]
      | OperationDeleteTranslation \<Rightarrow> Inr [''translation:'' @ locale]
      | OperationOther _ \<Rightarrow> Inr [])"

definition canonicalHandles :: "string list \<Rightarrow> string list" where
  "canonicalHandles handles =
     sort (remdups (filter (\<lambda>h. trim_space h \<noteq> '''' \<and> h \<noteq> ''block:'') handles))"

definition OperationHandles :: "Operation \<Rightarrow> Locale \<Rightarrow> string list result" where
  "OperationHandles op locale =
     and_then (operationHandles op locale) (\<lambda>hs. Inr (canonicalHandles hs))"

definition AffectedHandles :: "Operation list \<Rightarrow> Locale \<Rightarrow> string list result" where
  "AffectedHandles operations locale =
     and_then
       (fold_result (\<lambda>acc op. and_then (operationHandles op locale) (\<lambda>hs. Inr (acc @ hs))) [] operations)
       (\<lambda>hs. Inr (canonicalHandles hs))"

section \<open>Handles of well-shaped operations\<close>

lemma operationHandles_shape: "validateShape op = None \<Longrightarrow> \<exists>hs. operationHandles op locale = Inr hs"
  by (auto simp: validateShape_def kindMatchesPayload_def operationHandles_def
      split: if_splits OperationKind.splits)

lemma AffectedHandles_eq:
  assumes "\<forall>op \<in> set ops. validateShape op = None"
  shows "AffectedHandles ops locale =
    Inr (canonicalHandles (concat (map (\<lambda>op. projr (operationHandles op locale)) ops)))"
proof -
  have "fold_result (\<lambda>acc op. and_then (operationHandles op locale) (\<lambda>hs. Inr (acc @ hs))) acc ops =
      Inr (acc @ concat (map (\<lambda>op. projr (operationHandles op locale)) ops))" for acc
    using assms
  proof (induction ops arbitrary: acc)
    case (Cons op ops)
    then obtain hs where "operationHandles op locale = Inr hs" using operationHandles_shape by force
    with Cons show ?case by simp
  qed simp
  from this [of "[]"] show ?thesis by (simp add: AffectedHandles_def)
qed

lemma canonicalHandles_sorted: "sorted (canonicalHandles hs) \<and> distinct (canonicalHandles hs)"
  by (simp add: canonicalHandles_def)

lemma set_canonicalHandles:
  "set (canonicalHandles hs) = {h \<in> set hs. trim_space h \<noteq> '''' \<and> h \<noteq> ''block:''}"
  by (auto simp: canonicalHandles_def)

end
