(* ===== verification/Doc_Mutation.thy ===== *)
theory Doc_Mutation
  imports Canonical Placement Handles
begin

text \<open>
  Applying a validated batch to a copy of the loaded document: \<open>mutation.go\<close>. A pointer into the
  document is modelled by reading the element (the first match, as the loops of the source), and
  writing the changed element back in its place. The copy is deep, so no two pointers alias.
\<close>

section \<open>Pointers into the document\<close>

definition zeroRelationItem :: RelationItem where
  "zeroRelationItem = \<lparr>riID = '''', riKind = '''', riOrder = 0, riShared = [], riLocalized = [],
     riFiles = []\<rparr>"

definition newNode :: "BlockID \<Rightarrow> BlockKind \<Rightarrow> BlockID \<Rightarrow> Node" where
  "newNode block kind parent = \<lparr>nodeID = block, nodeKind = kind, nodeParent = parent, nodeOrder = 0,
     nodeShared = [], nodeLocalized = [], nodeFiles = [], nodeRelations = []\<rparr>"

definition mutableNode :: "Document \<Rightarrow> BlockID \<Rightarrow> Node option" where
  "mutableNode d block = find (\<lambda>n. nodeID n = block) (docNodes d)"

definition putNode :: "Document \<Rightarrow> Node \<Rightarrow> Document" where
  "putNode d n = d\<lparr>docNodes := replace_first (\<lambda>m. nodeID m = nodeID n) n (docNodes d)\<rparr>"

definition putRelation :: "Relation \<Rightarrow> Node \<Rightarrow> Node" where
  "putRelation r n =
     n\<lparr>nodeRelations := replace_first (\<lambda>s. relID s = relID r) r (nodeRelations n)\<rparr>"

text \<open>The document is returned too: a missing relation is created in it on demand.\<close>

definition mutableRelation ::
    "Document \<Rightarrow> BlockID \<Rightarrow> RelationID \<Rightarrow> bool \<Rightarrow> (Node \<times> Relation) result" where
  "mutableRelation d block relation create =
     (case mutableNode d block of
        None \<Rightarrow> Inl (Err ''block does not exist'')
      | Some n \<Rightarrow>
          (case find (\<lambda>r. relID r = relation) (nodeRelations n) of
             Some r \<Rightarrow> Inr (n, r)
           | None \<Rightarrow>
               if \<not> create then Inl (Err ''relation does not exist'')
               else (let r = \<lparr>relID = relation, relItems = []\<rparr> in
                     Inr (n\<lparr>nodeRelations := nodeRelations n @ [r]\<rparr>, r))))"

text \<open>The relation with the item, and the item: the first match of the two nested loops.\<close>

definition holds_item :: "RelationID \<Rightarrow> RelationItemID \<Rightarrow> Relation \<Rightarrow> bool" where
  "holds_item relation item r \<longleftrightarrow>
     relID r = relation \<and> find (\<lambda>i. riID i = item) (relItems r) \<noteq> None"

definition mutableRelationItem :: "Node \<Rightarrow> RelationID \<Rightarrow> RelationItemID \<Rightarrow> RelationItem option" where
  "mutableRelationItem n relation item =
     (case find (holds_item relation item) (nodeRelations n) of
        None \<Rightarrow> None
      | Some r \<Rightarrow> find (\<lambda>i. riID i = item) (relItems r))"

definition putRelationItem :: "RelationID \<Rightarrow> RelationItem \<Rightarrow> Node \<Rightarrow> Node" where
  "putRelationItem relation i n =
     (case find (holds_item relation (riID i)) (nodeRelations n) of
        None \<Rightarrow> n
      | Some r \<Rightarrow>
          n\<lparr>nodeRelations := replace_first (holds_item relation (riID i))
             (r\<lparr>relItems := replace_first (\<lambda>j. riID j = riID i) i (relItems r)\<rparr>) (nodeRelations n)\<rparr>)"

section \<open>Fields\<close>

text \<open>
  A \<open>valueMutation\<close> is a function pointer, nil when a field is unset; calling the nil function
  panics.
\<close>

type_synonym valueMutation = "(Value \<Rightarrow> Value result) option"

definition call_mutation :: "valueMutation \<Rightarrow> Value \<Rightarrow> Value result" where
  "call_mutation m v = (case m of None \<Rightarrow> Inl NilDeref | Some f \<Rightarrow> f v)"

definition with_list :: "Value \<Rightarrow> (RelationItemID \<times> Value) list \<Rightarrow> Value" where
  "with_list v items = Value (vKind v) (vText v) (vBoolean v) (vInline v) items (vObject v)"

definition with_object :: "Value \<Rightarrow> (FieldID \<times> Value) list \<Rightarrow> Value" where
  "with_object v fs = Value (vKind v) (vText v) (vBoolean v) (vInline v) (vList v) fs"

fun mutateValuePath :: "valueMutation \<Rightarrow> bool \<Rightarrow> FieldPathSegment list \<Rightarrow> Value \<Rightarrow> Value result"
  and mutateObjectPath :: "valueMutation \<Rightarrow> bool \<Rightarrow> FieldPathSegment list \<Rightarrow> Value \<Rightarrow> Value result" where
  "mutateValuePath m setting [] v = Inl NilDeref"
| "mutateValuePath m setting (seg # rest) v =
     (if segField seg \<noteq> '''' then mutateObjectPath m setting (seg # rest) v
      else if vKind v \<noteq> ValueKindList then Inl (Err ''item path traverses a non-list value'')
      else case find (\<lambda>i. fst i = segItem seg) (vList v) of
          None \<Rightarrow> Inr v
        | Some (k, w) \<Rightarrow>
            if rest = [] \<and> \<not> setting
              then Inr (with_list v (remove_first (\<lambda>i. fst i = segItem seg) (vList v)))
            else and_then (if rest = [] then call_mutation m w else mutateValuePath m setting rest w)
              (\<lambda>w'. Inr (with_list v (replace_first (\<lambda>i. fst i = segItem seg) (k, w') (vList v)))))"
| "mutateObjectPath m setting [] v = Inl NilDeref"
| "mutateObjectPath m setting (seg # rest) v =
     (if vKind v \<noteq> ValueKindObject then Inl (Err ''field path traverses a non-object value'')
      else case find (\<lambda>f. fst f = segField seg) (vObject v) of
          Some (k, w) \<Rightarrow>
            if rest = [] \<and> \<not> setting
              then Inr (with_object v (remove_first (\<lambda>f. fst f = segField seg) (vObject v)))
            else and_then (if rest = [] then call_mutation m w else mutateValuePath m setting rest w)
              (\<lambda>w'. Inr (with_object v (replace_first (\<lambda>f. fst f = segField seg) (k, w') (vObject v))))
        | None \<Rightarrow>
            if setting \<and> rest = []
              then and_then (call_mutation m zeroValue)
                (\<lambda>w'. Inr (with_object v (vObject v @ [(segField seg, w')])))
            else Inr v)"

definition mutateFieldValues ::
    "valueMutation \<Rightarrow> bool \<Rightarrow> FieldID \<Rightarrow> FieldPathSegment list \<Rightarrow> FieldValue list \<Rightarrow> FieldValue list result" where
  "mutateFieldValues m setting field path values =
     (case find (\<lambda>f. fvID f = field) values of
        Some f \<Rightarrow>
          if path = [] \<and> \<not> setting then Inr (remove_first (\<lambda>f. fvID f = field) values)
          else and_then (if path = [] then call_mutation m (fvValue f)
                         else mutateValuePath m setting path (fvValue f))
            (\<lambda>v. Inr (replace_first (\<lambda>f. fvID f = field) (f\<lparr>fvValue := v\<rparr>) values))
      | None \<Rightarrow>
          if \<not> setting \<or> path \<noteq> [] then Inr values
          else and_then (call_mutation m zeroValue)
            (\<lambda>v. Inr (values @ [\<lparr>fvID = field, fvValue = v\<rparr>])))"

definition fieldOwnership ::
    "Catalog \<Rightarrow> BlockKind \<Rightarrow> RelationItemKind \<Rightarrow> FieldTarget \<Rightarrow> FieldOwnership option" where
  "fieldOwnership c blockKind itemKind target =
     (if relationItem target then
        map_option rfOwnership (find (\<lambda>r. rfBlockKind r = blockKind \<and> rfRelation r = tgtRelation target \<and>
          rfItemKind r = itemKind \<and> rfField r = tgtField target) (catRelationFields c))
      else map_option frOwnership
        (find (\<lambda>r. frBlockKind r = blockKind \<and> frField r = tgtField target) (catFields c)))"

text \<open>The owned list of a block or an item, the localized one exactly for locale ownership.\<close>

definition mutateNodeFields ::
    "(FieldValue list \<Rightarrow> FieldValue list result) \<Rightarrow> FieldOwnership \<Rightarrow> Node \<Rightarrow> Node result" where
  "mutateNodeFields f ownership n =
     (if ownership = FieldOwnershipLocale
        then and_then (f (nodeLocalized n)) (\<lambda>vs. Inr (n\<lparr>nodeLocalized := vs\<rparr>))
      else and_then (f (nodeShared n)) (\<lambda>vs. Inr (n\<lparr>nodeShared := vs\<rparr>)))"

definition mutateItemFields ::
    "(FieldValue list \<Rightarrow> FieldValue list result) \<Rightarrow> FieldOwnership \<Rightarrow> RelationItem \<Rightarrow> RelationItem result" where
  "mutateItemFields f ownership i =
     (if ownership = FieldOwnershipLocale
        then and_then (f (riLocalized i)) (\<lambda>vs. Inr (i\<lparr>riLocalized := vs\<rparr>))
      else and_then (f (riShared i)) (\<lambda>vs. Inr (i\<lparr>riShared := vs\<rparr>)))"

definition mutateDocumentField ::
    "valueMutation \<Rightarrow> bool \<Rightarrow> FieldTarget \<Rightarrow> Document \<Rightarrow> Document result" where
  "mutateDocumentField m setting target d =
     (case mutableNode d (tgtBlock target) of
        None \<Rightarrow> Inl (Err ''block does not exist'')
      | Some n \<Rightarrow>
          (let change = mutateFieldValues m setting (tgtField target) (tgtPath target) in
           if relationItem target then
             (case mutableRelationItem n (tgtRelation target) (tgtItem target) of
                None \<Rightarrow> Inl (Err ''relation item does not exist'')
              | Some i \<Rightarrow>
                  (case fieldOwnership (docCatalog d) (nodeKind n) (riKind i) target of
                     None \<Rightarrow> Inl (Err ''field is not in the catalog'')
                   | Some ownership \<Rightarrow>
                       and_then (mutateItemFields change ownership i)
                         (\<lambda>i'. Inr (putNode d (putRelationItem (tgtRelation target) i' n)))))
           else
             (case fieldOwnership (docCatalog d) (nodeKind n) '''' target of
                None \<Rightarrow> Inl (Err ''field is not in the catalog'')
              | Some ownership \<Rightarrow>
                  and_then (mutateNodeFields change ownership n) (\<lambda>n'. Inr (putNode d n')))))"

section \<open>Files\<close>

definition changeFiles ::
    "FieldTarget \<Rightarrow> FileReference \<Rightarrow> bool \<Rightarrow> FileBinding list \<Rightarrow> FileBinding list" where
  "changeFiles target file attach files =
     (let hit = (\<lambda>b. fbField b = tgtField target \<and>
            nestedFieldKey (fbField b) (fbPath b) = nestedFieldKey (tgtField target) (tgtPath target)) in
      case find hit files of
        Some b \<Rightarrow> if attach then replace_first hit (b\<lparr>fbFile := file\<rparr>) files else remove_first hit files
      | None \<Rightarrow>
          if attach then files @ [\<lparr>fbField = tgtField target, fbPath = tgtPath target, fbFile = file\<rparr>]
          else files)"

definition mutateDocumentFile ::
    "FieldTarget \<Rightarrow> FileReference \<Rightarrow> bool \<Rightarrow> Document \<Rightarrow> Document result" where
  "mutateDocumentFile target file attach d =
     (case mutableNode d (tgtBlock target) of
        None \<Rightarrow> Inl (Err ''block does not exist'')
      | Some n \<Rightarrow>
          if relationItem target then
            (case mutableRelationItem n (tgtRelation target) (tgtItem target) of
               None \<Rightarrow> Inl (Err ''relation item does not exist'')
             | Some i \<Rightarrow> Inr (putNode d (putRelationItem (tgtRelation target)
                 (i\<lparr>riFiles := changeFiles target file attach (riFiles i)\<rparr>) n)))
          else Inr (putNode d (n\<lparr>nodeFiles := changeFiles target file attach (nodeFiles n)\<rparr>)))"

section \<open>Block order\<close>

definition order_key :: "Node \<Rightarrow> int \<times> BlockID" where
  "order_key n = (nodeOrder n, nodeID n)"

definition reparent :: "BlockID \<Rightarrow> BlockID \<Rightarrow> Node list \<Rightarrow> Node list" where
  "reparent block parent nodes =
     map (\<lambda>n. if nodeID n = block then n\<lparr>nodeParent := parent, nodeOrder := 0\<rparr> else n) nodes"

definition placed_order :: "BlockID \<Rightarrow> BlockID \<Rightarrow> BlockID list \<Rightarrow> BlockID list" where
  "placed_order block after siblings =
     (if after = '''' then [block] else []) @
     concat (map (\<lambda>s. if s = after then [s, block] else [s]) siblings) @
     (if after \<noteq> '''' \<and> after \<notin> set siblings then [block] else [])"

definition assign_order :: "Node list \<Rightarrow> nat \<times> BlockID \<Rightarrow> Node list" where
  "assign_order nodes entry =
     map (\<lambda>n. if nodeID n = snd entry then n\<lparr>nodeOrder := int (fst entry)\<rparr> else n) nodes"

definition placeBlockAfter :: "Node list \<Rightarrow> BlockID \<Rightarrow> BlockID \<Rightarrow> BlockID \<Rightarrow> Node list" where
  "placeBlockAfter nodes block parent after =
     (let moved = reparent block parent nodes;
          siblings = sort_key order_key
            (filter (\<lambda>n. nodeParent n = parent \<and> nodeID n \<noteq> block) moved);
          ordered = placed_order block after (map nodeID siblings)
      in foldl assign_order moved (enumerate 0 ordered))"

fun number_orders :: "(BlockID \<Rightarrow> nat) \<Rightarrow> Node list \<Rightarrow> Node list" where
  "number_orders parents [] = []"
| "number_orders parents (n # ns) =
     n\<lparr>nodeOrder := int (parents (nodeParent n))\<rparr> #
     number_orders (parents(nodeParent n := Suc (parents (nodeParent n)))) ns"

definition renumberBlockOrders :: "Node list \<Rightarrow> Node list" where
  "renumberBlockOrders nodes = number_orders (\<lambda>_. 0) (sort_key sibling_key nodes)"

definition deleteBlockSubtree :: "BlockID \<Rightarrow> Node list \<Rightarrow> Node list" where
  "deleteBlockSubtree block nodes =
     (let deleted = subtree_closure (node_links nodes) {block} in
      renumberBlockOrders (filter (\<lambda>n. nodeID n \<notin> deleted) nodes))"

definition replaceBlockKind :: "ReplaceBlockKind \<Rightarrow> Document \<Rightarrow> Document result" where
  "replaceBlockKind rb d =
     (case mutableNode d (rbBlock rb) of
        None \<Rightarrow> Inl (Err ''block does not exist'')
      | Some n \<Rightarrow> Inr (putNode d (n\<lparr>nodeKind := rbKind rb, nodeShared := [], nodeLocalized := [],
          nodeFiles := [], nodeRelations := []\<rparr>)))"

section \<open>Relation items\<close>

definition renumberRelationOrders :: "RelationItem list \<Rightarrow> RelationItem list" where
  "renumberRelationOrders items =
     map (\<lambda>(index, i). i\<lparr>riOrder := int index\<rparr>) (enumerate 0 items)"

definition moved_item :: "RelationItemID \<Rightarrow> RelationItem list \<Rightarrow> RelationItem" where
  "moved_item item items =
     foldl (\<lambda>moved c. if riID c = item then c else moved) zeroRelationItem items"

definition placeRelationItemAfter ::
    "RelationItemID \<Rightarrow> RelationItemID \<Rightarrow> RelationItem list \<Rightarrow> RelationItem list" where
  "placeRelationItemAfter item after items =
     (let moved = moved_item item items in
      renumberRelationOrders
        ((if after = '''' then [moved] else []) @
         concat (map (\<lambda>c. if riID c = item then [] else if riID c = after then [c, moved] else [c])
           items)))"

definition insertRelationItem :: "InsertRelationItem \<Rightarrow> Document \<Rightarrow> Document result" where
  "insertRelationItem iri d =
     and_then (mutableRelation d (iriBlock iri) (iriRelation iri) True)
       (\<lambda>(n, r). Inr (putNode d (putRelation
          (r\<lparr>relItems := placeRelationItemAfter (iriItem iri) (iriAfter iri)
             (relItems r @ [zeroRelationItem\<lparr>riID := iriItem iri, riKind := iriKind iri\<rparr>])\<rparr>) n)))"

definition deleteRelationItem :: "DeleteRelationItem \<Rightarrow> Document \<Rightarrow> Document result" where
  "deleteRelationItem dri d =
     and_then (mutableRelation d (driBlock dri) (driRelation dri) False)
       (\<lambda>(n, r). Inr (putNode d (putRelation
          (r\<lparr>relItems := renumberRelationOrders
             (filter (\<lambda>i. riID i \<noteq> driItem dri) (relItems r))\<rparr>) n)))"

definition moveRelationItem :: "MoveRelationItem \<Rightarrow> Document \<Rightarrow> Document result" where
  "moveRelationItem mri d =
     and_then (mutableRelation d (mriBlock mri) (mriRelation mri) False)
       (\<lambda>(n, r).
          if find (\<lambda>i. riID i = mriItem mri) (relItems r) = None
            then Inl (Err ''relation item does not exist'')
          else
            (let moved = moved_item (mriItem mri) (relItems r);
                 d' = putNode d (putRelation (r\<lparr>relItems := renumberRelationOrders
                   (filter (\<lambda>i. riID i \<noteq> mriItem mri) (relItems r))\<rparr>) n)
             in and_then (mutableRelation d' (mriTargetBlock mri) (mriTarget mri) True)
               (\<lambda>(n', r'). Inr (putNode d' (putRelation
                  (r'\<lparr>relItems := placeRelationItemAfter (riID moved) (mriAfter mri)
                     (relItems r' @ [moved])\<rparr>) n')))))"

section \<open>Translations and batches\<close>

definition deleteTranslation :: "Document \<Rightarrow> Document" where
  "deleteTranslation d = d\<lparr>docLocaleExists := False,
     docNodes := map (\<lambda>n. n\<lparr>nodeLocalized := [],
        nodeRelations := map (\<lambda>r. r\<lparr>relItems := map (\<lambda>i. i\<lparr>riLocalized := []\<rparr>) (relItems r)\<rparr>)
          (nodeRelations n)\<rparr>) (docNodes d)\<rparr>"



definition applyDocumentOperation :: "Document \<Rightarrow> Operation \<Rightarrow> Document result" where
  "applyDocumentOperation d op =
     (case opKind op of
        OperationSetField \<Rightarrow> deref (opSetField op)
          (\<lambda>p. mutateDocumentField (Some (\<lambda>_. Inr (cloneValue (sfValue p)))) True (sfTarget p) d)
      | OperationUnsetField \<Rightarrow> deref (opUnsetField op) (\<lambda>t. mutateDocumentField None False t d)
      | OperationAttachFile \<Rightarrow> deref (opAttachFile op)
          (\<lambda>p. mutateDocumentFile (afTarget p) (afFile p) True d)
      | OperationDetachFile \<Rightarrow> deref (opDetachFile op) (\<lambda>t. mutateDocumentFile t '''' False d)
      | OperationInsertBlock \<Rightarrow> deref (opInsertBlock op)
          (\<lambda>p. Inr (d\<lparr>docNodes := placeBlockAfter
             (docNodes d @ [newNode (ibBlock p) (ibKind p) (ibParent p)])
             (ibBlock p) (ibParent p) (ibAfter p)\<rparr>))
      | OperationDeleteBlock \<Rightarrow> deref (opDeleteBlock op)
          (\<lambda>b. Inr (d\<lparr>docNodes := deleteBlockSubtree b (docNodes d)\<rparr>))
      | OperationMoveBlock \<Rightarrow> deref (opMoveBlock op)
          (\<lambda>p. Inr (d\<lparr>docNodes := placeBlockAfter (docNodes d) (mbBlock p) (mbParent p) (mbAfter p)\<rparr>))
      | OperationReplaceBlockKind \<Rightarrow> deref (opReplaceBlockKind op) (\<lambda>p. replaceBlockKind p d)
      | OperationInsertRelationItem \<Rightarrow> deref (opInsertRelationItem op) (\<lambda>p. insertRelationItem p d)
      | OperationDeleteRelationItem \<Rightarrow> deref (opDeleteRelationItem op) (\<lambda>p. deleteRelationItem p d)
      | OperationMoveRelationItem \<Rightarrow> deref (opMoveRelationItem op) (\<lambda>p. moveRelationItem p d)
      | OperationCreateTranslation \<Rightarrow> Inr (d\<lparr>docLocaleExists := True\<rparr>)
      | OperationDeleteTranslation \<Rightarrow> Inr (deleteTranslation d)
      | OperationOther _ \<Rightarrow> Inl (Err ''unsupported operation kind''))"

definition DocumentAfterOperations :: "Document \<Rightarrow> Operation list \<Rightarrow> Document result" where
  "DocumentAfterOperations d operations =
     and_then (canonicalNodes (docNodes d))
       (\<lambda>nodes. and_then (fold_result applyDocumentOperation (d\<lparr>docNodes := nodes\<rparr>) operations)
          (\<lambda>d'. and_then (canonicalNodes (docNodes d')) (\<lambda>nodes'. Inr (d'\<lparr>docNodes := nodes'\<rparr>))))"

end
