(* ===== verification/Block_Order.thy ===== *)
theory Block_Order
  imports Doc_Mutation
begin

text \<open>
  The block tree under the structural operations of \<open>mutation.go\<close>: the child sequence of a parent
  after a placement or a deletion, the parent map, and the interpretations of the placement and
  block-table contracts on document nodes.
\<close>

section \<open>Child sequences\<close>

definition block_sequence :: "BlockID \<Rightarrow> Node list \<Rightarrow> BlockID list" where
  "block_sequence parent nodes =
     map nodeID (sort_key order_key (filter (\<lambda>n. nodeParent n = parent) nodes))"

lemma set_block_sequence:
  "set (block_sequence q nodes) = {nodeID n | n. n \<in> set nodes \<and> nodeParent n = q}"
  by (auto simp: block_sequence_def)

lemma distinct_block_sequence: "distinct (map nodeID nodes) \<Longrightarrow> distinct (block_sequence q nodes)"
  unfolding block_sequence_def by (simp add: distinct_map inj_on_def)

lemma block_sequence_filter:
  "map nodeID (sort_key order_key (filter (\<lambda>n. nodeParent n = q \<and> nodeID n \<noteq> b) nodes)) =
   removeAll b (block_sequence q nodes)"
proof -
  have "filter (\<lambda>n. nodeParent n = q \<and> nodeID n \<noteq> b) nodes =
      filter (\<lambda>n. nodeID n \<noteq> b) (filter (\<lambda>n. nodeParent n = q) nodes)"
    by (simp add: conj_commute)
  then show ?thesis
    by (simp add: block_sequence_def removeAll_filter_not_eq filter_map o_def filter_sort [symmetric]
        eq_commute)
qed

section \<open>Placing a block\<close>

lemma reparent_other:
  "filter (\<lambda>n. nodeParent n = q \<and> nodeID n \<noteq> b) (reparent b p nodes) =
   filter (\<lambda>n. nodeParent n = q \<and> nodeID n \<noteq> b) nodes"
  by (induction nodes) (auto simp: reparent_def)

lemma reparent_member:
  "n \<in> set (reparent b p nodes) \<Longrightarrow> nodeID n = b \<and> nodeParent n = p \<or> nodeID n \<noteq> b \<and> n \<in> set nodes"
proof -
  assume "n \<in> set (reparent b p nodes)"
  then obtain m where m: "m \<in> set nodes"
    and n: "n = (if nodeID m = b then m\<lparr>nodeParent := p, nodeOrder := 0\<rparr> else m)"
    unfolding reparent_def set_map by blast
  show ?thesis by (cases "nodeID m = b") (simp_all add: n m)
qed

lemma reparent_member_other: "n \<in> set nodes \<Longrightarrow> nodeID n \<noteq> b \<Longrightarrow> n \<in> set (reparent b p nodes)"
  unfolding reparent_def set_map by (rule image_eqI) simp_all

lemma reparent_members:
  assumes "b \<in> nodeID ` set nodes"
  shows "{nodeID n | n. n \<in> set (reparent b p nodes) \<and> nodeParent n = p} =
    insert b {nodeID n | n. n \<in> set nodes \<and> nodeParent n = p}" (is "?L = ?R")
proof
  show "?L \<subseteq> ?R" using reparent_member by blast
  from assms obtain m where "m \<in> set nodes" "nodeID m = b" by auto
  then have "m\<lparr>nodeParent := p, nodeOrder := 0\<rparr> \<in> set (reparent b p nodes)"
    unfolding reparent_def set_map by (intro image_eqI [of _ _ m]) simp_all
  moreover have "nodeID (m\<lparr>nodeParent := p, nodeOrder := 0\<rparr>) = b" using \<open>nodeID m = b\<close> by simp
  moreover have "nodeParent (m\<lparr>nodeParent := p, nodeOrder := 0\<rparr>) = p" by simp
  ultimately have "b \<in> ?L" by blast
  moreover have "nodeID n \<in> ?L" if "n \<in> set nodes" "nodeParent n = p" "nodeID n \<noteq> b" for n
    using reparent_member_other [OF that(1,3)] that(2) by blast
  ultimately show "?R \<subseteq> ?L" by blast
qed

lemma ids_of_children:
  "(\<And>n. nodeID (f n) = nodeID n) \<Longrightarrow> (\<And>n. nodeParent (f n) = nodeParent n) \<Longrightarrow>
   nodeID ` set (filter (\<lambda>n. nodeParent n = q) (map f nodes)) = {nodeID n | n. n \<in> set nodes \<and> nodeParent n = q}"
  by (induction nodes) auto

lemma concat_absent_anchor:
  "after \<notin> set xs \<Longrightarrow> concat (map (\<lambda>s. if s = after then [s, block] else [s]) xs) = xs"
  by (induction xs) auto

lemma placed_order_eq:
  assumes "distinct siblings" and "'''' \<notin> set siblings" and "after = '''' \<or> after \<in> set siblings"
  shows "placed_order block after siblings = insert_after after block siblings"
proof (cases "after = ''''")
  case True
  with assms(2) show ?thesis
    by (simp add: placed_order_def insert_after_first concat_absent_anchor)
next
  case False
  have "concat (map (\<lambda>s. if s = after then [s, block] else [s]) xs) = insert_after after block xs"
    if "distinct xs" "after \<in> set xs" for xs
    using that False by (induction xs) (auto simp: concat_absent_anchor)
  then show ?thesis using False assms by (simp add: placed_order_def)
qed

lemma snd_enumerate: "e \<in> set (enumerate k xs) \<Longrightarrow> snd e \<in> set xs"
  by (metis image_eqI list.set_map map_snd_enumerate)

lemma foldl_assign_order:
  "distinct ids \<Longrightarrow> foldl assign_order nodes (enumerate k ids) =
     map (\<lambda>n. if nodeID n \<in> set ids then n\<lparr>nodeOrder := int (k + position ids (nodeID n))\<rparr> else n) nodes"
proof (induction ids arbitrary: k nodes)
  case Nil
  then show ?case by simp
next
  case (Cons i ids)
  then show ?case
    by (auto simp: assign_order_def position_Cons)
qed

lemma distinct_map_id: "(\<And>n. nodeID (f n) = nodeID n) \<Longrightarrow> map nodeID (map f nodes) = map nodeID nodes"
  by simp

lemma reparent_ids [simp]: "map nodeID (reparent b p nodes) = map nodeID nodes"
  by (simp add: reparent_def)

lemma assign_order_ids [simp]: "map nodeID (foldl assign_order nodes es) = map nodeID nodes"
proof (induction es arbitrary: nodes)
  case (Cons e es)
  have "map nodeID (assign_order nodes e) = map nodeID nodes" by (simp add: assign_order_def)
  with Cons.IH [of "assign_order nodes e"] show ?case by simp
qed simp

lemma placeBlockAfter_ids [simp]: "map nodeID (placeBlockAfter nodes b p a) = map nodeID nodes"
  by (simp add: placeBlockAfter_def Let_def)

lemma node_links_map:
  "(\<And>n. nodeID (f n) = nodeID n \<and> nodeParent (f n) = nodeParent n) \<Longrightarrow> node_links (map f nodes) = node_links nodes"
  by (simp add: node_links_def)

lemma assign_order_links [simp]: "node_links (foldl assign_order nodes es) = node_links nodes"
proof (induction es arbitrary: nodes)
  case (Cons e es)
  have "node_links (assign_order nodes e) = node_links nodes"
    unfolding assign_order_def by (rule node_links_map) simp
  with Cons.IH [of "assign_order nodes e"] show ?case by simp
qed simp

lemma placeBlockAfter_parents:
  "b \<in> nodeID ` set nodes \<Longrightarrow> node_parents (placeBlockAfter nodes b p a) = (node_parents nodes)(b \<mapsto> p)"
proof -
  have "node_parents (reparent b p nodes) =
      (if b \<in> nodeID ` set nodes then (node_parents nodes)(b \<mapsto> p) else node_parents nodes)"
    by (induction nodes) (auto simp: reparent_def node_links_def fun_eq_iff)
  moreover assume "b \<in> nodeID ` set nodes"
  ultimately show ?thesis by (simp add: placeBlockAfter_def Let_def)
qed

definition ready_block :: "BlockID \<Rightarrow> Node list \<Rightarrow> BlockID \<Rightarrow> BlockID \<Rightarrow> bool" where
  "ready_block parent nodes block after \<longleftrightarrow>
     distinct (map nodeID nodes) \<and> '''' \<notin> nodeID ` set nodes \<and> block \<in> nodeID ` set nodes \<and>
     (after = '''' \<or> after \<in> set (block_sequence parent nodes) \<and> after \<noteq> block)"

lemma placeBlockAfter_sequence:
  assumes "ready_block p nodes b a"
  shows "block_sequence p (placeBlockAfter nodes b p a) = insert_after a b (removeAll b (block_sequence p nodes))"
proof -
  let ?moved = "reparent b p nodes"
  let ?sib = "removeAll b (block_sequence p nodes)"
  let ?ordered = "insert_after a b ?sib"
  let ?f = "\<lambda>n. if nodeID n \<in> set ?ordered then n\<lparr>nodeOrder := int (position ?ordered (nodeID n))\<rparr> else n"
  from assms have d: "distinct (map nodeID nodes)" and e: "'''' \<notin> nodeID ` set nodes"
    and b: "b \<in> nodeID ` set nodes" and a: "a = '''' \<or> a \<in> set ?sib"
    by (auto simp: ready_block_def)
  have ds: "distinct ?sib" using d by (simp add: distinct_block_sequence distinct_removeAll)
  have es: "'''' \<notin> set ?sib" using e by (auto simp: set_block_sequence)
  have ord: "placed_order b a ?sib = ?ordered" by (rule placed_order_eq [OF ds es a])
  have do: "distinct ?ordered" using ds by simp
  have res: "placeBlockAfter nodes b p a = map ?f ?moved"
    unfolding placeBlockAfter_def Let_def reparent_other unfolding block_sequence_filter ord
    using foldl_assign_order [OF do, of ?moved 0] by simp
  let ?F = "filter (\<lambda>n. nodeParent n = p) (map ?f ?moved)"
  have ids: "nodeID ` set ?F = set ?ordered"
  proof -
    have "nodeID ` set ?F = {nodeID n | n. n \<in> set ?moved \<and> nodeParent n = p}"
      by (rule ids_of_children) simp_all
    also have "\<dots> = set ?ordered" by (auto simp: reparent_members [OF b] set_block_sequence)
    finally show ?thesis .
  qed
  have dm: "distinct (map nodeID (map ?f ?moved))"
    using d by (subst distinct_map_id) simp_all
  have df: "distinct (map nodeID ?F)" by (rule distinct_map_filter [OF dm])
  have key: "nodeOrder n = int (position ?ordered (nodeID n))" if mem: "n \<in> set ?F" for n
  proof -
    have "nodeID n \<in> set ?ordered" using mem ids by blast
    moreover obtain m where "n = ?f m" using mem unfolding set_filter set_map by blast
    ultimately show ?thesis by (cases "nodeID m \<in> set ?ordered") simp_all
  qed
  show ?thesis
    unfolding res unfolding block_sequence_def [of p "map ?f ?moved"]
  proof (rule sort_by_position [OF df ids do])
    fix x y assume mem: "x \<in> set ?F" "y \<in> set ?F" and le: "order_key x \<le> order_key y"
    from le have "nodeOrder x \<le> nodeOrder y" unfolding order_key_def by auto
    then show "position ?ordered (nodeID x) \<le> position ?ordered (nodeID y)"
      unfolding key [OF mem(1)] key [OF mem(2)] by (rule of_nat_le_iff [THEN iffD1])
  qed
qed

lemma placeBlockAfter_other_sequence:
  assumes q: "q \<noteq> p" and d: "distinct (map nodeID nodes)"
  shows "block_sequence q (placeBlockAfter nodes b p a) = removeAll b (block_sequence q nodes)"
proof -
  let ?moved = "reparent b p nodes"
  let ?sib = "removeAll b (block_sequence p nodes)"
  have keep: "filter (\<lambda>n. nodeParent n = q) (foldl assign_order ns es) = filter (\<lambda>n. nodeParent n = q) ns"
    if "\<forall>e \<in> set es. \<forall>n \<in> set ns. nodeID n = snd e \<longrightarrow> nodeParent n \<noteq> q" for ns es
    using that
  proof (induction es arbitrary: ns)
    case (Cons e es)
    have "filter (\<lambda>n. nodeParent n = q) (assign_order ns e) = filter (\<lambda>n. nodeParent n = q) ns"
      using Cons.prems unfolding assign_order_def by (induction ns) auto
    moreover have "\<forall>x \<in> set es. \<forall>n \<in> set (assign_order ns e). nodeID n = snd x \<longrightarrow> nodeParent n \<noteq> q"
      using Cons.prems by (auto simp: assign_order_def)
    ultimately show ?case using Cons.IH by simp
  qed simp
  have hit: "nodeParent n = p" if "n \<in> set ?moved" "nodeID n \<in> set (placed_order b a ?sib)" for n
  proof -
    have "nodeID n = b \<or> nodeID n \<in> set ?sib"
      using that(2) by (auto simp: placed_order_def split: if_splits)
    then consider "nodeID n = b" | m where "nodeID n \<noteq> b" "m \<in> set nodes" "nodeID m = nodeID n" "nodeParent m = p"
      by (auto simp: set_block_sequence)
    then show ?thesis
    proof cases
      case 1
      then show ?thesis using reparent_member [OF that(1)] by blast
    next
      case 2
      then have "n \<in> set nodes" using reparent_member [OF that(1)] by blast
      with 2 d show ?thesis by (metis distinct_map inj_onD)
    qed
  qed
  have "filter (\<lambda>n. nodeParent n = q) (placeBlockAfter nodes b p a) = filter (\<lambda>n. nodeParent n = q) ?moved"
    unfolding placeBlockAfter_def Let_def reparent_other unfolding block_sequence_filter
    by (rule keep) (use hit q snd_enumerate in metis)
  also have "\<dots> = filter (\<lambda>n. nodeParent n = q \<and> nodeID n \<noteq> b) nodes"
    using q by (induction nodes) (auto simp: reparent_def)
  finally show ?thesis unfolding block_sequence_def [of q "placeBlockAfter nodes b p a"]
    by (simp add: block_sequence_filter)
qed

interpretation blocks: placement "block_sequence p" "\<lambda>b a nodes. placeBlockAfter nodes b p a" "ready_block p"
  for p
  by unfold_locales (auto simp: ready_block_def placeBlockAfter_sequence)

section \<open>Deleting a subtree\<close>

lemma number_orders_links: "node_links (number_orders c nodes) = node_links nodes"
  by (induction nodes arbitrary: c) (simp_all add: node_links_def)

lemma number_orders_above: "n \<in> set (number_orders c nodes) \<Longrightarrow> int (c (nodeParent n)) \<le> nodeOrder n"
proof (induction nodes arbitrary: c)
  case Nil
  then show ?case by simp
next
  case (Cons m ms)
  show ?case
  proof (cases "n = m\<lparr>nodeOrder := int (c (nodeParent m))\<rparr>")
    case True
    then show ?thesis by simp
  next
    case False
    then have "int ((c(nodeParent m := Suc (c (nodeParent m)))) (nodeParent n)) \<le> nodeOrder n"
      using Cons.IH Cons.prems by (simp only: number_orders.simps set_simps insert_iff) blast
    then show ?thesis by (cases "nodeParent n = nodeParent m") simp_all
  qed
qed

lemma number_orders_increasing:
  "sorted_wrt (\<lambda>x y. nodeOrder x < nodeOrder y) (filter (\<lambda>n. nodeParent n = q) (number_orders c nodes))"
proof (induction nodes arbitrary: c)
  case Nil
  then show ?case by simp
next
  case (Cons m ms)
  let ?c = "c(nodeParent m := Suc (c (nodeParent m)))"
  have "int (c q) < nodeOrder n"
    if "n \<in> set (filter (\<lambda>n. nodeParent n = q) (number_orders ?c ms))" "nodeParent m = q" for n
    using number_orders_above [of n ?c ms] that by simp
  moreover have "sorted_wrt (\<lambda>x y. nodeOrder x < nodeOrder y)
      (filter (\<lambda>n. nodeParent n = q) (number_orders ?c ms))" by (rule Cons.IH)
  ultimately show ?case by (cases "nodeParent m = q") (auto simp del: fun_upd_apply)
qed

lemma number_orders_sequence:
  "block_sequence q (number_orders c nodes) = map nodeID (filter (\<lambda>n. nodeParent n = q) nodes)"
proof -
  let ?F = "filter (\<lambda>n. nodeParent n = q) (number_orders c nodes)"
  have "sorted_wrt (\<lambda>x y. order_key x \<le> order_key y) ?F"
    by (rule sorted_wrt_mono_rel [OF _ number_orders_increasing]) (simp add: order_key_def)
  then have "sort_key order_key ?F = ?F"
    by (intro sort_key_id_if_sorted) (simp add: sorted_map)
  moreover have "map nodeID ?F = map nodeID (filter (\<lambda>n. nodeParent n = q) nodes)"
    by (induction nodes arbitrary: c) simp_all
  ultimately show ?thesis by (simp add: block_sequence_def)
qed

lemma sort_siblings:
  assumes "distinct (map nodeID nodes)" and "\<forall>n \<in> set nodes. nodeParent n = q"
  shows "sort_key sibling_key nodes = sort_key order_key nodes"
proof (rule sort_key_unique [symmetric])
  show "mset (sort_key order_key nodes) = mset nodes" by simp
  have "sorted_wrt (\<lambda>x y. order_key x \<le> order_key y) (sort_key order_key nodes)"
    using sorted_sort_key [of order_key nodes] unfolding sorted_map by simp
  then show "sorted (map sibling_key (sort_key order_key nodes))"
    unfolding sorted_map
    by (rule sorted_wrt_mono_rel [rotated]) (use assms(2) in \<open>auto simp: sibling_key_def order_key_def\<close>)
  show "distinct (map sibling_key nodes)"
    using assms(1) by (auto simp: distinct_map inj_on_def sibling_key_def)
qed

lemma renumberBlockOrders_sequence:
  assumes "distinct (map nodeID nodes)"
  shows "block_sequence q (renumberBlockOrders nodes) = block_sequence q nodes"
proof -
  let ?F = "filter (\<lambda>n. nodeParent n = q) nodes"
  have "sort_key sibling_key ?F = sort_key order_key ?F"
    by (rule sort_siblings [where q = q]) (simp_all add: distinct_map_filter assms)
  then show ?thesis
    by (simp add: renumberBlockOrders_def number_orders_sequence filter_sort)
      (simp add: block_sequence_def)
qed

definition subtree :: "Node list \<Rightarrow> BlockID \<Rightarrow> BlockID set" where
  "subtree nodes b = {x. x = b \<or> ancestor (node_parents nodes) b x}"

lemma deleteBlockSubtree_eq:
  "distinct (map nodeID nodes) \<Longrightarrow>
   deleteBlockSubtree b nodes = renumberBlockOrders (filter (\<lambda>n. nodeID n \<notin> subtree nodes b) nodes)"
  using subtree_closure_descendants [of "node_links nodes" b]
  by (simp add: deleteBlockSubtree_def Let_def subtree_def)

lemma deleteBlockSubtree_sequence:
  assumes "distinct (map nodeID nodes)"
  shows "block_sequence q (deleteBlockSubtree b nodes) =
    filter (\<lambda>x. x \<notin> subtree nodes b) (block_sequence q nodes)"
proof -
  let ?P = "\<lambda>n. nodeID n \<notin> subtree nodes b"
  have "distinct (map nodeID (filter ?P nodes))" by (rule distinct_map_filter [OF assms])
  then have "block_sequence q (deleteBlockSubtree b nodes) = block_sequence q (filter ?P nodes)"
    by (simp add: deleteBlockSubtree_eq [OF assms] renumberBlockOrders_sequence)
  also have "\<dots> = map nodeID (sort_key order_key (filter ?P (filter (\<lambda>n. nodeParent n = q) nodes)))"
    by (simp add: block_sequence_def conj_commute)
  also have "\<dots> = filter (\<lambda>x. x \<notin> subtree nodes b) (block_sequence q nodes)"
    by (simp add: block_sequence_def filter_sort [symmetric] filter_map o_def)
  finally show ?thesis .
qed

lemma node_parents_perm:
  "mset ms = mset ns \<Longrightarrow> distinct (map nodeID ns) \<Longrightarrow> node_parents ms = node_parents ns"
proof -
  assume m: "mset ms = mset ns" and d: "distinct (map nodeID ns)"
  have l: "mset (node_links ms) = mset (node_links ns)" using m by (simp add: node_links_def)
  have "mset (map nodeID ms) = mset (map nodeID ns)" using m by simp
  then have "distinct (map nodeID ms)" using d mset_eq_imp_distinct_iff by blast
  with d show ?thesis by (simp add: map_of_inject_set mset_eq_setD [OF l])
qed

lemma renumberBlockOrders_parents:
  "distinct (map nodeID nodes) \<Longrightarrow> node_parents (renumberBlockOrders nodes) = node_parents nodes"
  unfolding renumberBlockOrders_def number_orders_links by (rule node_parents_perm) simp_all

lemma node_parents_filter:
  "distinct (map nodeID nodes) \<Longrightarrow>
   node_parents (filter (\<lambda>n. P (nodeID n)) nodes) = node_parents nodes |` {x. P x}"
  by (induction nodes) (auto simp: node_links_def restrict_map_def fun_eq_iff)

lemma deleteBlockSubtree_parents:
  assumes "distinct (map nodeID nodes)"
  shows "node_parents (deleteBlockSubtree b nodes) = node_parents nodes |` {x. x \<notin> subtree nodes b}"
  using assms
  by (simp add: deleteBlockSubtree_eq renumberBlockOrders_parents distinct_map_filter
      node_parents_filter [where P = "\<lambda>x. x \<notin> subtree nodes b"])

lemma map_nodeID_links: "map nodeID nodes = map fst (node_links nodes)"
  by simp

lemma deleteBlockSubtree_ids:
  "distinct (map nodeID nodes) \<Longrightarrow> distinct (map nodeID (deleteBlockSubtree b nodes))"
  unfolding map_nodeID_links [of "deleteBlockSubtree b nodes"]
  by (simp add: deleteBlockSubtree_eq renumberBlockOrders_def number_orders_links distinct_map
      inj_on_def)

section \<open>The block table of a document\<close>

definition insertBlock :: "BlockKind \<Rightarrow> BlockID \<Rightarrow> BlockID \<Rightarrow> BlockID \<Rightarrow> Node list \<Rightarrow> Node list" where
  "insertBlock kind after block parent nodes =
     placeBlockAfter (nodes @ [newNode block kind parent]) block parent after"

lemma insertBlock_parents:
  assumes "distinct (map nodeID nodes)" and "b \<notin> nodeID ` set nodes"
  shows "node_parents (insertBlock k a b p nodes) = (node_parents nodes)(b \<mapsto> p)"
proof -
  have "node_parents (nodes @ [newNode b k p]) = (node_parents nodes)(b \<mapsto> p)"
    using assms(2) by (induction nodes) (auto simp: node_links_def newNode_def fun_eq_iff)
  then show ?thesis
    by (simp add: insertBlock_def placeBlockAfter_parents newNode_def)
qed

interpretation doc: block_table node_parents "\<lambda>nodes. distinct (map nodeID nodes)"
    "insertBlock k a" "\<lambda>b p nodes. placeBlockAfter nodes b p a" deleteBlockSubtree
  for k a
proof unfold_locales
  fix nodes :: "Node list" and b p
  assume d: "distinct (map nodeID nodes)"
  show "node_parents (insertBlock k a b p nodes) = (node_parents nodes)(b \<mapsto> p)"
    if "b \<notin> dom (node_parents nodes)" using insertBlock_parents [OF d] that by simp
  show "node_parents (placeBlockAfter nodes b p a) = (node_parents nodes)(b \<mapsto> p)"
    if "b \<in> dom (node_parents nodes)" using placeBlockAfter_parents that by simp
  show "node_parents (deleteBlockSubtree b nodes) =
      node_parents nodes |` {x. \<not> (x = b \<or> ancestor (node_parents nodes) b x)}"
    using deleteBlockSubtree_parents [OF d] by (simp add: subtree_def)
qed

section \<open>The items of a relation\<close>

definition item_sequence :: "RelationItem list \<Rightarrow> RelationItemID list" where
  "item_sequence items = map riID items"

definition ready_item :: "RelationItem list \<Rightarrow> RelationItemID \<Rightarrow> RelationItemID \<Rightarrow> bool" where
  "ready_item items item after \<longleftrightarrow>
     distinct (map riID items) \<and> '''' \<notin> riID ` set items \<and> item \<in> riID ` set items \<and>
     (after = '''' \<or> after \<in> riID ` set items \<and> after \<noteq> item)"

lemma renumberRelationOrders_map:
  "(\<And>i k. f (i\<lparr>riOrder := k\<rparr>) = f i) \<Longrightarrow> map f (renumberRelationOrders items) = map f items"
proof -
  assume f: "\<And>i k. f (i\<lparr>riOrder := k\<rparr>) = f i"
  have "map f (map (\<lambda>(index, i). i\<lparr>riOrder := int index\<rparr>) (enumerate n items)) = map f items" for n
    by (induction items arbitrary: n) (simp_all add: f)
  then show ?thesis by (simp add: renumberRelationOrders_def)
qed

lemma renumberRelationOrders_ids [simp]: "map riID (renumberRelationOrders items) = map riID items"
  by (rule renumberRelationOrders_map) simp

lemma renumberRelationOrders_sorted:
  "map riOrder (renumberRelationOrders items) = map int [0..<length items]"
proof -
  have "map riOrder (map (\<lambda>(index, i). i\<lparr>riOrder := int index\<rparr>) (enumerate n items)) =
      map int [n..<n + length items]" for n
    by (induction items arbitrary: n) (simp_all add: upt_conv_Cons del: upt_Suc)
  from this [of 0] show ?thesis by (simp add: renumberRelationOrders_def)
qed

lemma moved_item_found:
  assumes "distinct (map riID items)" and "i \<in> set items"
  shows "moved_item (riID i) items = i"
proof -
  have other: "foldl (\<lambda>moved c. if riID c = x then c else moved) z items = z"
    if "x \<notin> riID ` set items" for x z and items :: "RelationItem list"
    using that by (induction items arbitrary: z) auto
  have "foldl (\<lambda>moved c. if riID c = riID i then c else moved) z items = i" for z
    using assms by (induction items arbitrary: z) (auto simp: other image_iff)
  then show ?thesis by (simp add: moved_item_def)
qed

lemma concat_place_items:
  assumes "riID moved = x" and "a \<noteq> x"
  shows "map riID (concat (map (\<lambda>c. if riID c = x then [] else if riID c = a then [c, moved] else [c]) items)) =
    concat (map (\<lambda>s. if s = a then [s, x] else [s]) (removeAll x (map riID items)))"
  using assms by (induction items) auto

lemma placeRelationItemAfter_sequence:
  assumes "ready_item items x a"
  shows "item_sequence (placeRelationItemAfter x a items) = insert_after a x (removeAll x (item_sequence items))"
proof -
  from assms have d: "distinct (map riID items)" and e: "'''' \<notin> riID ` set items"
    and x: "x \<in> riID ` set items" and a: "a = '''' \<or> a \<in> riID ` set items" "a \<noteq> x"
    unfolding ready_item_def by metis+
  have m: "riID (moved_item x items) = x" using x moved_item_found [OF d] by auto
  let ?sib = "removeAll x (map riID items)"
  have s: "distinct ?sib" "'''' \<notin> set ?sib" "a = '''' \<or> a \<in> set ?sib"
    using d e a by (auto simp: distinct_removeAll)
  then have "placed_order x a ?sib = insert_after a x ?sib" by (rule placed_order_eq)
  then show ?thesis using s(3)
    by (auto simp: item_sequence_def placeRelationItemAfter_def Let_def placed_order_def m
        concat_place_items [OF m a(2)])
qed

interpretation items: placement item_sequence placeRelationItemAfter ready_item
proof unfold_locales
  show "a = '''' \<or> a \<in> set (item_sequence s) \<and> a \<noteq> x" if "ready_item s x a" for s x a
    using that by (auto simp: ready_item_def item_sequence_def)
  show "item_sequence (placeRelationItemAfter x a s) = insert_after a x (removeAll x (item_sequence s))"
    if "ready_item s x a" for s x a
    using that by (rule placeRelationItemAfter_sequence)
qed

text \<open>Placing keeps the items themselves: only their orders change.\<close>

definition unordered :: "RelationItem \<Rightarrow> RelationItem" where
  "unordered i = i\<lparr>riOrder := 0\<rparr>"

lemma placeRelationItemAfter_mset:
  assumes "ready_item items x a"
  shows "mset (map unordered (placeRelationItemAfter x a items)) = mset (map unordered items)"
proof -
  from assms obtain m where d: "distinct (map riID items)" and m: "m \<in> set items" "riID m = x"
    by (auto simp: ready_item_def)
  let ?new = "(if a = '''' then [m] else []) @
      concat (map (\<lambda>c. if riID c = x then [] else if riID c = a then [c, m] else [c]) items)"
  have new: "placeRelationItemAfter x a items = renumberRelationOrders ?new"
    using moved_item_found [OF d m(1)] m(2) by (simp add: placeRelationItemAfter_def Let_def)
  have ids: "map riID ?new = item_sequence (placeRelationItemAfter x a items)"
    by (simp only: new item_sequence_def renumberRelationOrders_ids)
  have "set ?new \<subseteq> set items" using m(1) by (auto split: if_splits)
  moreover have "riID ` set ?new = riID ` set items"
  proof -
    have "set (map riID ?new) = insert x (set (item_sequence items))"
      unfolding ids by (rule items.place_members [OF assms])
    also have "\<dots> = riID ` set items" using m by (auto simp: item_sequence_def)
    finally show ?thesis unfolding set_map .
  qed
  ultimately have "set ?new = set items"
    using inj_on_image_eq_iff [of riID "set items" "set ?new" "set items"] d
    unfolding distinct_map by blast
  moreover have "distinct (map riID ?new)"
    unfolding ids by (rule items.place_distinct [OF assms]) (simp add: item_sequence_def d)
  ultimately have "mset ?new = mset items"
    using d set_eq_iff_mset_eq_distinct [of ?new items] unfolding distinct_map by blast
  then have "mset (map unordered ?new) = mset (map unordered items)" unfolding mset_map by simp
  moreover have "map unordered (renumberRelationOrders ?new) = map unordered ?new"
    by (rule renumberRelationOrders_map) (simp add: unordered_def)
  ultimately show ?thesis unfolding new by (simp only:)
qed

end
