(* ===== verification/Op_Validation.thy ===== *)
theory Op_Validation
  imports Doc_Validation Handles
begin

text \<open>
  Batch validation: the request envelope of \<open>operations.go\<close> and \<open>validation.go\<close>. The validator
  checks each operation against the catalog and the block graph that the earlier accepted operations
  of the batch have left, and accepts it by applying its effect to the graph.
\<close>

section \<open>Requests, issues and results\<close>

record ApplyRequest =
  arProtocol :: string
  arProfile :: Domain
  arDocument :: DocumentReference
  arLocale :: Locale
  arExpectedDocumentRevision :: Revision
  arExpectedTargetRevision :: "Revision option"
  arOperations :: "Operation list"

definition ApplyRequest_Identity :: "ApplyRequest \<Rightarrow> DocumentIdentity" where
  "ApplyRequest_Identity r = \<lparr>idDomain = arProfile r, idReference = arDocument r\<rparr>"

definition validateEnvelope :: "ApplyRequest \<Rightarrow> error option" where
  "validateEnvelope r = first_error
     [fail_if (arProtocol r \<noteq> ProtocolVersion) ''unsupported protocol'',
      DocumentIdentity_validate (ApplyRequest_Identity r),
      validateLocale (arLocale r),
      validateOpaque ''expected document revision'' (arExpectedDocumentRevision r) 256,
      optional_opaque ''expected target revision'' (arExpectedTargetRevision r),
      fail_if (arOperations r = [] \<or> length (arOperations r) > 100)
        ''apply requires 1 to 100 operations'',
      check_all validateShape (arOperations r)]"

datatype IssueCode =
    IssueInvalidOperation | IssueUnknownBlock | IssueDuplicateBlock | IssueUnknownBlockKind
  | IssueUnknownField | IssueUnknownRelation | IssueUnknownRelationItem
  | IssueDuplicateRelationItem | IssueInvalidRelationItemMove | IssueValueKindMismatch
  | IssueSourceAuthorityRequired | IssueTargetFieldForbidden | IssueInvalidBlockRelation
  | IssueBlockCycle | IssueInvalidFileReference | IssueTranslationIsSource
  | IssueTranslationAlreadyExists | IssueTranslationMissing | IssueLocaleOperationNotExclusive

record OperationIssue =
  isOperation :: int
  isCode :: IssueCode
  isHandle :: string
  isMessage :: string

datatype ConflictCode = ConflictDocumentRevision | ConflictTargetRevision

record Conflict =
  coCode :: ConflictCode
  coCurrentDocumentRevision :: Revision
  coCurrentTargetRevision :: "Revision option"
  coAffectedHandles :: "string list"

record ValidationResult =
  vrNormalized :: "Operation list"
  vrIssues :: "OperationIssue list"
  vrConflict :: "Conflict option"

definition Valid :: "ValidationResult \<Rightarrow> bool" where
  "Valid r \<longleftrightarrow> vrIssues r = [] \<and> vrConflict r = None"

text \<open>The text of a returned error; a panic has none.\<close>

definition error_text :: "error \<Rightarrow> string" where
  "error_text e = (case e of Err m \<Rightarrow> m | _ \<Rightarrow> '''')"

definition equalRevision :: "Revision option \<Rightarrow> Revision option \<Rightarrow> bool" where
  "equalRevision left right \<longleftrightarrow>
     (case (left, right) of (Some l, Some r) \<Rightarrow> l = r | _ \<Rightarrow> left = None \<and> right = None)"

definition revisionConflict :: "ConflictCode \<Rightarrow> Document \<Rightarrow> ApplyRequest \<Rightarrow> Conflict result" where
  "revisionConflict code d r =
     and_then (AffectedHandles (arOperations r) (arLocale r))
       (\<lambda>hs. Inr \<lparr>coCode = code, coCurrentDocumentRevision = docRevision d,
          coCurrentTargetRevision = docTargetRevision d, coAffectedHandles = hs\<rparr>)"

section \<open>The block graph\<close>

text \<open>
  Go maps are association lists; \<open>relations\<close> is \<open>None\<close> where the map is nil, which only the zero
  \<open>graphBlock\<close> of a missing block has. Assigning into it panics.
\<close>

record graphBlock =
  gbKind :: BlockKind
  gbParent :: BlockID
  gbRelations :: "(RelationID \<times> (RelationItemID \<times> RelationItemKind) list) list option"

type_synonym graph = "(BlockID \<times> graphBlock) list"

definition zeroGraphBlock :: graphBlock where
  "zeroGraphBlock = \<lparr>gbKind = '''', gbParent = '''', gbRelations = None\<rparr>"

definition newRelationItems :: "RelationItem list \<Rightarrow> (RelationItemID \<times> RelationItemKind) list" where
  "newRelationItems items = foldl (\<lambda>m i. AList.update (riID i) (riKind i) m) [] items"

definition newGraphBlock :: "Node \<Rightarrow> graphBlock" where
  "newGraphBlock n =
     \<lparr>gbKind = nodeKind n, gbParent = nodeParent n,
      gbRelations = Some (foldl (\<lambda>m r. AList.update (relID r) (newRelationItems (relItems r)) m) []
        (nodeRelations n))\<rparr>"

definition newOperationGraph :: "Node list \<Rightarrow> graph" where
  "newOperationGraph nodes = foldl (\<lambda>g n. AList.update (nodeID n) (newGraphBlock n) g) [] nodes"

definition graph_at :: "graph \<Rightarrow> BlockID \<Rightarrow> graphBlock" where
  "graph_at g b = (case map_of g b of None \<Rightarrow> zeroGraphBlock | Some x \<Rightarrow> x)"

definition relation_map :: "graphBlock \<Rightarrow> (RelationID \<times> (RelationItemID \<times> RelationItemKind) list) list" where
  "relation_map x = (case gbRelations x of None \<Rightarrow> [] | Some m \<Rightarrow> m)"

definition relation_items :: "graphBlock \<Rightarrow> RelationID \<Rightarrow> (RelationItemID \<times> RelationItemKind) list" where
  "relation_items x relation =
     (case map_of (relation_map x) relation of None \<Rightarrow> [] | Some m \<Rightarrow> m)"

definition graph_links :: "graph \<Rightarrow> (BlockID \<times> BlockID) list" where
  "graph_links g = map (\<lambda>(id, x). (id, gbParent x)) g"

definition put_item :: "RelationID \<Rightarrow> RelationItemID \<Rightarrow> RelationItemKind \<Rightarrow> graphBlock \<Rightarrow> graphBlock result" where
  "put_item relation item kind x =
     (case gbRelations x of
        None \<Rightarrow> Inl NilDeref
      | Some m \<Rightarrow> Inr (x\<lparr>gbRelations := Some (AList.update relation
          (AList.update item kind (relation_items x relation)) m)\<rparr>))"

definition drop_item :: "RelationID \<Rightarrow> RelationItemID \<Rightarrow> graphBlock \<Rightarrow> graphBlock" where
  "drop_item relation item x =
     (case map_of (relation_map x) relation of
        None \<Rightarrow> x
      | Some items \<Rightarrow> x\<lparr>gbRelations := Some (AList.update relation (AList.delete item items)
          (relation_map x))\<rparr>)"

definition graph_delete :: "BlockID \<Rightarrow> graph \<Rightarrow> graph" where
  "graph_delete block g =
     (let gone = subtree_closure (graph_links g) {block} in filter (\<lambda>(id, x). id \<notin> gone) g)"

definition graph_insert :: "BlockKind \<Rightarrow> BlockID \<Rightarrow> BlockID \<Rightarrow> graph \<Rightarrow> graph" where
  "graph_insert kind block parent g =
     AList.update block \<lparr>gbKind = kind, gbParent = parent, gbRelations = Some []\<rparr> g"

definition graph_move :: "BlockID \<Rightarrow> BlockID \<Rightarrow> graph \<Rightarrow> graph" where
  "graph_move block parent g = AList.update block ((graph_at g block)\<lparr>gbParent := parent\<rparr>) g"

definition graph_move_item :: "MoveRelationItem \<Rightarrow> graph \<Rightarrow> graph result" where
  "graph_move_item p g =
     (let source = graph_at g (mriBlock p);
          kind = (case map_of (relation_items source (mriRelation p)) (mriItem p) of
                    None \<Rightarrow> '''' | Some k \<Rightarrow> k);
          g' = AList.update (mriBlock p) (drop_item (mriRelation p) (mriItem p) source) g
      in and_then (put_item (mriTarget p) (mriItem p) kind (graph_at g' (mriTargetBlock p)))
        (\<lambda>x. Inr (AList.update (mriTargetBlock p) x g')))"

definition applyGraphEffect :: "Operation \<Rightarrow> graph \<Rightarrow> graph result" where
  "applyGraphEffect op g =
     (case opKind op of
        OperationInsertBlock \<Rightarrow> deref (opInsertBlock op)
          (\<lambda>p. Inr (graph_insert (ibKind p) (ibBlock p) (ibParent p) g))
      | OperationDeleteBlock \<Rightarrow> deref (opDeleteBlock op) (\<lambda>b. Inr (graph_delete b g))
      | OperationMoveBlock \<Rightarrow> deref (opMoveBlock op) (\<lambda>p. Inr (graph_move (mbBlock p) (mbParent p) g))
      | OperationReplaceBlockKind \<Rightarrow> deref (opReplaceBlockKind op)
          (\<lambda>p. Inr (AList.update (rbBlock p) ((graph_at g (rbBlock p))\<lparr>gbKind := rbKind p\<rparr>) g))
      | OperationInsertRelationItem \<Rightarrow> deref (opInsertRelationItem op)
          (\<lambda>p. and_then (put_item (iriRelation p) (iriItem p) (iriKind p) (graph_at g (iriBlock p)))
             (\<lambda>x. Inr (AList.update (iriBlock p) x g)))
      | OperationDeleteRelationItem \<Rightarrow> deref (opDeleteRelationItem op)
          (\<lambda>p. Inr (AList.update (driBlock p)
             (drop_item (driRelation p) (driItem p) (graph_at g (driBlock p))) g))
      | OperationMoveRelationItem \<Rightarrow> deref (opMoveRelationItem op)
          (\<lambda>p. graph_move_item p g)
      | _ \<Rightarrow> Inr g)"

section \<open>The operation validator\<close>

record operationValidator =
  vIndex :: int
  vRole :: LocaleRole
  vLocaleExists :: bool
  vBatchSize :: nat
  vCatalog :: catalogIndex
  vGraph :: graph

type_synonym verdict = "OperationIssue option result"

definition issue :: "operationValidator \<Rightarrow> IssueCode \<Rightarrow> string \<Rightarrow> string \<Rightarrow> OperationIssue" where
  "issue v code handle message =
     \<lparr>isOperation = vIndex v, isCode = code, isHandle = handle, isMessage = message\<rparr>"

definition issue_if :: "bool \<Rightarrow> OperationIssue \<Rightarrow> verdict" where
  "issue_if b i = Inr (if b then Some i else None)"

text \<open>\<open>if err := \<dots>; err != nil { return v.issue(code, handle, err.Error()) }\<close>\<close>

definition issue_on :: "(string \<Rightarrow> OperationIssue) \<Rightarrow> error option \<Rightarrow> verdict" where
  "issue_on mk e =
     (case e of None \<Rightarrow> Inr None | Some (Err m) \<Rightarrow> Inr (Some (mk m)) | Some p \<Rightarrow> Inl p)"

text \<open>A sequence of checks, the first issue (or panic) of which is the result.\<close>

fun first_issue :: "verdict list \<Rightarrow> verdict" where
  "first_issue [] = Inr None"
| "first_issue (Inr None # rest) = first_issue rest"
| "first_issue (c # rest) = c"

definition requireSource :: "operationValidator \<Rightarrow> string \<Rightarrow> verdict" where
  "requireSource v handle = issue_if (vRole v \<noteq> LocaleRoleSource)
     (issue v IssueSourceAuthorityRequired handle ''only the current source locale may alter the shared block graph, shared fields, or file relations'')"

definition validator_fieldRule ::
    "operationValidator \<Rightarrow> FieldTarget \<Rightarrow> OperationIssue + FieldRule" where
  "validator_fieldRule v t =
     (case map_of (vGraph v) (tgtBlock t) of
        None \<Rightarrow> Inl (issue v IssueUnknownBlock (blockHandle (tgtBlock t)) ''field target block does not exist'')
      | Some x \<Rightarrow>
          if \<not> relationItem t then
            (case catalogField (vCatalog v) (gbKind x) (tgtField t) of
               None \<Rightarrow> Inl (issue v IssueUnknownField (fieldHandle t) ''field is not defined for the target block kind'')
             | Some rule \<Rightarrow> Inr rule)
          else
            (case map_of (relation_map x) (tgtRelation t) of
               None \<Rightarrow> Inl (issue v IssueUnknownRelation (relationHandle (tgtBlock t) (tgtRelation t))
                 ''relation does not exist'')
             | Some items \<Rightarrow>
                 (case map_of items (tgtItem t) of
                    None \<Rightarrow> Inl (issue v IssueUnknownRelationItem
                      (relationItemHandle (tgtBlock t) (tgtRelation t) (tgtItem t))
                      ''relation item does not exist'')
                  | Some kind \<Rightarrow>
                      (case relationField (vCatalog v) (gbKind x) (tgtRelation t) kind (tgtField t) of
                         None \<Rightarrow> Inl (issue v IssueUnknownField (fieldHandle t)
                           ''field is not defined for the relation item kind'')
                       | Some rule \<Rightarrow> Inr rule))))"

definition resolveField ::
    "operationValidator \<Rightarrow> FieldTarget \<Rightarrow> OperationIssue + resolvedFieldRule" where
  "resolveField v t =
     (case validateCanonicalFieldTarget t of
        Some e \<Rightarrow> Inl (issue v IssueInvalidOperation (fieldHandle t) (error_text e))
      | None \<Rightarrow>
          (case validator_fieldRule v t of
             Inl i \<Rightarrow> Inl i
           | Inr rule \<Rightarrow>
               (case resolveNestedFieldRule rule (tgtPath t) of
                  Inl e \<Rightarrow> Inl (issue v IssueUnknownField (fieldHandle t) (error_text e))
                | Inr resolved \<Rightarrow> Inr resolved)))"

definition validateSetField :: "(string \<Rightarrow> bool) \<Rightarrow> operationValidator \<Rightarrow> SetField \<Rightarrow> verdict" where
  "validateSetField K v p =
     (case resolveField v (sfTarget p) of
        Inl i \<Rightarrow> Inr (Some i)
      | Inr rule \<Rightarrow>
          (let handle = fieldHandle (sfTarget p) in
           first_issue
             [issue_if (rvFile rule)
                (issue v IssueUnknownField handle ''file fields require a typed file operation''),
              issue_if (vKind (sfValue p) \<noteq> rvValueKind rule)
                (issue v IssueValueKindMismatch handle ''field value kind does not match the domain catalog''),
              issue_on (issue v IssueValueKindMismatch handle) (Value_validate K (sfValue p)),
              (case rvSchema rule of
                 None \<Rightarrow> Inr None
               | Some s \<Rightarrow> issue_on (issue v IssueValueKindMismatch handle)
                   (validateValueForSchema K 0 (sfValue p) s)),
              issue_if (vRole v = LocaleRoleNonSource \<and>
                  (rvOwnership rule \<noteq> FieldOwnershipLocale \<or> \<not> rvTranslatable rule))
                (issue v IssueTargetFieldForbidden handle
                  ''non-source locales may modify only locale-owned translatable values'')]))"

definition validateUnsetField :: "operationValidator \<Rightarrow> FieldTarget \<Rightarrow> verdict" where
  "validateUnsetField v t =
     (case resolveField v t of
        Inl i \<Rightarrow> Inr (Some i)
      | Inr rule \<Rightarrow> first_issue
          [issue_if (vRole v = LocaleRoleNonSource)
             (issue v IssueTargetFieldForbidden (fieldHandle t)
               ''non-source locales cannot unset fields; set an explicit empty value or delete the translation''),
           issue_if (rvFile rule)
             (issue v IssueTargetFieldForbidden (fieldHandle t) ''file fields require a typed file operation'')])"

definition validatePlacement :: "operationValidator \<Rightarrow> BlockID \<Rightarrow> BlockID \<Rightarrow> BlockID \<Rightarrow> verdict" where
  "validatePlacement v moving parent after =
     (if parent \<noteq> '''' \<and> map_of (vGraph v) parent = None
        then Inr (Some (issue v IssueInvalidBlockRelation (blockHandle parent) ''parent block does not exist''))
      else if after = '''' then Inr None
      else case map_of (vGraph v) after of
          None \<Rightarrow> Inr (Some (issue v IssueInvalidBlockRelation (blockHandle after) ''after block does not exist''))
        | Some sibling \<Rightarrow> first_issue
            [issue_if (after = moving)
               (issue v IssueInvalidBlockRelation (blockHandle after) ''block cannot be placed after itself''),
             issue_if (gbParent sibling \<noteq> parent)
               (issue v IssueInvalidBlockRelation (blockHandle after)
                 ''after block is not a child of the requested parent'')])"

definition validateInsertBlock :: "operationValidator \<Rightarrow> InsertBlock \<Rightarrow> verdict" where
  "validateInsertBlock v p =
     (let handle = blockHandle (ibBlock p) in
      first_issue
        [requireSource v handle,
         issue_on (issue v IssueInvalidOperation handle)
           (validateStableID ''block ID'' (ibBlock p) maxHandleLength),
         issue_if (map_of (vGraph v) (ibBlock p) \<noteq> None)
           (issue v IssueDuplicateBlock handle ''block ID already exists''),
         issue_if (\<not> hasBlockKind (vCatalog v) (ibKind p))
           (issue v IssueUnknownBlockKind handle ''block kind is not in the domain catalog''),
         validatePlacement v (ibBlock p) (ibParent p) (ibAfter p)])"

definition validateDeleteBlock :: "operationValidator \<Rightarrow> BlockID \<Rightarrow> verdict" where
  "validateDeleteBlock v block = first_issue
     [requireSource v (blockHandle block),
      issue_if (map_of (vGraph v) block = None)
        (issue v IssueUnknownBlock (blockHandle block) ''block does not exist'')]"

text \<open>
  The walk takes at most one round more than the graph has blocks unless the parents form a cycle.
\<close>

definition isDescendant :: "operationValidator \<Rightarrow> BlockID \<Rightarrow> BlockID \<Rightarrow> bool result" where
  "isDescendant v candidate anc =
     (case ancestor_walk (Suc (length (vGraph v))) (map_of (graph_links (vGraph v))) candidate anc of
        None \<Rightarrow> Inl NoReturn
      | Some b \<Rightarrow> Inr b)"

definition validateMoveBlock :: "operationValidator \<Rightarrow> MoveBlock \<Rightarrow> verdict" where
  "validateMoveBlock v p =
     (let handle = blockHandle (mbBlock p) in
      first_issue
        [requireSource v handle,
         issue_if (map_of (vGraph v) (mbBlock p) = None)
           (issue v IssueUnknownBlock handle ''block does not exist''),
         (if mbParent p = mbBlock p
            then Inr (Some (issue v IssueBlockCycle handle ''move would create a block cycle''))
          else and_then (isDescendant v (mbParent p) (mbBlock p))
            (\<lambda>b. issue_if b (issue v IssueBlockCycle handle ''move would create a block cycle''))),
         validatePlacement v (mbBlock p) (mbParent p) (mbAfter p)])"

definition validateReplaceBlockKind :: "operationValidator \<Rightarrow> ReplaceBlockKind \<Rightarrow> verdict" where
  "validateReplaceBlockKind v p =
     (let handle = blockHandle (rbBlock p) in
      first_issue
        [requireSource v handle,
         issue_if (map_of (vGraph v) (rbBlock p) = None)
           (issue v IssueUnknownBlock handle ''block does not exist''),
         issue_if (\<not> hasBlockKind (vCatalog v) (rbKind p))
           (issue v IssueUnknownBlockKind handle ''block kind is not in the domain catalog'')])"

definition validateRelationOperationIDs ::
    "BlockID \<Rightarrow> RelationID \<Rightarrow> RelationItemID \<Rightarrow> error option" where
  "validateRelationOperationIDs block relation item = first_error
     [validateStableID ''block ID'' block maxHandleLength,
      validateStableID ''relation ID'' relation maxCatalogIDLength,
      validateStableID ''relation item ID'' item maxHandleLength]"

definition validateAfterRelationItem :: "RelationItemID \<Rightarrow> error option" where
  "validateAfterRelationItem after =
     (if after = '''' then None else validateStableID ''after relation item ID'' after maxHandleLength)"

definition relationItemExists :: "operationValidator \<Rightarrow> RelationItemID \<Rightarrow> bool" where
  "relationItemExists v item \<longleftrightarrow>
     (\<exists>(b, x) \<in> set (vGraph v). \<exists>(r, items) \<in> set (relation_map x). map_of items item \<noteq> None)"

definition validateRelationPlacement ::
    "operationValidator \<Rightarrow> BlockID \<Rightarrow> RelationID \<Rightarrow> RelationItemID \<Rightarrow> RelationItemID \<Rightarrow> verdict" where
  "validateRelationPlacement v block relation moving after =
     (case map_of (vGraph v) block of
        None \<Rightarrow> Inr (Some (issue v IssueUnknownBlock (blockHandle block) ''relation owner block does not exist''))
      | Some x \<Rightarrow>
          if after = '''' then Inr None
          else first_issue
            [issue_if (after = moving)
               (issue v IssueInvalidRelationItemMove (relationItemHandle block relation moving)
                 ''relation item cannot be placed after itself''),
             issue_if (map_of (relation_items x relation) after = None)
               (issue v IssueInvalidRelationItemMove (relationItemHandle block relation after)
                 ''after relation item does not exist in the target relation'')])"

definition requireRelationItem ::
    "operationValidator \<Rightarrow> BlockID \<Rightarrow> RelationID \<Rightarrow> RelationItemID \<Rightarrow> verdict" where
  "requireRelationItem v block relation item =
     (case map_of (vGraph v) block of
        None \<Rightarrow> Inr (Some (issue v IssueUnknownBlock (blockHandle block) ''relation owner block does not exist''))
      | Some x \<Rightarrow>
          (case map_of (relation_map x) relation of
             None \<Rightarrow> Inr (Some (issue v IssueUnknownRelation (relationHandle block relation)
               ''relation does not exist''))
           | Some items \<Rightarrow> issue_if (map_of items item = None)
               (issue v IssueUnknownRelationItem (relationItemHandle block relation item)
                 ''relation item does not exist'')))"

definition validateInsertRelationItem :: "operationValidator \<Rightarrow> InsertRelationItem \<Rightarrow> verdict" where
  "validateInsertRelationItem v p =
     (let handle = relationItemHandle (iriBlock p) (iriRelation p) (iriItem p) in
      first_issue
        [requireSource v handle,
         issue_on (issue v IssueInvalidOperation handle)
           (validateRelationOperationIDs (iriBlock p) (iriRelation p) (iriItem p)),
         issue_on (issue v IssueInvalidOperation handle)
           (validateStableID ''relation item kind'' (iriKind p) maxKindLength),
         issue_on (issue v IssueInvalidOperation handle) (validateAfterRelationItem (iriAfter p)),
         (case map_of (vGraph v) (iriBlock p) of
            None \<Rightarrow> Inr (Some (issue v IssueUnknownBlock (blockHandle (iriBlock p))
              ''relation owner block does not exist''))
          | Some x \<Rightarrow>
              (case relationItemKinds (vCatalog v) (gbKind x) (iriRelation p) of
                 None \<Rightarrow> Inr (Some (issue v IssueUnknownRelation (relationHandle (iriBlock p) (iriRelation p))
                   ''relation is not defined for the block kind''))
               | Some allowed \<Rightarrow> issue_if (iriKind p \<notin> set allowed)
                   (issue v IssueInvalidRelationItemMove handle ''relation item kind is not allowed''))),
         issue_if (relationItemExists v (iriItem p))
           (issue v IssueDuplicateRelationItem handle ''relation item ID already exists''),
         validateRelationPlacement v (iriBlock p) (iriRelation p) (iriItem p) (iriAfter p)])"

definition validateDeleteRelationItem :: "operationValidator \<Rightarrow> DeleteRelationItem \<Rightarrow> verdict" where
  "validateDeleteRelationItem v p =
     (let handle = relationItemHandle (driBlock p) (driRelation p) (driItem p) in
      first_issue
        [requireSource v handle,
         issue_on (issue v IssueInvalidOperation handle)
           (validateRelationOperationIDs (driBlock p) (driRelation p) (driItem p)),
         requireRelationItem v (driBlock p) (driRelation p) (driItem p)])"

definition validateMoveRelationItem :: "operationValidator \<Rightarrow> MoveRelationItem \<Rightarrow> verdict" where
  "validateMoveRelationItem v p =
     (let handle = relationItemHandle (mriBlock p) (mriRelation p) (mriItem p);
          targetHandle = relationItemHandle (mriTargetBlock p) (mriTarget p) (mriItem p);
          kind = (case map_of (relation_items (graph_at (vGraph v) (mriBlock p)) (mriRelation p))
              (mriItem p) of None \<Rightarrow> '''' | Some k \<Rightarrow> k)
      in
      first_issue
        [requireSource v handle,
         issue_on (issue v IssueInvalidOperation handle)
           (validateRelationOperationIDs (mriBlock p) (mriRelation p) (mriItem p)),
         issue_on (issue v IssueInvalidOperation targetHandle)
           (validateRelationOperationIDs (mriTargetBlock p) (mriTarget p) (mriItem p)),
         issue_on (issue v IssueInvalidOperation targetHandle) (validateAfterRelationItem (mriAfter p)),
         requireRelationItem v (mriBlock p) (mriRelation p) (mriItem p),
         (case map_of (vGraph v) (mriTargetBlock p) of
            None \<Rightarrow> Inr (Some (issue v IssueUnknownBlock (blockHandle (mriTargetBlock p))
              ''target relation owner block does not exist''))
          | Some x \<Rightarrow>
              (case relationItemKinds (vCatalog v) (gbKind x) (mriTarget p) of
                 None \<Rightarrow> Inr (Some (issue v IssueUnknownRelation
                   (relationHandle (mriTargetBlock p) (mriTarget p))
                   ''target relation is not defined for the block kind''))
               | Some allowed \<Rightarrow> issue_if (kind \<notin> set allowed)
                   (issue v IssueInvalidRelationItemMove handle
                     ''target relation does not allow the item kind''))),
         validateRelationPlacement v (mriTargetBlock p) (mriTarget p) (mriItem p) (mriAfter p)])"

definition requireFileSlot :: "operationValidator \<Rightarrow> FieldTarget \<Rightarrow> verdict" where
  "requireFileSlot v t = first_issue
     [requireSource v (fieldHandle t),
      (case resolveField v t of
         Inl i \<Rightarrow> Inr (Some i)
       | Inr rule \<Rightarrow> issue_if (\<not> rvFile rule)
           (issue v IssueUnknownField (fieldHandle t) ''field is not a file slot''))]"

definition validateAttachFile :: "operationValidator \<Rightarrow> AttachFile \<Rightarrow> verdict" where
  "validateAttachFile v p = first_issue
     [requireFileSlot v (afTarget p),
      issue_on (issue v IssueInvalidFileReference (fieldHandle (afTarget p)))
        (validateFileReference (afFile p))]"

definition validateDetachFile :: "operationValidator \<Rightarrow> FieldTarget \<Rightarrow> verdict" where
  "validateDetachFile v t = requireFileSlot v t"

definition validateTranslationLifecycle :: "operationValidator \<Rightarrow> OperationKind \<Rightarrow> verdict" where
  "validateTranslationLifecycle v kind =
     (let create = (kind = OperationCreateTranslation) in
      if vRole v = LocaleRoleSource then
        Inr (Some (issue v IssueTranslationIsSource ''translation''
          (if create then ''the current source locale cannot be created as a translation''
           else ''the current source locale cannot be deleted as a translation'')))
      else if vBatchSize v \<noteq> 1 then
        Inr (Some (issue v IssueLocaleOperationNotExclusive ''translation''
          (if create then ''translation create must be an exclusive aggregate operation''
           else ''translation delete must be an exclusive aggregate operation'')))
      else if create \<and> vLocaleExists v then
        Inr (Some (issue v IssueTranslationAlreadyExists ''translation'' ''translation locale already exists''))
      else if \<not> create \<and> \<not> vLocaleExists v then
        Inr (Some (issue v IssueTranslationMissing ''translation'' ''translation locale does not exist''))
      else Inr None)"

definition validator_validate :: "(string \<Rightarrow> bool) \<Rightarrow> operationValidator \<Rightarrow> Operation \<Rightarrow> verdict" where
  "validator_validate K v op =
     (case validateShape op of
        Some e \<Rightarrow> Inr (Some (issue v IssueInvalidOperation '''' (error_text e)))
      | None \<Rightarrow>
          (case opKind op of
             OperationSetField \<Rightarrow> deref (opSetField op) (validateSetField K v)
           | OperationUnsetField \<Rightarrow> deref (opUnsetField op) (validateUnsetField v)
           | OperationInsertBlock \<Rightarrow> deref (opInsertBlock op) (validateInsertBlock v)
           | OperationDeleteBlock \<Rightarrow> deref (opDeleteBlock op) (validateDeleteBlock v)
           | OperationMoveBlock \<Rightarrow> deref (opMoveBlock op) (validateMoveBlock v)
           | OperationReplaceBlockKind \<Rightarrow> deref (opReplaceBlockKind op) (validateReplaceBlockKind v)
           | OperationInsertRelationItem \<Rightarrow> deref (opInsertRelationItem op) (validateInsertRelationItem v)
           | OperationDeleteRelationItem \<Rightarrow> deref (opDeleteRelationItem op) (validateDeleteRelationItem v)
           | OperationMoveRelationItem \<Rightarrow> deref (opMoveRelationItem op) (validateMoveRelationItem v)
           | OperationAttachFile \<Rightarrow> deref (opAttachFile op) (validateAttachFile v)
           | OperationDetachFile \<Rightarrow> deref (opDetachFile op) (validateDetachFile v)
           | _ \<Rightarrow> validateTranslationLifecycle v (opKind op)))"

definition accept :: "operationValidator \<Rightarrow> Operation \<Rightarrow> operationValidator result" where
  "accept v op =
     and_then (applyGraphEffect op (vGraph v))
       (\<lambda>g. Inr (let v' = v\<lparr>vGraph := g\<rparr> in
          if opKind op = OperationCreateTranslation then v'\<lparr>vLocaleExists := True\<rparr>
          else if opKind op = OperationDeleteTranslation then v'\<lparr>vLocaleExists := False\<rparr>
          else v'))"

section \<open>Batches\<close>

fun validateRounds ::
    "(string \<Rightarrow> bool) \<Rightarrow> operationValidator \<Rightarrow> nat \<Rightarrow> Operation list \<Rightarrow> OperationIssue list result" where
  "validateRounds K v index [] = Inr []"
| "validateRounds K v index (op # rest) =
     (let w = v\<lparr>vIndex := int index\<rparr> in
      and_then (validator_validate K w op)
        (\<lambda>verdict. case verdict of
             Some i \<Rightarrow> and_then (validateRounds K w (Suc index) rest) (\<lambda>issues. Inr (i # issues))
           | None \<Rightarrow> and_then (accept w op) (\<lambda>w'. validateRounds K w' (Suc index) rest)))"

definition newValidator :: "Document \<Rightarrow> ApplyRequest \<Rightarrow> operationValidator" where
  "newValidator d r =
     \<lparr>vIndex = 0, vRole = Role d, vLocaleExists = docLocaleExists d,
      vBatchSize = length (arOperations r), vCatalog = newCatalogIndex (docCatalog d),
      vGraph = newOperationGraph (docNodes d)\<rparr>"

definition envelopeIssue :: "string \<Rightarrow> OperationIssue" where
  "envelopeIssue message =
     \<lparr>isOperation = - 1, isCode = IssueInvalidOperation, isHandle = '''', isMessage = message\<rparr>"

definition ValidateOperations ::
    "(string \<Rightarrow> bool) \<Rightarrow> Document \<Rightarrow> ApplyRequest \<Rightarrow> ValidationResult result" where
  "ValidateOperations K d r =
     (let start = \<lparr>vrNormalized = arOperations r, vrIssues = [], vrConflict = None\<rparr>;
          reject = (\<lambda>m. Inr (start\<lparr>vrIssues := [envelopeIssue m]\<rparr>));
          conflict = (\<lambda>code. and_then (revisionConflict code d r) (\<lambda>c. Inr (start\<lparr>vrConflict := Some c\<rparr>)))
      in
      case validateEnvelope r of
        Some e \<Rightarrow> reject (error_text e)
      | None \<Rightarrow>
          (case Document_validate K d of
             Some (Err m) \<Rightarrow> reject (''domain document is invalid: '' @ m)
           | Some p \<Rightarrow> Inl p
           | None \<Rightarrow>
               if docIdentity d \<noteq> ApplyRequest_Identity r \<or> docLocale d \<noteq> arLocale r
                 then reject ''loaded document identity or locale does not match apply request''
               else if docRevision d \<noteq> arExpectedDocumentRevision r then conflict ConflictDocumentRevision
               else if \<not> equalRevision (docTargetRevision d) (arExpectedTargetRevision r)
                 then conflict ConflictTargetRevision
               else and_then (validateRounds K (newValidator d r) 0 (arOperations r))
                 (\<lambda>issues. Inr (start\<lparr>vrIssues := issues\<rparr>))))"

end
