(* ===== verification/Validation_Safety.thy ===== *)
theory Validation_Safety
  imports Op_Validation
begin

text \<open>
  Validation never panics and never hangs: every check of the package ends in nil or in an ordinary
  error. The one place where the code could dereference nil, the item schema of a list schema, is
  reached only for schemas that the catalog check has accepted.
\<close>

section \<open>Ordinary outcomes\<close>

named_theorems returned_intros \<open>checks that end in nil or an ordinary error\<close>

definition returned :: "error option \<Rightarrow> bool" where
  "returned r \<longleftrightarrow> (\<forall>e. r = Some e \<longrightarrow> (\<exists>m. e = Err m))"

lemma returned_basic [simp, returned_intros]:
  "returned None" "returned (Some (Err m))" "returned (fail_if b m)"
  by (auto simp: returned_def fail_if_def)

lemma returned_first_error [returned_intros]: "list_all returned es \<Longrightarrow> returned (first_error es)"
  by (induction es rule: first_error.induct) (auto simp: returned_def)

lemma returned_list [returned_intros]:
  "list_all returned []" "returned x \<Longrightarrow> list_all returned xs \<Longrightarrow> list_all returned (x # xs)"
  by simp_all

lemma returned_check_all [returned_intros]:
  "(\<And>x. x \<in> set xs \<Longrightarrow> returned (f x)) \<Longrightarrow> returned (check_all f xs)"
  by (induction xs) (auto simp: returned_def split: option.splits)

lemma returned_loop_seen [returned_intros]:
  "(\<And>s x. x \<in> set xs \<Longrightarrow> returned (f s x)) \<Longrightarrow> returned (loop_seen key f seen xs)"
proof (induction xs arbitrary: seen)
  case Nil
  then show ?case by simp
next
  case (Cons x xs)
  then have "returned (f seen x)" and "returned (loop_seen key f (insert (key x) seen) xs)" by auto
  then show ?case by (cases "f seen x") (auto simp: returned_def)
qed

lemma returned_then [returned_intros]:
  "returned r \<Longrightarrow> (r = None \<Longrightarrow> returned k) \<Longrightarrow> returned (case r of None \<Rightarrow> k | Some e \<Rightarrow> Some e)"
  by (cases r) (auto simp: returned_def)

lemma returned_option:
  "(x = None \<Longrightarrow> returned a) \<Longrightarrow> (\<And>y. x = Some y \<Longrightarrow> returned (f y)) \<Longrightarrow>
   returned (case x of None \<Rightarrow> a | Some y \<Rightarrow> f y)"
  by (cases x) auto

lemma returned_if [returned_intros]:
  "(b \<Longrightarrow> returned x) \<Longrightarrow> (\<not> b \<Longrightarrow> returned y) \<Longrightarrow> returned (if b then x else y)"
  by simp

section \<open>Identifiers and values\<close>

lemma returned_validateOpaque [simp, returned_intros]: "returned (validateOpaque name v n)"
  by (simp add: validateOpaque_def)

lemma returned_validateStableID [simp, returned_intros]: "returned (validateStableID name v n)"
  unfolding validateStableID_def by (intro returned_intros)

lemma returned_identifiers [simp, returned_intros]:
  "returned (validateLocale l)" "returned (DocumentIdentity_validate i)"
  "returned (validateFileReference f)" "returned (FieldPathSegment_validate s)"
  "returned (optional_opaque name r)"
  by (simp_all add: validateLocale_def DocumentIdentity_validate_def validateFileReference_def
      FieldPathSegment_validate_def optional_opaque_def returned_then split: option.split)

lemma returned_InlineItem_validate [simp, returned_intros]: "returned (InlineItem_validate K depth i)"
proof (induction i arbitrary: depth rule: measure_induct_rule [where f = size])
  case (less i)
  have "returned (validateChildren (InlineItem_validate K (Suc depth)) i)"
    unfolding validateChildren_def by (intro returned_intros less size_iChildren)
  then show ?case
    by (subst InlineItem_validate.simps) (intro returned_intros)
qed

lemma returned_validateDepth [simp, returned_intros]: "returned (validateDepth K depth v)"
proof (induction v arbitrary: depth rule: Value_tree_induct)
  case (Value v)
  have items: "returned (validateListItems (validateDepth K (Suc depth)) (vList v))"
    unfolding validateListItems_def listItemRound_def
    by (auto intro!: returned_intros Value(1))
  have objs: "returned (validateObjectFields (validateDepth K (Suc depth)) (vObject v))"
    unfolding validateObjectFields_def by (auto intro!: returned_intros Value(2))
  show ?case
    by (subst validateDepth.simps)
      (intro returned_intros items objs; simp add: ValidateInlineItems_def validateFiniteNumber_def returned_check_all)
qed

lemma returned_Value_validate [simp, returned_intros]: "returned (Value_validate K v)"
  by (simp add: Value_validate_def)

section \<open>Catalogs\<close>

lemma returned_rule_shapes [simp, returned_intros]:
  "returned (validateKindOnly k)" "returned (validateFieldRuleShape k ow t f)"
  by (simp_all add: validateKindOnly_def validateFieldRuleShape_def split: ValueKind.split)

lemma returned_validateListIdentity [simp, returned_intros]: "returned (validateListIdentity i)"
  unfolding validateListIdentity_def
  by (auto intro!: returned_intros split: ListIdentityKind.split)

lemma returned_validateFieldSchema [simp, returned_intros]: "returned (validateFieldSchema s depth)"
proof (induction s arbitrary: depth rule: measure_induct_rule [where f = size])
  case (less s)
  have nested: "returned (validateNestedFields (\<lambda>t. validateFieldSchema t (Suc depth)) (sFields s))"
    unfolding validateNestedFields_def by (auto intro!: returned_intros less size_sFields)
  have item: "returned (validateFieldSchema t (Suc depth))" if "sItem s = Some t" for t
    using less [OF size_sItem [OF that]] .
  show ?case
    by (subst validateFieldSchema.simps)
      (intro returned_if returned_then returned_basic returned_rule_shapes returned_option
        returned_validateListIdentity nested item)
qed

lemma returned_validateRuleSchema [simp, returned_intros]: "returned (validateRuleSchema r)"
  unfolding validateRuleSchema_def
  by (rule returned_then) (simp, intro returned_option returned_intros)

lemma returned_Catalog_validate [simp, returned_intros]: "returned (Catalog_validate c)"
  unfolding Catalog_validate_def validateBlockKinds_def validateFieldRules_def
    validateRelationRules_def validateRelationFieldRules_def
  by (intro returned_intros returned_option)

definition schema_ok :: "FieldSchema \<Rightarrow> bool" where
  "schema_ok s \<longleftrightarrow> (\<exists>depth. validateFieldSchema s depth = None)"

lemma schema_ok_list:
  assumes "schema_ok s" and "sKind s = ValueKindList" and "\<not> sFile s"
  shows "\<exists>item. sItem s = Some item \<and> schema_ok item"
proof -
  from assms(1) obtain depth where d: "validateFieldSchema s depth = None" by (auto simp: schema_ok_def)
  show ?thesis
    using d assms(2,3)
    by (subst (asm) validateFieldSchema.simps) (auto simp: schema_ok_def split: if_splits option.splits)
qed

lemma schema_ok_object:
  assumes "schema_ok s" and "sKind s = ValueKindObject" and "\<not> sFile s" and "(k, t) \<in> set (sFields s)"
  shows "schema_ok t"
proof -
  from assms(1) obtain depth where d: "validateFieldSchema s depth = None" by (auto simp: schema_ok_def)
  then have "validateNestedFields (\<lambda>t. validateFieldSchema t (Suc depth)) (sFields s) = None"
    using assms(2,3) by (subst (asm) validateFieldSchema.simps) (auto split: if_splits option.splits)
  with assms(4) show ?thesis by (auto simp: validateNestedFields_None schema_ok_def)
qed

lemma returned_validateValueForSchema [returned_intros]:
  "schema_ok s \<Longrightarrow> returned (validateValueForSchema K depth v s)"
proof (induction v arbitrary: depth s rule: Value_tree_induct)
  case (Value v)
  let ?check = "validateValueForSchema K (Suc depth)"
  have items: "returned (validateListForSchema ?check (vList v) s)"
    if kind: "sKind s = ValueKindList" "\<not> sFile s"
  proof -
    from schema_ok_list [OF Value.prems kind] obtain item where item: "sItem s = Some item" "schema_ok item" by blast
    have "returned (validateListItemIdentity x i)" for x i
      unfolding validateListItemIdentity_def
      by (auto intro!: returned_intros returned_option split: ListIdentityKind.split)
    with item show ?thesis
      unfolding validateListForSchema_def Let_def
      by (auto intro!: returned_intros Value.IH(1))
  qed
  have objs: "returned (validateObjectForSchema ?check (vObject v) s)"
    if kind: "sKind s = ValueKindObject" "\<not> sFile s"
    unfolding validateObjectForSchema_def
    using schema_ok_object [OF Value.prems kind]
    by (auto intro!: returned_check_all returned_option returned_if Value.IH(2) dest!: map_of_SomeD)
  show ?case
    by (subst validateValueForSchema.simps) (intro returned_intros items objs)
qed

definition rule_ok :: "FieldRule \<Rightarrow> bool" where
  "rule_ok rule \<longleftrightarrow> (\<forall>s. frSchema rule = Some s \<longrightarrow> schema_ok s)"

lemma validateRuleSchema_ok: "validateRuleSchema rule = None \<Longrightarrow> rule_ok rule"
  by (auto simp: validateRuleSchema_def rule_ok_def schema_ok_def split: option.splits if_splits)

lemma loop_seen_None_all:
  "loop_seen key f seen xs = None \<Longrightarrow> x \<in> set xs \<Longrightarrow> \<exists>s. f s x = None"
  by (induction xs arbitrary: seen) (auto split: option.splits)

lemma catalogField_ok:
  assumes "Catalog_validate c = None" and "catalogField (newCatalogIndex c) k f = Some rule"
  shows "rule_ok rule"
proof -
  have r: "rule \<in> set (catFields c)"
    using assms(2) by (auto simp: catalogField_def newCatalogIndex_def dest!: map_of_SomeD)
  have "validateFieldRules (catBlockKinds c) (catFields c) = None"
    using assms(1) by (simp add: Catalog_validate_def first_error_None)
  from loop_seen_None_all [OF this [unfolded validateFieldRules_def] r] show ?thesis
    by (auto simp: first_error_None intro: validateRuleSchema_ok)
qed

lemma relationField_ok:
  assumes "Catalog_validate c = None" and "relationField (newCatalogIndex c) k r i f = Some rule"
  shows "rule_ok rule"
proof -
  obtain rf where r: "rf \<in> set (catRelationFields c)" "rule = fieldRule rf"
    using assms(2) by (auto simp: relationField_def newCatalogIndex_def dest!: map_of_SomeD)
  have "validateRelationFieldRules (ciRelations (newCatalogIndex c)) (catRelationFields c) = None"
    using assms(1) by (simp add: Catalog_validate_def first_error_None)
  from loop_seen_None_all [OF this [unfolded validateRelationFieldRules_def] r(1)] show ?thesis
    by (auto simp: first_error_None r(2) intro: validateRuleSchema_ok split: option.splits)
qed

section \<open>Documents\<close>

lemma returned_validateProjectedFieldSet [simp, returned_intros]:
  "returned (validateProjectedFieldSet K sh lo fi)"
  unfolding validateProjectedFieldSet_def validateFieldValues_def validateFileBindings_def
  by (intro returned_intros)

lemma returned_relationRounds [simp, returned_intros]: "returned (relationRounds K R I rs)"
proof (induction rs arbitrary: R I)
  case Nil
  then show ?case by simp
next
  case (Cons r rs)
  then show ?case
    unfolding relationRounds.simps relationItemRound_def by (intro returned_intros)
qed

lemma returned_validateNodes [simp, returned_intros]: "returned (validateNodes K nodes)"
  unfolding validateNodes_def validateProjectedNodes_def nodeRound_def validateProjectedNode_def
    validateProjectedRelations_def detectParentCycles_def
  by (intro returned_intros)

lemma returned_validateFieldSet:
  assumes "\<And>f rule. lookup f = Some rule \<Longrightarrow> rule_ok rule"
  shows "returned (validateFieldSet K sh lo fi lookup)"
proof -
  have "returned (validateScopedValues K sc vs lookup)" for sc vs
    unfolding validateScopedValues_def
    by (intro returned_check_all returned_option returned_if returned_basic
        returned_validateValueForSchema) (use assms in \<open>auto simp: rule_ok_def\<close>)
  moreover have "returned (validateCatalogFiles fi lookup)"
    unfolding validateCatalogFiles_def
    by (intro returned_check_all returned_option) (auto split: sum.split)
  ultimately show ?thesis unfolding validateFieldSet_def by (intro returned_intros)
qed

lemma returned_validateDocumentCatalogValues:
  assumes "Catalog_validate c = None"
  shows "returned (validateDocumentCatalogValues K c nodes)"
  unfolding validateDocumentCatalogValues_def validateRelations_def Let_def
  by (intro returned_intros returned_option returned_validateFieldSet
      catalogField_ok [OF assms] relationField_ok [OF assms])

lemma returned_first_error_append:
  "list_all returned es \<Longrightarrow> (\<forall>e \<in> set es. e = None \<Longrightarrow> returned e') \<Longrightarrow> returned (first_error (es @ [e']))"
proof (induction es)
  case Nil
  then show ?case by (cases e') (auto simp: returned_def)
next
  case (Cons e es)
  show ?case
  proof (cases e)
    case None
    with Cons show ?thesis by simp
  next
    case (Some x)
    with Cons.prems(1) show ?thesis by simp
  qed
qed

lemma returned_Document_validate [simp]: "returned (Document_validate K d)"
proof -
  define es where "es = [DocumentIdentity_validate (docIdentity d),
      validateOpaque ''document revision'' (docRevision d) 256, validateLocale (docSourceLocale d),
      validateLocale (docLocale d),
      validateLocaleState (Role d) (docLocaleExists d) (docTargetRevision d),
      optional_opaque ''target revision'' (docTargetRevision d),
      (if Role d = LocaleRoleNonSource \<and> \<not> docLocaleExists d
         then validateAbsentLocaleValues (docNodes d) else None),
      Catalog_validate (docCatalog d), validateNodes K (docNodes d)]"
  have "list_all returned es"
    unfolding es_def validateLocaleState_def validateAbsentLocaleValues_def by (intro returned_intros)
  moreover have "Catalog_validate (docCatalog d) = None" if "\<forall>e \<in> set es. e = None"
    using that by (simp add: es_def)
  ultimately have "returned (first_error (es @ [validateDocumentCatalogValues K (docCatalog d) (docNodes d)]))"
    by (intro returned_first_error_append returned_validateDocumentCatalogValues)
  then show ?thesis by (simp add: Document_validate_def es_def)
qed

end
