(* ===== verification/Op_Graph.thy ===== *)
theory Op_Graph
  imports Validation_Safety
begin

text \<open>
  The block graph of the batch validator: its tree invariant, kept by every accepted operation, and
  that validation of a batch always returns.
\<close>

section \<open>Graphs as block tables\<close>

abbreviation graph_parents :: "graph \<Rightarrow> BlockID \<rightharpoonup> BlockID" where
  "graph_parents g \<equiv> map_of (graph_links g)"

lemma map_fst_graph_links [simp]: "map fst (graph_links g) = map fst g"
  by (simp add: graph_links_def case_prod_beta o_def)

lemma graph_parents_eq: "graph_parents g b = map_option gbParent (map_of g b)"
  by (induction g) (auto simp: graph_links_def)

lemma dom_graph_parents [simp]: "dom (graph_parents g) = dom (map_of g)"
  by (auto simp: dom_def graph_parents_eq)

lemma graph_block_nonempty: "tree_ok (graph_parents g) \<Longrightarrow> map_of g b \<noteq> None \<Longrightarrow> b \<noteq> ''''"
  unfolding tree_ok_def dom_graph_parents by (auto simp only: domIff)

lemma map_of_update: "map_of (AList.update k x g) = (map_of g)(k \<mapsto> x)"
  by (rule update_conv')

lemma graph_parents_update:
  "graph_parents (AList.update k x g) = (graph_parents g)(k \<mapsto> gbParent x)"
  by (rule ext) (simp add: graph_parents_eq map_of_update)

lemma map_of_filter_key: "map_of (filter (\<lambda>(k, x). P k) g) = map_of g |` {k. P k}"
  by (induction g) (auto simp: restrict_map_def fun_eq_iff)

lemma graph_at_Some: "map_of g b = Some x \<Longrightarrow> graph_at g b = x"
  by (simp add: graph_at_def)

lemma foldl_update_keys: "distinct (map fst m) \<Longrightarrow>
   distinct (map fst (foldl (\<lambda>m x. AList.update (key x) (f x) m) m xs))"
  by (induction xs arbitrary: m) (simp_all add: AList.distinct_update)

lemma foldl_update_lookup:
  "distinct (map key xs) \<Longrightarrow> map_of (foldl (\<lambda>m x. AList.update (key x) (f x) m) m xs) b =
     (case find (\<lambda>x. key x = b) xs of Some x \<Rightarrow> Some (f x) | None \<Rightarrow> map_of m b)"
proof (induction xs arbitrary: m)
  case Nil
  then show ?case by simp
next
  case (Cons x xs)
  have "key y \<noteq> key x" if "y \<in> set xs" for y using Cons.prems that by (auto simp: image_iff)
  then have "find (\<lambda>y. key y = key x) xs = None" by (simp add: find_None_iff)
  with Cons show ?case by (auto simp: map_of_update split: option.splits)
qed

lemma newOperationGraph_lookup:
  "distinct (map nodeID nodes) \<Longrightarrow> map_of (newOperationGraph nodes) b =
     map_option newGraphBlock (find (\<lambda>n. nodeID n = b) nodes)"
  by (simp add: newOperationGraph_def foldl_update_lookup split: option.split)

lemma node_parents_find:
  "node_parents nodes b = map_option nodeParent (find (\<lambda>n. nodeID n = b) nodes)"
  by (induction nodes) (auto simp: node_links_def)

lemma newOperationGraph_parents:
  "distinct (map nodeID nodes) \<Longrightarrow> graph_parents (newOperationGraph nodes) = node_parents nodes"
  by (rule ext) (simp add: graph_parents_eq newOperationGraph_lookup node_parents_find
      newGraphBlock_def option.map_comp o_def)

lemma graph_parents_same:
  "map_of g b = Some y \<Longrightarrow> gbParent x = gbParent y \<Longrightarrow> graph_parents (AList.update b x g) = graph_parents g"
  by (auto simp: graph_parents_update graph_parents_eq)

interpretation gr: block_table graph_parents "\<lambda>g. distinct (map fst g)" "graph_insert k" graph_move graph_delete
  for k
proof unfold_locales
  fix g :: graph and b p
  assume d: "distinct (map fst g)"
  show "graph_parents (graph_insert k b p g) = (graph_parents g)(b \<mapsto> p)"
    by (simp add: graph_insert_def graph_parents_update)
  show "graph_parents (graph_move b p g) = (graph_parents g)(b \<mapsto> p)"
    by (simp add: graph_move_def graph_parents_update)
  have "graph_parents (graph_delete b g) = graph_parents g |` {x. x \<notin> subtree_closure (graph_links g) {b}}"
    by (rule ext) (simp add: graph_parents_eq graph_delete_def map_of_filter_key restrict_map_def)
  then show "graph_parents (graph_delete b g) =
      graph_parents g |` {x. \<not> (x = b \<or> ancestor (graph_parents g) b x)}"
    using subtree_closure_descendants [of "graph_links g" b] d by simp
qed

definition graph_ok :: "graph \<Rightarrow> bool" where
  "graph_ok g \<longleftrightarrow>
     distinct (map fst g) \<and> tree_ok (graph_parents g) \<and> (\<forall>b x. map_of g b = Some x \<longrightarrow> gbRelations x \<noteq> None)"

lemma graph_ok_update:
  assumes "graph_ok g" and "map_of g b = Some y" and "gbParent x = gbParent y" and "gbRelations x \<noteq> None"
  shows "graph_ok (AList.update b x g)"
proof -
  have "(graph_parents g)(b \<mapsto> gbParent x) = graph_parents g"
    using assms(2,3) by (auto simp: graph_parents_eq)
  then show ?thesis
    using assms(1,4)
    by (auto simp: graph_ok_def graph_parents_update map_of_update AList.distinct_update split: if_splits)
qed

lemma newOperationGraph_ok: "nodes_ok nodes \<Longrightarrow> graph_ok (newOperationGraph nodes)"
proof -
  assume "nodes_ok nodes"
  then have d: "distinct (map nodeID nodes)" and t: "tree_ok (node_parents nodes)" by (auto simp: nodes_ok_def)
  have "distinct (map fst (newOperationGraph nodes))"
    unfolding newOperationGraph_def by (rule foldl_update_keys) simp
  moreover have "gbRelations x \<noteq> None" if "map_of (newOperationGraph nodes) b = Some x" for b x
    using that by (auto simp: newOperationGraph_lookup [OF d] newGraphBlock_def)
  ultimately show ?thesis
    using t by (auto simp: graph_ok_def newOperationGraph_parents [OF d])
qed

section \<open>Accepted checks\<close>

lemma first_issue_None: "first_issue cs = Inr None \<longleftrightarrow> (\<forall>c \<in> set cs. c = Inr None)"
  by (induction cs rule: first_issue.induct) auto

lemma issue_if_None: "issue_if b i = Inr None \<longleftrightarrow> \<not> b"
  by (simp add: issue_if_def)

lemma issue_on_None: "issue_on mk e = Inr None \<longleftrightarrow> e = None"
  by (auto simp: issue_on_def split: option.splits error.splits)

lemmas verdict_simps = first_issue_None issue_if_None issue_on_None

lemma requireSource_None: "requireSource v h = Inr None \<longleftrightarrow> vRole v = LocaleRoleSource"
  by (cases "vRole v") (simp_all add: requireSource_def issue_if_None)

lemma validatePlacement_None:
  "validatePlacement v b p a = Inr None \<longleftrightarrow>
     (p = '''' \<or> map_of (vGraph v) p \<noteq> None) \<and>
     (a = '''' \<or> (\<exists>x. map_of (vGraph v) a = Some x \<and> gbParent x = p \<and> a \<noteq> b))"
  by (auto simp: validatePlacement_def verdict_simps split: option.splits)

lemma validateInsertBlock_None:
  "validateInsertBlock v p = Inr None \<longleftrightarrow>
     vRole v = LocaleRoleSource \<and> validateStableID ''block ID'' (ibBlock p) maxHandleLength = None \<and>
     map_of (vGraph v) (ibBlock p) = None \<and> hasBlockKind (vCatalog v) (ibKind p) \<and>
     validatePlacement v (ibBlock p) (ibParent p) (ibAfter p) = Inr None"
  by (auto simp: validateInsertBlock_def Let_def verdict_simps requireSource_None)

lemma validateDeleteBlock_None:
  "validateDeleteBlock v b = Inr None \<longleftrightarrow> vRole v = LocaleRoleSource \<and> map_of (vGraph v) b \<noteq> None"
  by (auto simp: validateDeleteBlock_def verdict_simps requireSource_None)

lemma validateReplaceBlockKind_None:
  "validateReplaceBlockKind v p = Inr None \<longleftrightarrow>
     vRole v = LocaleRoleSource \<and> map_of (vGraph v) (rbBlock p) \<noteq> None \<and> hasBlockKind (vCatalog v) (rbKind p)"
  by (auto simp: validateReplaceBlockKind_def Let_def verdict_simps requireSource_None)

lemma isDescendant_iff:
  assumes "graph_ok (vGraph v)" and "b \<noteq> ''''"
  shows "isDescendant v c b = Inr (c = b \<or> ancestor (graph_parents (vGraph v)) b c)"
proof -
  let ?g = "vGraph v" and ?par = "graph_parents (vGraph v)"
  have t: "tree_ok ?par" and d: "distinct (map fst ?g)" using assms(1) by (auto simp: graph_ok_def)
  then obtain n where h: "height ?par c n" using rooted_height by (metis tree_ok_def forest_def)
  have "finite (dom ?par)" using t by (simp add: tree_ok_def)
  then have "n \<le> card (dom ?par)" by (rule height_bound [OF h])
  also have "dom ?par = fst ` set ?g" unfolding dom_graph_parents by (rule dom_map_of_conv_image_fst)
  also have "card (fst ` set ?g) \<le> length ?g" by (metis card_length length_map list.set_map)
  finally have "n < Suc (length ?g)" by simp
  with ancestor_walk_returns [OF h] obtain r
    where r: "ancestor_walk (Suc (length ?g)) ?par c b = Some r" by blast
  have "r \<longleftrightarrow> c = b \<or> ancestor ?par b c"
    by (rule ancestor_walk_sound [OF r]) (use t assms(2) in \<open>auto simp: tree_ok_def\<close>)
  with r show ?thesis by (simp add: isDescendant_def)
qed

lemma validateMoveBlock_None:
  assumes "graph_ok (vGraph v)"
  shows "validateMoveBlock v p = Inr None \<longleftrightarrow>
     vRole v = LocaleRoleSource \<and> map_of (vGraph v) (mbBlock p) \<noteq> None \<and>
     mbParent p \<noteq> mbBlock p \<and> \<not> ancestor (graph_parents (vGraph v)) (mbBlock p) (mbParent p) \<and>
     validatePlacement v (mbBlock p) (mbParent p) (mbAfter p) = Inr None"
proof (cases "map_of (vGraph v) (mbBlock p) = None")
  case True
  then show ?thesis
    by (simp add: validateMoveBlock_def Let_def first_issue_None issue_if_None requireSource_None)
next
  case False
  have "mbBlock p \<noteq> ''''"
    using assms False graph_block_nonempty unfolding graph_ok_def by blast
  then have "isDescendant v (mbParent p) (mbBlock p) =
      Inr (mbParent p = mbBlock p \<or> ancestor (graph_parents (vGraph v)) (mbBlock p) (mbParent p))"
    by (rule isDescendant_iff [OF assms])
  with False show ?thesis
    by (auto simp: validateMoveBlock_def Let_def first_issue_None issue_if_None requireSource_None)
qed

lemma requireRelationItem_None:
  "requireRelationItem v b r i = Inr None \<longleftrightarrow>
     (\<exists>x items k. map_of (vGraph v) b = Some x \<and> map_of (relation_map x) r = Some items \<and> map_of items i = Some k)"
  by (auto simp: requireRelationItem_def verdict_simps split: option.splits)

lemma validateRelationPlacement_None:
  "validateRelationPlacement v b r i a = Inr None \<longleftrightarrow>
     (\<exists>x. map_of (vGraph v) b = Some x \<and>
        (a = '''' \<or> a \<noteq> i \<and> map_of (relation_items x r) a \<noteq> None))"
  by (auto simp: validateRelationPlacement_def verdict_simps split: option.splits)

lemma validateInsertRelationItem_None:
  "validateInsertRelationItem v p = Inr None \<longleftrightarrow>
     vRole v = LocaleRoleSource \<and>
     validateRelationOperationIDs (iriBlock p) (iriRelation p) (iriItem p) = None \<and>
     validateStableID ''relation item kind'' (iriKind p) maxKindLength = None \<and>
     validateAfterRelationItem (iriAfter p) = None \<and>
     (\<exists>x allowed. map_of (vGraph v) (iriBlock p) = Some x \<and>
        relationItemKinds (vCatalog v) (gbKind x) (iriRelation p) = Some allowed \<and> iriKind p \<in> set allowed) \<and>
     \<not> relationItemExists v (iriItem p) \<and>
     validateRelationPlacement v (iriBlock p) (iriRelation p) (iriItem p) (iriAfter p) = Inr None"
  by (auto simp: validateInsertRelationItem_def Let_def verdict_simps requireSource_None split: option.splits)

lemma validateDeleteRelationItem_None:
  "validateDeleteRelationItem v p = Inr None \<longleftrightarrow>
     vRole v = LocaleRoleSource \<and>
     validateRelationOperationIDs (driBlock p) (driRelation p) (driItem p) = None \<and>
     requireRelationItem v (driBlock p) (driRelation p) (driItem p) = Inr None"
  by (auto simp: validateDeleteRelationItem_def Let_def verdict_simps requireSource_None)

lemma validateMoveRelationItem_NoneD:
  "validateMoveRelationItem v p = Inr None \<Longrightarrow>
     vRole v = LocaleRoleSource \<and>
     validateRelationOperationIDs (mriBlock p) (mriRelation p) (mriItem p) = None \<and>
     validateRelationOperationIDs (mriTargetBlock p) (mriTarget p) (mriItem p) = None \<and>
     requireRelationItem v (mriBlock p) (mriRelation p) (mriItem p) = Inr None \<and>
     validateRelationPlacement v (mriTargetBlock p) (mriTarget p) (mriItem p) (mriAfter p) = Inr None"
  by (auto simp: validateMoveRelationItem_def Let_def verdict_simps requireSource_None)

section \<open>Accepted operations keep the graph well formed\<close>

lemma put_item_Some:
  "gbRelations x \<noteq> None \<Longrightarrow> \<exists>y. put_item r i k x = Inr y \<and> gbParent y = gbParent x \<and> gbRelations y \<noteq> None"
  by (auto simp: put_item_def)

lemma drop_item_parent [simp]: "gbParent (drop_item r i x) = gbParent x" "gbKind (drop_item r i x) = gbKind x"
  by (auto simp: drop_item_def split: option.splits)

lemma drop_item_relations: "gbRelations x \<noteq> None \<Longrightarrow> gbRelations (drop_item r i x) \<noteq> None"
  by (auto simp: drop_item_def split: option.splits)

lemma insert_graph_ok:
  assumes g: "graph_ok (vGraph v)" and "validateInsertBlock v p = Inr None"
  shows "graph_ok (graph_insert (ibKind p) (ibBlock p) (ibParent p) (vGraph v))"
proof -
  let ?g = "vGraph v"
  have b: "ibBlock p \<notin> dom (graph_parents ?g)" "ibBlock p \<noteq> ''''"
    and p: "ibParent p = '''' \<or> ibParent p \<in> dom (graph_parents ?g)"
    unfolding dom_graph_parents domIff
    using assms(2) validateStableID_nonempty [of "''block ID''" "ibBlock p" maxHandleLength]
    by (simp_all add: validateInsertBlock_None validatePlacement_None)
  have "tree_ok (graph_parents (graph_insert (ibKind p) (ibBlock p) (ibParent p) ?g))"
    using g b p by (intro gr.insert_tree_ok) (auto simp: graph_ok_def)
  then show ?thesis
    using g by (auto simp: graph_ok_def graph_insert_def map_of_update AList.distinct_update split: if_splits)
qed

lemma move_graph_ok:
  assumes g: "graph_ok (vGraph v)" and "validateMoveBlock v p = Inr None"
  shows "graph_ok (graph_move (mbBlock p) (mbParent p) (vGraph v))"
proof -
  let ?g = "vGraph v"
  have b: "map_of ?g (mbBlock p) \<noteq> None" and n: "mbParent p \<noteq> mbBlock p"
    and a: "\<not> ancestor (graph_parents ?g) (mbBlock p) (mbParent p)"
    and p: "mbParent p = '''' \<or> map_of ?g (mbParent p) \<noteq> None"
    using assms(2) by (auto simp: validateMoveBlock_None [OF g] validatePlacement_None)
  have "tree_ok (graph_parents (graph_move (mbBlock p) (mbParent p) ?g))"
    by (rule gr.move_tree_ok)
      (use g b n a p in \<open>simp_all only: graph_ok_def dom_graph_parents domIff not_False_eq_True\<close>)
  then show ?thesis
    using g b
    by (auto simp: graph_ok_def graph_move_def map_of_update AList.distinct_update graph_at_def
        split: if_splits option.splits)
qed

lemma delete_graph_ok: "graph_ok g \<Longrightarrow> graph_ok (graph_delete b g)"
proof -
  assume g: "graph_ok g"
  then have "tree_ok (graph_parents (graph_delete b g))" by (intro gr.delete_tree_ok) (auto simp: graph_ok_def)
  then show ?thesis
    using g by (auto simp: graph_ok_def graph_delete_def Let_def map_of_filter_key restrict_map_def
        distinct_map_filter split: if_splits)
qed

lemma accept_graph_ok:
  assumes g: "graph_ok (vGraph v)" and ok: "validator_validate K v op = Inr None"
  shows "\<exists>v'. accept v op = Inr v' \<and> graph_ok (vGraph v') \<and> vCatalog v' = vCatalog v \<and>
    vRole v' = vRole v \<and> vBatchSize v' = vBatchSize v"
proof -
  have shape: "validateShape op = None"
    using ok by (auto simp: validator_validate_def split: option.splits)
  have rel: "\<exists>x. map_of (vGraph v) b = Some x \<and> graph_at (vGraph v) b = x \<and> gbRelations x \<noteq> None"
    if "map_of (vGraph v) b \<noteq> None" for b
    using that g by (auto simp: graph_ok_def graph_at_def)
  have "\<exists>h. applyGraphEffect op (vGraph v) = Inr h \<and> graph_ok h"
  proof (cases "opKind op")
    case OperationInsertBlock
    with ok shape show ?thesis
      by (auto simp: validator_validate_def applyGraphEffect_def deref_def insert_graph_ok [OF g]
          split: option.splits)
  next
    case OperationDeleteBlock
    with ok shape show ?thesis
      by (auto simp: validator_validate_def applyGraphEffect_def deref_def delete_graph_ok [OF g]
          split: option.splits)
  next
    case OperationMoveBlock
    with ok shape show ?thesis
      by (auto simp: validator_validate_def applyGraphEffect_def deref_def move_graph_ok [OF g]
          split: option.splits)
  next
    case OperationReplaceBlockKind
    with ok shape obtain p where p: "opReplaceBlockKind op = Some p" "map_of (vGraph v) (rbBlock p) \<noteq> None"
      by (auto simp: validator_validate_def deref_def validateReplaceBlockKind_None split: option.splits)
    from rel [OF p(2)] obtain x where "map_of (vGraph v) (rbBlock p) = Some x"
      "graph_at (vGraph v) (rbBlock p) = x" "gbRelations x \<noteq> None" by blast
    then have "graph_ok (AList.update (rbBlock p) ((graph_at (vGraph v) (rbBlock p))\<lparr>gbKind := rbKind p\<rparr>) (vGraph v))"
      by (intro graph_ok_update [OF g]) auto
    then show ?thesis using OperationReplaceBlockKind p by (simp add: applyGraphEffect_def)
  next
    case OperationInsertRelationItem
    with ok shape obtain p where p: "opInsertRelationItem op = Some p" "map_of (vGraph v) (iriBlock p) \<noteq> None"
      by (auto simp: validator_validate_def deref_def validateInsertRelationItem_None split: option.splits)
    from rel [OF p(2)] obtain x where x: "map_of (vGraph v) (iriBlock p) = Some x"
      "graph_at (vGraph v) (iriBlock p) = x" "gbRelations x \<noteq> None" by blast
    from put_item_Some [OF x(3)] obtain y where y: "put_item (iriRelation p) (iriItem p) (iriKind p) x = Inr y"
      "gbParent y = gbParent x" "gbRelations y \<noteq> None" by blast
    from graph_ok_update [OF g x(1) y(2,3)] show ?thesis
      using OperationInsertRelationItem p x y by (simp add: applyGraphEffect_def)
  next
    case OperationDeleteRelationItem
    with ok shape obtain p where p: "opDeleteRelationItem op = Some p" "map_of (vGraph v) (driBlock p) \<noteq> None"
      by (auto simp: validator_validate_def deref_def validateDeleteRelationItem_None
          requireRelationItem_None split: option.splits)
    from rel [OF p(2)] obtain x where x: "map_of (vGraph v) (driBlock p) = Some x"
      "graph_at (vGraph v) (driBlock p) = x" "gbRelations x \<noteq> None" by blast
    from graph_ok_update [OF g x(1), of "drop_item (driRelation p) (driItem p) x"] show ?thesis
      using OperationDeleteRelationItem p x drop_item_relations [OF x(3)] by (simp add: applyGraphEffect_def)
  next
    case OperationMoveRelationItem
    with ok shape obtain p where p: "opMoveRelationItem op = Some p" and ok': "validateMoveRelationItem v p = Inr None"
      by (auto simp: validator_validate_def deref_def split: option.splits)
    then have src: "map_of (vGraph v) (mriBlock p) \<noteq> None" and tgt: "map_of (vGraph v) (mriTargetBlock p) \<noteq> None"
      using validateMoveRelationItem_NoneD [OF ok']
      by (auto simp: requireRelationItem_None validateRelationPlacement_None)
    from rel [OF src] obtain x where x: "map_of (vGraph v) (mriBlock p) = Some x"
      "graph_at (vGraph v) (mriBlock p) = x" "gbRelations x \<noteq> None" by blast
    let ?g' = "AList.update (mriBlock p) (drop_item (mriRelation p) (mriItem p) x) (vGraph v)"
    have g': "graph_ok ?g'"
      by (rule graph_ok_update [OF g x(1)]) (simp_all only: drop_item_parent drop_item_relations [OF x(3)] not_False_eq_True)
    obtain z where z: "map_of ?g' (mriTargetBlock p) = Some z"
      using tgt by (cases "mriTargetBlock p = mriBlock p") (auto simp: map_of_update)
    then have zr: "graph_at ?g' (mriTargetBlock p) = z" "gbRelations z \<noteq> None"
      using g' by (auto simp: graph_at_def graph_ok_def)
    let ?k = "case map_of (relation_items x (mriRelation p)) (mriItem p) of None \<Rightarrow> '''' | Some k \<Rightarrow> k"
    from put_item_Some [OF zr(2)] obtain y where y: "put_item (mriTarget p) (mriItem p) ?k z = Inr y"
      "gbParent y = gbParent z" "gbRelations y \<noteq> None" by blast
    from graph_ok_update [OF g' z y(2,3)] show ?thesis
      using OperationMoveRelationItem p x zr y by (simp add: applyGraphEffect_def graph_move_item_def Let_def)
  qed (use g in \<open>simp_all add: applyGraphEffect_def\<close>)
  then show ?thesis by (auto simp: accept_def Let_def)
qed

section \<open>Validation always returns\<close>

definition issued :: "verdict \<Rightarrow> bool" where
  "issued c \<longleftrightarrow> (\<exists>i. c = Inr i)"

named_theorems issued_intros \<open>checks that end in a verdict\<close>

lemma issued_basic [simp, issued_intros]: "issued (Inr i)" "issued (issue_if b j)" "issued (requireSource v h)"
  by (simp_all add: issued_def issue_if_def requireSource_def)

lemma issued_issue_on [issued_intros]: "returned e \<Longrightarrow> issued (issue_on mk e)"
  by (auto simp: issued_def issue_on_def returned_def split: option.splits error.splits)

lemma issued_first_issue [issued_intros]: "list_all issued cs \<Longrightarrow> issued (first_issue cs)"
  by (induction cs rule: first_issue.induct) (auto simp: issued_def)

lemma issued_list [issued_intros]:
  "list_all issued []" "issued x \<Longrightarrow> list_all issued xs \<Longrightarrow> list_all issued (x # xs)"
  by simp_all

lemma issued_option [issued_intros]:
  "(x = None \<Longrightarrow> issued a) \<Longrightarrow> (\<And>y. x = Some y \<Longrightarrow> issued (f y)) \<Longrightarrow>
   issued (case x of None \<Rightarrow> a | Some y \<Rightarrow> f y)"
  by (cases x) auto

lemma issued_sum [issued_intros]:
  "(\<And>y. x = Inl y \<Longrightarrow> issued (f y)) \<Longrightarrow> (\<And>y. x = Inr y \<Longrightarrow> issued (g y)) \<Longrightarrow> issued (case_sum f g x)"
  by (cases x) auto

lemma issued_if [issued_intros]:
  "(b \<Longrightarrow> issued x) \<Longrightarrow> (\<not> b \<Longrightarrow> issued y) \<Longrightarrow> issued (if b then x else y)"
  by simp

lemma issued_placements [simp, issued_intros]:
  "issued (validatePlacement v b p a)" "issued (validateRelationPlacement v b r i a)"
  "issued (requireRelationItem v b r i)" "issued (requireFileSlot v t)"
  unfolding validatePlacement_def validateRelationPlacement_def requireRelationItem_def requireFileSlot_def
  by (intro issued_intros)+

lemma returned_relation_ids [simp, returned_intros]:
  "returned (validateRelationOperationIDs b r i)" "returned (validateAfterRelationItem i)"
  unfolding validateRelationOperationIDs_def validateAfterRelationItem_def by (intro returned_intros)+

lemma objectFieldSchema_ok: "schema_ok s \<Longrightarrow> objectFieldSchema s f = Inr t \<Longrightarrow> schema_ok t"
  by (auto simp: objectFieldSchema_def split: if_splits option.splits
      dest!: find_SomeD intro: schema_ok_object)

lemma listItemSchema_ok: "schema_ok s \<Longrightarrow> listItemSchema s i = Inr t \<Longrightarrow> schema_ok t"
  using schema_ok_list [of s]
  by (auto simp: listItemSchema_def split: if_splits option.splits ListIdentityKind.splits)

lemma schemaStep_ok: "schema_ok s \<Longrightarrow> schemaStep s seg = Inr t \<Longrightarrow> schema_ok t"
  by (cases "segField seg = ''''")
    (auto simp: schemaStep_def guard_error_Inr intro: objectFieldSchema_ok listItemSchema_ok)

lemma resolveNestedFieldRule_ok:
  assumes "rule_ok rule" and "resolveNestedFieldRule rule path = Inr r" and "rvSchema r = Some s"
  shows "schema_ok s"
proof -
  from assms(2,3) obtain t where t: "frSchema rule = Some t" "fold_result schemaStep t path = Inr s"
    by (auto simp: resolveNestedFieldRule_def and_then_Inr split: option.splits if_splits)
  have "schema_ok t" using assms(1) t(1) by (simp add: rule_ok_def)
  show ?thesis
    by (rule fold_result_invariant [of schema_ok, OF _ \<open>schema_ok t\<close> t(2)]) (rule schemaStep_ok)
qed

lemma validator_fieldRule_ok:
  assumes "Catalog_validate c = None" and "vCatalog v = newCatalogIndex c" and "validator_fieldRule v t = Inr rule"
  shows "rule_ok rule"
  using assms(3) catalogField_ok [OF assms(1)] relationField_ok [OF assms(1)]
  by (auto simp: validator_fieldRule_def assms(2) split: option.splits if_splits)

lemma issued_validateSetField:
  assumes "Catalog_validate c = None" and "vCatalog v = newCatalogIndex c"
  shows "issued (validateSetField K v p)"
proof -
  have "schema_ok s" if "resolveField v (sfTarget p) = Inr rule" "rvSchema rule = Some s" for rule s
  proof -
    from that(1) obtain r where "validator_fieldRule v (sfTarget p) = Inr r"
      "resolveNestedFieldRule r (tgtPath (sfTarget p)) = Inr rule"
      by (auto simp: resolveField_def split: option.splits sum.splits)
    with that(2) show ?thesis
      using validator_fieldRule_ok [OF assms] resolveNestedFieldRule_ok by blast
  qed
  then show ?thesis
    unfolding validateSetField_def Let_def
    by (intro issued_intros returned_Value_validate returned_validateValueForSchema)
qed

lemma issued_validator:
  assumes c: "Catalog_validate c = None" "vCatalog v = newCatalogIndex c" and g: "graph_ok (vGraph v)"
  shows "issued (validator_validate K v op)"
proof (cases "validateShape op")
  case (Some e)
  then show ?thesis by (simp add: validator_validate_def)
next
  case None
  have move: "issued (validateMoveBlock v p)" for p
  proof (cases "map_of (vGraph v) (mbBlock p) = None")
    case True
    then show ?thesis
      by (cases "vRole v") (simp_all add: validateMoveBlock_def Let_def requireSource_def issue_if_def)
  next
    case False
    then have "mbBlock p \<noteq> ''''" using g graph_block_nonempty unfolding graph_ok_def by blast
    from isDescendant_iff [OF g this] show ?thesis
      unfolding validateMoveBlock_def Let_def by (auto intro!: issued_intros)
  qed
  have rest: "issued (validateUnsetField v t)" "issued (validateInsertBlock v ib)"
    "issued (validateDeleteBlock v b)" "issued (validateReplaceBlockKind v rb)"
    "issued (validateInsertRelationItem v iri)" "issued (validateDeleteRelationItem v dri)"
    "issued (validateMoveRelationItem v mri)" "issued (validateAttachFile v af)"
    "issued (validateDetachFile v t)" "issued (validateTranslationLifecycle v kind)"
    for t ib b rb iri dri mri af kind
    unfolding validateUnsetField_def validateInsertBlock_def validateDeleteBlock_def
      validateReplaceBlockKind_def validateInsertRelationItem_def validateDeleteRelationItem_def
      validateMoveRelationItem_def validateAttachFile_def validateDetachFile_def
      validateTranslationLifecycle_def Let_def
    by (intro issued_intros returned_intros)+
  show ?thesis
    using None
    by (auto simp: validator_validate_def deref_def rest move issued_validateSetField [OF c]
        validateShape_def kindMatchesPayload_def split: OperationKind.splits if_splits option.splits)
qed

lemma validateRounds_returns:
  assumes "Catalog_validate c = None"
  shows "graph_ok (vGraph v) \<Longrightarrow> vCatalog v = newCatalogIndex c \<Longrightarrow> \<exists>issues. validateRounds K v n ops = Inr issues"
proof (induction ops arbitrary: v n)
  case Nil
  then show ?case by simp
next
  case (Cons op ops)
  let ?w = "v\<lparr>vIndex := int n\<rparr>"
  have g: "graph_ok (vGraph ?w)" and c: "vCatalog ?w = newCatalogIndex c" using Cons.prems by simp_all
  from issued_validator [OF assms c g] obtain r where r: "validator_validate K ?w op = Inr r"
    unfolding issued_def by blast
  show ?case
  proof (cases r)
    case (Some i)
    from Cons.IH [OF g c, of "Suc n"] r Some show ?thesis by (auto simp: Let_def)
  next
    case None
    with accept_graph_ok [OF g] r obtain w where w: "accept ?w op = Inr w" "graph_ok (vGraph w)"
      "vCatalog w = newCatalogIndex c" using c by metis
    from Cons.IH [OF w(2,3), of "Suc n"] r None w(1) show ?thesis by (auto simp: Let_def)
  qed
qed

lemma Document_validate_parts:
  "Document_validate K d = None \<Longrightarrow>
     Catalog_validate (docCatalog d) = None \<and> validateNodes K (docNodes d) = None \<and>
     validateDocumentCatalogValues K (docCatalog d) (docNodes d) = None \<and>
     validateLocaleState (Role d) (docLocaleExists d) (docTargetRevision d) = None"
  by (simp add: Document_validate_def first_error_None)

lemma newValidator_ok:
  assumes "Document_validate K d = None"
  shows "graph_ok (vGraph (newValidator d r))" "vCatalog (newValidator d r) = newCatalogIndex (docCatalog d)"
  using Document_validate_parts [OF assms] validateNodes_ok newOperationGraph_ok
  by (auto simp: newValidator_def)

lemma revisionConflict_returns:
  assumes "validateEnvelope r = None"
  shows "\<exists>c. revisionConflict code d r = Inr c"
proof -
  have "\<forall>op \<in> set (arOperations r). validateShape op = None"
    using assms by (simp add: validateEnvelope_def first_error_None check_all_None)
  from AffectedHandles_eq [OF this] show ?thesis by (simp add: revisionConflict_def)
qed

lemma ValidateOperations_total: "\<exists>res. ValidateOperations K d r = Inr res"
proof (cases "validateEnvelope r")
  case (Some e)
  then show ?thesis by (simp add: ValidateOperations_def Let_def)
next
  case env: None
  show ?thesis
  proof (cases "Document_validate K d")
    case (Some e)
    then obtain m where "e = Err m" using returned_Document_validate [of K d] by (auto simp: returned_def)
    then show ?thesis using env Some by (simp add: ValidateOperations_def Let_def)
  next
    case doc: None
    have "Catalog_validate (docCatalog d) = None" using Document_validate_parts [OF doc] by simp
    from validateRounds_returns [OF this newValidator_ok [OF doc]]
    obtain issues where "validateRounds K (newValidator d r) 0 (arOperations r) = Inr issues" by blast
    moreover obtain c1 c2 where "revisionConflict ConflictDocumentRevision d r = Inr c1"
      "revisionConflict ConflictTargetRevision d r = Inr c2"
      using revisionConflict_returns [OF env] by blast
    ultimately show ?thesis
      by (simp add: ValidateOperations_def Let_def env doc)
  qed
qed

end
