(* ===== verification/Tree_Refinement.thy ===== *)
theory Tree_Refinement
  imports Block_Order Op_Graph
begin

text \<open>
  The validator's graph and the mutated document describe the same block tree: every operation that
  is accepted and applied changes both parent maps alike, so the tree invariant the validator
  maintains holds of the mutated document.
\<close>

section \<open>Operations and the parent map\<close>

lemma links_same:
  "node_links a = node_links b \<Longrightarrow> distinct (map nodeID b) \<Longrightarrow> distinct (map nodeID a)"
  by (metis map_nodeID_links)

lemma replace_first_links:
  "find (\<lambda>m. nodeID m = nodeID n) nodes = Some old \<Longrightarrow> nodeParent n = nodeParent old \<Longrightarrow>
   node_links (replace_first (\<lambda>m. nodeID m = nodeID n) n nodes) = node_links nodes"
  unfolding node_links_def by (rule map_replace_first) (auto dest: find_SomeD)

lemma mutableNode_id: "mutableNode d b = Some n \<Longrightarrow> nodeID n = b"
  by (auto simp: mutableNode_def dest: find_SomeD)

lemma putNode_links:
  assumes "mutableNode d (nodeID n) = Some old" and "nodeParent n = nodeParent old"
  shows "node_links (docNodes (putNode d n)) = node_links (docNodes d)"
  using assms by (simp add: putNode_def replace_first_links mutableNode_def)

lemma putRelation_simps [simp]:
  "nodeID (putRelation r n) = nodeID n" "nodeParent (putRelation r n) = nodeParent n"
  "nodeKind (putRelation r n) = nodeKind n"
  by (simp_all add: putRelation_def)

lemma putRelationItem_simps [simp]:
  "nodeID (putRelationItem r i n) = nodeID n" "nodeParent (putRelationItem r i n) = nodeParent n"
  "nodeKind (putRelationItem r i n) = nodeKind n"
  by (simp_all add: putRelationItem_def split: option.split)

lemma mutableRelation_node:
  "mutableRelation d b r c = Inr (n, rel) \<Longrightarrow>
   \<exists>old. mutableNode d b = Some old \<and> nodeID n = b \<and> nodeParent n = nodeParent old"
  by (auto simp: mutableRelation_def Let_def mutableNode_id split: option.splits if_splits)

lemma putNode_relation_links:
  "mutableRelation d b r c = Inr (n, rel) \<Longrightarrow>
   node_links (docNodes (putNode d (putRelation rel' n))) = node_links (docNodes d)"
  using mutableRelation_node [of d b r c n rel] by (auto intro: putNode_links)

lemma mutateNodeFields_simps:
  "mutateNodeFields f w n = Inr n' \<Longrightarrow> nodeID n' = nodeID n \<and> nodeParent n' = nodeParent n \<and>
     nodeKind n' = nodeKind n \<and> nodeRelations n' = nodeRelations n \<and> nodeOrder n' = nodeOrder n"
  by (auto simp: mutateNodeFields_def and_then_Inr split: if_splits)

lemma mutateDocumentField_links:
  "mutateDocumentField m st t d = Inr d' \<Longrightarrow> node_links (docNodes d') = node_links (docNodes d)"
  by (auto simp: mutateDocumentField_def Let_def and_then_Inr mutableNode_id
      dest!: mutateNodeFields_simps intro!: putNode_links split: option.splits if_splits)

lemma mutateDocumentFile_links:
  "mutateDocumentFile t f at d = Inr d' \<Longrightarrow> node_links (docNodes d') = node_links (docNodes d)"
  by (auto simp: mutateDocumentFile_def mutableNode_id intro!: putNode_links
      split: option.splits if_splits)

lemma relation_links:
  "insertRelationItem iri d = Inr d' \<Longrightarrow> node_links (docNodes d') = node_links (docNodes d)"
  "deleteRelationItem dri d = Inr d' \<Longrightarrow> node_links (docNodes d') = node_links (docNodes d)"
  "moveRelationItem mri d = Inr d' \<Longrightarrow> node_links (docNodes d') = node_links (docNodes d)"
  by (auto simp: insertRelationItem_def deleteRelationItem_def moveRelationItem_def Let_def and_then_Inr
      putNode_relation_links split: if_splits)

lemma replaceBlockKind_links:
  "replaceBlockKind rb d = Inr d' \<Longrightarrow> node_links (docNodes d') = node_links (docNodes d)"
  by (auto simp: replaceBlockKind_def mutableNode_id intro!: putNode_links split: option.splits)

lemma deleteTranslation_links: "node_links (docNodes (deleteTranslation d)) = node_links (docNodes d)"
  by (simp add: deleteTranslation_def node_links_def)

lemma put_item_parent: "put_item r i k x = Inr y \<Longrightarrow> gbParent y = gbParent x"
  by (auto simp: put_item_def split: option.splits)

lemma move_item_parents:
  assumes v: "validateMoveRelationItem v p = Inr None"
    and h: "graph_move_item p (vGraph v) = Inr h"
  shows "graph_parents h = graph_parents (vGraph v)"
proof -
  from validateMoveRelationItem_NoneD [OF v] obtain x y where
    x: "map_of (vGraph v) (mriBlock p) = Some x" and y: "map_of (vGraph v) (mriTargetBlock p) = Some y"
    by (auto simp: requireRelationItem_None validateRelationPlacement_None)
  let ?g' = "AList.update (mriBlock p) (drop_item (mriRelation p) (mriItem p) x) (vGraph v)"
  have g': "graph_parents ?g' = graph_parents (vGraph v)" by (rule graph_parents_same [OF x]) simp
  obtain z where z: "map_of ?g' (mriTargetBlock p) = Some z"
    using y by (cases "mriTargetBlock p = mriBlock p") (auto simp: map_of_update)
  from h obtain w k where w: "put_item (mriTarget p) (mriItem p) k z = Inr w" and hw: "h = AList.update (mriTargetBlock p) w ?g'"
    using x z by (auto simp: graph_move_item_def Let_def graph_at_def and_then_Inr)
  show ?thesis using graph_parents_same [OF z put_item_parent [OF w]] g' by (simp add: hw)
qed

text \<open>The identifiers stay distinct, and the parent maps change alike.\<close>

lemma accepted_operation_tree:
  assumes g: "graph_ok (vGraph v)" and d: "distinct (map nodeID (docNodes d))"
    and same: "graph_parents (vGraph v) = node_parents (docNodes d)"
    and ok: "validator_validate K v op = Inr None" and acc: "accept v op = Inr v'"
    and app: "applyDocumentOperation d op = Inr d'"
  shows "distinct (map nodeID (docNodes d')) \<and> graph_parents (vGraph v') = node_parents (docNodes d')"
proof -
  have shape: "validateShape op = None"
    using ok by (auto simp: validator_validate_def split: option.splits)
  have dg: "distinct (map fst (vGraph v))" using g by (simp add: graph_ok_def)
  have doms: "dom (map_of (vGraph v)) = nodeID ` set (docNodes d)"
    using arg_cong [OF same, of dom] by simp
  from acc obtain h where h: "applyGraphEffect op (vGraph v) = Inr h" "vGraph v' = h"
    by (auto simp: accept_def and_then_Inr Let_def split: if_splits)
  show ?thesis
  proof (cases "opKind op")
    case OperationInsertBlock
    with ok shape obtain p where p: "opInsertBlock op = Some p" and v: "validateInsertBlock v p = Inr None"
      by (auto simp: validator_validate_def deref_def split: option.splits)
    have fresh: "ibBlock p \<notin> nodeID ` set (docNodes d)"
      using v doms by (auto simp: validateInsertBlock_None simp flip: doms)
    have d': "docNodes d' = insertBlock (ibKind p) (ibAfter p) (ibBlock p) (ibParent p) (docNodes d)"
      using app OperationInsertBlock p by (auto simp: applyDocumentOperation_def insertBlock_def)
    have h': "h = graph_insert (ibKind p) (ibBlock p) (ibParent p) (vGraph v)"
      using h OperationInsertBlock p by (simp add: applyGraphEffect_def)
    have "graph_parents h = node_parents (docNodes d')"
      using insertBlock_parents [OF d fresh] same by (simp add: d' h' graph_insert_def graph_parents_update)
    moreover have "distinct (map nodeID (docNodes d'))"
      using d fresh by (simp add: d' insertBlock_def newNode_def)
    ultimately show ?thesis using h(2) by simp
  next
    case OperationMoveBlock
    with ok shape obtain p where p: "opMoveBlock op = Some p" and v: "validateMoveBlock v p = Inr None"
      by (auto simp: validator_validate_def deref_def split: option.splits)
    have "map_of (vGraph v) (mbBlock p) \<noteq> None" using v validateMoveBlock_None [OF g] by blast
    then have b: "mbBlock p \<in> nodeID ` set (docNodes d)" unfolding doms [symmetric] domIff .
    have d': "docNodes d' = placeBlockAfter (docNodes d) (mbBlock p) (mbParent p) (mbAfter p)"
      using app OperationMoveBlock p by (auto simp: applyDocumentOperation_def)
    have h': "h = graph_move (mbBlock p) (mbParent p) (vGraph v)"
      using h OperationMoveBlock p by (simp add: applyGraphEffect_def)
    show ?thesis
      using placeBlockAfter_parents [OF b] same d h(2)
      by (simp add: d' h' graph_move_def graph_parents_update)
  next
    case OperationDeleteBlock
    with ok shape obtain b where b: "opDeleteBlock op = Some b"
      by (auto simp: validator_validate_def deref_def split: option.splits)
    have d': "docNodes d' = deleteBlockSubtree b (docNodes d)"
      using app OperationDeleteBlock b by (auto simp: applyDocumentOperation_def)
    have h': "h = graph_delete b (vGraph v)"
      using h OperationDeleteBlock b by (simp add: applyGraphEffect_def)
    show ?thesis
      using doc.parents_delete [OF d, of b] gr.parents_delete [OF dg, of b] same h(2)
        deleteBlockSubtree_ids [OF d] by (simp add: d' h')
  next
    case OperationReplaceBlockKind
    with ok shape obtain p x where p: "opReplaceBlockKind op = Some p" and x: "map_of (vGraph v) (rbBlock p) = Some x"
      by (auto simp: validator_validate_def deref_def validateReplaceBlockKind_None split: option.splits)
    have "node_links (docNodes d') = node_links (docNodes d)"
      using app OperationReplaceBlockKind p by (auto simp: applyDocumentOperation_def replaceBlockKind_links)
    moreover have "graph_parents h = graph_parents (vGraph v)"
    proof -
      have "h = AList.update (rbBlock p) (x\<lparr>gbKind := rbKind p\<rparr>) (vGraph v)"
        using h(1) OperationReplaceBlockKind p x by (simp add: applyGraphEffect_def graph_at_def)
      then show ?thesis using graph_parents_same [OF x] by simp
    qed
    ultimately show ?thesis using same d h(2) by (simp add: links_same)
  next
    case OperationInsertRelationItem
    with ok shape obtain p x where p: "opInsertRelationItem op = Some p" and x: "map_of (vGraph v) (iriBlock p) = Some x"
      by (auto simp: validator_validate_def deref_def validateInsertRelationItem_None split: option.splits)
    have "node_links (docNodes d') = node_links (docNodes d)"
      using app OperationInsertRelationItem p by (auto simp: applyDocumentOperation_def relation_links)
    moreover have "graph_parents h = graph_parents (vGraph v)"
    proof -
      obtain y where "put_item (iriRelation p) (iriItem p) (iriKind p) x = Inr y" "h = AList.update (iriBlock p) y (vGraph v)"
        using h(1) OperationInsertRelationItem p x by (auto simp: applyGraphEffect_def graph_at_def and_then_Inr)
      then show ?thesis using graph_parents_same [OF x put_item_parent] by simp
    qed
    ultimately show ?thesis using same d h(2) by (simp add: links_same)
  next
    case OperationDeleteRelationItem
    with ok shape obtain p x where p: "opDeleteRelationItem op = Some p" and x: "map_of (vGraph v) (driBlock p) = Some x"
      by (auto simp: validator_validate_def deref_def validateDeleteRelationItem_None
          requireRelationItem_None split: option.splits)
    have "node_links (docNodes d') = node_links (docNodes d)"
      using app OperationDeleteRelationItem p by (auto simp: applyDocumentOperation_def relation_links)
    moreover have "graph_parents h = graph_parents (vGraph v)"
    proof -
      have "h = AList.update (driBlock p) (drop_item (driRelation p) (driItem p) x) (vGraph v)"
        using h(1) OperationDeleteRelationItem p x by (simp add: applyGraphEffect_def graph_at_def)
      then show ?thesis using graph_parents_same [OF x] by simp
    qed
    ultimately show ?thesis using same d h(2) by (simp add: links_same)
  next
    case OperationMoveRelationItem
    with ok shape obtain p where p: "opMoveRelationItem op = Some p" and v: "validateMoveRelationItem v p = Inr None"
      by (auto simp: validator_validate_def deref_def split: option.splits)
    have "node_links (docNodes d') = node_links (docNodes d)"
      using app OperationMoveRelationItem p by (auto simp: applyDocumentOperation_def relation_links)
    moreover have "graph_parents h = graph_parents (vGraph v)"
      using h(1) OperationMoveRelationItem p by (simp add: applyGraphEffect_def move_item_parents [OF v])
    ultimately show ?thesis using same d h(2) by (simp add: links_same)
  qed (use h app same d in \<open>auto simp: applyDocumentOperation_def applyGraphEffect_def deref_def
      mutateDocumentField_links mutateDocumentFile_links deleteTranslation_links
      intro: links_same [OF mutateDocumentField_links] links_same [OF mutateDocumentFile_links]
        links_same [OF deleteTranslation_links]
      split: option.splits\<close>)
qed

section \<open>Batches\<close>

lemma accepted_batch_tree:
  "graph_ok (vGraph v) \<Longrightarrow> distinct (map nodeID (docNodes d)) \<Longrightarrow>
   graph_parents (vGraph v) = node_parents (docNodes d) \<Longrightarrow>
   validateRounds K v n ops = Inr [] \<Longrightarrow> fold_result applyDocumentOperation d ops = Inr d' \<Longrightarrow>
   nodes_ok (docNodes d')"
proof (induction ops arbitrary: v n d)
  case Nil
  then show ?case by (simp add: nodes_ok_def graph_ok_def)
next
  case (Cons op ops)
  let ?w = "v\<lparr>vIndex := int n\<rparr>"
  have g: "graph_ok (vGraph ?w)" using Cons.prems(1) by simp
  from Cons.prems(4) obtain w where ok: "validator_validate K ?w op = Inr None"
    and acc: "accept ?w op = Inr w" and rest: "validateRounds K w (Suc n) ops = Inr []"
    by (auto simp: Let_def and_then_Inr split: option.splits)
  from Cons.prems(5) obtain e where app: "applyDocumentOperation d op = Inr e"
    and rest': "fold_result applyDocumentOperation e ops = Inr d'" by (auto simp: and_then_Inr)
  have "graph_ok (vGraph w)" using accept_graph_ok [OF g ok] acc by auto
  moreover have "distinct (map nodeID (docNodes e)) \<and> graph_parents (vGraph w) = node_parents (docNodes e)"
    using Cons.prems(2,3) by (intro accepted_operation_tree [OF g _ _ ok acc app]) auto
  ultimately show ?case using Cons.IH rest rest' by blast
qed

lemma canonicalNodes_parents:
  assumes "nodes_ok nodes" and "canonicalNodes nodes = Inr r"
  shows "nodes_ok r \<and> node_parents r = node_parents nodes"
proof -
  have m: "mset r = mset (map canonicalNode nodes)"
    using canonicalNodes_forest [OF nodes_ok_forest [OF assms(1)]] assms(2) by auto
  have d: "distinct (map nodeID (map canonicalNode nodes))"
    using assms(1) by (simp add: nodes_ok_def o_def)
  have "node_parents r = node_parents (map canonicalNode nodes)" by (rule node_parents_perm [OF m d])
  also have "\<dots> = node_parents nodes" by (simp add: node_links_def o_def)
  finally have p: "node_parents r = node_parents nodes" .
  have "mset (map nodeID r) = mset (map nodeID (map canonicalNode nodes))" using m by (simp only: mset_map)
  then have "distinct (map nodeID r)" using d mset_eq_imp_distinct_iff by blast
  with p assms(1) show ?thesis by (simp add: nodes_ok_def)
qed

text \<open>An accepted batch: the request is well formed, current and free of issues.\<close>

lemma Valid_accepted:
  assumes "ValidateOperations K d r = Inr res" and "Valid res"
  shows "validateEnvelope r = None" "Document_validate K d = None"
    "docRevision d = arExpectedDocumentRevision r"
    "equalRevision (docTargetRevision d) (arExpectedTargetRevision r)"
    "docIdentity d = ApplyRequest_Identity r" "docLocale d = arLocale r"
    "validateRounds K (newValidator d r) 0 (arOperations r) = Inr []"
  using assms
  by (auto simp: ValidateOperations_def Let_def Valid_def and_then_Inr
      split: option.splits error.splits if_splits)

lemma DocumentAfterOperations_tree:
  assumes v: "ValidateOperations K d r = Inr res" "Valid res"
    and app: "DocumentAfterOperations d (arOperations r) = Inr d'"
  shows "nodes_ok (docNodes d')"
proof -
  have doc: "Document_validate K d = None" using Valid_accepted [OF v] by blast
  have nodes: "nodes_ok (docNodes d)" using Document_validate_parts [OF doc] validateNodes_ok by blast
  from app obtain cs e fs where cs: "canonicalNodes (docNodes d) = Inr cs"
    and e: "fold_result applyDocumentOperation (d\<lparr>docNodes := cs\<rparr>) (arOperations r) = Inr e"
    and fs: "canonicalNodes (docNodes e) = Inr fs" and d': "d' = e\<lparr>docNodes := fs\<rparr>"
    by (auto simp: DocumentAfterOperations_def and_then_Inr)
  have c: "nodes_ok cs" "node_parents cs = node_parents (docNodes d)"
    using canonicalNodes_parents [OF nodes cs] by auto
  have "nodes_ok (docNodes e)"
  proof (rule accepted_batch_tree)
    show "graph_ok (vGraph (newValidator d r))" by (rule newValidator_ok [OF doc])
    show "distinct (map nodeID (docNodes (d\<lparr>docNodes := cs\<rparr>)))" using c by (simp add: nodes_ok_def)
    show "graph_parents (vGraph (newValidator d r)) = node_parents (docNodes (d\<lparr>docNodes := cs\<rparr>))"
      using nodes c(2) by (simp add: newValidator_def nodes_ok_def newOperationGraph_parents)
  qed (fact Valid_accepted(7) [OF v] e)+
  from canonicalNodes_parents [OF this fs] show ?thesis by (simp add: d')
qed

end
