(* ===== verification/View_Refinement.thy ===== *)
theory View_Refinement
  imports Tree_Refinement
begin

text \<open>
  Functional refinement between the validator's graph and the document: the kind, the parent and
  the relation items of every block. The graph abstracts a document to this view, and every accepted
  operation other than a kind replacement has the same effect on both sides.
\<close>

section \<open>Views\<close>

type_synonym relation_view = "RelationID \<rightharpoonup> (RelationItemID \<rightharpoonup> RelationItemKind)"
type_synonym block_view = "BlockKind \<times> BlockID \<times> relation_view"

definition item_kinds :: "RelationItem list \<Rightarrow> RelationItemID \<rightharpoonup> RelationItemKind" where
  "item_kinds items i = map_option riKind (find (\<lambda>j. riID j = i) items)"

definition relations_view :: "Relation list \<Rightarrow> relation_view" where
  "relations_view rs r = map_option (\<lambda>s. item_kinds (relItems s)) (find (\<lambda>s. relID s = r) rs)"

definition node_view :: "Node \<Rightarrow> block_view" where
  "node_view n = (nodeKind n, nodeParent n, relations_view (nodeRelations n))"

definition nodes_view :: "Node list \<Rightarrow> BlockID \<rightharpoonup> block_view" where
  "nodes_view nodes b = map_option node_view (find (\<lambda>n. nodeID n = b) nodes)"

definition map_view :: "graphBlock \<Rightarrow> relation_view" where
  "map_view x r = map_option map_of (map_of (relation_map x) r)"

definition graph_view :: "graph \<Rightarrow> BlockID \<rightharpoonup> block_view" where
  "graph_view g b = map_option (\<lambda>x. (gbKind x, gbParent x, map_view x)) (map_of g b)"

definition items_ok :: "RelationItem list \<Rightarrow> bool" where
  "items_ok items \<longleftrightarrow> distinct (map riID items) \<and> '''' \<notin> riID ` set items"

definition relations_ok :: "Relation list \<Rightarrow> bool" where
  "relations_ok rs \<longleftrightarrow> distinct (map relID rs) \<and> (\<forall>r \<in> set rs. items_ok (relItems r))"

definition struct_ok :: "Node list \<Rightarrow> bool" where
  "struct_ok nodes \<longleftrightarrow> distinct (map nodeID nodes) \<and> '''' \<notin> nodeID ` set nodes \<and>
     (\<forall>n \<in> set nodes. relations_ok (nodeRelations n))"

section \<open>First matches\<close>

lemma find_map_key:
  "(\<And>x. key (f x) = key x) \<Longrightarrow> find (\<lambda>x. key x = k) (map f xs) = map_option f (find (\<lambda>x. key x = k) xs)"
  by (induction xs) auto

lemma find_append_key:
  "find P (xs @ ys) = (case find P xs of None \<Rightarrow> find P ys | Some x \<Rightarrow> Some x)"
  by (induction xs) auto

lemma find_filter_key:
  "find (\<lambda>x. key x = k) (filter (\<lambda>x. Q (key x)) xs) = (if Q k then find (\<lambda>x. key x = k) xs else None)"
  by (induction xs) auto

lemma find_mem_key: "distinct (map key xs) \<Longrightarrow> find (\<lambda>x. key x = k) xs = Some x \<longleftrightarrow> x \<in> set xs \<and> key x = k"
  using find_SomeD [of "\<lambda>x. key x = k" xs x] find_distinct_key [of key xs x] by auto

lemma find_perm_key:
  assumes "mset xs = mset ys" and "distinct (map key ys)"
  shows "find (\<lambda>x. key x = k) xs = find (\<lambda>x. key x = k) ys"
proof -
  have "mset (map key xs) = mset (map key ys)" using assms(1) by simp
  then have d: "distinct (map key xs)" using assms(2) mset_eq_imp_distinct_iff by blast
  have "find (\<lambda>x. key x = k) xs = Some x \<longleftrightarrow> find (\<lambda>x. key x = k) ys = Some x" for x
    by (simp add: find_mem_key [OF d] find_mem_key [OF assms(2)] mset_eq_setD [OF assms(1)])
  then show ?thesis by (metis option.exhaust)
qed

lemma find_replace_first_key:
  assumes "find (\<lambda>x. key x = k) xs \<noteq> None" and "key y = k"
  shows "find (\<lambda>x. key x = j) (replace_first (\<lambda>x. key x = k) y xs) =
    (if j = k then Some y else find (\<lambda>x. key x = j) xs)"
  using assms find_replace_first [of key k xs y] find_replace_first_other [of key y k j xs] by auto

section \<open>The view of a document\<close>

lemma nodes_view_map:
  "(\<And>n. nodeID (f n) = nodeID n) \<Longrightarrow> (\<And>n. node_view (f n) = node_view n) \<Longrightarrow>
   nodes_view (map f nodes) = nodes_view nodes"
  by (rule ext) (simp add: nodes_view_def find_map_key option.map_comp o_def)

lemma nodes_view_perm:
  assumes "mset ms = mset ns" and "distinct (map nodeID ns)"
  shows "nodes_view ms = nodes_view ns"
  by (rule ext) (simp only: nodes_view_def find_perm_key [OF assms])

lemma nodes_view_assign: "nodes_view (foldl assign_order nodes es) = nodes_view nodes"
proof (induction es arbitrary: nodes)
  case (Cons e es)
  have "nodes_view (assign_order nodes e) = nodes_view nodes"
    unfolding assign_order_def by (rule nodes_view_map) (simp_all add: node_view_def)
  with Cons.IH show ?case by simp
qed simp

definition with_parent :: "BlockID \<Rightarrow> block_view \<Rightarrow> block_view" where
  "with_parent p v = (fst v, p, snd (snd v))"

lemma nodes_view_place:
  "nodes_view (placeBlockAfter nodes b p a) x =
     (if x = b then map_option (with_parent p) (nodes_view nodes b) else nodes_view nodes x)"
proof -
  let ?f = "\<lambda>n. if nodeID n = b then n\<lparr>nodeParent := p, nodeOrder := 0\<rparr> else n"
  have "nodes_view (placeBlockAfter nodes b p a) x = nodes_view (map ?f nodes) x"
    unfolding placeBlockAfter_def Let_def nodes_view_assign reparent_def ..
  also have "\<dots> = map_option (\<lambda>n. node_view (?f n)) (find (\<lambda>n. nodeID n = x) nodes)"
    unfolding nodes_view_def by (subst find_map_key) (simp_all add: option.map_comp o_def)
  also have "\<dots> = (if x = b then map_option (with_parent p) (nodes_view nodes b) else nodes_view nodes x)"
    by (cases "find (\<lambda>n. nodeID n = x) nodes")
      (auto simp: nodes_view_def node_view_def with_parent_def dest: find_SomeD)
  finally show ?thesis .
qed

lemma nodes_view_number: "nodes_view (number_orders c nodes) = nodes_view nodes"
proof -
  have "nodes_view (number_orders c nodes) x = nodes_view nodes x" for x
    by (induction nodes arbitrary: c) (simp_all add: nodes_view_def node_view_def)
  then show ?thesis by (rule ext)
qed

lemma nodes_view_delete:
  assumes "distinct (map nodeID nodes)"
  shows "nodes_view (deleteBlockSubtree b nodes) = nodes_view nodes |` {x. x \<notin> subtree nodes b}"
proof -
  let ?k = "filter (\<lambda>n. nodeID n \<notin> subtree nodes b) nodes"
  have "nodes_view (renumberBlockOrders ?k) = nodes_view (sort_key sibling_key ?k)"
    unfolding renumberBlockOrders_def by (rule nodes_view_number)
  also have "\<dots> = nodes_view ?k" by (rule nodes_view_perm) (simp_all add: distinct_map_filter assms)
  finally show ?thesis
    unfolding deleteBlockSubtree_eq [OF assms]
    by (auto simp: nodes_view_def restrict_map_def find_filter_key [where Q = "\<lambda>x. x \<notin> subtree nodes b"])
qed

lemma nodes_view_append:
  "nodeID n \<notin> nodeID ` set nodes \<Longrightarrow> nodes_view (nodes @ [n]) = (nodes_view nodes)(nodeID n \<mapsto> node_view n)"
proof -
  assume "nodeID n \<notin> nodeID ` set nodes"
  then have "find (\<lambda>m. nodeID m = nodeID n) nodes = None" by (auto simp: find_None_iff image_iff)
  then show ?thesis by (auto simp: nodes_view_def find_append_key split: option.split)
qed

lemma nodes_view_put:
  assumes "mutableNode d (nodeID n) \<noteq> None"
  shows "nodes_view (docNodes (putNode d n)) = (nodes_view (docNodes d))(nodeID n \<mapsto> node_view n)"
  using assms by (auto simp: putNode_def nodes_view_def mutableNode_def find_replace_first_key)

lemma mutableNode_view: "mutableNode d b = Some n \<Longrightarrow> nodes_view (docNodes d) b = Some (node_view n)"
  by (simp add: mutableNode_def nodes_view_def)

lemma nodes_view_put_same:
  assumes "mutableNode d (nodeID n) = Some old" and "node_view n = node_view old"
  shows "nodes_view (docNodes (putNode d n)) = nodes_view (docNodes d)"
  using nodes_view_put [of d n] assms mutableNode_view [OF assms(1)] by auto

section \<open>The view of the relations\<close>

lemma item_kinds_map:
  "(\<And>i. riID (f i) = riID i) \<Longrightarrow> (\<And>i. riKind (f i) = riKind i) \<Longrightarrow> item_kinds (map f items) = item_kinds items"
  by (rule ext) (simp add: item_kinds_def find_map_key option.map_comp o_def)

lemma item_kinds_perm:
  assumes "mset is = mset js" and "distinct (map riID js)"
  shows "item_kinds is = item_kinds js"
  by (rule ext) (simp only: item_kinds_def find_perm_key [OF assms])

lemma item_kinds_unordered: "item_kinds (map unordered items) = item_kinds items"
  by (rule item_kinds_map) (simp_all add: unordered_def)

lemma item_kinds_renumber: "item_kinds (renumberRelationOrders items) = item_kinds items"
proof -
  have "map unordered (renumberRelationOrders items) = map unordered items"
    by (rule renumberRelationOrders_map) (simp add: unordered_def)
  then show ?thesis by (metis item_kinds_unordered)
qed

lemma items_ok_renumber [simp]: "items_ok (renumberRelationOrders items) = items_ok items"
  unfolding items_ok_def set_map [symmetric] renumberRelationOrders_ids ..

lemma item_kinds_remove:
  "item_kinds (filter (\<lambda>i. riID i \<noteq> x) items) = (item_kinds items)(x := None)"
  by (rule ext) (simp add: item_kinds_def find_filter_key [where Q = "\<lambda>y. y \<noteq> x"])

lemma placeRelationItemAfter_drop:
  assumes "riID new = x"
  shows "placeRelationItemAfter x a (items @ [new]) =
    placeRelationItemAfter x a (filter (\<lambda>i. riID i \<noteq> x) items @ [new])"
proof -
  have m: "moved_item x (js @ [new]) = new" for js
    using assms by (simp add: moved_item_def)
  have "concat (map (\<lambda>c. if riID c = x then [] else if riID c = a then [c, new] else [c]) items) =
      concat (map (\<lambda>c. if riID c = x then [] else if riID c = a then [c, new] else [c])
        (filter (\<lambda>i. riID i \<noteq> x) items))"
    by (induction items) auto
  with m assms show ?thesis by (simp add: placeRelationItemAfter_def Let_def)
qed

text \<open>Placing an item in a relation that may already hold its identifier.\<close>

lemma place_new_item:
  assumes ok: "items_ok items" and new: "riID new = x" "x \<noteq> ''''"
    and a: "a = '''' \<or> a \<in> riID ` set items \<and> a \<noteq> x"
  shows "item_kinds (placeRelationItemAfter x a (items @ [new])) = (item_kinds items)(x \<mapsto> riKind new)"
    and "items_ok (placeRelationItemAfter x a (items @ [new]))"
proof -
  let ?js = "filter (\<lambda>i. riID i \<noteq> x) items @ [new]"
  let ?p = "placeRelationItemAfter x a ?js"
  have drop: "placeRelationItemAfter x a (items @ [new]) = ?p"
    by (rule placeRelationItemAfter_drop [OF new(1)])
  have ready: "ready_item ?js x a"
    using ok new a by (auto simp: ready_item_def items_ok_def distinct_map_filter)
  have d: "distinct (map riID ?js)" using ready by (simp only: ready_item_def)
  have "item_kinds ?p = item_kinds (map unordered ?p)" by (rule item_kinds_unordered [symmetric])
  also have "\<dots> = item_kinds (map unordered ?js)"
    by (rule item_kinds_perm [OF placeRelationItemAfter_mset [OF ready]]) (use d in \<open>simp add: unordered_def o_def\<close>)
  also have "\<dots> = item_kinds ?js" by (rule item_kinds_unordered)
  also have "\<dots> = (item_kinds items)(x \<mapsto> riKind new)"
    using new by (auto simp: fun_eq_iff item_kinds_def find_append_key
        find_filter_key [where Q = "\<lambda>y. y \<noteq> x"] split: option.split)
  finally show "item_kinds (placeRelationItemAfter x a (items @ [new])) = (item_kinds items)(x \<mapsto> riKind new)"
    unfolding drop .
  have "distinct (item_sequence ?p)"
    by (rule items.place_distinct [OF ready]) (use d in \<open>simp only: item_sequence_def\<close>)
  moreover have "set (item_sequence ?p) = insert x (set (item_sequence ?js))" by (rule items.place_members [OF ready])
  moreover have "'''' \<notin> insert x (set (item_sequence ?js))"
    using ok new by (auto simp: items_ok_def item_sequence_def)
  ultimately have "items_ok ?p" unfolding items_ok_def item_sequence_def set_map by argo
  then show "items_ok (placeRelationItemAfter x a (items @ [new]))"
    unfolding drop .
qed

lemma relations_view_replace:
  assumes "find (\<lambda>s. relID s = relID r) rs \<noteq> None"
  shows "relations_view (replace_first (\<lambda>s. relID s = relID r) r rs) =
    (relations_view rs)(relID r \<mapsto> item_kinds (relItems r))"
  using assms by (auto simp: relations_view_def find_replace_first_key)

lemma relations_ok_replace:
  assumes ok: "relations_ok rs" and r: "find (\<lambda>s. relID s = relID r) rs \<noteq> None" and "items_ok (relItems r)"
  shows "relations_ok (replace_first (\<lambda>s. relID s = relID r) r rs)"
proof -
  from r obtain s where s: "find (\<lambda>s. relID s = relID r) rs = Some s" by blast
  then have "map relID (replace_first (\<lambda>s. relID s = relID r) r rs) = map relID rs"
    using find_SomeD [OF s] by (intro map_replace_first [OF s]) simp
  moreover have "set (replace_first (\<lambda>s. relID s = relID r) r rs) \<subseteq> insert r (set rs)" by (rule set_replace_first)
  ultimately show ?thesis using ok assms(3) by (auto simp: relations_ok_def)
qed

definition or_empty :: "('a \<rightharpoonup> 'b) option \<Rightarrow> 'a \<rightharpoonup> 'b" where
  "or_empty m = (case m of None \<Rightarrow> Map.empty | Some f \<Rightarrow> f)"

lemma mutableRelation_view:
  assumes m: "mutableRelation d b r c = Inr (n, rel)" and ok: "struct_ok (docNodes d)"
  shows "\<exists>old. mutableNode d b = Some old \<and> nodeID n = b \<and> nodeKind n = nodeKind old \<and>
    nodeParent n = nodeParent old \<and> relID rel = r \<and>
    find (\<lambda>s. relID s = r) (nodeRelations n) = Some rel \<and> relations_ok (nodeRelations n) \<and>
    relations_view (nodeRelations n) =
      (relations_view (nodeRelations old))(r \<mapsto> or_empty (relations_view (nodeRelations old) r)) \<and>
    item_kinds (relItems rel) = or_empty (relations_view (nodeRelations old) r)"
proof -
  from m obtain old where old: "mutableNode d b = Some old"
    by (auto simp: mutableRelation_def split: option.splits)
  then have mem: "old \<in> set (docNodes d)" "nodeID old = b"
    by (auto simp: mutableNode_def dest: find_SomeD)
  then have rok: "relations_ok (nodeRelations old)" using ok by (simp add: struct_ok_def)
  show ?thesis
  proof (cases "find (\<lambda>s. relID s = r) (nodeRelations old)")
    case (Some s)
    then have "n = old" "rel = s" using m old by (simp_all add: mutableRelation_def)
    with Some old mem rok show ?thesis
      by (auto simp: relations_view_def or_empty_def dest: find_SomeD)
  next
    case None
    then have n: "n = old\<lparr>nodeRelations := nodeRelations old @ [\<lparr>relID = r, relItems = []\<rparr>]\<rparr>"
      and rel: "rel = \<lparr>relID = r, relItems = []\<rparr>"
      using m old by (auto simp: mutableRelation_def Let_def split: if_splits)
    have "r \<notin> relID ` set (nodeRelations old)" using None by (auto simp: find_None_iff)
    then have "relations_ok (nodeRelations n)" using rok by (auto simp: n relations_ok_def items_ok_def)
    moreover have "relations_view (nodeRelations n) = (relations_view (nodeRelations old))(r \<mapsto> Map.empty)"
      using None
      by (auto simp: fun_eq_iff n relations_view_def find_append_key item_kinds_def split: option.split)
    ultimately show ?thesis
      using None old mem by (simp add: n rel relations_view_def or_empty_def find_append_key item_kinds_def fun_eq_iff)
  qed
qed

lemma struct_ok_put:
  assumes ok: "struct_ok (docNodes d)" and n: "mutableNode d (nodeID n) \<noteq> None" and r: "relations_ok (nodeRelations n)"
  shows "struct_ok (docNodes (putNode d n))"
proof -
  from n obtain old where old: "find (\<lambda>m. nodeID m = nodeID n) (docNodes d) = Some old"
    by (auto simp: mutableNode_def)
  have ids: "map nodeID (docNodes (putNode d n)) = map nodeID (docNodes d)"
    using find_SomeD [OF old] by (simp add: putNode_def map_replace_first [OF old])
  have "set (docNodes (putNode d n)) \<subseteq> insert n (set (docNodes d))"
    by (simp add: putNode_def set_replace_first)
  then have "\<forall>m \<in> set (docNodes (putNode d n)). relations_ok (nodeRelations m)"
    using ok r by (auto simp: struct_ok_def)
  moreover have "nodeID ` set (docNodes (putNode d n)) = nodeID ` set (docNodes d)"
    using arg_cong [OF ids, of set] by simp
  ultimately show ?thesis using ok ids by (simp add: struct_ok_def)
qed

text \<open>Writing a relation back with other items.\<close>

lemma put_relation_step:
  assumes ok: "struct_ok (docNodes d)" and m: "mutableRelation d b r c = Inr (n, rel)"
    and items: "items_ok js"
  shows "\<exists>old. mutableNode d b = Some old \<and>
    nodes_view (docNodes (putNode d (putRelation (rel\<lparr>relItems := js\<rparr>) n))) =
      (nodes_view (docNodes d))(b \<mapsto> (nodeKind old, nodeParent old,
         (relations_view (nodeRelations old))(r \<mapsto> item_kinds js)))"
    and "struct_ok (docNodes (putNode d (putRelation (rel\<lparr>relItems := js\<rparr>) n)))"
proof -
  from mutableRelation_view [OF m ok] obtain old where old: "mutableNode d b = Some old" "nodeID n = b"
    "nodeKind n = nodeKind old" "nodeParent n = nodeParent old" "relID rel = r"
    "find (\<lambda>s. relID s = r) (nodeRelations n) = Some rel" "relations_ok (nodeRelations n)"
    "relations_view (nodeRelations n) =
      (relations_view (nodeRelations old))(r \<mapsto> or_empty (relations_view (nodeRelations old) r))" by blast
  let ?rel = "rel\<lparr>relItems := js\<rparr>"
  let ?n = "putRelation ?rel n"
  have f: "find (\<lambda>s. relID s = relID ?rel) (nodeRelations n) \<noteq> None" using old by simp
  have mn: "mutableNode d (nodeID ?n) \<noteq> None" using old by simp
  have "relations_view (nodeRelations ?n) = (relations_view (nodeRelations old))(r \<mapsto> item_kinds js)"
    using relations_view_replace [OF f] old by (simp add: putRelation_def)
  then have "node_view ?n = (nodeKind old, nodeParent old, (relations_view (nodeRelations old))(r \<mapsto> item_kinds js))"
    using old by (simp add: node_view_def)
  then show "\<exists>old. mutableNode d b = Some old \<and>
    nodes_view (docNodes (putNode d ?n)) = (nodes_view (docNodes d))(b \<mapsto> (nodeKind old, nodeParent old,
         (relations_view (nodeRelations old))(r \<mapsto> item_kinds js)))"
    using nodes_view_put [OF mn] old by auto
  have "relations_ok (nodeRelations ?n)"
    using relations_ok_replace [OF old(7) f] items by (simp add: putRelation_def)
  from struct_ok_put [OF ok mn this] show "struct_ok (docNodes (putNode d ?n))" .
qed

section \<open>The view of the graph\<close>

lemma graph_view_update:
  "graph_view (AList.update b x g) = (graph_view g)(b \<mapsto> (gbKind x, gbParent x, map_view x))"
  by (rule ext) (simp add: graph_view_def map_of_update)

lemma map_view_put:
  assumes "put_item r i k x = Inr y"
  shows "gbKind y = gbKind x \<and> gbParent y = gbParent x \<and>
    map_view y = (map_view x)(r \<mapsto> (or_empty (map_view x r))(i \<mapsto> k))"
  using assms
  by (auto simp: put_item_def fun_eq_iff map_view_def relation_map_def relation_items_def or_empty_def
      map_of_update split: option.splits)

lemma map_view_drop:
  "map_view (drop_item r i x) =
     (case map_view x r of None \<Rightarrow> map_view x | Some m \<Rightarrow> (map_view x)(r \<mapsto> m(i := None)))"
proof -
  have "map_of (AList.delete i items) = (map_of items)(i := None)" for items :: "(RelationItemID \<times> RelationItemKind) list"
    by (rule delete_conv')
  then show ?thesis
    by (auto simp: drop_item_def fun_eq_iff map_view_def map_of_update relation_map_def split: option.splits)
qed

lemma newOperationGraph_view:
  assumes "struct_ok nodes"
  shows "graph_view (newOperationGraph nodes) = nodes_view nodes"
proof
  fix b
  have d: "distinct (map nodeID nodes)" using assms by (simp add: struct_ok_def)
  show "graph_view (newOperationGraph nodes) b = nodes_view nodes b"
  proof (cases "find (\<lambda>n. nodeID n = b) nodes")
    case None
    then show ?thesis by (simp add: graph_view_def nodes_view_def newOperationGraph_lookup [OF d])
  next
    case (Some n)
    then have ok: "relations_ok (nodeRelations n)" using assms by (auto simp: struct_ok_def dest: find_SomeD)
    have "map_view (newGraphBlock n) r = relations_view (nodeRelations n) r" for r
    proof (cases "find (\<lambda>s. relID s = r) (nodeRelations n)")
      case None
      with ok show ?thesis
        by (simp add: map_view_def relation_map_def newGraphBlock_def foldl_update_lookup relations_ok_def relations_view_def)
    next
      case (Some s)
      then have "distinct (map riID (relItems s))" using ok by (auto simp: relations_ok_def items_ok_def dest: find_SomeD)
      then have "map_of (newRelationItems (relItems s)) = item_kinds (relItems s)"
        by (intro ext) (simp add: newRelationItems_def foldl_update_lookup item_kinds_def split: option.split)
      with Some ok show ?thesis
        by (simp add: map_view_def relation_map_def newGraphBlock_def foldl_update_lookup relations_ok_def relations_view_def)
    qed
    then have "map_view (newGraphBlock n) = relations_view (nodeRelations n)" by (rule ext)
    with Some show ?thesis
      by (simp add: graph_view_def nodes_view_def newOperationGraph_lookup [OF d] node_view_def newGraphBlock_def)
  qed
qed

end
