(* ===== verification/Op_Simulation.thy ===== *)
theory Op_Simulation
  imports View_Refinement
begin

text \<open>
  Step-by-step simulation: an operation the validator accepts has the same effect on the validator's
  graph and on the document, and its application does not fail. Replacing a block kind is the
  exception (the graph keeps the relations the document drops), and so are writes below the top level
  of a field, which need the value to have the shape the catalog declares.
\<close>

section \<open>Simulated states\<close>

definition simulates :: "graph \<Rightarrow> Document \<Rightarrow> bool" where
  "simulates g d \<longleftrightarrow> struct_ok (docNodes d) \<and> graph_view g = nodes_view (docNodes d)"

lemma simulates_block:
  assumes "simulates g d" and "map_of g b = Some x"
  shows "\<exists>n. mutableNode d b = Some n \<and> n \<in> set (docNodes d) \<and> nodeID n = b \<and> gbKind x = nodeKind n \<and>
    gbParent x = nodeParent n \<and> map_view x = relations_view (nodeRelations n) \<and> relations_ok (nodeRelations n)"
proof -
  have "graph_view g b = nodes_view (docNodes d) b" using assms(1) by (simp add: simulates_def)
  then obtain n where n: "find (\<lambda>n. nodeID n = b) (docNodes d) = Some n"
    and v: "node_view n = (gbKind x, gbParent x, map_view x)"
    using assms(2) by (cases "find (\<lambda>n. nodeID n = b) (docNodes d)") (simp_all add: graph_view_def nodes_view_def)
  with find_SomeD [OF n] assms(1) show ?thesis
    by (auto simp: mutableNode_def node_view_def simulates_def struct_ok_def)
qed

lemma simulates_absent: "simulates g d \<Longrightarrow> map_of g b = None \<Longrightarrow> b \<notin> nodeID ` set (docNodes d)"
proof -
  assume s: "simulates g d" and n: "map_of g b = None"
  have "graph_view g b = nodes_view (docNodes d) b" using s by (simp add: simulates_def)
  then have "find (\<lambda>n. nodeID n = b) (docNodes d) = None" using n by (simp add: graph_view_def nodes_view_def)
  then show ?thesis by (auto simp: find_None_iff)
qed

lemma simulates_parents: "simulates g d \<Longrightarrow> graph_parents g = node_parents (docNodes d)"
proof
  fix b assume "simulates g d"
  then have "map_option (fst \<circ> snd) (graph_view g b) = map_option (fst \<circ> snd) (nodes_view (docNodes d) b)"
    by (simp add: simulates_def)
  then show "graph_parents g b = node_parents (docNodes d) b"
    by (simp add: graph_view_def nodes_view_def graph_parents_eq node_parents_find node_view_def option.map_comp o_def)
qed

lemma struct_ok_cong:
  "map (\<lambda>n. (nodeID n, nodeRelations n)) ms = map (\<lambda>n. (nodeID n, nodeRelations n)) ns \<Longrightarrow>
   struct_ok ns \<Longrightarrow> struct_ok ms"
proof -
  assume e: "map (\<lambda>n. (nodeID n, nodeRelations n)) ms = map (\<lambda>n. (nodeID n, nodeRelations n)) ns"
    and ok: "struct_ok ns"
  have ids: "map nodeID ms = map nodeID ns"
    using arg_cong [OF e, of "map fst"] by (simp add: o_def)
  have rels: "map nodeRelations ms = map nodeRelations ns"
    using arg_cong [OF e, of "map snd"] by (simp add: o_def)
  have "nodeID ` set ms = nodeID ` set ns" "nodeRelations ` set ms = nodeRelations ` set ns"
    using arg_cong [OF ids, of set] arg_cong [OF rels, of set] by simp_all
  then have "\<forall>n \<in> set ms. nodeRelations n \<in> nodeRelations ` set ns" by auto
  then show ?thesis using ok ids \<open>nodeID ` set ms = nodeID ` set ns\<close> by (fastforce simp: struct_ok_def)
qed

lemma struct_ok_place: "struct_ok nodes \<Longrightarrow> struct_ok (placeBlockAfter nodes b p a)"
proof (rule struct_ok_cong)
  have "map (\<lambda>n. (nodeID n, nodeRelations n)) (foldl assign_order ns es) = map (\<lambda>n. (nodeID n, nodeRelations n)) ns" for ns es
    by (induction es arbitrary: ns) (simp_all add: assign_order_def o_def)
  then show "map (\<lambda>n. (nodeID n, nodeRelations n)) (placeBlockAfter nodes b p a) = map (\<lambda>n. (nodeID n, nodeRelations n)) nodes"
    by (simp add: placeBlockAfter_def Let_def reparent_def o_def)
qed

lemma struct_ok_delete:
  assumes "struct_ok nodes"
  shows "struct_ok (deleteBlockSubtree b nodes)"
proof -
  have d: "distinct (map nodeID nodes)" using assms by (simp add: struct_ok_def)
  let ?k = "filter (\<lambda>n. nodeID n \<notin> subtree nodes b) nodes"
  have k: "struct_ok (sort_key sibling_key ?k)"
    using assms by (auto simp: struct_ok_def distinct_map inj_on_def)
  have "map (\<lambda>n. (nodeID n, nodeRelations n)) (number_orders c ns) = map (\<lambda>n. (nodeID n, nodeRelations n)) ns" for c ns
    by (induction ns arbitrary: c) simp_all
  from struct_ok_cong [OF this k] show ?thesis
    by (simp add: deleteBlockSubtree_eq [OF d] renumberBlockOrders_def)
qed

section \<open>Blocks\<close>

lemma insert_simulates:
  assumes s: "simulates g d" and fresh: "map_of g b = None" and b: "b \<noteq> ''''"
  shows "simulates (graph_insert k b p g) (d\<lparr>docNodes := insertBlock k a b p (docNodes d)\<rparr>)"
proof -
  let ?n = "newNode b k p"
  have nb: "nodeID ?n \<notin> nodeID ` set (docNodes d)"
    using simulates_absent [OF s fresh] by (simp add: newNode_def)
  have id: "nodeID ?n = b" by (simp add: newNode_def)
  have "node_view ?n = (k, p, Map.empty)"
    by (simp add: node_view_def newNode_def relations_view_def fun_eq_iff)
  then have "nodes_view (insertBlock k a b p (docNodes d)) = (nodes_view (docNodes d))(b \<mapsto> (k, p, Map.empty))"
    unfolding insertBlock_def by (auto simp: fun_eq_iff nodes_view_place nodes_view_append [OF nb] id with_parent_def)
  moreover have "graph_view (graph_insert k b p g) = (graph_view g)(b \<mapsto> (k, p, Map.empty))"
    by (simp add: graph_insert_def graph_view_update map_view_def relation_map_def fun_eq_iff)
  moreover have "struct_ok (docNodes d @ [?n])"
    using s nb b id by (auto simp: simulates_def struct_ok_def newNode_def relations_ok_def)
  then have "struct_ok (insertBlock k a b p (docNodes d))" unfolding insertBlock_def by (rule struct_ok_place)
  ultimately show ?thesis using s by (simp add: simulates_def)
qed

lemma move_simulates:
  assumes s: "simulates g d" and b: "map_of g b = Some x"
  shows "simulates (graph_move b p g) (d\<lparr>docNodes := placeBlockAfter (docNodes d) b p a\<rparr>)"
proof -
  from simulates_block [OF s b] obtain n where n: "mutableNode d b = Some n" "gbKind x = nodeKind n"
    "map_view x = relations_view (nodeRelations n)" by blast
  have "graph_view (graph_move b p g) = (graph_view g)(b \<mapsto> (nodeKind n, p, relations_view (nodeRelations n)))"
    using b n by (simp add: graph_move_def graph_at_def graph_view_update map_view_def relation_map_def fun_eq_iff)
  moreover have "nodes_view (placeBlockAfter (docNodes d) b p a) =
      (nodes_view (docNodes d))(b \<mapsto> (nodeKind n, p, relations_view (nodeRelations n)))"
    using mutableNode_view [OF n(1)] by (auto simp: fun_eq_iff nodes_view_place with_parent_def node_view_def)
  ultimately show ?thesis using s struct_ok_place by (simp add: simulates_def)
qed

lemma delete_simulates:
  assumes s: "simulates g d" and g: "distinct (map fst g)"
  shows "simulates (graph_delete b g) (d\<lparr>docNodes := deleteBlockSubtree b (docNodes d)\<rparr>)"
proof -
  have d: "distinct (map nodeID (docNodes d))" using s by (simp add: simulates_def struct_ok_def)
  have "subtree_closure (graph_links g) {b} = subtree (docNodes d) b"
    using subtree_closure_descendants [of "graph_links g" b] g by (simp add: subtree_def simulates_parents [OF s])
  then have "graph_view (graph_delete b g) = graph_view g |` {x. x \<notin> subtree (docNodes d) b}"
    by (auto simp: fun_eq_iff graph_view_def graph_delete_def map_of_filter_key restrict_map_def)
  then show ?thesis
    using s nodes_view_delete [OF d] struct_ok_delete by (simp add: simulates_def)
qed

section \<open>Relation items\<close>

lemma item_kinds_mem: "item_kinds items i \<noteq> None \<longleftrightarrow> i \<in> riID ` set items"
  by (auto simp: item_kinds_def find_None_iff)

lemma or_empty_Some [simp]: "or_empty (Some m) = m"
  by (simp add: or_empty_def)

lemma relation_items_view: "map_of (relation_items x r) = or_empty (map_view x r)"
  by (auto simp: relation_items_def map_view_def or_empty_def split: option.splits)

lemma mutableRelation_create: "mutableNode d b \<noteq> None \<Longrightarrow> \<exists>n rel. mutableRelation d b r True = Inr (n, rel)"
  by (auto simp: mutableRelation_def Let_def split: option.splits)

lemma put_new_item_simulates:
  assumes s: "simulates g d" and b: "map_of g b = Some x" and put: "put_item r i k x = Inr y"
    and new: "riID new = i" "riKind new = k" "i \<noteq> ''''"
    and a: "a = '''' \<or> a \<noteq> i \<and> map_of (relation_items x r) a \<noteq> None"
  shows "\<exists>n rel. mutableRelation d b r True = Inr (n, rel) \<and>
    simulates (AList.update b y g)
      (putNode d (putRelation (rel\<lparr>relItems := placeRelationItemAfter i a (relItems rel @ [new])\<rparr>) n))"
proof -
  from simulates_block [OF s b] obtain m where m: "mutableNode d b = Some m" "gbKind x = nodeKind m"
    "gbParent x = nodeParent m" "map_view x = relations_view (nodeRelations m)" by blast
  have ok: "struct_ok (docNodes d)" using s by (simp add: simulates_def)
  from mutableRelation_create [of d b r] m obtain n rel where rel: "mutableRelation d b r True = Inr (n, rel)" by auto
  from mutableRelation_view [OF rel ok] m
  have kinds: "item_kinds (relItems rel) = or_empty (map_view x r)"
    and iok: "items_ok (relItems rel)" by (auto simp: relations_ok_def dest: find_SomeD)
  have a': "a = '''' \<or> a \<in> riID ` set (relItems rel) \<and> a \<noteq> i"
    using a unfolding relation_items_view kinds [symmetric] item_kinds_mem by blast
  let ?js = "placeRelationItemAfter i a (relItems rel @ [new])"
  have js: "item_kinds ?js = (or_empty (map_view x r))(i \<mapsto> k)" "items_ok ?js"
    using place_new_item [OF iok new(1) new(3) a'] new(2) kinds by auto
  from put_relation_step [OF ok rel js(2)] m js(1) map_view_put [OF put] s
  have "simulates (AList.update b y g) (putNode d (putRelation (rel\<lparr>relItems := ?js\<rparr>) n))"
    by (auto simp: simulates_def graph_view_update)
  with rel show ?thesis by blast
qed

lemma drop_item_simulates:
  assumes s: "simulates g d" and b: "map_of g b = Some x" and r: "map_of (relation_map x) r = Some items"
  shows "\<exists>n rel. mutableRelation d b r False = Inr (n, rel) \<and> items_ok (relItems rel) \<and>
    item_kinds (relItems rel) = map_of items \<and>
    simulates (AList.update b (drop_item r i x) g)
      (putNode d (putRelation (rel\<lparr>relItems := renumberRelationOrders (filter (\<lambda>j. riID j \<noteq> i) (relItems rel))\<rparr>) n))"
proof -
  from simulates_block [OF s b] obtain m where m: "mutableNode d b = Some m" "gbKind x = nodeKind m"
    "gbParent x = nodeParent m" "map_view x = relations_view (nodeRelations m)" by blast
  have ok: "struct_ok (docNodes d)" using s by (simp add: simulates_def)
  have view: "map_view x r = Some (map_of items)" using r by (simp add: map_view_def)
  then obtain rel where f: "find (\<lambda>s. relID s = r) (nodeRelations m) = Some rel"
    using m by (auto simp: relations_view_def)
  then have rel: "mutableRelation d b r False = Inr (m, rel)" using m by (simp add: mutableRelation_def)
  from mutableRelation_view [OF rel ok] m view
  have kinds: "item_kinds (relItems rel) = map_of items" and iok: "items_ok (relItems rel)"
    by (auto simp: relations_ok_def dest: find_SomeD)
  let ?js = "renumberRelationOrders (filter (\<lambda>j. riID j \<noteq> i) (relItems rel))"
  have js: "item_kinds ?js = (map_of items)(i := None)" "items_ok ?js"
  proof -
    show "item_kinds ?js = (map_of items)(i := None)" by (simp add: item_kinds_renumber item_kinds_remove kinds)
    have "items_ok (filter (\<lambda>j. riID j \<noteq> i) (relItems rel))"
      using iok by (auto simp: items_ok_def distinct_map_filter)
    then show "items_ok ?js" by simp
  qed
  from put_relation_step [OF ok rel js(2)] m js(1) s view
  have "simulates (AList.update b (drop_item r i x) g) (putNode d (putRelation (rel\<lparr>relItems := ?js\<rparr>) m))"
    by (auto simp: simulates_def graph_view_update map_view_drop)
  with rel iok kinds show ?thesis by blast
qed

section \<open>Fields and files\<close>

lemma holds_item_find:
  assumes "distinct (map relID rs)" and "find (holds_item r i) rs = Some s"
  shows "find (\<lambda>s. relID s = r) rs = Some s \<and>
    replace_first (holds_item r i) t rs = replace_first (\<lambda>s. relID s = r) t rs"
  using assms
proof (induction rs)
  case Nil
  then show ?case by simp
next
  case (Cons u rs)
  show ?case
  proof (cases "holds_item r i u")
    case True
    then show ?thesis using Cons.prems by (auto simp: holds_item_def)
  next
    case False
    then have f: "find (holds_item r i) rs = Some s" using Cons.prems(2) by simp
    then have "relID s = r" "s \<in> set rs" using find_SomeD [OF f] by (auto simp: holds_item_def)
    then have "relID u \<noteq> r" using Cons.prems(1) by auto
    with False f Cons show ?thesis by simp
  qed
qed

lemma put_same_item:
  assumes ok: "struct_ok (docNodes d)" and n: "mutableNode d b = Some n"
    and i: "mutableRelationItem n r (riID j) = Some i" and k: "riKind j = riKind i"
  shows "nodes_view (docNodes (putNode d (putRelationItem r j n))) = nodes_view (docNodes d) \<and>
    struct_ok (docNodes (putNode d (putRelationItem r j n)))"
proof -
  have rok: "relations_ok (nodeRelations n)"
    using n ok by (auto simp: mutableNode_def struct_ok_def dest: find_SomeD)
  then have dr: "distinct (map relID (nodeRelations n))" by (simp add: relations_ok_def)
  from i obtain s where s: "find (holds_item r (riID j)) (nodeRelations n) = Some s"
    and si: "find (\<lambda>x. riID x = riID j) (relItems s) = Some i"
    by (auto simp: mutableRelationItem_def split: option.splits)
  have sr: "relID s = r" "s \<in> set (nodeRelations n)" using find_SomeD [OF s] by (auto simp: holds_item_def)
  let ?items = "replace_first (\<lambda>x. riID x = riID j) j (relItems s)"
  have ids: "map riID ?items = map riID (relItems s)"
    using find_SomeD [OF si] by (intro map_replace_first [OF si]) simp
  have "items_ok (relItems s)" using rok sr(2) by (simp add: relations_ok_def)
  then have iok: "items_ok ?items"
    unfolding items_ok_def set_map [symmetric] ids .
  have kinds: "item_kinds ?items = item_kinds (relItems s)"
  proof
    fix x
    show "item_kinds ?items x = item_kinds (relItems s) x"
      using si k by (auto simp: item_kinds_def find_replace_first_key)
  qed
  let ?s = "s\<lparr>relItems := ?items\<rparr>"
  have rels: "nodeRelations (putRelationItem r j n) = replace_first (\<lambda>t. relID t = relID ?s) ?s (nodeRelations n)"
    using s holds_item_find [OF dr s] sr by (simp add: putRelationItem_def)
  have f: "find (\<lambda>t. relID t = relID ?s) (nodeRelations n) = Some s"
    using holds_item_find [OF dr s] sr by simp
  have "relations_view (nodeRelations (putRelationItem r j n)) = relations_view (nodeRelations n)"
    unfolding rels using relations_view_replace [of ?s "nodeRelations n"] f kinds
    by (auto simp: relations_view_def fun_eq_iff)
  then have v: "node_view (putRelationItem r j n) = node_view n" by (simp add: node_view_def)
  have id: "nodeID (putRelationItem r j n) = b" using mutableNode_id [OF n] by simp
  have "relations_ok (nodeRelations (putRelationItem r j n))"
    unfolding rels using relations_ok_replace [OF rok, of ?s] f iok by simp
  then show ?thesis
    using nodes_view_put_same [of d "putRelationItem r j n" n] struct_ok_put [OF ok, of "putRelationItem r j n"] n v id
    by simp
qed

lemma put_same_relations:
  assumes ok: "struct_ok (docNodes d)" and n: "mutableNode d b = Some n"
    and m: "nodeID m = nodeID n" "nodeKind m = nodeKind n" "nodeParent m = nodeParent n" "nodeRelations m = nodeRelations n"
  shows "nodes_view (docNodes (putNode d m)) = nodes_view (docNodes d) \<and> struct_ok (docNodes (putNode d m))"
proof -
  have id: "nodeID m = b" using mutableNode_id [OF n] m by simp
  have "relations_ok (nodeRelations m)"
    using n ok m by (auto simp: mutableNode_def struct_ok_def dest: find_SomeD)
  then show ?thesis
    using nodes_view_put_same [of d m n] struct_ok_put [OF ok, of m] n m id by (simp add: node_view_def)
qed

lemma mutateItemFields_simps:
  "mutateItemFields f w i = Inr j \<Longrightarrow> riID j = riID i \<and> riKind j = riKind i"
  by (auto simp: mutateItemFields_def and_then_Inr split: if_splits)

lemma mutableRelationItem_id: "mutableRelationItem n r x = Some i \<Longrightarrow> riID i = x"
  by (auto simp: mutableRelationItem_def dest: find_SomeD split: option.splits)

lemma field_simulates:
  assumes s: "simulates g d" and f: "mutateDocumentField m st t d = Inr d'"
  shows "simulates g d'"
proof -
  have ok: "struct_ok (docNodes d)" using s by (simp add: simulates_def)
  from f obtain n where n: "mutableNode d (tgtBlock t) = Some n"
    by (auto simp: mutateDocumentField_def split: option.splits)
  let ?ch = "mutateFieldValues m st (tgtField t) (tgtPath t)"
  consider i w j where "relationItem t" "mutableRelationItem n (tgtRelation t) (tgtItem t) = Some i"
      "mutateItemFields ?ch w i = Inr j" "d' = putNode d (putRelationItem (tgtRelation t) j n)"
    | w n' where "mutateNodeFields ?ch w n = Inr n'" "d' = putNode d n'"
    using f n by (auto simp: mutateDocumentField_def Let_def and_then_Inr split: option.splits if_splits)
  then have "nodes_view (docNodes d') = nodes_view (docNodes d) \<and> struct_ok (docNodes d')"
  proof cases
    case 1
    have "riID j = tgtItem t" "riKind j = riKind i"
      using mutateItemFields_simps [OF 1(3)] mutableRelationItem_id [OF 1(2)] by auto
    with put_same_item [OF ok n, of "tgtRelation t" j i] 1 show ?thesis by simp
  next
    case 2
    with put_same_relations [OF ok n] mutateNodeFields_simps [OF 2(1)] show ?thesis by simp
  qed
  then show ?thesis using s by (simp add: simulates_def)
qed

lemma file_simulates:
  assumes s: "simulates g d" and f: "mutateDocumentFile t file at d = Inr d'"
  shows "simulates g d'"
proof -
  have ok: "struct_ok (docNodes d)" using s by (simp add: simulates_def)
  from f obtain n where n: "mutableNode d (tgtBlock t) = Some n"
    by (auto simp: mutateDocumentFile_def split: option.splits)
  consider i where "mutableRelationItem n (tgtRelation t) (tgtItem t) = Some i"
      "d' = putNode d (putRelationItem (tgtRelation t) (i\<lparr>riFiles := changeFiles t file at (riFiles i)\<rparr>) n)"
    | "d' = putNode d (n\<lparr>nodeFiles := changeFiles t file at (nodeFiles n)\<rparr>)"
    using f n by (auto simp: mutateDocumentFile_def split: option.splits if_splits)
  then have "nodes_view (docNodes d') = nodes_view (docNodes d) \<and> struct_ok (docNodes d')"
  proof cases
    case 1
    with put_same_item [OF ok n, of "tgtRelation t" "i\<lparr>riFiles := changeFiles t file at (riFiles i)\<rparr>" i]
      mutableRelationItem_id [OF 1(1)] show ?thesis by simp
  next
    case 2
    with put_same_relations [OF ok n] show ?thesis by simp
  qed
  then show ?thesis using s by (simp add: simulates_def)
qed

lemma translation_simulates:
  assumes s: "simulates g d"
  shows "simulates g (deleteTranslation d)" "simulates g (d\<lparr>docLocaleExists := e\<rparr>)"
proof -
  let ?it = "\<lambda>i. i\<lparr>riLocalized := []\<rparr>"
  let ?rel = "\<lambda>r. r\<lparr>relItems := map ?it (relItems r)\<rparr>"
  let ?f = "\<lambda>n. n\<lparr>nodeLocalized := [], nodeRelations := map ?rel (nodeRelations n)\<rparr>"
  have "relations_view (map ?rel rs) = relations_view rs" for rs
  proof
    fix x
    have "item_kinds (map ?it items) = item_kinds items" for items by (rule item_kinds_map) simp_all
    then show "relations_view (map ?rel rs) x = relations_view rs x"
      by (simp add: relations_view_def find_map_key option.map_comp o_def)
  qed
  then have v: "nodes_view (map ?f (docNodes d)) = nodes_view (docNodes d)"
    by (intro nodes_view_map) (simp_all add: node_view_def)
  have "items_ok (map ?it items) = items_ok items" for items
    by (simp add: items_ok_def o_def image_image)
  then have "relations_ok (map ?rel rs) = relations_ok rs" for rs
    by (simp add: relations_ok_def o_def)
  then have "struct_ok (map ?f (docNodes d)) = struct_ok (docNodes d)"
    by (simp add: struct_ok_def o_def image_image)
  with v s show "simulates g (deleteTranslation d)" by (simp add: simulates_def deleteTranslation_def)
  show "simulates g (d\<lparr>docLocaleExists := e\<rparr>)" using s by (simp add: simulates_def)
qed

end
