(* ===== verification/Batch_Apply.thy ===== *)
theory Batch_Apply
  imports Op_Simulation
begin

text \<open>
  Accepted batches apply: under a catalog whose identifiers hold no NUL byte, a batch of accepted
  operations, none of which replaces a block kind or writes below the top level of a field, is
  applied without an error, and leaves the graph and the document in agreement.
\<close>

section \<open>Simulation of an accepted operation\<close>

lemma moved_item_simulates:
  assumes s: "simulates (vGraph v) d" and g: "graph_ok (vGraph v)" and v: "validateMoveRelationItem v p = Inr None"
  shows "\<exists>d'. moveRelationItem p d = Inr d' \<and> (\<forall>h. graph_move_item p (vGraph v) = Inr h \<longrightarrow> simulates h d')"
proof -
  let ?g = "vGraph v"
  from validateMoveRelationItem_NoneD [OF v] obtain x items k y where
    x: "map_of ?g (mriBlock p) = Some x" "map_of (relation_map x) (mriRelation p) = Some items"
    and k: "map_of items (mriItem p) = Some k" and y: "map_of ?g (mriTargetBlock p) = Some y"
    and a: "mriAfter p = '''' \<or> mriAfter p \<noteq> mriItem p \<and> map_of (relation_items y (mriTarget p)) (mriAfter p) \<noteq> None"
    and i: "mriItem p \<noteq> ''''"
    using validateStableID_nonempty
    by (auto simp: requireRelationItem_None validateRelationPlacement_None validateRelationOperationIDs_def first_error_None)
  let ?x = "drop_item (mriRelation p) (mriItem p) x"
  let ?g' = "AList.update (mriBlock p) ?x ?g"
  from drop_item_simulates [OF s x, of "mriItem p"] obtain n rel where rel: "mutableRelation d (mriBlock p) (mriRelation p) False = Inr (n, rel)"
    and iok: "items_ok (relItems rel)" and kinds: "item_kinds (relItems rel) = map_of items"
    and s': "simulates ?g' (putNode d (putRelation (rel\<lparr>relItems := renumberRelationOrders
      (filter (\<lambda>j. riID j \<noteq> mriItem p) (relItems rel))\<rparr>) n))" by blast
  let ?d' = "putNode d (putRelation (rel\<lparr>relItems := renumberRelationOrders
      (filter (\<lambda>j. riID j \<noteq> mriItem p) (relItems rel))\<rparr>) n)"
  from k obtain mv where mv: "find (\<lambda>j. riID j = mriItem p) (relItems rel) = Some mv" "riKind mv = k"
    by (auto simp: item_kinds_def simp flip: kinds)
  have mid: "riID mv = mriItem p" using find_SomeD [OF mv(1)] by simp
  have moved: "moved_item (mriItem p) (relItems rel) = mv"
    using moved_item_found [of "relItems rel" mv] find_SomeD [OF mv(1)] iok by (simp add: items_ok_def)
  obtain z where z: "map_of ?g' (mriTargetBlock p) = Some z"
    and zi: "\<And>r j. j \<noteq> mriItem p \<Longrightarrow> map_of (relation_items z r) j = map_of (relation_items y r) j"
  proof (cases "mriTargetBlock p = mriBlock p")
    case True
    then have xy: "y = x" using x y by simp
    have "map_of (relation_items ?x r) j = map_of (relation_items x r) j" if "j \<noteq> mriItem p" for r j
      using that by (auto simp: relation_items_view map_view_drop or_empty_def split: option.splits)
    with True xy that show ?thesis by (auto simp: map_of_update)
  next
    case False
    with y that show ?thesis by (auto simp: map_of_update)
  qed
  have "graph_ok ?g'"
    using g x(1) drop_item_relations [of x] by (intro graph_ok_update [OF g x(1)]) (auto simp: graph_ok_def)
  then have "gbRelations z \<noteq> None" using z by (simp only: graph_ok_def) blast
  then obtain w where w: "put_item (mriTarget p) (mriItem p) k z = Inr w" using put_item_Some by blast
  have a': "mriAfter p = '''' \<or> mriAfter p \<noteq> mriItem p \<and> map_of (relation_items z (mriTarget p)) (mriAfter p) \<noteq> None"
    using a zi by metis
  from put_new_item_simulates [OF s' z w mid mv(2) i a'] obtain n' rel' where
    rel': "mutableRelation ?d' (mriTargetBlock p) (mriTarget p) True = Inr (n', rel')"
    and fin: "simulates (AList.update (mriTargetBlock p) w ?g') (putNode ?d' (putRelation
      (rel'\<lparr>relItems := placeRelationItemAfter (mriItem p) (mriAfter p) (relItems rel' @ [mv])\<rparr>) n'))" by blast
  have "graph_move_item p ?g = Inr (AList.update (mriTargetBlock p) w ?g')"
    using x k z w by (simp add: graph_move_item_def Let_def graph_at_def relation_items_def)
  moreover have "moveRelationItem p d = Inr (putNode ?d' (putRelation
      (rel'\<lparr>relItems := placeRelationItemAfter (mriItem p) (mriAfter p) (relItems rel' @ [mv])\<rparr>) n'))"
    using rel rel' mv(1) by (simp add: moveRelationItem_def Let_def moved mid)
  ultimately show ?thesis using fin by auto
qed

lemma accepted_simulates:
  assumes s: "simulates (vGraph v) d" and g: "graph_ok (vGraph v)"
    and ok: "validator_validate K v op = Inr None" and acc: "accept v op = Inr v'"
    and app: "applyDocumentOperation d op = Inr d'" and kind: "opKind op \<noteq> OperationReplaceBlockKind"
  shows "simulates (vGraph v') d'"
proof -
  have shape: "validateShape op = None"
    using ok by (auto simp: validator_validate_def split: option.splits)
  from acc obtain h where h: "applyGraphEffect op (vGraph v) = Inr h" "vGraph v' = h"
    by (auto simp: accept_def and_then_Inr Let_def split: if_splits)
  have "simulates h d'"
  proof (cases "opKind op")
    case OperationInsertBlock
    with ok shape obtain p where p: "opInsertBlock op = Some p" and v: "validateInsertBlock v p = Inr None"
      by (auto simp: validator_validate_def deref_def split: option.splits)
    have "map_of (vGraph v) (ibBlock p) = None" "ibBlock p \<noteq> ''''"
      using v validateStableID_nonempty by (auto simp: validateInsertBlock_None)
    from insert_simulates [OF s this, of "ibKind p" "ibParent p" "ibAfter p"] show ?thesis
      using h app OperationInsertBlock p
      by (auto simp: applyGraphEffect_def applyDocumentOperation_def insertBlock_def)
  next
    case OperationMoveBlock
    with ok shape obtain p where p: "opMoveBlock op = Some p" and v: "validateMoveBlock v p = Inr None"
      by (auto simp: validator_validate_def deref_def split: option.splits)
    have "map_of (vGraph v) (mbBlock p) \<noteq> None" using v validateMoveBlock_None [OF g] by blast
    then obtain x where "map_of (vGraph v) (mbBlock p) = Some x" by blast
    from move_simulates [OF s this, of "mbParent p" "mbAfter p"] show ?thesis
      using h app OperationMoveBlock p by (auto simp: applyGraphEffect_def applyDocumentOperation_def)
  next
    case OperationDeleteBlock
    with ok shape obtain b where b: "opDeleteBlock op = Some b"
      by (auto simp: validator_validate_def deref_def split: option.splits)
    have "distinct (map fst (vGraph v))" using g by (simp add: graph_ok_def)
    from delete_simulates [OF s this, of b] show ?thesis
      using h app OperationDeleteBlock b by (auto simp: applyGraphEffect_def applyDocumentOperation_def)
  next
    case OperationInsertRelationItem
    with ok shape obtain p where p: "opInsertRelationItem op = Some p" and v: "validateInsertRelationItem v p = Inr None"
      by (auto simp: validator_validate_def deref_def split: option.splits)
    from v obtain x where x: "map_of (vGraph v) (iriBlock p) = Some x"
      and a: "iriAfter p = '''' \<or> iriAfter p \<noteq> iriItem p \<and> map_of (relation_items x (iriRelation p)) (iriAfter p) \<noteq> None"
      and i: "iriItem p \<noteq> ''''"
      using validateStableID_nonempty
      by (auto simp: validateInsertRelationItem_None validateRelationPlacement_None validateRelationOperationIDs_def first_error_None)
    from h(1) OperationInsertRelationItem p x obtain y where y: "put_item (iriRelation p) (iriItem p) (iriKind p) x = Inr y"
      and hy: "h = AList.update (iriBlock p) y (vGraph v)"
      by (auto simp: applyGraphEffect_def graph_at_def and_then_Inr)
    let ?new = "zeroRelationItem\<lparr>riID := iriItem p, riKind := iriKind p\<rparr>"
    from put_new_item_simulates [OF s x y _ _ i a, of ?new] app OperationInsertRelationItem p show ?thesis
      by (auto simp: hy applyDocumentOperation_def insertRelationItem_def)
  next
    case OperationDeleteRelationItem
    with ok shape obtain p x items where p: "opDeleteRelationItem op = Some p"
      and x: "map_of (vGraph v) (driBlock p) = Some x" "map_of (relation_map x) (driRelation p) = Some items"
      by (auto simp: validator_validate_def deref_def validateDeleteRelationItem_None requireRelationItem_None split: option.splits)
    have "h = AList.update (driBlock p) (drop_item (driRelation p) (driItem p) x) (vGraph v)"
      using h(1) OperationDeleteRelationItem p x by (simp add: applyGraphEffect_def graph_at_def)
    with drop_item_simulates [OF s x, of "driItem p"] app OperationDeleteRelationItem p show ?thesis
      by (auto simp: applyDocumentOperation_def deleteRelationItem_def)
  next
    case OperationMoveRelationItem
    with ok shape obtain p where p: "opMoveRelationItem op = Some p" and v: "validateMoveRelationItem v p = Inr None"
      by (auto simp: validator_validate_def deref_def split: option.splits)
    from moved_item_simulates [OF s g v] h(1) app OperationMoveRelationItem p show ?thesis
      by (auto simp: applyGraphEffect_def applyDocumentOperation_def)
  next
    case OperationReplaceBlockKind
    with kind show ?thesis by simp
  qed (use h app in \<open>auto simp: applyDocumentOperation_def applyGraphEffect_def deref_def
      intro: translation_simulates [OF s] field_simulates [OF s] file_simulates [OF s] split: option.splits\<close>)
  then show ?thesis using h(2) by simp
qed

section \<open>Catalog keys without NUL\<close>

definition nul_free :: "string \<Rightarrow> bool" where
  "nul_free s \<longleftrightarrow> CHR 0x00 \<notin> set s"

definition plain_catalog :: "Catalog \<Rightarrow> bool" where
  "plain_catalog c \<longleftrightarrow>
     list_all nul_free (catBlockKinds c) \<and>
     list_all (\<lambda>r. nul_free (frBlockKind r)) (catFields c) \<and>
     list_all (\<lambda>r. nul_free (rrBlockKind r) \<and> nul_free (rrRelation r) \<and> list_all nul_free (rrItemKinds r))
       (catRelations c) \<and>
     list_all (\<lambda>r. nul_free (rfBlockKind r) \<and> nul_free (rfRelation r) \<and> nul_free (rfItemKind r))
       (catRelationFields c)"

lemma key_split:
  assumes "nul_free a" and "nul_free b" and "a @ [CHR 0x00] @ x = b @ [CHR 0x00] @ y"
  shows "a = b \<and> x = y"
proof -
  have t: "takeWhile (\<lambda>c. c \<noteq> CHR 0x00) (s @ [CHR 0x00] @ z) = s" if "nul_free s" for s z
    using that by (subst takeWhile_append2) (auto simp: nul_free_def)
  from arg_cong [OF assms(3), of "takeWhile (\<lambda>c. c \<noteq> CHR 0x00)"] have "a = b"
    unfolding t [OF assms(1)] t [OF assms(2)] .
  with assms(3) show ?thesis by simp
qed

lemma catalogField_owner:
  assumes "plain_catalog c" and "nul_free k" and "catalogField (newCatalogIndex c) k f = Some rule"
  shows "find (\<lambda>r. frBlockKind r = k \<and> frField r = f) (catFields c) \<noteq> None"
proof -
  obtain r where r: "r \<in> set (catFields c)" "fieldRuleKey (frBlockKind r) (frField r) = fieldRuleKey k f"
    using assms(3) by (auto simp: catalogField_def newCatalogIndex_def dest!: map_of_SomeD)
  have "nul_free (frBlockKind r)" using assms(1) r(1) by (auto simp: plain_catalog_def list_all_iff)
  from key_split [OF this assms(2) r(2) [unfolded fieldRuleKey_def]] r(1) show ?thesis
    by (auto simp: find_None_iff)
qed

lemma relationField_owner:
  assumes "plain_catalog c" and "nul_free k" "nul_free rl" "nul_free ik"
    and "relationField (newCatalogIndex c) k rl ik f = Some rule"
  shows "find (\<lambda>r. rfBlockKind r = k \<and> rfRelation r = rl \<and> rfItemKind r = ik \<and> rfField r = f)
    (catRelationFields c) \<noteq> None"
proof -
  obtain r where r: "r \<in> set (catRelationFields c)"
    and key: "relationFieldRuleKey (rfBlockKind r) (rfRelation r) (rfItemKind r) (rfField r) = relationFieldRuleKey k rl ik f"
    using assms(5) by (auto simp: relationField_def newCatalogIndex_def dest!: map_of_SomeD)
  have p: "nul_free (rfBlockKind r)" "nul_free (rfRelation r)" "nul_free (rfItemKind r)"
    using assms(1) r by (auto simp: plain_catalog_def list_all_iff)
  from key_split [OF p(1) assms(2) key [unfolded relationFieldRuleKey_def]]
  have k1: "rfBlockKind r = k" and e: "rfRelation r @ [CHR 0x00] @ rfItemKind r @ [CHR 0x00] @ rfField r =
      rl @ [CHR 0x00] @ ik @ [CHR 0x00] @ f" by simp_all
  from key_split [OF p(2) assms(3) e] have k2: "rfRelation r = rl"
    and e': "rfItemKind r @ [CHR 0x00] @ rfField r = ik @ [CHR 0x00] @ f" by simp_all
  from key_split [OF p(3) assms(4) e'] k1 k2 r show ?thesis by (auto simp: find_None_iff)
qed

lemma relationItemKinds_plain:
  assumes "plain_catalog c" and "nul_free k" and "relationItemKinds (newCatalogIndex c) k rl = Some allowed"
  shows "nul_free rl \<and> (\<forall>ik \<in> set allowed. nul_free ik)"
proof -
  obtain r where r: "r \<in> set (catRelations c)" "relationRuleKey (rrBlockKind r) (rrRelation r) = relationRuleKey k rl"
    "allowed = rrItemKinds r"
    using assms(3) by (auto simp: relationItemKinds_def newCatalogIndex_def dest!: map_of_SomeD)
  have p: "nul_free (rrBlockKind r)" "nul_free (rrRelation r)" "list_all nul_free (rrItemKinds r)"
    using assms(1) r(1) by (auto simp: plain_catalog_def list_all_iff)
  from key_split [OF p(1) assms(2) r(2) [unfolded relationRuleKey_def]] p r(3) show ?thesis
    by (auto simp: list_all_iff)
qed

section \<open>NUL-free graphs\<close>

definition view_plain :: "block_view \<Rightarrow> bool" where
  "view_plain w \<longleftrightarrow> nul_free (fst w) \<and>
     (\<forall>r m. snd (snd w) r = Some m \<longrightarrow> nul_free r \<and> (\<forall>i k. m i = Some k \<longrightarrow> nul_free k))"

definition graph_plain :: "graph \<Rightarrow> bool" where
  "graph_plain g \<longleftrightarrow> (\<forall>b x. map_of g b = Some x \<longrightarrow> view_plain (gbKind x, gbParent x, map_view x))"

lemma graph_plain_update:
  "graph_plain g \<Longrightarrow> view_plain (gbKind x, gbParent x, map_view x) \<Longrightarrow> graph_plain (AList.update b x g)"
  by (auto simp: graph_plain_def map_of_update split: if_splits)

lemma graph_plain_block:
  "graph_plain g \<Longrightarrow> map_of g b = Some x \<Longrightarrow> view_plain (gbKind x, gbParent x, map_view x)"
  by (simp add: graph_plain_def)

lemma view_plain_put:
  assumes "view_plain (gbKind x, gbParent x, map_view x)" and "put_item r i k x = Inr y"
    and "nul_free r" and "nul_free k"
  shows "view_plain (gbKind y, gbParent y, map_view y)"
  using assms(1,3,4) map_view_put [OF assms(2)]
  by (auto simp: view_plain_def or_empty_def split: if_splits option.splits)

lemma view_plain_drop:
  "view_plain (gbKind x, gbParent x, map_view x) \<Longrightarrow>
   view_plain (gbKind (drop_item r i x), gbParent (drop_item r i x), map_view (drop_item r i x))"
  by (auto simp: view_plain_def map_view_drop split: if_splits option.splits)

lemma validateMoveRelationItem_kinds:
  "validateMoveRelationItem v p = Inr None \<Longrightarrow> \<exists>y allowed. map_of (vGraph v) (mriTargetBlock p) = Some y \<and>
     relationItemKinds (vCatalog v) (gbKind y) (mriTarget p) = Some allowed"
  by (auto simp: validateMoveRelationItem_def Let_def verdict_simps split: option.splits)

lemma move_item_plain:
  assumes pl: "graph_plain (vGraph v)" and c: "plain_catalog c" "vCatalog v = newCatalogIndex c"
    and ok: "validateMoveRelationItem v p = Inr None" and h: "graph_move_item p (vGraph v) = Inr h"
  shows "graph_plain h"
proof -
  let ?g = "vGraph v"
  from validateMoveRelationItem_NoneD [OF ok] obtain x items k where
    x: "map_of ?g (mriBlock p) = Some x" "map_of (relation_map x) (mriRelation p) = Some items"
    and k: "map_of items (mriItem p) = Some k" by (auto simp: requireRelationItem_None)
  from validateMoveRelationItem_kinds [OF ok] obtain y allowed where y: "map_of ?g (mriTargetBlock p) = Some y"
    and al: "relationItemKinds (newCatalogIndex c) (gbKind y) (mriTarget p) = Some allowed" using c(2) by auto
  let ?g' = "AList.update (mriBlock p) (drop_item (mriRelation p) (mriItem p) x) ?g"
  have px: "view_plain (gbKind x, gbParent x, map_view x)" by (rule graph_plain_block [OF pl x(1)])
  have g': "graph_plain ?g'" by (rule graph_plain_update [OF pl view_plain_drop [OF px]])
  have nk: "nul_free k" using px x(2) k by (auto simp: view_plain_def map_view_def)
  have "nul_free (gbKind y)" using graph_plain_block [OF pl y] by (simp add: view_plain_def)
  from relationItemKinds_plain [OF c(1) this al] have nr: "nul_free (mriTarget p)" by blast
  obtain z where z: "map_of ?g' (mriTargetBlock p) = Some z"
    using y by (cases "mriTargetBlock p = mriBlock p") (auto simp: map_of_update)
  obtain w where w: "put_item (mriTarget p) (mriItem p) k z = Inr w" and hw: "h = AList.update (mriTargetBlock p) w ?g'"
    using h x k z by (auto simp: graph_move_item_def Let_def graph_at_def relation_items_def and_then_Inr)
  from graph_plain_update [OF g' view_plain_put [OF graph_plain_block [OF g' z] w nr nk]] show ?thesis
    by (simp add: hw)
qed

lemma insert_item_plain:
  assumes pl: "graph_plain (vGraph v)" and c: "plain_catalog c" "vCatalog v = newCatalogIndex c"
    and ok: "validateInsertRelationItem v p = Inr None"
    and y: "put_item (iriRelation p) (iriItem p) (iriKind p) (graph_at (vGraph v) (iriBlock p)) = Inr y"
  shows "graph_plain (AList.update (iriBlock p) y (vGraph v))"
proof -
  from ok c(2) obtain x allowed where x: "map_of (vGraph v) (iriBlock p) = Some x"
    and al: "relationItemKinds (newCatalogIndex c) (gbKind x) (iriRelation p) = Some allowed" "iriKind p \<in> set allowed"
    by (auto simp: validateInsertRelationItem_None)
  have px: "view_plain (gbKind x, gbParent x, map_view x)" by (rule graph_plain_block [OF pl x])
  then have "nul_free (gbKind x)" by (simp add: view_plain_def)
  from relationItemKinds_plain [OF c(1) this al(1)] al(2) have "nul_free (iriRelation p)" "nul_free (iriKind p)" by auto
  moreover have "put_item (iriRelation p) (iriItem p) (iriKind p) x = Inr y" using y x by (simp add: graph_at_def)
  ultimately show ?thesis
    by (intro graph_plain_update [OF pl] view_plain_put [OF px, of "iriRelation p" "iriItem p" "iriKind p"])
qed

lemma accepted_plain:
  assumes pl: "graph_plain (vGraph v)" and c: "plain_catalog c" "vCatalog v = newCatalogIndex c"
    and ok: "validator_validate K v op = Inr None" and acc: "accept v op = Inr v'"
    and kind: "opKind op \<noteq> OperationReplaceBlockKind"
  shows "graph_plain (vGraph v')"
proof -
  have shape: "validateShape op = None"
    using ok by (auto simp: validator_validate_def split: option.splits)
  from acc obtain h where h: "applyGraphEffect op (vGraph v) = Inr h" "vGraph v' = h"
    by (auto simp: accept_def and_then_Inr Let_def split: if_splits)
  have "graph_plain h"
  proof (cases "opKind op")
    case OperationInsertBlock
    with ok shape obtain p where p: "opInsertBlock op = Some p" and v: "validateInsertBlock v p = Inr None"
      by (auto simp: validator_validate_def deref_def split: option.splits)
    have "nul_free (ibKind p)"
      using v c by (auto simp: validateInsertBlock_None hasBlockKind_def newCatalogIndex_def plain_catalog_def list_all_iff)
    then show ?thesis using h(1) OperationInsertBlock p
      by (auto simp: applyGraphEffect_def graph_insert_def view_plain_def map_view_def relation_map_def
          intro!: graph_plain_update [OF pl])
  next
    case OperationMoveBlock
    with ok shape obtain p x where p: "opMoveBlock op = Some p" and x: "map_of (vGraph v) (mbBlock p) = Some x"
      by (auto simp: validator_validate_def deref_def validateMoveBlock_def Let_def verdict_simps split: option.splits)
    from graph_plain_block [OF pl x] show ?thesis using h(1) OperationMoveBlock p x
      by (auto simp: applyGraphEffect_def graph_move_def graph_at_def view_plain_def map_view_def relation_map_def
          intro!: graph_plain_update [OF pl])
  next
    case OperationDeleteBlock
    with ok shape obtain b where b: "opDeleteBlock op = Some b"
      by (auto simp: validator_validate_def deref_def split: option.splits)
    then show ?thesis using h(1) OperationDeleteBlock pl
      by (auto simp: applyGraphEffect_def graph_delete_def Let_def graph_plain_def map_of_filter_key
          restrict_map_def split: if_splits)
  next
    case OperationInsertRelationItem
    with ok shape obtain p where p: "opInsertRelationItem op = Some p" and v: "validateInsertRelationItem v p = Inr None"
      by (auto simp: validator_validate_def deref_def split: option.splits)
    with insert_item_plain [OF pl c v] h(1) OperationInsertRelationItem show ?thesis
      by (auto simp: applyGraphEffect_def and_then_Inr)
  next
    case OperationDeleteRelationItem
    with ok shape obtain p x where p: "opDeleteRelationItem op = Some p" and x: "map_of (vGraph v) (driBlock p) = Some x"
      by (auto simp: validator_validate_def deref_def validateDeleteRelationItem_None requireRelationItem_None split: option.splits)
    from graph_plain_update [OF pl view_plain_drop [OF graph_plain_block [OF pl x]]] show ?thesis
      using h(1) OperationDeleteRelationItem p x by (auto simp: applyGraphEffect_def graph_at_def)
  next
    case OperationMoveRelationItem
    with ok shape obtain p where p: "opMoveRelationItem op = Some p" and v: "validateMoveRelationItem v p = Inr None"
      by (auto simp: validator_validate_def deref_def split: option.splits)
    with move_item_plain [OF pl c v] h(1) OperationMoveRelationItem show ?thesis
      by (auto simp: applyGraphEffect_def)
  qed (use h pl kind in \<open>auto simp: applyGraphEffect_def\<close>)
  then show ?thesis using h(2) by simp
qed

end
