(* ===== verification/Batch_Correct.thy ===== *)
theory Batch_Correct
  imports Batch_Apply
begin

text \<open>
  The top of the batch proof: a loaded document that validates is a simulated state, an accepted
  operation applies, and so does an accepted batch.
\<close>

section \<open>The state before the batch\<close>

lemma validateNodes_struct:
  assumes "validateNodes K nodes = None"
  shows "struct_ok nodes"
proof -
  have ok: "nodes_ok nodes" and each: "\<forall>n \<in> set nodes. validateProjectedNode K n = None"
    using assms by (auto simp: validateNodes_iff)
  have "relations_ok (nodeRelations n)" if "n \<in> set nodes" for n
  proof -
    have "relationRounds K {} {} (nodeRelations n) = None"
      using each that by (simp add: validateProjectedNode_def validateProjectedRelations_def first_error_None)
    then have r: "distinct (map relID (nodeRelations n))" "distinct (map riID (concat (map relItems (nodeRelations n))))"
      and i: "\<forall>r \<in> set (nodeRelations n). \<forall>item \<in> set (relItems r). relationItemRound K {} item = None"
      by (auto simp: relationRounds_None)
    have "items_ok (relItems r)" if r': "r \<in> set (nodeRelations n)" for r
    proof -
      have "distinct (map riID (relItems r))"
        using r(2) r' by (auto simp: map_concat distinct_concat_iff)
      moreover have "riID item \<noteq> ''''" if "item \<in> set (relItems r)" for item
        using i r' that validateStableID_nonempty by (fastforce simp: relationItemRound_def first_error_None)
      ultimately show ?thesis by (force simp: items_ok_def)
    qed
    with r(1) show ?thesis by (simp add: relations_ok_def)
  qed
  moreover have "'''' \<notin> nodeID ` set nodes" using ok by (simp add: nodes_ok_def tree_ok_def)
  ultimately show ?thesis using ok by (simp add: struct_ok_def nodes_ok_def)
qed

lemma relations_view_canonical:
  assumes "relations_ok rs"
  shows "relations_view (sort_key relID (map canonicalRelation rs)) = relations_view rs"
proof
  fix x
  have d: "distinct (map relID (map canonicalRelation rs))"
    using assms by (simp add: relations_ok_def o_def)
  have "find (\<lambda>s. relID s = x) (sort_key relID (map canonicalRelation rs)) = find (\<lambda>s. relID s = x) (map canonicalRelation rs)"
    by (rule find_perm_key [OF _ d]) simp
  also have "\<dots> = map_option canonicalRelation (find (\<lambda>s. relID s = x) rs)" by (rule find_map_key) simp
  finally have f: "find (\<lambda>s. relID s = x) (sort_key relID (map canonicalRelation rs)) =
      map_option canonicalRelation (find (\<lambda>s. relID s = x) rs)" .
  have "item_kinds (relItems (canonicalRelation s)) = item_kinds (relItems s)" if "s \<in> set rs" for s
  proof -
    have di: "distinct (map riID (map canonicalItem (relItems s)))"
      using assms that by (simp add: relations_ok_def items_ok_def o_def)
    have "item_kinds (relItems (canonicalRelation s)) = item_kinds (map canonicalItem (relItems s))"
      unfolding canonicalRelation_def by (rule item_kinds_perm [OF _ di]) simp
    also have "\<dots> = item_kinds (relItems s)" by (rule item_kinds_map) simp_all
    finally show ?thesis .
  qed
  then show "relations_view (sort_key relID (map canonicalRelation rs)) x = relations_view rs x"
    unfolding relations_view_def f by (cases "find (\<lambda>s. relID s = x) rs") (auto dest: find_SomeD)
qed

lemma distinct_map_sort: "distinct (map f (sort_key k xs)) = distinct (map f xs)"
proof -
  have "mset (map f (sort_key k xs)) = mset (map f xs)" by simp
  then show ?thesis by (rule mset_eq_imp_distinct_iff)
qed

lemma relations_ok_canonical:
  assumes "relations_ok rs"
  shows "relations_ok (sort_key relID (map canonicalRelation rs))"
proof -
  have "items_ok (relItems (canonicalRelation r))" if "r \<in> set rs" for r
    using assms that
    by (simp add: relations_ok_def items_ok_def canonicalRelation_def distinct_map_sort o_def image_image)
  moreover have "distinct (map relID (sort_key relID (map canonicalRelation rs)))"
    unfolding distinct_map_sort using assms by (simp add: relations_ok_def o_def)
  ultimately show ?thesis by (simp add: relations_ok_def)
qed

lemma canonicalNodes_simulates:
  assumes ok: "struct_ok nodes" "nodes_forest nodes" and c: "canonicalNodes nodes = Inr r"
  shows "struct_ok r \<and> nodes_view r = nodes_view nodes"
proof -
  have m: "mset r = mset (map canonicalNode nodes)" using canonicalNodes_forest [OF ok(2)] c by auto
  have d: "distinct (map nodeID (map canonicalNode nodes))" using ok(1) by (simp add: struct_ok_def o_def)
  have "mset (map nodeID r) = mset (map nodeID (map canonicalNode nodes))" using m by (simp only: mset_map)
  then have dr: "distinct (map nodeID r)" using d mset_eq_imp_distinct_iff by blast
  have sr: "set r = canonicalNode ` set nodes" using mset_eq_setD [OF m] by simp
  have rel: "relations_ok (nodeRelations (canonicalNode n))" if "n \<in> set nodes" for n
    using ok(1) that relations_ok_canonical by (simp add: struct_ok_def canonicalNode_def)
  have "struct_ok r" using ok(1) dr rel by (auto simp: struct_ok_def sr)
  moreover have "nodes_view r b = nodes_view nodes b" for b
  proof -
    have "find (\<lambda>n. nodeID n = b) r = map_option canonicalNode (find (\<lambda>n. nodeID n = b) nodes)"
      by (subst find_perm_key [OF m d], rule find_map_key) simp
    moreover have "node_view (canonicalNode n) = node_view n" if "n \<in> set nodes" for n
      using ok(1) that by (simp add: struct_ok_def node_view_def) (simp add: canonicalNode_def relations_view_canonical)
    ultimately show ?thesis
      by (cases "find (\<lambda>n. nodeID n = b) nodes") (auto simp: nodes_view_def dest: find_SomeD)
  qed
  ultimately show ?thesis by blast
qed

lemma initial_plain:
  assumes doc: "Document_validate K d = None" and pl: "plain_catalog (docCatalog d)"
  shows "graph_plain (newOperationGraph (docNodes d))"
proof -
  let ?ix = "newCatalogIndex (docCatalog d)"
  have st: "struct_ok (docNodes d)" using Document_validate_parts [OF doc] validateNodes_struct by blast
  have "validateDocumentCatalogValues K (docCatalog d) (docNodes d) = None"
    using Document_validate_parts [OF doc] by blast
  then have each: "hasBlockKind ?ix (nodeKind n) \<and> validateRelations K ?ix n = None" if "n \<in> set (docNodes d)" for n
    using that by (simp add: validateDocumentCatalogValues_def Let_def check_all_None first_error_None)
  have "view_plain (node_view n)" if n: "n \<in> set (docNodes d)" for n
  proof -
    have k: "nul_free (nodeKind n)"
      using each [OF n] pl by (auto simp: hasBlockKind_def newCatalogIndex_def plain_catalog_def list_all_iff)
    have "nul_free (relID s) \<and> (\<forall>i \<in> set (relItems s). nul_free (riKind i))" if "s \<in> set (nodeRelations n)" for s
    proof -
      have "\<exists>allowed. relationItemKinds ?ix (nodeKind n) (relID s) = Some allowed \<and>
          (\<forall>i \<in> set (relItems s). riKind i \<in> set allowed)"
        using each [OF n] that by (auto simp: validateRelations_def check_all_None split: option.splits if_splits)
      with relationItemKinds_plain [OF pl k] show ?thesis by blast
    qed
    with k show ?thesis
      by (auto simp: view_plain_def node_view_def relations_view_def item_kinds_def dest!: find_SomeD)
  qed
  then show ?thesis
    using newOperationGraph_view [OF st] unfolding graph_plain_def graph_view_def nodes_view_def
    by (metis (mono_tags, lifting) find_SomeD map_option_eq_Some)
qed

section \<open>Accepted operations apply\<close>

definition flat_operation :: "Operation \<Rightarrow> bool" where
  "flat_operation op \<longleftrightarrow> opKind op \<noteq> OperationReplaceBlockKind \<and>
     (case opSetField op of None \<Rightarrow> True | Some p \<Rightarrow> tgtPath (sfTarget p) = []) \<and>
     (case opUnsetField op of None \<Rightarrow> True | Some t \<Rightarrow> tgtPath t = [])"

lemma mutateFieldValues_flat:
  "\<exists>vs'. mutateFieldValues (Some (\<lambda>_. Inr w)) True f [] vs = Inr vs'"
  "\<exists>vs'. mutateFieldValues None False f [] vs = Inr vs'"
  by (auto simp: mutateFieldValues_def call_mutation_def split: option.splits)

lemma found_item:
  assumes "relations_view (nodeRelations n) r = Some m" and "m i = Some k"
  shows "\<exists>item. mutableRelationItem n r i = Some item \<and> riKind item = k"
proof -
  from assms obtain s item where s: "find (\<lambda>s. relID s = r) (nodeRelations n) = Some s"
    and item: "find (\<lambda>j. riID j = i) (relItems s) = Some item" "riKind item = k"
    by (auto simp: relations_view_def item_kinds_def)
  have "find (holds_item r i) rs = Some s" if "find (\<lambda>s. relID s = r) rs = Some s" for rs
    using that item by (induction rs) (auto simp: holds_item_def split: if_splits)
  from this [OF s] item show ?thesis by (simp add: mutableRelationItem_def)
qed

lemma field_target_found:
  assumes s: "simulates (vGraph v) d" and pl: "graph_plain (vGraph v)" "plain_catalog (docCatalog d)"
    and c: "vCatalog v = newCatalogIndex (docCatalog d)" and r: "validator_fieldRule v t = Inr rule"
  shows "\<exists>n. mutableNode d (tgtBlock t) = Some n \<and>
    (if relationItem t then \<exists>i. mutableRelationItem n (tgtRelation t) (tgtItem t) = Some i \<and>
        fieldOwnership (docCatalog d) (nodeKind n) (riKind i) t \<noteq> None
     else fieldOwnership (docCatalog d) (nodeKind n) '''' t \<noteq> None)"
proof -
  from r obtain x where x: "map_of (vGraph v) (tgtBlock t) = Some x"
    by (auto simp: validator_fieldRule_def split: option.splits)
  from simulates_block [OF s x] obtain n where n: "mutableNode d (tgtBlock t) = Some n" "gbKind x = nodeKind n"
    "map_view x = relations_view (nodeRelations n)" by blast
  have px: "view_plain (gbKind x, gbParent x, map_view x)" by (rule graph_plain_block [OF pl(1) x])
  then have k: "nul_free (nodeKind n)" using n by (simp add: view_plain_def)
  show ?thesis
  proof (cases "relationItem t")
    case False
    then have "catalogField (newCatalogIndex (docCatalog d)) (nodeKind n) (tgtField t) = Some rule"
      using r x c n by (auto simp: validator_fieldRule_def split: option.splits)
    from catalogField_owner [OF pl(2) k this] n False show ?thesis by (auto simp: fieldOwnership_def)
  next
    case True
    then obtain items kd where it: "map_of (relation_map x) (tgtRelation t) = Some items" "map_of items (tgtItem t) = Some kd"
      and rf: "relationField (newCatalogIndex (docCatalog d)) (nodeKind n) (tgtRelation t) kd (tgtField t) = Some rule"
      using r x c n by (auto simp: validator_fieldRule_def split: option.splits)
    have mv: "relations_view (nodeRelations n) (tgtRelation t) = Some (map_of items)"
      using it n by (simp add: map_view_def flip: n(3))
    from found_item [OF mv it(2)] obtain i where i: "mutableRelationItem n (tgtRelation t) (tgtItem t) = Some i" "riKind i = kd" by blast
    have "nul_free (tgtRelation t)" "nul_free kd" using px it mv n(3) by (auto simp: view_plain_def)
    from relationField_owner [OF pl(2) k this rf] n i True show ?thesis by (auto simp: fieldOwnership_def)
  qed
qed

lemma field_applies:
  assumes n: "mutableNode d (tgtBlock t) = Some n"
    and f: "if relationItem t then \<exists>i. mutableRelationItem n (tgtRelation t) (tgtItem t) = Some i \<and>
        fieldOwnership (docCatalog d) (nodeKind n) (riKind i) t \<noteq> None
     else fieldOwnership (docCatalog d) (nodeKind n) '''' t \<noteq> None"
    and ch: "\<And>vs. \<exists>vs'. mutateFieldValues m st (tgtField t) (tgtPath t) vs = Inr vs'"
  shows "\<exists>d'. mutateDocumentField m st t d = Inr d'"
proof -
  have "\<exists>n'. mutateNodeFields (mutateFieldValues m st (tgtField t) (tgtPath t)) w n = Inr n'" for w
    using ch [of "nodeLocalized n"] ch [of "nodeShared n"] by (auto simp: mutateNodeFields_def)
  moreover have "\<exists>i'. mutateItemFields (mutateFieldValues m st (tgtField t) (tgtPath t)) w i = Inr i'" for w i
    using ch [of "riLocalized i"] ch [of "riShared i"] by (auto simp: mutateItemFields_def)
  ultimately show ?thesis
    using n f by (fastforce simp: mutateDocumentField_def Let_def and_then_Inr split: if_splits)
qed

lemma resolveField_rule: "resolveField v t = Inr res \<Longrightarrow> \<exists>rule. validator_fieldRule v t = Inr rule"
  by (auto simp: resolveField_def split: option.splits sum.splits)

lemma accepted_applies:
  assumes s: "simulates (vGraph v) d" and g: "graph_ok (vGraph v)"
    and pl: "graph_plain (vGraph v)" "plain_catalog (docCatalog d)"
    and c: "vCatalog v = newCatalogIndex (docCatalog d)"
    and ok: "validator_validate K v op = Inr None" and flat: "flat_operation op"
  shows "\<exists>d'. applyDocumentOperation d op = Inr d'"
proof -
  have shape: "validateShape op = None"
    using ok by (auto simp: validator_validate_def split: option.splits)
  note found = field_target_found [OF s pl c]
  show ?thesis
  proof (cases "opKind op")
    case OperationSetField
    with ok shape obtain p res where p: "opSetField op = Some p" and r: "resolveField v (sfTarget p) = Inr res"
      by (auto simp: validator_validate_def deref_def validateSetField_def split: option.splits sum.splits)
    have path: "tgtPath (sfTarget p) = []" using flat p by (simp add: flat_operation_def)
    from resolveField_rule [OF r] found obtain n where "mutableNode d (tgtBlock (sfTarget p)) = Some n"
      "if relationItem (sfTarget p) then \<exists>i. mutableRelationItem n (tgtRelation (sfTarget p)) (tgtItem (sfTarget p)) = Some i \<and>
        fieldOwnership (docCatalog d) (nodeKind n) (riKind i) (sfTarget p) \<noteq> None
     else fieldOwnership (docCatalog d) (nodeKind n) '''' (sfTarget p) \<noteq> None" by blast
    from field_applies [OF this] mutateFieldValues_flat(1) path OperationSetField p show ?thesis
      by (simp add: applyDocumentOperation_def)
  next
    case OperationUnsetField
    with ok shape obtain t res where p: "opUnsetField op = Some t" and r: "resolveField v t = Inr res"
      by (auto simp: validator_validate_def deref_def validateUnsetField_def split: option.splits sum.splits)
    have path: "tgtPath t = []" using flat p by (simp add: flat_operation_def)
    from resolveField_rule [OF r] found obtain n where "mutableNode d (tgtBlock t) = Some n"
      "if relationItem t then \<exists>i. mutableRelationItem n (tgtRelation t) (tgtItem t) = Some i \<and>
        fieldOwnership (docCatalog d) (nodeKind n) (riKind i) t \<noteq> None
     else fieldOwnership (docCatalog d) (nodeKind n) '''' t \<noteq> None" by blast
    from field_applies [OF this] mutateFieldValues_flat(2) path OperationUnsetField p show ?thesis
      by (simp add: applyDocumentOperation_def)
  next
    case OperationAttachFile
    with ok shape obtain p res where p: "opAttachFile op = Some p" and r: "resolveField v (afTarget p) = Inr res"
      by (auto simp: validator_validate_def deref_def validateAttachFile_def requireFileSlot_def verdict_simps split: option.splits sum.splits)
    from resolveField_rule [OF r] found [of "afTarget p"] OperationAttachFile p show ?thesis
      by (auto simp: applyDocumentOperation_def mutateDocumentFile_def split: if_splits)
  next
    case OperationDetachFile
    with ok shape obtain t res where p: "opDetachFile op = Some t" and r: "resolveField v t = Inr res"
      by (auto simp: validator_validate_def deref_def validateDetachFile_def requireFileSlot_def verdict_simps split: option.splits sum.splits)
    from resolveField_rule [OF r] found [of t] OperationDetachFile p show ?thesis
      by (auto simp: applyDocumentOperation_def mutateDocumentFile_def split: if_splits)
  next
    case OperationInsertRelationItem
    with ok shape obtain p x where p: "opInsertRelationItem op = Some p" and x: "map_of (vGraph v) (iriBlock p) = Some x"
      by (auto simp: validator_validate_def deref_def validateInsertRelationItem_None split: option.splits)
    from simulates_block [OF s x] mutableRelation_create [of d "iriBlock p" "iriRelation p"] OperationInsertRelationItem p show ?thesis
      by (auto simp: applyDocumentOperation_def insertRelationItem_def)
  next
    case OperationDeleteRelationItem
    with ok shape obtain p x items where p: "opDeleteRelationItem op = Some p"
      and x: "map_of (vGraph v) (driBlock p) = Some x" "map_of (relation_map x) (driRelation p) = Some items"
      by (auto simp: validator_validate_def deref_def validateDeleteRelationItem_None requireRelationItem_None split: option.splits)
    from drop_item_simulates [OF s x, of "driItem p"] OperationDeleteRelationItem p show ?thesis
      by (auto simp: applyDocumentOperation_def deleteRelationItem_def)
  next
    case OperationMoveRelationItem
    with ok shape obtain p where p: "opMoveRelationItem op = Some p" and v: "validateMoveRelationItem v p = Inr None"
      by (auto simp: validator_validate_def deref_def split: option.splits)
    from moved_item_simulates [OF s g v] OperationMoveRelationItem p show ?thesis
      by (auto simp: applyDocumentOperation_def)
  next
    case OperationReplaceBlockKind
    with flat show ?thesis by (simp add: flat_operation_def)
  qed (use shape in \<open>auto simp: applyDocumentOperation_def deref_def validateShape_def kindMatchesPayload_def
      split: option.splits if_splits\<close>)
qed

section \<open>Accepted batches apply\<close>

lemma apply_catalog: "applyDocumentOperation d op = Inr d' \<Longrightarrow> docCatalog d' = docCatalog d"
  by (auto simp: applyDocumentOperation_def deref_def mutateDocumentField_def mutateDocumentFile_def
      replaceBlockKind_def insertRelationItem_def deleteRelationItem_def moveRelationItem_def
      deleteTranslation_def putNode_def Let_def and_then_Inr split: OperationKind.splits option.splits if_splits)

lemma accepted_batch:
  "simulates (vGraph v) d \<Longrightarrow> graph_ok (vGraph v) \<Longrightarrow> graph_plain (vGraph v) \<Longrightarrow> plain_catalog (docCatalog d) \<Longrightarrow>
   vCatalog v = newCatalogIndex (docCatalog d) \<Longrightarrow> validateRounds K v n ops = Inr [] \<Longrightarrow> \<forall>op \<in> set ops. flat_operation op \<Longrightarrow>
   \<exists>d'. fold_result applyDocumentOperation d ops = Inr d' \<and> struct_ok (docNodes d')"
proof (induction ops arbitrary: v n d)
  case Nil
  then show ?case by (simp add: simulates_def)
next
  case (Cons op ops)
  let ?w = "v\<lparr>vIndex := int n\<rparr>"
  from Cons.prems(6) obtain w where ok: "validator_validate K ?w op = Inr None"
    and acc: "accept ?w op = Inr w" and rest: "validateRounds K w (Suc n) ops = Inr []"
    by (auto simp: Let_def and_then_Inr split: option.splits)
  have flat: "flat_operation op" and kind: "opKind op \<noteq> OperationReplaceBlockKind"
    using Cons.prems(7) by (auto simp: flat_operation_def)
  have s: "simulates (vGraph ?w) d" and g: "graph_ok (vGraph ?w)" and p: "graph_plain (vGraph ?w)"
    and c: "vCatalog ?w = newCatalogIndex (docCatalog d)" using Cons.prems by simp_all
  from accepted_applies [OF s g p Cons.prems(4) c ok flat] obtain e where e: "applyDocumentOperation d op = Inr e" by blast
  from accept_graph_ok [OF g ok] acc c have "graph_ok (vGraph w)" "vCatalog w = newCatalogIndex (docCatalog e)"
    using apply_catalog [OF e] by auto
  moreover have "simulates (vGraph w) e" by (rule accepted_simulates [OF s g ok acc e kind])
  moreover have "graph_plain (vGraph w)" by (rule accepted_plain [OF p Cons.prems(4) c ok acc kind])
  moreover have "plain_catalog (docCatalog e)" using Cons.prems(4) apply_catalog [OF e] by simp
  ultimately obtain d' where "fold_result applyDocumentOperation e ops = Inr d'" "struct_ok (docNodes d')"
    using Cons.IH [OF _ _ _ _ _ rest] Cons.prems(7) by auto
  with e show ?case by auto
qed

lemma accepted_request_applies:
  assumes v: "ValidateOperations K d r = Inr res" "Valid res"
    and pl: "plain_catalog (docCatalog d)" and flat: "\<forall>op \<in> set (arOperations r). flat_operation op"
  shows "\<exists>d'. DocumentAfterOperations d (arOperations r) = Inr d' \<and> nodes_ok (docNodes d') \<and> struct_ok (docNodes d')"
proof -
  have doc: "Document_validate K d = None" using Valid_accepted [OF v] by blast
  have nodes: "nodes_ok (docNodes d)" and st: "struct_ok (docNodes d)"
    using Document_validate_parts [OF doc] validateNodes_ok validateNodes_struct by blast+
  from canonicalNodes_forest [OF nodes_ok_forest [OF nodes]] obtain cs where cs: "canonicalNodes (docNodes d) = Inr cs" by blast
  note c = canonicalNodes_simulates [OF st nodes_ok_forest [OF nodes] cs]
  let ?d = "d\<lparr>docNodes := cs\<rparr>" and ?v = "newValidator d r"
  have "simulates (vGraph ?v) ?d"
    using c newOperationGraph_view [OF st] by (simp add: simulates_def newValidator_def)
  moreover have "graph_plain (vGraph ?v)" using initial_plain [OF doc pl] by (simp add: newValidator_def)
  ultimately obtain e where e: "fold_result applyDocumentOperation ?d (arOperations r) = Inr e" "struct_ok (docNodes e)"
    using accepted_batch [of ?v ?d K 0 "arOperations r"] newValidator_ok [OF doc, of r] pl flat Valid_accepted(7) [OF v] by auto
  have ne: "nodes_ok (docNodes e)"
  proof (rule accepted_batch_tree [OF newValidator_ok(1) [OF doc] _ _ Valid_accepted(7) [OF v] e(1)])
    show "distinct (map nodeID (docNodes ?d))" using c by (simp add: struct_ok_def)
    show "graph_parents (vGraph ?v) = node_parents (docNodes ?d)"
      using canonicalNodes_parents [OF nodes cs] nodes by (simp add: newValidator_def nodes_ok_def newOperationGraph_parents)
  qed
  from canonicalNodes_forest [OF nodes_ok_forest [OF ne]] obtain fs where fs: "canonicalNodes (docNodes e) = Inr fs" by blast
  from canonicalNodes_simulates [OF e(2) nodes_ok_forest [OF ne] fs] canonicalNodes_parents [OF ne fs] cs e fs show ?thesis
    by (auto simp: DocumentAfterOperations_def)
qed

end
