(* ===== verification/Locale_Isolation.thy ===== *)
theory Locale_Isolation
  imports Batch_Correct
begin

text \<open>
  A request for a translation locale cannot change what the locales share: after an accepted batch
  of whole-field operations on a non-source locale, the document differs from the loaded one in
  locale-owned values only.
\<close>

section \<open>The shared part of a document\<close>

definition shared_item :: "RelationItem \<Rightarrow> RelationItem" where
  "shared_item i = i\<lparr>riLocalized := []\<rparr>"

definition shared_relation :: "Relation \<Rightarrow> Relation" where
  "shared_relation r = r\<lparr>relItems := map shared_item (relItems r)\<rparr>"

definition shared_part :: "Node \<Rightarrow> Node" where
  "shared_part n = n\<lparr>nodeLocalized := [], nodeRelations := map shared_relation (nodeRelations n)\<rparr>"

lemma map_insort_key: "(\<And>x. k (f x) = k x) \<Longrightarrow> map f (insort_key k x xs) = insort_key k (f x) (map f xs)"
  by (induction xs) auto

lemma map_sort_key: "(\<And>x. k (f x) = k x) \<Longrightarrow> map f (sort_key k xs) = sort_key k (map f xs)"
  by (induction xs) (simp_all add: map_insort_key)

lemma shared_canonicalItem: "shared_item (canonicalItem i) = canonicalItem (shared_item i)"
  by (simp add: shared_item_def canonicalItem_def sortFields_def)

lemma shared_canonicalRelation: "shared_relation (canonicalRelation r) = canonicalRelation (shared_relation r)"
proof -
  have "map shared_item (sort_key (\<lambda>i. (riOrder i, riID i)) items) = sort_key (\<lambda>i. (riOrder i, riID i)) (map shared_item items)" for items
    by (rule map_sort_key) (simp add: shared_item_def)
  then show ?thesis
    by (simp add: shared_relation_def canonicalRelation_def shared_canonicalItem o_def)
qed

lemma shared_canonicalNode: "shared_part (canonicalNode n) = canonicalNode (shared_part n)"
proof -
  have "map shared_relation (sort_key relID rs) = sort_key relID (map shared_relation rs)" for rs
    by (rule map_sort_key) (simp add: shared_relation_def)
  then show ?thesis
    by (simp add: shared_part_def canonicalNode_def shared_canonicalRelation o_def sortFields_def)
qed

section \<open>The owner of a field\<close>

lemma catalogField_first:
  assumes c: "Catalog_validate c = None" "plain_catalog c" and k: "nul_free k"
    and f: "catalogField (newCatalogIndex c) k f = Some rule"
  shows "find (\<lambda>r. frBlockKind r = k \<and> frField r = f) (catFields c) = Some rule"
proof -
  let ?key = "\<lambda>r. fieldRuleKey (frBlockKind r) (frField r)"
  have "validateFieldRules (catBlockKinds c) (catFields c) = None"
    using c(1) by (simp add: Catalog_validate_def first_error_None)
  then have d: "distinct (map ?key (catFields c))"
    unfolding validateFieldRules_def
    by (subst (asm) loop_seen_distinct [where P = "\<lambda>r. frBlockKind r \<in> set (catBlockKinds c) \<and>
        validateStableID ''field ID'' (frField r) maxCatalogIDLength = None \<and> validateRuleSchema r = None"])
      (auto simp: first_error_None)
  have r: "rule \<in> set (catFields c)" "?key rule = fieldRuleKey k f"
    using f by (auto simp: catalogField_def newCatalogIndex_def dest!: map_of_SomeD)
  from catalogField_owner [OF c(2) k f] obtain r' where r': "find (\<lambda>r. frBlockKind r = k \<and> frField r = f) (catFields c) = Some r'" by blast
  then have "r' \<in> set (catFields c)" "?key r' = ?key rule" using find_SomeD [OF r'] r by auto
  then have "r' = rule" using d r(1) by (metis (no_types, lifting) distinct_map inj_onD)
  with r' show ?thesis by simp
qed

lemma relationField_first:
  assumes c: "Catalog_validate c = None" "plain_catalog c" and k: "nul_free k" "nul_free rl" "nul_free ik"
    and f: "relationField (newCatalogIndex c) k rl ik f = Some rule"
  shows "\<exists>r. find (\<lambda>r. rfBlockKind r = k \<and> rfRelation r = rl \<and> rfItemKind r = ik \<and> rfField r = f) (catRelationFields c) = Some r \<and> fieldRule r = rule"
proof -
  let ?key = "\<lambda>r. relationFieldRuleKey (rfBlockKind r) (rfRelation r) (rfItemKind r) (rfField r)"
  let ?rels = "ciRelations (newCatalogIndex c)"
  have "validateRelationFieldRules ?rels (catRelationFields c) = None"
    using c(1) by (simp add: Catalog_validate_def first_error_None)
  then have d: "distinct (map ?key (catRelationFields c))"
    unfolding validateRelationFieldRules_def
    by (subst (asm) loop_seen_distinct [where P = "\<lambda>r. \<exists>ks. map_of ?rels (relationRuleKey (rfBlockKind r) (rfRelation r)) = Some ks \<and>
        rfItemKind r \<in> set ks \<and> validateStableID ''relation field ID'' (rfField r) maxCatalogIDLength = None \<and>
        validateRuleSchema (fieldRule r) = None"])
      (auto simp: first_error_None split: option.splits)
  obtain r where r: "r \<in> set (catRelationFields c)" "?key r = relationFieldRuleKey k rl ik f" "fieldRule r = rule"
    using f by (auto simp: relationField_def newCatalogIndex_def dest!: map_of_SomeD)
  from relationField_owner [OF c(2) k f] obtain r' where
    r': "find (\<lambda>r. rfBlockKind r = k \<and> rfRelation r = rl \<and> rfItemKind r = ik \<and> rfField r = f) (catRelationFields c) = Some r'" by blast
  then have "r' \<in> set (catRelationFields c)" "?key r' = ?key r" using find_SomeD [OF r'] r by auto
  then have "r' = r" using d r(1) by (metis (no_types, lifting) distinct_map inj_onD)
  with r' r show ?thesis by blast
qed

lemma rule_root_ownership:
  assumes c: "Catalog_validate c = None" "vCatalog v = newCatalogIndex c"
    and r: "validator_fieldRule v t = Inr rule" "resolveNestedFieldRule rule [] = Inr res"
  shows "rvOwnership res = frOwnership rule"
proof -
  have "validateRuleSchema rule = None"
  proof -
    consider k f where "catalogField (newCatalogIndex c) k f = Some rule"
      | k rl ik f where "relationField (newCatalogIndex c) k rl ik f = Some rule"
      using r(1) c(2) by (auto simp: validator_fieldRule_def split: option.splits if_splits)
    then show ?thesis
    proof cases
      case 1
      then have m: "rule \<in> set (catFields c)"
        by (auto simp: catalogField_def newCatalogIndex_def dest!: map_of_SomeD)
      have "validateFieldRules (catBlockKinds c) (catFields c) = None"
        using c(1) by (simp add: Catalog_validate_def first_error_None)
      from loop_seen_None_all [OF this [unfolded validateFieldRules_def] m] show ?thesis by (auto simp: first_error_None)
    next
      case 2
      then obtain rf where m: "rf \<in> set (catRelationFields c)" "rule = fieldRule rf"
        by (auto simp: relationField_def newCatalogIndex_def dest!: map_of_SomeD)
      have "validateRelationFieldRules (ciRelations (newCatalogIndex c)) (catRelationFields c) = None"
        using c(1) by (simp add: Catalog_validate_def first_error_None)
      from loop_seen_None_all [OF this [unfolded validateRelationFieldRules_def] m(1)] m(2) show ?thesis
        by (auto simp: first_error_None split: option.splits)
    qed
  qed
  then show ?thesis
    using r(2) by (auto simp: resolveNestedFieldRule_def validateRuleSchema_def split: option.splits if_splits)
qed

section \<open>Operations of a non-source locale\<close>

lemma nonsource_kinds:
  assumes "vRole v = LocaleRoleNonSource" and "validator_validate K v op = Inr None"
  shows "opKind op \<in> {OperationSetField, OperationCreateTranslation, OperationDeleteTranslation}"
proof -
  have src: "requireSource v h \<noteq> Inr None" for h using assms(1) by (simp add: requireSource_None)
  have "first_issue (requireSource v h # cs) \<noteq> Inr None" for h cs
    using src [of h] by (simp add: first_issue_None)
  then show ?thesis
    using assms
    by (auto simp: validator_validate_def deref_def validateUnsetField_def validateInsertBlock_def
        validateDeleteBlock_def validateMoveBlock_def validateReplaceBlockKind_def
        validateInsertRelationItem_def validateDeleteRelationItem_def validateMoveRelationItem_def
        validateAttachFile_def validateDetachFile_def requireFileSlot_def Let_def first_issue_None issue_if_None
        validateShape_def kindMatchesPayload_def requireSource_None
        split: option.splits OperationKind.splits sum.splits if_splits)
qed

lemma shared_put:
  assumes "mutableNode d (nodeID n') = Some n" and "shared_part n' = shared_part n"
  shows "map shared_part (docNodes (putNode d n')) = map shared_part (docNodes d)"
  using assms by (simp add: putNode_def mutableNode_def map_replace_first)

lemma shared_putRelationItem:
  assumes "mutableRelationItem n r (riID j) = Some i" and "shared_item j = shared_item i"
  shows "shared_part (putRelationItem r j n) = shared_part n"
proof -
  from assms(1) obtain s where s: "find (holds_item r (riID j)) (nodeRelations n) = Some s"
    and si: "find (\<lambda>x. riID x = riID j) (relItems s) = Some i"
    by (auto simp: mutableRelationItem_def split: option.splits)
  have "shared_relation (s\<lparr>relItems := replace_first (\<lambda>x. riID x = riID j) j (relItems s)\<rparr>) = shared_relation s"
    using map_replace_first [OF si assms(2)] by (simp add: shared_relation_def)
  from map_replace_first [OF s this] s show ?thesis
    by (simp add: putRelationItem_def shared_part_def)
qed

lemma shared_deleteTranslation: "map shared_part (docNodes (deleteTranslation d)) = map shared_part (docNodes d)"
  by (simp add: deleteTranslation_def shared_part_def shared_relation_def shared_item_def o_def)

lemma nonsource_set_field:
  assumes s: "simulates (vGraph v) d" and pl: "graph_plain (vGraph v)" "plain_catalog (docCatalog d)"
    and c: "Catalog_validate (docCatalog d) = None" "vCatalog v = newCatalogIndex (docCatalog d)"
    and role: "vRole v = LocaleRoleNonSource" and ok: "validateSetField K v p = Inr None"
    and path: "tgtPath (sfTarget p) = []"
    and app: "mutateDocumentField m st (sfTarget p) d = Inr d'"
  shows "map shared_part (docNodes d') = map shared_part (docNodes d)"
proof -
  let ?t = "sfTarget p"
  from ok obtain rule res where rule: "validator_fieldRule v ?t = Inr rule" "resolveNestedFieldRule rule [] = Inr res"
    and own: "rvOwnership res = FieldOwnershipLocale"
    using role path by (auto simp: validateSetField_def resolveField_def Let_def verdict_simps split: sum.splits option.splits)
  have owned: "frOwnership rule = FieldOwnershipLocale" using rule_root_ownership [OF c rule] own by simp
  from rule(1) obtain x where x: "map_of (vGraph v) (tgtBlock ?t) = Some x"
    by (auto simp: validator_fieldRule_def split: option.splits)
  from simulates_block [OF s x] obtain n where n: "mutableNode d (tgtBlock ?t) = Some n" "nodeID n = tgtBlock ?t" "gbKind x = nodeKind n"
    "map_view x = relations_view (nodeRelations n)" by blast
  have px: "view_plain (gbKind x, gbParent x, map_view x)" by (rule graph_plain_block [OF pl(1) x])
  then have k: "nul_free (nodeKind n)" using n by (simp add: view_plain_def)
  show ?thesis
  proof (cases "relationItem ?t")
    case False
    then have "catalogField (newCatalogIndex (docCatalog d)) (nodeKind n) (tgtField ?t) = Some rule"
      using rule x c n by (auto simp: validator_fieldRule_def split: option.splits)
    from catalogField_first [OF c(1) pl(2) k this] False owned
    have "fieldOwnership (docCatalog d) (nodeKind n) '''' ?t = Some FieldOwnershipLocale"
      by (simp add: fieldOwnership_def)
    with app n False obtain n' vs where "n' = n\<lparr>nodeLocalized := vs\<rparr>" "d' = putNode d n'"
      by (auto simp: mutateDocumentField_def Let_def mutateNodeFields_def and_then_Inr)
    then show ?thesis using n shared_put [of d n' n] by (simp add: shared_part_def)
  next
    case True
    then obtain items kd where it: "map_of (relation_map x) (tgtRelation ?t) = Some items" "map_of items (tgtItem ?t) = Some kd"
      and rf: "relationField (newCatalogIndex (docCatalog d)) (nodeKind n) (tgtRelation ?t) kd (tgtField ?t) = Some rule"
      using rule x c n by (auto simp: validator_fieldRule_def split: option.splits)
    have mv: "relations_view (nodeRelations n) (tgtRelation ?t) = Some (map_of items)"
      using it n by (simp add: map_view_def flip: n(4))
    from found_item [OF mv it(2)] obtain i where i: "mutableRelationItem n (tgtRelation ?t) (tgtItem ?t) = Some i" "riKind i = kd" by blast
    have "nul_free (tgtRelation ?t)" "nul_free kd" using px it mv n(4) by (auto simp: view_plain_def)
    from relationField_first [OF c(1) pl(2) k this rf] True owned i
    have "fieldOwnership (docCatalog d) (nodeKind n) (riKind i) ?t = Some FieldOwnershipLocale"
      by (auto simp: fieldOwnership_def fieldRule_def)
    with app n True i obtain j vs where j: "j = i\<lparr>riLocalized := vs\<rparr>" "d' = putNode d (putRelationItem (tgtRelation ?t) j n)"
      by (auto simp: mutateDocumentField_def Let_def mutateItemFields_def and_then_Inr)
    have "riID j = tgtItem ?t" using mutableRelationItem_id [OF i(1)] j by simp
    then have "shared_part (putRelationItem (tgtRelation ?t) j n) = shared_part n"
      using i j by (intro shared_putRelationItem [of _ _ _ i]) (simp_all add: shared_item_def)
    then show ?thesis using n j shared_put [of d "putRelationItem (tgtRelation ?t) j n" n] by simp
  qed
qed

lemma nonsource_batch:
  "simulates (vGraph v) d \<Longrightarrow> graph_ok (vGraph v) \<Longrightarrow> graph_plain (vGraph v) \<Longrightarrow> plain_catalog (docCatalog d) \<Longrightarrow>
   Catalog_validate (docCatalog d) = None \<Longrightarrow>
   vCatalog v = newCatalogIndex (docCatalog d) \<Longrightarrow> vRole v = LocaleRoleNonSource \<Longrightarrow> validateRounds K v n ops = Inr [] \<Longrightarrow>
   \<forall>op \<in> set ops. flat_operation op \<Longrightarrow> fold_result applyDocumentOperation d ops = Inr d' \<Longrightarrow>
   map shared_part (docNodes d') = map shared_part (docNodes d)"
proof (induction ops arbitrary: v n d)
  case Nil
  then show ?case by simp
next
  case (Cons op ops)
  let ?w = "v\<lparr>vIndex := int n\<rparr>"
  from Cons.prems(8) obtain w where ok: "validator_validate K ?w op = Inr None"
    and acc: "accept ?w op = Inr w" and rest: "validateRounds K w (Suc n) ops = Inr []"
    by (auto simp: Let_def and_then_Inr split: option.splits)
  from Cons.prems(10) obtain e where e: "applyDocumentOperation d op = Inr e"
    and rest': "fold_result applyDocumentOperation e ops = Inr d'" by (auto simp: and_then_Inr)
  have flat: "flat_operation op" and kind: "opKind op \<noteq> OperationReplaceBlockKind"
    using Cons.prems(9) by (auto simp: flat_operation_def)
  have s: "simulates (vGraph ?w) d" and g: "graph_ok (vGraph ?w)" and p: "graph_plain (vGraph ?w)"
    and c: "vCatalog ?w = newCatalogIndex (docCatalog d)" and role: "vRole ?w = LocaleRoleNonSource"
    using Cons.prems by simp_all
  have step: "map shared_part (docNodes e) = map shared_part (docNodes d)"
  proof -
    from nonsource_kinds [OF role ok] consider "opKind op = OperationSetField"
      | "opKind op = OperationCreateTranslation" | "opKind op = OperationDeleteTranslation" by blast
    then show ?thesis
    proof cases
      case 1
      with ok obtain q where q: "opSetField op = Some q" "validateSetField K ?w q = Inr None"
        by (auto simp: validator_validate_def deref_def split: option.splits)
      have "tgtPath (sfTarget q) = []" using flat q by (simp add: flat_operation_def)
      from nonsource_set_field [OF s p Cons.prems(4,5) c role q(2) this] e 1 q show ?thesis
        by (auto simp: applyDocumentOperation_def)
    qed (use e shared_deleteTranslation in \<open>auto simp: applyDocumentOperation_def\<close>)
  qed
  have "graph_ok (vGraph w)" "vCatalog w = newCatalogIndex (docCatalog e)" "vRole w = LocaleRoleNonSource"
    using accept_graph_ok [OF g ok] acc c role apply_catalog [OF e] by auto
  moreover have "simulates (vGraph w) e" by (rule accepted_simulates [OF s g ok acc e kind])
  moreover have "graph_plain (vGraph w)" by (rule accepted_plain [OF p Cons.prems(4) c ok acc kind])
  ultimately have "map shared_part (docNodes d') = map shared_part (docNodes e)"
    using Cons.IH [OF _ _ _ _ _ _ _ rest _ rest'] Cons.prems(4,5,9) apply_catalog [OF e] by auto
  with step show ?case by simp
qed

lemma nonsource_request:
  assumes v: "ValidateOperations K d r = Inr res" "Valid res" and role: "Role d = LocaleRoleNonSource"
    and pl: "plain_catalog (docCatalog d)" and flat: "\<forall>op \<in> set (arOperations r). flat_operation op"
    and app: "DocumentAfterOperations d (arOperations r) = Inr d'"
  shows "mset (map shared_part (docNodes d')) = mset (map (\<lambda>n. shared_part (canonicalNode n)) (docNodes d))"
proof -
  have doc: "Document_validate K d = None" using Valid_accepted [OF v] by blast
  have nodes: "nodes_ok (docNodes d)" and st: "struct_ok (docNodes d)" and cat: "Catalog_validate (docCatalog d) = None"
    using Document_validate_parts [OF doc] validateNodes_ok validateNodes_struct by blast+
  from app obtain cs e fs where cs: "canonicalNodes (docNodes d) = Inr cs"
    and e: "fold_result applyDocumentOperation (d\<lparr>docNodes := cs\<rparr>) (arOperations r) = Inr e"
    and fs: "canonicalNodes (docNodes e) = Inr fs" and d': "d' = e\<lparr>docNodes := fs\<rparr>"
    by (auto simp: DocumentAfterOperations_def and_then_Inr)
  let ?d = "d\<lparr>docNodes := cs\<rparr>" and ?v = "newValidator d r"
  note c = canonicalNodes_simulates [OF st nodes_ok_forest [OF nodes] cs]
  have sim: "simulates (vGraph ?v) ?d"
    using c newOperationGraph_view [OF st] by (simp add: simulates_def newValidator_def)
  have gp: "graph_plain (vGraph ?v)" using initial_plain [OF doc pl] by (simp add: newValidator_def)
  have se: "map shared_part (docNodes e) = map shared_part cs"
    using nonsource_batch [OF sim newValidator_ok(1) [OF doc] gp _ _ _ _ Valid_accepted(7) [OF v] flat e] pl cat role
    by (simp add: newValidator_def)
  have mcs: "mset cs = mset (map canonicalNode (docNodes d))"
    using canonicalNodes_forest [OF nodes_ok_forest [OF nodes]] cs by auto
  have ne: "nodes_ok (docNodes e)"
  proof (rule accepted_batch_tree [OF newValidator_ok(1) [OF doc] _ _ Valid_accepted(7) [OF v] e])
    show "distinct (map nodeID (docNodes ?d))" using c by (simp add: struct_ok_def)
    show "graph_parents (vGraph ?v) = node_parents (docNodes ?d)"
      using canonicalNodes_parents [OF nodes cs] nodes by (simp add: newValidator_def nodes_ok_def newOperationGraph_parents)
  qed
  have mfs: "mset fs = mset (map canonicalNode (docNodes e))"
    using canonicalNodes_forest [OF nodes_ok_forest [OF ne]] fs by auto
  have "mset (map shared_part fs) = mset (map shared_part (map canonicalNode (docNodes e)))"
    unfolding mset_map using mfs by simp
  also have "map shared_part (map canonicalNode (docNodes e)) = map canonicalNode (map shared_part (docNodes e))"
    by (simp add: shared_canonicalNode)
  also have "\<dots> = map shared_part (map canonicalNode cs)" by (simp add: se shared_canonicalNode)
  also have "mset \<dots> = image_mset (\<lambda>n. shared_part (canonicalNode n)) (mset cs)" by (simp add: image_mset.compositionality o_def)
  also have "\<dots> = mset (map (\<lambda>n. shared_part (canonicalNode n)) (docNodes d))"
    by (simp add: mcs image_mset.compositionality o_def canonicalNode_idem)
  finally show ?thesis by (simp add: d')
qed

end
