(* ===== verification/Field_Paths.thy ===== *)
theory Field_Paths
  imports Batch_Correct
begin

text \<open>
  Writes below the top level of a field (\<open>mutateValuePath\<close>): on a value of the shape its schema
  declares, a path the validator resolves is applied without an error and keeps the shape, and a
  value that was set is the value found at the path.
\<close>

section \<open>Conforming values\<close>

definition schema_field :: "FieldSchema \<Rightarrow> FieldID \<Rightarrow> FieldSchema option" where
  "schema_field s k = map_option snd (find (\<lambda>f. fst f = k) (sFields s))"

fun conforms :: "FieldSchema \<Rightarrow> Value \<Rightarrow> bool" where
  "conforms s v \<longleftrightarrow>
     vKind v = sKind s \<and>
     (sKind s = ValueKindList \<longrightarrow> (\<forall>(k, w) \<in> set (vList v). \<forall>t \<in> set_option (sItem s). conforms t w)) \<and>
     (sKind s = ValueKindObject \<longrightarrow>
        (\<forall>(k, w) \<in> set (vObject v). \<forall>t \<in> set_option (schema_field s k). conforms t w))"

declare conforms.simps [simp del]

lemma schema_fields_distinct:
  assumes "schema_ok s" and "sKind s = ValueKindObject" and "\<not> sFile s"
  shows "distinct (map fst (sFields s))"
proof -
  from assms(1) obtain depth where d: "validateFieldSchema s depth = None" by (auto simp: schema_ok_def)
  then have "validateNestedFields (\<lambda>t. validateFieldSchema t (Suc depth)) (sFields s) = None"
    using assms(2,3) by (subst (asm) validateFieldSchema.simps) (auto split: if_splits option.splits)
  then show ?thesis by (simp add: validateNestedFields_None)
qed

lemma map_of_find: "map_of xs k = map_option snd (find (\<lambda>f. fst f = k) xs)"
  by (induction xs) auto

lemma schema_field_map_of:
  "distinct (map fst (sFields s)) \<Longrightarrow> map_of (rev (sFields s)) k = schema_field s k"
proof -
  assume d: "distinct (map fst (sFields s))"
  then have "map_of (rev (sFields s)) = map_of (sFields s)"
    by (simp add: map_of_inject_set rev_map [symmetric])
  moreover have "map_of (sFields s) k = schema_field s k"
    unfolding schema_field_def by (rule map_of_find)
  ultimately show ?thesis by simp
qed

lemma validated_conforms:
  "schema_ok s \<Longrightarrow> validateValueForSchema K depth v s = None \<Longrightarrow> conforms s v"
proof (induction v arbitrary: depth s rule: Value_tree_induct)
  case (Value v)
  from Value.prems(2) have k: "vKind v = sKind s" "\<not> sFile s"
    by (subst (asm) validateValueForSchema.simps, simp split: if_splits)+
  have items: "conforms t w" if "sKind s = ValueKindList" "(a, w) \<in> set (vList v)" "sItem s = Some t" for a w t
  proof -
    have "validateListForSchema (validateValueForSchema K (Suc depth)) (vList v) s = None"
      using Value.prems(2) that(1) by (subst (asm) validateValueForSchema.simps) (simp split: if_splits option.splits)
    then have "validateValueForSchema K (Suc depth) w t = None"
      using that by (auto simp: validateListForSchema_def Let_def first_error_None check_all_None)
    moreover have "schema_ok t" using schema_ok_list [OF Value.prems(1) that(1) k(2)] that(3) by simp
    ultimately show ?thesis using Value.IH(1) [OF that(2)] by blast
  qed
  have objs: "conforms t w" if "sKind s = ValueKindObject" "(a, w) \<in> set (vObject v)" "schema_field s a = Some t" for a w t
  proof -
    have "validateObjectForSchema (validateValueForSchema K (Suc depth)) (vObject v) s = None"
      using Value.prems(2) that(1) by (subst (asm) validateValueForSchema.simps) (simp split: if_splits option.splits)
    then have "validateValueForSchema K (Suc depth) w t = None"
      using that schema_field_map_of [OF schema_fields_distinct [OF Value.prems(1) that(1) k(2)]]
      by (auto simp: validateObjectForSchema_def check_all_None split: option.splits if_splits
          dest!: bspec [of _ _ "(a, w)"])
    moreover have "(a, t) \<in> set (sFields s)" using that(3) by (auto simp: schema_field_def dest: find_SomeD)
    then have "schema_ok t" using schema_ok_object [OF Value.prems(1) that(1) k(2)] by blast
    ultimately show ?thesis using Value.IH(2) [OF that(2)] by blast
  qed
  show ?case by (subst conforms.simps) (use k items objs in auto)
qed

section \<open>Writing through a resolved path\<close>

lemma set_remove_first: "set (remove_first P xs) \<subseteq> set xs"
  by (induction xs) auto

lemma conforms_with_list:
  assumes "conforms s v" and "sKind s = ValueKindList"
    and "\<forall>(k, w) \<in> set items. \<forall>t \<in> set_option (sItem s). conforms t w"
  shows "conforms s (with_list v items)"
  using assms by (subst conforms.simps) (auto simp: conforms.simps [of s v] with_list_def)

lemma conforms_with_object:
  assumes "conforms s v" and "sKind s = ValueKindObject"
    and "\<forall>(k, w) \<in> set fs. \<forall>t \<in> set_option (schema_field s k). conforms t w"
  shows "conforms s (with_object v fs)"
  using assms by (subst conforms.simps) (auto simp: conforms.simps [of s v] with_object_def)

lemma conforms_kind: "conforms s v \<Longrightarrow> vKind v = sKind s"
  by (subst (asm) conforms.simps) simp

lemma conforms_item: "conforms s v \<Longrightarrow> sKind s = ValueKindList \<Longrightarrow> (k, w) \<in> set (vList v) \<Longrightarrow> sItem s = Some t \<Longrightarrow> conforms t w"
  by (subst (asm) conforms.simps) auto

lemma conforms_field: "conforms s v \<Longrightarrow> sKind s = ValueKindObject \<Longrightarrow> (k, w) \<in> set (vObject v) \<Longrightarrow> schema_field s k = Some t \<Longrightarrow> conforms t w"
  by (subst (asm) conforms.simps) auto

lemma schemaStep_object:
  "schemaStep s seg = Inr t \<Longrightarrow> segField seg \<noteq> '''' \<Longrightarrow>
   sKind s = ValueKindObject \<and> \<not> sFile s \<and> schema_field s (segField seg) = Some t"
  by (auto simp: schemaStep_def guard_error_Inr objectFieldSchema_def schema_field_def split: if_splits option.splits)

lemma schemaStep_list:
  "schemaStep s seg = Inr t \<Longrightarrow> segField seg = '''' \<Longrightarrow> sKind s = ValueKindList \<and> \<not> sFile s \<and> sItem s = Some t"
  by (auto simp: schemaStep_def guard_error_Inr listItemSchema_def split: if_splits option.splits ListIdentityKind.splits)

definition writes :: "valueMutation \<Rightarrow> bool \<Rightarrow> Value \<Rightarrow> bool" where
  "writes m setting w \<longleftrightarrow> (if setting then m = Some (\<lambda>_. Inr w) else m = None)"

lemma mutateValuePath_conforms:
  assumes "fold_result schemaStep s path = Inr t" and "path \<noteq> []" and "conforms s v"
    and w: "writes m setting w" "setting \<Longrightarrow> conforms t w"
  shows "\<exists>v'. mutateValuePath m setting path v = Inr v' \<and> conforms s v'"
  using assms(1-3)
proof (induction path arbitrary: s v)
  case Nil
  then show ?case by simp
next
  case (Cons seg rest)
  from Cons.prems(1) obtain s1 where s1: "schemaStep s seg = Inr s1" and rest: "fold_result schemaStep s1 rest = Inr t"
    by (auto simp: and_then_Inr)
  have down: "\<exists>u'. (if rest = [] then call_mutation m u else mutateValuePath m setting rest u) = Inr u' \<and> conforms s1 u'"
    if "conforms s1 u" "rest \<noteq> [] \<or> setting" for u
    using Cons.IH [OF rest _ that(1)] that(2) rest w by (auto simp: writes_def call_mutation_def)
  show ?case
  proof (cases "segField seg = ''''")
    case True
    note k = schemaStep_list [OF s1 True]
    have kv: "vKind v = ValueKindList" using conforms_kind [OF Cons.prems(3)] k by simp
    let ?P = "\<lambda>i. fst i = segItem seg"
    show ?thesis
    proof (cases "find ?P (vList v)")
      case None
      then show ?thesis using True kv Cons.prems(3) by simp
    next
      case (Some kw)
      obtain a u where kw: "kw = (a, u)" by fastforce
      have mem: "(a, u) \<in> set (vList v)" using find_SomeD [OF Some] kw by auto
      have each: "\<forall>(k, w) \<in> set (vList v). \<forall>t \<in> set_option (sItem s). conforms t w"
        using conforms_item [OF Cons.prems(3)] k by auto
      show ?thesis
      proof (cases "rest = [] \<and> \<not> setting")
        case True
        have "conforms s (with_list v (remove_first ?P (vList v)))"
          using each set_remove_first [of ?P "vList v"] k by (intro conforms_with_list [OF Cons.prems(3)]) auto
        then show ?thesis using True \<open>segField seg = ''''\<close> kv Some kw by simp
      next
        case False
        from down [of u] conforms_item [OF Cons.prems(3) _ mem] k False obtain u' where
          u': "(if rest = [] then call_mutation m u else mutateValuePath m setting rest u) = Inr u'" "conforms s1 u'" by auto
        have "conforms s (with_list v (replace_first ?P (a, u') (vList v)))"
          using each set_replace_first [of ?P "(a, u')" "vList v"] k u'(2) by (intro conforms_with_list [OF Cons.prems(3)]) auto
        then show ?thesis using False \<open>segField seg = ''''\<close> kv Some kw u'(1) by (auto split: if_splits)
      qed
    qed
  next
    case False
    note k = schemaStep_object [OF s1 False]
    have kv: "vKind v = ValueKindObject" using conforms_kind [OF Cons.prems(3)] k by simp
    let ?P = "\<lambda>f. fst f = segField seg"
    have each: "\<forall>(k, w) \<in> set (vObject v). \<forall>t \<in> set_option (schema_field s k). conforms t w"
      using conforms_field [OF Cons.prems(3)] k by auto
    show ?thesis
    proof (cases "find ?P (vObject v)")
      case None
      show ?thesis
      proof (cases "setting \<and> rest = []")
        case True
        with rest w have "conforms s1 w" "m = Some (\<lambda>_. Inr w)" by (auto simp: writes_def)
        then have "conforms s (with_object v (vObject v @ [(segField seg, w)]))"
          using each k by (intro conforms_with_object [OF Cons.prems(3)]) auto
        then show ?thesis using True False kv None \<open>m = Some (\<lambda>_. Inr w)\<close> by (simp add: call_mutation_def)
      next
        case no: False
        then show ?thesis using False kv None Cons.prems(3) by auto
      qed
    next
      case (Some kw)
      obtain a u where kw: "kw = (a, u)" by fastforce
      have mem: "(a, u) \<in> set (vObject v)" "a = segField seg" using find_SomeD [OF Some] kw by auto
      show ?thesis
      proof (cases "rest = [] \<and> \<not> setting")
        case True
        have "conforms s (with_object v (remove_first ?P (vObject v)))"
          using each set_remove_first [of ?P "vObject v"] k by (intro conforms_with_object [OF Cons.prems(3)]) auto
        then show ?thesis using True False kv Some kw by simp
      next
        case go: False
        from down [of u] conforms_field [OF Cons.prems(3) _ mem(1)] mem(2) k go obtain u' where
          u': "(if rest = [] then call_mutation m u else mutateValuePath m setting rest u) = Inr u'" "conforms s1 u'" by auto
        have "\<forall>(k, w) \<in> insert (a, u') (set (vObject v)). \<forall>t \<in> set_option (schema_field s k). conforms t w"
          using each k u'(2) mem(2) by auto
        then have "conforms s (with_object v (replace_first ?P (a, u') (vObject v)))"
          using k set_replace_first [of ?P "(a, u')" "vObject v"]
          by (intro conforms_with_object [OF Cons.prems(3)]) blast+
        then show ?thesis using False go kv Some kw u'(1) by (auto split: if_splits)
      qed
    qed
  qed
qed

section \<open>Reading back\<close>

fun value_at :: "FieldPathSegment list \<Rightarrow> Value \<Rightarrow> Value option" where
  "value_at [] v = Some v"
| "value_at (seg # rest) v =
     (if segField seg \<noteq> ''''
        then if vKind v = ValueKindObject
          then Option.bind (map_option snd (find (\<lambda>f. fst f = segField seg) (vObject v))) (value_at rest) else None
      else if vKind v = ValueKindList
          then Option.bind (map_option snd (find (\<lambda>i. fst i = segItem seg) (vList v))) (value_at rest) else None)"

lemma with_simps [simp]:
  "vKind (with_list v xs) = vKind v" "vList (with_list v xs) = xs"
  "vKind (with_object v ys) = vKind v" "vObject (with_object v ys) = ys"
  by (simp_all add: with_list_def with_object_def)

lemma with_same: "with_list v (vList v) = v" "with_object v (vObject v) = v"
  by (simp_all add: with_list_def with_object_def)

lemma replaced_entry:
  "find (\<lambda>f. fst f = k) xs = Some (a, u) \<Longrightarrow>
   find (\<lambda>f. fst f = k) (replace_first (\<lambda>f. fst f = k) (a, u') xs) = Some (a, u')"
  using find_replace_first [of fst k xs "(a, u')"] by (auto dest: find_SomeD)

lemma mutateValuePath_set:
  "mutateValuePath (Some (\<lambda>_. Inr w)) True path v = Inr v' \<Longrightarrow> value_at path v' = Some w \<or> v' = v"
proof (induction path arbitrary: v v')
  case Nil
  then show ?case by simp
next
  case (Cons seg rest)
  let ?m = "Some (\<lambda>_. Inr w) :: valueMutation"
  have down: "value_at rest u' = Some w \<or> u' = u"
    if "(if rest = [] then call_mutation ?m u else mutateValuePath ?m True rest u) = Inr u'" for u u'
    using that Cons.IH by (auto simp: call_mutation_def split: if_splits)
  show ?case
  proof (cases "segField seg = ''''")
    case True
    let ?P = "\<lambda>i. fst i = segItem seg"
    from Cons.prems True have kv: "vKind v = ValueKindList" by (auto split: if_splits)
    show ?thesis
    proof (cases "find ?P (vList v)")
      case None
      then show ?thesis using Cons.prems True kv by simp
    next
      case (Some kw)
      obtain a u where kw: "kw = (a, u)" by fastforce
      from Cons.prems True kv Some kw obtain u' where
        u': "(if rest = [] then call_mutation ?m u else mutateValuePath ?m True rest u) = Inr u'"
        and v': "v' = with_list v (replace_first ?P (a, u') (vList v))" by (auto simp: and_then_Inr)
      have f: "find ?P (replace_first ?P (a, u') (vList v)) = Some (a, u')"
        using Some kw by (intro replaced_entry) simp
      from down [OF u'] show ?thesis
      proof
        assume "value_at rest u' = Some w"
        then show ?thesis using True kv f by (simp add: v')
      next
        assume "u' = u"
        then show ?thesis using Some kw by (simp add: v' replace_first_idem with_same)
      qed
    qed
  next
    case False
    let ?P = "\<lambda>f. fst f = segField seg"
    from Cons.prems False have kv: "vKind v = ValueKindObject" by (auto split: if_splits)
    show ?thesis
    proof (cases "find ?P (vObject v)")
      case None
      then show ?thesis using Cons.prems False kv
        by (auto simp: call_mutation_def find_append_key split: if_splits)
    next
      case (Some kw)
      obtain a u where kw: "kw = (a, u)" by fastforce
      from Cons.prems False kv Some kw obtain u' where
        u': "(if rest = [] then call_mutation ?m u else mutateValuePath ?m True rest u) = Inr u'"
        and v': "v' = with_object v (replace_first ?P (a, u') (vObject v))" by (auto simp: and_then_Inr)
      have f: "find ?P (replace_first ?P (a, u') (vObject v)) = Some (a, u')"
        using Some kw by (intro replaced_entry) simp
      from down [OF u'] show ?thesis
      proof
        assume "value_at rest u' = Some w"
        then show ?thesis using False kv f by (simp add: v')
      next
        assume "u' = u"
        then show ?thesis using Some kw by (simp add: v' replace_first_idem with_same)
      qed
    qed
  qed
qed

end
