(* ===== verification/Go_Runes.thy ===== *)
theory Go_Runes
  imports Go_Strings
begin

text \<open>
  Runes and substrings: \<open>[]rune(s)\<close>, \<open>string(runes)\<close>, \<open>utf8.RuneCountInString\<close> and the substring
  functions of \<open>strings\<close> (\<open>Index\<close>, \<open>Contains\<close>, \<open>Count\<close>, \<open>ReplaceAll\<close>, \<open>Fields\<close>) that the outline and
  the text edits of \<open>internal/aidocument\<close> call.
\<close>

section \<open>UTF-8\<close>

abbreviation byte :: "char \<Rightarrow> nat" where
  "byte c \<equiv> of_char c"

definition continuation :: "nat \<Rightarrow> bool" where
  "continuation b \<longleftrightarrow> 128 \<le> b \<and> b < 192"

text \<open>
  \<open>utf8.DecodeRuneInString\<close>: the rune and its width; a byte that starts no encoding (an over-long
  form, a surrogate and a value above \<open>U+10FFFF\<close> included) is \<open>U+FFFD\<close> of width 1.
\<close>

definition decode_rune :: "string \<Rightarrow> nat \<times> nat" where
  "decode_rune s =
     (case map byte (take 4 s) of
        [] \<Rightarrow> (65533, 0)
      | a # rest \<Rightarrow>
          if a < 128 then (a, 1)
          else if 194 \<le> a \<and> a < 224 \<and> rest \<noteq> [] \<and> continuation (rest ! 0)
            then ((a - 192) * 64 + (rest ! 0 - 128), 2)
          else if 224 \<le> a \<and> a < 240 \<and> 2 \<le> length rest \<and> continuation (rest ! 0) \<and> continuation (rest ! 1)
              \<and> (a = 224 \<longrightarrow> 160 \<le> rest ! 0) \<and> (a = 237 \<longrightarrow> rest ! 0 < 160)
            then ((a - 224) * 4096 + (rest ! 0 - 128) * 64 + (rest ! 1 - 128), 3)
          else if 240 \<le> a \<and> a < 245 \<and> 3 \<le> length rest \<and> continuation (rest ! 0) \<and> continuation (rest ! 1)
              \<and> continuation (rest ! 2) \<and> (a = 240 \<longrightarrow> 144 \<le> rest ! 0) \<and> (a = 244 \<longrightarrow> rest ! 0 < 144)
            then ((a - 240) * 262144 + (rest ! 0 - 128) * 4096 + (rest ! 1 - 128) * 64 + (rest ! 2 - 128), 4)
          else (65533, 1))"

definition valid_rune :: "nat \<Rightarrow> bool" where
  "valid_rune r \<longleftrightarrow> r < 55296 \<or> 57344 \<le> r \<and> r < 1114112"

definition encode_rune :: "nat \<Rightarrow> string" where
  "encode_rune r = map char_of
     (let r = (if valid_rune r then r else 65533) in
      if r < 128 then [r]
      else if r < 2048 then [192 + r div 64, 128 + r mod 64]
      else if r < 65536 then [224 + r div 4096, 128 + r div 64 mod 64, 128 + r mod 64]
      else [240 + r div 262144, 128 + r div 4096 mod 64, 128 + r div 64 mod 64, 128 + r mod 64])"

lemma decode_rune_width: "s \<noteq> [] \<Longrightarrow> 0 < snd (decode_rune s)"
  by (cases s) (simp_all add: decode_rune_def)

function runes :: "string \<Rightarrow> nat list" where
  "runes [] = []"
| "runes (c # s) = fst (decode_rune (c # s)) # runes (drop (snd (decode_rune (c # s))) (c # s))"
  by pat_completeness auto
termination
  by (relation "measure length") (auto simp: decode_rune_width)

definition string_of :: "nat list \<Rightarrow> string" where
  "string_of rs = concat (map encode_rune rs)"

definition rune_count :: "string \<Rightarrow> nat" where
  "rune_count s = length (runes s)"



lemma byte_char_of: "n < 256 \<Longrightarrow> byte (char_of n) = n"
  by (simp add: of_char_of)

lemma split_64: "n = n div 64 * 64 + n mod 64" "n mod 64 < 64" for n :: nat
  by simp_all

lemma div_64: "n div 4096 = n div 64 div 64" "n div 262144 = n div 4096 div 64" for n :: nat
  by (simp_all add: div_mult2_eq [symmetric])

lemma decode_encode:
  assumes "valid_rune r"
  shows "decode_rune (encode_rune r @ s) = (r, length (encode_rune r))"
proof -
  consider "r < 128" | "128 \<le> r" "r < 2048" | "2048 \<le> r" "r < 65536" | "65536 \<le> r" "r < 1114112"
    using assms unfolding valid_rune_def by linarith
  then show ?thesis
  proof cases
    case 1
    then show ?thesis using assms by (simp add: encode_rune_def decode_rune_def byte_char_of)
  next
    case 2
    have b: "192 + r div 64 < 256" "128 + r mod 64 < 256" using 2 by linarith+
    have "194 \<le> 192 + r div 64" "192 + r div 64 < 224" using 2 by linarith+
    moreover have "r div 64 * 64 + r mod 64 = r" by simp
    ultimately show ?thesis using 2 assms
      by (simp add: encode_rune_def decode_rune_def byte_char_of b continuation_def)
  next
    case 3
    have b: "224 + r div 4096 < 256" "128 + r div 64 mod 64 < 256" "128 + r mod 64 < 256" using 3 by linarith+
    note s = split_64 [of r] split_64 [of "r div 64"]
    have e: "r div 4096 * 4096 + r div 64 mod 64 * 64 + r mod 64 = r" using s div_64 [of r] by linarith
    have lead: "224 + r div 4096 < 240" using 3 by linarith
    have over: "r div 4096 = 0 \<longrightarrow> 160 \<le> 128 + r div 64 mod 64" using 3 s e by linarith
    have surr: "r div 4096 = 13 \<longrightarrow> 128 + r div 64 mod 64 < 160"
    proof
      assume "r div 4096 = 13"
      then have "r < 57344" by linarith
      then have "r < 55296" using assms by (simp add: valid_rune_def)
      with \<open>r div 4096 = 13\<close> e show "128 + r div 64 mod 64 < 160" by linarith
    qed
    show ?thesis using 3 assms e lead over surr
      by (simp add: encode_rune_def decode_rune_def byte_char_of b continuation_def)
  next
    case 4
    have b: "240 + r div 262144 < 256" "128 + r div 4096 mod 64 < 256" "128 + r div 64 mod 64 < 256"
      "128 + r mod 64 < 256" using 4 by linarith+
    note s = split_64 [of r] split_64 [of "r div 64"] split_64 [of "r div 4096"]
    have e: "r div 262144 * 262144 + r div 4096 mod 64 * 4096 + r div 64 mod 64 * 64 + r mod 64 = r"
      using s div_64 [of r] by linarith
    have lead: "240 + r div 262144 < 245" using 4 by linarith
    have over: "r div 262144 = 0 \<longrightarrow> 144 \<le> 128 + r div 4096 mod 64" using 4 e s by linarith
    have top: "r div 262144 = 4 \<longrightarrow> 128 + r div 4096 mod 64 < 144" using 4 e by linarith
    show ?thesis using 4 assms e lead over top
      by (simp add: encode_rune_def decode_rune_def byte_char_of b continuation_def)
  qed
qed

lemma encode_rune_nonempty [simp]: "encode_rune r \<noteq> []"
  by (simp add: encode_rune_def Let_def)

lemma runes_nonempty: "s \<noteq> [] \<Longrightarrow> runes s = fst (decode_rune s) # runes (drop (snd (decode_rune s)) s)"
  by (cases s) simp_all

lemma runes_string_of:
  "list_all valid_rune rs \<Longrightarrow> runes (string_of rs @ s) = rs @ runes s"
proof (induction rs)
  case Nil
  then show ?case by (simp add: string_of_def)
next
  case (Cons r rs)
  have "runes (encode_rune r @ (string_of rs @ s)) = r # runes (string_of rs @ s)"
    using decode_encode [of r "string_of rs @ s"] Cons.prems by (subst runes_nonempty) simp_all
  then show ?case using Cons by (simp add: string_of_def)
qed

lemma three_bytes_valid:
  assumes "224 \<le> a" "a < 240" "continuation b" "continuation c" "a = 237 \<longrightarrow> b < 160"
  shows "valid_rune ((a - 224) * 4096 + (b - 128) * 64 + (c - 128))"
proof -
  from assms have b: "b - 128 < 64" "c - 128 < 64" by (auto simp: continuation_def)
  consider "a \<le> 236" | "a = 237" | "238 \<le> a" by linarith
  then show ?thesis
  proof cases
    case 2
    then have "b - 128 < 32" using assms(3,5) by (auto simp: continuation_def)
    with 2 b show ?thesis by (simp add: valid_rune_def)
  qed (use b assms(2) in \<open>auto simp: valid_rune_def\<close>)
qed

lemma four_bytes_valid:
  assumes "240 \<le> a" "a < 245" "continuation b" "continuation c" "continuation d"
    "a = 240 \<longrightarrow> 144 \<le> b" "a = 244 \<longrightarrow> b < 144"
  shows "valid_rune ((a - 240) * 262144 + (b - 128) * 4096 + (c - 128) * 64 + (d - 128))"
proof -
  from assms have b: "b - 128 < 64" "c - 128 < 64" "d - 128 < 64" by (auto simp: continuation_def)
  consider "a = 240" | "a = 244" | "241 \<le> a" "a \<le> 243" using assms by linarith
  then show ?thesis
  proof cases
    case 1
    then have "16 \<le> b - 128" using assms(6) by linarith
    with 1 b show ?thesis by (simp add: valid_rune_def)
  next
    case 2
    then have "b - 128 < 16" using assms(3,7) by (auto simp: continuation_def)
    with 2 b show ?thesis by (simp add: valid_rune_def)
  next
    case 3
    then have "1 \<le> a - 240" "a - 240 \<le> 3" by linarith+
    with b have "262144 \<le> (a - 240) * 262144" "(a - 240) * 262144 \<le> 786432" by simp_all
    with b show ?thesis unfolding valid_rune_def by linarith
  qed
qed

lemma decode_rune_valid: "valid_rune (fst (decode_rune s))"
proof (cases "map byte (take 4 s)")
  case Nil
  then show ?thesis by (simp add: decode_rune_def valid_rune_def)
next
  case (Cons a rest)
  have two: "valid_rune ((a - 192) * 64 + (b - 128))" if "a < 224" "continuation b" for b
    using that unfolding valid_rune_def continuation_def by linarith
  show ?thesis
    using Cons two [of "rest ! 0"] three_bytes_valid [of a "rest ! 0" "rest ! 1"]
      four_bytes_valid [of a "rest ! 0" "rest ! 1" "rest ! 2"]
    unfolding decode_rune_def by (simp add: valid_rune_def)
qed

lemma runes_valid: "list_all valid_rune (runes s)"
  by (induction s rule: runes.induct) (simp_all add: decode_rune_valid)

section \<open>Substrings\<close>

text \<open>\<open>strings.Index\<close>: \<open>None\<close> where Go returns \<open>-1\<close>.\<close>

fun str_index :: "string \<Rightarrow> string \<Rightarrow> nat option" where
  "str_index [] p = (if p = [] then Some 0 else None)"
| "str_index (c # s) p = (if has_prefix (c # s) p then Some 0 else map_option Suc (str_index s p))"

definition str_contains :: "string \<Rightarrow> string \<Rightarrow> bool" where
  "str_contains s p \<longleftrightarrow> str_index s p \<noteq> None"

text \<open>The parts of a string between the non-overlapping occurrences of a separator, left to right.\<close>

function split_str :: "string \<Rightarrow> string \<Rightarrow> string list" where
  "split_str s p =
     (case str_index s p of
        None \<Rightarrow> [s]
      | Some i \<Rightarrow> if p = [] then [s] else take i s # split_str (drop (i + length p) s) p)"
  by pat_completeness auto

lemma str_index_bound: "str_index s p = Some i \<Longrightarrow> i + length p \<le> length s"
proof (induction s arbitrary: i)
  case Nil
  then show ?case by (simp split: if_splits)
next
  case (Cons c s)
  show ?case
  proof (cases "has_prefix (c # s) p")
    case True
    then have "take (length p) (c # s) = p" by (simp add: has_prefix_def)
    then have "length p \<le> length (c # s)" by (metis length_take min.cobounded1 min_def_raw nat_le_linear)
    with True Cons.prems show ?thesis by simp
  qed (use Cons in auto)
qed

termination split_str
proof (relation "measure (\<lambda>(s, p). length s)", simp)
  fix s p i
  assume "str_index s p = Some i" and "p \<noteq> []"
  then show "((drop (i + length p) s, p), s, p) \<in> measure (\<lambda>(s, p). length s)"
    using str_index_bound [of s p i] by (cases p) auto
qed

declare split_str.simps [simp del]

text \<open>The bytes of each rune.\<close>

function rune_bytes :: "string \<Rightarrow> string list" where
  "rune_bytes [] = []"
| "rune_bytes (c # s) =
     take (snd (decode_rune (c # s))) (c # s) # rune_bytes (drop (snd (decode_rune (c # s))) (c # s))"
  by pat_completeness auto
termination
  by (relation "measure length") (auto simp: decode_rune_width)

text \<open>\<open>strings.Count\<close> and \<open>strings.ReplaceAll\<close>; an empty pattern matches around every rune.\<close>

definition str_count :: "string \<Rightarrow> string \<Rightarrow> nat" where
  "str_count s p = (if p = [] then Suc (rune_count s) else length (split_str s p) - 1)"

definition replace_all :: "string \<Rightarrow> string \<Rightarrow> string \<Rightarrow> string" where
  "replace_all s old new =
     (if old = [] then new @ concat (map (\<lambda>r. r @ new) (rune_bytes s))
      else join_with new (split_str s old))"

text \<open>\<open>strings.Fields\<close>; as for \<open>strings.TrimSpace\<close>, a space encoding starts with a lead byte.\<close>

function fields_acc :: "string \<Rightarrow> string \<Rightarrow> string list" where
  "fields_acc acc [] = (if acc = [] then [] else [rev acc])"
| "fields_acc acc (c # s) =
     (case find (\<lambda>w. w \<noteq> [] \<and> has_prefix (c # s) w) space_encodings of
        None \<Rightarrow> fields_acc (c # acc) s
      | Some w \<Rightarrow> (if acc = [] then [] else [rev acc]) @ fields_acc [] (drop (length w) (c # s)))"
  by pat_completeness auto
termination
proof (relation "measure (\<lambda>(acc, s). length s)", simp, simp)
  fix acc s c w
  assume "find (\<lambda>w. w \<noteq> [] \<and> has_prefix (c # s) w) space_encodings = Some w"
  then have "w \<noteq> []" by (auto dest: find_SomeD)
  then show "(([], drop (length w) (c # s)), acc, c # s) \<in> measure (\<lambda>(acc, s). length s)"
    by (cases w) auto
qed

definition str_fields :: "string \<Rightarrow> string list" where
  "str_fields s = fields_acc [] s"

lemma str_index_prefix:
  "str_index s p = Some i \<Longrightarrow> take (length p) (drop i s) = p"
  by (induction s arbitrary: i) (auto simp: has_prefix_def split: if_splits)

lemma split_str_nonempty [simp]: "split_str s p \<noteq> []"
  by (subst split_str.simps) (simp split: option.splits)

lemma join_with_Cons: "ws \<noteq> [] \<Longrightarrow> join_with sep (w # ws) = w @ sep @ join_with sep ws"
  by (cases ws) simp_all

lemma join_split_str: "join_with p (split_str s p) = s"
proof (induction s p rule: split_str.induct)
  case (1 s p)
  show ?case
  proof (cases "str_index s p")
    case None
    then show ?thesis by (subst split_str.simps) simp
  next
    case (Some i)
    show ?thesis
    proof (cases "p = []")
      case True
      then show ?thesis using Some by (subst split_str.simps) simp
    next
      case False
      have "s = take i s @ p @ drop (i + length p) s"
        using str_index_prefix [OF Some] by (metis append_take_drop_id drop_drop add.commute)
      then show ?thesis using Some False 1
        by (subst split_str.simps) (simp add: join_with_Cons)
    qed
  qed
qed

lemma str_count_zero: "p \<noteq> [] \<Longrightarrow> str_count s p = 0 \<longleftrightarrow> \<not> str_contains s p"
proof -
  assume p: "p \<noteq> []"
  have "1 < length (split_str s p) \<longleftrightarrow> str_index s p \<noteq> None"
    using p by (subst split_str.simps) (auto split: option.splits simp: Suc_le_eq)
  then show ?thesis using p by (auto simp: str_count_def str_contains_def)
qed

lemma replace_all_absent: "\<not> str_contains s old \<Longrightarrow> old \<noteq> [] \<Longrightarrow> replace_all s old new = s"
  by (simp add: replace_all_def str_contains_def split_str.simps)

end
