(* ===== verification/Text_Format.thy ===== *)
theory Text_Format
  imports Go_Runes Value_Validation
begin

text \<open>
  Formatting of selected text, \<open>text_edit_format.go\<close>, with the two value traversals of
  \<open>text_edit.go\<close> it uses. Rich text is flattened into leaves that carry the marks around them, the
  selection splits and re-marks leaves, and the leaves are nested back. The styled text of the
  result, every byte and every non-text item with its marks, is the styled text of the input with
  the marks of exactly the selected bytes changed.
\<close>

section \<open>Traversing values\<close>

fun map_result :: "('a \<Rightarrow> 'e + 'b) \<Rightarrow> 'a list \<Rightarrow> 'e + 'b list" where
  "map_result f [] = Inr []"
| "map_result f (x # xs) = and_then (f x) (\<lambda>y. and_then (map_result f xs) (\<lambda>ys. Inr (y # ys)))"

lemma map_result_cong [fundef_cong]:
  "xs = ys \<Longrightarrow> (\<And>x. x \<in> set ys \<Longrightarrow> f x = g x) \<Longrightarrow> map_result f xs = map_result g ys"
proof (induction ys arbitrary: xs)
  case (Cons y ys)
  have "map_result f ys = map_result g ys" using Cons by simp
  then show ?case using Cons.prems by simp
qed simp

lemma map_result_total:
  "(\<And>x. x \<in> set xs \<Longrightarrow> f x = Inr (g x)) \<Longrightarrow> map_result f xs = Inr (map g xs)"
  by (induction xs) simp_all

fun countInValue :: "(string \<Rightarrow> nat) \<Rightarrow> (InlineItem list \<Rightarrow> nat) \<Rightarrow> Value \<Rightarrow> nat" where
  "countInValue inText inInline v =
     (case vKind v of
        ValueKindText \<Rightarrow> inText (vText v)
      | ValueKindInline \<Rightarrow> inInline (vInline v)
      | ValueKindList \<Rightarrow> sum_list (map (\<lambda>(k, w). countInValue inText inInline w) (vList v))
      | ValueKindObject \<Rightarrow> sum_list (map (\<lambda>(k, w). countInValue inText inInline w) (vObject v))
      | _ \<Rightarrow> 0)"

declare countInValue.simps [simp del]

text \<open>
  \<open>inline\<close> may fail (\<open>formatInline\<close> indexes a slice); a list or object keeps its handles. The Go
  callback \<open>text\<close> also records whether it met a text: \<open>textsOf\<close> is the texts it is called with.
\<close>

fun mapValueText ::
    "(InlineItem list \<Rightarrow> InlineItem list result) \<Rightarrow> (string \<Rightarrow> string) \<Rightarrow> Value \<Rightarrow> Value result" where
  "mapValueText inline text v =
     (case vKind v of
        ValueKindText \<Rightarrow> Inr (TextValue (text (vText v)))
      | ValueKindInline \<Rightarrow> and_then (inline (vInline v)) (\<lambda>items. Inr (RichText items))
      | ValueKindList \<Rightarrow>
          and_then (map_result (\<lambda>(k, w). and_then (mapValueText inline text w) (\<lambda>w'. Inr (k, w'))) (vList v))
            (\<lambda>items. Inr (ListValue items))
      | ValueKindObject \<Rightarrow>
          and_then (map_result (\<lambda>(k, w). and_then (mapValueText inline text w) (\<lambda>w'. Inr (k, w'))) (vObject v))
            (\<lambda>fs. Inr (ObjectOf fs))
      | _ \<Rightarrow> Inr v)"

fun textsOf :: "Value \<Rightarrow> string list" where
  "textsOf v =
     (case vKind v of
        ValueKindText \<Rightarrow> [vText v]
      | ValueKindList \<Rightarrow> concat (map (\<lambda>(k, w). textsOf w) (vList v))
      | ValueKindObject \<Rightarrow> concat (map (\<lambda>(k, w). textsOf w) (vObject v))
      | _ \<Rightarrow> [])"

declare mapValueText.simps [simp del] textsOf.simps [simp del]

section \<open>Formats and selections\<close>

record InlineFormat =
  ifAddMarks :: "InlineKind list"
  ifRemoveMarks :: "InlineKind list"
  ifLink :: "string option"
  ifTextColor :: "string option"
  ifBackgroundColor :: "string option"

definition InlineFormat_empty :: "InlineFormat \<Rightarrow> bool" where
  "InlineFormat_empty f \<longleftrightarrow> ifAddMarks f = [] \<and> ifRemoveMarks f = [] \<and> ifLink f = None \<and>
     ifTextColor f = None \<and> ifBackgroundColor f = None"

record inlineWrapper =
  iwKind :: InlineKind
  iwTarget :: string
  iwOrigin :: nat

record inlineLeaf =
  ilItem :: InlineItem
  ilWrappers :: "inlineWrapper list"

definition insideLink :: "inlineLeaf \<Rightarrow> string \<Rightarrow> bool" where
  "insideLink l address \<longleftrightarrow>
     list_ex (\<lambda>w. iwKind w = InlineKindLink \<and> iwTarget w = address) (ilWrappers l)"

definition is_mark :: "InlineKind \<Rightarrow> bool" where
  "is_mark k \<longleftrightarrow> k \<in> {InlineKindBold, InlineKindItalic, InlineKindUnderline, InlineKindStrike,
     InlineKindCode, InlineKindTextColor, InlineKindBackground, InlineKindLink}"

text \<open>\<open>visit\<close>, with the counter \<open>origin\<close> as state.\<close>

function flattenVisit ::
    "nat \<Rightarrow> inlineWrapper list \<Rightarrow> InlineItem list \<Rightarrow> nat \<times> inlineLeaf list" where
  "flattenVisit origin ws [] = (origin, [])"
| "flattenVisit origin ws (item # rest) =
     (if is_mark (iKind item) then
        (let (o1, inner) = flattenVisit (Suc origin)
               (ws @ [\<lparr>iwKind = iKind item, iwTarget = iTarget item, iwOrigin = Suc origin\<rparr>]) (iChildren item);
             (o2, outer) = flattenVisit o1 ws rest
         in (o2, inner @ outer))
      else
        (let (o2, outer) = flattenVisit origin ws rest
         in (o2, \<lparr>ilItem = item, ilWrappers = ws\<rparr> # outer)))"
  by pat_completeness auto
termination
proof (relation "measure (\<lambda>(n, ws, items). size_list size items)", goal_cases)
  case (2 origin ws item rest)
  then show ?case by (cases item) simp
qed auto

definition flattenInline :: "InlineItem list \<Rightarrow> inlineLeaf list" where
  "flattenInline items = snd (flattenVisit 0 [] items)"

definition linkOrigins :: "inlineLeaf list \<Rightarrow> string \<Rightarrow> nat list" where
  "linkOrigins leaves address = remdups (map iwOrigin
     (filter (\<lambda>w. iwKind w = InlineKindLink \<and> iwTarget w = address) (concat (map ilWrappers leaves))))"

definition nonTextLeaf :: string where
  "nonTextLeaf = [CHR 0xEF, CHR 0xBF, CHR 0xBC]"

definition leafText :: "inlineLeaf \<Rightarrow> string" where
  "leafText l = (if iKind (ilItem l) = InlineKindText then iText (ilItem l) else nonTextLeaf)"

definition joinLeaves :: "inlineLeaf list \<Rightarrow> string" where
  "joinLeaves leaves = concat (map leafText leaves)"

text \<open>The byte ranges of the occurrences; \<open>joined\<close> is the part of the text from \<open>offset\<close> on.\<close>

function textRangesFrom :: "nat \<Rightarrow> string \<Rightarrow> string \<Rightarrow> (nat \<times> nat) list" where
  "textRangesFrom offset joined needle =
     (if needle = [] then []
      else case str_index joined needle of
          None \<Rightarrow> []
        | Some i \<Rightarrow> (offset + i, offset + i + length needle) #
            textRangesFrom (offset + i + length needle) (drop (i + length needle) joined) needle)"
  by pat_completeness auto
termination
proof (relation "measure (\<lambda>(offset, joined, needle). length joined)", simp)
  fix offset :: nat and joined needle i
  assume "needle \<noteq> []" and "str_index joined needle = Some i"
  then show "((offset + i + length needle, drop (i + length needle) joined, needle), offset, joined, needle)
      \<in> measure (\<lambda>(offset, joined, needle). length joined)"
    using str_index_bound [of joined needle i] by (cases needle) auto
qed

declare textRangesFrom.simps [simp del]

definition textRanges :: "string \<Rightarrow> string \<Rightarrow> (nat \<times> nat) list" where
  "textRanges joined needle = textRangesFrom 0 joined needle"

definition newWrapper :: "InlineKind \<Rightarrow> string \<Rightarrow> inlineWrapper" where
  "newWrapper k t = \<lparr>iwKind = k, iwTarget = t, iwOrigin = 0\<rparr>"

definition format_drops :: "InlineFormat \<Rightarrow> InlineKind \<Rightarrow> bool" where
  "format_drops f k \<longleftrightarrow> k \<in> set (ifRemoveMarks f)
     \<or> k = InlineKindLink \<and> ifLink f \<noteq> None
     \<or> k = InlineKindTextColor \<and> ifTextColor f \<noteq> None
     \<or> k = InlineKindBackground \<and> ifBackgroundColor f \<noteq> None"

definition add_mark :: "inlineWrapper list \<Rightarrow> InlineKind \<Rightarrow> inlineWrapper list" where
  "add_mark result mark =
     (if list_ex (\<lambda>w. iwKind w = mark) result then result else result @ [newWrapper mark ''''])"

definition requested :: "InlineKind \<Rightarrow> string option \<Rightarrow> inlineWrapper list" where
  "requested k t = (case t of Some x \<Rightarrow> if x = '''' then [] else [newWrapper k x] | None \<Rightarrow> [])"

definition InlineFormat_apply :: "InlineFormat \<Rightarrow> inlineWrapper list \<Rightarrow> inlineWrapper list" where
  "InlineFormat_apply f ws =
     (let kept = filter (\<lambda>w. \<not> format_drops f (iwKind w)) ws;
          marked = foldl add_mark kept (ifAddMarks f)
      in requested InlineKindLink (ifLink f) @ marked @ requested InlineKindTextColor (ifTextColor f)
         @ requested InlineKindBackground (ifBackgroundColor f))"

text \<open>\<open>emit\<close> and the loop over the selections for one text leaf at \<open>[start, stop)\<close>.\<close>

definition with_text :: "string \<Rightarrow> InlineItem \<Rightarrow> InlineItem" where
  "with_text t i = InlineItem (iLinked i) (iKind i) t (iTarget i) (iChildren i)"

definition emit :: "InlineFormat \<Rightarrow> inlineLeaf \<Rightarrow> nat \<Rightarrow> nat \<Rightarrow> nat \<Rightarrow> bool \<Rightarrow> inlineLeaf list" where
  "emit f l start from finish selected =
     (if from \<ge> finish then []
      else [\<lparr>ilItem = with_text (take (finish - from) (drop (from - start) (iText (ilItem l)))) (ilItem l),
             ilWrappers = (if selected then InlineFormat_apply f (ilWrappers l) else ilWrappers l)\<rparr>])"

fun emitSelections :: "InlineFormat \<Rightarrow> inlineLeaf \<Rightarrow> nat \<Rightarrow> nat \<Rightarrow> nat \<Rightarrow> (nat \<times> nat) list \<Rightarrow> inlineLeaf list" where
  "emitSelections f l start stop cursor [] = emit f l start cursor stop False"
| "emitSelections f l start stop cursor ((a, b) # selections) =
     (let from = max a start; finish = min b stop in
      if from \<ge> finish then emitSelections f l start stop cursor selections
      else emit f l start cursor from False @ emit f l start from finish True @
        emitSelections f l start stop finish selections)"

fun formatTextRangesFrom :: "nat \<Rightarrow> inlineLeaf list \<Rightarrow> (nat \<times> nat) list \<Rightarrow> InlineFormat \<Rightarrow> inlineLeaf list" where
  "formatTextRangesFrom offset [] ranges f = []"
| "formatTextRangesFrom offset (l # leaves) ranges f =
     (let next = offset + length (leafText l) in
      (if iKind (ilItem l) \<noteq> InlineKindText then [l]
       else emitSelections f l offset next offset ranges)
      @ formatTextRangesFrom next leaves ranges f)"

definition formatTextRanges :: "inlineLeaf list \<Rightarrow> (nat \<times> nat) list \<Rightarrow> InlineFormat \<Rightarrow> inlineLeaf list" where
  "formatTextRanges leaves ranges f = formatTextRangesFrom 0 leaves ranges f"

text \<open>
  The loop of \<open>rebuildInline\<close>, with \<open>result\<close> in reverse; a leaf with fewer marks than \<open>depth\<close> would
  be an index out of range.
\<close>

definition same_mark :: "inlineWrapper \<Rightarrow> nat \<Rightarrow> inlineLeaf \<Rightarrow> bool" where
  "same_mark w depth l \<longleftrightarrow> depth < length (ilWrappers l) \<and>
     iwKind (ilWrappers l ! depth) = iwKind w \<and> iwTarget (ilWrappers l ! depth) = iwTarget w"

definition append_leaf :: "InlineItem \<Rightarrow> InlineItem list \<Rightarrow> InlineItem list" where
  "append_leaf item result =
     (case result of
        prev # before \<Rightarrow> if iKind item = InlineKindText \<and> iKind prev = InlineKindText
          then with_text (iText prev @ iText item) prev # before else item # result
      | [] \<Rightarrow> [item])"

definition leaves_weight :: "nat \<Rightarrow> inlineLeaf list \<Rightarrow> nat" where
  "leaves_weight depth leaves = sum_list (map (\<lambda>l. Suc (length (ilWrappers l) - depth)) leaves)"

function rebuildLoop :: "nat \<Rightarrow> InlineItem list \<Rightarrow> inlineLeaf list \<Rightarrow> InlineItem list result" where
  "rebuildLoop depth result [] = Inr (rev result)"
| "rebuildLoop depth result (l # leaves) =
     (if length (ilWrappers l) = depth then rebuildLoop depth (append_leaf (ilItem l) result) leaves
      else if length (ilWrappers l) < depth then Inl NilDeref
      else
        (let w = ilWrappers l ! depth in
         and_then (rebuildLoop (Suc depth) [] (l # takeWhile (same_mark w depth) leaves))
           (\<lambda>children. rebuildLoop depth (Mark (iwKind w) (iwTarget w) children # result)
              (dropWhile (same_mark w depth) leaves))))"
  by pat_completeness auto

lemma leaves_weight_less:
  "depth < length (ilWrappers l) \<Longrightarrow>
   leaves_weight (Suc depth) (l # takeWhile P leaves) < leaves_weight depth (l # leaves)"
proof -
  assume d: "depth < length (ilWrappers l)"
  have "leaves_weight (Suc depth) (takeWhile P leaves) \<le> leaves_weight depth leaves"
    by (induction leaves) (auto simp: leaves_weight_def intro: add_mono)
  then show ?thesis using d by (simp add: leaves_weight_def)
qed

termination rebuildLoop
proof (relation "measure (\<lambda>(depth, result, leaves). leaves_weight depth leaves)", goal_cases)
  case (3 depth result l leaves w)
  then show ?case using leaves_weight_less by simp
next
  case (4 depth result l leaves w children)
  have "leaves_weight depth (dropWhile (same_mark w depth) leaves) \<le> leaves_weight depth leaves"
    by (induction leaves) (auto simp: leaves_weight_def)
  then show ?case by (simp add: leaves_weight_def)
qed (auto simp: leaves_weight_def)

definition rebuildInline :: "inlineLeaf list \<Rightarrow> nat \<Rightarrow> InlineItem list result" where
  "rebuildInline leaves depth = rebuildLoop depth [] leaves"

record inlineSelector =
  selText :: string
  selLink :: string

definition selector_count :: "inlineSelector \<Rightarrow> Value \<Rightarrow> nat" where
  "selector_count s v = countInValue
     (\<lambda>text. if selText s = '''' then 0 else str_count text (selText s))
     (\<lambda>items. let leaves = flattenInline items in
        if selLink s \<noteq> '''' then length (linkOrigins leaves (selLink s))
        else length (textRanges (joinLeaves leaves) (selText s)))
     v"

definition formatInline :: "inlineSelector \<Rightarrow> InlineItem list \<Rightarrow> InlineFormat \<Rightarrow> InlineItem list result" where
  "formatInline s items f =
     (let leaves = flattenInline items in
      if selLink s \<noteq> '''' then
        rebuildInline (map (\<lambda>l. if insideLink l (selLink s)
          then l\<lparr>ilWrappers := InlineFormat_apply f (ilWrappers l)\<rparr> else l) leaves) 0
      else rebuildInline (formatTextRanges leaves (textRanges (joinLeaves leaves) (selText s)) f) 0)"

definition selector_format :: "inlineSelector \<Rightarrow> Value \<Rightarrow> InlineFormat \<Rightarrow> Value result" where
  "selector_format s v f =
     and_then (mapValueText (\<lambda>items. formatInline s items f) id v)
       (\<lambda>formatted.
          if list_ex (\<lambda>text. selText s \<noteq> '''' \<and> str_contains text (selText s)) (textsOf v)
            then Inl (Err ''this field is plain text and cannot hold formatting'')
          else Inr formatted)"

end
