(* ===== verification/Format_Correct.thy ===== *)
theory Format_Correct
  imports Text_Format
begin

text \<open>
  Correctness of formatting edits against the styled text of rich text: the sequence of its bytes
  and non-text items, each with the marks around it.
\<close>

section \<open>Styled text\<close>

type_synonym marks = "(InlineKind \<times> string) list"
type_synonym styled = "((char + InlineItem) \<times> marks) list"

definition marks_of :: "inlineWrapper list \<Rightarrow> marks" where
  "marks_of ws = map (\<lambda>w. (iwKind w, iwTarget w)) ws"

definition leaf_style :: "marks \<Rightarrow> InlineItem \<Rightarrow> styled" where
  "leaf_style m item =
     (if iKind item = InlineKindText then map (\<lambda>c. (Inl c, m)) (iText item) else [(Inr item, m)])"

definition leaves_style :: "inlineLeaf list \<Rightarrow> styled" where
  "leaves_style leaves = concat (map (\<lambda>l. leaf_style (marks_of (ilWrappers l)) (ilItem l)) leaves)"

function items_style :: "marks \<Rightarrow> InlineItem list \<Rightarrow> styled" where
  "items_style m [] = []"
| "items_style m (i # rest) =
     (if is_mark (iKind i) then items_style (m @ [(iKind i, iTarget i)]) (iChildren i) else leaf_style m i)
     @ items_style m rest"
  by pat_completeness auto
termination
proof (relation "measure (\<lambda>(m, items). size_list size items)", goal_cases)
  case (2 m i rest)
  then show ?case by (cases i) simp
qed auto

lemma leaves_style_simps [simp]:
  "leaves_style [] = []"
  "leaves_style (l # leaves) = leaf_style (marks_of (ilWrappers l)) (ilItem l) @ leaves_style leaves"
  "leaves_style (xs @ ys) = leaves_style xs @ leaves_style ys"
  by (simp_all add: leaves_style_def)

lemma items_style_append [simp]: "items_style m (xs @ ys) = items_style m xs @ items_style m ys"
  by (induction xs) auto

lemma marks_of_simps [simp]: "length (marks_of ws) = length ws" "marks_of (xs @ ys) = marks_of xs @ marks_of ys"
  "marks_of [] = []" "marks_of (w # ws) = (iwKind w, iwTarget w) # marks_of ws"
  by (simp_all add: marks_of_def)

lemma leaves_style_flatten: "leaves_style (snd (flattenVisit n ws items)) = items_style (marks_of ws) items"
proof (induction n ws items rule: flattenVisit.induct)
  case (1 n ws)
  then show ?case by simp
next
  case (2 n ws item rest)
  then show ?case by (auto simp: Let_def split: prod.splits)
qed

corollary flattenInline_style: "leaves_style (flattenInline items) = items_style [] items"
  by (simp add: flattenInline_def leaves_style_flatten)

section \<open>Leaves of rich text\<close>

definition proper_leaf :: "inlineLeaf \<Rightarrow> bool" where
  "proper_leaf l \<longleftrightarrow> \<not> is_mark (iKind (ilItem l)) \<and> (\<forall>w \<in> set (ilWrappers l). is_mark (iwKind w))"

lemma flattenVisit_proper:
  "\<forall>w \<in> set ws. is_mark (iwKind w) \<Longrightarrow> \<forall>l \<in> set (snd (flattenVisit n ws items)). proper_leaf l"
  by (induction n ws items rule: flattenVisit.induct) (auto simp: proper_leaf_def Let_def split: prod.splits)

lemma flattenInline_proper: "\<forall>l \<in> set (flattenInline items). proper_leaf l"
  unfolding flattenInline_def by (rule flattenVisit_proper) simp

section \<open>Nesting the leaves back\<close>

lemma append_leaf_style:
  assumes "\<not> is_mark (iKind item)"
  shows "items_style m (rev (append_leaf item result)) = items_style m (rev result) @ leaf_style m item"
  using assms
  by (cases result) (auto simp: append_leaf_def leaf_style_def with_text_def is_mark_def)

definition at_depth :: "nat \<Rightarrow> marks \<Rightarrow> inlineLeaf list \<Rightarrow> bool" where
  "at_depth depth m leaves \<longleftrightarrow> length m = depth \<and>
     (\<forall>l \<in> set leaves. proper_leaf l \<and> depth \<le> length (ilWrappers l) \<and> take depth (marks_of (ilWrappers l)) = m)"

lemma at_depth_Suc:
  assumes d: "at_depth depth m (l # leaves)" and l: "depth < length (ilWrappers l)"
  shows "at_depth (Suc depth) (m @ [(iwKind (ilWrappers l ! depth), iwTarget (ilWrappers l ! depth))])
    (l # takeWhile (same_mark (ilWrappers l ! depth) depth) leaves)"
proof -
  let ?w = "ilWrappers l ! depth"
  have nth: "take (Suc depth) (marks_of ws) = take depth (marks_of ws) @ [(iwKind (ws ! depth), iwTarget (ws ! depth))]"
    if "depth < length ws" for ws
    using that by (simp add: take_Suc_conv_app_nth marks_of_def)
  have "proper_leaf x \<and> Suc depth \<le> length (ilWrappers x) \<and>
      take (Suc depth) (marks_of (ilWrappers x)) = m @ [(iwKind ?w, iwTarget ?w)]"
    if "x \<in> set (l # takeWhile (same_mark ?w depth) leaves)" for x
  proof -
    have x: "x \<in> set (l # leaves)" "same_mark ?w depth x"
      using that l by (auto simp: same_mark_def dest: set_takeWhileD)
    then show ?thesis using d nth [of "ilWrappers x"] unfolding at_depth_def same_mark_def by auto
  qed
  then show ?thesis using d by (simp add: at_depth_def)
qed

lemma rebuildLoop_style:
  "at_depth depth m leaves \<Longrightarrow>
   \<exists>items. rebuildLoop depth result leaves = Inr items \<and>
     items_style m items = items_style m (rev result) @ leaves_style leaves"
proof (induction depth result leaves arbitrary: m rule: rebuildLoop.induct)
  case (1 depth result)
  then show ?case by simp
next
  case (2 depth result l leaves)
  from 2 have p: "proper_leaf l" and len: "depth \<le> length (ilWrappers l)" "length m = depth"
    and pre: "take depth (marks_of (ilWrappers l)) = m" by (auto simp: at_depth_def)
  show ?case
  proof (cases "length (ilWrappers l) = depth")
    case True
    then have "marks_of (ilWrappers l) = m" using pre by simp
    moreover have "at_depth depth m leaves" using "2.prems" by (simp add: at_depth_def)
    ultimately show ?thesis using "2.IH"(1) [OF True] True p
      by (auto simp: append_leaf_style proper_leaf_def)
  next
    case False
    let ?w = "ilWrappers l ! depth"
    let ?m = "m @ [(iwKind ?w, iwTarget ?w)]"
    from False len have deep: "depth < length (ilWrappers l)" "\<not> length (ilWrappers l) < depth" by auto
    have k: "is_mark (iwKind ?w)" using p deep by (simp add: proper_leaf_def)
    from "2.IH"(2) [OF False deep(2) refl at_depth_Suc [OF "2.prems" deep(1)]] obtain children where
      c: "rebuildLoop (Suc depth) [] (l # takeWhile (same_mark ?w depth) leaves) = Inr children"
        "items_style ?m children = leaves_style (l # takeWhile (same_mark ?w depth) leaves)" by auto
    have "at_depth depth m (dropWhile (same_mark ?w depth) leaves)"
      using "2.prems" by (auto simp: at_depth_def dest: set_dropWhileD)
    from "2.IH"(3) [OF False deep(2) refl this] obtain items where
      i: "rebuildLoop depth (Mark (iwKind ?w) (iwTarget ?w) children # result) (dropWhile (same_mark ?w depth) leaves) = Inr items"
        "items_style m items = items_style m (rev (Mark (iwKind ?w) (iwTarget ?w) children # result)) @
          leaves_style (dropWhile (same_mark ?w depth) leaves)" by blast
    have "leaves_style (takeWhile (same_mark ?w depth) leaves) @ leaves_style (dropWhile (same_mark ?w depth) leaves) =
        leaves_style leaves"
      by (simp flip: leaves_style_simps(3))
    then show ?thesis using False deep c i k by (simp add: Let_def Mark_def)
  qed
qed

corollary rebuildInline_style:
  "\<forall>l \<in> set leaves. proper_leaf l \<Longrightarrow>
   \<exists>items. rebuildInline leaves 0 = Inr items \<and> items_style [] items = leaves_style leaves"
  using rebuildLoop_style [of 0 "[]" leaves "[]"] by (simp add: rebuildInline_def at_depth_def)

section \<open>Applying a format to the marks of one place\<close>

definition apply_marks :: "InlineFormat \<Rightarrow> marks \<Rightarrow> marks" where
  "apply_marks f m =
     marks_of (InlineFormat_apply f (map (\<lambda>(k, t). \<lparr>iwKind = k, iwTarget = t, iwOrigin = 0\<rparr>) m))"

definition forget :: "inlineWrapper list \<Rightarrow> inlineWrapper list" where
  "forget ws = map (\<lambda>w. w\<lparr>iwOrigin := 0\<rparr>) ws"

lemma foldl_forget:
  assumes "\<And>r x. forget (g r x) = g (forget r) x"
  shows "forget (foldl g r xs) = foldl g (forget r) xs"
  using assms by (induction xs arbitrary: r) simp_all

lemma apply_forget: "forget (InlineFormat_apply f ws) = InlineFormat_apply f (forget ws)"
proof -
  have filt: "forget (filter (\<lambda>w. P (iwKind w)) ws) = filter (\<lambda>w. P (iwKind w)) (forget ws)" for P
    by (induction ws) (simp_all add: forget_def)
  have app: "forget (xs @ ys) = forget xs @ forget ys" for xs ys by (simp add: forget_def)
  have ex: "list_ex (\<lambda>w. iwKind w = k) (forget r) = list_ex (\<lambda>w. iwKind w = k) r" for k r
    by (induction r) (simp_all add: forget_def)
  have new: "forget [newWrapper k t] = [newWrapper k t]" for k t by (simp add: forget_def newWrapper_def)
  have add: "forget (foldl add_mark r xs) = foldl add_mark (forget r) xs" for r xs
    by (rule foldl_forget) (simp add: add_mark_def app ex new)
  have req: "forget (requested k t) = requested k t" for k t
    by (simp add: requested_def new forget_def [of "[]"] split: option.splits)
  show ?thesis
    unfolding InlineFormat_apply_def Let_def
    by (simp add: app add req filt [of "\<lambda>k. \<not> format_drops f k"])
qed

lemma marks_of_forget [simp]: "marks_of (forget ws) = marks_of ws"
  by (simp add: marks_of_def forget_def)

lemma apply_marks_of: "marks_of (InlineFormat_apply f ws) = apply_marks f (marks_of ws)"
proof -
  have "map (\<lambda>(k, t). \<lparr>iwKind = k, iwTarget = t, iwOrigin = 0\<rparr>) (marks_of ws) = forget ws"
    by (induction ws) (simp_all add: forget_def)
  then show ?thesis using apply_forget [of f ws] by (simp add: apply_marks_def) (metis marks_of_forget)
qed

lemma apply_proper:
  assumes "\<forall>k \<in> set (ifAddMarks f). is_mark k" and "\<forall>w \<in> set ws. is_mark (iwKind w)"
  shows "\<forall>w \<in> set (InlineFormat_apply f ws). is_mark (iwKind w)"
proof -
  have fold: "\<forall>w \<in> set (foldl add_mark r xs). is_mark (iwKind w)"
    if "\<forall>w \<in> set r. is_mark (iwKind w)" "\<forall>k \<in> set xs. is_mark k" for r xs
    using that
  proof (induction xs arbitrary: r)
    case (Cons x xs)
    have "\<forall>w \<in> set (add_mark r x). is_mark (iwKind w)" using Cons.prems by (auto simp: add_mark_def newWrapper_def)
    with Cons show ?case by simp
  qed simp
  have req: "is_mark k \<Longrightarrow> \<forall>w \<in> set (requested k t). is_mark (iwKind w)" for k t
    by (auto simp: requested_def newWrapper_def split: option.splits)
  have colors: "is_mark InlineKindTextColor" "is_mark InlineKindBackground" "is_mark InlineKindLink"
    by (simp_all add: is_mark_def)
  show ?thesis
    unfolding InlineFormat_apply_def Let_def
    using fold [of "filter (\<lambda>w. \<not> format_drops f (iwKind w)) ws", OF _ assms(1)] assms(2) req colors
    by auto
qed

section \<open>The selected ranges\<close>

lemma textRangesFrom_occurrences:
  "(a, b) \<in> set (textRangesFrom n s p) \<Longrightarrow>
   n \<le> a \<and> b = a + length p \<and> b \<le> n + length s \<and> take (length p) (drop (a - n) s) = p \<and> p \<noteq> []"
proof (induction n s p rule: textRangesFrom.induct)
  case (1 n s p)
  have "p \<noteq> [] \<and> str_index s p \<noteq> None"
    using "1.prems" by (subst (asm) textRangesFrom.simps) (cases "str_index s p"; simp split: if_splits)
  then obtain i where p: "p \<noteq> []" and i: "str_index s p = Some i" by auto
  note bound = str_index_bound [OF i] and here = str_index_prefix [OF i]
  from "1.prems" p i consider "a = n + i" "b = n + i + length p"
    | "(a, b) \<in> set (textRangesFrom (n + i + length p) (drop (i + length p) s) p)"
    by (subst (asm) textRangesFrom.simps) auto
  then show ?case
  proof cases
    case 1
    then show ?thesis using p bound here by simp
  next
    case 2
    from "1.IH" [OF p i this] have "n + i + length p \<le> a" "b = a + length p" "b \<le> n + length s"
      "take (length p) (drop (a - (n + i + length p) + (i + length p)) s) = p"
      using bound by auto
    moreover have "a - (n + i + length p) + (i + length p) = a - n" using calculation(1) by simp
    ultimately show ?thesis using p by simp
  qed
qed

lemma textRangesFrom_sorted: "sorted_wrt (\<lambda>x y. snd x \<le> fst y) (textRangesFrom n s p)"
proof (induction n s p rule: textRangesFrom.induct)
  case (1 n s p)
  then show ?case
    by (subst textRangesFrom.simps) (auto split: option.splits dest!: textRangesFrom_occurrences)
qed

lemma textRangesFrom_count: "p \<noteq> [] \<Longrightarrow> length (textRangesFrom n s p) = str_count s p"
proof (induction n s p rule: textRangesFrom.induct)
  case (1 n s p)
  show ?case
  proof (cases "str_index s p")
    case None
    then show ?thesis using 1 by (simp add: textRangesFrom.simps str_count_def split_str.simps)
  next
    case (Some i)
    have "length (split_str (drop (i + length p) s) p) = Suc (length (split_str (drop (i + length p) s) p) - 1)"
      by (metis Suc_diff_1 length_greater_0_conv split_str_nonempty)
    with 1 Some show ?thesis
      by (subst textRangesFrom.simps) (simp add: str_count_def split_str.simps [of s])
  qed
qed

section \<open>Splitting text leaves at the selection\<close>

definition selected :: "(nat \<times> nat) list \<Rightarrow> nat \<Rightarrow> bool" where
  "selected ranges p \<longleftrightarrow> list_ex (\<lambda>(a, b). a \<le> p \<and> p < b) ranges"

definition restyled :: "InlineFormat \<Rightarrow> (nat \<times> nat) list \<Rightarrow> marks \<Rightarrow> nat \<Rightarrow> marks" where
  "restyled f ranges m p = (if selected ranges p then apply_marks f m else m)"

text \<open>The styled text with the marks of the selected bytes changed; a non-text item has 3 bytes.\<close>

fun restyle :: "InlineFormat \<Rightarrow> (nat \<times> nat) list \<Rightarrow> nat \<Rightarrow> styled \<Rightarrow> styled" where
  "restyle f ranges p [] = []"
| "restyle f ranges p ((Inl c, m) # rest) = (Inl c, restyled f ranges m p) # restyle f ranges (Suc p) rest"
| "restyle f ranges p ((Inr i, m) # rest) = (Inr i, m) # restyle f ranges (p + length nonTextLeaf) rest"

lemma take_drop_nth:
  "start \<le> a \<Longrightarrow> b \<le> start + length t \<Longrightarrow> take (b - a) (drop (a - start) t) = map (\<lambda>p. t ! (p - start)) [a..<b]"
proof (rule nth_equalityI)
  assume a: "start \<le> a" "b \<le> start + length t"
  show len: "length (take (b - a) (drop (a - start) t)) = length (map (\<lambda>p. t ! (p - start)) [a..<b])"
    using a by auto
  fix i assume "i < length (take (b - a) (drop (a - start) t))"
  then have i: "i < b - a" "a - start + i < length t" using a by auto
  then have "a + i - start = a - start + i" using a by simp
  with i show "take (b - a) (drop (a - start) t) ! i = map (\<lambda>p. t ! (p - start)) [a..<b] ! i"
    by simp
qed

lemma emit_style:
  assumes "iKind (ilItem l) = InlineKindText" and "start \<le> a" and "b \<le> start + length (iText (ilItem l))"
  shows "leaves_style (emit f l start a b sel) =
    map (\<lambda>p. (Inl (iText (ilItem l) ! (p - start)),
      if sel then apply_marks f (marks_of (ilWrappers l)) else marks_of (ilWrappers l))) [a..<b]"
  using assms
  by (simp add: emit_def leaf_style_def with_text_def take_drop_nth apply_marks_of o_def)

lemma emitSelections_style:
  assumes k: "iKind (ilItem l) = InlineKindText" and stop: "stop = start + length (iText (ilItem l))"
  shows "sorted_wrt (\<lambda>x y. snd x \<le> fst y) ranges \<Longrightarrow> \<forall>(a, b) \<in> set ranges. a < b \<and> (b \<le> start \<or> cursor \<le> max a start) \<Longrightarrow>
    start \<le> cursor \<Longrightarrow> cursor \<le> stop \<Longrightarrow>
    leaves_style (emitSelections f l start stop cursor ranges) =
      map (\<lambda>p. (Inl (iText (ilItem l) ! (p - start)), restyled f ranges (marks_of (ilWrappers l)) p)) [cursor..<stop]"
proof (induction ranges arbitrary: cursor)
  case Nil
  then show ?case using emit_style [OF k, of start cursor stop f False] stop
    by (simp add: restyled_def selected_def)
next
  case (Cons r ranges)
  obtain a b where r: "r = (a, b)" by fastforce
  let ?t = "iText (ilItem l)" and ?m = "marks_of (ilWrappers l)"
  have tail: "sorted_wrt (\<lambda>x y. snd x \<le> fst y) ranges" "\<forall>(c, d) \<in> set ranges. b \<le> c \<and> c < d" and ab: "a < b"
    using Cons.prems r by auto
  show ?case
  proof (cases "max a start \<ge> min b stop")
    case True
    have "selected ((a, b) # ranges) p = selected ranges p" if "p \<in> set [cursor..<stop]" for p
      using True that Cons.prems(3) by (auto simp: selected_def)
    moreover have "leaves_style (emitSelections f l start stop cursor ranges) =
        map (\<lambda>p. (Inl (?t ! (p - start)), restyled f ranges ?m p)) [cursor..<stop]"
      using Cons.prems tail(1) by (intro Cons.IH) auto
    ultimately show ?thesis using True r by (simp add: restyled_def)
  next
    case False
    let ?x = "max a start" and ?y = "min b stop"
    have order: "cursor \<le> ?x" "?x \<le> ?y" "?y \<le> stop" "start \<le> ?y" using False Cons.prems r by auto
    have rest: "leaves_style (emitSelections f l start stop ?y ranges) =
        map (\<lambda>p. (Inl (?t ! (p - start)), restyled f ranges ?m p)) [?y..<stop]"
    proof (rule Cons.IH [OF tail(1)])
      show "\<forall>(c, d) \<in> set ranges. c < d \<and> (d \<le> start \<or> ?y \<le> max c start)"
        using tail(2) by (fastforce simp: le_max_iff_disj min_le_iff_disj)
    qed (use order in auto)
    have early: "restyled f (r # ranges) ?m p = ?m" if "p \<in> set [cursor..<?x]" for p
      using that tail(2) ab Cons.prems(3) unfolding restyled_def selected_def r by (auto simp: list_ex_iff)
    have here: "restyled f (r # ranges) ?m p = apply_marks f ?m" if "p \<in> set [?x..<?y]" for p
      using that unfolding restyled_def selected_def r by auto
    have late: "restyled f (r # ranges) ?m p = restyled f ranges ?m p" if "p \<in> set [?y..<stop]" for p
      using that unfolding restyled_def selected_def r by auto
    have "[cursor..<stop] = [cursor..<?x] @ [?x..<?y] @ [?y..<stop]"
      using order by (metis le_trans upt_add_eq_append le_add_diff_inverse)
    then show ?thesis
      using False emit_style [OF k, of start cursor ?x f False] emit_style [OF k, of start ?x ?y f True]
        rest order Cons.prems(3) stop early here late
      by (simp add: r Let_def)
  qed
qed

lemma restyle_text:
  "restyle f ranges p (map (\<lambda>c. (Inl c, m)) t @ rest) =
   map (\<lambda>q. (Inl (t ! (q - p)), restyled f ranges m q)) [p..<p + length t] @ restyle f ranges (p + length t) rest"
proof (induction t arbitrary: p)
  case (Cons c t)
  have "map (\<lambda>q. (Inl (t ! (q - Suc p)), restyled f ranges m q)) [Suc p..<Suc p + length t] =
      map (\<lambda>q. (Inl ((c # t) ! (q - p)), restyled f ranges m q)) [Suc p..<Suc p + length t]"
    by (rule map_cong) (auto simp: nth_Cons')
  moreover have "[p..<p + length (c # t)] = p # [Suc p..<Suc p + length t]"
    by (simp add: upt_conv_Cons del: upt_Suc)
  ultimately show ?case using Cons [of "Suc p"] by (simp del: upt_Suc)
qed simp

lemma formatTextRangesFrom_style:
  assumes s: "sorted_wrt (\<lambda>x y. snd x \<le> fst y) ranges" and lt: "\<forall>(a, b) \<in> set ranges. a < b"
  shows "leaves_style (formatTextRangesFrom p leaves ranges f) = restyle f ranges p (leaves_style leaves)"
proof (induction leaves arbitrary: p)
  case (Cons l leaves)
  show ?case
  proof (cases "iKind (ilItem l) = InlineKindText")
    case True
    have "leaves_style (emitSelections f l p (p + length (iText (ilItem l))) p ranges) =
        map (\<lambda>q. (Inl (iText (ilItem l) ! (q - p)), restyled f ranges (marks_of (ilWrappers l)) q))
          [p..<p + length (iText (ilItem l))]"
      using lt by (intro emitSelections_style [OF True refl s]) auto
    then show ?thesis using Cons True by (simp add: leafText_def leaf_style_def restyle_text Let_def)
  next
    case False
    then show ?thesis using Cons by (simp add: leafText_def leaf_style_def Let_def)
  qed
qed simp

lemma emit_proper:
  assumes "proper_leaf l" and "\<forall>k \<in> set (ifAddMarks f). is_mark k"
  shows "\<forall>x \<in> set (emit f l start a b sel). proper_leaf x"
  using assms apply_proper [OF assms(2), of "ilWrappers l"]
  by (auto simp: emit_def proper_leaf_def with_text_def)

lemma formatTextRangesFrom_proper:
  assumes m: "\<forall>k \<in> set (ifAddMarks f). is_mark k"
  shows "\<forall>l \<in> set leaves. proper_leaf l \<Longrightarrow> \<forall>l \<in> set (formatTextRangesFrom p leaves ranges f). proper_leaf l"
proof (induction leaves arbitrary: p)
  case (Cons l leaves)
  have "\<forall>x \<in> set (emitSelections f l start stop cursor rs). proper_leaf x" for start stop cursor rs
    using Cons.prems emit_proper [OF _ m, of l]
    by (induction f l start stop cursor rs rule: emitSelections.induct) (auto simp: Let_def)
  then show ?case using Cons by (auto simp: Let_def)
qed simp

section \<open>Formatting edits\<close>

lemma formatInline_text:
  assumes m: "\<forall>k \<in> set (ifAddMarks f). is_mark k" and s: "selLink s = ''''"
  shows "\<exists>items'. formatInline s items f = Inr items' \<and>
    items_style [] items' =
      restyle f (textRanges (joinLeaves (flattenInline items)) (selText s)) 0 (items_style [] items)"
proof -
  let ?leaves = "flattenInline items"
  let ?ranges = "textRanges (joinLeaves ?leaves) (selText s)"
  have "leaves_style (formatTextRanges ?leaves ?ranges f) = restyle f ?ranges 0 (leaves_style ?leaves)"
    unfolding formatTextRanges_def textRanges_def
    by (rule formatTextRangesFrom_style [OF textRangesFrom_sorted])
      (auto dest!: textRangesFrom_occurrences)
  moreover have "\<forall>l \<in> set (formatTextRanges ?leaves ?ranges f). proper_leaf l"
    unfolding formatTextRanges_def by (rule formatTextRangesFrom_proper [OF m flattenInline_proper])
  ultimately show ?thesis
    using rebuildInline_style [of "formatTextRanges ?leaves ?ranges f"] s
    by (simp add: formatInline_def Let_def flattenInline_style)
qed

lemma leaves_style_map:
  assumes "\<And>l. l \<in> set leaves \<Longrightarrow> ilItem (g l) = ilItem l \<and> marks_of (ilWrappers (g l)) = h (marks_of (ilWrappers l))"
  shows "leaves_style (map g leaves) = map (\<lambda>(x, m). (x, h m)) (leaves_style leaves)"
  using assms by (induction leaves) (auto simp: leaf_style_def o_def)

lemma formatInline_link:
  assumes m: "\<forall>k \<in> set (ifAddMarks f). is_mark k" and s: "selLink s \<noteq> ''''"
  shows "\<exists>items'. formatInline s items f = Inr items' \<and>
    items_style [] items' =
      map (\<lambda>(x, m). (x, if (InlineKindLink, selLink s) \<in> set m then apply_marks f m else m)) (items_style [] items)"
proof -
  let ?g = "\<lambda>l. if insideLink l (selLink s) then l\<lparr>ilWrappers := InlineFormat_apply f (ilWrappers l)\<rparr> else l"
  let ?leaves = "map ?g (flattenInline items)"
  have inside: "insideLink l (selLink s) \<longleftrightarrow> (InlineKindLink, selLink s) \<in> set (marks_of (ilWrappers l))" for l
    unfolding insideLink_def list_ex_iff marks_of_def set_map image_iff by (metis Pair_inject)
  have "leaves_style ?leaves = map (\<lambda>(x, m). (x, if (InlineKindLink, selLink s) \<in> set m then apply_marks f m else m))
      (leaves_style (flattenInline items))"
    by (rule leaves_style_map) (simp add: inside apply_marks_of)
  moreover have "\<forall>l \<in> set ?leaves. proper_leaf l"
    using flattenInline_proper [of items] apply_proper [OF m] by (auto simp: proper_leaf_def)
  ultimately show ?thesis
    using rebuildInline_style [of ?leaves] s by (simp add: formatInline_def Let_def flattenInline_style)
qed

lemma restyle_content: "map fst (restyle f ranges p st) = map fst st"
  by (induction f ranges p st rule: restyle.induct) simp_all

end
