(* ===== verification/Text_Edit.thy ===== *)
theory Text_Edit
  imports Format_Correct Canonical
begin

text \<open>
  Batches of text edits, \<open>text_edit.go\<close>: each edit selects text in the locale-owned fields of the
  given nodes, replaces or formats it, and the plan has one field write per changed field.
\<close>

section \<open>Edits and plans\<close>

record TextEdit =
  teBlock :: BlockID
  teFind :: string
  teFindLink :: string
  teAllOccurrences :: bool
  teReplace :: "string option"
  teFormat :: "InlineFormat option"

record TextEditMatch =
  tmBlocks :: "BlockID list"
  tmFields :: "FieldTarget list"
  tmOccurrences :: nat

record TextEditPreview =
  tpBlock :: BlockID
  tpField :: FieldID
  tpBefore :: string
  tpAfter :: string

record TextEditPlan =
  planOperations :: "Operation list"
  planMatches :: "TextEditMatch list"
  planPreviews :: "TextEditPreview list"

record editableField =
  efTarget :: FieldTarget
  efOriginal :: Value
  efValue :: Value
  efChanged :: bool

section \<open>Joined text and previews\<close>

function appendJoinedInline :: "InlineItem list \<Rightarrow> string" where
  "appendJoinedInline [] = []"
| "appendJoinedInline (i # rest) =
     (case iKind i of InlineKindText \<Rightarrow> iText i | InlineKindHardBreak \<Rightarrow> [CHR 0x0A] | _ \<Rightarrow> [])
     @ appendJoinedInline (iChildren i) @ appendJoinedInline rest"
  by pat_completeness auto
termination
proof (relation "measure (\<lambda>items. size_list size items)", goal_cases)
  case (2 i rest)
  then show ?case by (cases i) simp
qed auto

fun appendJoinedText :: "Value \<Rightarrow> string" where
  "appendJoinedText v =
     (case vKind v of
        ValueKindText \<Rightarrow> vText v
      | ValueKindInline \<Rightarrow> appendJoinedInline (vInline v)
      | ValueKindList \<Rightarrow> concat (map (\<lambda>(k, w). appendJoinedText w @ [CHR 0x0A]) (vList v))
      | ValueKindObject \<Rightarrow> concat (map (\<lambda>(k, w). appendJoinedText w @ [CHR 0x0A]) (vObject v))
      | _ \<Rightarrow> [])"

declare appendJoinedText.simps [simp del]

definition textEditPreviewRunes :: nat where "textEditPreviewRunes = 200"
definition textEditContextRunes :: nat where "textEditContextRunes = 40"

definition ellipsis :: string where
  "ellipsis = [CHR 0xE2, CHR 0x80, CHR 0xA6]"

definition previewRunes :: "nat list \<Rightarrow> nat \<Rightarrow> string" where
  "previewRunes text start =
     (let finish = min (length text) (start + textEditPreviewRunes);
          preview = string_of (drop (min start finish) (take finish text));
          led = (if start > 0 then ellipsis @ preview else preview)
      in if finish < length text then led @ ellipsis else led)"

fun common_prefix :: "nat list \<Rightarrow> nat list \<Rightarrow> nat" where
  "common_prefix (x # xs) (y # ys) = (if x = y then Suc (common_prefix xs ys) else 0)"
| "common_prefix _ _ = 0"

definition newTextEditPreview :: "editableField \<Rightarrow> TextEditPreview" where
  "newTextEditPreview field =
     (let before = runes (appendJoinedText (efOriginal field));
          after = runes (appendJoinedText (efValue field));
          start = common_prefix before after - textEditContextRunes
      in \<lparr>tpBlock = tgtBlock (efTarget field), tpField = tgtField (efTarget field),
          tpBefore = previewRunes before start, tpAfter = previewRunes after start\<rparr>)"

section \<open>Replacing text\<close>

function countInlineText :: "InlineItem list \<Rightarrow> string \<Rightarrow> nat" where
  "countInlineText [] needle = 0"
| "countInlineText (i # rest) needle =
     (if iKind i = InlineKindText then str_count (iText i) needle else 0)
     + countInlineText (iChildren i) needle + countInlineText rest needle"
  by pat_completeness auto
termination
proof (relation "measure (\<lambda>(items, needle). size_list size items)", goal_cases)
  case (2 i rest needle)
  then show ?case by (cases i) simp
qed auto

definition countValueText :: "Value \<Rightarrow> string \<Rightarrow> nat" where
  "countValueText v needle =
     countInValue (\<lambda>t. str_count t needle) (\<lambda>items. countInlineText items needle) v"

function replaceInlineText :: "InlineItem list \<Rightarrow> string \<Rightarrow> string \<Rightarrow> InlineItem list" where
  "replaceInlineText [] needle replacement = []"
| "replaceInlineText (i # rest) needle replacement =
     (let t = (if iKind i = InlineKindText then replace_all (iText i) needle replacement else iText i);
          cs = (if iChildren i \<noteq> [] then replaceInlineText (iChildren i) needle replacement else []);
          tail = replaceInlineText rest needle replacement
      in if iKind i = InlineKindText \<and> t = [] then tail
         else if iChildren i \<noteq> [] \<and> cs = [] then tail
         else InlineItem (iLinked i) (iKind i) t (iTarget i) cs # tail)"
  by pat_completeness auto
termination
proof (relation "measure (\<lambda>(items, needle, replacement). size_list size items)", goal_cases)
  case (2 i rest needle replacement)
  then show ?case by (cases i) simp
qed auto

definition replaceValueText :: "Value \<Rightarrow> string \<Rightarrow> string \<Rightarrow> Value result" where
  "replaceValueText v needle replacement =
     mapValueText (\<lambda>items. Inr (replaceInlineText items needle replacement))
       (\<lambda>t. replace_all t needle replacement) v"

section \<open>Applying one edit\<close>

definition TextEdit_validate :: "TextEdit \<Rightarrow> error option" where
  "TextEdit_validate e = first_error
     [fail_if ((teFind e = '''') = (teFindLink e = '''')) ''pass exactly one of find and find_link'',
      fail_if ((teReplace e = None) = (teFormat e = None))
        ''an edit either replaces text or changes its formatting'',
      fail_if (teReplace e \<noteq> None \<and> (teFindLink e \<noteq> '''' \<or> Some (teFind e) = teReplace e))
        ''replace needs find and must differ from it'',
      fail_if (case teFormat e of None \<Rightarrow> False | Some f \<Rightarrow> InlineFormat_empty f)
        ''name the formatting to change'']"

definition covers :: "TextEdit \<Rightarrow> editableField \<Rightarrow> bool" where
  "covers e field \<longleftrightarrow> teBlock e = '''' \<or> tgtBlock (efTarget field) = teBlock e"

definition selector :: "TextEdit \<Rightarrow> inlineSelector" where
  "selector e = \<lparr>selText = teFind e, selLink = teFindLink e\<rparr>"

definition TextEdit_count :: "TextEdit \<Rightarrow> Value \<Rightarrow> nat" where
  "TextEdit_count e v =
     (if teReplace e \<noteq> None then countValueText v (teFind e) else selector_count (selector e) v)"

definition TextEdit_rewrite :: "TextEdit \<Rightarrow> Value \<Rightarrow> Value result" where
  "TextEdit_rewrite e v =
     (case teReplace e of
        Some replacement \<Rightarrow> replaceValueText v (teFind e) replacement
      | None \<Rightarrow> (case teFormat e of None \<Rightarrow> Inl NilDeref | Some f \<Rightarrow> selector_format (selector e) v f))"

definition nothingMatched :: "TextEdit \<Rightarrow> editableField list \<Rightarrow> error" where
  "nothingMatched e fs =
     (if teFindLink e \<noteq> '''' then Err ''no link in this locale has that exact address''
      else if teReplace e \<noteq> None \<and>
          list_ex (\<lambda>f. covers e f \<and> str_contains (appendJoinedText (efValue f)) (teFind e)) fs
        then Err ''find crosses a mark, link, color or break; replace a part inside one formatted run, or write the content of the block with document_apply''
      else Err ''find does not occur in the text of this locale; copy it exactly from document_read (case and spacing matter)'')"

definition edit_matches :: "TextEdit \<Rightarrow> editableField \<Rightarrow> bool" where
  "edit_matches e f \<longleftrightarrow> covers e f \<and> TextEdit_count e (efValue f) \<noteq> 0"

text \<open>The first occurrences, in order: \<open>slices.Contains\<close> before \<open>append\<close>.\<close>

definition first_uses :: "'a list \<Rightarrow> 'a list" where
  "first_uses xs = rev (remdups (rev xs))"

definition textEditMatch :: "TextEdit \<Rightarrow> editableField list \<Rightarrow> TextEditMatch" where
  "textEditMatch e fs =
     (let matched = filter (edit_matches e) fs in
      \<lparr>tmBlocks = first_uses (map (\<lambda>f. tgtBlock (efTarget f)) matched),
       tmFields = map efTarget matched,
       tmOccurrences = sum_list (map (\<lambda>f. TextEdit_count e (efValue f)) matched)\<rparr>)"

definition rewriteField :: "TextEdit \<Rightarrow> editableField \<Rightarrow> editableField result" where
  "rewriteField e f =
     and_then (TextEdit_rewrite e (efValue f)) (\<lambda>v. Inr (f\<lparr>efValue := v, efChanged := True\<rparr>))"

definition applyTextEdit ::
    "editableField list \<Rightarrow> TextEdit \<Rightarrow> (editableField list \<times> TextEditMatch) result" where
  "applyTextEdit fs e =
     guard_error (TextEdit_validate e)
       (let match = textEditMatch e fs in
        if tmOccurrences match = 0 then Inl (nothingMatched e fs)
        else if tmOccurrences match > 1 \<and> \<not> teAllOccurrences e
          then Inl (Err ''the selection occurs several times; pass block_id or a longer find, or all_occurrences to change them all'')
        else and_then (map_result (\<lambda>f. if edit_matches e f then rewriteField e f else Inr f) fs)
          (\<lambda>fs'. Inr (fs', match)))"

section \<open>Planning a batch\<close>

definition newEditableField :: "FieldTarget \<Rightarrow> Value \<Rightarrow> editableField" where
  "newEditableField target v =
     \<lparr>efTarget = target, efOriginal = v, efValue = v, efChanged = False\<rparr>"

definition editableFields :: "Node list \<Rightarrow> editableField list" where
  "editableFields nodes = concat (map (\<lambda>n.
     map (\<lambda>f. newEditableField (fieldTargetOf (nodeID n) (fvID f)) (fvValue f)) (nodeLocalized n) @
     concat (map (\<lambda>r. concat (map (\<lambda>i.
       map (\<lambda>f. newEditableField (relationTargetOf (nodeID n) (relID r) (riID i) (fvID f)) (fvValue f))
         (riLocalized i)) (relItems r))) (nodeRelations n))) nodes)"

text \<open>The loop over the edits; the failing edit is reported with its index (\<open>TextEditError\<close>).\<close>

fun planEdits ::
    "nat \<Rightarrow> editableField list \<Rightarrow> TextEdit list \<Rightarrow> (nat \<times> error) + (editableField list \<times> TextEditMatch list)" where
  "planEdits index fs [] = Inr (fs, [])"
| "planEdits index fs (e # edits) =
     (case applyTextEdit fs e of
        Inl err \<Rightarrow> Inl (index, err)
      | Inr (fs', match) \<Rightarrow>
          (case planEdits (Suc index) fs' edits of
             Inl err \<Rightarrow> Inl err
           | Inr (fs'', matches) \<Rightarrow> Inr (fs'', match # matches)))"

definition PlanTextEdits :: "Node list \<Rightarrow> TextEdit list \<Rightarrow> (nat \<times> error) + TextEditPlan" where
  "PlanTextEdits nodes edits =
     (case planEdits 0 (editableFields nodes) edits of
        Inl err \<Rightarrow> Inl err
      | Inr (fs, matches) \<Rightarrow>
          (let changed = filter efChanged fs in
           Inr \<lparr>planOperations = map (\<lambda>f. SetFieldTo (efTarget f) (efValue f)) changed,
                planMatches = matches,
                planPreviews = map newTextEditPreview changed\<rparr>))"

end
