(* ===== verification/Outline.thy ===== *)
theory Outline
  imports Text_Edit Handles
begin

text \<open>
  Outlines of a document, \<open>outline_preview.go\<close>: previews and search over the locale-owned text of
  blocks, and the blocks that a batch changes in place. \<open>unicode.ToLower\<close>, a table of the Unicode
  data, is the parameter \<open>lower\<close>.
\<close>

definition outlinePreviewRunes :: nat where "outlinePreviewRunes = 80"
definition searchContextRunes :: nat where "searchContextRunes = 20"
definition MaxReadQueryRunes :: nat where "MaxReadQueryRunes = 200"

section \<open>The text and the links of a block\<close>

function appendInlineText :: "InlineItem list \<Rightarrow> string" where
  "appendInlineText [] = []"
| "appendInlineText (i # rest) =
     (case iKind i of
        InlineKindText \<Rightarrow> iText i
      | InlineKindMath \<Rightarrow> iText i
      | InlineKindHardBreak \<Rightarrow> '' ''
      | InlineKindSiteVariable \<Rightarrow> ''{'' @ iText i @ ''}''
      | _ \<Rightarrow> [])
     @ appendInlineText (iChildren i) @ appendInlineText rest"
  by pat_completeness auto
termination
proof (relation "measure (\<lambda>items. size_list size items)", goal_cases)
  case (2 i rest)
  then show ?case by (cases i) simp
qed auto

fun appendValueText :: "Value \<Rightarrow> string" where
  "appendValueText v =
     (case vKind v of
        ValueKindText \<Rightarrow> vText v @ '' ''
      | ValueKindInline \<Rightarrow> appendInlineText (vInline v) @ '' ''
      | ValueKindList \<Rightarrow> concat (map (\<lambda>(k, w). appendValueText w) (vList v))
      | ValueKindObject \<Rightarrow> concat (map (\<lambda>(k, w). appendValueText w) (vObject v))
      | _ \<Rightarrow> [])"

function appendInlineLinks :: "InlineItem list \<Rightarrow> string list" where
  "appendInlineLinks [] = []"
| "appendInlineLinks (i # rest) =
     (if iKind i = InlineKindLink \<and> iTarget i \<noteq> '''' then [iTarget i] else [])
     @ appendInlineLinks (iChildren i) @ appendInlineLinks rest"
  by pat_completeness auto
termination
proof (relation "measure (\<lambda>items. size_list size items)", goal_cases)
  case (2 i rest)
  then show ?case by (cases i) simp
qed auto

fun appendValueLinks :: "Value \<Rightarrow> string list" where
  "appendValueLinks v =
     (case vKind v of
        ValueKindInline \<Rightarrow> appendInlineLinks (vInline v)
      | ValueKindList \<Rightarrow> concat (map (\<lambda>(k, w). appendValueLinks w) (vList v))
      | ValueKindObject \<Rightarrow> concat (map (\<lambda>(k, w). appendValueLinks w) (vObject v))
      | _ \<Rightarrow> [])"

declare appendValueText.simps [simp del] appendValueLinks.simps [simp del]

text \<open>The locale-owned values of a block, then those of its relation items, in stored order.\<close>

definition localeValues :: "Node \<Rightarrow> Value list" where
  "localeValues n = map fvValue (nodeLocalized n @
     concat (map (\<lambda>r. concat (map riLocalized (relItems r))) (nodeRelations n)))"

text \<open>Once the text is full every later value is skipped, by \<open>break\<close> and by the test of the next loop.\<close>

definition nodeLocaleText :: "Node \<Rightarrow> nat \<Rightarrow> string" where
  "nodeLocaleText n limit =
     join_with '' '' (str_fields (foldl
       (\<lambda>t v. if limit > 0 \<and> rune_count t > limit then t else t @ appendValueText v) [] (localeValues n)))"

definition nodeLinkAddresses :: "Node \<Rightarrow> string" where
  "nodeLinkAddresses n = join_with '' '' (concat (map appendValueLinks (localeValues n)))"

section \<open>Previews and search\<close>

definition truncateRunes :: "string \<Rightarrow> nat \<Rightarrow> string" where
  "truncateRunes v limit =
     (if rune_count v \<le> limit then v else trim_space (string_of (take limit (runes v))) @ ellipsis)"

text \<open>Go maps are association lists; the nil map of an empty result is \<open>[]\<close>.\<close>

definition outlinePreviews :: "Node list \<Rightarrow> (BlockID \<times> string) list" where
  "outlinePreviews nodes = foldl
     (\<lambda>m n. let preview = truncateRunes (nodeLocaleText n outlinePreviewRunes) outlinePreviewRunes in
        if preview = '''' then m else AList.update (nodeID n) preview m) [] nodes"

fun rune_find :: "nat list \<Rightarrow> nat list \<Rightarrow> nat option" where
  "rune_find [] needle = (if needle = [] then Some 0 else None)"
| "rune_find (r # rs) needle =
     (if take (length needle) (r # rs) = needle then Some 0 else map_option Suc (rune_find rs needle))"

definition runeIndex :: "nat list \<Rightarrow> nat list \<Rightarrow> nat option" where
  "runeIndex haystack needle = (if needle = [] then None else rune_find haystack needle)"

definition searchPreview :: "nat list \<Rightarrow> nat \<Rightarrow> string" where
  "searchPreview rs index =
     (let start = index - searchContextRunes;
          finish = min (length rs) (start + outlinePreviewRunes);
          preview = trim_space (string_of (take (finish - start) (drop start rs)));
          led = (if start > 0 then ellipsis @ preview else preview)
      in if finish < length rs then led @ ellipsis else led)"

definition searchNode :: "(nat \<Rightarrow> nat) \<Rightarrow> nat list \<Rightarrow> Node \<Rightarrow> string option" where
  "searchNode lower needle n =
     (let rs = runes (nodeLocaleText n 0) in
      case runeIndex (map lower rs) needle of
        Some index \<Rightarrow> Some (searchPreview rs index)
      | None \<Rightarrow>
          (let linked = nodeLinkAddresses n in
           case runeIndex (map lower (runes linked)) needle of
             Some _ \<Rightarrow> Some (searchPreview (runes (trim_space (string_of rs @ '' '' @ linked))) 0)
           | None \<Rightarrow> None))"

definition searchNodes :: "(nat \<Rightarrow> nat) \<Rightarrow> Node list \<Rightarrow> string \<Rightarrow> (BlockID \<times> string) list" where
  "searchNodes lower nodes query =
     (let needle = map lower (runes (join_with '' '' (str_fields query))) in
      foldl (\<lambda>m n. case searchNode lower needle n of
          None \<Rightarrow> m
        | Some preview \<Rightarrow> AList.update (nodeID n) preview m) [] nodes)"

section \<open>Formatting and in-place changes\<close>

definition HasInlineFormatting :: "Value \<Rightarrow> bool" where
  "HasInlineFormatting v \<longleftrightarrow> vKind v = ValueKindInline \<and>
     list_ex (\<lambda>i. iKind i \<noteq> InlineKindText \<or> iChildren i \<noteq> []) (vInline v)"

definition operationTargets :: "Operation \<Rightarrow> BlockID list result" where
  "operationTargets op =
     (case opKind op of
        OperationSetField \<Rightarrow> deref (opSetField op) (\<lambda>p. Inr [tgtBlock (sfTarget p)])
      | OperationUnsetField \<Rightarrow> deref (opUnsetField op) (\<lambda>t. Inr [tgtBlock t])
      | OperationAttachFile \<Rightarrow> deref (opAttachFile op) (\<lambda>p. Inr [tgtBlock (afTarget p)])
      | OperationDetachFile \<Rightarrow> deref (opDetachFile op) (\<lambda>t. Inr [tgtBlock t])
      | OperationDeleteBlock \<Rightarrow> deref (opDeleteBlock op) (\<lambda>b. Inr [b])
      | OperationMoveBlock \<Rightarrow> deref (opMoveBlock op) (\<lambda>p. Inr [mbBlock p])
      | OperationReplaceBlockKind \<Rightarrow> deref (opReplaceBlockKind op) (\<lambda>p. Inr [rbBlock p])
      | OperationInsertRelationItem \<Rightarrow> deref (opInsertRelationItem op) (\<lambda>p. Inr [iriBlock p])
      | OperationDeleteRelationItem \<Rightarrow> deref (opDeleteRelationItem op) (\<lambda>p. Inr [driBlock p])
      | OperationMoveRelationItem \<Rightarrow> deref (opMoveRelationItem op) (\<lambda>p. Inr [mriBlock p, mriTargetBlock p])
      | _ \<Rightarrow> Inr [])"

definition insertedBlocks :: "Operation list \<Rightarrow> BlockID list result" where
  "insertedBlocks ops = fold_result
     (\<lambda>acc op. if opKind op = OperationInsertBlock
        then deref (opInsertBlock op) (\<lambda>p. Inr (ibBlock p # acc)) else Inr acc) [] ops"

definition addTarget :: "BlockID list \<Rightarrow> BlockID list \<Rightarrow> BlockID \<Rightarrow> BlockID list" where
  "addTarget inserted blocks b =
     (if b \<noteq> '''' \<and> b \<notin> set inserted \<and> b \<notin> set blocks then blocks @ [b] else blocks)"

definition ExistingTargetBlocks :: "Operation list \<Rightarrow> BlockID list result" where
  "ExistingTargetBlocks ops =
     and_then (insertedBlocks ops)
       (\<lambda>inserted. fold_result
          (\<lambda>blocks op. and_then (operationTargets op) (\<lambda>bs. Inr (foldl (addTarget inserted) blocks bs)))
          [] ops)"

section \<open>In-place changes\<close>

lemma operationTargets_shape: "validateShape op = None \<Longrightarrow> \<exists>bs. operationTargets op = Inr bs"
  by (auto simp: validateShape_def kindMatchesPayload_def operationTargets_def split: if_splits OperationKind.splits)

definition insertedBy :: "Operation \<Rightarrow> BlockID set" where
  "insertedBy op = (if opKind op = OperationInsertBlock then ibBlock ` set_option (opInsertBlock op) else {})"

lemma insertedBlocks_set:
  assumes "\<forall>op \<in> set ops. validateShape op = None"
  shows "\<exists>ids. insertedBlocks ops = Inr ids \<and> set ids = (\<Union>op \<in> set ops. insertedBy op)"
proof -
  have "\<exists>ids. fold_result (\<lambda>acc op. if opKind op = OperationInsertBlock
        then deref (opInsertBlock op) (\<lambda>p. Inr (ibBlock p # acc)) else Inr acc) acc ops = Inr ids \<and>
      set ids = set acc \<union> (\<Union>op \<in> set ops. insertedBy op)" for acc
    using assms
  proof (induction ops arbitrary: acc)
    case (Cons op ops)
    show ?case
    proof (cases "opKind op = OperationInsertBlock")
      case True
      then obtain p where p: "opInsertBlock op = Some p"
        using Cons.prems by (auto simp: validateShape_def kindMatchesPayload_def split: if_splits)
      from Cons.IH [of "ibBlock p # acc"] Cons.prems True p show ?thesis by (auto simp: insertedBy_def)
    next
      case False
      with Cons.IH [of acc] Cons.prems show ?thesis by (auto simp: insertedBy_def)
    qed
  qed simp
  from this [of "[]"] show ?thesis by (simp add: insertedBlocks_def)
qed

lemma foldl_addTarget:
  "distinct blocks \<Longrightarrow> distinct (foldl (addTarget inserted) blocks bs) \<and>
   set (foldl (addTarget inserted) blocks bs) = set blocks \<union> {b \<in> set bs. b \<noteq> '''' \<and> b \<notin> set inserted}"
proof (induction bs arbitrary: blocks)
  case (Cons b bs)
  have "distinct (addTarget inserted blocks b)" using Cons.prems by (simp add: addTarget_def)
  from Cons.IH [OF this] show ?case by (auto simp: addTarget_def)
qed simp

lemma ExistingTargetBlocks_result:
  assumes s: "\<forall>op \<in> set ops. validateShape op = None"
  shows "\<exists>blocks. ExistingTargetBlocks ops = Inr blocks \<and> distinct blocks \<and>
    set blocks = {b. b \<noteq> '''' \<and> b \<notin> (\<Union>op \<in> set ops. insertedBy op) \<and>
      (\<exists>op bs. op \<in> set ops \<and> operationTargets op = Inr bs \<and> b \<in> set bs)}"
proof -
  from insertedBlocks_set [OF s] obtain ids where ids: "insertedBlocks ops = Inr ids"
    and sids: "set ids = (\<Union>op \<in> set ops. insertedBy op)" by blast
  let ?f = "\<lambda>blocks op. and_then (operationTargets op) (\<lambda>bs. Inr (foldl (addTarget ids) blocks bs))"
  have "\<exists>r. fold_result ?f blocks ops = Inr r \<and> distinct r \<and> set r = set blocks \<union>
      {b. b \<noteq> '''' \<and> b \<notin> set ids \<and> (\<exists>op bs. op \<in> set ops \<and> operationTargets op = Inr bs \<and> b \<in> set bs)}"
    if "distinct blocks" for blocks
    using s that
  proof (induction ops arbitrary: blocks)
    case (Cons op ops)
    then obtain bs where bs: "operationTargets op = Inr bs" using operationTargets_shape by force
    note add = foldl_addTarget [OF Cons.prems(2), of ids bs]
    from Cons.IH [of "foldl (addTarget ids) blocks bs"] Cons.prems add obtain r where
      r: "fold_result ?f (foldl (addTarget ids) blocks bs) ops = Inr r" "distinct r"
        "set r = set (foldl (addTarget ids) blocks bs) \<union>
          {b. b \<noteq> '''' \<and> b \<notin> set ids \<and> (\<exists>op bs. op \<in> set ops \<and> operationTargets op = Inr bs \<and> b \<in> set bs)}" by auto
    have "set r = set blocks \<union> {b. b \<noteq> '''' \<and> b \<notin> set ids \<and>
        (\<exists>op' bs. op' \<in> set (op # ops) \<and> operationTargets op' = Inr bs \<and> b \<in> set bs)}"
      unfolding r(3) using add bs by auto
    with r bs show ?case by auto
  qed simp
  from this [of "[]"] ids show ?thesis unfolding sids by (auto simp: ExistingTargetBlocks_def)
qed

section \<open>Runes at a lead byte\<close>

text \<open>A string that starts with no continuation byte is decoded on its own.\<close>

definition leads :: "string \<Rightarrow> bool" where
  "leads w \<longleftrightarrow> w = [] \<or> \<not> continuation (byte (hd w))"

lemma decode_rune_append:
  assumes "u \<noteq> []" and w: "leads w"
  shows "decode_rune (u @ w) = decode_rune u"
proof -
  consider a where "u = [a]" | a b where "u = [a, b]" | a b c where "u = [a, b, c]"
    | a b c d v where "u = a # b # c # d # v"
    using assms(1) by (metis (no_types) neq_Nil_conv)
  then show ?thesis
  proof cases
    case (4 a b c d v)
    then show ?thesis by (simp add: decode_rune_def)
  qed (use w in \<open>cases w; auto simp: decode_rune_def leads_def take_Cons' nth_Cons' split: if_splits\<close>)+
qed

lemma decode_rune_length:
  assumes "s \<noteq> []"
  shows "snd (decode_rune s) \<le> length s"
proof -
  obtain a rest where r: "map byte (take 4 s) = a # rest" using assms by (cases s) auto
  from arg_cong [OF r, of length] have len: "Suc (length rest) \<le> length s" by simp
  have ne: "rest \<noteq> [] \<Longrightarrow> 1 \<le> length rest" by (cases rest) auto
  show ?thesis unfolding decode_rune_def r using len ne by auto
qed

lemma runes_append_leads: "leads w \<Longrightarrow> runes (u @ w) = runes u @ runes w"
proof (induction "length u" arbitrary: u rule: less_induct)
  case less
  show ?case
  proof (cases "u = []")
    case False
    let ?n = "snd (decode_rune u)"
    have n: "0 < ?n" "?n \<le> length u" using False decode_rune_width decode_rune_length by auto
    have "runes (drop ?n u @ w) = runes (drop ?n u) @ runes w" using less n False by simp
    then show ?thesis using False n decode_rune_append [OF False less.prems]
      by (simp add: runes_nonempty [of "u @ w"] runes_nonempty [of u])
  qed simp
qed

section \<open>Trimming and the length of previews\<close>

definition space_runes :: "nat list" where
  "space_runes = [0x09, 0x0A, 0x0B, 0x0C, 0x0D, 0x20, 0x85, 0xA0, 0x1680, 0x2000, 0x2001, 0x2002, 0x2003,
     0x2004, 0x2005, 0x2006, 0x2007, 0x2008, 0x2009, 0x200A, 0x2028, 0x2029, 0x202F, 0x205F, 0x3000]"

lemma space_encodings_runes: "space_encodings = map encode_rune space_runes"
  by (simp add: space_encodings_def space_runes_def encode_rune_def valid_rune_def char_of_def bit_0)

lemma space_runes_valid: "r \<in> set space_runes \<Longrightarrow> valid_rune r"
  by (auto simp: space_runes_def valid_rune_def)

lemma encode_rune_leads: "valid_rune r \<Longrightarrow> leads (encode_rune r)"
  unfolding leads_def encode_rune_def valid_rune_def continuation_def Let_def
  by (auto simp: byte_char_of div_less_iff_less_mult less_mult_imp_div_less)

lemma rune_count_encode: "valid_rune r \<Longrightarrow> rune_count (encode_rune r @ s) = Suc (rune_count s)"
  using runes_string_of [of "[r]" s] by (simp add: rune_count_def string_of_def)

lemma strip_front_count:
  "(\<And>w s. w \<in> set ws \<Longrightarrow> has_prefix s w \<Longrightarrow> c (drop (length w) s) \<le> (c s :: nat)) \<Longrightarrow> c (strip_front ws s) \<le> c s"
proof (induction ws s rule: strip_front.induct)
  case (1 ws s)
  show ?case
  proof (cases "find (\<lambda>w. w \<noteq> [] \<and> has_prefix s w) ws")
    case None
    then show ?thesis by (simp add: strip_front.simps)
  next
    case (Some w)
    then have w: "w \<in> set ws" "has_prefix s w" by (auto dest: find_SomeD)
    have "c (strip_front ws (drop (length w) s)) \<le> c (drop (length w) s)" by (rule "1.IH" [OF Some "1.prems"])
    also have "\<dots> \<le> c s" by (rule "1.prems" [OF w])
    finally show ?thesis using Some by (subst strip_front.simps) simp
  qed
qed

lemma has_prefix_append: "has_prefix s w \<Longrightarrow> s = w @ drop (length w) s"
  by (metis append_take_drop_id has_prefix_def)

lemma rune_count_trim: "rune_count (trim_space s) \<le> rune_count s"
proof -
  have front: "rune_count (drop (length w) t) \<le> rune_count t" if "w \<in> set space_encodings" "has_prefix t w" for w t
  proof -
    from that(1) obtain r where r: "w = encode_rune r" "valid_rune r"
      using space_runes_valid by (auto simp: space_encodings_runes)
    have "rune_count (w @ drop (length w) t) = Suc (rune_count (drop (length w) t))"
      unfolding r(1) by (rule rune_count_encode [OF r(2)])
    then show ?thesis using has_prefix_append [OF that(2)] by simp
  qed
  have rear: "rune_count (rev (drop (length w) t)) \<le> rune_count (rev t)"
    if "w \<in> set (map rev space_encodings)" "has_prefix t w" for w t
  proof -
    from that(1) obtain r where r: "w = rev (encode_rune r)" "valid_rune r"
      using space_runes_valid by (auto simp: space_encodings_runes)
    have "rev t = rev (drop (length w) t) @ encode_rune r"
      using arg_cong [OF has_prefix_append [OF that(2)], of rev] r(1) by simp
    then show ?thesis using runes_append_leads [OF encode_rune_leads [OF r(2)]] by (simp add: rune_count_def)
  qed
  have "rune_count (rev (strip_front (map rev space_encodings) (rev (strip_front space_encodings s))))
      \<le> rune_count (rev (rev (strip_front space_encodings s)))"
    by (rule strip_front_count [where c = "\<lambda>t. rune_count (rev t)"]) (rule rear)
  also have "\<dots> \<le> rune_count s"
    using strip_front_count [where c = rune_count, OF front] by simp
  finally show ?thesis by (simp add: trim_space_def)
qed

lemma ellipsis_leads: "leads ellipsis"
  by (simp add: leads_def ellipsis_def continuation_def)

lemma rune_count_ellipsis: "rune_count (s @ ellipsis) = Suc (rune_count s)" "rune_count (ellipsis @ s) = Suc (rune_count s)"
proof -
  have e: "ellipsis = encode_rune 8230"
    by (simp add: ellipsis_def encode_rune_def valid_rune_def char_of_def bit_0)
  have v: "valid_rune 8230" by (simp add: valid_rune_def)
  show "rune_count (ellipsis @ s) = Suc (rune_count s)" unfolding e by (rule rune_count_encode [OF v])
  have "rune_count ellipsis = 1" using rune_count_encode [OF v, of "[]"] e by (simp add: rune_count_def)
  then show "rune_count (s @ ellipsis) = Suc (rune_count s)"
    using runes_append_leads [OF ellipsis_leads, of s] by (simp add: rune_count_def)
qed

lemma rune_count_string_of: "list_all valid_rune rs \<Longrightarrow> rune_count (string_of rs) = length rs"
  using runes_string_of [of rs "[]"] by (simp add: rune_count_def)

lemma truncateRunes_bound: "rune_count (truncateRunes v limit) \<le> Suc limit"
proof -
  have "list_all valid_rune (take limit (runes v))" using runes_valid [of v] by (auto simp: list_all_iff dest: in_set_takeD)
  then have "rune_count (string_of (take limit (runes v))) \<le> limit" by (simp add: rune_count_string_of)
  then have "rune_count (trim_space (string_of (take limit (runes v)))) \<le> limit"
    using rune_count_trim order_trans by blast
  then show ?thesis by (simp add: truncateRunes_def rune_count_ellipsis)
qed

lemma searchPreview_bound:
  assumes "list_all valid_rune rs"
  shows "rune_count (searchPreview rs index) \<le> outlinePreviewRunes + 2"
proof -
  define start where "start = index - searchContextRunes"
  define mid where "mid = take (min (length rs) (start + outlinePreviewRunes) - start) (drop start rs)"
  have "list_all valid_rune mid" using assms by (auto simp: mid_def list_all_iff dest: in_set_takeD in_set_dropD)
  then have "rune_count (string_of mid) \<le> outlinePreviewRunes" by (simp add: rune_count_string_of mid_def)
  then have "rune_count (trim_space (string_of mid)) \<le> outlinePreviewRunes" using rune_count_trim order_trans by blast
  moreover have "searchPreview rs index =
      (let led = (if start > 0 then ellipsis @ trim_space (string_of mid) else trim_space (string_of mid))
       in if min (length rs) (start + outlinePreviewRunes) < length rs then led @ ellipsis else led)"
    by (simp only: searchPreview_def Let_def start_def mid_def)
  ultimately show ?thesis by (simp add: Let_def rune_count_ellipsis)
qed

lemma searchNode_bound: "searchNode lower needle n = Some p \<Longrightarrow> rune_count p \<le> outlinePreviewRunes + 2"
  using searchPreview_bound [OF runes_valid] by (auto simp: searchNode_def Let_def split: option.splits)

section \<open>Keyed previews\<close>

lemma foldl_update_values:
  assumes "\<And>n v. f n = Some v \<Longrightarrow> P v" and "\<forall>v \<in> snd ` set m. P v"
  shows "\<forall>v \<in> snd ` set (foldl (\<lambda>m n. case f n of None \<Rightarrow> m | Some v \<Rightarrow> AList.update (k n) v m) m nodes). P v"
  using assms(2)
proof (induction nodes arbitrary: m)
  case (Cons n nodes)
  have upd: "snd ` set (AList.update x v m) \<subseteq> insert v (snd ` set m)" for x v
    by (induction m) auto
  have "\<forall>v \<in> snd ` set (case f n of None \<Rightarrow> m | Some v \<Rightarrow> AList.update (k n) v m). P v"
  proof (cases "f n")
    case None
    then show ?thesis using Cons.prems by simp
  next
    case (Some v)
    have "P x" if "x \<in> insert v (snd ` set m)" for x using that Cons.prems assms(1) [OF Some] by blast
    then show ?thesis using Some upd [of "k n" v] by (simp only: option.case) blast
  qed
  then show ?case using Cons.IH by simp
qed simp

lemma foldl_update_map_of:
  assumes "distinct (map k nodes)"
  shows "map_of (foldl (\<lambda>m n. case f n of None \<Rightarrow> m | Some v \<Rightarrow> AList.update (k n) v m) m nodes) b =
    (case find (\<lambda>n. k n = b) nodes of None \<Rightarrow> map_of m b | Some n \<Rightarrow> (case f n of None \<Rightarrow> map_of m b | Some v \<Rightarrow> Some v))"
  using assms
proof (induction nodes arbitrary: m)
  case (Cons n nodes)
  have "find (\<lambda>x. k x = k n) nodes = None" using Cons.prems by (simp add: find_None_iff image_iff) metis
  then show ?case using Cons by (auto simp: update_conv' split: option.splits)
qed simp

lemma outlinePreviews_fold:
  "outlinePreviews nodes = foldl (\<lambda>m n. case (let p = truncateRunes (nodeLocaleText n outlinePreviewRunes) outlinePreviewRunes in
      if p = '''' then None else Some p) of None \<Rightarrow> m | Some v \<Rightarrow> AList.update (nodeID n) v m) [] nodes"
  unfolding outlinePreviews_def by (rule foldl_cong) (simp_all add: Let_def)

lemma outlinePreviews_bound:
  "\<forall>p \<in> snd ` set (outlinePreviews nodes). p \<noteq> '''' \<and> rune_count p \<le> 81"
  unfolding outlinePreviews_fold
  by (rule foldl_update_values)
    (use truncateRunes_bound [of _ outlinePreviewRunes] in \<open>auto simp: Let_def outlinePreviewRunes_def split: if_splits\<close>)

lemma searchNodes_bound: "\<forall>p \<in> snd ` set (searchNodes lower nodes query). rune_count p \<le> 82"
  unfolding searchNodes_def Let_def
  by (rule foldl_update_values) (auto dest!: searchNode_bound simp: outlinePreviewRunes_def)

lemma searchNodes_lookup:
  assumes "distinct (map nodeID nodes)"
  shows "map_of (searchNodes lower nodes query) b =
    (case find (\<lambda>n. nodeID n = b) nodes of None \<Rightarrow> None
     | Some n \<Rightarrow> searchNode lower (map lower (runes (join_with '' '' (str_fields query)))) n)"
  unfolding searchNodes_def Let_def foldl_update_map_of [OF assms] by (simp split: option.splits)

section \<open>Search finds the occurrences\<close>

lemma rune_find_Some:
  "(\<exists>i. rune_find h needle = Some i) \<longleftrightarrow> (\<exists>us vs. h = us @ needle @ vs)"
proof (induction h)
  case (Cons r h)
  show ?case
  proof (cases "take (length needle) (r # h) = needle")
    case True
    then have "r # h = [] @ needle @ drop (length needle) (r # h)" by (metis append_Nil append_take_drop_id)
    with True show ?thesis by (metis rune_find.simps(2))
  next
    case False
    have "(\<exists>us vs. r # h = us @ needle @ vs) \<longleftrightarrow> (\<exists>us vs. h = us @ needle @ vs)"
    proof
      assume "\<exists>us vs. r # h = us @ needle @ vs"
      then obtain us vs where e: "r # h = us @ needle @ vs" by blast
      then have "us \<noteq> []" using False by auto
      with e show "\<exists>us vs. h = us @ needle @ vs" by (cases us) auto
    qed (metis append_Cons)
    with Cons False show ?thesis by simp
  qed
qed auto

lemma searchNode_found:
  assumes "needle \<noteq> []"
  shows "searchNode lower needle n \<noteq> None \<longleftrightarrow>
    (\<exists>us vs. map lower (runes (nodeLocaleText n 0)) = us @ needle @ vs) \<or>
    (\<exists>us vs. map lower (runes (nodeLinkAddresses n)) = us @ needle @ vs)"
  using assms rune_find_Some [of "map lower (runes (nodeLocaleText n 0))" needle]
    rune_find_Some [of "map lower (runes (nodeLinkAddresses n))" needle]
  by (auto simp: searchNode_def Let_def runeIndex_def split: option.splits)

end
