(* ===== verification/Apply_Service.thy ===== *)
theory Apply_Service
  imports Batch_Correct
begin

text \<open>
  The mutation side of the service: \<open>Validate\<close>, \<open>Apply\<close> and the acceptance checks of \<open>service.go\<close>,
  and the canonical-operation checks of \<open>operations.go\<close>. The owning domain's port is a parameter; a
  port's own failure is \<open>PortError\<close>.
\<close>

section \<open>Canonical operations\<close>

definition validateCanonicalPlacement :: "BlockID \<Rightarrow> BlockID \<Rightarrow> error option" where
  "validateCanonicalPlacement parent after = first_error
     [if parent \<noteq> '''' then validateStableID ''parent block ID'' parent maxHandleLength else None,
      if after = '''' then None else validateStableID ''after block ID'' after maxHandleLength]"

definition validateCanonicalMoveRelationItem :: "MoveRelationItem \<Rightarrow> error option" where
  "validateCanonicalMoveRelationItem p = first_error
     [validateRelationOperationIDs (mriBlock p) (mriRelation p) (mriItem p),
      validateStableID ''target block ID'' (mriTargetBlock p) maxHandleLength,
      validateStableID ''target relation ID'' (mriTarget p) maxCatalogIDLength,
      validateAfterRelationItem (mriAfter p)]"

text \<open>A nil payload of the operation's kind is dereferenced.\<close>

definition payload :: "'a option \<Rightarrow> ('a \<Rightarrow> error option) \<Rightarrow> error option" where
  "payload p check = (case p of None \<Rightarrow> Some NilDeref | Some x \<Rightarrow> check x)"

definition validateCanonicalOperation :: "(string \<Rightarrow> bool) \<Rightarrow> Operation \<Rightarrow> error option" where
  "validateCanonicalOperation K op =
     (case opKind op of
        OperationSetField \<Rightarrow> payload (opSetField op)
          (\<lambda>p. first_error [validateCanonicalFieldTarget (sfTarget p), Value_validate K (sfValue p)])
      | OperationUnsetField \<Rightarrow> payload (opUnsetField op) validateCanonicalFieldTarget
      | OperationInsertBlock \<Rightarrow> payload (opInsertBlock op)
          (\<lambda>p. first_error
             [validateStableID ''block ID'' (ibBlock p) maxHandleLength,
              validateStableID ''block kind'' (ibKind p) maxKindLength,
              validateCanonicalPlacement (ibParent p) (ibAfter p)])
      | OperationDeleteBlock \<Rightarrow> payload (opDeleteBlock op) (\<lambda>b. validateStableID ''block ID'' b maxHandleLength)
      | OperationMoveBlock \<Rightarrow> payload (opMoveBlock op)
          (\<lambda>p. first_error
             [validateStableID ''block ID'' (mbBlock p) maxHandleLength,
              validateCanonicalPlacement (mbParent p) (mbAfter p)])
      | OperationReplaceBlockKind \<Rightarrow> payload (opReplaceBlockKind op)
          (\<lambda>p. first_error
             [validateStableID ''block ID'' (rbBlock p) maxHandleLength,
              validateStableID ''block kind'' (rbKind p) maxKindLength])
      | OperationInsertRelationItem \<Rightarrow> payload (opInsertRelationItem op)
          (\<lambda>p. first_error
             [validateRelationOperationIDs (iriBlock p) (iriRelation p) (iriItem p),
              validateStableID ''relation item kind'' (iriKind p) maxKindLength,
              validateAfterRelationItem (iriAfter p)])
      | OperationDeleteRelationItem \<Rightarrow> payload (opDeleteRelationItem op)
          (\<lambda>p. validateRelationOperationIDs (driBlock p) (driRelation p) (driItem p))
      | OperationMoveRelationItem \<Rightarrow> payload (opMoveRelationItem op) validateCanonicalMoveRelationItem
      | OperationAttachFile \<Rightarrow> payload (opAttachFile op)
          (\<lambda>p. first_error [validateCanonicalFieldTarget (afTarget p), validateFileReference (afFile p)])
      | OperationDetachFile \<Rightarrow> payload (opDetachFile op) validateCanonicalFieldTarget
      | OperationCreateTranslation \<Rightarrow> None
      | OperationDeleteTranslation \<Rightarrow> None
      | OperationOther _ \<Rightarrow> Some (Err ''unsupported operation kind''))"

definition validateCanonicalOperations :: "(string \<Rightarrow> bool) \<Rightarrow> Operation list \<Rightarrow> error option" where
  "validateCanonicalOperations K ops = check_all (validateCanonicalOperation K) ops"

section \<open>Commands and results\<close>

record Change =
  chOperation :: int
  chKind :: OperationKind
  chAffectedHandles :: "string list"

record ApplyResult =
  resDocumentRevision :: Revision
  resTargetRevision :: "Revision option"
  resChanged :: bool
  resChanges :: "Change list"
  resNormalized :: "Operation list"

record ValidatedApply =
  vaDocument :: DocumentIdentity
  vaLocale :: Locale
  vaLocaleRole :: LocaleRole
  vaLocaleExists :: bool
  vaExpectedDocumentRevision :: Revision
  vaExpectedTargetRevision :: "Revision option"
  vaOperations :: "Operation list"
  vaAffectedHandles :: "string list"

text \<open>The zero command of a rejected request is \<open>None\<close>.\<close>

definition ValidateLoadedApply ::
    "(string \<Rightarrow> bool) \<Rightarrow> Document \<Rightarrow> ApplyRequest \<Rightarrow> (ValidatedApply option \<times> ValidationResult) result" where
  "ValidateLoadedApply K d r =
     and_then (ValidateOperations K d r)
       (\<lambda>validation.
          if \<not> Valid validation then Inr (None, validation)
          else and_then (AffectedHandles (arOperations r) (arLocale r))
            (\<lambda>handles. Inr (Some
               \<lparr>vaDocument = ApplyRequest_Identity r, vaLocale = arLocale r, vaLocaleRole = Role d,
                vaLocaleExists = docLocaleExists d,
                vaExpectedDocumentRevision = arExpectedDocumentRevision r,
                vaExpectedTargetRevision = arExpectedTargetRevision r,
                vaOperations = vrNormalized validation, vaAffectedHandles = handles\<rparr>, validation)))"

section \<open>Acceptance of a port's result\<close>

definition changeRound :: "ApplyResult \<Rightarrow> int set \<Rightarrow> Change \<Rightarrow> error option" where
  "changeRound res seen c =
     (if chOperation c < 0 \<or> chOperation c \<ge> int (length (resNormalized res))
        then Some (Err ''domain port accepted change outside the normalized operation batch'')
      else if opKind (resNormalized res ! nat (chOperation c)) \<noteq> chKind c
        then Some (Err ''domain port accepted change kind does not match its normalized operation'')
      else if chOperation c \<in> seen
        then Some (Err ''domain port accepted duplicate changes for one normalized operation'')
      else None)"

definition validateAcceptedChanges :: "ApplyResult \<Rightarrow> error option" where
  "validateAcceptedChanges res = loop_seen chOperation (changeRound res) {} (resChanges res)"

definition isDeleteTranslationOperations :: "Operation list \<Rightarrow> bool" where
  "isDeleteTranslationOperations ops \<longleftrightarrow>
     (case ops of [op] \<Rightarrow> opKind op = OperationDeleteTranslation | _ \<Rightarrow> False)"

definition validateRevisionAdvance :: "Revision \<Rightarrow> Revision option \<Rightarrow> ApplyResult \<Rightarrow> error option" where
  "validateRevisionAdvance expectedDocument expectedTarget res =
     (if \<not> resChanged res then first_error
        [fail_if (resDocumentRevision res \<noteq> expectedDocument \<or> \<not> equalRevision (resTargetRevision res) expectedTarget)
           ''domain port advanced a revision for a semantic no-op'',
         fail_if (resChanges res \<noteq> []) ''domain port returned accepted changes for a semantic no-op'']
      else if resChanges res = []
        then Some (Err ''domain port reported a changed mutation without accepted changes'')
      else (case resTargetRevision res of
          Some target \<Rightarrow> first_error
            [fail_if (resDocumentRevision res \<noteq> expectedDocument)
               ''domain port advanced the document revision for a target-only mutation'',
             fail_if (Some target = expectedTarget)
               ''domain port reported a changed target mutation without a new target revision'']
        | None \<Rightarrow>
            if isDeleteTranslationOperations (resNormalized res)
              then fail_if (resDocumentRevision res \<noteq> expectedDocument)
                ''domain port advanced the document revision for target deletion''
            else fail_if (resDocumentRevision res = expectedDocument)
              ''domain port reported a changed source mutation without a new document revision''))"

definition validateAcceptedApply ::
    "(string \<Rightarrow> bool) \<Rightarrow> Revision \<Rightarrow> Revision option \<Rightarrow> ApplyResult \<Rightarrow> ApplyResult result" where
  "validateAcceptedApply K expectedDocument expectedTarget res =
     guard_error (first_error
       [fail_if (resDocumentRevision res = '''') ''domain port accepted mutation without a document revision'',
        fail_if (resTargetRevision res = Some '''') ''domain port accepted mutation with an empty target revision'',
        fail_if (resNormalized res = []) ''domain port accepted mutation without normalized operations'',
        validateCanonicalOperations K (resNormalized res),
        validateAcceptedChanges res,
        validateRevisionAdvance expectedDocument expectedTarget res])
     (Inr res)"

definition AcceptValidatedApply :: "(string \<Rightarrow> bool) \<Rightarrow> ValidatedApply \<Rightarrow> ApplyResult \<Rightarrow> ApplyResult result" where
  "AcceptValidatedApply K command res =
     (if vaOperations command = []
        then Inl (Err ''domain port accepted mutation without normalized operations'')
      else validateAcceptedApply K (vaExpectedDocumentRevision command) (vaExpectedTargetRevision command)
        (res\<lparr>resNormalized := vaOperations command\<rparr>))"

definition validateApplyResult :: "(string \<Rightarrow> bool) \<Rightarrow> ApplyRequest \<Rightarrow> ApplyResult \<Rightarrow> ApplyResult result" where
  "validateApplyResult K r res =
     validateAcceptedApply K (arExpectedDocumentRevision r) (arExpectedTargetRevision r) res"

section \<open>The service\<close>

text \<open>What a caller of the service sees: its own input rejected, the port's failure, or an integrity
  failure of what the port returned.\<close>

datatype 'e failure = InputError string | CursorError Revision "Revision option" | PortError 'e | Integrity error

type_synonym ('e, 'a) answer = "'e failure + 'a"

definition input_check :: "error option \<Rightarrow> ('e, 'a) answer \<Rightarrow> ('e, 'a) answer" where
  "input_check c k =
     (case c of
        None \<Rightarrow> k
      | Some (Err m) \<Rightarrow> Inl (InputError m)
      | Some p \<Rightarrow> Inl (Integrity p))"

definition from_result :: "'a result \<Rightarrow> ('e, 'a) answer" where
  "from_result r = (case r of Inl e \<Rightarrow> Inl (Integrity e) | Inr x \<Rightarrow> Inr x)"

definition from_port :: "'e + 'a \<Rightarrow> ('a \<Rightarrow> ('e, 'b) answer) \<Rightarrow> ('e, 'b) answer" where
  "from_port r k = (case r of Inl e \<Rightarrow> Inl (PortError e) | Inr x \<Rightarrow> k x)"

text \<open>\<open>port\<close> is the port's \<open>ValidateMutation\<close> and \<open>ExecuteMutation\<close>.\<close>

definition Service_Validate ::
    "(ApplyRequest \<Rightarrow> 'e + ValidationResult) \<Rightarrow> ApplyRequest \<Rightarrow> ('e, ValidationResult) answer" where
  "Service_Validate port r = input_check (validateEnvelope r) (from_port (port r) Inr)"

definition Service_Apply ::
    "(string \<Rightarrow> bool) \<Rightarrow> (ApplyRequest \<Rightarrow> 'e + ApplyResult) \<Rightarrow> ApplyRequest \<Rightarrow> ('e, ApplyResult) answer" where
  "Service_Apply K port r =
     input_check (validateEnvelope r)
       (from_port (port r) (\<lambda>res. from_result (validateApplyResult K r res)))"

section \<open>Accepted results\<close>

lemma validateAcceptedChanges_None:
  "validateAcceptedChanges res = None \<longleftrightarrow>
     (\<forall>c \<in> set (resChanges res). 0 \<le> chOperation c \<and> chOperation c < int (length (resNormalized res)) \<and>
        opKind (resNormalized res ! nat (chOperation c)) = chKind c) \<and>
     distinct (map chOperation (resChanges res))"
proof -
  let ?P = "\<lambda>c. 0 \<le> chOperation c \<and> chOperation c < int (length (resNormalized res)) \<and>
        opKind (resNormalized res ! nat (chOperation c)) = chKind c"
  have "loop_seen chOperation (changeRound res) {} (resChanges res) = None \<longleftrightarrow>
      (\<forall>c \<in> set (resChanges res). ?P c) \<and> distinct (map chOperation (resChanges res)) \<and>
      chOperation ` set (resChanges res) \<inter> {} = {}"
    by (rule loop_seen_distinct) (auto simp: changeRound_def)
  then show ?thesis by (simp add: validateAcceptedChanges_def)
qed

text \<open>At most one change per normalized operation.\<close>

lemma accepted_changes_bounded:
  assumes "validateAcceptedChanges res = None"
  shows "length (resChanges res) \<le> length (resNormalized res)"
proof -
  have "set (map chOperation (resChanges res)) \<subseteq> {0..<int (length (resNormalized res))}"
    using assms by (auto simp: validateAcceptedChanges_None)
  then have "card (set (map chOperation (resChanges res))) \<le> card {0..<int (length (resNormalized res))}"
    by (intro card_mono) auto
  moreover have "distinct (map chOperation (resChanges res))" using assms by (simp add: validateAcceptedChanges_None)
  ultimately show ?thesis by (simp only: distinct_card length_map card_atLeastLessThan_int)
qed

lemma validateAcceptedApply_Inr:
  "validateAcceptedApply K e t res = Inr res' \<longleftrightarrow>
     res' = res \<and> resDocumentRevision res \<noteq> '''' \<and> resTargetRevision res \<noteq> Some '''' \<and> resNormalized res \<noteq> [] \<and>
     validateCanonicalOperations K (resNormalized res) = None \<and> validateAcceptedChanges res = None \<and>
     validateRevisionAdvance e t res = None"
  by (auto simp: validateAcceptedApply_def guard_error_Inr first_error_None)

text \<open>A result that is accepted advances exactly the revision it wrote.\<close>

definition advances :: "Revision \<Rightarrow> Revision option \<Rightarrow> ApplyResult \<Rightarrow> bool" where
  "advances e t res \<longleftrightarrow>
     (if \<not> resChanged res
        then resDocumentRevision res = e \<and> resTargetRevision res = t \<and> resChanges res = []
      else resChanges res \<noteq> [] \<and>
        (case resTargetRevision res of
           Some target \<Rightarrow> resDocumentRevision res = e \<and> t \<noteq> Some target
         | None \<Rightarrow> isDeleteTranslationOperations (resNormalized res) = (resDocumentRevision res = e)))"

lemma equalRevision_eq: "equalRevision a b \<longleftrightarrow> a = b"
  by (cases a; cases b) (simp_all add: equalRevision_def)

lemma validateRevisionAdvance_None: "validateRevisionAdvance e t res = None \<longleftrightarrow> advances e t res"
  by (auto simp: validateRevisionAdvance_def advances_def first_error_None equalRevision_eq split: option.splits)

section \<open>Accepted requests have canonical operations\<close>

text \<open>
  Every check of \<open>validateCanonicalOperation\<close> ends in nil or an ordinary error on a well-shaped
  operation: after the envelope check nothing is dereferenced.
\<close>

lemma returned_payload: "p \<noteq> None \<Longrightarrow> (\<And>x. p = Some x \<Longrightarrow> returned (check x)) \<Longrightarrow> returned (payload p check)"
  by (auto simp: payload_def)

lemma returned_validateCanonicalOperation:
  assumes "validateShape op = None"
  shows "returned (validateCanonicalOperation K op)"
proof -
  have k: "kindMatchesPayload op" using assms by (auto simp: validateShape_def split: if_splits)
  have m: "returned (validateCanonicalMoveRelationItem p)" for p
    unfolding validateCanonicalMoveRelationItem_def by (intro returned_intros)
  have pl: "returned (validateCanonicalPlacement a b)" for a b
    unfolding validateCanonicalPlacement_def by (intro returned_intros)
  have t: "returned (validateCanonicalFieldTarget x)" for x
    unfolding validateCanonicalFieldTarget_def by (intro returned_intros)
  show ?thesis
    using k m pl t unfolding validateCanonicalOperation_def kindMatchesPayload_def
    by (cases "opKind op") (auto intro!: returned_payload returned_intros)
qed

text \<open>
  The validator accepts canonical operations only. The identifiers it does not check itself are those
  of existing blocks, which are canonical in every graph that accepted operations reach.
\<close>

lemma validateStableID_name: "validateStableID a v n = None \<longleftrightarrow> validateStableID b v n = None"
  by (auto simp: validateStableID_def validateOpaque_def check_all_None split: option.splits if_splits)

definition stable_blocks :: "graph \<Rightarrow> bool" where
  "stable_blocks g \<longleftrightarrow> (\<forall>b \<in> dom (map_of g). validateStableID ''block ID'' b maxHandleLength = None)"

lemma stable_blocks_block: "stable_blocks g \<Longrightarrow> map_of g b \<noteq> None \<Longrightarrow> validateStableID name b maxHandleLength = None"
  using validateStableID_name unfolding stable_blocks_def by blast

lemma stable_blocks_update:
  "stable_blocks g \<Longrightarrow> validateStableID ''block ID'' b maxHandleLength = None \<Longrightarrow> stable_blocks (AList.update b x g)"
  by (auto simp: stable_blocks_def map_of_update)

lemma stable_blocks_filter: "stable_blocks g \<Longrightarrow> stable_blocks (filter (\<lambda>(id, x). P id) g)"
  by (auto simp: stable_blocks_def map_of_filter_key restrict_map_def split: if_splits)

lemma accept_stable_blocks:
  assumes s: "stable_blocks (vGraph v)" and g: "graph_ok (vGraph v)"
    and ok: "validator_validate K v op = Inr None" and acc: "accept v op = Inr w"
  shows "stable_blocks (vGraph w)"
proof -
  from acc obtain h where h: "applyGraphEffect op (vGraph v) = Inr h" "vGraph w = h"
    by (auto simp: accept_def and_then_Inr Let_def split: if_splits)
  note ids = stable_blocks_block [OF s] stable_blocks_update [OF s]
  have "stable_blocks h"
  proof (cases "opKind op")
    case OperationMoveRelationItem
    with ok h obtain p where p: "opMoveRelationItem op = Some p" and v: "validateMoveRelationItem v p = Inr None"
      by (auto simp: validator_validate_def deref_def split: option.splits)
    from validateMoveRelationItem_NoneD [OF v] have
      "validateStableID ''block ID'' (mriBlock p) maxHandleLength = None"
      "validateStableID ''block ID'' (mriTargetBlock p) maxHandleLength = None"
      by (auto simp: validateRelationOperationIDs_def first_error_None)
    then show ?thesis using h(1) OperationMoveRelationItem p s
      by (auto simp: applyGraphEffect_def graph_move_item_def Let_def and_then_Inr intro!: stable_blocks_update)
  qed (use h(1) ok s g ids in \<open>auto simp: applyGraphEffect_def validator_validate_def deref_def graph_insert_def
      graph_delete_def graph_move_def Let_def and_then_Inr validateInsertBlock_None validateDeleteBlock_None
      validateMoveBlock_None validateReplaceBlockKind_None validateInsertRelationItem_None validateDeleteRelationItem_None
      validateRelationOperationIDs_def first_error_None intro!: stable_blocks_filter split: option.splits\<close>)
  with h show ?thesis by simp
qed

lemma catalog_kind_stable:
  assumes "Catalog_validate c = None" and "hasBlockKind (newCatalogIndex c) k"
  shows "validateStableID name k maxKindLength = None"
proof -
  have "loop_seen id (\<lambda>seen kind. first_error
      [validateStableID ''block kind'' kind maxKindLength, fail_if (kind \<in> seen) ''duplicate block kind'']) {} (catBlockKinds c) = None"
    using assms(1) by (simp add: Catalog_validate_def first_error_None validateBlockKinds_def)
  moreover have "k \<in> set (catBlockKinds c)" using assms(2) by (simp add: hasBlockKind_def newCatalogIndex_def)
  ultimately have "validateStableID ''block kind'' k maxKindLength = None"
    by (subst (asm) loop_seen_distinct [where P = "\<lambda>k. validateStableID ''block kind'' k maxKindLength = None"])
      (auto simp: first_error_None)
  then show ?thesis using validateStableID_name by blast
qed

lemma accepted_placement_canonical:
  "stable_blocks (vGraph v) \<Longrightarrow> validatePlacement v b p a = Inr None \<Longrightarrow> validateCanonicalPlacement p a = None"
  using stable_blocks_block by (auto simp: validatePlacement_None validateCanonicalPlacement_def first_error_None)

lemma resolveField_canonical: "resolveField v t = Inr rule \<Longrightarrow> validateCanonicalFieldTarget t = None"
  by (auto simp: resolveField_def split: option.splits)

lemma accepted_operation_canonical:
  assumes s: "stable_blocks (vGraph v)" and g: "graph_ok (vGraph v)"
    and c: "vCatalog v = newCatalogIndex c" "Catalog_validate c = None"
    and ok: "validator_validate K v op = Inr None"
  shows "validateCanonicalOperation K op = None"
proof -
  note block = stable_blocks_block [OF s] and kind = catalog_kind_stable [OF c(2)]
    and place = accepted_placement_canonical [OF s]
  have shape: "kindMatchesPayload op"
    using ok by (auto simp: validator_validate_def validateShape_def split: option.splits if_splits)
  show ?thesis
  proof (cases "opKind op")
    case OperationSetField
    with ok show ?thesis
      by (auto simp: validator_validate_def deref_def validateSetField_def Let_def verdict_simps validateCanonicalOperation_def
          payload_def first_error_None dest: resolveField_canonical split: option.splits sum.splits)
  next
    case OperationUnsetField
    with ok show ?thesis
      by (auto simp: validator_validate_def deref_def validateUnsetField_def validateCanonicalOperation_def payload_def
          dest: resolveField_canonical split: option.splits sum.splits)
  next
    case OperationAttachFile
    with ok show ?thesis
      by (auto simp: validator_validate_def deref_def validateAttachFile_def requireFileSlot_def verdict_simps
          validateCanonicalOperation_def payload_def first_error_None dest: resolveField_canonical split: option.splits sum.splits)
  next
    case OperationDetachFile
    with ok show ?thesis
      by (auto simp: validator_validate_def deref_def validateDetachFile_def requireFileSlot_def verdict_simps
          validateCanonicalOperation_def payload_def dest: resolveField_canonical split: option.splits sum.splits)
  next
    case OperationMoveRelationItem
    with ok obtain p where p: "opMoveRelationItem op = Some p" and v: "validateMoveRelationItem v p = Inr None"
      by (auto simp: validator_validate_def deref_def split: option.splits)
    from v have "validateAfterRelationItem (mriAfter p) = None"
      by (simp add: validateMoveRelationItem_def Let_def verdict_simps)
    with validateMoveRelationItem_NoneD [OF v] have "validateCanonicalMoveRelationItem p = None"
      using validateStableID_name by (auto simp: validateCanonicalMoveRelationItem_def validateRelationOperationIDs_def first_error_None)
    then show ?thesis using OperationMoveRelationItem p by (simp add: validateCanonicalOperation_def payload_def)
  qed (use ok g c block kind place shape in \<open>auto simp: validator_validate_def deref_def validateCanonicalOperation_def payload_def
      first_error_None validateInsertBlock_None validateDeleteBlock_None validateMoveBlock_None validateReplaceBlockKind_None
      validateInsertRelationItem_None validateDeleteRelationItem_None kindMatchesPayload_def split: option.splits\<close>)
qed

lemma accepted_rounds_canonical:
  "stable_blocks (vGraph v) \<Longrightarrow> graph_ok (vGraph v) \<Longrightarrow> vCatalog v = newCatalogIndex c \<Longrightarrow> Catalog_validate c = None \<Longrightarrow>
   validateRounds K v n ops = Inr [] \<Longrightarrow> validateCanonicalOperations K ops = None"
proof (induction ops arbitrary: v n)
  case Nil
  then show ?case by (simp add: validateCanonicalOperations_def)
next
  case (Cons op ops)
  let ?w = "v\<lparr>vIndex := int n\<rparr>"
  from Cons.prems(5) obtain w where ok: "validator_validate K ?w op = Inr None"
    and acc: "accept ?w op = Inr w" and rest: "validateRounds K w (Suc n) ops = Inr []"
    by (auto simp: Let_def and_then_Inr split: option.splits)
  have w: "stable_blocks (vGraph ?w)" "graph_ok (vGraph ?w)" "vCatalog ?w = newCatalogIndex c" using Cons.prems by simp_all
  have "graph_ok (vGraph w)" "vCatalog w = newCatalogIndex c" using accept_graph_ok [OF w(2) ok] acc w(3) by auto
  with accept_stable_blocks [OF w(1,2) ok acc] have "validateCanonicalOperations K ops = None"
    using Cons.IH Cons.prems(4) rest by blast
  moreover have "validateCanonicalOperation K op = None" by (rule accepted_operation_canonical [OF w Cons.prems(4) ok])
  ultimately show ?case by (simp add: validateCanonicalOperations_def)
qed

lemma initial_stable_blocks:
  assumes "Document_validate K d = None"
  shows "stable_blocks (newOperationGraph (docNodes d))"
proof -
  have v: "validateNodes K (docNodes d) = None" using Document_validate_parts [OF assms] by blast
  then have "dom (map_of (newOperationGraph (docNodes d))) = nodeID ` set (docNodes d)"
    using newOperationGraph_parents [of "docNodes d"] validateNodes_ok [OF v]
    by (metis dom_graph_parents dom_node_parents nodes_ok_def)
  then show ?thesis using v by (auto simp: stable_blocks_def validateNodes_iff)
qed

lemma accepted_request_canonical:
  assumes "ValidateOperations K d r = Inr res" and "Valid res"
  shows "vrNormalized res = arOperations r \<and> validateCanonicalOperations K (arOperations r) = None"
proof -
  note a = Valid_accepted [OF assms]
  have "validateCanonicalOperations K (arOperations r) = None"
    by (rule accepted_rounds_canonical [OF _ newValidator_ok(1) [OF a(2)] _ _ a(7)])
      (use initial_stable_blocks [OF a(2)] Document_validate_parts [OF a(2)] in \<open>auto simp: newValidator_def\<close>)
  moreover have "vrNormalized res = arOperations r"
    using assms by (auto simp: ValidateOperations_def Let_def and_then_Inr split: option.splits error.splits if_splits)
  ultimately show ?thesis by blast
qed

text \<open>The command of an accepted request is accepted back exactly when the port reports a consistent result.\<close>

lemma ValidateLoadedApply_command:
  assumes "ValidateLoadedApply K d r = Inr (Some command, validation)"
  shows "ValidateOperations K d r = Inr validation" "Valid validation"
    "vaOperations command = arOperations r" "vaExpectedDocumentRevision command = docRevision d"
    "vaExpectedTargetRevision command = docTargetRevision d"
proof -
  from assms show v: "ValidateOperations K d r = Inr validation" "Valid validation"
    by (auto simp: ValidateLoadedApply_def and_then_Inr split: if_splits)
  have c: "vaOperations command = vrNormalized validation" "vaExpectedDocumentRevision command = arExpectedDocumentRevision r"
    "vaExpectedTargetRevision command = arExpectedTargetRevision r"
    using assms by (auto simp: ValidateLoadedApply_def and_then_Inr split: if_splits)
  show "vaOperations command = arOperations r" using c accepted_request_canonical [OF v] by simp
  show "vaExpectedDocumentRevision command = docRevision d" "vaExpectedTargetRevision command = docTargetRevision d"
    using c Valid_accepted [OF v] by (simp_all add: equalRevision_eq)
qed

lemma AcceptValidatedApply_command:
  assumes "ValidateLoadedApply K d r = Inr (Some command, validation)"
  shows "AcceptValidatedApply K command res = Inr res' \<longleftrightarrow>
    res' = res\<lparr>resNormalized := arOperations r\<rparr> \<and> resDocumentRevision res \<noteq> '''' \<and> resTargetRevision res \<noteq> Some '''' \<and>
    validateAcceptedChanges res' = None \<and> advances (docRevision d) (docTargetRevision d) res'"
proof -
  note c = ValidateLoadedApply_command [OF assms]
  have "arOperations r \<noteq> []" using Valid_accepted(1) [OF c(1,2)] by (simp add: validateEnvelope_def first_error_None)
  then show ?thesis using accepted_request_canonical [OF c(1,2)]
    by (auto simp: AcceptValidatedApply_def c(3-5) validateAcceptedApply_Inr validateRevisionAdvance_None)
qed

end
