(* ===== verification/Read_Service.thy ===== *)
theory Read_Service
  imports Outline Apply_Service
begin

text \<open>
  Reads: \<open>service.go\<close> (open, describe, read, selections, cursors), \<open>batch.go\<close> and the projection of
  \<open>codec.go\<close>. Parameters: \<open>K\<close> (site variable keys), \<open>lower\<close> (\<open>unicode.ToLower\<close>), \<open>digest\<close> (the hex text of
  the SHA-256 of the JSON of the cursor parts) and the port's \<open>load\<close>.
\<close>

section \<open>Requests and results\<close>

datatype ReadMode = ReadOutline | ReadBlocks | ReadFields | ReadOther string

definition ReadMode_valid :: "ReadMode \<Rightarrow> bool" where
  "ReadMode_valid m \<longleftrightarrow> m = ReadOutline \<or> m = ReadBlocks \<or> m = ReadFields"

record FieldSelection =
  fsBlock :: BlockID
  fsRelation :: RelationID
  fsItem :: RelationItemID
  fsField :: FieldID

definition FieldSelection_target :: "FieldSelection \<Rightarrow> FieldTarget" where
  "FieldSelection_target s =
     \<lparr>tgtBlock = fsBlock s, tgtRelation = fsRelation s, tgtItem = fsItem s, tgtField = fsField s, tgtPath = []\<rparr>"

record OpenRequest =
  opnDocument :: DocumentIdentity
  opnLocale :: Locale

record OpenMetadata =
  omProtocol :: string
  omProfile :: Domain
  omCatalog :: string
  omDocument :: DocumentReference
  omDocumentRevision :: Revision
  omTargetRevision :: "Revision option"
  omSourceLocale :: Locale
  omLocale :: Locale
  omLocaleRole :: LocaleRole
  omLocaleExists :: bool

definition OpenMetadata_Identity :: "OpenMetadata \<Rightarrow> DocumentIdentity" where
  "OpenMetadata_Identity m = \<lparr>idDomain = omProfile m, idReference = omDocument m\<rparr>"

definition OpenMetadata_validate :: "OpenMetadata \<Rightarrow> error option" where
  "OpenMetadata_validate m = first_error
     [fail_if (omProtocol m \<noteq> ProtocolVersion) ''unsupported protocol'',
      DocumentIdentity_validate (OpenMetadata_Identity m),
      validateOpaque ''catalog fingerprint'' (omCatalog m) 256,
      validateOpaque ''document revision'' (omDocumentRevision m) 256,
      optional_opaque ''target revision'' (omTargetRevision m),
      validateLocale (omSourceLocale m),
      validateLocale (omLocale m),
      fail_if (omLocaleRole m \<noteq> deriveLocaleRole (omSourceLocale m) (omLocale m))
        ''locale role does not match source and requested locales'',
      validateLocaleState (omLocaleRole m) (omLocaleExists m) (omTargetRevision m)]"

record ReadRequest =
  rqDocument :: DocumentIdentity
  rqLocale :: Locale
  rqMode :: ReadMode
  rqBlocks :: "BlockID list"
  rqFields :: "FieldSelection list"
  rqLimit :: int
  rqCursor :: Cursor
  rqQuery :: string

record Projection =
  prProtocol :: string
  prProfile :: Domain
  prCatalog :: string
  prDocument :: DocumentReference
  prDocumentRevision :: Revision
  prTargetRevision :: "Revision option"
  prSourceLocale :: Locale
  prLocale :: Locale
  prLocaleRole :: LocaleRole
  prLocaleExists :: bool
  prMode :: ReadMode
  prQuery :: string
  prNodes :: "Node list"
  prPreviews :: "(BlockID \<times> string) list"
  prNext :: "Cursor option"

definition Projection_Identity :: "Projection \<Rightarrow> DocumentIdentity" where
  "Projection_Identity p = \<lparr>idDomain = prProfile p, idReference = prDocument p\<rparr>"

definition Projection_validate :: "(string \<Rightarrow> bool) \<Rightarrow> Projection \<Rightarrow> error option" where
  "Projection_validate K p = first_error
     [fail_if (prProtocol p \<noteq> ProtocolVersion) ''unsupported protocol'',
      DocumentIdentity_validate (Projection_Identity p),
      validateOpaque ''catalog fingerprint'' (prCatalog p) 256,
      validateOpaque ''document revision'' (prDocumentRevision p) 256,
      optional_opaque ''target revision'' (prTargetRevision p),
      validateLocale (prSourceLocale p),
      validateLocale (prLocale p),
      fail_if (prLocaleRole p \<noteq> deriveLocaleRole (prSourceLocale p) (prLocale p))
        ''locale role does not match source and requested locales'',
      validateLocaleState (prLocaleRole p) (prLocaleExists p) (prTargetRevision p),
      (if prLocaleRole p = LocaleRoleNonSource \<and> \<not> prLocaleExists p
         then validateAbsentLocaleValues (prNodes p) else None),
      fail_if (\<not> ReadMode_valid (prMode p)) ''unsupported read mode'',
      validateProjectedNodes K (prNodes p)]"

section \<open>Loading\<close>

definition validateLoadedDocument ::
    "(string \<Rightarrow> bool) \<Rightarrow> Document \<Rightarrow> DocumentIdentity \<Rightarrow> Locale \<Rightarrow> error option" where
  "validateLoadedDocument K d identity locale' = first_error
     [Document_validate K d,
      fail_if (docIdentity d \<noteq> identity \<or> docLocale d \<noteq> locale')
        ''domain port returned a different document identity or locale'']"

definition integrity_check :: "error option \<Rightarrow> ('e, 'a) answer \<Rightarrow> ('e, 'a) answer" where
  "integrity_check c k = (case c of None \<Rightarrow> k | Some e \<Rightarrow> Inl (Integrity e))"

type_synonym 'e loader = "DocumentIdentity \<Rightarrow> Locale \<Rightarrow> 'e + Document"

definition loadDocument :: "(string \<Rightarrow> bool) \<Rightarrow> 'e loader \<Rightarrow> OpenRequest \<Rightarrow> ('e, Document) answer" where
  "loadDocument K load r =
     input_check (DocumentIdentity_validate (opnDocument r))
       (input_check (validateLocale (opnLocale r))
         (from_port (load (opnDocument r) (opnLocale r))
           (\<lambda>d. integrity_check (validateLoadedDocument K d (opnDocument r) (opnLocale r)) (Inr d))))"

definition documentOpenMetadata :: "Document \<Rightarrow> OpenMetadata" where
  "documentOpenMetadata d =
     \<lparr>omProtocol = ProtocolVersion, omProfile = idDomain (docIdentity d), omCatalog = catFingerprint (docCatalog d),
      omDocument = idReference (docIdentity d), omDocumentRevision = docRevision d,
      omTargetRevision = docTargetRevision d, omSourceLocale = docSourceLocale d, omLocale = docLocale d,
      omLocaleRole = Role d, omLocaleExists = docLocaleExists d\<rparr>"

definition on_answer :: "('e, 'a) answer \<Rightarrow> ('a \<Rightarrow> ('e, 'b) answer) \<Rightarrow> ('e, 'b) answer" where
  "on_answer r k = (case r of Inl e \<Rightarrow> Inl e | Inr x \<Rightarrow> k x)"

definition Service_Open :: "(string \<Rightarrow> bool) \<Rightarrow> 'e loader \<Rightarrow> OpenRequest \<Rightarrow> ('e, OpenMetadata) answer" where
  "Service_Open K load r = on_answer (loadDocument K load r) (\<lambda>d. Inr (documentOpenMetadata d))"

text \<open>
  Discovery copies every slice and schema of the port's catalog; on immutable values the copies rebuild
  the catalog field by field.
\<close>

record DescribeResult =
  drMetadata :: OpenMetadata
  drCatalog :: Catalog

definition Service_Describe :: "(string \<Rightarrow> bool) \<Rightarrow> 'e loader \<Rightarrow> OpenRequest \<Rightarrow> ('e, DescribeResult) answer" where
  "Service_Describe K load r = on_answer (loadDocument K load r)
     (\<lambda>d. Inr \<lparr>drMetadata = documentOpenMetadata d, drCatalog = docCatalog d\<rparr>)"

section \<open>Selections\<close>

definition validateReadRequest :: "ReadRequest \<Rightarrow> error option" where
  "validateReadRequest r = first_error
     [DocumentIdentity_validate (rqDocument r),
      validateLocale (rqLocale r),
      fail_if (\<not> ReadMode_valid (rqMode r)) ''unsupported read mode'',
      fail_if (rqLimit r < 0 \<or> rqLimit r > 256) ''read limit must be between 0 and 256'',
      (if rqQuery r \<noteq> '''' then first_error
         [fail_if (rqMode r \<noteq> ReadOutline) ''query searches only an outline read; use mode outline'',
          fail_if (trim_space (rqQuery r) = '''' \<or> rune_count (rqQuery r) > MaxReadQueryRunes)
            ''query must contain 1 to 200 characters of text'']
       else None),
      (case rqMode r of
         ReadOutline \<Rightarrow> fail_if (rqBlocks r \<noteq> [] \<or> rqFields r \<noteq> [])
           ''outline read does not accept block or field selectors''
       | ReadBlocks \<Rightarrow> fail_if (rqBlocks r = [] \<or> rqFields r \<noteq> [])
           ''block read requires block selectors only''
       | ReadFields \<Rightarrow> fail_if (rqFields r = [] \<or> rqBlocks r \<noteq> [])
           ''field read requires field selectors only''
       | ReadOther _ \<Rightarrow> None)]"

definition outlineNode :: "Node \<Rightarrow> Node" where
  "outlineNode n =
     \<lparr>nodeID = nodeID n, nodeKind = nodeKind n, nodeParent = nodeParent n, nodeOrder = nodeOrder n,
      nodeShared = [], nodeLocalized = [], nodeFiles = [],
      nodeRelations = map (\<lambda>r. \<lparr>relID = relID r,
        relItems = map (\<lambda>i. \<lparr>riID = riID i, riKind = riKind i, riOrder = riOrder i,
          riShared = [], riLocalized = [], riFiles = []\<rparr>) (relItems r)\<rparr>) (nodeRelations n)\<rparr>"

definition projectOutline :: "Node list \<Rightarrow> Node list" where
  "projectOutline nodes = map outlineNode nodes"

text \<open>The loop over the nodes takes each requested block once and forgets it.\<close>

fun takeSelected :: "BlockID set \<Rightarrow> Node list \<Rightarrow> Node list \<times> BlockID set" where
  "takeSelected wanted [] = ([], wanted)"
| "takeSelected wanted (n # nodes) =
     (if nodeID n \<in> wanted
        then (let (taken, rest) = takeSelected (wanted - {nodeID n}) nodes in (n # taken, rest))
      else takeSelected wanted nodes)"

definition selectBlocks :: "Node list \<Rightarrow> BlockID list \<Rightarrow> Node list result" where
  "selectBlocks nodes blocks =
     guard_error (check_all (\<lambda>b. validateStableID ''block ID'' b maxHandleLength) blocks)
       (let (taken, rest) = takeSelected (set blocks) nodes in
        if rest \<noteq> {}
          then Inl (Err ''one or more selected blocks do not exist; reread the outline for current block handles'')
        else Inr taken)"

record selectedFields =
  blockFields :: "FieldID set"
  relationFields :: "RelationID \<Rightarrow> RelationItemID \<Rightarrow> FieldID set"

definition noFields :: selectedFields where
  "noFields = \<lparr>blockFields = {}, relationFields = (\<lambda>_ _. {})\<rparr>"

definition findRelationItem :: "Node \<Rightarrow> RelationID \<Rightarrow> RelationItemID \<Rightarrow> (Relation \<times> RelationItem) option" where
  "findRelationItem n relation item =
     (case find (\<lambda>r. relID r = relation) (nodeRelations n) of
        None \<Rightarrow> None
      | Some r \<Rightarrow> map_option (Pair r) (find (\<lambda>i. riID i = item) (relItems r)))"

definition selectedFields_add ::
    "catalogIndex \<Rightarrow> Node \<Rightarrow> FieldSelection \<Rightarrow> selectedFields \<Rightarrow> selectedFields result" where
  "selectedFields_add ix n f s =
     (if fsRelation f = '''' then
        (case catalogField ix (nodeKind n) (fsField f) of
           None \<Rightarrow> Inl (Err ''selected field is not defined for the block'')
         | Some _ \<Rightarrow> Inr (s\<lparr>blockFields := insert (fsField f) (blockFields s)\<rparr>))
      else
        (case findRelationItem n (fsRelation f) (fsItem f) of
           None \<Rightarrow> Inl (Err ''selected relation item does not exist'')
         | Some (r, i) \<Rightarrow>
             (case relationField ix (nodeKind n) (relID r) (riKind i) (fsField f) of
                None \<Rightarrow> Inl (Err ''selected field is not defined for the relation item'')
              | Some _ \<Rightarrow> Inr (s\<lparr>relationFields := (relationFields s)(fsRelation f :=
                  (relationFields s (fsRelation f))(fsItem f :=
                    insert (fsField f) (relationFields s (fsRelation f) (fsItem f))))\<rparr>))))"

definition selectionRound ::
    "catalogIndex \<Rightarrow> Node list \<Rightarrow> (BlockID \<rightharpoonup> selectedFields) \<Rightarrow> FieldSelection \<Rightarrow> (BlockID \<rightharpoonup> selectedFields) result" where
  "selectionRound ix nodes chosen f =
     guard_error (validateCanonicalFieldTarget (FieldSelection_target f))
       (case find (\<lambda>n. nodeID n = fsBlock f) (rev nodes) of
          None \<Rightarrow> Inl (Err ''selected block does not exist'')
        | Some n \<Rightarrow>
            and_then (selectedFields_add ix n f (case chosen (fsBlock f) of None \<Rightarrow> noFields | Some s \<Rightarrow> s))
              (\<lambda>s. Inr (chosen(fsBlock f \<mapsto> s))))"

definition buildFieldSelection :: "Document \<Rightarrow> FieldSelection list \<Rightarrow> (BlockID \<rightharpoonup> selectedFields) result" where
  "buildFieldSelection d fs =
     fold_result (selectionRound (newCatalogIndex (docCatalog d)) (docNodes d)) Map.empty fs"

definition filterValues :: "FieldID set \<Rightarrow> FieldValue list \<Rightarrow> FieldValue list" where
  "filterValues sel vs = filter (\<lambda>v. fvID v \<in> sel) vs"

definition filterFiles :: "FieldID set \<Rightarrow> FileBinding list \<Rightarrow> FileBinding list" where
  "filterFiles sel fs = filter (\<lambda>f. fbField f \<in> sel) fs"

definition projectRelationItem :: "RelationItem \<Rightarrow> FieldID set \<Rightarrow> RelationItem" where
  "projectRelationItem i sel =
     \<lparr>riID = riID i, riKind = riKind i, riOrder = riOrder i, riShared = filterValues sel (riShared i),
      riLocalized = filterValues sel (riLocalized i), riFiles = filterFiles sel (riFiles i)\<rparr>"

text \<open>An item is in the inner map exactly when it has a selected field.\<close>

definition projectNodeFields :: "Node \<Rightarrow> selectedFields \<Rightarrow> Node" where
  "projectNodeFields n s =
     \<lparr>nodeID = nodeID n, nodeKind = nodeKind n, nodeParent = nodeParent n, nodeOrder = nodeOrder n,
      nodeShared = filterValues (blockFields s) (nodeShared n),
      nodeLocalized = filterValues (blockFields s) (nodeLocalized n),
      nodeFiles = filterFiles (blockFields s) (nodeFiles n),
      nodeRelations = map (\<lambda>r. \<lparr>relID = relID r,
          relItems = map (\<lambda>i. projectRelationItem i (relationFields s (relID r) (riID i)))
            (filter (\<lambda>i. relationFields s (relID r) (riID i) \<noteq> {}) (relItems r))\<rparr>)
        (filter (\<lambda>r. relationFields s (relID r) \<noteq> (\<lambda>_. {})) (nodeRelations n))\<rparr>"

definition selectNodes :: "Document \<Rightarrow> ReadRequest \<Rightarrow> Node list result" where
  "selectNodes d r =
     (case rqMode r of
        ReadOutline \<Rightarrow> Inr (projectOutline (docNodes d))
      | ReadBlocks \<Rightarrow> selectBlocks (docNodes d) (rqBlocks r)
      | ReadFields \<Rightarrow> and_then (buildFieldSelection d (rqFields r))
          (\<lambda>chosen. Inr (List.map_filter (\<lambda>n. map_option (projectNodeFields n) (chosen (nodeID n))) (docNodes d)))
      | ReadOther _ \<Rightarrow> Inl (Err ''unsupported read mode''))"

definition selectedSourceNodes :: "Node list \<Rightarrow> Node list \<Rightarrow> Node list" where
  "selectedSourceNodes nodes page = filter (\<lambda>n. nodeID n \<in> nodeID ` set page) nodes"

section \<open>Cursors\<close>

record cursorParts =
  cpIdentity :: DocumentIdentity
  cpRevision :: Revision
  cpTarget :: "Revision option"
  cpSource :: Locale
  cpLocale :: Locale
  cpMode :: ReadMode
  cpBlocks :: "BlockID list"
  cpFields :: "FieldSelection list"
  cpQuery :: string

definition selection_key :: "FieldSelection \<Rightarrow> BlockID \<times> RelationID \<times> RelationItemID \<times> FieldID" where
  "selection_key f = (fsBlock f, fsRelation f, fsItem f, fsField f)"

definition readCursorFingerprint :: "(cursorParts \<Rightarrow> string) \<Rightarrow> Document \<Rightarrow> ReadRequest \<Rightarrow> string" where
  "readCursorFingerprint digest d r = digest
     \<lparr>cpIdentity = docIdentity d, cpRevision = docRevision d, cpTarget = docTargetRevision d,
      cpSource = docSourceLocale d, cpLocale = docLocale d, cpMode = rqMode r,
      cpBlocks = sort (rqBlocks r), cpFields = sort_key selection_key (rqFields r), cpQuery = rqQuery r\<rparr>"

definition encodeCursor :: "int \<Rightarrow> string \<Rightarrow> Cursor" where
  "encodeCursor offset fingerprint = ''c1.'' @ itoa offset @ ''.'' @ fingerprint"

definition decodeCursor :: "Cursor \<Rightarrow> string \<Rightarrow> int result" where
  "decodeCursor cursor fingerprint =
     (case split_on CHR ''.'' cursor of
        [version, offset, bound] \<Rightarrow>
          if version \<noteq> ''c1'' \<or> bound \<noteq> fingerprint then Inl (Err ''cursor binding mismatch'')
          else (case atoi offset of
              None \<Rightarrow> Inl (Err ''invalid cursor offset'')
            | Some n \<Rightarrow> if n < 0 then Inl (Err ''invalid cursor offset'') else Inr n)
      | _ \<Rightarrow> Inl (Err ''cursor binding mismatch''))"

section \<open>Reading a page\<close>

definition readPreviews ::
    "(nat \<Rightarrow> nat) \<Rightarrow> Document \<Rightarrow> ReadRequest \<Rightarrow> Node list \<Rightarrow> (BlockID \<times> string) list" where
  "readPreviews lower d r page =
     (if rqQuery r \<noteq> ''''
        then (let matches = searchNodes lower (docNodes d) (rqQuery r) in
          foldl (\<lambda>m n. AList.update (nodeID n) (case map_of matches (nodeID n) of None \<Rightarrow> '''' | Some p \<Rightarrow> p) m) [] page)
      else if rqMode r = ReadOutline then outlinePreviews (selectedSourceNodes (docNodes d) page)
      else [])"

definition newProjection ::
    "Document \<Rightarrow> ReadRequest \<Rightarrow> Node list \<Rightarrow> (BlockID \<times> string) list \<Rightarrow> Cursor option \<Rightarrow> Projection" where
  "newProjection d r page previews next =
     \<lparr>prProtocol = ProtocolVersion, prProfile = idDomain (docIdentity d), prCatalog = catFingerprint (docCatalog d),
      prDocument = idReference (docIdentity d), prDocumentRevision = docRevision d,
      prTargetRevision = docTargetRevision d, prSourceLocale = docSourceLocale d, prLocale = docLocale d,
      prLocaleRole = Role d, prLocaleExists = docLocaleExists d, prMode = rqMode r, prQuery = rqQuery r,
      prNodes = page, prPreviews = previews, prNext = next\<rparr>"

definition selected_page ::
    "(nat \<Rightarrow> nat) \<Rightarrow> Document \<Rightarrow> ReadRequest \<Rightarrow> Node list \<Rightarrow> Node list" where
  "selected_page lower d r nodes =
     (if rqQuery r = '''' then nodes
      else filter (\<lambda>n. map_of (searchNodes lower (docNodes d) (rqQuery r)) (nodeID n) \<noteq> None) nodes)"

definition cursorOffset :: "(cursorParts \<Rightarrow> string) \<Rightarrow> Document \<Rightarrow> ReadRequest \<Rightarrow> nat \<Rightarrow> nat option" where
  "cursorOffset digest d r len =
     (if rqCursor r = '''' then Some 0
      else case decodeCursor (rqCursor r) (readCursorFingerprint digest d r) of
          Inl _ \<Rightarrow> None
        | Inr offset \<Rightarrow> if offset > int len then None else Some (nat offset))"

definition readDocument ::
    "(nat \<Rightarrow> nat) \<Rightarrow> (cursorParts \<Rightarrow> string) \<Rightarrow> Document \<Rightarrow> ReadRequest \<Rightarrow> ('e, Projection) answer" where
  "readDocument lower digest d r =
     (case selectNodes d r of
        Inl (Err m) \<Rightarrow> Inl (InputError m)
      | Inl p \<Rightarrow> Inl (Integrity p)
      | Inr chosen \<Rightarrow>
          on_answer (from_result (canonicalNodes (selected_page lower d r chosen)))
            (\<lambda>nodes. case cursorOffset digest d r (length nodes) of
                 None \<Rightarrow> Inl (CursorError (docRevision d) (docTargetRevision d))
               | Some offset \<Rightarrow>
                   (let limit = (if rqLimit r = 0 then 64 else rqLimit r);
                        finish = min (int offset + limit) (int (length nodes));
                        page = take (nat finish - offset) (drop offset nodes);
                        next = (if finish < int (length nodes)
                          then Some (encodeCursor finish (readCursorFingerprint digest d r)) else None)
                    in if finish < int offset then Inl (Integrity NilDeref)
                       else Inr (newProjection d r page (readPreviews lower d r page) next))))"

definition Service_Read ::
    "(string \<Rightarrow> bool) \<Rightarrow> (nat \<Rightarrow> nat) \<Rightarrow> (cursorParts \<Rightarrow> string) \<Rightarrow> 'e loader \<Rightarrow> ReadRequest \<Rightarrow> ('e, Projection) answer" where
  "Service_Read K lower digest load r =
     input_check (validateReadRequest r)
       (on_answer (loadDocument K load \<lparr>opnDocument = rqDocument r, opnLocale = rqLocale r\<rparr>)
         (\<lambda>d. readDocument lower digest d r))"

section \<open>Batched reads\<close>

record LoadRequest =
  lrDocument :: DocumentIdentity
  lrLocale :: Locale

text \<open>
  A deferred document is the outcome of its load. The port's own \<open>LoadBatch\<close>, where it has one, gives
  one outcome per request or fails as a whole.
\<close>

type_synonym 'e deferred = "'e + Document"

definition LoadBatch ::
    "'e loader \<Rightarrow> (LoadRequest list \<Rightarrow> 'e + 'e deferred list) option \<Rightarrow> LoadRequest list \<Rightarrow> 'e deferred list" where
  "LoadBatch load batch requests =
     (case batch of
        None \<Rightarrow> map (\<lambda>r. load (lrDocument r) (lrLocale r)) requests
      | Some loadAll \<Rightarrow>
          (case loadAll requests of
             Inl e \<Rightarrow> map (\<lambda>_. Inl e) requests
           | Inr loaded \<Rightarrow> loaded))"

text \<open>The closure indexes the loaded outcomes when it runs; a later request for the same key replaces
  an earlier one.\<close>

definition batchDocument ::
    "(string \<Rightarrow> bool) \<Rightarrow> 'e deferred list \<Rightarrow> nat \<Rightarrow> LoadRequest \<Rightarrow> ('e, Document) answer" where
  "batchDocument K loaded index r =
     (if index < length loaded then
        from_port (loaded ! index)
          (\<lambda>d. integrity_check (validateLoadedDocument K d (lrDocument r) (lrLocale r)) (Inr d))
      else Inl (Integrity NilDeref))"

definition OpenBatch ::
    "(string \<Rightarrow> bool) \<Rightarrow> 'e loader \<Rightarrow> (LoadRequest list \<Rightarrow> 'e + 'e deferred list) option \<Rightarrow> LoadRequest list \<Rightarrow>
      LoadRequest \<rightharpoonup> ('e, Document) answer" where
  "OpenBatch K load batch requests =
     (let loaded = LoadBatch load batch requests in
      foldl (\<lambda>m (index, r). m(r \<mapsto> batchDocument K loaded index r)) Map.empty (enumerate 0 requests))"

definition batch_Read ::
    "(nat \<Rightarrow> nat) \<Rightarrow> (cursorParts \<Rightarrow> string) \<Rightarrow> (LoadRequest \<rightharpoonup> ('e, Document) answer) \<Rightarrow> ReadRequest \<Rightarrow> ('e, Projection) answer" where
  "batch_Read lower digest opened r =
     input_check (validateReadRequest r)
       (case opened \<lparr>lrDocument = rqDocument r, lrLocale = rqLocale r\<rparr> of
          None \<Rightarrow> Inl (Integrity (Err ''AI document batch does not hold this document and locale''))
        | Some load \<Rightarrow> on_answer load (\<lambda>d. readDocument lower digest d r))"

end
