(* ===== verification/Read_Correct.thy ===== *)
theory Read_Correct
  imports Read_Service
begin

text \<open>
  What the reads of \<open>service.go\<close> and \<open>batch.go\<close> deliver. The locale \<open>node_projection\<close> is the contract
  of the three read modes: a projection of a block keeps its place in the tree and its validity, so a page
  of projected blocks is again a valid projection. The locale \<open>cursor_codec\<close> is the contract of the
  cursors: following the cursors of a read visits every selected block once.
\<close>

section \<open>Pages of valid blocks\<close>

definition page_ok :: "(string \<Rightarrow> bool) \<Rightarrow> bool \<Rightarrow> Node list \<Rightarrow> bool" where
  "page_ok K absent nodes \<longleftrightarrow> nodes_forest nodes \<and>
     (\<forall>n \<in> set nodes. validateStableID ''block ID'' (nodeID n) maxHandleLength = None \<and>
        validateProjectedNode K n = None) \<and>
     (absent \<longrightarrow> validateAbsentLocaleValues nodes = None)"

lemma forest_no_cycles:
  assumes "nodes_forest nodes" and n: "n \<in> set nodes"
  shows "\<not> cycle_walk (node_links nodes) {nodeID n} (nodeParent n)"
proof -
  let ?par = "node_parents nodes"
  note r = nodes_forest_rooted [OF assms(1)] and p = nodes_forest_parent [OF assms]
  have no: "\<not> ancestor ?par (nodeID n) (nodeID n)" by (rule ancestor_rooted_irrefl [OF r])
  then have "nodeParent n \<noteq> nodeID n" using p by (auto intro: ancestor.intros)
  moreover have "a \<noteq> nodeID n" if "ancestor ?par a (nodeParent n)" for a
    using that no p by (auto intro: ancestor.above)
  ultimately show ?thesis using r by (intro cycle_walk_complete) auto
qed

lemma page_ok_validates: "page_ok K absent nodes \<Longrightarrow> validateProjectedNodes K nodes = None"
  using forest_no_cycles by (auto simp: page_ok_def validateProjectedNodes_None nodes_forest_def)

lemma node_parents_subset:
  assumes "distinct (map nodeID ms)" "distinct (map nodeID ns)" "set ms \<subseteq> set ns"
  shows "node_parents ms = node_parents ns |` (nodeID ` set ms)"
proof
  fix b
  show "node_parents ms b = (node_parents ns |` (nodeID ` set ms)) b"
  proof (cases "b \<in> nodeID ` set ms")
    case True
    then obtain m where "m \<in> set ms" "b = nodeID m" by blast
    then show ?thesis using assms node_parents_Some by (metis imageI restrict_in subsetD)
  next
    case False
    then show ?thesis by (metis dom_node_parents domIff restrict_out)
  qed
qed

definition unlocalized :: "Node \<Rightarrow> bool" where
  "unlocalized n \<longleftrightarrow> nodeLocalized n = [] \<and> (\<forall>r \<in> set (nodeRelations n). \<forall>i \<in> set (relItems r). riLocalized i = [])"

lemma validateAbsent_None: "validateAbsentLocaleValues nodes = None \<longleftrightarrow> (\<forall>n \<in> set nodes. unlocalized n)"
  by (auto simp: validateAbsentLocaleValues_def check_all_None first_error_None unlocalized_def)

lemma page_ok_subset:
  assumes "page_ok K absent ns" and "distinct ms" and sub: "set ms \<subseteq> set ns"
  shows "page_ok K absent ms"
proof -
  have ns: "distinct (map nodeID ns)" using assms(1) by (simp add: page_ok_def nodes_forest_def)
  then have "inj_on nodeID (set ms)" using sub by (meson distinct_map inj_on_subset)
  then have d: "distinct (map nodeID ms)" using assms(2) by (simp add: distinct_map)
  have "nodes_forest ms"
    using assms(1) d sub forest_restrict
    by (auto simp: page_ok_def nodes_forest_def node_parents_subset [OF d ns sub])
  then show ?thesis
    using assms(1) sub unfolding page_ok_def validateAbsent_None by blast
qed

lemma Document_validate_page:
  assumes "Document_validate K d = None"
  shows "page_ok K (Role d = LocaleRoleNonSource \<and> \<not> docLocaleExists d) (docNodes d)"
  using assms by (auto simp: Document_validate_def first_error_None page_ok_def validateNodes_iff
      intro: nodes_ok_forest split: if_splits)

section \<open>Parts of a block\<close>

text \<open>
  A part keeps the identity and the place of a block and of its relation items, and keeps some of their
  values, unchanged and in any order.
\<close>

definition item_within :: "RelationItem \<Rightarrow> RelationItem \<Rightarrow> bool" where
  "item_within j i \<longleftrightarrow> riID j = riID i \<and> riKind j = riKind i \<and> riOrder j = riOrder i \<and>
     mset (riShared j) \<subseteq># mset (riShared i) \<and> mset (riLocalized j) \<subseteq># mset (riLocalized i) \<and>
     mset (riFiles j) \<subseteq># mset (riFiles i)"

definition relation_within :: "Relation \<Rightarrow> Relation \<Rightarrow> bool" where
  "relation_within s r \<longleftrightarrow> relID s = relID r \<and>
     (\<exists>g. (\<forall>i. item_within (g i) i) \<and> mset (relItems s) \<subseteq># mset (map g (relItems r)))"

definition node_within :: "Node \<Rightarrow> Node \<Rightarrow> bool" where
  "node_within m n \<longleftrightarrow> nodeID m = nodeID n \<and> nodeKind m = nodeKind n \<and> nodeParent m = nodeParent n \<and>
     nodeOrder m = nodeOrder n \<and> mset (nodeShared m) \<subseteq># mset (nodeShared n) \<and>
     mset (nodeLocalized m) \<subseteq># mset (nodeLocalized n) \<and> mset (nodeFiles m) \<subseteq># mset (nodeFiles n) \<and>
     (\<exists>h. (\<forall>r. relation_within (h r) r) \<and> mset (nodeRelations m) \<subseteq># mset (map h (nodeRelations n)))"

lemma subseteq_split:
  assumes "mset ys \<subseteq># mset xs"
  obtains zs where "mset xs = mset (ys @ zs)"
  using assms by (metis ex_mset mset_append mset_subset_eq_exists_conv)

lemma subseteq_distinct:
  assumes "mset ys \<subseteq># mset xs" and "distinct xs"
  shows "distinct ys"
proof -
  obtain zs where "mset xs = mset (ys @ zs)" using assms(1) by (rule subseteq_split)
  then show ?thesis using assms(2) mset_eq_imp_distinct_iff distinct_append by blast
qed

lemma subseteq_distinct_map:
  assumes "mset ys \<subseteq># mset xs" and "distinct (map k xs)"
  shows "distinct (map k ys)"
  using assms by (metis image_mset_subseteq_mono mset_map subseteq_distinct)

lemma subseteq_set: "mset ys \<subseteq># mset xs \<Longrightarrow> set ys \<subseteq> set xs"
  by (metis set_mset_mono set_mset_mset)

lemma subseteq_concat:
  assumes "mset ys \<subseteq># mset xs"
  shows "mset (concat (map f ys)) \<subseteq># mset (concat (map f xs))"
proof -
  have c: "mset (concat (map f us)) = sum_mset (image_mset (\<lambda>x. mset (f x)) (mset us))" for us
    by (induction us) auto
  obtain zs where "mset xs = mset (ys @ zs)" using assms by (rule subseteq_split)
  then show ?thesis unfolding c by simp
qed

lemma concat_pointwise:
  "(\<And>x. mset (f x) \<subseteq># mset (g x)) \<Longrightarrow> mset (concat (map f xs)) \<subseteq># mset (concat (map g xs))"
  by (induction xs) (auto intro: subset_mset.add_mono)

lemma validateFieldValues_None:
  "validateFieldValues K fs = None \<longleftrightarrow>
     (\<forall>f \<in> set fs. validateStableID ''field ID'' (fvID f) maxCatalogIDLength = None \<and> Value_validate K (fvValue f) = None) \<and>
     distinct (map fvID fs)"
proof -
  have "validateFieldValues K fs = None \<longleftrightarrow>
     (\<forall>f \<in> set fs. validateStableID ''field ID'' (fvID f) maxCatalogIDLength = None \<and> Value_validate K (fvValue f) = None) \<and>
     distinct (map fvID fs) \<and> fvID ` set fs \<inter> {} = {}"
    unfolding validateFieldValues_def by (rule loop_seen_distinct) (auto simp: first_error_None)
  then show ?thesis by simp
qed

lemma validateFileBindings_None:
  "validateFileBindings fs = None \<longleftrightarrow>
     (\<forall>b \<in> set fs. validateStableID ''file field ID'' (fbField b) maxCatalogIDLength = None \<and>
        check_all FieldPathSegment_validate (fbPath b) = None \<and> validateFileReference (fbFile b) = None) \<and>
     distinct (map (\<lambda>b. nestedFieldKey (fbField b) (fbPath b)) fs)"
proof -
  have "validateFileBindings fs = None \<longleftrightarrow>
     (\<forall>b \<in> set fs. validateStableID ''file field ID'' (fbField b) maxCatalogIDLength = None \<and>
        check_all FieldPathSegment_validate (fbPath b) = None \<and> validateFileReference (fbFile b) = None) \<and>
     distinct (map (\<lambda>b. nestedFieldKey (fbField b) (fbPath b)) fs) \<and>
     (\<lambda>b. nestedFieldKey (fbField b) (fbPath b)) ` set fs \<inter> {} = {}"
    unfolding validateFileBindings_def by (rule loop_seen_distinct) (auto simp: first_error_None)
  then show ?thesis by simp
qed

lemma validateProjectedFieldSet_within:
  assumes "validateProjectedFieldSet K sh lo fi = None"
    and "mset sh' \<subseteq># mset sh" "mset lo' \<subseteq># mset lo" "mset fi' \<subseteq># mset fi"
  shows "validateProjectedFieldSet K sh' lo' fi' = None"
proof -
  have "validateFieldValues K ys = None" if "mset ys \<subseteq># mset xs" "validateFieldValues K xs = None" for xs ys
    using that(2) subseteq_set [OF that(1)] subseteq_distinct_map [OF that(1), of fvID]
    by (auto simp: validateFieldValues_None)
  moreover have "validateFileBindings fi' = None" if "validateFileBindings fi = None"
    using that subseteq_set [OF assms(4)] subseteq_distinct_map [OF assms(4)] unfolding validateFileBindings_None by blast
  ultimately show ?thesis using assms by (auto simp: validateProjectedFieldSet_def first_error_None)
qed

lemma relationItemRound_within:
  "item_within j i \<Longrightarrow> relationItemRound K {} i = None \<Longrightarrow> relationItemRound K {} j = None"
  unfolding item_within_def relationItemRound_def by (auto simp: first_error_None intro: validateProjectedFieldSet_within)

lemma relation_within_items:
  assumes "relation_within s r" and "\<forall>i \<in> set (relItems r). Q i"
    and "\<And>i j. item_within j i \<Longrightarrow> Q i \<Longrightarrow> Q j"
  shows "\<forall>j \<in> set (relItems s). Q j"
proof -
  from assms(1) obtain g where g: "\<forall>i. item_within (g i) i" and m: "mset (relItems s) \<subseteq># mset (map g (relItems r))"
    by (auto simp: relation_within_def)
  then have "set (relItems s) \<subseteq> g ` set (relItems r)" using subseteq_set [OF m] by simp
  then show ?thesis using g assms(2,3) by blast
qed

lemma relation_within_ids:
  assumes "relation_within s r"
  shows "mset (map riID (relItems s)) \<subseteq># mset (map riID (relItems r))"
proof -
  from assms obtain g where g: "\<forall>i. item_within (g i) i" and m: "mset (relItems s) \<subseteq># mset (map g (relItems r))"
    by (auto simp: relation_within_def)
  have "map riID (map g (relItems r)) = map riID (relItems r)" using g by (simp add: item_within_def)
  then show ?thesis using image_mset_subseteq_mono [OF m, of riID] by (metis mset_map)
qed

lemma validateProjectedRelations_within:
  assumes "node_within m n" and v: "validateProjectedRelations K n = None"
  shows "validateProjectedRelations K m = None"
proof -
  from assms(1) obtain h where h: "\<And>r. relation_within (h r) r"
    and m: "mset (nodeRelations m) \<subseteq># mset (map h (nodeRelations n))"
    by (auto simp: node_within_def)
  have sub: "set (nodeRelations m) \<subseteq> h ` set (nodeRelations n)" using subseteq_set [OF m] by simp
  have hid: "relID (h r) = relID r" for r using h [of r] by (simp add: relation_within_def)
  have "distinct (map relID (map h (nodeRelations n)))"
    using v by (simp add: validateProjectedRelations_def relationRounds_None hid comp_def)
  then have d: "distinct (map relID (nodeRelations m))" by (rule subseteq_distinct_map [OF m])
  have "mset (concat (map (\<lambda>r. map riID (relItems r)) (nodeRelations m))) \<subseteq>#
      mset (concat (map (\<lambda>r. map riID (relItems r)) (map h (nodeRelations n))))"
    by (rule subseteq_concat [OF m])
  also have "\<dots> = mset (concat (map (\<lambda>r. map riID (relItems (h r))) (nodeRelations n)))" by (simp add: comp_def)
  also have "\<dots> \<subseteq># mset (concat (map (\<lambda>r. map riID (relItems r)) (nodeRelations n)))"
    by (rule concat_pointwise) (rule relation_within_ids [OF h])
  finally have ids: "mset (map riID (concat (map relItems (nodeRelations m)))) \<subseteq>#
      mset (map riID (concat (map relItems (nodeRelations n))))"
    by (simp add: map_concat comp_def)
  have items: "\<forall>j \<in> set (relItems s). relationItemRound K {} j = None" if s: "s \<in> set (nodeRelations m)" for s
  proof -
    obtain r where r: "r \<in> set (nodeRelations n)" "s = h r" using s sub by blast
    show ?thesis unfolding r(2)
      by (rule relation_within_items [OF h])
        (use v r(1) relationItemRound_within in \<open>auto simp: validateProjectedRelations_def relationRounds_None\<close>)
  qed
  have rid: "validateStableID ''relation ID'' (relID s) maxCatalogIDLength = None" if s: "s \<in> set (nodeRelations m)" for s
    using s sub v hid by (auto simp: validateProjectedRelations_def relationRounds_None)
  have "distinct (map riID (concat (map relItems (nodeRelations n))))"
    using v by (simp add: validateProjectedRelations_def relationRounds_None)
  then have "distinct (map riID (concat (map relItems (nodeRelations m))))" by (rule subseteq_distinct [OF ids])
  then show ?thesis
    using d items rid by (simp add: validateProjectedRelations_def relationRounds_None)
qed

lemma validateProjectedNode_within:
  assumes "node_within m n" and "validateProjectedNode K n = None"
  shows "validateProjectedNode K m = None"
  using assms validateProjectedRelations_within [OF assms(1)]
  unfolding validateProjectedNode_def node_within_def
  by (auto simp: first_error_None intro: validateProjectedFieldSet_within)

lemma unlocalized_within:
  assumes "node_within m n" and "unlocalized n"
  shows "unlocalized m"
proof -
  from assms(1) obtain h where h: "\<And>r. relation_within (h r) r"
    and m: "mset (nodeRelations m) \<subseteq># mset (map h (nodeRelations n))"
    by (auto simp: node_within_def)
  have "riLocalized j = []" if s: "s \<in> set (nodeRelations m)" and j: "j \<in> set (relItems s)" for s j
  proof -
    have "set (nodeRelations m) \<subseteq> h ` set (nodeRelations n)" using subseteq_set [OF m] by simp
    then obtain r where "r \<in> set (nodeRelations n)" "s = h r" using s by blast
    moreover have "\<forall>i \<in> set (relItems (h r)). riLocalized i = []"
      by (rule relation_within_items [OF h [of r]])
        (use assms(2) calculation in \<open>auto simp: unlocalized_def item_within_def\<close>)
    ultimately show ?thesis using j by simp
  qed
  moreover have "nodeLocalized m = []" using assms by (simp add: unlocalized_def node_within_def)
  ultimately show ?thesis by (simp add: unlocalized_def)
qed

section \<open>Projections\<close>

locale node_projection =
  fixes project :: "Node \<Rightarrow> Node"
  assumes within: "node_within (project n) n"
begin

lemma keeps_place: "nodeID (project n) = nodeID n" "nodeParent (project n) = nodeParent n"
  using within [of n] by (simp_all add: node_within_def)

lemma same_links: "node_links (map project nodes) = node_links nodes"
  by (simp add: node_links_def keeps_place)

lemma forest: "nodes_forest (map project nodes) = nodes_forest nodes"
  by (simp add: nodes_forest_def same_links image_image comp_def keeps_place)

lemma page: "page_ok K a nodes \<Longrightarrow> page_ok K a (map project nodes)"
  using within by (auto simp: page_ok_def forest validateAbsent_None keeps_place
      intro: validateProjectedNode_within unlocalized_within)

end


section \<open>The three read modes and the canonical form project\<close>

lemma sort_key_mset: "mset (sort_key k xs) \<subseteq># mset xs"
  by simp

interpretation whole: node_projection "\<lambda>n. n"
proof (unfold_locales, unfold node_within_def, intro conjI exI allI)
  fix r
  show "relation_within (id r) r"
    unfolding relation_within_def item_within_def by (intro conjI exI [of _ id]) simp_all
qed simp_all

interpretation outline: node_projection outlineNode
proof (unfold_locales, unfold node_within_def, intro conjI exI allI)
  fix n r
  let ?g = "\<lambda>i. \<lparr>riID = riID i, riKind = riKind i, riOrder = riOrder i, riShared = [], riLocalized = [], riFiles = []\<rparr>"
  let ?h = "\<lambda>r. \<lparr>relID = relID r, relItems = map ?g (relItems r)\<rparr>"
  show "relation_within (?h r) r"
    by (auto simp: relation_within_def item_within_def intro!: exI [of _ ?g])
  show "mset (nodeRelations (outlineNode n)) \<subseteq># mset (map ?h (nodeRelations n))"
    by (simp add: outlineNode_def)
qed (simp_all add: outlineNode_def)

interpretation canonical: node_projection canonicalNode
proof (unfold_locales, unfold node_within_def, intro conjI exI allI)
  fix n r
  show "relation_within (canonicalRelation r) r"
    by (auto simp: relation_within_def canonicalRelation_def item_within_def canonicalItem_def sortFields_eq
        intro!: exI [of _ canonicalItem])
  show "mset (nodeRelations (canonicalNode n)) \<subseteq># mset (map canonicalRelation (nodeRelations n))"
    by (simp add: canonicalNode_def)
qed (simp_all add: canonicalNode_def sortFields_eq)

definition keep_fields :: "(BlockID \<rightharpoonup> selectedFields) \<Rightarrow> Node \<Rightarrow> Node" where
  "keep_fields chosen n = (case chosen (nodeID n) of None \<Rightarrow> n | Some s \<Rightarrow> projectNodeFields n s)"

lemma projectNodeFields_within: "node_within (projectNodeFields n s) n"
  unfolding node_within_def
proof (intro conjI exI allI)
  fix r
  let ?g = "\<lambda>r i. projectRelationItem i (relationFields s (relID r) (riID i))"
  let ?h = "\<lambda>r. \<lparr>relID = relID r, relItems = map (?g r) (filter (\<lambda>i. relationFields s (relID r) (riID i) \<noteq> {}) (relItems r))\<rparr>"
  show "relation_within (?h r) r"
    by (auto simp: relation_within_def item_within_def projectRelationItem_def filterValues_def filterFiles_def
        multiset_filter_subset intro!: exI [of _ "?g r"] image_mset_subseteq_mono)
  show "mset (nodeRelations (projectNodeFields n s)) \<subseteq># mset (map ?h (nodeRelations n))"
    by (simp add: projectNodeFields_def multiset_filter_subset image_mset_subseteq_mono)
qed (simp_all add: projectNodeFields_def filterValues_def filterFiles_def multiset_filter_subset)

interpretation fields: node_projection "keep_fields chosen" for chosen
  by unfold_locales (auto simp: keep_fields_def projectNodeFields_within whole.within split: option.splits)


section \<open>Selections\<close>

lemma takeSelected_filter:
  "distinct (map nodeID nodes) \<Longrightarrow>
   takeSelected wanted nodes = (filter (\<lambda>n. nodeID n \<in> wanted) nodes, wanted - nodeID ` set nodes)"
proof (induction nodes arbitrary: wanted)
  case (Cons n nodes)
  have "filter (\<lambda>m. nodeID m \<in> wanted - {nodeID n}) nodes = filter (\<lambda>m. nodeID m \<in> wanted) nodes"
    using Cons.prems by (intro filter_cong) (auto simp: image_iff)
  then show ?case using Cons by (auto simp: insert_Diff_if)
qed simp

lemma selectBlocks_result:
  assumes "distinct (map nodeID nodes)"
  shows "selectBlocks nodes blocks = guard_error (check_all (\<lambda>b. validateStableID ''block ID'' b maxHandleLength) blocks)
    (if set blocks \<subseteq> nodeID ` set nodes then Inr (filter (\<lambda>n. nodeID n \<in> set blocks) nodes)
     else Inl (Err ''one or more selected blocks do not exist; reread the outline for current block handles''))"
  unfolding selectBlocks_def takeSelected_filter [OF assms] by auto

lemma selectNodes_projects:
  assumes "distinct (map nodeID (docNodes d))" and "selectNodes d r = Inr nodes"
  shows "\<exists>f P. node_projection f \<and> nodes = map f (filter P (docNodes d))"
proof (cases "rqMode r")
  case ReadOutline
  then show ?thesis using assms(2) outline.node_projection_axioms
    by (intro exI [of _ outlineNode] exI [of _ "\<lambda>_. True"]) (simp add: selectNodes_def projectOutline_def)
next
  case ReadBlocks
  then have "nodes = filter (\<lambda>n. nodeID n \<in> set (rqBlocks r)) (docNodes d)"
    using assms(2) by (auto simp: selectNodes_def selectBlocks_result [OF assms(1)] guard_error_Inr split: if_splits)
  then show ?thesis using whole.node_projection_axioms by (intro exI conjI) (assumption, simp)
next
  case ReadFields
  then obtain chosen where c: "nodes = List.map_filter (\<lambda>n. map_option (projectNodeFields n) (chosen (nodeID n))) (docNodes d)"
    using assms(2) by (auto simp: selectNodes_def and_then_Inr)
  have "nodes = map (keep_fields chosen) (filter (\<lambda>n. chosen (nodeID n) \<noteq> None) (docNodes d))"
    unfolding c by (induction "docNodes d") (auto simp: List.map_filter_def keep_fields_def split: option.splits)
  then show ?thesis using fields.node_projection_axioms by blast
next
  case (ReadOther s)
  then show ?thesis using assms(2) by (simp add: selectNodes_def)
qed

section \<open>The blocks a read pages through\<close>

definition read_list :: "(nat \<Rightarrow> nat) \<Rightarrow> Document \<Rightarrow> ReadRequest \<Rightarrow> Node list result" where
  "read_list lower d r = and_then (selectNodes d r) (\<lambda>nodes. canonicalNodes (selected_page lower d r nodes))"

definition absent_locale :: "Document \<Rightarrow> bool" where
  "absent_locale d \<longleftrightarrow> Role d = LocaleRoleNonSource \<and> \<not> docLocaleExists d"

lemma canonical_page:
  assumes "page_ok K a nodes"
  shows "\<exists>ns. canonicalNodes nodes = Inr ns \<and> page_ok K a ns \<and> mset ns = mset (map canonicalNode nodes)"
proof -
  obtain ns where ns: "canonicalNodes nodes = Inr ns" and m: "mset ns = mset (map canonicalNode nodes)"
    using canonicalNodes_forest assms by (auto simp: page_ok_def)
  have p: "page_ok K a (map canonicalNode nodes)" by (rule canonical.page [OF assms])
  then have "distinct (map canonicalNode nodes)" by (auto simp: page_ok_def nodes_forest_distinct)
  then have "distinct ns" using m mset_eq_imp_distinct_iff by blast
  moreover have "set ns \<subseteq> set (map canonicalNode nodes)" using mset_eq_setD [OF m] by simp
  ultimately show ?thesis using page_ok_subset [OF p] ns m by blast
qed

lemma selected_nodes_page:
  assumes v: "Document_validate K d = None" and s: "selectNodes d r = Inr nodes"
  shows "page_ok K (absent_locale d) (selected_page lower d r nodes)"
proof -
  have doc: "page_ok K (absent_locale d) (docNodes d)"
    unfolding absent_locale_def by (rule Document_validate_page [OF v])
  then have di: "distinct (map nodeID (docNodes d))" by (simp add: page_ok_def nodes_forest_def)
  obtain f P where f: "node_projection f" and n: "nodes = map f (filter P (docNodes d))"
    using selectNodes_projects [OF di s] by blast
  have dd: "distinct (docNodes d)" using di by (simp add: distinct_map)
  have "page_ok K (absent_locale d) (filter P (docNodes d))"
    by (rule page_ok_subset [OF doc]) (use dd in auto)
  then have p: "page_ok K (absent_locale d) nodes" unfolding n by (rule node_projection.page [OF f])
  then have "distinct nodes" by (auto simp: page_ok_def nodes_forest_distinct)
  then show ?thesis
    by (intro page_ok_subset [OF p]) (auto simp: selected_page_def)
qed

lemma read_list_page:
  assumes "Document_validate K d = None" and "selectNodes d r = Inr nodes"
  shows "\<exists>ns. read_list lower d r = Inr ns \<and> page_ok K (absent_locale d) ns \<and>
    mset ns = mset (map canonicalNode (selected_page lower d r nodes))"
  using canonical_page [OF selected_nodes_page [OF assms]] assms(2) by (simp add: read_list_def)


section \<open>One page\<close>

definition page_limit :: "ReadRequest \<Rightarrow> nat" where
  "page_limit r = (if rqLimit r = 0 then 64 else nat (rqLimit r))"

definition page_at :: "nat \<Rightarrow> (int \<Rightarrow> string \<Rightarrow> Cursor) \<Rightarrow> string \<Rightarrow> 'a list \<Rightarrow> nat \<Rightarrow> 'a list \<times> Cursor option" where
  "page_at lim encode fp xs k =
     (take lim (drop k xs), if k + lim < length xs then Some (encode (int (k + lim)) fp) else None)"

lemma cursorOffset_le: "cursorOffset digest d r len = Some k \<Longrightarrow> k \<le> len"
  by (auto simp: cursorOffset_def split: if_splits sum.splits)

lemma readDocument_page:
  assumes l: "read_list lower d r = Inr ns" and "0 \<le> rqLimit r"
  shows "readDocument lower digest d r =
    (case cursorOffset digest d r (length ns) of
       None \<Rightarrow> Inl (CursorError (docRevision d) (docTargetRevision d))
     | Some k \<Rightarrow>
         (let (page, next) = page_at (page_limit r) encodeCursor (readCursorFingerprint digest d r) ns k
          in Inr (newProjection d r page (readPreviews lower d r page) next)))"
proof -
  obtain nodes where s: "selectNodes d r = Inr nodes" and c: "canonicalNodes (selected_page lower d r nodes) = Inr ns"
    using l by (auto simp: read_list_def and_then_Inr)
  show ?thesis
  proof (cases "cursorOffset digest d r (length ns)")
    case None
    then show ?thesis using s c by (simp add: readDocument_def on_answer_def from_result_def)
  next
    case (Some k)
    have k: "k \<le> length ns" by (rule cursorOffset_le [OF Some])
    define lim where "lim = (if rqLimit r = 0 then 64 else rqLimit r)"
    have lim: "lim = int (page_limit r)" using assms(2) by (simp add: lim_def page_limit_def)
    have fin: "nat (min (int k + lim) (int (length ns))) - k = min (page_limit r) (length ns - k)"
      using k by (simp add: lim)
    have pg: "take (min (page_limit r) (length ns - k)) (drop k ns) = take (page_limit r) (drop k ns)"
      by (simp add: min_def)
    have nx: "(if min (int k + lim) (int (length ns)) < int (length ns)
        then Some (encodeCursor (min (int k + lim) (int (length ns))) fp) else None) =
       (if k + page_limit r < length ns then Some (encodeCursor (int (k + page_limit r)) fp) else None)" for fp
      using k by (auto simp: lim)
    show ?thesis
      using Some s c k
      by (simp add: readDocument_def on_answer_def from_result_def Let_def page_at_def lim_def [symmetric] fin pg nx)
        (simp add: lim)
  qed
qed

lemma readDocument_rejects:
  assumes "selectNodes d r = Inl e"
  shows "readDocument lower digest d r = Inl (case e of Err m \<Rightarrow> InputError m | p \<Rightarrow> Integrity p)"
  using assms by (simp add: readDocument_def split: error.splits)

lemma identity_eta [simp]: "\<lparr>idDomain = idDomain x, idReference = idReference x\<rparr> = (x :: DocumentIdentity)"
  by (cases x) simp

lemma newProjection_validate:
  assumes v: "Document_validate K d = None" and m: "ReadMode_valid (rqMode r)"
    and p: "page_ok K (absent_locale d) page"
  shows "Projection_validate K (newProjection d r page previews next) = None"
  using assms page_ok_validates [OF p]
  by (auto simp: Projection_validate_def newProjection_def Projection_Identity_def Document_validate_def first_error_None
      Role_def page_ok_def absent_locale_def Catalog_validate_def)

lemma page_at_subset: "page_at lim e fp xs k = (page, next) \<Longrightarrow> set page \<subseteq> set xs \<and> (distinct xs \<longrightarrow> distinct page)"
  by (auto simp: page_at_def dest: in_set_takeD in_set_dropD)


lemma documentOpenMetadata_validate:
  "Document_validate K d = None \<Longrightarrow> OpenMetadata_validate (documentOpenMetadata d) = None"
  by (auto simp: OpenMetadata_validate_def documentOpenMetadata_def OpenMetadata_Identity_def Document_validate_def
      first_error_None Role_def Catalog_validate_def)

section \<open>What the service answers\<close>

lemma on_answer_Inr: "on_answer a k = Inr y \<longleftrightarrow> (\<exists>x. a = Inr x \<and> k x = Inr y)"
  by (cases a) (auto simp: on_answer_def)

lemma input_check_Inr: "input_check c k = Inr y \<longleftrightarrow> c = None \<and> k = Inr y"
  by (auto simp: input_check_def split: option.splits error.splits)

lemma integrity_check_Inr: "integrity_check c k = Inr y \<longleftrightarrow> c = None \<and> k = Inr y"
  by (auto simp: integrity_check_def split: option.splits)

lemma from_port_Inr: "from_port a k = Inr y \<longleftrightarrow> (\<exists>x. a = Inr x \<and> k x = Inr y)"
  by (cases a) (auto simp: from_port_def)

lemma from_result_Inr: "from_result a = Inr y \<longleftrightarrow> a = Inr y"
  by (cases a) (auto simp: from_result_def)

lemmas answer_Inr = on_answer_Inr input_check_Inr integrity_check_Inr from_port_Inr from_result_Inr

lemma loadDocument_Inr:
  "loadDocument K load r = Inr d \<longleftrightarrow>
     DocumentIdentity_validate (opnDocument r) = None \<and> validateLocale (opnLocale r) = None \<and>
     load (opnDocument r) (opnLocale r) = Inr d \<and> Document_validate K d = None \<and>
     docIdentity d = opnDocument r \<and> docLocale d = opnLocale r"
  by (auto simp: loadDocument_def answer_Inr validateLoadedDocument_def first_error_None)

lemma validateReadRequest_mode: "validateReadRequest r = None \<Longrightarrow> ReadMode_valid (rqMode r) \<and> 0 \<le> rqLimit r"
  by (auto simp: validateReadRequest_def first_error_None)

lemma readDocument_header:
  assumes "readDocument lower digest d r = Inr p"
  shows "Projection_Identity p = docIdentity d \<and> prLocale p = docLocale d \<and> prMode p = rqMode r"
  using assms by (auto simp: readDocument_def on_answer_Inr newProjection_def Projection_Identity_def Let_def
      split: sum.splits error.splits option.splits if_splits)

lemma readDocument_valid:
  assumes v: "Document_validate K d = None" and r: "validateReadRequest r = None"
    and p: "readDocument lower digest d r = Inr p"
  shows "Projection_validate K p = None"
proof -
  have m: "ReadMode_valid (rqMode r)" "0 \<le> rqLimit r" using validateReadRequest_mode [OF r] by auto
  obtain nodes where s: "selectNodes d r = Inr nodes"
    using p by (cases "selectNodes d r") (auto simp: readDocument_rejects)
  obtain ns where l: "read_list lower d r = Inr ns" and ok: "page_ok K (absent_locale d) ns"
    using read_list_page [OF v s] by blast
  obtain k page previews nx where pg: "page_at (page_limit r) encodeCursor (readCursorFingerprint digest d r) ns k = (page, nx)"
    and p': "p = newProjection d r page previews nx"
    using p unfolding readDocument_page [OF l m(2)] by (auto simp: Let_def split: option.splits prod.splits)
  have "distinct ns" using ok by (auto simp: page_ok_def nodes_forest_distinct)
  then have "page_ok K (absent_locale d) page" using page_at_subset [OF pg] page_ok_subset [OF ok] by blast
  then show ?thesis unfolding p' by (rule newProjection_validate [OF v m(1)])
qed

lemma ordinary_and_then:
  "(\<And>e. r = Inl e \<Longrightarrow> \<exists>m. e = Err m) \<Longrightarrow> (\<And>x e. r = Inr x \<Longrightarrow> f x = Inl e \<Longrightarrow> \<exists>m. e = Err m) \<Longrightarrow>
   and_then r f = Inl e \<Longrightarrow> \<exists>m. e = Err m"
  by (cases r) auto

lemma ordinary_fold_result:
  "(\<And>s x e. f s x = Inl e \<Longrightarrow> \<exists>m. e = Err m) \<Longrightarrow> fold_result f s xs = Inl e \<Longrightarrow> \<exists>m. e = Err m"
proof (induction xs arbitrary: s)
  case (Cons x xs)
  show ?case
    by (rule ordinary_and_then [where r = "f s x" and f = "\<lambda>s'. fold_result f s' xs"])
      (use Cons in auto)
qed simp

lemma ordinary_guard_error:
  "returned c \<Longrightarrow> (\<And>e. r = Inl e \<Longrightarrow> \<exists>m. e = Err m) \<Longrightarrow> guard_error c r = Inl e \<Longrightarrow> \<exists>m. e = Err m"
  by (cases c) (auto simp: returned_def)

lemma selectedFields_add_ordinary: "selectedFields_add ix n f s = Inl e \<Longrightarrow> \<exists>m. e = Err m"
  by (auto simp: selectedFields_add_def split: if_splits option.splits)

lemma returned_field_target: "returned (validateCanonicalFieldTarget t)"
  unfolding validateCanonicalFieldTarget_def by (intro returned_intros)

lemma selectionRound_ordinary:
  assumes "selectionRound ix nodes chosen f = Inl e"
  shows "\<exists>m. e = Err m"
  using assms unfolding selectionRound_def
  by (rule ordinary_guard_error [rotated 2])
    (auto simp: and_then_def returned_field_target dest: selectedFields_add_ordinary split: option.splits sum.splits)

lemma selectNodes_ordinary:
  assumes "distinct (map nodeID (docNodes d))" and e: "selectNodes d r = Inl e"
  shows "\<exists>m. e = Err m"
proof (cases "rqMode r")
  case ReadBlocks
  then have s: "selectBlocks (docNodes d) (rqBlocks r) = Inl e" using e by (simp add: selectNodes_def)
  show ?thesis
    by (rule ordinary_guard_error [OF _ _ s [unfolded selectBlocks_result [OF assms(1)]]])
      (auto intro: returned_check_all split: if_splits)
next
  case ReadFields
  then have "buildFieldSelection d (rqFields r) = Inl e" using e by (auto simp: selectNodes_def and_then_def split: sum.splits)
  then show ?thesis unfolding buildFieldSelection_def by (rule ordinary_fold_result [rotated]) (rule selectionRound_ordinary)
qed (use e in \<open>auto simp: selectNodes_def\<close>)

text \<open>A read of a valid document ends: with a page, the caller's own mistake, or a stale cursor.\<close>

lemma readDocument_ends:
  assumes v: "Document_validate K d = None" and "0 \<le> rqLimit r"
  shows "case readDocument lower digest d r of
      Inr p \<Rightarrow> True
    | Inl (InputError m) \<Rightarrow> True
    | Inl (CursorError current target) \<Rightarrow> current = docRevision d \<and> target = docTargetRevision d
    | Inl _ \<Rightarrow> False"
proof (cases "selectNodes d r")
  case (Inl e)
  have "distinct (map nodeID (docNodes d))"
    using Document_validate_page [OF v] by (simp add: page_ok_def nodes_forest_def)
  then obtain m where "e = Err m" using selectNodes_ordinary Inl by blast
  then show ?thesis by (simp add: readDocument_rejects [OF Inl])
next
  case (Inr nodes)
  obtain ns where l: "read_list lower d r = Inr ns" using read_list_page [OF v Inr] by blast
  show ?thesis unfolding readDocument_page [OF l assms(2)] by (auto simp: Let_def split: option.splits prod.splits)
qed


section \<open>Cursors\<close>

lemma split_on_free: "sep \<notin> set w \<Longrightarrow> split_on sep w = [w]"
  by (induction w) auto

lemma split_on_append: "sep \<notin> set w \<Longrightarrow> split_on sep (w @ sep # s) = w # split_on sep s"
  by (induction w) auto

lemma digit_char_props:
  assumes "d < 10"
  shows "is_digit (digit_char d)" "digit_value (digit_char d) = d" "digit_char d \<noteq> CHR ''.''"
    "digit_char d \<noteq> CHR ''-''" "digit_char d \<noteq> CHR ''+''"
proof -
  have o: "of_char (digit_char d) = 48 + d" using assms by (simp add: digit_char_def)
  then show "is_digit (digit_char d)" using assms by (simp add: is_digit_def less_eq_char_def)
  show "digit_value (digit_char d) = d" using o by (simp add: digit_value_def)
  show "digit_char d \<noteq> CHR ''.''" "digit_char d \<noteq> CHR ''-''" "digit_char d \<noteq> CHR ''+''" using o by auto
qed

lemma decimal_props:
  "list_all is_digit (decimal n) \<and> decimal n \<noteq> [] \<and> decimal_value (decimal n) = n \<and>
   CHR ''.'' \<notin> set (decimal n) \<and> hd (decimal n) \<noteq> CHR ''-'' \<and> hd (decimal n) \<noteq> CHR ''+''"
proof (induction n rule: decimal.induct)
  case (1 n)
  then show ?case
    by (cases "n < 10")
      (auto simp: decimal.simps [of n] digit_char_props digit_char_props(3) [symmetric] decimal_value_def)
qed

lemma atoi_itoa: "0 \<le> n \<Longrightarrow> n < 2 ^ 63 \<Longrightarrow> atoi (itoa n) = Some n"
  using decimal_props [of "nat n"]
  by (cases "decimal (nat n)") (auto simp: itoa_def atoi_def Let_def has_prefix_def)

text \<open>A client that follows the cursors of a source of pages, with fuel for the number of fetches.\<close>

fun follow :: "nat \<Rightarrow> (Cursor \<Rightarrow> ('a list \<times> Cursor option) option) \<Rightarrow> Cursor \<Rightarrow> 'a list option" where
  "follow 0 fetch c = None"
| "follow (Suc fuel) fetch c =
     (case fetch c of
        None \<Rightarrow> None
      | Some (page, None) \<Rightarrow> Some page
      | Some (page, Some c') \<Rightarrow> map_option (append page) (follow fuel fetch c'))"

definition offset_of :: "(Cursor \<Rightarrow> string \<Rightarrow> int result) \<Rightarrow> string \<Rightarrow> nat \<Rightarrow> Cursor \<Rightarrow> nat option" where
  "offset_of decode fp len c =
     (if c = '''' then Some 0
      else case decode c fp of Inl _ \<Rightarrow> None | Inr k \<Rightarrow> if k > int len then None else Some (nat k))"

lemma offset_of_le: "offset_of decode fp len c = Some k \<Longrightarrow> k \<le> len"
  by (auto simp: offset_of_def split: if_splits sum.splits)

locale cursor_codec =
  fixes encode :: "int \<Rightarrow> string \<Rightarrow> Cursor" and decode :: "Cursor \<Rightarrow> string \<Rightarrow> int result"
  assumes decode_encode: "0 \<le> n \<Longrightarrow> n < 2 ^ 63 \<Longrightarrow> CHR ''.'' \<notin> set fp \<Longrightarrow> decode (encode n fp) fp = Inr n"
    and decode_bound: "0 \<le> n \<Longrightarrow> CHR ''.'' \<notin> set fp \<Longrightarrow> decode (encode n fp) fp' = Inr m \<Longrightarrow> fp' = fp"
    and encode_nonempty: "encode n fp \<noteq> ''''"
begin

lemma offset_encode:
  "CHR ''.'' \<notin> set fp \<Longrightarrow> int len < 2 ^ 63 \<Longrightarrow> k \<le> len \<Longrightarrow> offset_of decode fp len (encode (int k) fp) = Some k"
  by (simp add: offset_of_def encode_nonempty decode_encode)

lemma offset_stale: "0 \<le> n \<Longrightarrow> CHR ''.'' \<notin> set fp \<Longrightarrow> fp \<noteq> fp' \<Longrightarrow> offset_of decode fp' len (encode n fp) = None"
  using decode_bound by (auto simp: offset_of_def encode_nonempty split: sum.splits)

lemma follow_from:
  assumes lim: "0 < lim" and fp: "CHR ''.'' \<notin> set fp" and len: "int (length xs) < 2 ^ 63"
    and fetch: "\<And>c k. offset_of decode fp (length xs) c = Some k \<Longrightarrow> fetch c = Some (page_at lim encode fp xs k)"
  shows "offset_of decode fp (length xs) c = Some k \<Longrightarrow> length xs < fuel + k \<Longrightarrow> follow fuel fetch c = Some (drop k xs)"
proof (induction fuel arbitrary: c k)
  case 0
  then show ?case using offset_of_le [OF "0.prems"(1)] by simp
next
  case (Suc fuel)
  show ?case
  proof (cases "k + lim < length xs")
    case True
    have "offset_of decode fp (length xs) (encode (int (k + lim)) fp) = Some (k + lim)"
      by (rule offset_encode [OF fp len]) (use True in simp)
    from Suc.IH [OF this] have "follow fuel fetch (encode (int (k + lim)) fp) = Some (drop (k + lim) xs)"
      using Suc.prems(2) lim by simp
    moreover have "take lim (drop k xs) @ drop (k + lim) xs = drop k xs"
      by (metis add.commute append_take_drop_id drop_drop)
    ultimately show ?thesis using fetch [OF Suc.prems(1)] True by (simp add: page_at_def)
  next
    case False
    then show ?thesis using fetch [OF Suc.prems(1)] by (simp add: page_at_def)
  qed
qed

lemma follow_all:
  assumes "0 < lim" "CHR ''.'' \<notin> set fp" "int (length xs) < 2 ^ 63"
    and "\<And>c k. offset_of decode fp (length xs) c = Some k \<Longrightarrow> fetch c = Some (page_at lim encode fp xs k)"
    and "length xs < fuel"
  shows "follow fuel fetch '''' = Some xs"
  using follow_from [OF assms(1-4), where c = "''''" and k = 0 and fuel = fuel] assms(5) by (simp add: offset_of_def)

end

interpretation cursors: cursor_codec encodeCursor decodeCursor
proof
  have s: "split_on CHR ''.'' (encodeCursor n fp) = [''c1'', itoa n, fp]" if "0 \<le> n" "CHR ''.'' \<notin> set fp" for n fp
    using that decimal_props [of "nat n"] split_on_append [of "CHR ''.''" "''c1''" "itoa n @ ''.'' @ fp"]
    by (simp add: encodeCursor_def itoa_def split_on_append split_on_free)
  show "decodeCursor (encodeCursor n fp) fp = Inr n" if "0 \<le> n" "n < 2 ^ 63" "CHR ''.'' \<notin> set fp" for n fp
    using s [OF that(1,3)] atoi_itoa [OF that(1,2)] that(1) by (simp add: decodeCursor_def)
  show "fp' = fp" if "0 \<le> n" "CHR ''.'' \<notin> set fp" "decodeCursor (encodeCursor n fp) fp' = Inr m" for n fp fp' m
    using s [OF that(1,2)] that(3) by (simp add: decodeCursor_def split: if_splits)
  show "encodeCursor n fp \<noteq> ''''" for n fp by (simp add: encodeCursor_def)
qed

lemma cursorOffset_of: "cursorOffset digest d r len = offset_of decodeCursor (readCursorFingerprint digest d r) len (rqCursor r)"
  by (simp add: cursorOffset_def offset_of_def)

definition fetch_page ::
    "(nat \<Rightarrow> nat) \<Rightarrow> (cursorParts \<Rightarrow> string) \<Rightarrow> Document \<Rightarrow> ReadRequest \<Rightarrow> Cursor \<Rightarrow> (Node list \<times> Cursor option) option" where
  "fetch_page lower digest d r c =
     (case readDocument lower digest d (r\<lparr>rqCursor := c\<rparr>) :: (unit, Projection) answer of
        Inl _ \<Rightarrow> None
      | Inr p \<Rightarrow> Some (prNodes p, prNext p))"

lemma selectNodes_cursor: "selectNodes d (r\<lparr>rqCursor := c\<rparr>) = selectNodes d r"
  by (cases "rqMode r") (simp_all add: selectNodes_def)

lemma selected_page_cursor: "selected_page lower d (r\<lparr>rqCursor := c\<rparr>) nodes = selected_page lower d r nodes"
  by (cases "rqQuery r = ''''") (simp_all add: selected_page_def)

lemma cursor_irrelevant:
  "read_list lower d (r\<lparr>rqCursor := c\<rparr>) = read_list lower d r"
  "readCursorFingerprint digest d (r\<lparr>rqCursor := c\<rparr>) = readCursorFingerprint digest d r"
  "page_limit (r\<lparr>rqCursor := c\<rparr>) = page_limit r"
  by (simp_all add: read_list_def selectNodes_cursor selected_page_cursor readCursorFingerprint_def page_limit_def)

lemma follow_reads_all:
  assumes l: "read_list lower d r = Inr ns" and "0 \<le> rqLimit r"
    and "CHR ''.'' \<notin> set (readCursorFingerprint digest d r)" and "int (length ns) < 2 ^ 63"
    and "length ns < fuel"
  shows "follow fuel (fetch_page lower digest d r) '''' = Some ns"
proof (rule cursors.follow_all [OF _ assms(3,4) _ assms(5)])
  show "0 < page_limit r" using assms(2) by (simp add: page_limit_def)
  fix c k
  assume "offset_of decodeCursor (readCursorFingerprint digest d r) (length ns) c = Some k"
  then have "cursorOffset digest d (r\<lparr>rqCursor := c\<rparr>) (length ns) = Some k"
    by (simp add: cursorOffset_of cursor_irrelevant)
  then show "fetch_page lower digest d r c = Some (page_at (page_limit r) encodeCursor (readCursorFingerprint digest d r) ns k)"
    using l assms(2) unfolding fetch_page_def
    by (subst readDocument_page [where ns = ns])
      (simp_all add: cursor_irrelevant Let_def newProjection_def split: prod.splits)
qed

lemma stale_cursor_refused:
  assumes "read_list lower d r = Inr ns" and "0 \<le> rqLimit r"
    and "rqCursor r = encodeCursor n fp" "0 \<le> n" "CHR ''.'' \<notin> set fp" "fp \<noteq> readCursorFingerprint digest d r"
  shows "readDocument lower digest d r = Inl (CursorError (docRevision d) (docTargetRevision d))"
  using cursors.offset_stale [OF assms(4,5,6)] assms(3)
  by (simp add: readDocument_page [OF assms(1,2)] cursorOffset_of)

lemma sort_key_inj:
  fixes k :: "'a \<Rightarrow> 'b :: linorder"
  assumes "inj k" and "mset xs = mset ys"
  shows "sort_key k xs = sort_key k ys"
proof -
  have "map k (sort_key k zs) = sort (map k zs)" for zs by (rule properties_for_sort [symmetric]) simp_all
  moreover have "sort (map k xs) = sort (map k ys)"
    by (rule properties_for_sort) (use assms(2) in simp_all)
  ultimately show ?thesis using assms(1) by (metis inj_map_eq_map)
qed

lemma fingerprint_selector_order:
  assumes "mset (rqBlocks r) = mset (rqBlocks r')" "mset (rqFields r) = mset (rqFields r')"
    "rqMode r = rqMode r'" "rqQuery r = rqQuery r'"
  shows "readCursorFingerprint digest d r = readCursorFingerprint digest d r'"
proof -
  have "inj selection_key" by (auto simp: inj_def selection_key_def)
  then have "sort_key selection_key (rqFields r) = sort_key selection_key (rqFields r')" using assms(2) by (rule sort_key_inj)
  moreover have "sort (rqBlocks r) = sort (rqBlocks r')" by (rule sort_key_inj) (use assms(1) in simp_all)
  ultimately show ?thesis using assms(3,4) by (simp add: readCursorFingerprint_def)
qed

section \<open>Field selections\<close>

definition selection_of :: "FieldSelection list \<Rightarrow> BlockID \<rightharpoonup> selectedFields" where
  "selection_of fs b =
     (if \<exists>f \<in> set fs. fsBlock f = b then
        Some \<lparr>blockFields = fsField ` {f \<in> set fs. fsBlock f = b \<and> fsRelation f = ''''},
              relationFields = (\<lambda>relation item. fsField `
                {f \<in> set fs. fsBlock f = b \<and> fsRelation f \<noteq> '''' \<and> fsRelation f = relation \<and> fsItem f = item})\<rparr>
      else None)"

lemma selectionRound_step:
  assumes "selectionRound ix nodes (selection_of fs) f = Inr c"
  shows "c = selection_of (fs @ [f])"
proof
  fix b
  obtain n s where s: "selectedFields_add ix n f (case selection_of fs (fsBlock f) of None \<Rightarrow> noFields | Some s \<Rightarrow> s) = Inr s"
    and c: "c = (selection_of fs)(fsBlock f \<mapsto> s)"
    using assms by (auto simp: selectionRound_def guard_error_Inr and_then_Inr split: option.splits)
  show "c b = selection_of (fs @ [f]) b"
  proof (cases "b = fsBlock f")
    case False
    then have "{g \<in> set (fs @ [f]). fsBlock g = b \<and> P g} = {g \<in> set fs. fsBlock g = b \<and> P g}" for P by auto
    moreover have "(\<exists>g \<in> set (fs @ [f]). fsBlock g = b) \<longleftrightarrow> (\<exists>g \<in> set fs. fsBlock g = b)" using False by auto
    ultimately show ?thesis using False unfolding c selection_of_def by simp
  next
    case True
    define old where "old = (case selection_of fs b of None \<Rightarrow> noFields | Some s \<Rightarrow> s)"
    have old: "old = \<lparr>blockFields = fsField ` {g \<in> set fs. fsBlock g = b \<and> fsRelation g = ''''},
        relationFields = (\<lambda>relation item. fsField `
          {g \<in> set fs. fsBlock g = b \<and> fsRelation g \<noteq> '''' \<and> fsRelation g = relation \<and> fsItem g = item})\<rparr>"
      by (auto simp: old_def selection_of_def noFields_def)
    have new: "selection_of (fs @ [f]) b = Some \<lparr>blockFields = fsField ` {g \<in> insert f (set fs). fsBlock g = b \<and> fsRelation g = ''''},
        relationFields = (\<lambda>relation item. fsField `
          {g \<in> insert f (set fs). fsBlock g = b \<and> fsRelation g \<noteq> '''' \<and> fsRelation g = relation \<and> fsItem g = item})\<rparr>"
      using True by (simp add: selection_of_def)
    have add: "selectedFields_add ix n f old = Inr s" using s True by (simp add: old_def)
    have ins: "fsField ` {g \<in> insert f (set fs). Q g} =
        (if Q f then insert (fsField f) (fsField ` {g \<in> set fs. Q g}) else fsField ` {g \<in> set fs. Q g})" for Q
      by auto
    show ?thesis
    proof (cases "fsRelation f = ''''")
      case rel: True
      then show ?thesis using add True unfolding c new ins
        by (auto simp: selectedFields_add_def old split: option.splits)
    next
      case rel: False
      then have "s = old\<lparr>relationFields := (relationFields old)(fsRelation f :=
                  (relationFields old (fsRelation f))(fsItem f :=
                    insert (fsField f) (relationFields old (fsRelation f) (fsItem f))))\<rparr>"
        using add by (auto simp: selectedFields_add_def split: option.splits)
      then show ?thesis using rel True unfolding c new ins by (auto simp: old fun_eq_iff)
    qed
  qed
qed

lemma buildFieldSelection_selects:
  assumes "buildFieldSelection d fs = Inr chosen"
  shows "chosen = selection_of fs"
proof -
  let ?R = "selectionRound (newCatalogIndex (docCatalog d)) (docNodes d)"
  have "fold_result ?R (selection_of seen) gs = Inr chosen \<Longrightarrow> chosen = selection_of (seen @ gs)" for seen gs
  proof (induction gs arbitrary: seen)
    case (Cons g gs)
    then obtain c where "?R (selection_of seen) g = Inr c" "fold_result ?R c gs = Inr chosen" by (auto simp: and_then_Inr)
    then show ?case using Cons.IH [of "seen @ [g]"] selectionRound_step by fastforce
  qed simp
  from this [of "[]" fs] show ?thesis using assms by (simp add: buildFieldSelection_def selection_of_def [abs_def])
qed

lemma selection_of_some: "selection_of fs b \<noteq> None \<longleftrightarrow> b \<in> fsBlock ` set fs"
  by (auto simp: selection_of_def)

lemma field_read_ids:
  "map nodeID (List.map_filter (\<lambda>n. map_option (projectNodeFields n) (c (nodeID n))) nodes) =
   map nodeID (filter (\<lambda>n. c (nodeID n) \<noteq> None) nodes)"
  by (induction nodes) (auto simp: List.map_filter_def projectNodeFields_def)

section \<open>Batched reads\<close>

lemma foldl_updates_const:
  "(\<And>i r. (i, r) \<in> set xs \<Longrightarrow> f i r = g r) \<Longrightarrow>
   foldl (\<lambda>m (i, r). m(r \<mapsto> f i r)) m xs = (\<lambda>x. if x \<in> snd ` set xs then Some (g x) else m x)"
proof (induction xs arbitrary: m)
  case (Cons y ys)
  obtain i r where y: "y = (i, r)" by (cases y)
  have "foldl (\<lambda>m (i, r). m(r \<mapsto> f i r)) (m(r \<mapsto> f i r)) ys =
      (\<lambda>x. if x \<in> snd ` set ys then Some (g x) else (m(r \<mapsto> f i r)) x)"
    by (rule Cons.IH) (use Cons.prems in auto)
  then show ?case using Cons.prems [of i r] unfolding y by (simp only: foldl.simps prod.case) (auto simp: fun_eq_iff)
qed auto

lemma OpenBatch_lookup:
  assumes "LoadBatch load batch requests = map (\<lambda>r. load' (lrDocument r) (lrLocale r)) requests"
  shows "OpenBatch K load batch requests r =
    (if r \<in> set requests then Some (from_port (load' (lrDocument r) (lrLocale r))
       (\<lambda>d. integrity_check (validateLoadedDocument K d (lrDocument r) (lrLocale r)) (Inr d))) else None)"
proof -
  let ?g = "\<lambda>r. from_port (load' (lrDocument r) (lrLocale r))
       (\<lambda>d. integrity_check (validateLoadedDocument K d (lrDocument r) (lrLocale r)) (Inr d))"
  have "batchDocument K (LoadBatch load batch requests) i q = ?g q" if "(i, q) \<in> set (enumerate 0 requests)" for i q
    using that unfolding assms by (auto simp: batchDocument_def in_set_enumerate_eq)
  then have "OpenBatch K load batch requests = (\<lambda>x. if x \<in> snd ` set (enumerate 0 requests) then Some (?g x) else None)"
    unfolding OpenBatch_def Let_def by (rule foldl_updates_const)
  moreover have "snd ` set (enumerate 0 requests) = set requests" by (metis list.set_map map_snd_enumerate)
  ultimately show ?thesis by simp
qed

lemma batch_Read_service:
  assumes "LoadBatch load batch requests = map (\<lambda>r. load' (lrDocument r) (lrLocale r)) requests"
    and "\<lparr>lrDocument = rqDocument r, lrLocale = rqLocale r\<rparr> \<in> set requests"
  shows "batch_Read lower digest (OpenBatch K load batch requests) r = Service_Read K lower digest load' r"
proof (cases "validateReadRequest r")
  case None
  then have "DocumentIdentity_validate (rqDocument r) = None" "validateLocale (rqLocale r) = None"
    by (auto simp: validateReadRequest_def first_error_None)
  then show ?thesis
    using assms(2) None by (simp add: batch_Read_def Service_Read_def OpenBatch_lookup [OF assms(1)] loadDocument_def input_check_def)
next
  case (Some e)
  then show ?thesis by (simp add: batch_Read_def Service_Read_def input_check_def split: error.splits)
qed


section \<open>Who is to blame\<close>

lemma returned_validateReadRequest: "returned (validateReadRequest r)"
  unfolding validateReadRequest_def
  by (cases "rqMode r") (auto intro!: returned_intros)

lemma input_check_returned:
  "returned c \<Longrightarrow> input_check c k = Inl (Integrity e) \<Longrightarrow> k = Inl (Integrity e)"
  by (auto simp: input_check_def returned_def split: option.splits error.splits)

text \<open>An integrity failure of a read is a document of the port that its validation refuses.\<close>

lemma Service_Read_integrity:
  assumes "Service_Read K lower digest load r = Inl (Integrity e)"
  shows "\<exists>d. load (rqDocument r) (rqLocale r) = Inr d \<and>
    validateLoadedDocument K d (rqDocument r) (rqLocale r) = Some e"
proof -
  let ?o = "\<lparr>opnDocument = rqDocument r, opnLocale = rqLocale r\<rparr>"
  have ok: "validateReadRequest r = None"
    using assms input_check_returned [OF returned_validateReadRequest]
    by (cases "validateReadRequest r") (auto simp: Service_Read_def input_check_def returned_def split: error.splits
        dest: returned_validateReadRequest [unfolded returned_def, rule_format])
  then have ids: "DocumentIdentity_validate (rqDocument r) = None" "validateLocale (rqLocale r) = None"
    by (auto simp: validateReadRequest_def first_error_None)
  have on: "on_answer (loadDocument K load ?o) (\<lambda>d. readDocument lower digest d r) = Inl (Integrity e)"
    using assms ok by (simp add: Service_Read_def input_check_def)
  show ?thesis
  proof (cases "loadDocument K load ?o")
    case (Inl f)
    then have "f = Integrity e" using on by (simp add: on_answer_def)
    with Inl ids show ?thesis
      by (auto simp: loadDocument_def input_check_def from_port_def integrity_check_def split: sum.splits option.splits)
  next
    case (Inr d)
    then have v: "Document_validate K d = None" by (simp add: loadDocument_Inr)
    have "0 \<le> rqLimit r" using validateReadRequest_mode [OF ok] by blast
    from readDocument_ends [where ?'a = 'a, OF v this, of lower digest] Inr on show ?thesis by (simp add: on_answer_def)
  qed
qed
end
