(* ===== verification/Demo.thy ===== *)
theory Demo
  imports Locale_Isolation Field_Paths Read_Correct
begin

text \<open>
  A small document, accepted requests on it and a read of it: the concrete inputs at which the properties
  with hypotheses are instantiated.
\<close>

definition demo_catalog :: Catalog where
  "demo_catalog = \<lparr>catBlockRules = [], catFingerprint = ''v1'', catBlockKinds = [''section'', ''gallery''],
     catFields =
       [\<lparr>frBlockKind = ''section'', frField = ''title'', frValueKind = ValueKindText,
         frOwnership = FieldOwnershipLocale, frTranslatable = True, frFile = False, frSchema = None\<rparr>],
     catRelations = [\<lparr>rrBlockKind = ''gallery'', rrRelation = ''images'', rrItemKinds = [''image'']\<rparr>],
     catRelationFields =
       [\<lparr>rfBlockKind = ''gallery'', rfRelation = ''images'', rfItemKind = ''image'', rfField = ''alt'',
         rfValueKind = ValueKindText, rfOwnership = FieldOwnershipLocale, rfTranslatable = True,
         rfFile = False, rfSchema = None\<rparr>]\<rparr>"

definition demo_node :: "BlockID \<Rightarrow> BlockKind \<Rightarrow> BlockID \<Rightarrow> int \<Rightarrow> Node" where
  "demo_node b k p n = \<lparr>nodeID = b, nodeKind = k, nodeParent = p, nodeOrder = n, nodeShared = [],
     nodeLocalized = [], nodeFiles = [], nodeRelations = []\<rparr>"

definition demo_document :: Document where
  "demo_document = \<lparr>docIdentity = \<lparr>idDomain = ''post'', idReference = ''p''\<rparr>, docRevision = ''r1'',
     docTargetRevision = None, docSourceLocale = ''en'', docLocale = ''en'', docLocaleExists = True,
     docCatalog = demo_catalog,
     docNodes = [demo_node ''a'' ''section'' '''' 0, demo_node ''b'' ''section'' ''a'' 0,
       demo_node ''g'' ''gallery'' '''' 1]\<rparr>"

definition demo_request :: "Operation list \<Rightarrow> ApplyRequest" where
  "demo_request ops = \<lparr>arProtocol = ProtocolVersion, arProfile = ''post'', arDocument = ''p'', arLocale = ''en'',
     arExpectedDocumentRevision = ''r1'', arExpectedTargetRevision = None, arOperations = ops\<rparr>"

definition demo_operations :: "Operation list" where
  "demo_operations =
     [InsertBlockOperation ''c'' ''section'' '''' ''a'',
      SetFieldOperation ''c'' ''title'' (TextValue ''T''),
      MoveBlockOperation ''b'' ''c'' '''',
      InsertRelationItemOperation ''g'' ''images'' ''i'' ''image'' '''',
      SetRelationFieldOperation ''g'' ''images'' ''i'' ''alt'' (TextValue ''x'')]"

definition demo_keys :: "string \<Rightarrow> bool" where "demo_keys k \<longleftrightarrow> k = ''site.url''"

lemma demo_document_valid: "Document_validate demo_keys demo_document = None"
  by code_simp

lemma demo_envelope: "validateEnvelope (demo_request demo_operations) = None"
  by code_simp

lemma demo_rounds:
  "validateRounds demo_keys (newValidator demo_document (demo_request demo_operations)) 0 demo_operations = Inr []"
  by code_simp

definition demo_result :: ValidationResult where
  "demo_result = \<lparr>vrNormalized = demo_operations, vrIssues = [], vrConflict = None\<rparr>"

lemma demo_accepted:
  "ValidateOperations demo_keys demo_document (demo_request demo_operations) = Inr demo_result"
  "Valid demo_result"
proof -
  have "docIdentity demo_document = ApplyRequest_Identity (demo_request demo_operations)"
    "docLocale demo_document = arLocale (demo_request demo_operations)"
    "docRevision demo_document = arExpectedDocumentRevision (demo_request demo_operations)"
    "equalRevision (docTargetRevision demo_document) (arExpectedTargetRevision (demo_request demo_operations))"
    "arOperations (demo_request demo_operations) = demo_operations"
    by (simp_all add: demo_document_def demo_request_def ApplyRequest_Identity_def equalRevision_def)
  then show "ValidateOperations demo_keys demo_document (demo_request demo_operations) = Inr demo_result"
    using demo_document_valid demo_envelope demo_rounds
    by (simp add: ValidateOperations_def Let_def demo_result_def)
  show "Valid demo_result" by (simp add: Valid_def demo_result_def)
qed

lemma demo_plain: "plain_catalog (docCatalog demo_document)"
  by (simp add: plain_catalog_def nul_free_def demo_document_def demo_catalog_def)

lemma demo_flat: "list_all flat_operation demo_operations"
  by (simp add: flat_operation_def demo_operations_def operation_builders)

section \<open>A translation\<close>

definition demo_translation :: Document where
  "demo_translation = demo_document\<lparr>docLocale := ''ko'', docTargetRevision := Some ''t1''\<rparr>"

definition demo_translations :: "Operation list" where
  "demo_translations = [SetFieldOperation ''a'' ''title'' (TextValue ''T'')]"

definition demo_translation_request :: ApplyRequest where
  "demo_translation_request = (demo_request demo_translations)\<lparr>arLocale := ''ko'',
     arExpectedTargetRevision := Some ''t1''\<rparr>"

definition demo_translation_result :: ValidationResult where
  "demo_translation_result = \<lparr>vrNormalized = demo_translations, vrIssues = [], vrConflict = None\<rparr>"

lemma demo_translation_valid: "Document_validate demo_keys demo_translation = None"
  by code_simp

lemma demo_translation_envelope: "validateEnvelope demo_translation_request = None"
  by code_simp

lemma demo_translation_rounds:
  "validateRounds demo_keys (newValidator demo_translation demo_translation_request) 0 demo_translations = Inr []"
  by code_simp

lemma demo_translation_accepted:
  "ValidateOperations demo_keys demo_translation demo_translation_request = Inr demo_translation_result"
  "Valid demo_translation_result"
proof -
  have "docIdentity demo_translation = ApplyRequest_Identity demo_translation_request"
    "docLocale demo_translation = arLocale demo_translation_request"
    "docRevision demo_translation = arExpectedDocumentRevision demo_translation_request"
    "equalRevision (docTargetRevision demo_translation) (arExpectedTargetRevision demo_translation_request)"
    "arOperations demo_translation_request = demo_translations"
    by (simp_all add: demo_translation_def demo_document_def demo_request_def demo_translation_request_def
        ApplyRequest_Identity_def equalRevision_def)
  then show "ValidateOperations demo_keys demo_translation demo_translation_request = Inr demo_translation_result"
    using demo_translation_valid demo_translation_envelope demo_translation_rounds
    by (simp add: ValidateOperations_def Let_def demo_translation_result_def)
  show "Valid demo_translation_result" by (simp add: Valid_def demo_translation_result_def)
qed

lemma demo_translation_plain: "plain_catalog (docCatalog demo_translation)"
  using demo_plain by (simp add: demo_translation_def)

lemma demo_translation_flat: "list_all flat_operation demo_translations"
  by (simp add: flat_operation_def demo_translations_def operation_builders)

section \<open>A read\<close>

definition demo_read :: ReadRequest where
  "demo_read = \<lparr>rqDocument = \<lparr>idDomain = ''post'', idReference = ''p''\<rparr>, rqLocale = ''en'', rqMode = ReadOutline,
     rqBlocks = [], rqFields = [], rqLimit = 2, rqCursor = '''', rqQuery = ''''\<rparr>"

definition demo_load :: "DocumentIdentity \<Rightarrow> Locale \<Rightarrow> string + Document" where
  "demo_load i l = (if i = docIdentity demo_document \<and> l = ''en'' then Inr demo_document else Inl ''not found'')"

definition demo_digest :: "cursorParts \<Rightarrow> string" where
  "demo_digest parts = cpRevision parts"

lemma demo_read_valid: "validateReadRequest demo_read = None"
  by code_simp

lemma demo_read_loads:
  "loadDocument demo_keys demo_load \<lparr>opnDocument = rqDocument demo_read, opnLocale = rqLocale demo_read\<rparr> = Inr demo_document"
  unfolding loadDocument_Inr using demo_document_valid
  by (simp add: demo_read_def demo_load_def demo_document_def) code_simp

lemma demo_outline: "selectNodes demo_document demo_read = Inr (projectOutline (docNodes demo_document))"
  by (simp add: selectNodes_def demo_read_def)

lemma demo_page: "\<exists>p. Service_Read demo_keys id demo_digest demo_load demo_read = Inr p"
proof -
  obtain ns where l: "read_list id demo_document demo_read = Inr ns"
    using read_list_page [OF demo_document_valid demo_outline] by blast
  have c: "rqCursor demo_read = []" "0 \<le> rqLimit demo_read" by (simp_all add: demo_read_def)
  show ?thesis using demo_read_valid
    by (simp add: Service_Read_def input_check_def demo_read_loads on_answer_def readDocument_page [OF l c(2)]
        cursorOffset_def c page_at_def)
qed

end
