(* ===== verification/Edit_Correct.thy ===== *)
theory Edit_Correct
  imports Text_Edit "HOL-Library.Sublist"
begin

text \<open>
  What a plan of text edits guarantees: it is computed without a run-time panic, an edit is applied
  only where its selection is unambiguous, a plan writes distinct locale-owned fields, replacing
  text keeps rich text valid, and previews stay short.
\<close>

section \<open>No panics\<close>

lemma rebuildLoop_total:
  "\<forall>l \<in> set leaves. depth \<le> length (ilWrappers l) \<Longrightarrow> \<exists>items. rebuildLoop depth result leaves = Inr items"
proof (induction depth result leaves rule: rebuildLoop.induct)
  case (1 depth result)
  then show ?case by simp
next
  case (2 depth result l leaves)
  show ?case
  proof (cases "length (ilWrappers l) = depth")
    case True
    then show ?thesis using 2 by simp
  next
    case False
    let ?w = "ilWrappers l ! depth"
    from False "2.prems" have deep: "\<not> length (ilWrappers l) < depth" "depth < length (ilWrappers l)" by auto
    have "\<forall>x \<in> set (l # takeWhile (same_mark ?w depth) leaves). Suc depth \<le> length (ilWrappers x)"
      using deep by (auto simp: same_mark_def dest: set_takeWhileD)
    from "2.IH"(2) [OF False deep(1) refl this] obtain children where
      "rebuildLoop (Suc depth) [] (l # takeWhile (same_mark ?w depth) leaves) = Inr children" by blast
    moreover have "\<forall>x \<in> set (dropWhile (same_mark ?w depth) leaves). depth \<le> length (ilWrappers x)"
      using "2.prems" by (auto dest: set_dropWhileD)
    ultimately show ?thesis using "2.IH"(3) [OF False deep(1) refl] False deep by (simp add: Let_def)
  qed
qed

lemma formatInline_total: "\<exists>items'. formatInline s items f = Inr items'"
  by (auto simp: formatInline_def Let_def rebuildInline_def intro!: rebuildLoop_total)

lemma map_result_returns:
  "\<forall>x \<in> set xs. \<exists>y. f x = Inr y \<Longrightarrow> \<exists>ys. map_result f xs = Inr ys"
  by (induction xs) auto

lemma mapValueText_total:
  assumes "\<And>items. \<exists>items'. inline items = Inr items'"
  shows "\<exists>v'. mapValueText inline text v = Inr v'"
proof (induction v rule: Value_tree_induct)
  case (Value v)
  have "\<exists>ys. map_result (\<lambda>(k, w). and_then (mapValueText inline text w) (\<lambda>w'. Inr (k, w'))) xs = Inr ys"
    if "\<And>k w. (k, w) \<in> set xs \<Longrightarrow> \<exists>w'. mapValueText inline text w = Inr w'" for xs :: "(string \<times> Value) list"
    using that by (intro map_result_returns) fastforce
  from this [of "vList v"] this [of "vObject v"] Value assms [of "vInline v"] show ?case
    by (subst mapValueText.simps) (auto split: ValueKind.splits)
qed

definition reported :: "error \<Rightarrow> bool" where
  "reported e \<longleftrightarrow> (\<exists>m. e = Err m)"

lemma reported_fail_if: "fail_if b m = Some e \<Longrightarrow> reported e"
  by (simp add: reported_def)

lemma TextEdit_rewrite_reported:
  assumes "TextEdit_validate e = None" and "TextEdit_rewrite e v = Inl err"
  shows "reported err"
proof (cases "teReplace e")
  case (Some r)
  then show ?thesis using assms(2) mapValueText_total [of "\<lambda>items. Inr (replaceInlineText items (teFind e) r)"]
    by (simp add: TextEdit_rewrite_def replaceValueText_def) (metis Inl_Inr_False)
next
  case None
  then obtain f where f: "teFormat e = Some f"
    using assms(1) by (auto simp: TextEdit_validate_def first_error_None)
  obtain v' where "mapValueText (\<lambda>items. formatInline (selector e) items f) id v = Inr v'"
    using mapValueText_total [of "\<lambda>items. formatInline (selector e) items f" id v] formatInline_total by auto
  then show ?thesis using assms(2) None f
    by (auto simp: TextEdit_rewrite_def selector_format_def reported_def split: if_splits)
qed

lemma map_result_Inl: "map_result f xs = Inl e \<Longrightarrow> \<exists>x \<in> set xs. f x = Inl e"
  by (induction xs) (auto simp: and_then_def split: sum.splits)

lemma applyTextEdit_reported: "applyTextEdit fs e = Inl err \<Longrightarrow> reported err"
proof -
  assume a: "applyTextEdit fs e = Inl err"
  show ?thesis
  proof (cases "TextEdit_validate e")
    case (Some x)
    then have "x = err" using a by (simp add: applyTextEdit_def)
    moreover have "reported x" using Some
      by (auto simp: TextEdit_validate_def fail_if_def reported_def split: if_splits option.splits)
    ultimately show ?thesis by simp
  next
    case None
    have rw: "reported err" if "map_result (\<lambda>f. if edit_matches e f then rewriteField e f else Inr f) fs = Inl err"
    proof -
      from map_result_Inl [OF that] obtain f where "edit_matches e f" "rewriteField e f = Inl err"
        by (metis Inl_Inr_False)
      then have "TextEdit_rewrite e (efValue f) = Inl err"
        by (cases "TextEdit_rewrite e (efValue f)") (simp_all add: rewriteField_def)
      then show ?thesis by (rule TextEdit_rewrite_reported [OF None])
    qed
    show ?thesis using a None rw
      by (auto simp: applyTextEdit_def Let_def nothingMatched_def reported_def and_then_def split: if_splits sum.splits)
  qed
qed

lemma planEdits_error:
  "planEdits n fs edits = Inl (i, err) \<Longrightarrow> n \<le> i \<and> i < n + length edits \<and> reported err"
proof (induction n fs edits rule: planEdits.induct)
  case (2 n fs e edits)
  show ?case
  proof (cases "applyTextEdit fs e")
    case (Inl x)
    then show ?thesis using 2 applyTextEdit_reported by auto
  next
    case (Inr p)
    then show ?thesis using 2 by (cases p) (fastforce split: sum.splits)
  qed
qed simp

section \<open>What a plan writes\<close>

lemma map_result_list_all2: "map_result f xs = Inr ys \<Longrightarrow> list_all2 (\<lambda>x y. f x = Inr y) xs ys"
  by (induction xs arbitrary: ys) (auto simp: and_then_Inr)

lemma applyTextEdit_targets:
  assumes "applyTextEdit fs e = Inr (fs', m)"
  shows "map efTarget fs' = map efTarget fs" "map efOriginal fs' = map efOriginal fs"
proof -
  from assms have "map_result (\<lambda>f. if edit_matches e f then rewriteField e f else Inr f) fs = Inr fs'"
    by (auto simp: applyTextEdit_def Let_def guard_error_Inr and_then_Inr split: if_splits)
  then have "list_all2 (\<lambda>f f'. (if edit_matches e f then rewriteField e f else Inr f) = Inr f') fs fs'"
    by (rule map_result_list_all2)
  then show "map efTarget fs' = map efTarget fs" "map efOriginal fs' = map efOriginal fs"
    by (induction rule: list_all2_induct) (auto simp: rewriteField_def and_then_Inr split: if_splits)
qed

definition unambiguous :: "TextEdit \<Rightarrow> TextEditMatch \<Rightarrow> bool" where
  "unambiguous e m \<longleftrightarrow> tmOccurrences m = 1 \<or> teAllOccurrences e \<and> tmOccurrences m > 1"

lemma applyTextEdit_unambiguous: "applyTextEdit fs e = Inr (fs', m) \<Longrightarrow> unambiguous e m"
  by (auto simp: applyTextEdit_def Let_def guard_error_Inr and_then_Inr unambiguous_def split: if_splits)

lemma planEdits_result:
  "planEdits n fs edits = Inr (fs', matches) \<Longrightarrow>
   map efTarget fs' = map efTarget fs \<and> map efOriginal fs' = map efOriginal fs \<and>
   list_all2 unambiguous edits matches"
proof (induction n fs edits arbitrary: matches rule: planEdits.induct)
  case (2 n fs e edits)
  from "2.prems" obtain f1 m ms where a: "applyTextEdit fs e = Inr (f1, m)"
    and r: "planEdits (Suc n) f1 edits = Inr (fs', ms)" and ms: "matches = m # ms"
    by (auto split: sum.splits prod.splits)
  from "2.IH" [OF a refl r] applyTextEdit_targets [OF a] applyTextEdit_unambiguous [OF a] ms show ?case by simp
qed simp

text \<open>The fields of a document have distinct targets.\<close>

definition locale_fields :: "Node list \<Rightarrow> FieldTarget list" where
  "locale_fields nodes = map efTarget (editableFields nodes)"

lemma PlanTextEdits_writes:
  assumes "PlanTextEdits nodes edits = Inr plan"
  shows "\<exists>fs. planOperations plan = map (\<lambda>f. SetFieldTo (efTarget f) (efValue f)) fs \<and>
    planPreviews plan = map newTextEditPreview fs \<and>
    subseq (map efTarget fs) (locale_fields nodes) \<and> list_all2 unambiguous edits (planMatches plan)"
proof -
  from assms obtain fs matches where p: "planEdits 0 (editableFields nodes) edits = Inr (fs, matches)"
    and plan: "planOperations plan = map (\<lambda>f. SetFieldTo (efTarget f) (efValue f)) (filter efChanged fs)"
      "planPreviews plan = map newTextEditPreview (filter efChanged fs)" "planMatches plan = matches"
    by (auto simp: PlanTextEdits_def Let_def split: sum.splits prod.splits)
  have "subseq (map efTarget (filter efChanged fs)) (map efTarget fs)"
    by (rule subseq_map) simp
  then show ?thesis using planEdits_result [OF p] plan by (auto simp: locale_fields_def)
qed

section \<open>Replacing text keeps rich text valid\<close>

lemma validate_text:
  "iKind i = InlineKindText \<Longrightarrow> InlineItem_validate K depth i = None \<longleftrightarrow>
   depth \<le> 32 \<and> \<not> iLinked i \<and> iTarget i = '''' \<and> iChildren i = []"
  by (subst InlineItem_validate.simps) (auto simp: fail_if_def)

lemma replaceInlineText_valid:
  "check_all (InlineItem_validate K depth) items = None \<Longrightarrow>
   check_all (InlineItem_validate K depth) (replaceInlineText items needle replacement) = None"
proof (induction items needle replacement arbitrary: depth rule: replaceInlineText.induct)
  case (1 needle replacement)
  then show ?case by simp
next
  case (2 i rest needle replacement)
  have i: "InlineItem_validate K depth i = None" and rest: "check_all (InlineItem_validate K depth) rest = None"
    using "2.prems" by (auto split: option.splits)
  have tail: "check_all (InlineItem_validate K depth) (replaceInlineText rest needle replacement) = None"
    using "2.IH"(2) [OF refl refl rest] by simp
  let ?cs = "replaceInlineText (iChildren i) needle replacement"
  show ?case
  proof (cases "iChildren i = []")
    case True
    have "InlineItem_validate K depth (InlineItem (iLinked i) (iKind i) t (iTarget i) []) = None"
      if "iKind i = InlineKindText \<or> t = iText i" for t
    proof (cases "iKind i = InlineKindText")
      case True
      then show ?thesis using i by (simp add: validate_text)
    next
      case False
      then have "InlineItem (iLinked i) (iKind i) t (iTarget i) [] = i" using that \<open>iChildren i = []\<close> by (cases i) auto
      then show ?thesis using i by simp
    qed
    then show ?thesis using tail True by (auto simp: Let_def)
  next
    case False
    then have k: "iKind i \<noteq> InlineKindText" using i by (auto simp: validate_text)
    have cs: "check_all (InlineItem_validate K (Suc depth)) ?cs = None"
      if "check_all (InlineItem_validate K (Suc depth)) (iChildren i) = None"
      using "2.IH"(1) [OF refl False that] by simp
    have "InlineItem_validate K depth (InlineItem (iLinked i) (iKind i) (iText i) (iTarget i) ?cs) = None" if "?cs \<noteq> []"
      using i that False k cs
      by (subst (asm) InlineItem_validate.simps, subst InlineItem_validate.simps)
        (auto simp: validateChildren_def split: if_splits option.splits)
    then show ?thesis using tail False k by (simp add: Let_def)
  qed
qed

section \<open>Previews\<close>

lemma ellipsis_rune: "ellipsis = string_of [8230]"
  by (simp add: ellipsis_def string_of_def encode_rune_def valid_rune_def char_of_def bit_0)

lemma string_of_append: "string_of (xs @ ys) = string_of xs @ string_of ys"
  by (simp add: string_of_def)

lemma previewRunes_string:
  "\<exists>rs. previewRunes rs0 start = string_of rs \<and> length rs \<le> textEditPreviewRunes + 2 \<and>
    set rs \<subseteq> insert 8230 (set rs0)"
proof -
  define e where "e = min (length rs0) (start + textEditPreviewRunes)"
  define mid where "mid = drop (min start e) (take e rs0)"
  let ?rs = "(if start > 0 then [8230] else []) @ mid @ (if e < length rs0 then [8230] else [])"
  have "previewRunes rs0 start = string_of ?rs"
    by (simp add: previewRunes_def Let_def ellipsis_rune string_of_append e_def mid_def)
      (simp add: string_of_def)
  moreover have "length mid \<le> textEditPreviewRunes" by (auto simp: mid_def e_def)
  then have "length ?rs \<le> textEditPreviewRunes + 2" by simp
  moreover have "set ?rs \<subseteq> insert 8230 (set rs0)" by (auto simp: mid_def dest: in_set_dropD in_set_takeD)
  ultimately show ?thesis by blast
qed

lemma previewRunes_bound:
  assumes "list_all valid_rune rs0"
  shows "rune_count (previewRunes rs0 start) \<le> textEditPreviewRunes + 2"
proof -
  from previewRunes_string [of rs0 start] obtain rs where rs: "previewRunes rs0 start = string_of rs"
    "length rs \<le> textEditPreviewRunes + 2" "set rs \<subseteq> insert 8230 (set rs0)" by blast
  have "list_all valid_rune rs" using assms rs(3) by (auto simp: list_all_iff valid_rune_def)
  then have "runes (string_of rs) = rs" using runes_string_of [of rs "[]"] by simp
  then show ?thesis using rs by (simp add: rune_count_def)
qed

lemma newTextEditPreview_bound:
  "rune_count (tpBefore (newTextEditPreview f)) \<le> 202 \<and> rune_count (tpAfter (newTextEditPreview f)) \<le> 202"
  using previewRunes_bound [OF runes_valid]
  by (simp add: newTextEditPreview_def Let_def textEditPreviewRunes_def)

end
