(* ===== verification/Json.thy ===== *)
theory Json
  imports Go_Runes
begin

text \<open>
  Parsed JSON, what \<open>encoding/json\<close> makes of a document on its way through text, and the canonical form
  of a JSON object that \<open>internal/contentblock\<close> stores (\<open>canonical.go\<close>).
\<close>

datatype json =
  JNull | JBool bool | JNumber string | JString string | JArray "json list" | JObject "(string \<times> json) list"

fun json_members :: "json \<Rightarrow> (string \<times> json) list" where
  "json_members (JObject ms) = ms"
| "json_members _ = []"

fun json_elements :: "json \<Rightarrow> json list" where
  "json_elements (JArray js) = js"
| "json_elements _ = []"

lemma size_json_members [termination_simp]: "(k, v) \<in> set (json_members j) \<Longrightarrow> size v < size j"
  by (cases j) (auto dest!: split_list simp: size_list_append)

lemma size_json_elements [termination_simp]: "x \<in> set (json_elements j) \<Longrightarrow> size x < size j"
  by (cases j) (auto dest!: split_list simp: size_list_append)

lemma size_member_elements [termination_simp]:
  assumes "(k, v) \<in> set (json_members j)" and "x \<in> set (json_elements v)"
  shows "size x < size j" and "(k', y) \<in> set (json_members x) \<Longrightarrow> size y < size j"
  using size_json_members [OF assms(1)] size_json_elements [OF assms(2)] size_json_members [of k' y x] by auto

section \<open>Text\<close>

text \<open>
  What a reader finds in the text of an encoded document: \<open>encoding/json\<close> writes every byte of a string that
  is not part of valid UTF-8 as the replacement character, and everything else such that it is read back.
\<close>

definition coerce_utf8 :: "string \<Rightarrow> string" where
  "coerce_utf8 s = string_of (runes s)"

definition utf8 :: "string \<Rightarrow> bool" where
  "utf8 s \<longleftrightarrow> coerce_utf8 s = s"

fun over_text :: "json \<Rightarrow> json" where
  "over_text (JString s) = JString (coerce_utf8 s)"
| "over_text (JArray js) = JArray (map over_text js)"
| "over_text (JObject ms) = JObject (map (\<lambda>(k, v). (coerce_utf8 k, over_text v)) ms)"
| "over_text j = j"

fun utf8_json :: "json \<Rightarrow> bool" where
  "utf8_json (JString s) \<longleftrightarrow> utf8 s"
| "utf8_json (JArray js) \<longleftrightarrow> list_all utf8_json js"
| "utf8_json (JObject ms) \<longleftrightarrow> list_all (\<lambda>(k, v). utf8 k \<and> utf8_json v) ms"
| "utf8_json _ \<longleftrightarrow> True"

lemma over_text_utf8: "utf8_json j \<Longrightarrow> over_text j = j"
proof (induction j)
  case (JArray js)
  then show ?case by (auto simp: list_all_iff intro!: map_idI)
next
  case (JObject ms)
  have "(case m of (k, v) \<Rightarrow> (coerce_utf8 k, over_text v)) = m" if "m \<in> set ms" for m
    using JObject that by (cases m) (force simp: list_all_iff utf8_def)
  then show ?case by (simp add: map_idI)
qed (simp_all add: utf8_def)

lemma coerce_utf8_idem [simp]: "coerce_utf8 (coerce_utf8 s) = coerce_utf8 s"
  using runes_string_of [OF runes_valid, of s "[]"] by (simp add: coerce_utf8_def)

text \<open>ASCII text is its own encoding.\<close>

lemma coerce_utf8_ascii:
  assumes "list_all (\<lambda>c. byte c < 128) s"
  shows "coerce_utf8 s = s"
proof -
  have one: "encode_rune (byte c) = [c]" if "byte c < 128" for c
    using that by (simp add: encode_rune_def valid_rune_def)
  have s: "string_of (map byte s) = s"
    using assms by (induction s) (simp_all add: string_of_def one)
  have "list_all valid_rune (map byte s)" using assms by (auto simp: list_all_iff valid_rune_def)
  from runes_string_of [OF this, of "[]"] show ?thesis by (simp add: s coerce_utf8_def)
qed

section \<open>Canonical objects\<close>

text \<open>
  Decoding into a Go map and encoding it again: of repeated members the last stays, the members are
  sorted by name, numbers keep their text.
\<close>

definition last_members :: "(string \<times> 'a) list \<Rightarrow> (string \<times> 'a) list" where
  "last_members ms = sort_key fst (AList.clearjunk (rev ms))"

fun canonical_json :: "json \<Rightarrow> json" where
  "canonical_json (JString s) = JString (coerce_utf8 s)"
| "canonical_json (JArray js) = JArray (map canonical_json js)"
| "canonical_json (JObject ms) = JObject (last_members (map (\<lambda>(k, v). (coerce_utf8 k, canonical_json v)) ms))"
| "canonical_json j = j"

lemma set_clearjunk: "set (AList.clearjunk ms) \<subseteq> set ms"
  by (induction ms rule: AList.clearjunk.induct) (auto simp: AList.delete_eq)

lemma set_last_members: "set (last_members ms) \<subseteq> set ms"
  using set_clearjunk [of "rev ms"] by (auto simp: last_members_def)

lemma last_members_sorted: "sorted (map fst ms) \<Longrightarrow> distinct (map fst ms) \<Longrightarrow> last_members ms = ms"
proof -
  assume s: "sorted (map fst ms)" and d: "distinct (map fst ms)"
  have "distinct (map fst (rev ms))" using d by (simp add: rev_map [symmetric])
  then have "AList.clearjunk (rev ms) = rev ms" by (rule distinct_clearjunk_id)
  moreover have "sort_key fst (rev ms) = ms"
    by (rule sort_key_unique [symmetric]) (use s d in \<open>simp_all add: rev_map [symmetric]\<close>)
  ultimately show ?thesis by (simp add: last_members_def)
qed

lemma last_members_props: "sorted (map fst (last_members ms))" "distinct (map fst (last_members ms))"
proof -
  show "sorted (map fst (last_members ms))" by (simp add: last_members_def)
  have "distinct (map fst (AList.clearjunk (rev ms)))" by (rule distinct_clearjunk)
  then show "distinct (map fst (last_members ms))"
    by (simp add: last_members_def distinct_map inj_on_def) 
qed

lemma canonical_json_idem [simp]: "canonical_json (canonical_json j) = canonical_json j"
proof (induction j)
  case (JArray js)
  then show ?case by auto
next
  case (JObject ms)
  let ?ms = "map (\<lambda>(k, v). (coerce_utf8 k, canonical_json v)) ms"
  have "(case m of (k, v) \<Rightarrow> (coerce_utf8 k, canonical_json v)) = m" if "m \<in> set (last_members ?ms)" for m
  proof -
    have "m \<in> set ?ms" using that set_last_members by blast
    then obtain k v where "(k, v) \<in> set ms" "m = (coerce_utf8 k, canonical_json v)" by auto
    then show ?thesis using JObject [of "(k, v)" v] by simp
  qed
  then have "map (\<lambda>(k, v). (coerce_utf8 k, canonical_json v)) (last_members ?ms) = last_members ?ms" by (rule map_idI)
  then show ?case using last_members_sorted [OF last_members_props] by simp
qed simp_all

end
