(* ===== verification/Wire.thy ===== *)
theory Wire
  imports Apply_Service Text_Format Json
begin

text \<open>
  The wire format of values, operations and requests: the \<open>MarshalJSON\<close> and \<open>UnmarshalJSON\<close> methods of
  \<open>codec.go\<close> and \<open>operations.go\<close>. The model works on parsed JSON; what \<open>encoding/json\<close> does between a
  struct and a parsed document (member names, \<open>omitempty\<close>, null, unknown and repeated members) is
  modelled here, its text (escapes, white space, trailing data) is not.
\<close>

section \<open>JSON and structs\<close>

text \<open>
  A member belongs to the field with its exact name, else to the first field whose name equals it up to
  case. Next to the ASCII letters only two characters fold to a letter: the long s and the Kelvin sign.
\<close>

definition fold_rune :: "nat \<Rightarrow> nat" where
  "fold_rune r = (if 97 \<le> r \<and> r \<le> 122 then r - 32 else if r = 0x17F then 83 else if r = 0x212A then 75 else r)"

definition fold_name :: "string \<Rightarrow> nat list" where
  "fold_name s = map fold_rune (runes s)"

definition member_field :: "string list \<Rightarrow> string \<Rightarrow> string option" where
  "member_field names k = (if k \<in> set names then Some k else find (\<lambda>n. fold_name n = fold_name k) names)"

text \<open>\<open>decodeStrict\<close> into a struct: members are stored in their order, an unknown one is an error, null
  changes nothing.\<close>

fun decodeStrict :: "string list \<Rightarrow> (string \<Rightarrow> json \<Rightarrow> 's \<Rightarrow> 's result) \<Rightarrow> 's \<Rightarrow> json \<Rightarrow> 's result" where
  "decodeStrict names put s JNull = Inr s"
| "decodeStrict names put s (JObject ms) =
     fold_result (\<lambda>s (k, v). case member_field names k of
         None \<Rightarrow> Inl (Err ''unknown field'')
       | Some n \<Rightarrow> put n v s) s ms"
| "decodeStrict names put s _ = Inl (Err ''cannot unmarshal into a struct'')"

fun decode_string :: "json \<Rightarrow> string option result" where
  "decode_string JNull = Inr None"
| "decode_string (JString t) = Inr (Some t)"
| "decode_string _ = Inl (Err ''cannot unmarshal into a string'')"

fun decode_bool :: "json \<Rightarrow> bool option result" where
  "decode_bool JNull = Inr None"
| "decode_bool (JBool b) = Inr (Some b)"
| "decode_bool _ = Inl (Err ''cannot unmarshal into a bool'')"

fun decode_array :: "(json \<Rightarrow> 'a result) \<Rightarrow> json \<Rightarrow> 'a list option result" where
  "decode_array dec JNull = Inr None"
| "decode_array dec (JArray js) = and_then (map_result dec js) (\<lambda>xs. Inr (Some xs))"
| "decode_array dec _ = Inl (Err ''cannot unmarshal into a slice'')"

lemma fold_result_cong [fundef_cong]:
  "s = t \<Longrightarrow> xs = ys \<Longrightarrow> (\<And>s x. x \<in> set ys \<Longrightarrow> f s x = g s x) \<Longrightarrow> fold_result f s xs = fold_result g t ys"
proof (induction ys arbitrary: s t xs)
  case (Cons y ys)
  have "fold_result f u ys = fold_result g u ys" for u using Cons.IH [OF refl refl] Cons.prems(3) by simp
  then show ?case using Cons.prems by simp
qed simp

lemma decodeStrict_cong [fundef_cong]:
  "names = names' \<Longrightarrow> s = t \<Longrightarrow> j = j' \<Longrightarrow>
   (\<And>n k v u. (k, v) \<in> set (json_members j') \<Longrightarrow> put n v u = put' n v u) \<Longrightarrow>
   decodeStrict names put s j = decodeStrict names' put' t j'"
  by (cases j') (auto intro!: fold_result_cong split: option.splits)

lemma decode_array_cong [fundef_cong]:
  "j = j' \<Longrightarrow> (\<And>x. x \<in> set (json_elements j') \<Longrightarrow> dec x = dec' x) \<Longrightarrow> decode_array dec j = decode_array dec' j'"
  by (cases j') (auto intro!: arg_cong [where f = "\<lambda>r. and_then r _"] map_result_cong)

definition opt_member :: "string \<Rightarrow> ('a \<Rightarrow> json) \<Rightarrow> 'a option \<Rightarrow> (string \<times> json) list" where
  "opt_member name enc x = (case x of None \<Rightarrow> [] | Some v \<Rightarrow> [(name, enc v)])"

definition countPresent :: "bool list \<Rightarrow> nat" where
  "countPresent values = length (filter id values)"

definition derefString :: "string option \<Rightarrow> string" where
  "derefString s = (case s of None \<Rightarrow> '''' | Some t \<Rightarrow> t)"

section \<open>Inline items\<close>

definition inlineKinds :: "(InlineKind \<times> string) list" where
  "inlineKinds =
     [(InlineKindSiteVariable, ''site_variable''), (InlineKindText, ''text''), (InlineKindBold, ''bold''),
      (InlineKindItalic, ''italic''), (InlineKindUnderline, ''underline''), (InlineKindStrike, ''strike''),
      (InlineKindCode, ''code''), (InlineKindTextColor, ''text_color''), (InlineKindBackground, ''background_color''),
      (InlineKindLink, ''link''), (InlineKindHardBreak, ''hard_break''), (InlineKindMath, ''math''),
      (InlineKindPlaceholder, ''placeholder'')]"

definition inline_kind_name :: "InlineKind \<Rightarrow> string" where
  "inline_kind_name k = (case map_of inlineKinds k of
     Some s \<Rightarrow> s | None \<Rightarrow> (case k of InlineKindOther s \<Rightarrow> s | _ \<Rightarrow> ''''))"

definition inline_kind_of :: "string \<Rightarrow> InlineKind" where
  "inline_kind_of s = (case find (\<lambda>p. snd p = s) inlineKinds of Some p \<Rightarrow> fst p | None \<Rightarrow> InlineKindOther s)"

record 'c wireInlineItem =
  wiType :: InlineKind
  wiText :: "string option"
  wiKey :: "string option"
  wiLinked :: "bool option"
  wiExpression :: "string option"
  wiHandle :: "string option"
  wiURL :: "string option"
  wiColor :: "string option"
  wiContent :: "'c list option"

definition zeroWireInline :: "'c wireInlineItem" where
  "zeroWireInline = \<lparr>wiType = InlineKindOther '''', wiText = None, wiKey = None, wiLinked = None, wiExpression = None,
     wiHandle = None, wiURL = None, wiColor = None, wiContent = None\<rparr>"

text \<open>The children are already encoded when the wire struct is filled.\<close>

definition inline_wire :: "InlineItem \<Rightarrow> json list \<Rightarrow> json wireInlineItem result" where
  "inline_wire i content =
     (let w = zeroWireInline\<lparr>wiType := iKind i\<rparr> in
      case iKind i of
        InlineKindText \<Rightarrow> Inr (w\<lparr>wiText := Some (iText i)\<rparr>)
      | InlineKindSiteVariable \<Rightarrow>
          Inr (w\<lparr>wiKey := Some (iText i), wiLinked := (if iLinked i then Some True else None)\<rparr>)
      | InlineKindMath \<Rightarrow> Inr (w\<lparr>wiExpression := Some (iText i)\<rparr>)
      | InlineKindPlaceholder \<Rightarrow> Inr (w\<lparr>wiHandle := Some (iText i)\<rparr>)
      | InlineKindBold \<Rightarrow> Inr (w\<lparr>wiContent := Some content\<rparr>)
      | InlineKindItalic \<Rightarrow> Inr (w\<lparr>wiContent := Some content\<rparr>)
      | InlineKindUnderline \<Rightarrow> Inr (w\<lparr>wiContent := Some content\<rparr>)
      | InlineKindStrike \<Rightarrow> Inr (w\<lparr>wiContent := Some content\<rparr>)
      | InlineKindCode \<Rightarrow> Inr (w\<lparr>wiContent := Some content\<rparr>)
      | InlineKindTextColor \<Rightarrow> Inr (w\<lparr>wiColor := Some (iTarget i), wiContent := Some content\<rparr>)
      | InlineKindBackground \<Rightarrow> Inr (w\<lparr>wiColor := Some (iTarget i), wiContent := Some content\<rparr>)
      | InlineKindLink \<Rightarrow> Inr (w\<lparr>wiURL := Some (iTarget i), wiContent := Some content\<rparr>)
      | InlineKindHardBreak \<Rightarrow> Inr w
      | InlineKindOther _ \<Rightarrow> Inl (Err ''unsupported inline item type''))"

definition wire_inline_json :: "json wireInlineItem \<Rightarrow> json" where
  "wire_inline_json w = JObject (
     [(''type'', JString (inline_kind_name (wiType w)))] @ opt_member ''text'' JString (wiText w) @
     opt_member ''key'' JString (wiKey w) @ opt_member ''linked'' JBool (wiLinked w) @
     opt_member ''expression'' JString (wiExpression w) @ opt_member ''handle'' JString (wiHandle w) @
     opt_member ''url'' JString (wiURL w) @ opt_member ''color'' JString (wiColor w) @
     opt_member ''content'' JArray (wiContent w))"

fun InlineItem_MarshalJSON :: "(string \<Rightarrow> bool) \<Rightarrow> InlineItem \<Rightarrow> json result" where
  "InlineItem_MarshalJSON K i =
     guard_error (InlineItem_validate K 0 i)
       (and_then (map_result (InlineItem_MarshalJSON K) (iChildren i))
         (\<lambda>content. and_then (inline_wire i content) (\<lambda>w. Inr (wire_inline_json w))))"

definition inlineFields :: "string list" where
  "inlineFields = [''type'', ''text'', ''key'', ''linked'', ''expression'', ''handle'', ''url'', ''color'', ''content'']"

definition put_inline ::
    "(json \<Rightarrow> 'c result) \<Rightarrow> string \<Rightarrow> json \<Rightarrow> 'c wireInlineItem \<Rightarrow> 'c wireInlineItem result" where
  "put_inline dec n v w =
     (if n = ''type'' then and_then (decode_string v)
        (\<lambda>t. Inr (case t of None \<Rightarrow> w | Some s \<Rightarrow> w\<lparr>wiType := inline_kind_of s\<rparr>))
      else if n = ''text'' then and_then (decode_string v) (\<lambda>t. Inr (w\<lparr>wiText := t\<rparr>))
      else if n = ''key'' then and_then (decode_string v) (\<lambda>t. Inr (w\<lparr>wiKey := t\<rparr>))
      else if n = ''linked'' then and_then (decode_bool v) (\<lambda>b. Inr (w\<lparr>wiLinked := b\<rparr>))
      else if n = ''expression'' then and_then (decode_string v) (\<lambda>t. Inr (w\<lparr>wiExpression := t\<rparr>))
      else if n = ''handle'' then and_then (decode_string v) (\<lambda>t. Inr (w\<lparr>wiHandle := t\<rparr>))
      else if n = ''url'' then and_then (decode_string v) (\<lambda>t. Inr (w\<lparr>wiURL := t\<rparr>))
      else if n = ''color'' then and_then (decode_string v) (\<lambda>t. Inr (w\<lparr>wiColor := t\<rparr>))
      else and_then (decode_array dec v) (\<lambda>c. Inr (w\<lparr>wiContent := c\<rparr>)))"

lemma put_inline_cong [fundef_cong]:
  "n = n' \<Longrightarrow> v = v' \<Longrightarrow> w = w' \<Longrightarrow> (\<And>x. x \<in> set (json_elements v') \<Longrightarrow> dec x = dec' x) \<Longrightarrow>
   put_inline dec n v w = put_inline dec' n' v' w'"
  using decode_array_cong [of v' v' dec dec'] by (simp add: put_inline_def)

text \<open>The switch of \<open>UnmarshalJSON\<close>: which members the type takes, and the item they make.\<close>

definition inline_members :: "'c wireInlineItem \<Rightarrow> bool list" where
  "inline_members w = [wiText w \<noteq> None, wiKey w \<noteq> None, wiLinked w \<noteq> None, wiExpression w \<noteq> None, wiHandle w \<noteq> None,
     wiURL w \<noteq> None, wiColor w \<noteq> None, wiContent w \<noteq> None]"

definition wire_inline :: "InlineItem wireInlineItem \<Rightarrow> InlineItem result" where
  "wire_inline w =
     (let present = countPresent (inline_members w);
          children = (case wiContent w of None \<Rightarrow> [] | Some c \<Rightarrow> c);
          make_item = (\<lambda>valid linked t target. if valid then Inr (InlineItem linked (wiType w) t target children)
            else Inl (Err ''inline item has missing or extra fields''));
          mark = make_item (wiContent w \<noteq> None \<and> present = 1) False '''' '''';
          colored = make_item (wiColor w \<noteq> None \<and> wiContent w \<noteq> None \<and> present = 2) False '''' (derefString (wiColor w))
      in case wiType w of
        InlineKindText \<Rightarrow> make_item (wiText w \<noteq> None \<and> present = 1) False (derefString (wiText w)) ''''
      | InlineKindSiteVariable \<Rightarrow>
          if wiLinked w = Some False then Inl (Err ''site_variable linked must be true or left out'')
          else make_item (wiKey w \<noteq> None \<and> present = 1 + countPresent [wiLinked w \<noteq> None])
            (wiLinked w \<noteq> None) (derefString (wiKey w)) ''''
      | InlineKindMath \<Rightarrow> make_item (wiExpression w \<noteq> None \<and> present = 1) False (derefString (wiExpression w)) ''''
      | InlineKindPlaceholder \<Rightarrow> make_item (wiHandle w \<noteq> None \<and> present = 1) False (derefString (wiHandle w)) ''''
      | InlineKindBold \<Rightarrow> mark
      | InlineKindItalic \<Rightarrow> mark
      | InlineKindUnderline \<Rightarrow> mark
      | InlineKindStrike \<Rightarrow> mark
      | InlineKindCode \<Rightarrow> mark
      | InlineKindTextColor \<Rightarrow> colored
      | InlineKindBackground \<Rightarrow> colored
      | InlineKindLink \<Rightarrow> make_item (wiURL w \<noteq> None \<and> wiContent w \<noteq> None \<and> present = 2) False '''' (derefString (wiURL w))
      | InlineKindHardBreak \<Rightarrow> make_item (present = 0) False '''' ''''
      | InlineKindOther _ \<Rightarrow> Inl (Err ''unsupported inline item type''))"

fun InlineItem_UnmarshalJSON :: "(string \<Rightarrow> bool) \<Rightarrow> json \<Rightarrow> InlineItem result" where
  "InlineItem_UnmarshalJSON K j =
     and_then (decodeStrict inlineFields (put_inline (InlineItem_UnmarshalJSON K)) zeroWireInline j)
       (\<lambda>w. and_then (wire_inline w) (\<lambda>i. guard_error (InlineItem_validate K 0 i) (Inr i)))"

declare InlineItem_MarshalJSON.simps [simp del] InlineItem_UnmarshalJSON.simps [simp del]

section \<open>Values\<close>

definition valueKinds :: "(ValueKind \<times> string) list" where
  "valueKinds = [(ValueKindText, ''text''), (ValueKindBoolean, ''boolean''), (ValueKindNumber, ''number''),
     (ValueKindInline, ''rich_text''), (ValueKindList, ''list''), (ValueKindObject, ''object'')]"

definition value_kind_name :: "ValueKind \<Rightarrow> string" where
  "value_kind_name k = (case map_of valueKinds k of
     Some s \<Rightarrow> s | None \<Rightarrow> (case k of ValueKindOther s \<Rightarrow> s | _ \<Rightarrow> ''''))"

definition value_kind_of :: "string \<Rightarrow> ValueKind" where
  "value_kind_of s = (case find (\<lambda>p. snd p = s) valueKinds of Some p \<Rightarrow> fst p | None \<Rightarrow> ValueKindOther s)"

record ('i, 'l, 'f) wireValue =
  wvType :: ValueKind
  wvText :: "string option"
  wvNumber :: "string option"
  wvBoolean :: "bool option"
  wvContent :: "'i list option"
  wvItems :: "'l list option"
  wvFields :: "'f list option"

definition zeroWireValue :: "('i, 'l, 'f) wireValue" where
  "zeroWireValue = \<lparr>wvType = ValueKindOther '''', wvText = None, wvNumber = None, wvBoolean = None, wvContent = None,
     wvItems = None, wvFields = None\<rparr>"

definition value_wire :: "Value \<Rightarrow> json list \<Rightarrow> json list \<Rightarrow> json list \<Rightarrow> (json, json, json) wireValue" where
  "value_wire v content items fs =
     (let w = zeroWireValue\<lparr>wvType := vKind v\<rparr> in
      case vKind v of
        ValueKindBoolean \<Rightarrow> w\<lparr>wvBoolean := Some (vBoolean v)\<rparr>
      | ValueKindInline \<Rightarrow> w\<lparr>wvContent := Some content\<rparr>
      | ValueKindList \<Rightarrow> w\<lparr>wvItems := Some items\<rparr>
      | ValueKindObject \<Rightarrow> w\<lparr>wvFields := Some fs\<rparr>
      | ValueKindNumber \<Rightarrow> w\<lparr>wvNumber := Some (vText v)\<rparr>
      | _ \<Rightarrow> w\<lparr>wvText := Some (vText v)\<rparr>)"

definition wire_value_json :: "(json, json, json) wireValue \<Rightarrow> json" where
  "wire_value_json w = JObject (
     [(''type'', JString (value_kind_name (wvType w)))] @ opt_member ''text'' JString (wvText w) @
     opt_member ''number'' JString (wvNumber w) @ opt_member ''boolean'' JBool (wvBoolean w) @
     opt_member ''content'' JArray (wvContent w) @ opt_member ''items'' JArray (wvItems w) @
     opt_member ''fields'' JArray (wvFields w))"

text \<open>\<open>ListItem.MarshalJSON\<close> and \<open>marshalNamedField\<close>.\<close>

definition list_item_json :: "RelationItemID \<Rightarrow> json \<Rightarrow> json" where
  "list_item_json k v = JObject ((if k = '''' then [] else [(''item_id'', JString k)]) @ [(''value'', v)])"

definition marshalNamedField :: "FieldID \<Rightarrow> json \<Rightarrow> json" where
  "marshalNamedField k v = JObject [(''field'', JString k), (''value'', v)]"

fun Value_MarshalJSON :: "(string \<Rightarrow> bool) \<Rightarrow> Value \<Rightarrow> json result" where
  "Value_MarshalJSON K v =
     guard_error (Value_validate K v)
       (and_then (map_result (InlineItem_MarshalJSON K) (vInline v))
         (\<lambda>content. and_then (map_result (\<lambda>(k, w). and_then (Value_MarshalJSON K w) (\<lambda>j. Inr (list_item_json k j))) (vList v))
           (\<lambda>items. and_then (map_result (\<lambda>(k, w). and_then (Value_MarshalJSON K w) (\<lambda>j. Inr (marshalNamedField k j))) (vObject v))
             (\<lambda>fs. Inr (wire_value_json (value_wire v content items fs))))))"

text \<open>A struct of a name and a value; the value is a pointer, so null leaves it out.\<close>

definition put_named ::
    "string \<Rightarrow> (json \<Rightarrow> Value result) \<Rightarrow> string \<Rightarrow> json \<Rightarrow> string \<times> Value option \<Rightarrow> (string \<times> Value option) result" where
  "put_named name dec n v s =
     (if n = name then and_then (decode_string v) (\<lambda>t. Inr (case t of None \<Rightarrow> s | Some k \<Rightarrow> (k, snd s)))
      else if v = JNull then Inr (fst s, None)
      else and_then (dec v) (\<lambda>x. Inr (fst s, Some x)))"

definition ListItem_UnmarshalJSON :: "(json \<Rightarrow> Value result) \<Rightarrow> json \<Rightarrow> (RelationItemID \<times> Value) result" where
  "ListItem_UnmarshalJSON dec j =
     and_then (decodeStrict [''item_id'', ''value''] (put_named ''item_id'' dec) ('''', None) j)
       (\<lambda>(k, v). case v of None \<Rightarrow> Inl (Err ''list item needs value'') | Some x \<Rightarrow> Inr (k, x))"

definition unmarshalNamedField :: "(json \<Rightarrow> Value result) \<Rightarrow> json \<Rightarrow> (FieldID \<times> Value) result" where
  "unmarshalNamedField dec j =
     and_then (decodeStrict [''field'', ''value''] (put_named ''field'' dec) ('''', None) j)
       (\<lambda>(k, v). if k = '''' then Inl (Err ''field needs field and value'')
          else case v of None \<Rightarrow> Inl (Err ''field needs field and value'') | Some x \<Rightarrow> Inr (k, x))"

lemma named_cong [fundef_cong]:
  assumes "j = j'" and "\<And>k x. (k, x) \<in> set (json_members j') \<Longrightarrow> dec x = dec' x"
  shows "ListItem_UnmarshalJSON dec j = ListItem_UnmarshalJSON dec' j'" "unmarshalNamedField dec j = unmarshalNamedField dec' j'"
proof -
  have "decodeStrict names (put_named name dec) s j = decodeStrict names (put_named name dec') s j'" for names name s
    by (rule decodeStrict_cong) (use assms in \<open>auto simp: put_named_def\<close>)
  then show "ListItem_UnmarshalJSON dec j = ListItem_UnmarshalJSON dec' j'" "unmarshalNamedField dec j = unmarshalNamedField dec' j'"
    by (simp_all add: ListItem_UnmarshalJSON_def unmarshalNamedField_def)
qed

definition valueFields :: "string list" where
  "valueFields = [''type'', ''text'', ''number'', ''boolean'', ''content'', ''items'', ''fields'']"

definition put_value ::
    "(string \<Rightarrow> bool) \<Rightarrow> (json \<Rightarrow> Value result) \<Rightarrow> string \<Rightarrow> json \<Rightarrow>
      (InlineItem, RelationItemID \<times> Value, FieldID \<times> Value) wireValue \<Rightarrow>
      (InlineItem, RelationItemID \<times> Value, FieldID \<times> Value) wireValue result" where
  "put_value K dec n v w =
     (if n = ''type'' then and_then (decode_string v)
        (\<lambda>t. Inr (case t of None \<Rightarrow> w | Some s \<Rightarrow> w\<lparr>wvType := value_kind_of s\<rparr>))
      else if n = ''text'' then and_then (decode_string v) (\<lambda>t. Inr (w\<lparr>wvText := t\<rparr>))
      else if n = ''number'' then and_then (decode_string v) (\<lambda>t. Inr (w\<lparr>wvNumber := t\<rparr>))
      else if n = ''boolean'' then and_then (decode_bool v) (\<lambda>b. Inr (w\<lparr>wvBoolean := b\<rparr>))
      else if n = ''content'' then and_then (decode_array (InlineItem_UnmarshalJSON K) v) (\<lambda>c. Inr (w\<lparr>wvContent := c\<rparr>))
      else if n = ''items'' then and_then (decode_array (ListItem_UnmarshalJSON dec) v) (\<lambda>c. Inr (w\<lparr>wvItems := c\<rparr>))
      else and_then (decode_array (unmarshalNamedField dec) v) (\<lambda>c. Inr (w\<lparr>wvFields := c\<rparr>)))"

lemma put_value_cong [fundef_cong]:
  assumes "K = K'" "n = n'" "v = v'" "w = w'"
    and "\<And>x k y. x \<in> set (json_elements v') \<Longrightarrow> (k, y) \<in> set (json_members x) \<Longrightarrow> dec y = dec' y"
  shows "put_value K dec n v w = put_value K' dec' n' v' w'"
proof -
  have "decode_array (ListItem_UnmarshalJSON dec) v' = decode_array (ListItem_UnmarshalJSON dec') v'"
    "decode_array (unmarshalNamedField dec) v' = decode_array (unmarshalNamedField dec') v'"
    by (rule decode_array_cong [OF refl], rule named_cong [OF refl], erule (1) assms(5))+
  then show ?thesis using assms(1-4) by (simp add: put_value_def)
qed

definition value_members :: "('i, 'l, 'f) wireValue \<Rightarrow> bool list" where
  "value_members w = [wvText w \<noteq> None, wvNumber w \<noteq> None, wvBoolean w \<noteq> None, wvContent w \<noteq> None, wvItems w \<noteq> None,
     wvFields w \<noteq> None]"

definition one_payload :: "bool \<Rightarrow> 'a option \<Rightarrow> ('a \<Rightarrow> Value) \<Rightarrow> Value result" where
  "one_payload one x f =
     (case x of
        Some y \<Rightarrow> if one then Inr (f y) else Inl (Err ''value needs exactly its payload field'')
      | None \<Rightarrow> Inl (Err ''value needs exactly its payload field''))"

definition wire_value :: "(InlineItem, RelationItemID \<times> Value, FieldID \<times> Value) wireValue \<Rightarrow> Value result" where
  "wire_value w =
     (let one = (countPresent (value_members w) = 1) in
      case wvType w of
        ValueKindText \<Rightarrow> one_payload one (wvText w) TextValue
      | ValueKindNumber \<Rightarrow> one_payload one (wvNumber w) NumberValue
      | ValueKindBoolean \<Rightarrow> one_payload one (wvBoolean w) BooleanValue
      | ValueKindInline \<Rightarrow> one_payload one (wvContent w) RichText
      | ValueKindList \<Rightarrow> one_payload one (wvItems w) ListValue
      | ValueKindObject \<Rightarrow> one_payload one (wvFields w) ObjectOf
      | ValueKindOther _ \<Rightarrow> Inl (Err ''unsupported value type''))"

fun Value_UnmarshalJSON :: "(string \<Rightarrow> bool) \<Rightarrow> json \<Rightarrow> Value result" where
  "Value_UnmarshalJSON K j =
     and_then (decodeStrict valueFields (put_value K (Value_UnmarshalJSON K)) zeroWireValue j)
       (\<lambda>w. and_then (wire_value w) (\<lambda>v. guard_error (Value_validate K v) (Inr v)))"

declare Value_MarshalJSON.simps [simp del] Value_UnmarshalJSON.simps [simp del]

section \<open>Paths and operations\<close>

definition segment_json :: "FieldPathSegment \<Rightarrow> json result" where
  "segment_json s = guard_error (FieldPathSegment_validate s)
     (Inr (JObject ((if segField s = '''' then [] else [(''field'', JString (segField s))]) @
        (if segItem s = '''' then [] else [(''item_id'', JString (segItem s))]))))"

definition put_segment :: "string \<Rightarrow> json \<Rightarrow> FieldPathSegment \<Rightarrow> FieldPathSegment result" where
  "put_segment n v s = and_then (decode_string v)
     (\<lambda>t. Inr (case t of None \<Rightarrow> s | Some x \<Rightarrow> if n = ''field'' then s\<lparr>segField := x\<rparr> else s\<lparr>segItem := x\<rparr>))"

definition segment_of :: "json \<Rightarrow> FieldPathSegment result" where
  "segment_of j = and_then (decodeStrict [''field'', ''item_id''] put_segment \<lparr>segField = '''', segItem = ''''\<rparr> j)
     (\<lambda>s. guard_error (FieldPathSegment_validate s) (Inr s))"

definition operationKinds :: "(OperationKind \<times> string) list" where
  "operationKinds =
     [(OperationSetField, ''set_field''), (OperationUnsetField, ''unset_field''), (OperationInsertBlock, ''insert_block''),
      (OperationDeleteBlock, ''delete_block''), (OperationMoveBlock, ''move_block''),
      (OperationReplaceBlockKind, ''replace_block_kind''), (OperationInsertRelationItem, ''insert_relation_item''),
      (OperationDeleteRelationItem, ''delete_relation_item''), (OperationMoveRelationItem, ''move_relation_item''),
      (OperationAttachFile, ''attach_file''), (OperationDetachFile, ''detach_file''),
      (OperationCreateTranslation, ''create_translation''), (OperationDeleteTranslation, ''delete_translation'')]"

definition operation_kind_name :: "OperationKind \<Rightarrow> string" where
  "operation_kind_name k = (case map_of operationKinds k of
     Some s \<Rightarrow> s | None \<Rightarrow> (case k of OperationOther s \<Rightarrow> s | _ \<Rightarrow> ''''))"

definition operation_kind_of :: "string \<Rightarrow> OperationKind" where
  "operation_kind_of s = (case find (\<lambda>p. snd p = s) operationKinds of Some p \<Rightarrow> fst p | None \<Rightarrow> OperationOther s)"

record wireOperation =
  woOp :: OperationKind
  woBlock :: "BlockID option"
  woRelation :: "RelationID option"
  woItem :: "RelationItemID option"
  woField :: "FieldID option"
  woPath :: "FieldPathSegment list option"
  woValue :: "Value option"
  woFile :: "FileReference option"
  woKind :: "string option"
  woParent :: "BlockID option"
  woAfterBlock :: "BlockID option"
  woAfterItem :: "RelationItemID option"
  woTargetBlock :: "BlockID option"
  woTargetRelationID :: "RelationID option"

definition zeroWireOperation :: wireOperation where
  "zeroWireOperation = \<lparr>woOp = OperationOther '''', woBlock = None, woRelation = None, woItem = None, woField = None,
     woPath = None, woValue = None, woFile = None, woKind = None, woParent = None, woAfterBlock = None, woAfterItem = None,
     woTargetBlock = None, woTargetRelationID = None\<rparr>"

definition optionalHandle :: "string \<Rightarrow> string option" where
  "optionalHandle v = (if v = '''' then None else Some v)"

text \<open>A nil path and an empty one are the same in a target; both are left out of the JSON.\<close>

definition wireFieldOperation :: "OperationKind \<Rightarrow> FieldTarget \<Rightarrow> wireOperation" where
  "wireFieldOperation k t = zeroWireOperation\<lparr>woOp := k, woBlock := Some (tgtBlock t), woField := Some (tgtField t),
     woPath := (if tgtPath t = [] then None else Some (tgtPath t)), woRelation := optionalHandle (tgtRelation t),
     woItem := optionalHandle (tgtItem t)\<rparr>"

definition operation_wire :: "Operation \<Rightarrow> wireOperation result" where
  "operation_wire op =
     (let k = opKind op; w = zeroWireOperation\<lparr>woOp := k\<rparr> in
      case k of
        OperationSetField \<Rightarrow> deref (opSetField op) (\<lambda>p. Inr ((wireFieldOperation k (sfTarget p))\<lparr>woValue := Some (sfValue p)\<rparr>))
      | OperationUnsetField \<Rightarrow> deref (opUnsetField op) (\<lambda>t. Inr (wireFieldOperation k t))
      | OperationInsertBlock \<Rightarrow> deref (opInsertBlock op) (\<lambda>p. Inr (w\<lparr>woBlock := Some (ibBlock p), woKind := Some (ibKind p),
          woParent := optionalHandle (ibParent p), woAfterBlock := optionalHandle (ibAfter p)\<rparr>))
      | OperationDeleteBlock \<Rightarrow> deref (opDeleteBlock op) (\<lambda>b. Inr (w\<lparr>woBlock := Some b\<rparr>))
      | OperationMoveBlock \<Rightarrow> deref (opMoveBlock op) (\<lambda>p. Inr (w\<lparr>woBlock := Some (mbBlock p),
          woParent := optionalHandle (mbParent p), woAfterBlock := optionalHandle (mbAfter p)\<rparr>))
      | OperationReplaceBlockKind \<Rightarrow> deref (opReplaceBlockKind op) (\<lambda>p. Inr (w\<lparr>woBlock := Some (rbBlock p), woKind := Some (rbKind p)\<rparr>))
      | OperationInsertRelationItem \<Rightarrow> deref (opInsertRelationItem op) (\<lambda>p. Inr (w\<lparr>woBlock := Some (iriBlock p),
          woRelation := Some (iriRelation p), woItem := Some (iriItem p), woKind := Some (iriKind p),
          woAfterItem := optionalHandle (iriAfter p)\<rparr>))
      | OperationDeleteRelationItem \<Rightarrow> deref (opDeleteRelationItem op) (\<lambda>p. Inr (w\<lparr>woBlock := Some (driBlock p),
          woRelation := Some (driRelation p), woItem := Some (driItem p)\<rparr>))
      | OperationMoveRelationItem \<Rightarrow> deref (opMoveRelationItem op) (\<lambda>p. Inr (w\<lparr>woBlock := Some (mriBlock p),
          woRelation := Some (mriRelation p), woItem := Some (mriItem p), woTargetBlock := Some (mriTargetBlock p),
          woTargetRelationID := Some (mriTarget p), woAfterItem := optionalHandle (mriAfter p)\<rparr>))
      | OperationAttachFile \<Rightarrow> deref (opAttachFile op) (\<lambda>p. Inr ((wireFieldOperation k (afTarget p))\<lparr>woFile := Some (afFile p)\<rparr>))
      | OperationDetachFile \<Rightarrow> deref (opDetachFile op) (\<lambda>t. Inr (wireFieldOperation k t))
      | OperationCreateTranslation \<Rightarrow> Inr w
      | OperationDeleteTranslation \<Rightarrow> Inr w
      | OperationOther _ \<Rightarrow> Inl (Err ''unsupported operation''))"

definition map_option_result :: "('a \<Rightarrow> 'b result) \<Rightarrow> 'a option \<Rightarrow> 'b option result" where
  "map_option_result f x = (case x of None \<Rightarrow> Inr None | Some y \<Rightarrow> and_then (f y) (\<lambda>z. Inr (Some z)))"

definition wire_operation_json :: "(string \<Rightarrow> bool) \<Rightarrow> wireOperation \<Rightarrow> json result" where
  "wire_operation_json K w =
     and_then (map_option_result (map_result segment_json) (woPath w))
       (\<lambda>path. and_then (map_option_result (Value_MarshalJSON K) (woValue w))
         (\<lambda>v. Inr (JObject (
            [(''op'', JString (operation_kind_name (woOp w)))] @ opt_member ''block_id'' JString (woBlock w) @
            opt_member ''relation_id'' JString (woRelation w) @ opt_member ''item_id'' JString (woItem w) @
            opt_member ''field'' JString (woField w) @ opt_member ''path'' JArray path @ opt_member ''value'' id v @
            opt_member ''file_id'' JString (woFile w) @ opt_member ''kind'' JString (woKind w) @
            opt_member ''parent_block_id'' JString (woParent w) @ opt_member ''after_block_id'' JString (woAfterBlock w) @
            opt_member ''after_item_id'' JString (woAfterItem w) @ opt_member ''target_block_id'' JString (woTargetBlock w) @
            opt_member ''target_relation_id'' JString (woTargetRelationID w)))))"

definition Operation_MarshalJSON :: "(string \<Rightarrow> bool) \<Rightarrow> Operation \<Rightarrow> json result" where
  "Operation_MarshalJSON K op =
     guard_error (validateShape op) (and_then (operation_wire op) (wire_operation_json K))"

definition operationFields :: "string list" where
  "operationFields = [''op'', ''block_id'', ''relation_id'', ''item_id'', ''field'', ''path'', ''value'', ''file_id'', ''kind'',
     ''parent_block_id'', ''after_block_id'', ''after_item_id'', ''target_block_id'', ''target_relation_id'']"

definition put_operation :: "(string \<Rightarrow> bool) \<Rightarrow> string \<Rightarrow> json \<Rightarrow> wireOperation \<Rightarrow> wireOperation result" where
  "put_operation K n v w =
     (if n = ''op'' then and_then (decode_string v)
        (\<lambda>t. Inr (case t of None \<Rightarrow> w | Some s \<Rightarrow> w\<lparr>woOp := operation_kind_of s\<rparr>))
      else if n = ''path'' then and_then (decode_array segment_of v) (\<lambda>p. Inr (w\<lparr>woPath := p\<rparr>))
      else if n = ''value'' then
        (if v = JNull then Inr (w\<lparr>woValue := None\<rparr>)
         else and_then (Value_UnmarshalJSON K v) (\<lambda>x. Inr (w\<lparr>woValue := Some x\<rparr>)))
      else and_then (decode_string v)
        (\<lambda>t. Inr (if n = ''block_id'' then w\<lparr>woBlock := t\<rparr>
           else if n = ''relation_id'' then w\<lparr>woRelation := t\<rparr>
           else if n = ''item_id'' then w\<lparr>woItem := t\<rparr>
           else if n = ''field'' then w\<lparr>woField := t\<rparr>
           else if n = ''file_id'' then w\<lparr>woFile := t\<rparr>
           else if n = ''kind'' then w\<lparr>woKind := t\<rparr>
           else if n = ''parent_block_id'' then w\<lparr>woParent := t\<rparr>
           else if n = ''after_block_id'' then w\<lparr>woAfterBlock := t\<rparr>
           else if n = ''after_item_id'' then w\<lparr>woAfterItem := t\<rparr>
           else if n = ''target_block_id'' then w\<lparr>woTargetBlock := t\<rparr>
           else w\<lparr>woTargetRelationID := t\<rparr>)))"

definition presentFields :: "wireOperation \<Rightarrow> string list" where
  "presentFields w = map fst (filter snd
     [(''block_id'', woBlock w \<noteq> None), (''relation_id'', woRelation w \<noteq> None), (''item_id'', woItem w \<noteq> None),
      (''field'', woField w \<noteq> None), (''path'', woPath w \<noteq> None), (''value'', woValue w \<noteq> None),
      (''file_id'', woFile w \<noteq> None), (''kind'', woKind w \<noteq> None), (''parent_block_id'', woParent w \<noteq> None),
      (''after_block_id'', woAfterBlock w \<noteq> None), (''after_item_id'', woAfterItem w \<noteq> None),
      (''target_block_id'', woTargetBlock w \<noteq> None), (''target_relation_id'', woTargetRelationID w \<noteq> None)])"

definition wireOperationOptionalFields :: "OperationKind \<Rightarrow> string list" where
  "wireOperationOptionalFields k =
     (if k \<in> {OperationSetField, OperationUnsetField, OperationAttachFile, OperationDetachFile}
        then [''relation_id'', ''item_id'', ''path'']
      else if k \<in> {OperationInsertBlock, OperationMoveBlock} then [''parent_block_id'', ''after_block_id'']
      else if k \<in> {OperationInsertRelationItem, OperationMoveRelationItem} then [''after_item_id'']
      else [])"

definition require :: "wireOperation \<Rightarrow> string list \<Rightarrow> error option" where
  "require w required = first_error
     [check_all (\<lambda>f. fail_if (f \<notin> set (presentFields w)) ''operation needs a field'') required,
      check_all (\<lambda>f. fail_if (f \<notin> set required \<and> f \<notin> set (wireOperationOptionalFields (woOp w)))
        ''operation does not take a field'') (presentFields w)]"

definition requiredFields :: "OperationKind \<Rightarrow> string list" where
  "requiredFields k =
     (case k of
        OperationSetField \<Rightarrow> [''block_id'', ''field'', ''value'']
      | OperationAttachFile \<Rightarrow> [''block_id'', ''field'', ''file_id'']
      | OperationUnsetField \<Rightarrow> [''block_id'', ''field'']
      | OperationDetachFile \<Rightarrow> [''block_id'', ''field'']
      | OperationInsertBlock \<Rightarrow> [''block_id'', ''kind'']
      | OperationReplaceBlockKind \<Rightarrow> [''block_id'', ''kind'']
      | OperationDeleteBlock \<Rightarrow> [''block_id'']
      | OperationMoveBlock \<Rightarrow> [''block_id'']
      | OperationInsertRelationItem \<Rightarrow> [''block_id'', ''relation_id'', ''item_id'', ''kind'']
      | OperationDeleteRelationItem \<Rightarrow> [''block_id'', ''relation_id'', ''item_id'']
      | OperationMoveRelationItem \<Rightarrow> [''block_id'', ''relation_id'', ''item_id'', ''target_block_id'', ''target_relation_id'']
      | _ \<Rightarrow> [])"

definition handleOrEmpty :: "string option \<Rightarrow> string" where
  "handleOrEmpty v = (case v of None \<Rightarrow> '''' | Some s \<Rightarrow> s)"

definition fieldTarget :: "wireOperation \<Rightarrow> FieldTarget" where
  "fieldTarget w = \<lparr>tgtBlock = handleOrEmpty (woBlock w), tgtRelation = handleOrEmpty (woRelation w),
     tgtItem = handleOrEmpty (woItem w), tgtField = handleOrEmpty (woField w),
     tgtPath = (case woPath w of None \<Rightarrow> [] | Some p \<Rightarrow> p)\<rparr>"

definition operation :: "wireOperation \<Rightarrow> Operation result" where
  "operation w =
     (case woOp w of
        OperationOther _ \<Rightarrow> Inl (Err ''unsupported operation'')
      | k \<Rightarrow> guard_error (require w (requiredFields k))
          (if woPath w = Some [] then Inl (Err ''field path must not be empty; omit it for a whole-field operation'')
           else (let block = handleOrEmpty (woBlock w) in
             case k of
               OperationSetField \<Rightarrow> deref (woValue w) (\<lambda>v. Inr (SetFieldTo (fieldTarget w) v))
             | OperationUnsetField \<Rightarrow> Inr (UnsetFieldAt (fieldTarget w))
             | OperationAttachFile \<Rightarrow> deref (woFile w) (\<lambda>f. Inr (AttachFileTo (fieldTarget w) f))
             | OperationDetachFile \<Rightarrow> Inr (DetachFileAt (fieldTarget w))
             | OperationInsertBlock \<Rightarrow> deref (woKind w)
                 (\<lambda>kind. Inr (InsertBlockOperation block kind (handleOrEmpty (woParent w)) (handleOrEmpty (woAfterBlock w))))
             | OperationDeleteBlock \<Rightarrow> Inr (DeleteBlockOperation block)
             | OperationMoveBlock \<Rightarrow> Inr (MoveBlockOperation block (handleOrEmpty (woParent w)) (handleOrEmpty (woAfterBlock w)))
             | OperationReplaceBlockKind \<Rightarrow> deref (woKind w) (\<lambda>kind. Inr (ReplaceBlockKindOperation block kind))
             | OperationInsertRelationItem \<Rightarrow> deref (woRelation w) (\<lambda>rel. deref (woItem w) (\<lambda>item. deref (woKind w)
                 (\<lambda>kind. Inr (InsertRelationItemOperation block rel item kind (handleOrEmpty (woAfterItem w))))))
             | OperationDeleteRelationItem \<Rightarrow> deref (woRelation w) (\<lambda>rel. deref (woItem w)
                 (\<lambda>item. Inr (DeleteRelationItemOperation block rel item)))
             | OperationMoveRelationItem \<Rightarrow> deref (woRelation w) (\<lambda>rel. deref (woItem w) (\<lambda>item. deref (woTargetBlock w)
                 (\<lambda>tb. deref (woTargetRelationID w)
                   (\<lambda>tr. Inr (MoveRelationItemOperation block rel item tb tr (handleOrEmpty (woAfterItem w)))))))
             | OperationCreateTranslation \<Rightarrow> Inr CreateTranslationOperation
             | _ \<Rightarrow> Inr DeleteTranslationOperation)))"

definition Operation_UnmarshalJSON :: "(string \<Rightarrow> bool) \<Rightarrow> json \<Rightarrow> Operation result" where
  "Operation_UnmarshalJSON K j =
     and_then (decodeStrict operationFields (put_operation K) zeroWireOperation j)
       (\<lambda>w. and_then (operation w) (\<lambda>op. guard_error (validateShape op) (Inr op)))"

section \<open>Requests\<close>

definition EncodeApplyRequest :: "(string \<Rightarrow> bool) \<Rightarrow> ApplyRequest \<Rightarrow> json result" where
  "EncodeApplyRequest K r =
     guard_error (validateEnvelope r)
       (guard_error (validateCanonicalOperations K (arOperations r))
         (and_then (map_result (Operation_MarshalJSON K) (arOperations r))
           (\<lambda>ops. Inr (JObject (
              [(''document_type'', JString (arProfile r)), (''document_id'', JString (arDocument r)),
               (''locale'', JString (arLocale r)),
               (''expected_document_revision'', JString (arExpectedDocumentRevision r))] @
              opt_member ''expected_target_revision'' JString (arExpectedTargetRevision r) @
              [(''operations'', JArray ops)])))))"

definition requestFields :: "string list" where
  "requestFields = [''document_type'', ''document_id'', ''locale'', ''expected_document_revision'',
     ''expected_target_revision'', ''operations'']"

definition put_request :: "(string \<Rightarrow> bool) \<Rightarrow> string \<Rightarrow> json \<Rightarrow> ApplyRequest \<Rightarrow> ApplyRequest result" where
  "put_request K n v r =
     (if n = ''operations'' then and_then (decode_array (Operation_UnmarshalJSON K) v)
        (\<lambda>ops. Inr (r\<lparr>arOperations := (case ops of None \<Rightarrow> [] | Some xs \<Rightarrow> xs)\<rparr>))
      else and_then (decode_string v)
        (\<lambda>t. Inr (if n = ''expected_target_revision'' then r\<lparr>arExpectedTargetRevision := t\<rparr>
           else case t of
               None \<Rightarrow> r
             | Some s \<Rightarrow>
                 if n = ''document_type'' then r\<lparr>arProfile := s\<rparr>
                 else if n = ''document_id'' then r\<lparr>arDocument := s\<rparr>
                 else if n = ''locale'' then r\<lparr>arLocale := s\<rparr>
                 else r\<lparr>arExpectedDocumentRevision := s\<rparr>)))"

definition zeroRequest :: ApplyRequest where
  "zeroRequest = \<lparr>arProtocol = '''', arProfile = '''', arDocument = '''', arLocale = '''', arExpectedDocumentRevision = '''',
     arExpectedTargetRevision = None, arOperations = []\<rparr>"

definition DecodeApplyRequest :: "(string \<Rightarrow> bool) \<Rightarrow> json \<Rightarrow> ApplyRequest result" where
  "DecodeApplyRequest K j =
     and_then (decodeStrict requestFields (put_request K) zeroRequest j)
       (\<lambda>r. let r' = r\<lparr>arProtocol := ProtocolVersion\<rparr> in
          guard_error (validateEnvelope r')
            (guard_error (validateCanonicalOperations K (arOperations r')) (Inr r')))"

end
