(* ===== verification/Wire_Correct.thy ===== *)
theory Wire_Correct
  imports Wire
begin

text \<open>
  Decoding what was encoded gives it back: inline items, values, operations and whole requests. The one
  thing the wire loses is the boolean of a value of another kind, which validation does not look at.
\<close>

section \<open>Structs\<close>

lemma decode_members:
  "fst ` set ms \<subseteq> set names \<Longrightarrow>
   decodeStrict names put s (JObject ms) = fold_result (\<lambda>s (k, v). put k v s) s ms"
  by (auto intro!: fold_result_cong simp: member_field_def split: option.splits)

lemma opt_member_simps [simp]: "opt_member n f None = []" "opt_member n f (Some x) = [(n, f x)]"
  by (simp_all add: opt_member_def)

lemma map_result_inverse:
  assumes "\<And>x. x \<in> set xs \<Longrightarrow> \<exists>j. f x = Inr j \<and> g j = Inr (h x)"
  shows "\<exists>js. map_result f xs = Inr js \<and> map_result g js = Inr (map h xs)"
  using assms
proof (induction xs)
  case (Cons x xs)
  obtain j where "f x = Inr j" "g j = Inr (h x)" using Cons.prems [of x] by auto
  moreover obtain js where "map_result f xs = Inr js" "map_result g js = Inr (map h xs)" using Cons by auto
  ultimately show ?case by auto
qed simp

section \<open>Inline items\<close>

lemma inline_kind_roundtrip:
  "(case k of InlineKindOther _ \<Rightarrow> False | _ \<Rightarrow> True) \<Longrightarrow> inline_kind_of (inline_kind_name k) = k"
  by (cases k) (simp_all add: inline_kind_of_def inline_kind_name_def inlineKinds_def)

lemma InlineItem_validate_shallower:
  "InlineItem_validate K (Suc d) i = None \<Longrightarrow> InlineItem_validate K d i = None"
proof (induction i arbitrary: d)
  case (InlineItem l k t target cs)
  have "check_all (InlineItem_validate K (Suc d)) cs = None" if "check_all (InlineItem_validate K (Suc (Suc d))) cs = None"
    using that InlineItem.IH by (auto simp: check_all_None)
  then show ?case using InlineItem.prems
    by (auto simp: InlineItem_validate.simps [of K d] InlineItem_validate.simps [of K "Suc d"] validateChildren_def
        split: if_splits option.splits)
qed

lemma InlineItem_children_valid:
  "InlineItem_validate K 0 i = None \<Longrightarrow> c \<in> set (iChildren i) \<Longrightarrow> InlineItem_validate K 0 c = None"
  by (auto simp: InlineItem_validate.simps [of K 0 i] validateChildren_def check_all_None
      split: if_splits option.splits intro: InlineItem_validate_shallower)

text \<open>The parts of an item that its kind does not carry are empty.\<close>

lemma InlineItem_valid_shape:
  assumes "InlineItem_validate K d (InlineItem l k t target cs) = None"
  shows "case k of
      InlineKindSiteVariable \<Rightarrow> target = '''' \<and> cs = []
    | InlineKindText \<Rightarrow> \<not> l \<and> target = '''' \<and> cs = []
    | InlineKindMath \<Rightarrow> \<not> l \<and> target = '''' \<and> cs = []
    | InlineKindPlaceholder \<Rightarrow> \<not> l \<and> target = '''' \<and> cs = []
    | InlineKindHardBreak \<Rightarrow> \<not> l \<and> t = '''' \<and> target = '''' \<and> cs = []
    | InlineKindTextColor \<Rightarrow> \<not> l \<and> t = ''''
    | InlineKindBackground \<Rightarrow> \<not> l \<and> t = ''''
    | InlineKindLink \<Rightarrow> \<not> l \<and> t = ''''
    | InlineKindOther _ \<Rightarrow> False
    | _ \<Rightarrow> \<not> l \<and> t = '''' \<and> target = ''''"
  using assms by (cases k) (auto simp: InlineItem_validate.simps validateChildren_def split: if_splits option.splits)

lemma put_inline_simps [simp]:
  "put_inline dec ''type'' (JString s) w = Inr (w\<lparr>wiType := inline_kind_of s\<rparr>)"
  "put_inline dec ''text'' (JString s) w = Inr (w\<lparr>wiText := Some s\<rparr>)"
  "put_inline dec ''key'' (JString s) w = Inr (w\<lparr>wiKey := Some s\<rparr>)"
  "put_inline dec ''linked'' (JBool b) w = Inr (w\<lparr>wiLinked := Some b\<rparr>)"
  "put_inline dec ''expression'' (JString s) w = Inr (w\<lparr>wiExpression := Some s\<rparr>)"
  "put_inline dec ''handle'' (JString s) w = Inr (w\<lparr>wiHandle := Some s\<rparr>)"
  "put_inline dec ''url'' (JString s) w = Inr (w\<lparr>wiURL := Some s\<rparr>)"
  "put_inline dec ''color'' (JString s) w = Inr (w\<lparr>wiColor := Some s\<rparr>)"
  "put_inline dec ''content'' (JArray js) w = and_then (map_result dec js) (\<lambda>c. Inr (w\<lparr>wiContent := Some c\<rparr>))"
  by (simp_all add: put_inline_def and_then_def split: sum.splits)

definition inline_decoded ::
    "(json \<Rightarrow> InlineItem result) \<Rightarrow> json wireInlineItem \<Rightarrow> InlineItem wireInlineItem result" where
  "inline_decoded dec w = decodeStrict inlineFields (put_inline dec) zeroWireInline (wire_inline_json w)"

lemma inline_members_known: "fst ` set (json_members (wire_inline_json w)) \<subseteq> set inlineFields"
  by (auto simp: wire_inline_json_def inlineFields_def opt_member_def split: option.splits)

lemma inline_decoded_fold:
  "inline_decoded dec w =
     fold_result (\<lambda>s (k, v). put_inline dec k v s) zeroWireInline (json_members (wire_inline_json w))"
  using inline_members_known [of w] unfolding inline_decoded_def wire_inline_json_def json_members.simps
  by (rule decode_members)

lemma inline_wire_roundtrip:
  assumes v: "InlineItem_validate K 0 i = None" and c: "map_result dec content = Inr (iChildren i)"
  shows "\<exists>w w'. inline_wire i content = Inr w \<and> inline_decoded dec w = Inr w' \<and> wire_inline w' = Inr i"
proof (cases i)
  case (InlineItem l k t target cs)
  note shape = InlineItem_valid_shape [OF v [unfolded InlineItem]]
  note c' = c [unfolded InlineItem InlineItem.sel]
  note simps = InlineItem inline_wire_def wire_inline_json_def zeroWireInline_def wire_inline_def inline_decoded_fold
    inline_members_def countPresent_def derefString_def inline_kind_roundtrip Let_def
  show ?thesis
    using shape c' by (cases k; cases l) (auto simp: simps)
qed

lemma InlineItem_roundtrip:
  "InlineItem_validate K 0 i = None \<Longrightarrow> \<exists>j. InlineItem_MarshalJSON K i = Inr j \<and> InlineItem_UnmarshalJSON K j = Inr i"
proof (induction i rule: measure_induct_rule [where f = size])
  case (less i)
  have "\<exists>js. map_result (InlineItem_MarshalJSON K) (iChildren i) = Inr js \<and>
      map_result (InlineItem_UnmarshalJSON K) js = Inr (map (\<lambda>x. x) (iChildren i))"
    by (rule map_result_inverse) (use less size_iChildren InlineItem_children_valid in blast)
  then obtain js where m: "map_result (InlineItem_MarshalJSON K) (iChildren i) = Inr js"
    and u: "map_result (InlineItem_UnmarshalJSON K) js = Inr (iChildren i)" by auto
  from inline_wire_roundtrip [OF less.prems u] show ?case
    using m less.prems
    by (auto simp: InlineItem_MarshalJSON.simps [of K i] InlineItem_UnmarshalJSON.simps [of K "wire_inline_json _"] inline_decoded_def)
qed

section \<open>Values\<close>

lemma value_kind_roundtrip:
  "(case k of ValueKindOther _ \<Rightarrow> False | _ \<Rightarrow> True) \<Longrightarrow> value_kind_of (value_kind_name k) = k"
  by (cases k) (simp_all add: value_kind_of_def value_kind_name_def valueKinds_def)

text \<open>What the wire carries of a value: the boolean of a value that is not a boolean is lost.\<close>

fun wire_part :: "Value \<Rightarrow> Value" where
  "wire_part (Value k t b i l m) = Value k t (b \<and> k = ValueKindBoolean) i
     (map (\<lambda>(k, w). (k, wire_part w)) l) (map (\<lambda>(k, w). (k, wire_part w)) m)"

lemma wire_part_sel [simp]:
  "vKind (wire_part v) = vKind v" "vText (wire_part v) = vText v" "vInline (wire_part v) = vInline v"
  "vList (wire_part v) = map (\<lambda>(k, w). (k, wire_part w)) (vList v)"
  "vObject (wire_part v) = map (\<lambda>(k, w). (k, wire_part w)) (vObject v)"
  "vBoolean (wire_part v) = (vBoolean v \<and> vKind v = ValueKindBoolean)"
  by (cases v; simp)+

lemma validate_contents_map:
  assumes "\<And>k w. (k, w) \<in> set xs \<Longrightarrow> check w = None \<Longrightarrow> check' (h w) = None"
  shows "validateListItems check xs = None \<Longrightarrow> validateListItems check' (map (\<lambda>(k, w). (k, h w)) xs) = None"
    "validateObjectFields check xs = None \<Longrightarrow> validateObjectFields check' (map (\<lambda>(k, w). (k, h w)) xs) = None"
proof -
  have keys: "map fst (map (\<lambda>(k, w). (k, h w)) xs) = map fst xs" by (simp add: case_prod_beta comp_def)
  show "validateListItems check' (map (\<lambda>(k, w). (k, h w)) xs) = None" if "validateListItems check xs = None"
    using that assms unfolding validateListItems_None keys by auto
  show "validateObjectFields check' (map (\<lambda>(k, w). (k, h w)) xs) = None" if "validateObjectFields check xs = None"
    using that assms unfolding validateObjectFields_None keys by auto
qed

lemma validateDepth_shallower: "validateDepth K (Suc d) v = None \<Longrightarrow> validateDepth K d v = None"
proof (induction v arbitrary: d rule: Value_tree_induct)
  case (Value v)
  note l = validate_contents_map(1) [of "vList v" "validateDepth K (Suc (Suc d))" "validateDepth K (Suc d)" "\<lambda>w. w"]
    and m = validate_contents_map(2) [of "vObject v" "validateDepth K (Suc (Suc d))" "validateDepth K (Suc d)" "\<lambda>w. w"]
  show ?case using Value.prems Value.IH l m
    by (auto simp: validateDepth.simps [of K d v] validateDepth.simps [of K "Suc d" v] split: if_splits)
qed

lemma validateDepth_wire_part: "validateDepth K d v = None \<Longrightarrow> validateDepth K d (wire_part v) = None"
proof (induction v arbitrary: d rule: Value_tree_induct)
  case (Value v)
  note l = validate_contents_map(1) [of "vList v" "validateDepth K (Suc d)" "validateDepth K (Suc d)" wire_part]
    and m = validate_contents_map(2) [of "vObject v" "validateDepth K (Suc d)" "validateDepth K (Suc d)" wire_part]
  show ?case using Value.prems Value.IH l m
    by (auto simp: validateDepth.simps [of K d v] validateDepth.simps [of K d "wire_part v"] split: if_splits)
qed

text \<open>The parts of a value that its kind does not carry are empty, and what it contains is valid.\<close>

lemma Value_valid_shape:
  assumes "Value_validate K v = None"
  shows "case vKind v of
      ValueKindText \<Rightarrow> vInline v = [] \<and> vList v = [] \<and> vObject v = []
    | ValueKindBoolean \<Rightarrow> vText v = '''' \<and> vInline v = [] \<and> vList v = [] \<and> vObject v = []
    | ValueKindNumber \<Rightarrow> vInline v = [] \<and> vList v = [] \<and> vObject v = []
    | ValueKindInline \<Rightarrow> vText v = '''' \<and> vList v = [] \<and> vObject v = []
    | ValueKindList \<Rightarrow> vText v = '''' \<and> vInline v = [] \<and> vObject v = []
    | ValueKindObject \<Rightarrow> vText v = '''' \<and> vInline v = [] \<and> vList v = []
    | ValueKindOther _ \<Rightarrow> False"
  using assms by (cases "vKind v") (auto simp: Value_validate_def validateDepth.simps [of K 0 v] split: if_splits)

lemma Value_parts_valid:
  assumes v: "Value_validate K v = None"
  shows "i \<in> set (vInline v) \<Longrightarrow> InlineItem_validate K 0 i = None"
    "(k, w) \<in> set (vList v) \<Longrightarrow> Value_validate K w = None"
    "(k, w) \<in> set (vObject v) \<Longrightarrow> Value_validate K w = None \<and> k \<noteq> ''''"
proof -
  note shape = Value_valid_shape [OF v] and d = v [unfolded Value_validate_def validateDepth.simps [of K 0 v]]
  show "InlineItem_validate K 0 i = None" if "i \<in> set (vInline v)"
    using shape d that by (cases "vKind v") (auto simp: ValidateInlineItems_def check_all_None)
  show "Value_validate K w = None" if "(k, w) \<in> set (vList v)"
    using shape d that by (cases "vKind v") (auto simp: validateListItems_None Value_validate_def intro: validateDepth_shallower)
  show "Value_validate K w = None \<and> k \<noteq> ''''" if "(k, w) \<in> set (vObject v)"
    using shape d that by (cases "vKind v")
      (auto simp: validateObjectFields_None Value_validate_def intro: validateDepth_shallower dest: validateStableID_nonempty)
qed

lemma put_value_simps [simp]:
  "put_value K dec ''type'' (JString s) w = Inr (w\<lparr>wvType := value_kind_of s\<rparr>)"
  "put_value K dec ''text'' (JString s) w = Inr (w\<lparr>wvText := Some s\<rparr>)"
  "put_value K dec ''number'' (JString s) w = Inr (w\<lparr>wvNumber := Some s\<rparr>)"
  "put_value K dec ''boolean'' (JBool b) w = Inr (w\<lparr>wvBoolean := Some b\<rparr>)"
  "put_value K dec ''content'' (JArray js) w = and_then (map_result (InlineItem_UnmarshalJSON K) js) (\<lambda>c. Inr (w\<lparr>wvContent := Some c\<rparr>))"
  "put_value K dec ''items'' (JArray js) w = and_then (map_result (ListItem_UnmarshalJSON dec) js) (\<lambda>c. Inr (w\<lparr>wvItems := Some c\<rparr>))"
  "put_value K dec ''fields'' (JArray js) w = and_then (map_result (unmarshalNamedField dec) js) (\<lambda>c. Inr (w\<lparr>wvFields := Some c\<rparr>))"
  by (simp_all add: put_value_def and_then_def split: sum.splits)

definition value_decoded ::
    "(string \<Rightarrow> bool) \<Rightarrow> (json \<Rightarrow> Value result) \<Rightarrow> (json, json, json) wireValue \<Rightarrow>
      (InlineItem, RelationItemID \<times> Value, FieldID \<times> Value) wireValue result" where
  "value_decoded K dec w = decodeStrict valueFields (put_value K dec) zeroWireValue (wire_value_json w)"

lemma value_members_known: "fst ` set (json_members (wire_value_json w)) \<subseteq> set valueFields"
  by (auto simp: wire_value_json_def valueFields_def opt_member_def split: option.splits)

lemma value_decoded_fold:
  "value_decoded K dec w = fold_result (\<lambda>s (k, v). put_value K dec k v s) zeroWireValue (json_members (wire_value_json w))"
  using value_members_known [of w] unfolding value_decoded_def wire_value_json_def json_members.simps
  by (rule decode_members)

lemma value_wire_roundtrip:
  assumes v: "Value_validate K v = None"
    and "map_result (InlineItem_UnmarshalJSON K) content = Inr (vInline v)"
    and "map_result (ListItem_UnmarshalJSON dec) items = Inr (vList (wire_part v))"
    and "map_result (unmarshalNamedField dec) fs = Inr (vObject (wire_part v))"
  shows "\<exists>w. value_decoded K dec (value_wire v content items fs) = Inr w \<and> wire_value w = Inr (wire_part v)"
proof (cases v)
  case (Value k t b i l m)
  note shape = Value_valid_shape [OF v, unfolded Value Value.sel]
  note parts = assms(2-4) [unfolded Value wire_part.simps Value.sel]
  note simps = Value value_wire_def wire_value_json_def zeroWireValue_def wire_value_def value_decoded_fold
    value_members_def countPresent_def one_payload_def value_kind_roundtrip value_constructors Let_def
  show ?thesis using shape parts by (cases k) (simp_all add: simps)
qed

lemma named_roundtrip:
  "dec j = Inr x \<Longrightarrow> j \<noteq> JNull \<Longrightarrow> ListItem_UnmarshalJSON dec (list_item_json k j) = Inr (k, x)"
  "dec j = Inr x \<Longrightarrow> j \<noteq> JNull \<Longrightarrow> k \<noteq> '''' \<Longrightarrow> unmarshalNamedField dec (marshalNamedField k j) = Inr (k, x)"
  by (simp_all add: ListItem_UnmarshalJSON_def unmarshalNamedField_def list_item_json_def marshalNamedField_def
      member_field_def put_named_def)

lemma wire_value_object: "wire_value_json w \<noteq> JNull"
  by (simp add: wire_value_json_def)

lemma Value_roundtrip:
  "Value_validate K v = None \<Longrightarrow>
   \<exists>j. Value_MarshalJSON K v = Inr j \<and> j \<noteq> JNull \<and> Value_UnmarshalJSON K j = Inr (wire_part v)"
proof (induction v rule: Value_tree_induct)
  case (Value v)
  let ?enc = "\<lambda>wrap. \<lambda>(k, w). and_then (Value_MarshalJSON K w) (\<lambda>j. Inr (wrap k j))"
  have "\<exists>js. map_result (InlineItem_MarshalJSON K) (vInline v) = Inr js \<and>
      map_result (InlineItem_UnmarshalJSON K) js = Inr (map (\<lambda>x. x) (vInline v))"
    by (rule map_result_inverse) (use Value.prems InlineItem_roundtrip Value_parts_valid(1) in blast)
  then obtain content where c: "map_result (InlineItem_MarshalJSON K) (vInline v) = Inr content"
    "map_result (InlineItem_UnmarshalJSON K) content = Inr (vInline v)" by auto
  have "\<exists>js. map_result (?enc list_item_json) (vList v) = Inr js \<and>
      map_result (ListItem_UnmarshalJSON (Value_UnmarshalJSON K)) js = Inr (map (\<lambda>(k, w). (k, wire_part w)) (vList v))"
    by (rule map_result_inverse)
      (use Value.IH(1) Value_parts_valid(2) [OF Value.prems] in \<open>fastforce intro: named_roundtrip\<close>)
  then obtain items where l: "map_result (?enc list_item_json) (vList v) = Inr items"
    "map_result (ListItem_UnmarshalJSON (Value_UnmarshalJSON K)) items = Inr (vList (wire_part v))" by auto
  have "\<exists>js. map_result (?enc marshalNamedField) (vObject v) = Inr js \<and>
      map_result (unmarshalNamedField (Value_UnmarshalJSON K)) js = Inr (map (\<lambda>(k, w). (k, wire_part w)) (vObject v))"
    by (rule map_result_inverse)
      (use Value.IH(2) Value_parts_valid(3) [OF Value.prems] in \<open>fastforce intro: named_roundtrip\<close>)
  then obtain fs where o: "map_result (?enc marshalNamedField) (vObject v) = Inr fs"
    "map_result (unmarshalNamedField (Value_UnmarshalJSON K)) fs = Inr (vObject (wire_part v))" by auto
  obtain w where w: "value_decoded K (Value_UnmarshalJSON K) (value_wire v content items fs) = Inr w" "wire_value w = Inr (wire_part v)"
    using value_wire_roundtrip [OF Value.prems c(2) l(2) o(2)] by blast
  have "Value_validate K (wire_part v) = None" using Value.prems validateDepth_wire_part by (simp add: Value_validate_def)
  then have "Value_UnmarshalJSON K (wire_value_json (value_wire v content items fs)) = Inr (wire_part v)"
    using w by (simp add: Value_UnmarshalJSON.simps [of K "wire_value_json _"] value_decoded_def)
  moreover have "Value_MarshalJSON K v = Inr (wire_value_json (value_wire v content items fs))"
    using Value.prems c(1) l(1) o(1) by (simp add: Value_MarshalJSON.simps [of K v])
  ultimately show ?case using wire_value_object by blast
qed

end
