(* ===== verification/Wire_Requests.thy ===== *)
theory Wire_Requests
  imports Wire_Correct
begin

text \<open>
  Round trips of operations and of whole requests: a well-shaped operation with canonical parts is
  encoded, and decoding gives it back; so does a request.
\<close>

section \<open>Operations\<close>

lemma operation_kind_roundtrip:
  "(case k of OperationOther _ \<Rightarrow> False | _ \<Rightarrow> True) \<Longrightarrow> operation_kind_of (operation_kind_name k) = k"
  by (cases k) (simp_all add: operation_kind_of_def operation_kind_name_def operationKinds_def)

lemma segment_roundtrip:
  "FieldPathSegment_validate s = None \<Longrightarrow> \<exists>j. segment_json s = Inr j \<and> segment_of j = Inr s"
  by (cases s)
    (auto simp: segment_json_def segment_of_def put_segment_def member_field_def FieldPathSegment_validate_def split: if_splits)

text \<open>A well-shaped operation is the one its constructor builds.\<close>

lemma filter_one:
  assumes "length (filter id bs) = 1" and "i < length bs" and "bs ! i"
  shows "bs = (replicate (length bs) False)[i := True]"
  using assms
proof (induction bs arbitrary: i)
  case (Cons b bs)
  show ?case
  proof (cases i)
    case 0
    then have "filter id bs = []" using Cons.prems by (simp add: id_def)
    then have "x = False" if "x \<in> set bs" for x using that by (auto simp: filter_empty_conv)
    then have "bs = replicate (length bs) False" by (intro replicate_eqI) auto
    with 0 Cons.prems(3) show ?thesis by simp
  next
    case (Suc n)
    then have "bs ! n" "n < length bs" using Cons.prems by auto
    then have "\<exists>x \<in> set bs. x" using nth_mem by blast
    then have "filter id bs \<noteq> []" by (simp add: filter_empty_conv)
    then have "\<not> b" using Cons.prems(1) by (auto simp: id_def)
    then show ?thesis using Cons.IH [of n] Cons.prems(1) Suc \<open>bs ! n\<close> \<open>n < length bs\<close> by simp
  qed
qed simp

definition payloads :: "Operation \<Rightarrow> bool list" where
  "payloads op =
     [opSetField op \<noteq> None, opUnsetField op \<noteq> None, opInsertBlock op \<noteq> None,
      opDeleteBlock op \<noteq> None, opMoveBlock op \<noteq> None, opReplaceBlockKind op \<noteq> None,
      opAttachFile op \<noteq> None, opDetachFile op \<noteq> None, opInsertRelationItem op \<noteq> None,
      opDeleteRelationItem op \<noteq> None, opMoveRelationItem op \<noteq> None,
      opCreateTranslation op \<noteq> None, opDeleteTranslation op \<noteq> None]"

lemma only_payload:
  assumes "validateShape op = None" and "i < 13" and "payloads op ! i"
  shows "payloads op = (replicate 13 False)[i := True]"
proof -
  have "length (filter id (payloads op)) = 1"
    using assms(1) by (simp add: validateShape_def payloadCount_def payloads_def del: filter.simps split: if_splits)
  moreover have "length (payloads op) = 13" by (simp add: payloads_def)
  ultimately show ?thesis using filter_one [of "payloads op" i] assms(2,3) by simp
qed

lemma unit_none: "x \<noteq> Some () \<longleftrightarrow> x = None"
  by (cases x) auto

lemma shape_builds:
  assumes s: "validateShape op = None"
  shows "case opKind op of
      OperationSetField \<Rightarrow> \<exists>p. op = (emptyOperation OperationSetField)\<lparr>opSetField := Some p\<rparr>
    | OperationUnsetField \<Rightarrow> \<exists>t. op = (emptyOperation OperationUnsetField)\<lparr>opUnsetField := Some t\<rparr>
    | OperationInsertBlock \<Rightarrow> \<exists>p. op = (emptyOperation OperationInsertBlock)\<lparr>opInsertBlock := Some p\<rparr>
    | OperationDeleteBlock \<Rightarrow> \<exists>b. op = (emptyOperation OperationDeleteBlock)\<lparr>opDeleteBlock := Some b\<rparr>
    | OperationMoveBlock \<Rightarrow> \<exists>p. op = (emptyOperation OperationMoveBlock)\<lparr>opMoveBlock := Some p\<rparr>
    | OperationReplaceBlockKind \<Rightarrow> \<exists>p. op = (emptyOperation OperationReplaceBlockKind)\<lparr>opReplaceBlockKind := Some p\<rparr>
    | OperationInsertRelationItem \<Rightarrow> \<exists>p. op = (emptyOperation OperationInsertRelationItem)\<lparr>opInsertRelationItem := Some p\<rparr>
    | OperationDeleteRelationItem \<Rightarrow> \<exists>p. op = (emptyOperation OperationDeleteRelationItem)\<lparr>opDeleteRelationItem := Some p\<rparr>
    | OperationMoveRelationItem \<Rightarrow> \<exists>p. op = (emptyOperation OperationMoveRelationItem)\<lparr>opMoveRelationItem := Some p\<rparr>
    | OperationAttachFile \<Rightarrow> \<exists>p. op = (emptyOperation OperationAttachFile)\<lparr>opAttachFile := Some p\<rparr>
    | OperationDetachFile \<Rightarrow> \<exists>t. op = (emptyOperation OperationDetachFile)\<lparr>opDetachFile := Some t\<rparr>
    | OperationCreateTranslation \<Rightarrow> op = CreateTranslationOperation
    | OperationDeleteTranslation \<Rightarrow> op = DeleteTranslationOperation
    | OperationOther _ \<Rightarrow> False"
proof -
  have k: "kindMatchesPayload op" using s by (auto simp: validateShape_def split: if_splits)
  note one = only_payload [OF s]
  note simps = kindMatchesPayload_def payloads_def numeral_eq_Suc operation_builders unit_none
  show ?thesis
  proof (cases "opKind op")
    case OperationSetField
    then show ?thesis using k one [of 0] by (cases op) (auto simp: simps)
  next
    case OperationUnsetField
    then show ?thesis using k one [of 1] by (cases op) (auto simp: simps)
  next
    case OperationInsertBlock
    then show ?thesis using k one [of 2] by (cases op) (auto simp: simps)
  next
    case OperationDeleteBlock
    then show ?thesis using k one [of 3] by (cases op) (auto simp: simps)
  next
    case OperationMoveBlock
    then show ?thesis using k one [of 4] by (cases op) (auto simp: simps)
  next
    case OperationReplaceBlockKind
    then show ?thesis using k one [of 5] by (cases op) (auto simp: simps)
  next
    case OperationAttachFile
    then show ?thesis using k one [of 6] by (cases op) (auto simp: simps)
  next
    case OperationDetachFile
    then show ?thesis using k one [of 7] by (cases op) (auto simp: simps)
  next
    case OperationInsertRelationItem
    then show ?thesis using k one [of 8] by (cases op) (auto simp: simps)
  next
    case OperationDeleteRelationItem
    then show ?thesis using k one [of 9] by (cases op) (auto simp: simps)
  next
    case OperationMoveRelationItem
    then show ?thesis using k one [of 10] by (cases op) (auto simp: simps)
  next
    case OperationCreateTranslation
    then show ?thesis using k one [of 11] by (cases op) (auto simp: simps)
  next
    case OperationDeleteTranslation
    then show ?thesis using k one [of 12] by (cases op) (auto simp: simps)
  next
    case (OperationOther s)
    then show ?thesis using k by (simp add: kindMatchesPayload_def)
  qed
qed

lemma handle_roundtrip [simp]: "handleOrEmpty (optionalHandle v) = v" "handleOrEmpty (Some v) = v" "handleOrEmpty None = ''''"
  by (simp_all add: handleOrEmpty_def optionalHandle_def)

lemma optionalHandle_None [simp]: "optionalHandle v = None \<longleftrightarrow> v = ''''"
  by (simp add: optionalHandle_def)

lemma require_None:
  "require w required = None \<longleftrightarrow> set required \<subseteq> set (presentFields w) \<and>
     set (presentFields w) \<subseteq> set required \<union> set (wireOperationOptionalFields (woOp w))"
  by (auto simp: require_def first_error_None check_all_None)

lemma fieldTarget_roundtrip:
  "fieldTarget (wireFieldOperation k t) = t"
  "fieldTarget ((wireFieldOperation k t)\<lparr>woValue := v\<rparr>) = t"
  "fieldTarget ((wireFieldOperation k t)\<lparr>woFile := f\<rparr>) = t"
  by (cases t; simp add: fieldTarget_def wireFieldOperation_def)+

lemma operation_wire_roundtrip:
  assumes "validateShape op = None"
  shows "\<exists>w. operation_wire op = Inr w \<and> operation w = Inr op"
proof -
  note shape = shape_builds [OF assms]
  note simps = operation_wire_def operation_def require_None requiredFields_def presentFields_def
    wireOperationOptionalFields_def operation_builders Let_def guard_error_Inr zeroWireOperation_def wireFieldOperation_def
    fieldTarget_def
  show ?thesis
  proof (cases "opKind op")
    case OperationSetField
    with shape obtain p where p: "op = (emptyOperation OperationSetField)\<lparr>opSetField := Some p\<rparr>" by auto
    show ?thesis unfolding p by (cases p; cases "sfTarget p") (auto simp: simps)
  next
    case OperationUnsetField
    with shape obtain t where p: "op = (emptyOperation OperationUnsetField)\<lparr>opUnsetField := Some t\<rparr>" by auto
    show ?thesis unfolding p by (cases t) (auto simp: simps)
  next
    case OperationInsertBlock
    with shape obtain p where p: "op = (emptyOperation OperationInsertBlock)\<lparr>opInsertBlock := Some p\<rparr>" by auto
    show ?thesis unfolding p by (cases p) (auto simp: simps)
  next
    case OperationDeleteBlock
    with shape obtain b where p: "op = (emptyOperation OperationDeleteBlock)\<lparr>opDeleteBlock := Some b\<rparr>" by auto
    show ?thesis unfolding p by (auto simp: simps)
  next
    case OperationMoveBlock
    with shape obtain p where p: "op = (emptyOperation OperationMoveBlock)\<lparr>opMoveBlock := Some p\<rparr>" by auto
    show ?thesis unfolding p by (cases p) (auto simp: simps)
  next
    case OperationReplaceBlockKind
    with shape obtain p where p: "op = (emptyOperation OperationReplaceBlockKind)\<lparr>opReplaceBlockKind := Some p\<rparr>" by auto
    show ?thesis unfolding p by (cases p) (auto simp: simps)
  next
    case OperationInsertRelationItem
    with shape obtain p where p: "op = (emptyOperation OperationInsertRelationItem)\<lparr>opInsertRelationItem := Some p\<rparr>" by auto
    show ?thesis unfolding p by (cases p) (auto simp: simps)
  next
    case OperationDeleteRelationItem
    with shape obtain p where p: "op = (emptyOperation OperationDeleteRelationItem)\<lparr>opDeleteRelationItem := Some p\<rparr>" by auto
    show ?thesis unfolding p by (cases p) (auto simp: simps)
  next
    case OperationMoveRelationItem
    with shape obtain p where p: "op = (emptyOperation OperationMoveRelationItem)\<lparr>opMoveRelationItem := Some p\<rparr>" by auto
    show ?thesis unfolding p by (cases p) (auto simp: simps)
  next
    case OperationAttachFile
    with shape obtain p where p: "op = (emptyOperation OperationAttachFile)\<lparr>opAttachFile := Some p\<rparr>" by auto
    show ?thesis unfolding p by (cases p; cases "afTarget p") (auto simp: simps)
  next
    case OperationDetachFile
    with shape obtain t where p: "op = (emptyOperation OperationDetachFile)\<lparr>opDetachFile := Some t\<rparr>" by auto
    show ?thesis unfolding p by (cases t) (auto simp: simps)
  qed (use shape in \<open>auto simp: simps\<close>)
qed

section \<open>The JSON of an operation\<close>

abbreviation op_members :: "(string \<Rightarrow> bool) \<Rightarrow> wireOperation \<Rightarrow> (string \<times> json) list \<Rightarrow> wireOperation result" where
  "op_members K \<equiv> fold_result (\<lambda>s (k, v). put_operation K k v s)"

text \<open>A member that is left out leaves the field at nil.\<close>

lemma op_members_string:
  "woBlock s = None \<Longrightarrow> op_members K s (opt_member ''block_id'' JString x @ ms) = op_members K (s\<lparr>woBlock := x\<rparr>) ms"
  "woRelation s = None \<Longrightarrow> op_members K s (opt_member ''relation_id'' JString x @ ms) = op_members K (s\<lparr>woRelation := x\<rparr>) ms"
  "woItem s = None \<Longrightarrow> op_members K s (opt_member ''item_id'' JString x @ ms) = op_members K (s\<lparr>woItem := x\<rparr>) ms"
  "woField s = None \<Longrightarrow> op_members K s (opt_member ''field'' JString x @ ms) = op_members K (s\<lparr>woField := x\<rparr>) ms"
  "woFile s = None \<Longrightarrow> op_members K s (opt_member ''file_id'' JString x @ ms) = op_members K (s\<lparr>woFile := x\<rparr>) ms"
  "woKind s = None \<Longrightarrow> op_members K s (opt_member ''kind'' JString x @ ms) = op_members K (s\<lparr>woKind := x\<rparr>) ms"
  "woParent s = None \<Longrightarrow> op_members K s (opt_member ''parent_block_id'' JString x @ ms) = op_members K (s\<lparr>woParent := x\<rparr>) ms"
  "woAfterBlock s = None \<Longrightarrow> op_members K s (opt_member ''after_block_id'' JString x @ ms) = op_members K (s\<lparr>woAfterBlock := x\<rparr>) ms"
  "woAfterItem s = None \<Longrightarrow> op_members K s (opt_member ''after_item_id'' JString x @ ms) = op_members K (s\<lparr>woAfterItem := x\<rparr>) ms"
  "woTargetBlock s = None \<Longrightarrow> op_members K s (opt_member ''target_block_id'' JString x @ ms) = op_members K (s\<lparr>woTargetBlock := x\<rparr>) ms"
  "woTargetRelationID s = None \<Longrightarrow> op_members K s (opt_member ''target_relation_id'' JString x @ ms) = op_members K (s\<lparr>woTargetRelationID := x\<rparr>) ms"
  by (cases s, cases x, simp_all add: put_operation_def)+

lemma op_members_last:
  "woTargetRelationID s = None \<Longrightarrow>
   op_members K s (opt_member ''target_relation_id'' JString x) = Inr (s\<lparr>woTargetRelationID := x\<rparr>)"
  using op_members_string(11) [of s K x "[]"] by simp

lemma op_members_path:
  "woPath s = None \<Longrightarrow> map_option_result (decode_array segment_of) (map_option JArray js) = Inr (map_option Some p) \<Longrightarrow>
   op_members K s (opt_member ''path'' JArray js @ ms) = op_members K (s\<lparr>woPath := p\<rparr>) ms"
  by (cases s, cases js; cases p) (simp_all add: put_operation_def map_option_result_def and_then_def split: sum.splits)

lemma op_members_value:
  "woValue s = None \<Longrightarrow> (\<And>j. x = Some j \<Longrightarrow> j \<noteq> JNull \<and> Value_UnmarshalJSON K j = Inr (the v)) \<Longrightarrow> (x = None \<longleftrightarrow> v = None) \<Longrightarrow>
   op_members K s (opt_member ''value'' id x @ ms) = op_members K (s\<lparr>woValue := v\<rparr>) ms"
  by (cases s, cases x, auto simp: put_operation_def)

lemma op_members_op:
  "(case k of OperationOther _ \<Rightarrow> False | _ \<Rightarrow> True) \<Longrightarrow>
   op_members K s ((''op'', JString (operation_kind_name k)) # ms) = op_members K (s\<lparr>woOp := k\<rparr>) ms"
  by (simp add: put_operation_def operation_kind_roundtrip)

lemma path_roundtrip:
  assumes "\<And>p s. path = Some p \<Longrightarrow> s \<in> set p \<Longrightarrow> FieldPathSegment_validate s = None"
  shows "\<exists>js. map_option_result (map_result segment_json) path = Inr js \<and>
    map_option_result (decode_array segment_of) (map_option JArray js) = Inr (map_option Some path)"
proof (cases path)
  case (Some p)
  have "\<exists>js. map_result segment_json p = Inr js \<and> map_result segment_of js = Inr (map (\<lambda>x. x) p)"
    by (rule map_result_inverse) (use Some assms segment_roundtrip in blast)
  then obtain js where "map_result segment_json p = Inr js" "map_result segment_of js = Inr p" by auto
  then show ?thesis using Some by (intro exI [of _ "Some js"]) (simp add: map_option_result_def)
qed (simp add: map_option_result_def)

lemma value_option_roundtrip:
  assumes "\<And>v. x = Some v \<Longrightarrow> Value_validate K v = None"
  shows "\<exists>y. map_option_result (Value_MarshalJSON K) x = Inr y \<and> (y = None \<longleftrightarrow> x = None) \<and>
    (\<forall>j. y = Some j \<longrightarrow> j \<noteq> JNull \<and> Value_UnmarshalJSON K j = Inr (wire_part (the x)))"
proof (cases x)
  case (Some v)
  obtain j where "Value_MarshalJSON K v = Inr j" "j \<noteq> JNull" "Value_UnmarshalJSON K j = Inr (wire_part v)"
    using Value_roundtrip assms [OF Some] by blast
  then show ?thesis using Some by (simp add: map_option_result_def)
qed (simp add: map_option_result_def)

lemma wire_operation_roundtrip:
  assumes k: "case woOp w of OperationOther _ \<Rightarrow> False | _ \<Rightarrow> True"
    and p: "\<And>p s. woPath w = Some p \<Longrightarrow> s \<in> set p \<Longrightarrow> FieldPathSegment_validate s = None"
    and v: "\<And>v. woValue w = Some v \<Longrightarrow> Value_validate K v = None"
  shows "\<exists>j. wire_operation_json K w = Inr j \<and> decodeStrict operationFields (put_operation K) zeroWireOperation j =
    Inr (w\<lparr>woValue := map_option wire_part (woValue w)\<rparr>)"
proof -
  obtain js where js: "map_option_result (map_result segment_json) (woPath w) = Inr js"
    and path: "map_option_result (decode_array segment_of) (map_option JArray js) = Inr (map_option Some (woPath w))"
    using path_roundtrip [of "woPath w"] p by blast
  have "\<exists>y. map_option_result (Value_MarshalJSON K) (woValue w) = Inr y \<and> (y = None \<longleftrightarrow> woValue w = None) \<and>
      (\<forall>j. y = Some j \<longrightarrow> j \<noteq> JNull \<and> Value_UnmarshalJSON K j = Inr (wire_part (the (woValue w))))"
    by (rule value_option_roundtrip) (rule v)
  then obtain y where y: "map_option_result (Value_MarshalJSON K) (woValue w) = Inr y" "y = None \<longleftrightarrow> woValue w = None"
    and vy: "\<forall>j. y = Some j \<longrightarrow> j \<noteq> JNull \<and> Value_UnmarshalJSON K j = Inr (wire_part (the (woValue w)))"
    by (elim exE conjE) (rule that)
  let ?v = "map_option wire_part (woValue w)"
  have vy': "j \<noteq> JNull \<and> Value_UnmarshalJSON K j = Inr (the ?v)" if "y = Some j" for j
    using vy [rule_format, OF that] y(2) that by (cases "woValue w") auto
  define ms where "ms = [(''op'', JString (operation_kind_name (woOp w)))] @ opt_member ''block_id'' JString (woBlock w) @
            opt_member ''relation_id'' JString (woRelation w) @ opt_member ''item_id'' JString (woItem w) @
            opt_member ''field'' JString (woField w) @ opt_member ''path'' JArray js @ opt_member ''value'' id y @
            opt_member ''file_id'' JString (woFile w) @ opt_member ''kind'' JString (woKind w) @
            opt_member ''parent_block_id'' JString (woParent w) @ opt_member ''after_block_id'' JString (woAfterBlock w) @
            opt_member ''after_item_id'' JString (woAfterItem w) @ opt_member ''target_block_id'' JString (woTargetBlock w) @
            opt_member ''target_relation_id'' JString (woTargetRelationID w)"
  have "fst ` set ms \<subseteq> set operationFields"
    by (auto simp: ms_def operationFields_def opt_member_def split: option.splits)
  then have "decodeStrict operationFields (put_operation K) zeroWireOperation (JObject ms) = op_members K zeroWireOperation ms"
    by (rule decode_members)
  also have "\<dots> = Inr (w\<lparr>woValue := ?v\<rparr>)"
    unfolding ms_def append_Cons append_Nil op_members_op [OF k]
    by (simp add: op_members_string op_members_last op_members_path [OF _ path] op_members_value [OF _ vy'] y(2)
        zeroWireOperation_def)
  finally show ?thesis using js y(1) by (simp add: wire_operation_json_def ms_def)
qed

definition wire_operation_part :: "Operation \<Rightarrow> Operation" where
  "wire_operation_part op = op\<lparr>opSetField := map_option (\<lambda>p. p\<lparr>sfValue := wire_part (sfValue p)\<rparr>) (opSetField op)\<rparr>"

lemma require_wire_part:
  "require (w\<lparr>woValue := map_option wire_part (woValue w)\<rparr>) fs = require w fs"
  by (simp add: require_def presentFields_def)

lemma operation_wire_part:
  assumes "operation w = Inr op"
  shows "operation (w\<lparr>woValue := map_option wire_part (woValue w)\<rparr>) = Inr (wire_operation_part op)"
  using assms
  by (cases "woOp w")
    (auto simp: operation_def require_wire_part guard_error_Inr Let_def deref_def wire_operation_part_def operation_builders
      fieldTarget_def split: if_splits option.splits)

lemma operation_wire_valid:
  assumes "operation_wire op = Inr w" and "validateCanonicalOperation K op = None"
  shows "case woOp w of OperationOther _ \<Rightarrow> False | _ \<Rightarrow> True"
    "woPath w = Some p \<Longrightarrow> s \<in> set p \<Longrightarrow> FieldPathSegment_validate s = None"
    "woValue w = Some v \<Longrightarrow> Value_validate K v = None"
proof -
  note simps = operation_wire_def validateCanonicalOperation_def Let_def deref_def payload_def wireFieldOperation_def
    zeroWireOperation_def validateCanonicalFieldTarget_def first_error_None check_all_None
  show "case woOp w of OperationOther _ \<Rightarrow> False | _ \<Rightarrow> True"
    using assms by (cases "opKind op") (auto simp: simps split: option.splits)
  show "FieldPathSegment_validate s = None" if "woPath w = Some p" "s \<in> set p"
    using assms that by (cases "opKind op") (auto simp: simps split: option.splits if_splits)
  show "Value_validate K v = None" if "woValue w = Some v"
    using assms that by (cases "opKind op") (auto simp: simps split: option.splits if_splits)
qed

lemma validateShape_wire_part: "validateShape (wire_operation_part op) = validateShape op"
proof -
  have "payloadCount (wire_operation_part op) = payloadCount op"
    by (simp add: payloadCount_def wire_operation_part_def del: filter.simps)
  moreover have "kindMatchesPayload (wire_operation_part op) = kindMatchesPayload op"
    by (cases "opKind op") (simp_all add: kindMatchesPayload_def wire_operation_part_def)
  ultimately show ?thesis by (simp add: validateShape_def)
qed

lemma validateCanonicalOperation_wire_part:
  "validateCanonicalOperation K op = None \<Longrightarrow> validateCanonicalOperation K (wire_operation_part op) = None"
  by (cases "opKind op")
    (auto simp: validateCanonicalOperation_def wire_operation_part_def payload_def first_error_None Value_validate_def
      validateDepth_wire_part split: option.splits)

lemma Operation_roundtrip:
  assumes s: "validateShape op = None" and c: "validateCanonicalOperation K op = None"
  shows "\<exists>j. Operation_MarshalJSON K op = Inr j \<and> Operation_UnmarshalJSON K j = Inr (wire_operation_part op)"
proof -
  obtain w where w: "operation_wire op = Inr w" and o: "operation w = Inr op" using operation_wire_roundtrip [OF s] by blast
  note valid = operation_wire_valid [OF w c]
  obtain j where "wire_operation_json K w = Inr j"
    "decodeStrict operationFields (put_operation K) zeroWireOperation j = Inr (w\<lparr>woValue := map_option wire_part (woValue w)\<rparr>)"
    using wire_operation_roundtrip [of w K] valid by blast
  then show ?thesis
    using w s operation_wire_part [OF o] validateShape_wire_part [of op]
    by (simp add: Operation_MarshalJSON_def Operation_UnmarshalJSON_def)
qed

section \<open>Requests\<close>

definition wire_request_part :: "ApplyRequest \<Rightarrow> ApplyRequest" where
  "wire_request_part r = r\<lparr>arOperations := map wire_operation_part (arOperations r)\<rparr>"

lemma request_members:
  assumes "map_result (Operation_UnmarshalJSON K) js = Inr ops"
  shows "decodeStrict requestFields (put_request K) zeroRequest (JObject (
      [(''document_type'', JString a), (''document_id'', JString b), (''locale'', JString c),
       (''expected_document_revision'', JString d)] @ opt_member ''expected_target_revision'' JString t @
      [(''operations'', JArray js)])) =
    Inr \<lparr>arProtocol = '''', arProfile = a, arDocument = b, arLocale = c, arExpectedDocumentRevision = d,
      arExpectedTargetRevision = t, arOperations = ops\<rparr>"
  using assms by (cases t) (simp_all add: requestFields_def member_field_def put_request_def zeroRequest_def)

lemma request_roundtrip:
  assumes e: "validateEnvelope r = None" and c: "validateCanonicalOperations K (arOperations r) = None"
  shows "\<exists>j. EncodeApplyRequest K r = Inr j \<and> DecodeApplyRequest K j = Inr (wire_request_part r)"
proof -
  have ops: "validateShape op = None \<and> validateCanonicalOperation K op = None" if "op \<in> set (arOperations r)" for op
    using e c that by (simp add: validateEnvelope_def first_error_None validateCanonicalOperations_def check_all_None)
  have "\<exists>js. map_result (Operation_MarshalJSON K) (arOperations r) = Inr js \<and>
      map_result (Operation_UnmarshalJSON K) js = Inr (map wire_operation_part (arOperations r))"
    by (rule map_result_inverse) (use ops Operation_roundtrip in blast)
  then obtain js where m: "map_result (Operation_MarshalJSON K) (arOperations r) = Inr js"
    and u: "map_result (Operation_UnmarshalJSON K) js = Inr (map wire_operation_part (arOperations r))" by blast
  have "arProtocol r = ProtocolVersion" using e by (simp add: validateEnvelope_def first_error_None)
  then have r: "\<lparr>arProtocol = ProtocolVersion, arProfile = arProfile r, arDocument = arDocument r, arLocale = arLocale r,
      arExpectedDocumentRevision = arExpectedDocumentRevision r, arExpectedTargetRevision = arExpectedTargetRevision r,
      arOperations = map wire_operation_part (arOperations r)\<rparr> = wire_request_part r"
    by (cases r) (simp add: wire_request_part_def)
  have e': "validateEnvelope (wire_request_part r) = None"
    using e ops by (auto simp: validateEnvelope_def first_error_None wire_request_part_def ApplyRequest_Identity_def check_all_None
        validateShape_wire_part)
  have c': "validateCanonicalOperations K (arOperations (wire_request_part r)) = None"
    using ops validateCanonicalOperation_wire_part by (auto simp: validateCanonicalOperations_def check_all_None wire_request_part_def)
  have ops_part: "arOperations (wire_request_part r) = map wire_operation_part (arOperations r)" by (simp add: wire_request_part_def)
  show ?thesis
    using e c m request_members [OF u] e' c' unfolding ops_part
    by (simp add: EncodeApplyRequest_def DecodeApplyRequest_def Let_def r)
qed

end
