(* ===== verification/Wire_Nodes.thy ===== *)
theory Wire_Nodes
  imports Wire_Requests Read_Correct
begin

text \<open>
  The JSON of read results: the \<open>MarshalJSON\<close> and \<open>UnmarshalJSON\<close> methods of field values, file bindings,
  relations and blocks, the outline blocks, and \<open>EncodeProjection\<close> (\<open>codec.go\<close>).
\<close>

section \<open>Numbers and slices\<close>

fun decode_int :: "json \<Rightarrow> int option result" where
  "decode_int JNull = Inr None"
| "decode_int (JNumber t) = (case atoi t of None \<Rightarrow> Inl (Err ''cannot unmarshal number into an int'') | Some n \<Rightarrow> Inr (Some n))"
| "decode_int _ = Inl (Err ''cannot unmarshal into an int'')"

definition int_json :: "int \<Rightarrow> json" where
  "int_json n = JNumber (itoa n)"

text \<open>\<open>omitempty\<close> of a string and of a slice; a null slice is nil.\<close>

definition text_member :: "string \<Rightarrow> string \<Rightarrow> (string \<times> json) list" where
  "text_member name s = (if s = '''' then [] else [(name, JString s)])"

definition slice_member :: "string \<Rightarrow> json list \<Rightarrow> (string \<times> json) list" where
  "slice_member name js = (if js = [] then [] else [(name, JArray js)])"

definition decode_slice :: "(json \<Rightarrow> 'a result) \<Rightarrow> json \<Rightarrow> ('a list \<Rightarrow> 's) \<Rightarrow> 's result" where
  "decode_slice dec v k = and_then (decode_array dec v) (\<lambda>xs. Inr (k (case xs of None \<Rightarrow> [] | Some ys \<Rightarrow> ys)))"

definition decode_into :: "'a option result \<Rightarrow> 's \<Rightarrow> ('a \<Rightarrow> 's) \<Rightarrow> 's result" where
  "decode_into r s k = and_then r (\<lambda>x. Inr (case x of None \<Rightarrow> s | Some y \<Rightarrow> k y))"

section \<open>Field values and file bindings\<close>

definition FieldValue_MarshalJSON :: "(string \<Rightarrow> bool) \<Rightarrow> FieldValue \<Rightarrow> json result" where
  "FieldValue_MarshalJSON K f = and_then (Value_MarshalJSON K (fvValue f)) (\<lambda>j. Inr (marshalNamedField (fvID f) j))"

definition FieldValue_UnmarshalJSON :: "(string \<Rightarrow> bool) \<Rightarrow> json \<Rightarrow> FieldValue result" where
  "FieldValue_UnmarshalJSON K j =
     and_then (unmarshalNamedField (Value_UnmarshalJSON K) j) (\<lambda>(k, v). Inr \<lparr>fvID = k, fvValue = v\<rparr>)"

definition FileBinding_MarshalJSON :: "FileBinding \<Rightarrow> json result" where
  "FileBinding_MarshalJSON f =
     and_then (map_result segment_json (fbPath f))
       (\<lambda>path. Inr (JObject ([(''field'', JString (fbField f))] @ slice_member ''path'' path @
          [(''file_id'', JString (fbFile f))])))"

definition put_file :: "string \<Rightarrow> json \<Rightarrow> FileBinding \<Rightarrow> FileBinding result" where
  "put_file n v f =
     (if n = ''path'' then decode_slice segment_of v (\<lambda>p. f\<lparr>fbPath := p\<rparr>)
      else decode_into (decode_string v) f (\<lambda>s. if n = ''field'' then f\<lparr>fbField := s\<rparr> else f\<lparr>fbFile := s\<rparr>))"

definition FileBinding_UnmarshalJSON :: "json \<Rightarrow> FileBinding result" where
  "FileBinding_UnmarshalJSON j =
     decodeStrict [''field'', ''path'', ''file_id''] put_file \<lparr>fbField = '''', fbPath = [], fbFile = ''''\<rparr> j"

section \<open>Relations and blocks\<close>

definition RelationItem_MarshalJSON :: "(string \<Rightarrow> bool) \<Rightarrow> RelationItem \<Rightarrow> json result" where
  "RelationItem_MarshalJSON K i =
     and_then (map_result (FieldValue_MarshalJSON K) (riShared i))
       (\<lambda>shared. and_then (map_result (FieldValue_MarshalJSON K) (riLocalized i))
         (\<lambda>localized. and_then (map_result FileBinding_MarshalJSON (riFiles i))
           (\<lambda>files. Inr (JObject (
              [(''item_id'', JString (riID i)), (''kind'', JString (riKind i)), (''order'', int_json (riOrder i))] @
              slice_member ''shared_fields'' shared @ slice_member ''localized_fields'' localized @
              slice_member ''files'' files)))))"

definition itemFields :: "string list" where
  "itemFields = [''item_id'', ''kind'', ''order'', ''shared_fields'', ''localized_fields'', ''files'']"

definition put_item_json :: "(string \<Rightarrow> bool) \<Rightarrow> string \<Rightarrow> json \<Rightarrow> RelationItem \<Rightarrow> RelationItem result" where
  "put_item_json K n v i =
     (if n = ''order'' then decode_into (decode_int v) i (\<lambda>x. i\<lparr>riOrder := x\<rparr>)
      else if n = ''shared_fields'' then decode_slice (FieldValue_UnmarshalJSON K) v (\<lambda>xs. i\<lparr>riShared := xs\<rparr>)
      else if n = ''localized_fields'' then decode_slice (FieldValue_UnmarshalJSON K) v (\<lambda>xs. i\<lparr>riLocalized := xs\<rparr>)
      else if n = ''files'' then decode_slice FileBinding_UnmarshalJSON v (\<lambda>xs. i\<lparr>riFiles := xs\<rparr>)
      else decode_into (decode_string v) i (\<lambda>s. if n = ''item_id'' then i\<lparr>riID := s\<rparr> else i\<lparr>riKind := s\<rparr>))"

definition RelationItem_UnmarshalJSON :: "(string \<Rightarrow> bool) \<Rightarrow> json \<Rightarrow> RelationItem result" where
  "RelationItem_UnmarshalJSON K j = decodeStrict itemFields (put_item_json K) zeroRelationItem j"

definition Relation_MarshalJSON :: "(string \<Rightarrow> bool) \<Rightarrow> Relation \<Rightarrow> json result" where
  "Relation_MarshalJSON K r =
     and_then (map_result (RelationItem_MarshalJSON K) (relItems r))
       (\<lambda>items. Inr (JObject [(''relation_id'', JString (relID r)), (''items'', JArray items)]))"

definition put_relation :: "(string \<Rightarrow> bool) \<Rightarrow> string \<Rightarrow> json \<Rightarrow> Relation \<Rightarrow> Relation result" where
  "put_relation K n v r =
     (if n = ''items'' then decode_slice (RelationItem_UnmarshalJSON K) v (\<lambda>xs. r\<lparr>relItems := xs\<rparr>)
      else decode_into (decode_string v) r (\<lambda>s. r\<lparr>relID := s\<rparr>))"

definition Relation_UnmarshalJSON :: "(string \<Rightarrow> bool) \<Rightarrow> json \<Rightarrow> Relation result" where
  "Relation_UnmarshalJSON K j = decodeStrict [''relation_id'', ''items''] (put_relation K) \<lparr>relID = '''', relItems = []\<rparr> j"

definition Node_MarshalJSON :: "(string \<Rightarrow> bool) \<Rightarrow> Node \<Rightarrow> json result" where
  "Node_MarshalJSON K n =
     and_then (map_result (FieldValue_MarshalJSON K) (nodeShared n))
       (\<lambda>shared. and_then (map_result (FieldValue_MarshalJSON K) (nodeLocalized n))
         (\<lambda>localized. and_then (map_result FileBinding_MarshalJSON (nodeFiles n))
           (\<lambda>files. and_then (map_result (Relation_MarshalJSON K) (nodeRelations n))
             (\<lambda>relations. Inr (JObject (
                [(''block_id'', JString (nodeID n)), (''kind'', JString (nodeKind n))] @
                text_member ''parent_block_id'' (nodeParent n) @ [(''order'', int_json (nodeOrder n))] @
                slice_member ''shared_fields'' shared @ slice_member ''localized_fields'' localized @
                slice_member ''files'' files @ slice_member ''relations'' relations))))))"

definition nodeFields :: "string list" where
  "nodeFields = [''block_id'', ''kind'', ''parent_block_id'', ''order'', ''shared_fields'', ''localized_fields'', ''files'',
     ''relations'']"

definition put_node :: "(string \<Rightarrow> bool) \<Rightarrow> string \<Rightarrow> json \<Rightarrow> Node \<Rightarrow> Node result" where
  "put_node K n v b =
     (if n = ''order'' then decode_into (decode_int v) b (\<lambda>x. b\<lparr>nodeOrder := x\<rparr>)
      else if n = ''shared_fields'' then decode_slice (FieldValue_UnmarshalJSON K) v (\<lambda>xs. b\<lparr>nodeShared := xs\<rparr>)
      else if n = ''localized_fields'' then decode_slice (FieldValue_UnmarshalJSON K) v (\<lambda>xs. b\<lparr>nodeLocalized := xs\<rparr>)
      else if n = ''files'' then decode_slice FileBinding_UnmarshalJSON v (\<lambda>xs. b\<lparr>nodeFiles := xs\<rparr>)
      else if n = ''relations'' then decode_slice (Relation_UnmarshalJSON K) v (\<lambda>xs. b\<lparr>nodeRelations := xs\<rparr>)
      else decode_into (decode_string v) b (\<lambda>s.
        if n = ''block_id'' then b\<lparr>nodeID := s\<rparr>
        else if n = ''kind'' then b\<lparr>nodeKind := s\<rparr>
        else b\<lparr>nodeParent := s\<rparr>))"

definition zeroNode :: Node where
  "zeroNode = \<lparr>nodeID = '''', nodeKind = '''', nodeParent = '''', nodeOrder = 0, nodeShared = [], nodeLocalized = [],
     nodeFiles = [], nodeRelations = []\<rparr>"

definition Node_UnmarshalJSON :: "(string \<Rightarrow> bool) \<Rightarrow> json \<Rightarrow> Node result" where
  "Node_UnmarshalJSON K j = decodeStrict nodeFields (put_node K) zeroNode j"

section \<open>Round trips\<close>

definition wire_field :: "FieldValue \<Rightarrow> FieldValue" where
  "wire_field f = f\<lparr>fvValue := wire_part (fvValue f)\<rparr>"

definition wire_item :: "RelationItem \<Rightarrow> RelationItem" where
  "wire_item i = i\<lparr>riShared := map wire_field (riShared i), riLocalized := map wire_field (riLocalized i)\<rparr>"

definition wire_relation :: "Relation \<Rightarrow> Relation" where
  "wire_relation r = r\<lparr>relItems := map wire_item (relItems r)\<rparr>"

definition wire_node :: "Node \<Rightarrow> Node" where
  "wire_node n = n\<lparr>nodeShared := map wire_field (nodeShared n), nodeLocalized := map wire_field (nodeLocalized n),
     nodeRelations := map wire_relation (nodeRelations n)\<rparr>"

text \<open>The positions are Go \<open>int\<close>s.\<close>

definition int_orders :: "Node \<Rightarrow> bool" where
  "int_orders n \<longleftrightarrow> nodeOrder n < 2 ^ 63 \<and> (\<forall>r \<in> set (nodeRelations n). \<forall>i \<in> set (relItems r). riOrder i < 2 ^ 63)"

lemma decode_slice_array [simp]: "map_result dec js = Inr xs \<Longrightarrow> decode_slice dec (JArray js) k = Inr (k xs)"
  by (simp add: decode_slice_def)

lemma decode_into_simps [simp]:
  "decode_into (Inr (Some x)) s k = Inr (k x)" "decode_into (Inr None) s k = Inr s" "decode_into (Inl e) s k = Inl e"
  by (simp_all add: decode_into_def)

lemma decode_int_json [simp]: "0 \<le> n \<Longrightarrow> n < 2 ^ 63 \<Longrightarrow> decode_int (int_json n) = Inr (Some n)"
  by (simp add: int_json_def atoi_itoa)

lemma FieldValue_roundtrip:
  assumes "Value_validate K (fvValue f) = None" and "fvID f \<noteq> ''''"
  shows "\<exists>j. FieldValue_MarshalJSON K f = Inr j \<and> FieldValue_UnmarshalJSON K j = Inr (wire_field f)"
proof -
  obtain j where "Value_MarshalJSON K (fvValue f) = Inr j" "j \<noteq> JNull" "Value_UnmarshalJSON K j = Inr (wire_part (fvValue f))"
    using Value_roundtrip [OF assms(1)] by blast
  then show ?thesis
    using named_roundtrip(2) assms(2) by (auto simp: FieldValue_MarshalJSON_def FieldValue_UnmarshalJSON_def wire_field_def)
qed

lemma FileBinding_roundtrip:
  assumes "check_all FieldPathSegment_validate (fbPath f) = None"
  shows "\<exists>j. FileBinding_MarshalJSON f = Inr j \<and> FileBinding_UnmarshalJSON j = Inr f"
proof -
  have "\<exists>js. map_result segment_json (fbPath f) = Inr js \<and> map_result segment_of js = Inr (map (\<lambda>x. x) (fbPath f))"
    by (rule map_result_inverse) (use assms segment_roundtrip in \<open>auto simp: check_all_None\<close>)
  then obtain js where "map_result segment_json (fbPath f) = Inr js" "map_result segment_of js = Inr (fbPath f)" by auto
  then show ?thesis
    by (cases "js = []")
      (auto simp: FileBinding_MarshalJSON_def FileBinding_UnmarshalJSON_def slice_member_def member_field_def put_file_def)
qed

text \<open>What the checks of a projected block say of one of its field sets.\<close>

lemma field_set_roundtrip:
  assumes "validateProjectedFieldSet K shared localized files = None"
  obtains js ls fs where "map_result (FieldValue_MarshalJSON K) shared = Inr js"
    "map_result (FieldValue_UnmarshalJSON K) js = Inr (map wire_field shared)"
    "map_result (FieldValue_MarshalJSON K) localized = Inr ls"
    "map_result (FieldValue_UnmarshalJSON K) ls = Inr (map wire_field localized)"
    "map_result FileBinding_MarshalJSON files = Inr fs" "map_result FileBinding_UnmarshalJSON fs = Inr files"
proof -
  have vals: "\<exists>js. map_result (FieldValue_MarshalJSON K) fs = Inr js \<and>
      map_result (FieldValue_UnmarshalJSON K) js = Inr (map wire_field fs)" if "validateFieldValues K fs = None" for fs
  proof (rule map_result_inverse)
    have "validateFieldValues K fs = None \<longleftrightarrow>
        (\<forall>f \<in> set fs. validateStableID ''field ID'' (fvID f) maxCatalogIDLength = None \<and> Value_validate K (fvValue f) = None) \<and>
        distinct (map fvID fs) \<and> fvID ` set fs \<inter> {} = {}"
      unfolding validateFieldValues_def by (rule loop_seen_distinct) (auto simp: first_error_None)
    with that show "\<exists>j. FieldValue_MarshalJSON K f = Inr j \<and> FieldValue_UnmarshalJSON K j = Inr (wire_field f)" if "f \<in> set fs" for f
      using that FieldValue_roundtrip validateStableID_nonempty by blast
  qed
  have "\<exists>js. map_result FileBinding_MarshalJSON files = Inr js \<and>
      map_result FileBinding_UnmarshalJSON js = Inr (map (\<lambda>x. x) files)"
  proof (rule map_result_inverse)
    have "validateFileBindings files = None \<longleftrightarrow>
        (\<forall>b \<in> set files. validateStableID ''file field ID'' (fbField b) maxCatalogIDLength = None \<and>
          check_all FieldPathSegment_validate (fbPath b) = None \<and> validateFileReference (fbFile b) = None) \<and>
        distinct (map (\<lambda>b. nestedFieldKey (fbField b) (fbPath b)) files) \<and>
        (\<lambda>b. nestedFieldKey (fbField b) (fbPath b)) ` set files \<inter> {} = {}"
      unfolding validateFileBindings_def by (rule loop_seen_distinct) (auto simp: first_error_None)
    then show "\<exists>j. FileBinding_MarshalJSON f = Inr j \<and> FileBinding_UnmarshalJSON j = Inr f" if "f \<in> set files" for f
      using that assms FileBinding_roundtrip by (auto simp: validateProjectedFieldSet_def first_error_None)
  qed
  then show ?thesis
    using vals [of shared] vals [of localized] assms that
    by (fastforce simp: validateProjectedFieldSet_def first_error_None)
qed

lemma RelationItem_roundtrip:
  assumes v: "relationItemRound K {} i = None" and o: "riOrder i < 2 ^ 63"
  shows "\<exists>j. RelationItem_MarshalJSON K i = Inr j \<and> RelationItem_UnmarshalJSON K j = Inr (wire_item i)"
proof -
  have n: "0 \<le> riOrder i" and f: "validateProjectedFieldSet K (riShared i) (riLocalized i) (riFiles i) = None"
    using v by (auto simp: relationItemRound_def first_error_None)
  obtain js ls fs where s: "map_result (FieldValue_MarshalJSON K) (riShared i) = Inr js"
    "map_result (FieldValue_UnmarshalJSON K) js = Inr (map wire_field (riShared i))"
    "map_result (FieldValue_MarshalJSON K) (riLocalized i) = Inr ls"
    "map_result (FieldValue_UnmarshalJSON K) ls = Inr (map wire_field (riLocalized i))"
    "map_result FileBinding_MarshalJSON (riFiles i) = Inr fs" "map_result FileBinding_UnmarshalJSON fs = Inr (riFiles i)"
    using field_set_roundtrip [OF f] by blast
  show ?thesis
    using s n o
    by (cases i; cases "js = []"; cases "ls = []"; cases "fs = []")
      (auto simp: RelationItem_MarshalJSON_def RelationItem_UnmarshalJSON_def slice_member_def itemFields_def
        member_field_def put_item_json_def zeroRelationItem_def wire_item_def)
qed

lemma Relation_roundtrip:
  assumes "\<And>i. i \<in> set (relItems r) \<Longrightarrow> relationItemRound K {} i = None \<and> riOrder i < 2 ^ 63"
  shows "\<exists>j. Relation_MarshalJSON K r = Inr j \<and> Relation_UnmarshalJSON K j = Inr (wire_relation r)"
proof -
  have "\<exists>js. map_result (RelationItem_MarshalJSON K) (relItems r) = Inr js \<and>
      map_result (RelationItem_UnmarshalJSON K) js = Inr (map wire_item (relItems r))"
    by (rule map_result_inverse) (use assms RelationItem_roundtrip in blast)
  then show ?thesis
    by (cases r) (auto simp: Relation_MarshalJSON_def Relation_UnmarshalJSON_def member_field_def put_relation_def wire_relation_def)
qed

lemma Node_roundtrip:
  assumes v: "validateProjectedNode K n = None" and o: "int_orders n"
  shows "\<exists>j. Node_MarshalJSON K n = Inr j \<and> Node_UnmarshalJSON K j = Inr (wire_node n)"
proof -
  have n: "0 \<le> nodeOrder n" and f: "validateProjectedFieldSet K (nodeShared n) (nodeLocalized n) (nodeFiles n) = None"
    and r: "relationRounds K {} {} (nodeRelations n) = None"
    using v by (auto simp: validateProjectedNode_def first_error_None validateProjectedRelations_def)
  obtain js ls fs where s: "map_result (FieldValue_MarshalJSON K) (nodeShared n) = Inr js"
    "map_result (FieldValue_UnmarshalJSON K) js = Inr (map wire_field (nodeShared n))"
    "map_result (FieldValue_MarshalJSON K) (nodeLocalized n) = Inr ls"
    "map_result (FieldValue_UnmarshalJSON K) ls = Inr (map wire_field (nodeLocalized n))"
    "map_result FileBinding_MarshalJSON (nodeFiles n) = Inr fs" "map_result FileBinding_UnmarshalJSON fs = Inr (nodeFiles n)"
    using field_set_roundtrip [OF f] by blast
  have "\<exists>rs. map_result (Relation_MarshalJSON K) (nodeRelations n) = Inr rs \<and>
      map_result (Relation_UnmarshalJSON K) rs = Inr (map wire_relation (nodeRelations n))"
    by (rule map_result_inverse) (use r o in \<open>auto simp: relationRounds_None int_orders_def intro!: Relation_roundtrip\<close>)
  then obtain rs where rel: "map_result (Relation_MarshalJSON K) (nodeRelations n) = Inr rs"
    "map_result (Relation_UnmarshalJSON K) rs = Inr (map wire_relation (nodeRelations n))" by blast
  have "nodeOrder n < 2 ^ 63" using o by (simp add: int_orders_def)
  then show ?thesis
    using s n rel
    by (cases n; cases "js = []"; cases "ls = []"; cases "fs = []"; cases "rs = []"; cases "nodeParent n = ''''")
      (auto simp: Node_MarshalJSON_def Node_UnmarshalJSON_def slice_member_def text_member_def nodeFields_def
        member_field_def put_node_def zeroNode_def wire_node_def)
qed

section \<open>Projections\<close>

record outlineRelationItem =
  oiID :: RelationItemID
  oiKind :: RelationItemKind
  oiOrder :: int

record outlineRelation =
  orID :: RelationID
  orItems :: "outlineRelationItem list"

record outlineBlock =
  obID :: BlockID
  obKind :: BlockKind
  obParent :: BlockID
  obOrder :: int
  obPreview :: string
  obRelations :: "outlineRelation list"

definition newOutlineBlock :: "Node \<Rightarrow> string \<Rightarrow> outlineBlock" where
  "newOutlineBlock n preview = \<lparr>obID = nodeID n, obKind = nodeKind n, obParent = nodeParent n, obOrder = nodeOrder n,
     obPreview = preview,
     obRelations = map (\<lambda>r. \<lparr>orID = relID r,
       orItems = map (\<lambda>i. \<lparr>oiID = riID i, oiKind = riKind i, oiOrder = riOrder i\<rparr>) (relItems r)\<rparr>) (nodeRelations n)\<rparr>"

definition outline_json :: "outlineBlock \<Rightarrow> json" where
  "outline_json b = JObject (
     [(''block_id'', JString (obID b)), (''kind'', JString (obKind b))] @ text_member ''parent_block_id'' (obParent b) @
     [(''order'', int_json (obOrder b))] @ text_member ''preview'' (obPreview b) @
     slice_member ''relations'' (map (\<lambda>r. JObject
       [(''relation_id'', JString (orID r)),
        (''items'', JArray (map (\<lambda>i. JObject [(''item_id'', JString (oiID i)), (''kind'', JString (oiKind i)),
          (''order'', int_json (oiOrder i))]) (orItems r)))]) (obRelations b)))"

definition role_name :: "LocaleRole \<Rightarrow> string" where
  "role_name r = (case r of LocaleRoleSource \<Rightarrow> ''source'' | LocaleRoleNonSource \<Rightarrow> ''non_source'')"

definition mode_name :: "ReadMode \<Rightarrow> string" where
  "mode_name m = (case m of ReadOutline \<Rightarrow> ''outline'' | ReadBlocks \<Rightarrow> ''blocks'' | ReadFields \<Rightarrow> ''fields'' | ReadOther s \<Rightarrow> s)"

text \<open>The members of a projection before and after its blocks; the protocol and the previews have none.\<close>

definition projection_head :: "Projection \<Rightarrow> (string \<times> json) list" where
  "projection_head p =
     [(''document_type'', JString (prProfile p)), (''catalog_fingerprint'', JString (prCatalog p)),
      (''document_id'', JString (prDocument p)), (''document_revision'', JString (prDocumentRevision p))] @
     opt_member ''target_revision'' JString (prTargetRevision p) @
     [(''source_locale'', JString (prSourceLocale p)), (''locale'', JString (prLocale p)),
      (''locale_role'', JString (role_name (prLocaleRole p))), (''locale_exists'', JBool (prLocaleExists p)),
      (''mode'', JString (mode_name (prMode p)))] @ text_member ''query'' (prQuery p)"

definition cursor_member :: "Projection \<Rightarrow> (string \<times> json) list" where
  "cursor_member p = [(''next_cursor'', case prNext p of None \<Rightarrow> JNull | Some c \<Rightarrow> JString c)]"

text \<open>
  The outline blocks shadow the blocks of the embedded struct and come last; a preview that the map does
  not have is empty.
\<close>

definition EncodeProjection :: "(string \<Rightarrow> bool) \<Rightarrow> Projection \<Rightarrow> json result" where
  "EncodeProjection K p =
     guard_error (Projection_validate K p)
       (and_then (canonicalNodes (prNodes p))
         (\<lambda>nodes.
            if prMode p \<noteq> ReadOutline then
              and_then (map_result (Node_MarshalJSON K) nodes)
                (\<lambda>blocks. Inr (JObject (projection_head p @ [(''blocks'', JArray blocks)] @ cursor_member p)))
            else
              (let blocks = map (\<lambda>n. newOutlineBlock n (case map_of (prPreviews p) (nodeID n) of None \<Rightarrow> '''' | Some t \<Rightarrow> t)) nodes
               in Inr (JObject (projection_head p @ cursor_member p @ [(''blocks'', JArray (map outline_json blocks))])))))"

text \<open>A member by its exact name.\<close>

definition json_member :: "string \<Rightarrow> json \<Rightarrow> json option" where
  "json_member name j = map_of (json_members j) name"

lemma head_no_blocks: "map_of (projection_head p) ''blocks'' = None"
  by (auto simp: projection_head_def opt_member_def text_member_def split: option.splits)

lemma projection_nodes:
  assumes "Projection_validate K p = None"
  obtains nodes where "canonicalNodes (prNodes p) = Inr nodes" "mset nodes = mset (map canonicalNode (prNodes p))"
    "\<And>n. n \<in> set nodes \<Longrightarrow> validateProjectedNode K n = None"
proof -
  have v: "validateProjectedNodes K (prNodes p) = None"
    using assms by (simp add: Projection_validate_def first_error_None)
  then have each: "\<forall>n \<in> set (prNodes p). validateStableID ''block ID'' (nodeID n) maxHandleLength = None \<and>
      validateProjectedNode K n = None" by (simp add: validateProjectedNodes_None)
  then have "'''' \<notin> nodeID ` set (prNodes p)" by (metis imageE validateStableID_nonempty)
  then have f: "nodes_forest (prNodes p)"
    using v no_cycles_forest [of "prNodes p"] by (simp add: validateProjectedNodes_None nodes_forest_def)
  from canonicalNodes_forest [OF f] obtain nodes where
    n: "canonicalNodes (prNodes p) = Inr nodes" "mset nodes = mset (map canonicalNode (prNodes p))" by blast
  have "set nodes = canonicalNode ` set (prNodes p)" using mset_eq_setD [OF n(2)] by simp
  then have "validateProjectedNode K m = None" if "m \<in> set nodes" for m
    using that each validateProjectedNode_within [OF canonical.within] by auto
  with n show ?thesis by (rule that)
qed

lemma int_orders_canonical: "int_orders n \<Longrightarrow> int_orders (canonicalNode n)"
  by (auto simp: int_orders_def canonicalNode_def canonicalRelation_def canonicalItem_def)

lemma EncodeProjection_blocks:
  assumes v: "Projection_validate K p = None" and o: "\<And>n. n \<in> set (prNodes p) \<Longrightarrow> int_orders n"
  shows "\<exists>j js nodes. EncodeProjection K p = Inr j \<and> canonicalNodes (prNodes p) = Inr nodes \<and>
    json_member ''blocks'' j = Some (JArray js) \<and>
    (if prMode p = ReadOutline
     then js = map (\<lambda>n. outline_json (newOutlineBlock n (case map_of (prPreviews p) (nodeID n) of None \<Rightarrow> '''' | Some t \<Rightarrow> t))) nodes
     else map_result (Node_UnmarshalJSON K) js = Inr (map wire_node nodes))"
proof -
  obtain nodes where n: "canonicalNodes (prNodes p) = Inr nodes" "mset nodes = mset (map canonicalNode (prNodes p))"
    "\<And>n. n \<in> set nodes \<Longrightarrow> validateProjectedNode K n = None"
    using projection_nodes [OF v] by blast
  have "set nodes = canonicalNode ` set (prNodes p)" using mset_eq_setD [OF n(2)] by simp
  then have "int_orders m" if "m \<in> set nodes" for m using that o int_orders_canonical by auto
  then have "\<exists>js. map_result (Node_MarshalJSON K) nodes = Inr js \<and> map_result (Node_UnmarshalJSON K) js = Inr (map wire_node nodes)"
    by (intro map_result_inverse Node_roundtrip n(3)) 
  then show ?thesis
    using v n(1) head_no_blocks [of p]
    by (auto simp: EncodeProjection_def json_member_def map_add_def cursor_member_def Let_def comp_def)
qed

end
