(* ===== verification/Content_Types.thy ===== *)
theory Content_Types
  imports Json "HOL-Library.Word"
begin

text \<open>
  The data of the content block store (\<open>internal/contentblock\<close>: \<open>types.go\<close>, \<open>errors.go\<close>, the aggregate of
  \<open>state.go\<close>): documents, blocks, locale overlays, mutation batches, the contract of the generated catalog.
\<close>

section \<open>Identifiers and errors\<close>

text \<open>
  A UUID is its 128 bits; \<open>uuid.Nil\<close> is \<open>0\<close>. Its text has lower-case hexadecimal digits in fixed places, so
  ordering by \<open>String()\<close> is the order of the numbers.
\<close>

type_synonym uuid = "128 word"

text \<open>
  \<open>ErrInvalidMutation\<close>, \<open>ErrFileReference\<close> and \<open>Fault\<close> (an error of a callback or of the database) carry
  the constant part of their message; \<open>Endless\<close> is a recursion that does not end.
\<close>

datatype block_error =
    ErrInvalidMutation string | ErrDocumentNotFound | ErrStaleRevision uuid | ErrCrossDocument
  | ErrFileReference string | Fault string | Endless

type_synonym 'a outcome = "block_error + 'a"

definition invalid_if :: "bool \<Rightarrow> string \<Rightarrow> block_error option" where
  "invalid_if b m = (if b then Some (ErrInvalidMutation m) else None)"

text \<open>\<open>fmt.Errorf("%w: \<dots>: %v", ErrInvalidMutation, err)\<close>\<close>

definition as_invalid :: "string \<Rightarrow> string + 'a \<Rightarrow> 'a outcome" where
  "as_invalid m r = (case r of Inl e \<Rightarrow> Inl (ErrInvalidMutation m) | Inr x \<Rightarrow> Inr x)"

lemma invalid_if_simps [simp]: "invalid_if True m = Some (ErrInvalidMutation m)" "invalid_if False m = None"
  by (simp_all add: invalid_if_def)

lemma invalid_if_None [simp]: "invalid_if b m = None \<longleftrightarrow> \<not> b"
  by (simp add: invalid_if_def)

lemma as_invalid_Inr [simp]: "as_invalid m r = Inr x \<longleftrightarrow> r = Inr x"
  by (cases r) (simp_all add: as_invalid_def)

section \<open>Documents and blocks\<close>

text \<open>
  Bytes of a \<open>json.RawMessage\<close>: white space only, bytes that are not exactly one JSON value, or the value.
\<close>

datatype raw = RawBlank string | RawMalformed string | RawJSON json

record ContentDocument =
  cdID :: uuid
  cdProfile :: string
  cdRevision :: uuid
  cdCreatedAt :: int
  cdUpdatedAt :: int

record BlockFileReference =
  refBlock :: uuid
  refPath :: string
  refFile :: uuid
  refMissing :: bool
  refMediaKind :: string
  refTypes :: "string list"
  refPrefixes :: "string list"

record BaseBlock =
  bbID :: uuid
  bbParent :: "uuid option"
  bbSlot :: string
  bbPosition :: int
  bbKind :: string
  bbShared :: raw

record FullBlock = BaseBlock +
  flLocalized :: raw
  flFiles :: "BlockFileReference list"

record LocaleBlockUpdate =
  luBlock :: uuid
  luExpectedKind :: string
  luData :: raw

record LocaleMutationGroup =
  lgLocale :: string
  lgUpserts :: "LocaleBlockUpdate list"
  lgDeletes :: "uuid list"

record LocaleOverlay =
  loLocale :: string
  loBlocks :: "LocaleBlockUpdate list"

record Reorder =
  roBlock :: uuid
  roParent :: "uuid option"
  roSlot :: string
  roPosition :: int

record File =
  fileID :: uuid
  fileMIMEType :: string
  fileDeleteRequested :: bool

record Limits =
  limMaxBlocks :: int
  limMaxDepth :: int

record ValidatedPayload =
  vpShared :: raw
  vpLocalized :: raw
  vpFiles :: "BlockFileReference list"

text \<open>
  The \<open>Contract\<close> interface.
\<close>

record Contract =
  coLimits :: "string \<Rightarrow> string + Limits"
  coValidateBlock :: "string \<Rightarrow> FullBlock \<Rightarrow> string + ValidatedPayload"
  coValidateLocale :: "string \<Rightarrow> string \<Rightarrow> raw \<Rightarrow> string + raw"
  coBuildExplicitEmptyLocale :: "string \<Rightarrow> string \<Rightarrow> raw \<Rightarrow> string + raw"
  coValidateParent :: "string \<Rightarrow> FullBlock option \<Rightarrow> FullBlock \<Rightarrow> string option"
  coTranslationSourceChanged :: "string \<Rightarrow> FullBlock list \<Rightarrow> FullBlock list \<Rightarrow> string + bool"

section \<open>Batches\<close>

text \<open>\<open>validatedProfile\<close> and \<open>validatedBaseReferences\<close> are set by the adapters of the generated messages only.\<close>

record Batch =
  baDocument :: uuid
  baExpectedRevision :: uuid
  baUpserts :: "BaseBlock list"
  baDeletes :: "uuid list"
  baReorders :: "Reorder list"
  baGroups :: "LocaleMutationGroup list"
  baContributors :: "uuid list"
  baProfile :: string
  baReferences :: "(uuid \<times> BlockFileReference list) list"

record Snapshot =
  snDocument :: ContentDocument
  snSourceLocale :: string
  snDigest :: string
  snBlocks :: "BaseBlock list"
  snOverlays :: "LocaleOverlay list"

record BatchResult =
  brRevision :: uuid
  brChanged :: bool
  brContentChanged :: bool
  brMetadataChanged :: bool
  brSourceChanged :: bool
  brChangedLocales :: "string list"

record MetadataEffect =
  meChanged :: bool
  meAffectsSource :: bool
  meSourceLocale :: string
  meChangedLocales :: "string list"

record localeMutation =
  lmLocale :: string
  lmBlock :: uuid
  lmDelete :: bool

record persistedMutation =
  pmSourceLocale :: string
  pmUpsertOrder :: "uuid list"
  pmLocaleMutations :: "localeMutation list"
  pmDeleteOrder :: "uuid list"
  pmReorders :: "Reorder list"
  pmKindChanged :: "uuid list"
  pmAllowMissingFiles :: bool

section \<open>Aggregates\<close>

text \<open>
  The maps of an aggregate are association lists with distinct keys. The code iterates over them in an
  order that Go leaves open; here it is the order of the list, and the theorems hold for every list.
\<close>

record aggregate =
  agDocument :: ContentDocument
  agBlocks :: "(uuid \<times> FullBlock) list"
  agLocales :: "(uuid \<times> (string \<times> raw) list) list"

definition newAggregate :: "ContentDocument \<Rightarrow> aggregate" where
  "newAggregate d = \<lparr>agDocument = d, agBlocks = [], agLocales = []\<rparr>"

text \<open>Reading a Go map of maps: an absent block has no locales.\<close>

definition locales_of :: "aggregate \<Rightarrow> uuid \<Rightarrow> (string \<times> raw) list" where
  "locales_of a b = (case map_of (agLocales a) b of None \<Rightarrow> [] | Some ls \<Rightarrow> ls)"

text \<open>The zero \<open>FullBlock\<close> that a Go map returns for a key it does not have.\<close>

definition zeroBlock :: FullBlock where
  "zeroBlock = \<lparr>bbID = 0, bbParent = None, bbSlot = '''', bbPosition = 0, bbKind = '''', bbShared = RawBlank '''',
     flLocalized = RawBlank '''', flFiles = []\<rparr>"

definition block_at :: "(uuid \<times> FullBlock) list \<Rightarrow> uuid \<Rightarrow> FullBlock" where
  "block_at blocks b = (case map_of blocks b of None \<Rightarrow> zeroBlock | Some x \<Rightarrow> x)"

definition baseBlock :: "FullBlock \<Rightarrow> BaseBlock" where
  "baseBlock b = BaseBlock.truncate b"

definition localizedData :: "aggregate \<Rightarrow> uuid \<Rightarrow> string \<Rightarrow> raw" where
  "localizedData a b l =
     (case map_of (locales_of a b) l of
        Some d \<Rightarrow> if d = RawBlank '''' then RawJSON (JObject []) else d
      | None \<Rightarrow> RawJSON (JObject []))"

text \<open>\<open>orderedBlocks\<close>: by parent, slot, position and ID; a root sorts before every parent.\<close>

definition block_order_key :: "FullBlock \<Rightarrow> nat \<times> string \<times> int \<times> uuid" where
  "block_order_key b = (case bbParent b of None \<Rightarrow> 0 | Some p \<Rightarrow> Suc (unat p), bbSlot b, bbPosition b, bbID b)"

definition orderedBlocks :: "(uuid \<times> FullBlock) list \<Rightarrow> FullBlock list" where
  "orderedBlocks blocks = sort_key block_order_key (map snd blocks)"

definition localizedBlocks :: "aggregate \<Rightarrow> string \<Rightarrow> FullBlock list" where
  "localizedBlocks a l = map (\<lambda>b. b\<lparr>flLocalized := localizedData a (bbID b) l\<rparr>) (orderedBlocks (agBlocks a))"

text \<open>\<open>aggregate.snapshot\<close>; the digest is set by the store.\<close>

definition aggregate_snapshot :: "aggregate \<Rightarrow> string \<Rightarrow> Snapshot" where
  "aggregate_snapshot a source =
     (let ordered = orderedBlocks (agBlocks a);
          locales = sort (remdups (concat (map (\<lambda>b. map fst (locales_of a (bbID b))) ordered)));
          overlay = (\<lambda>l. \<lparr>loLocale = l, loBlocks = concat (map (\<lambda>b.
            case map_of (locales_of a (bbID b)) l of
              None \<Rightarrow> []
            | Some d \<Rightarrow> [\<lparr>luBlock = bbID b, luExpectedKind = '''', luData = d\<rparr>]) ordered)\<rparr>)
      in \<lparr>snDocument = agDocument a, snSourceLocale = source, snDigest = '''',
          snBlocks = map baseBlock ordered, snOverlays = map overlay locales\<rparr>)"

end
