(* ===== verification/Content_Payload.thy ===== *)
theory Content_Payload
  imports Content_Types
begin

text \<open>
  Payloads of blocks (\<open>canonical.go\<close> and the payload half of \<open>validation.go\<close>): canonical JSON objects,
  normalization of one block against the contract, the comparison of file references, and the check that
  every locale of a block agrees on what the locales share.
\<close>

section \<open>Canonical objects\<close>

definition emptyObject :: raw where
  "emptyObject = RawJSON (JObject [])"

definition canonicalObject :: "raw \<Rightarrow> string + raw" where
  "canonicalObject d =
     (case d of
        RawBlank _ \<Rightarrow> Inr emptyObject
      | RawMalformed _ \<Rightarrow> Inl ''must be a JSON object''
      | RawJSON j \<Rightarrow>
          (case j of
             JObject ms \<Rightarrow> Inr (RawJSON (canonical_json j))
           | _ \<Rightarrow> Inl ''must be a JSON object''))"

definition sameCanonicalJSON :: "raw \<Rightarrow> raw \<Rightarrow> string + bool" where
  "sameCanonicalJSON l r = and_then (canonicalObject l) (\<lambda>x. and_then (canonicalObject r) (\<lambda>y. Inr (x = y)))"

lemma canonicalObject_idem: "canonicalObject d = Inr c \<Longrightarrow> canonicalObject c = Inr c"
proof (cases d)
  case (RawJSON j)
  assume "canonicalObject d = Inr c"
  with RawJSON obtain ms where "j = JObject ms" "c = RawJSON (canonical_json j)"
    by (auto simp: canonicalObject_def split: json.splits)
  then show ?thesis using canonical_json_idem [of j] by (simp add: canonicalObject_def)
qed (auto simp: canonicalObject_def emptyObject_def last_members_def)

section \<open>Names and locales\<close>

text \<open>\<open>^[a-z][a-z0-9_-]{0,63}$\<close> and \<open>^[A-Za-z][A-Za-z0-9_-]{0,63}$\<close>\<close>

definition containerSlotPattern :: "string \<Rightarrow> bool" where
  "containerSlotPattern s \<longleftrightarrow> s \<noteq> '''' \<and> length s \<le> 64 \<and> is_lower (hd s) \<and>
     list_all (\<lambda>c. is_lower c \<or> is_digit c \<or> c = CHR ''_'' \<or> c = CHR ''-'') (tl s)"

definition blockKindPattern :: "string \<Rightarrow> bool" where
  "blockKindPattern s \<longleftrightarrow> s \<noteq> '''' \<and> length s \<le> 64 \<and> (is_lower (hd s) \<or> is_upper (hd s)) \<and>
     list_all (\<lambda>c. is_lower c \<or> is_upper c \<or> is_digit c \<or> c = CHR ''_'' \<or> c = CHR ''-'') (tl s)"

text \<open>\<open>unicode.IsControl\<close>\<close>

definition is_control :: "nat \<Rightarrow> bool" where
  "is_control r \<longleftrightarrow> r < 32 \<or> 127 \<le> r \<and> r < 160"

definition validateBlockLocale :: "string \<Rightarrow> block_error option" where
  "validateBlockLocale l = invalid_if (l \<noteq> trim_space l \<or> l = '''' \<or> length l > 35) ''invalid locale''"

section \<open>One block\<close>

text \<open>One round of the loop over the file references of a payload; the state is the paths seen so far and
  the references built so far.\<close>

definition normalizeReference ::
    "uuid \<Rightarrow> string set \<times> BlockFileReference list \<Rightarrow> BlockFileReference \<Rightarrow> (string set \<times> BlockFileReference list) outcome" where
  "normalizeReference block s r =
     (let path = trim_space (refPath r);
          r' = r\<lparr>refBlock := block, refPath := path, refTypes := sort (refTypes r), refPrefixes := sort (refPrefixes r)\<rparr>
      in guard_error (first_error
           [invalid_if (path = '''' \<or> length path > 512 \<or> list_ex is_control (runes path)) ''invalid File reference path'',
            invalid_if (path \<in> fst s) ''duplicate File reference path'',
            invalid_if (refFile r = 0) ''File reference must contain a UUID'',
            invalid_if (refMissing r \<and> refMediaKind r = '''') ''missing attachment media kind is required'',
            invalid_if (\<not> refMissing r \<and> refMediaKind r \<noteq> '''') ''active attachment cannot contain a missing media kind''])
         (Inr (insert path (fst s), snd s @ [r'])))"

definition normalizeReferences :: "uuid \<Rightarrow> BlockFileReference list \<Rightarrow> BlockFileReference list outcome" where
  "normalizeReferences block rs =
     and_then (fold_result (normalizeReference block) ({}, []) rs) (\<lambda>s. Inr (sort_key refPath (snd s)))"

definition normalizeBlock :: "Contract \<Rightarrow> string \<Rightarrow> FullBlock \<Rightarrow> FullBlock outcome" where
  "normalizeBlock co profile b =
     (let kind = trim_space (bbKind b); slot = trim_space (bbSlot b);
          b' = b\<lparr>bbKind := kind, bbSlot := slot\<rparr>
      in guard_error (first_error
           [invalid_if (bbID b = 0) ''Block ID must be a UUID'',
            invalid_if (bbParent b = Some 0) ''parent Block ID must be a UUID'',
            invalid_if (\<not> blockKindPattern kind) ''invalid Block kind'',
            invalid_if (\<not> containerSlotPattern slot) ''invalid container slot'',
            invalid_if (bbPosition b < 0) ''Block position must not be negative''])
         (and_then (as_invalid ''validate Block'' (coValidateBlock co profile b'))
           (\<lambda>v. and_then (as_invalid ''shared data'' (canonicalObject (vpShared v)))
             (\<lambda>shared. and_then (as_invalid ''localized data'' (canonicalObject (vpLocalized v)))
               (\<lambda>localized. and_then (normalizeReferences (bbID b) (vpFiles v))
                 (\<lambda>refs. Inr (b'\<lparr>bbShared := shared, flLocalized := localized, flFiles := refs\<rparr>)))))))"

section \<open>File references\<close>

definition sameReference :: "BlockFileReference \<Rightarrow> BlockFileReference \<Rightarrow> bool" where
  "sameReference l r \<longleftrightarrow> refBlock l = refBlock r \<and> refPath l = refPath r \<and> refMissing l = refMissing r \<and>
     (if refMissing l then refMediaKind l = refMediaKind r else refFile l = refFile r)"

definition sameFileReferences :: "BlockFileReference list \<Rightarrow> BlockFileReference list \<Rightarrow> bool" where
  "sameFileReferences l r \<longleftrightarrow> length l = length r \<and>
     list_all2 sameReference (sort_key refPath l) (sort_key refPath r)"

definition sameBlockShared :: "FullBlock \<Rightarrow> FullBlock \<Rightarrow> bool" where
  "sameBlockShared l r \<longleftrightarrow> bbID l = bbID r \<and> bbParent l = bbParent r \<and> bbSlot l = bbSlot r \<and>
     bbPosition l = bbPosition r \<and> bbKind l = bbKind r \<and> bbShared l = bbShared r \<and>
     sameFileReferences (flFiles l) (flFiles r)"

definition validateMIME :: "BlockFileReference \<Rightarrow> string \<Rightarrow> bool" where
  "validateMIME r mime \<longleftrightarrow> refTypes r = [] \<and> refPrefixes r = [] \<or>
     mime \<in> set (refTypes r) \<or> list_ex (has_prefix mime) (refPrefixes r)"

section \<open>All locales of a block\<close>

text \<open>
  The loop over the locales keeps the shared data and the references of the first one and compares the
  others with them.
\<close>

definition payloadRound ::
    "Contract \<Rightarrow> string \<Rightarrow> FullBlock \<Rightarrow> (raw \<times> BlockFileReference list) option \<Rightarrow> string \<times> raw \<Rightarrow>
      (raw \<times> BlockFileReference list) option outcome" where
  "payloadRound co profile b first locale =
     and_then (normalizeBlock co profile (b\<lparr>flLocalized := snd locale\<rparr>))
       (\<lambda>n. case first of
          None \<Rightarrow> Inr (Some (bbShared n, flFiles n))
        | Some (shared, refs) \<Rightarrow>
            guard_error (first_error
              [invalid_if (shared \<noteq> bbShared n) ''locale changed shared data'',
               invalid_if (\<not> sameFileReferences refs (flFiles n)) ''locale changed File references''])
              (Inr first))"

definition validateAggregateBlockPayload :: "Contract \<Rightarrow> string \<Rightarrow> uuid \<Rightarrow> aggregate \<Rightarrow> aggregate outcome" where
  "validateAggregateBlockPayload co source k a =
     (case map_of (agBlocks a) k of
        None \<Rightarrow> Inl (ErrInvalidMutation ''Block does not exist'')
      | Some b \<Rightarrow>
          if map_of (locales_of a k) source = None then Inl (ErrInvalidMutation ''Block has no source locale overlay'')
          else and_then (fold_result (payloadRound co (cdProfile (agDocument a)) b) None (locales_of a k))
            (\<lambda>first. case (case first of None \<Rightarrow> (RawBlank '''', []) | Some x \<Rightarrow> x) of (shared, refs) \<Rightarrow>
               guard_error (invalid_if (\<not> sameFileReferences (flFiles b) refs) ''stored File references differ'')
                 (Inr (a\<lparr>agBlocks := AList.update k (b\<lparr>bbShared := shared, flFiles := refs\<rparr>) (agBlocks a)\<rparr>))))"

definition validateAggregateEnvelope :: "Contract \<Rightarrow> aggregate \<Rightarrow> string \<Rightarrow> Limits outcome" where
  "validateAggregateEnvelope co a source =
     guard_error (validateBlockLocale source)
       (and_then (as_invalid ''validate document profile'' (coLimits co (cdProfile (agDocument a))))
         (\<lambda>l. guard_error (first_error
            [invalid_if (limMaxBlocks l \<le> 0 \<or> limMaxDepth l \<le> 0) ''document profile has invalid limits'',
             invalid_if (int (length (agBlocks a)) > limMaxBlocks l) ''document exceeds Blocks''])
            (Inr l)))"

end
