(* ===== verification/Content_Structure.thy ===== *)
theory Content_Structure
  imports Content_Payload Forest
begin

text \<open>
  The structure half of \<open>validation.go\<close>: parents, depth, cycles and positions. \<open>block_depth\<close> is the memoized
  recursion of the code; the theory shows that the check accepts exactly the forests of bounded depth whose
  siblings are numbered from 0.
\<close>

section \<open>Depths\<close>

definition store_depth :: "Limits \<Rightarrow> uuid \<Rightarrow> (uuid \<times> int) list \<Rightarrow> int \<Rightarrow> ((uuid \<times> int) list \<times> int) outcome" where
  "store_depth lim k depths d =
     guard_error (invalid_if (d > limMaxDepth lim) ''document exceeds Block depth'') (Inr ((k, d) # depths, d))"

text \<open>The closure \<open>depth\<close>: \<open>depths\<close> holds the known depths, \<open>visiting\<close> the blocks below the current one.\<close>

function block_depth ::
    "Contract \<Rightarrow> string \<Rightarrow> (uuid \<times> FullBlock) list \<Rightarrow> Limits \<Rightarrow> uuid set \<Rightarrow> (uuid \<times> int) list \<Rightarrow> uuid \<Rightarrow>
      ((uuid \<times> int) list \<times> int) outcome" where
  "block_depth co profile blocks lim visiting depths k =
     (case map_of depths k of
        Some d \<Rightarrow> Inr (depths, d)
      | None \<Rightarrow>
          if k \<in> visiting then Inl (ErrInvalidMutation ''Block parent cycle'')
          else (let b = block_at blocks k in
            case bbParent b of
              None \<Rightarrow>
                if coValidateParent co profile None b \<noteq> None then Inl (ErrInvalidMutation ''invalid root Block'')
                else store_depth lim k depths 1
            | Some p \<Rightarrow>
                (case map_of blocks p of
                   None \<Rightarrow> Inl (ErrInvalidMutation ''parent does not exist'')
                 | Some parent \<Rightarrow>
                     if coValidateParent co profile (Some parent) b \<noteq> None then Inl (ErrInvalidMutation ''invalid parent'')
                     else (case block_depth co profile blocks lim (insert k visiting) depths p of
                         Inl e \<Rightarrow> Inl e
                       | Inr (depths', d) \<Rightarrow> store_depth lim k depths' (d + 1)))))"
  by pat_completeness auto
termination
proof (relation "measure (\<lambda>(co, profile, blocks, lim, visiting, depths, k). card (fst ` set blocks - visiting))", goal_cases)
  case (2 co profile blocks lim visiting depths k b p parent)
  have "k \<in> fst ` set blocks"
  proof (rule ccontr)
    assume "k \<notin> fst ` set blocks"
    then have "map_of blocks k = None" by (simp add: map_of_eq_None_iff)
    with 2 show False by (simp add: block_at_def zeroBlock_def)
  qed
  with 2(2) have "fst ` set blocks - insert k visiting \<subset> fst ` set blocks - visiting" by blast
  then show ?case by (simp add: psubset_card_mono)
qed simp

declare block_depth.simps [simp del]

section \<open>Positions\<close>

text \<open>The keys \<open>parent NUL slot\<close> and \<open>parent NUL slot NUL position\<close> are pairs here: the parent is \<open>root\<close> or a
  UUID and the position a number, so the texts are equal only if the parts are.\<close>

type_synonym sibling = "uuid option \<times> string"

definition sibling_key :: "FullBlock \<Rightarrow> sibling" where
  "sibling_key b = (bbParent b, bbSlot b)"

record structure_state =
  ssDepths :: "(uuid \<times> int) list"
  ssPositions :: "(sibling \<times> int) set"
  ssSiblings :: "(sibling \<times> int list) list"

definition structureRound ::
    "Contract \<Rightarrow> string \<Rightarrow> (uuid \<times> FullBlock) list \<Rightarrow> Limits \<Rightarrow> structure_state \<Rightarrow> uuid \<times> FullBlock \<Rightarrow>
      structure_state outcome" where
  "structureRound co profile blocks lim s entry =
     (case entry of (k, b) \<Rightarrow>
        and_then (block_depth co profile blocks lim {} (ssDepths s) k)
          (\<lambda>(depths, d). let key = sibling_key b in
             guard_error (invalid_if ((key, bbPosition b) \<in> ssPositions s) ''Blocks share one position'')
               (Inr \<lparr>ssDepths = depths, ssPositions = insert (key, bbPosition b) (ssPositions s),
                  ssSiblings = AList.update key
                    ((case map_of (ssSiblings s) key of None \<Rightarrow> [] | Some ps \<Rightarrow> ps) @ [bbPosition b]) (ssSiblings s)\<rparr>)))"

text \<open>Sorted positions that are \<open>0, 1, 2, \<dots>\<close>\<close>

definition dense :: "int list \<Rightarrow> bool" where
  "dense ps \<longleftrightarrow> sort ps = map int [0..<length ps]"

definition validateAggregateStructure :: "Contract \<Rightarrow> aggregate \<Rightarrow> Limits \<Rightarrow> block_error option" where
  "validateAggregateStructure co a lim =
     (case fold_result (structureRound co (cdProfile (agDocument a)) (agBlocks a) lim)
         \<lparr>ssDepths = [], ssPositions = {}, ssSiblings = []\<rparr> (agBlocks a) of
        Inl e \<Rightarrow> Some e
      | Inr s \<Rightarrow> check_all (\<lambda>(key, ps). invalid_if (\<not> dense ps) ''sibling positions must be dense from zero'') (ssSiblings s))"

text \<open>\<open>validateAggregate\<close>: envelope, the payload of every block, structure.\<close>

definition validateAggregate :: "Contract \<Rightarrow> string \<Rightarrow> aggregate \<Rightarrow> aggregate outcome" where
  "validateAggregate co source a =
     and_then (validateAggregateEnvelope co a source)
       (\<lambda>lim. and_then (fold_result (\<lambda>s k. validateAggregateBlockPayload co source k s) a (map fst (agBlocks a)))
         (\<lambda>a'. guard_error (validateAggregateStructure co a' lim) (Inr a')))"

section \<open>What the checks accept\<close>

definition block_parents :: "(uuid \<times> FullBlock) list \<Rightarrow> (uuid \<rightharpoonup> uuid)" where
  "block_parents blocks k = (case map_of blocks k of None \<Rightarrow> None | Some b \<Rightarrow> bbParent b)"

definition parent_ok :: "Contract \<Rightarrow> string \<Rightarrow> (uuid \<times> FullBlock) list \<Rightarrow> FullBlock \<Rightarrow> bool" where
  "parent_ok co profile blocks b \<longleftrightarrow>
     (case bbParent b of
        None \<Rightarrow> coValidateParent co profile None b = None
      | Some p \<Rightarrow> (case map_of blocks p of
            None \<Rightarrow> False
          | Some parent \<Rightarrow> coValidateParent co profile (Some parent) b = None))"

text \<open>A block whose walk to the root is accepted, with its depth.\<close>

inductive deep :: "Contract \<Rightarrow> string \<Rightarrow> (uuid \<times> FullBlock) list \<Rightarrow> Limits \<Rightarrow> uuid \<Rightarrow> int \<Rightarrow> bool"
  for co profile blocks lim where
  root: "bbParent (block_at blocks k) = None \<Longrightarrow> parent_ok co profile blocks (block_at blocks k) \<Longrightarrow>
    1 \<le> limMaxDepth lim \<Longrightarrow> deep co profile blocks lim k 1"
| child: "bbParent (block_at blocks k) = Some p \<Longrightarrow> parent_ok co profile blocks (block_at blocks k) \<Longrightarrow>
    deep co profile blocks lim p d \<Longrightarrow> d + 1 \<le> limMaxDepth lim \<Longrightarrow> deep co profile blocks lim k (d + 1)"

definition known_deep :: "Contract \<Rightarrow> string \<Rightarrow> (uuid \<times> FullBlock) list \<Rightarrow> Limits \<Rightarrow> (uuid \<times> int) list \<Rightarrow> bool" where
  "known_deep co profile blocks lim depths \<longleftrightarrow> (\<forall>k d. map_of depths k = Some d \<longrightarrow> deep co profile blocks lim k d)"

lemma store_depth_Inr:
  "store_depth lim k depths d = Inr r \<longleftrightarrow> d \<le> limMaxDepth lim \<and> r = ((k, d) # depths, d)"
  by (auto simp: store_depth_def guard_error_Inr)

lemma known_deep_Cons:
  "known_deep co profile blocks lim depths \<Longrightarrow> deep co profile blocks lim k d \<Longrightarrow>
   known_deep co profile blocks lim ((k, d) # depths)"
  by (auto simp: known_deep_def)

lemma block_depth_sound:
  "block_depth co profile blocks lim visiting depths k = Inr (depths', d) \<Longrightarrow>
   known_deep co profile blocks lim depths \<Longrightarrow>
   deep co profile blocks lim k d \<and> known_deep co profile blocks lim depths'"
proof (induction co profile blocks lim visiting depths k arbitrary: depths' d rule: block_depth.induct)
  case (1 co profile blocks lim visiting depths k)
  show ?case
  proof (cases "map_of depths k")
    case (Some e)
    then show ?thesis using 1(2,3) by (auto simp: block_depth.simps [of co] known_deep_def)
  next
    case None
    note new = this
    let ?b = "block_at blocks k"
    show ?thesis
    proof (cases "bbParent ?b")
      case None
      then have "coValidateParent co profile None ?b = None" "1 \<le> limMaxDepth lim" "d = 1" "depths' = (k, 1) # depths"
        using new 1(2) by (auto simp: block_depth.simps [of co] Let_def store_depth_Inr split: if_splits)
      moreover from calculation have "deep co profile blocks lim k 1"
        using None by (intro deep.root) (simp_all add: parent_ok_def)
      ultimately show ?thesis using 1(3) known_deep_Cons by simp
    next
      case (Some p)
      then obtain parent ds e where s: "k \<notin> visiting" "map_of blocks p = Some parent"
          "coValidateParent co profile (Some parent) ?b = None"
          "block_depth co profile blocks lim (insert k visiting) depths p = Inr (ds, e)"
          "e + 1 \<le> limMaxDepth lim" "d = e + 1" "depths' = (k, e + 1) # ds"
        using new 1(2)
        by (auto simp: block_depth.simps [of co _ _ _ visiting] Let_def store_depth_Inr split: if_splits option.splits sum.splits)
      have "deep co profile blocks lim p e" "known_deep co profile blocks lim ds"
        using 1(1) [OF new s(1) refl Some s(2) _ s(4) 1(3)] s(3) by auto
      moreover from calculation have "deep co profile blocks lim k (e + 1)"
        using s Some by (intro deep.child) (simp_all add: parent_ok_def)
      ultimately show ?thesis using s known_deep_Cons by simp
    qed
  qed
qed

lemma deep_rooted: "deep co profile blocks lim k d \<Longrightarrow> rooted (block_parents blocks) k"
proof (induction rule: deep.induct)
  case (root k)
  then show ?case by (intro rooted.outside) (auto simp: block_parents_def block_at_def split: option.splits)
next
  case (child k p d)
  then have "block_parents blocks k = Some p"
    by (auto simp: block_parents_def block_at_def zeroBlock_def split: option.splits)
  then show ?case using child.IH by (rule rooted.child)
qed

lemma deep_functional: "deep co profile blocks lim k d \<Longrightarrow> deep co profile blocks lim k e \<Longrightarrow> d = e"
proof (induction arbitrary: e rule: deep.induct)
  case (root k)
  then show ?case by (auto elim: deep.cases)
next
  case (child k p d)
  from child.prems child.hyps(1) obtain e' where "e = e' + 1" "deep co profile blocks lim p e'"
    by (auto elim: deep.cases)
  with child.IH show ?case by blast
qed

lemma block_depth_complete:
  "deep co profile blocks lim k d \<Longrightarrow> known_deep co profile blocks lim depths \<Longrightarrow>
   k \<notin> visiting \<Longrightarrow> (\<And>a. ancestor (block_parents blocks) a k \<Longrightarrow> a \<notin> visiting) \<Longrightarrow>
   \<exists>r. block_depth co profile blocks lim visiting depths k = Inr r"
proof (induction arbitrary: visiting depths rule: deep.induct)
  case (root k)
  then show ?case
    by (cases "map_of depths k") (auto simp: block_depth.simps [of co] Let_def parent_ok_def store_depth_def)
next
  case (child k p d)
  show ?case
  proof (cases "map_of depths k")
    case None
    from child.hyps(1,2) obtain parent where p: "map_of blocks p = Some parent"
        "coValidateParent co profile (Some parent) (block_at blocks k) = None"
      by (auto simp: parent_ok_def split: option.splits)
    have pk: "block_parents blocks k = Some p"
      using child.hyps(1) by (auto simp: block_parents_def block_at_def zeroBlock_def split: option.splits)
    have r: "rooted (block_parents blocks) k"
      by (rule rooted.child) (rule pk, rule deep_rooted [OF child.hyps(3)])
    have no: "\<not> ancestor (block_parents blocks) k k" by (rule ancestor_rooted_irrefl [OF r])
    have "p \<noteq> k" using no pk by (auto intro: ancestor.parent)
    have "\<exists>r. block_depth co profile blocks lim (insert k visiting) depths p = Inr r"
      by (rule child.IH) (use child.prems pk no \<open>p \<noteq> k\<close> in \<open>auto intro: ancestor.intros\<close>)
    then obtain ds e where rec: "block_depth co profile blocks lim (insert k visiting) depths p = Inr (ds, e)" by auto
    have "deep co profile blocks lim p e" using block_depth_sound [OF rec child.prems(1)] by simp
    then have "e = d" by (rule deep_functional) (rule child.hyps(3))
    then show ?thesis using None child.prems child.hyps p rec
      by (simp add: block_depth.simps [of co _ _ _ visiting] Let_def store_depth_def)
  qed (auto simp: block_depth.simps [of co])
qed

text \<open>The positions of one group of siblings, in the order of the list.\<close>

definition positions :: "(uuid \<times> FullBlock) list \<Rightarrow> sibling \<Rightarrow> int list" where
  "positions blocks key = map (\<lambda>(k, b). bbPosition b) (filter (\<lambda>(k, b). sibling_key b = key) blocks)"

definition place :: "uuid \<times> FullBlock \<Rightarrow> sibling \<times> int" where
  "place e = (sibling_key (snd e), bbPosition (snd e))"

definition seen_ok ::
    "Contract \<Rightarrow> string \<Rightarrow> (uuid \<times> FullBlock) list \<Rightarrow> Limits \<Rightarrow> structure_state \<Rightarrow> (uuid \<times> FullBlock) list \<Rightarrow> bool" where
  "seen_ok co profile blocks lim s xs \<longleftrightarrow> known_deep co profile blocks lim (ssDepths s) \<and>
     ssPositions s = place ` set xs \<and> distinct (map fst (ssSiblings s)) \<and>
     (\<forall>key. map_of (ssSiblings s) key = (if positions xs key = [] then None else Some (positions xs key)))"

lemma seen_siblings:
  "seen_ok co profile blocks lim s xs \<Longrightarrow>
   map_of (ssSiblings s) key = (if positions xs key = [] then None else Some (positions xs key))"
  unfolding seen_ok_def by blast

lemma structureRound_Inr:
  "structureRound co profile blocks lim s (k, b) = Inr s' \<longleftrightarrow>
     (\<exists>depths d. block_depth co profile blocks lim {} (ssDepths s) k = Inr (depths, d) \<and>
        (sibling_key b, bbPosition b) \<notin> ssPositions s \<and>
        s' = \<lparr>ssDepths = depths, ssPositions = insert (sibling_key b, bbPosition b) (ssPositions s),
          ssSiblings = AList.update (sibling_key b)
            ((case map_of (ssSiblings s) (sibling_key b) of None \<Rightarrow> [] | Some ps \<Rightarrow> ps) @ [bbPosition b]) (ssSiblings s)\<rparr>)"
  by (auto simp: structureRound_def and_then_Inr Let_def guard_error_Inr)

lemma structureRound_seen:
  assumes "seen_ok co profile blocks lim s xs" and r: "structureRound co profile blocks lim s e = Inr s'"
  shows "seen_ok co profile blocks lim s' (xs @ [e]) \<and> (\<exists>d. deep co profile blocks lim (fst e) d) \<and> place e \<notin> place ` set xs"
proof (cases e)
  case (Pair k b)
  then obtain depths d where st: "block_depth co profile blocks lim {} (ssDepths s) k = Inr (depths, d)"
      "(sibling_key b, bbPosition b) \<notin> ssPositions s"
      "s' = \<lparr>ssDepths = depths, ssPositions = insert (sibling_key b, bbPosition b) (ssPositions s),
          ssSiblings = AList.update (sibling_key b)
            ((case map_of (ssSiblings s) (sibling_key b) of None \<Rightarrow> [] | Some ps \<Rightarrow> ps) @ [bbPosition b]) (ssSiblings s)\<rparr>"
    using r by (auto simp: structureRound_Inr)
  have kd: "known_deep co profile blocks lim (ssDepths s)" using assms(1) by (simp add: seen_ok_def)
  have pos: "positions (xs @ [(k, b)]) key = positions xs key @ (if sibling_key b = key then [bbPosition b] else [])" for key
    by (simp add: positions_def)
  have old: "(case map_of (ssSiblings s) (sibling_key b) of None \<Rightarrow> [] | Some ps \<Rightarrow> ps) = positions xs (sibling_key b)"
    unfolding seen_siblings [OF assms(1)] by simp
  show ?thesis
    using assms(1) st(2) Pair block_depth_sound [OF st(1) kd]
    unfolding st(3) old by (auto simp: seen_ok_def pos place_def update_conv' distinct_update)
qed

lemma rounds_sound:
  "fold_result (structureRound co profile blocks lim) s ys = Inr s' \<Longrightarrow> seen_ok co profile blocks lim s xs \<Longrightarrow>
   seen_ok co profile blocks lim s' (xs @ ys) \<and> (\<forall>e \<in> set ys. \<exists>d. deep co profile blocks lim (fst e) d) \<and>
   distinct (map place ys) \<and> place ` set ys \<inter> place ` set xs = {}"
proof (induction ys arbitrary: s xs)
  case (Cons e ys)
  from Cons.prems(1) obtain t where t: "structureRound co profile blocks lim s e = Inr t"
      "fold_result (structureRound co profile blocks lim) t ys = Inr s'"
    by (auto simp: and_then_Inr)
  from structureRound_seen [OF Cons.prems(2) t(1)] Cons.IH [OF t(2), of "xs @ [e]"] show ?case by auto
qed simp

lemma rounds_complete:
  "seen_ok co profile blocks lim s xs \<Longrightarrow> \<forall>e \<in> set ys. \<exists>d. deep co profile blocks lim (fst e) d \<Longrightarrow>
   distinct (map place (xs @ ys)) \<Longrightarrow> \<exists>s'. fold_result (structureRound co profile blocks lim) s ys = Inr s'"
proof (induction ys arbitrary: s xs)
  case (Cons e ys)
  obtain k b where e: "e = (k, b)" by (cases e)
  have kd: "known_deep co profile blocks lim (ssDepths s)" using Cons.prems(1) by (simp add: seen_ok_def)
  obtain d where "deep co profile blocks lim k d" using Cons.prems(2) e by auto
  from block_depth_complete [OF this kd, of "{}"] obtain r where
    "block_depth co profile blocks lim {} (ssDepths s) k = Inr r" by auto
  moreover have "place e \<notin> ssPositions s" using Cons.prems(1,3) by (auto simp: seen_ok_def)
  ultimately obtain t where t: "structureRound co profile blocks lim s e = Inr t"
    using structureRound_Inr [of co profile blocks lim s k b] by (cases r) (auto simp: e place_def)
  have "\<exists>s'. fold_result (structureRound co profile blocks lim) t ys = Inr s'"
    using Cons.IH [of t "xs @ [e]"] structureRound_seen [OF Cons.prems(1) t] Cons.prems(2,3) by simp
  with t show ?case by auto
qed simp

definition structure_ok :: "Contract \<Rightarrow> string \<Rightarrow> (uuid \<times> FullBlock) list \<Rightarrow> Limits \<Rightarrow> bool" where
  "structure_ok co profile blocks lim \<longleftrightarrow>
     (\<forall>k \<in> fst ` set blocks. \<exists>d. deep co profile blocks lim k d) \<and> (\<forall>key. dense (positions blocks key))"

lemma dense_Nil [simp]: "dense []"
  by (simp add: dense_def)

lemma dense_distinct: "dense ps \<Longrightarrow> distinct ps"
proof -
  assume "dense ps"
  then have "distinct (sort ps)" by (simp add: dense_def distinct_map)
  then show ?thesis by simp
qed

lemma places_distinct: "(\<And>key. distinct (positions blocks key)) \<Longrightarrow> distinct (map place blocks)"
proof (induction blocks)
  case (Cons e es)
  obtain k b where e: "e = (k, b)" by (cases e)
  have pos: "positions (e # es) key = (if sibling_key b = key then [bbPosition b] else []) @ positions es key" for key
    by (simp add: positions_def e)
  have "distinct (positions es key)" for key using Cons.prems [of key] by (auto simp: pos split: if_splits)
  then have "distinct (map place es)" by (rule Cons.IH)
  moreover have "bbPosition b \<notin> set (positions es (sibling_key b))" using Cons.prems [of "sibling_key b"] by (simp add: pos)
  then have "place e \<notin> place ` set es" by (auto simp: positions_def place_def e)
  ultimately show ?case by simp
qed simp

lemma validateAggregateStructure_iff:
  "validateAggregateStructure co a lim = None \<longleftrightarrow> structure_ok co (cdProfile (agDocument a)) (agBlocks a) lim"
proof -
  let ?p = "cdProfile (agDocument a)" and ?bs = "agBlocks a"
  let ?s = "\<lparr>ssDepths = [], ssPositions = {}, ssSiblings = []\<rparr>"
  have init: "seen_ok co ?p ?bs lim ?s []" by (simp add: seen_ok_def known_deep_def positions_def)
  have groups: "check_all (\<lambda>(key, ps). invalid_if (\<not> dense ps) m) (ssSiblings s) = None \<longleftrightarrow> (\<forall>key. dense (positions ?bs key))"
    if "seen_ok co ?p ?bs lim s ?bs" for s m
  proof -
    have m: "(key, ps) \<in> set (ssSiblings s) \<longleftrightarrow> ps = positions ?bs key \<and> ps \<noteq> []" for key ps
    proof -
      have "distinct (map fst (ssSiblings s))" using that by (simp add: seen_ok_def)
      then have "(key, ps) \<in> set (ssSiblings s) \<longleftrightarrow> map_of (ssSiblings s) key = Some ps" by simp
      then show ?thesis unfolding seen_siblings [OF that] by auto
    qed
    have "check_all (\<lambda>(key, ps). invalid_if (\<not> dense ps) m) (ssSiblings s) = None \<longleftrightarrow>
        (\<forall>key ps. (key, ps) \<in> set (ssSiblings s) \<longrightarrow> dense ps)"
      by (fastforce simp: check_all_None)
    also have "\<dots> \<longleftrightarrow> (\<forall>key. positions ?bs key \<noteq> [] \<longrightarrow> dense (positions ?bs key))" unfolding m by simp
    also have "\<dots> \<longleftrightarrow> (\<forall>key. dense (positions ?bs key))" by (metis dense_Nil)
    finally show ?thesis .
  qed
  show ?thesis
  proof
    assume v: "validateAggregateStructure co a lim = None"
    then obtain s where s: "fold_result (structureRound co ?p ?bs lim) ?s ?bs = Inr s"
      by (auto simp: validateAggregateStructure_def split: sum.splits)
    from rounds_sound [OF this init] v groups [of s] s show "structure_ok co ?p ?bs lim"
      by (auto simp: validateAggregateStructure_def structure_ok_def)
  next
    assume ok: "structure_ok co ?p ?bs lim"
    then have "distinct (map place ?bs)" unfolding structure_ok_def by (intro places_distinct dense_distinct) blast
    then obtain s where s: "fold_result (structureRound co ?p ?bs lim) ?s ?bs = Inr s"
      using rounds_complete [OF init, of ?bs] ok by (auto simp: structure_ok_def)
    from rounds_sound [OF this init] s groups [of s] ok show "validateAggregateStructure co a lim = None"
      by (auto simp: validateAggregateStructure_def structure_ok_def)
  qed
qed

end
