(* ===== verification/Content_Contract.thy ===== *)
theory Content_Contract
  imports Content_Structure
begin

text \<open>
  The production contract (\<open>generated_contract.go\<close>): an adapter around the generated content catalog, whose
  functions are parameters. The locale \<open>placed_contract\<close> is what the store relies on: payload checks do not look
  at the place, the identity or the file references of a block, parent checks at kinds, shared data and the slot only. The
  adapter has these properties whatever the catalog does.
\<close>

section \<open>The generated catalog\<close>

datatype MissingAttachmentMediaKind = KindUnspecified | KindImage | KindAudio | KindVideo | KindFile

record ContentStorageFileReference =
  csPath :: string
  csFileID :: string
  csMissing :: bool
  csMediaKind :: MissingAttachmentMediaKind
  csTypes :: "string list"
  csPrefixes :: "string list"

record ContentStorageLocale =
  slLocale :: string
  slData :: raw

text \<open>\<open>Position\<close> is an \<open>int32\<close>; a missing parent is the empty text.\<close>

record ContentStorageRow =
  srBlock :: uuid
  srParent :: "uuid option"
  srSlot :: string
  srPosition :: "32 word"
  srKind :: string
  srShared :: raw
  srLocales :: "ContentStorageLocale list"

record ContentStorageBlock =
  csShared :: raw
  csLocalized :: raw
  csFiles :: "ContentStorageFileReference list"

text \<open>The functions of \<open>contentv1\<close> and \<open>uuid.Parse\<close>.\<close>

record content_catalog =
  ccParseProfile :: "string \<Rightarrow> string option"
  ccNormalizeBlock :: "string \<Rightarrow> string \<Rightarrow> raw \<Rightarrow> raw \<Rightarrow> string + ContentStorageBlock"
  ccNormalizeLocale :: "string \<Rightarrow> string \<Rightarrow> raw \<Rightarrow> string + raw"
  ccBuildExplicitEmptyLocale :: "string \<Rightarrow> string \<Rightarrow> raw \<Rightarrow> string + raw"
  ccValidateParent :: "string \<Rightarrow> string \<Rightarrow> raw \<Rightarrow> string \<Rightarrow> raw \<Rightarrow> string \<Rightarrow> string option"
  ccTranslationSourceChanged :: "string \<Rightarrow> ContentStorageRow list \<Rightarrow> ContentStorageRow list \<Rightarrow> string \<Rightarrow> string + bool"
  ccParseUUID :: "string \<Rightarrow> uuid option"

definition generatedMaxDocumentBlocks :: int where
  "generatedMaxDocumentBlocks = 10000"

definition generatedMaxBlockDepth :: int where
  "generatedMaxBlockDepth = 32"

definition missingAttachmentMediaKindName :: "MissingAttachmentMediaKind \<Rightarrow> string" where
  "missingAttachmentMediaKindName k =
     (case k of KindImage \<Rightarrow> ''image'' | KindAudio \<Rightarrow> ''audio'' | KindVideo \<Rightarrow> ''video'' | KindFile \<Rightarrow> ''file''
      | KindUnspecified \<Rightarrow> '''')"

definition generated_reference :: "content_catalog \<Rightarrow> ContentStorageFileReference \<Rightarrow> string + BlockFileReference" where
  "generated_reference cc r =
     (case ccParseUUID cc (csFileID r) of
        None \<Rightarrow> Inl ''invalid generated File UUID''
      | Some f \<Rightarrow> Inr \<lparr>refBlock = 0, refPath = csPath r, refFile = f, refMissing = csMissing r,
          refMediaKind = missingAttachmentMediaKindName (csMediaKind r), refTypes = csTypes r, refPrefixes = csPrefixes r\<rparr>)"

definition fileReferencesFromGenerated ::
    "content_catalog \<Rightarrow> ContentStorageFileReference list \<Rightarrow> string + BlockFileReference list" where
  "fileReferencesFromGenerated cc rs =
     fold_result (\<lambda>acc r. and_then (generated_reference cc r) (\<lambda>x. Inr (acc @ [x]))) [] rs"

definition generated_Limits :: "content_catalog \<Rightarrow> string \<Rightarrow> string + Limits" where
  "generated_Limits cc profile =
     (case ccParseProfile cc profile of
        Some e \<Rightarrow> Inl e
      | None \<Rightarrow> Inr \<lparr>limMaxBlocks = generatedMaxDocumentBlocks, limMaxDepth = generatedMaxBlockDepth\<rparr>)"

definition generated_ValidateBlock :: "content_catalog \<Rightarrow> string \<Rightarrow> FullBlock \<Rightarrow> string + ValidatedPayload" where
  "generated_ValidateBlock cc profile b =
     and_then (ccNormalizeBlock cc profile (bbKind b) (bbShared b) (flLocalized b))
       (\<lambda>v. and_then (fileReferencesFromGenerated cc (csFiles v))
         (\<lambda>refs. Inr \<lparr>vpShared = csShared v, vpLocalized = csLocalized v, vpFiles = refs\<rparr>))"

definition generated_ValidateParent :: "content_catalog \<Rightarrow> string \<Rightarrow> FullBlock option \<Rightarrow> FullBlock \<Rightarrow> string option" where
  "generated_ValidateParent cc profile parent child =
     (let parentKind = (case parent of None \<Rightarrow> '''' | Some p \<Rightarrow> bbKind p);
          parentShared = (case parent of None \<Rightarrow> RawBlank '''' | Some p \<Rightarrow> bbShared p)
      in ccValidateParent cc profile parentKind parentShared (bbKind child) (bbShared child) (bbSlot child))"

definition fullBlocksToStorageRows :: "FullBlock list \<Rightarrow> string \<Rightarrow> ContentStorageRow list" where
  "fullBlocksToStorageRows blocks l = map (\<lambda>b. \<lparr>srBlock = bbID b, srParent = bbParent b, srSlot = bbSlot b,
     srPosition = word_of_int (bbPosition b), srKind = bbKind b, srShared = bbShared b,
     srLocales = [\<lparr>slLocale = l, slData = flLocalized b\<rparr>]\<rparr>) blocks"

definition generated_TranslationSourceChanged ::
    "content_catalog \<Rightarrow> string \<Rightarrow> FullBlock list \<Rightarrow> FullBlock list \<Rightarrow> string + bool" where
  "generated_TranslationSourceChanged cc profile before after =
     ccTranslationSourceChanged cc profile (fullBlocksToStorageRows before ''source'')
       (fullBlocksToStorageRows after ''source'') ''source''"

definition generatedContract :: "content_catalog \<Rightarrow> Contract" where
  "generatedContract cc = \<lparr>coLimits = generated_Limits cc, coValidateBlock = generated_ValidateBlock cc,
     coValidateLocale = ccNormalizeLocale cc, coBuildExplicitEmptyLocale = ccBuildExplicitEmptyLocale cc,
     coValidateParent = generated_ValidateParent cc,
     coTranslationSourceChanged = generated_TranslationSourceChanged cc\<rparr>"

lemma generated_depth: "coLimits (generatedContract cc) p = Inr lim \<Longrightarrow> limMaxDepth lim = 32"
  by (auto simp: generatedContract_def generated_Limits_def generatedMaxBlockDepth_def split: option.splits)

section \<open>What the store relies on\<close>

definition same_payload :: "FullBlock \<Rightarrow> FullBlock \<Rightarrow> bool" where
  "same_payload b c \<longleftrightarrow> bbKind b = bbKind c \<and> bbShared b = bbShared c \<and> flLocalized b = flLocalized c"

definition same_kind :: "FullBlock \<Rightarrow> FullBlock \<Rightarrow> bool" where
  "same_kind b c \<longleftrightarrow> bbKind b = bbKind c \<and> bbShared b = bbShared c"

text \<open>A payload that is already normalized, in its shared or in its localized half, validates to the same.\<close>

definition stable_contract :: "Contract \<Rightarrow> bool" where
  "stable_contract co \<longleftrightarrow>
     (\<forall>p b v s l. coValidateBlock co p b = Inr v \<and> canonicalObject (vpShared v) = Inr s \<and> canonicalObject (vpLocalized v) = Inr l \<longrightarrow>
        coValidateBlock co p (b\<lparr>bbShared := s\<rparr>) = Inr v \<and> coValidateBlock co p (b\<lparr>flLocalized := l\<rparr>) = Inr v)"

text \<open>A block in a place that \<open>normalizeBlock\<close> accepts.\<close>

definition placed_ok :: "FullBlock \<Rightarrow> bool" where
  "placed_ok b \<longleftrightarrow> bbID b \<noteq> 0 \<and> bbParent b \<noteq> Some 0 \<and> containerSlotPattern (trim_space (bbSlot b)) \<and> 0 \<le> bbPosition b"

locale placed_contract =
  fixes co :: Contract
  assumes place_free: "same_payload b c \<Longrightarrow> coValidateBlock co p b = coValidateBlock co p c"
    and parent_free: "rel_option same_kind par par' \<Longrightarrow> same_kind b c \<Longrightarrow> bbSlot b = bbSlot c \<Longrightarrow>
      coValidateParent co p par b = coValidateParent co p par' c"
begin

text \<open>Normalization of a block depends on the payload, on the identity and on the place being acceptable.\<close>

lemma normalize_moved:
  assumes n: "normalizeBlock co p b = Inr n" and "same_payload b c" and "bbID c = bbID b" and "placed_ok c"
  shows "\<exists>m. normalizeBlock co p c = Inr m \<and> bbShared m = bbShared n \<and> flLocalized m = flLocalized n \<and> flFiles m = flFiles n"
proof -
  let ?b = "b\<lparr>bbKind := trim_space (bbKind b), bbSlot := trim_space (bbSlot b)\<rparr>"
  let ?c = "c\<lparr>bbKind := trim_space (bbKind c), bbSlot := trim_space (bbSlot c)\<rparr>"
  have v: "coValidateBlock co p ?c = coValidateBlock co p ?b"
    by (rule place_free) (use assms(2) in \<open>simp add: same_payload_def\<close>)
  show ?thesis
    using n assms(2-4) v
    by (auto simp: normalizeBlock_def Let_def guard_error_Inr and_then_Inr first_error_None same_payload_def placed_ok_def)
qed

text \<open>Writing back the normalized shared or localized half changes nothing.\<close>

lemma normalize_stable:
  assumes st: "stable_contract co" and n: "normalizeBlock co p b = Inr n"
  shows "\<exists>m. normalizeBlock co p (b\<lparr>bbShared := bbShared n\<rparr>) = Inr m \<and>
      bbShared m = bbShared n \<and> flLocalized m = flLocalized n \<and> flFiles m = flFiles n"
    and "\<exists>m. normalizeBlock co p (b\<lparr>flLocalized := flLocalized n\<rparr>) = Inr m \<and>
      bbShared m = bbShared n \<and> flLocalized m = flLocalized n \<and> flFiles m = flFiles n"
proof -
  let ?b = "b\<lparr>bbKind := trim_space (bbKind b), bbSlot := trim_space (bbSlot b)\<rparr>"
  from n obtain v s l where v: "coValidateBlock co p ?b = Inr v" "canonicalObject (vpShared v) = Inr s"
      "canonicalObject (vpLocalized v) = Inr l" and "bbShared n = s" "flLocalized n = l"
    by (auto simp: normalizeBlock_def Let_def guard_error_Inr and_then_Inr)
  moreover have w: "coValidateBlock co p (?b\<lparr>bbShared := s\<rparr>) = Inr v" "coValidateBlock co p (?b\<lparr>flLocalized := l\<rparr>) = Inr v"
    using st v unfolding stable_contract_def by blast+
  moreover have "coValidateBlock co p (b\<lparr>bbShared := s, bbKind := trim_space (bbKind b), bbSlot := trim_space (bbSlot b)\<rparr>) = Inr v"
    by (rule trans [OF place_free w(1)]) (simp add: same_payload_def)
  moreover have "coValidateBlock co p (b\<lparr>flLocalized := l, bbKind := trim_space (bbKind b), bbSlot := trim_space (bbSlot b)\<rparr>) = Inr v"
    by (rule trans [OF place_free w(2)]) (simp add: same_payload_def)
  ultimately show "\<exists>m. normalizeBlock co p (b\<lparr>bbShared := bbShared n\<rparr>) = Inr m \<and>
      bbShared m = bbShared n \<and> flLocalized m = flLocalized n \<and> flFiles m = flFiles n"
    "\<exists>m. normalizeBlock co p (b\<lparr>flLocalized := flLocalized n\<rparr>) = Inr m \<and>
      bbShared m = bbShared n \<and> flLocalized m = flLocalized n \<and> flFiles m = flFiles n"
    using n by (auto simp: normalizeBlock_def Let_def guard_error_Inr and_then_Inr)
qed

end

interpretation generated: placed_contract "generatedContract cc" for cc
  by unfold_locales
    (auto simp: generatedContract_def generated_ValidateBlock_def same_payload_def generated_ValidateParent_def
      same_kind_def option_rel_Some1 option_rel_Some2 split: option.splits)

end
