(* ===== verification/Content_Apply.thy ===== *)
theory Content_Apply
  imports Content_Structure
begin

text \<open>
  \<open>Store.apply\<close> (\<open>store.go\<close>): a batch of base upserts, deletes, reorders and locale groups on one aggregate,
  with the checks of its identifiers, the closure of the deletes and the orders in which rows are written.
  Parameters: \<open>owners\<close> is the query \<open>blockDocuments\<close> (which document a block row belongs to), \<open>canon\<close> is
  \<open>richtextinline.CanonicalizeStorageLocale\<close>, which rewrites line breaks in the text of the JSON.
\<close>

section \<open>Envelope and identifiers\<close>

fun contributors_sorted :: "uuid list \<Rightarrow> block_error option" where
  "contributors_sorted (x # y # ids) = first_error
     [invalid_if (y = 0) ''contributor Member ID must be a UUID'',
      invalid_if (x \<ge> y) ''contributor Member IDs must be sorted and unique'',
      contributors_sorted (y # ids)]"
| "contributors_sorted _ = None"

definition validateContributorMemberIDs :: "uuid list \<Rightarrow> block_error option" where
  "validateContributorMemberIDs ids = first_error
     [invalid_if (ids \<noteq> [] \<and> hd ids = 0) ''contributor Member ID must be a UUID'', contributors_sorted ids]"

definition validateBatchEnvelope :: "Batch \<Rightarrow> bool \<Rightarrow> block_error option" where
  "validateBatchEnvelope b allowEmpty = first_error
     [invalid_if (baDocument b = 0 \<or> baExpectedRevision b = 0) ''document and expected revision must be UUIDs'',
      invalid_if (\<not> allowEmpty \<and> baUpserts b = [] \<and> baGroups b = [] \<and> baDeletes b = [] \<and> baReorders b = [])
        ''empty mutation batch'',
      validateContributorMemberIDs (baContributors b)]"

datatype base_operation = BaseUpsert | BaseDelete | BaseReorder

definition base_round ::
    "base_operation \<Rightarrow> (uuid \<times> base_operation) list \<Rightarrow> uuid \<Rightarrow> (uuid \<times> base_operation) list outcome" where
  "base_round op s k = guard_error (first_error
     [invalid_if (k = 0) ''Block ID must be a UUID'',
      invalid_if (map_of s k \<noteq> None) ''Block appears in two base operations'']) (Inr ((k, op) # s))"

definition reorder_round ::
    "(uuid \<times> base_operation) list \<Rightarrow> Reorder \<Rightarrow> (uuid \<times> base_operation) list outcome" where
  "reorder_round s r =
     guard_error (invalid_if (roBlock r = 0 \<or> roPosition r < 0 \<or> trim_space (roSlot r) = '''') ''invalid Block reorder'')
       (base_round BaseReorder s (roBlock r))"

definition base_operations :: "Batch \<Rightarrow> (uuid \<times> base_operation) list outcome" where
  "base_operations b =
     and_then (fold_result (base_round BaseUpsert) [] (map bbID (baUpserts b)))
       (\<lambda>s. and_then (fold_result (base_round BaseDelete) s (baDeletes b))
         (\<lambda>s. fold_result reorder_round s (baReorders b)))"

definition group_check :: "(uuid \<times> base_operation) list \<Rightarrow> LocaleMutationGroup \<Rightarrow> block_error option" where
  "group_check base g = first_error
     [invalid_if (lgUpserts g = [] \<and> lgDeletes g = []) ''empty locale mutation group'',
      loop_seen luBlock
        (\<lambda>seen u. first_error
           [invalid_if (luBlock u = 0) ''locale update Block ID must be a UUID'',
            invalid_if (map_of base (luBlock u) = Some BaseDelete) ''deleted Block also has a locale update'',
            invalid_if (luBlock u \<in> seen) ''Block appears twice in locale''])
        {} (lgUpserts g),
      loop_seen id
        (\<lambda>seen k. first_error
           [invalid_if (k = 0) ''locale delete Block ID must be a UUID'',
            invalid_if (map_of base k \<noteq> None) ''Block has conflicting base and locale delete operations'',
            invalid_if (k \<in> seen) ''Block appears twice in locale''])
        (luBlock ` set (lgUpserts g)) (lgDeletes g)]"

definition validateOperationIDs :: "Batch \<Rightarrow> block_error option" where
  "validateOperationIDs b =
     (case base_operations b of
        Inl e \<Rightarrow> Some e
      | Inr base \<Rightarrow> loop_seen lgLocale
          (\<lambda>seen g. first_error
             [validateBlockLocale (lgLocale g),
              invalid_if (lgLocale g \<in> seen) ''duplicate locale mutation group'',
              group_check base g])
          {} (baGroups b))"

definition batch_ids :: "Batch \<Rightarrow> uuid list" where
  "batch_ids b =
     concat (map (\<lambda>u. bbID u # (case bbParent u of None \<Rightarrow> [] | Some p \<Rightarrow> [p])) (baUpserts b)) @
     concat (map (\<lambda>g. map luBlock (lgUpserts g) @ lgDeletes g) (baGroups b)) @ baDeletes b @
     concat (map (\<lambda>r. roBlock r # (case roParent r of None \<Rightarrow> [] | Some p \<Rightarrow> [p])) (baReorders b))"

type_synonym block_owners = "uuid list \<Rightarrow> (uuid \<times> uuid) list outcome"

definition rejectCrossDocumentIDs :: "block_owners \<Rightarrow> uuid \<Rightarrow> Batch \<Rightarrow> block_error option" where
  "rejectCrossDocumentIDs owners document b =
     (case owners (batch_ids b) of
        Inl e \<Rightarrow> Some e
      | Inr rows \<Rightarrow> check_all (\<lambda>(k, owner). if owner \<noteq> document then Some ErrCrossDocument else None) rows)"

section \<open>Closure of the deletes\<close>

definition delete_round :: "uuid set \<Rightarrow> uuid \<times> FullBlock \<Rightarrow> uuid set \<Rightarrow> uuid set" where
  "delete_round retained e deleted =
     (case e of (k, b) \<Rightarrow>
        if k \<in> retained then deleted
        else (case bbParent b of
            None \<Rightarrow> deleted
          | Some p \<Rightarrow> if p \<in> deleted then insert k deleted else deleted))"

text \<open>One pass over the blocks; a block found deleted counts for the blocks after it.\<close>

definition delete_pass :: "(uuid \<times> FullBlock) list \<Rightarrow> uuid set \<Rightarrow> uuid set \<Rightarrow> uuid set" where
  "delete_pass blocks retained deleted = fold (delete_round retained) blocks deleted"

lemma delete_round_bounds: "deleted \<subseteq> delete_round retained e deleted" "delete_round retained e deleted \<subseteq> insert (fst e) deleted"
  by (auto simp: delete_round_def split: prod.splits option.splits)

lemma delete_pass_bounds:
  "deleted \<subseteq> delete_pass blocks retained deleted" "delete_pass blocks retained deleted \<subseteq> fst ` set blocks \<union> deleted"
proof -
  have "deleted \<subseteq> fold (delete_round retained) blocks deleted \<and>
      fold (delete_round retained) blocks deleted \<subseteq> fst ` set blocks \<union> deleted"
  proof (induction blocks arbitrary: deleted)
    case (Cons e es)
    from Cons.IH [of "delete_round retained e deleted"] delete_round_bounds(1) [of deleted retained e]
      delete_round_bounds(2) [of retained e deleted] show ?case by auto
  qed simp
  then show "deleted \<subseteq> delete_pass blocks retained deleted" "delete_pass blocks retained deleted \<subseteq> fst ` set blocks \<union> deleted"
    by (simp_all add: delete_pass_def)
qed

function expand_deletes :: "(uuid \<times> FullBlock) list \<Rightarrow> uuid set \<Rightarrow> uuid set \<Rightarrow> uuid set" where
  "expand_deletes blocks retained deleted =
     (let next_set = delete_pass blocks retained deleted in
      if next_set = deleted then deleted else expand_deletes blocks retained next_set)"
  by pat_completeness auto
termination
proof (relation "measure (\<lambda>(blocks, retained, deleted). card (fst ` set blocks - deleted))", goal_cases)
  case (2 blocks retained deleted s)
  with delete_pass_bounds(1) [of deleted blocks retained] delete_pass_bounds(2) [of blocks retained deleted]
  have "fst ` set blocks - s \<subset> fst ` set blocks - deleted" by blast
  then show ?case by (simp add: psubset_card_mono)
qed simp

declare expand_deletes.simps [simp del]

definition expandedDeletes :: "(uuid \<times> FullBlock) list \<Rightarrow> uuid list \<Rightarrow> uuid set \<Rightarrow> uuid set" where
  "expandedDeletes blocks explicit retained = expand_deletes blocks retained (set explicit)"

section \<open>Orders by depth\<close>

text \<open>The closure \<open>visit\<close> of \<open>blockDepths\<close> follows parents without a check for cycles; \<open>None\<close>: it does not end.\<close>

fun visit_depth :: "nat \<Rightarrow> (uuid \<times> FullBlock) list \<Rightarrow> uuid \<Rightarrow> int option" where
  "visit_depth 0 blocks k = None"
| "visit_depth (Suc n) blocks k =
     (case bbParent (block_at blocks k) of
        None \<Rightarrow> Some 1
      | Some p \<Rightarrow> map_option (\<lambda>d. d + 1) (visit_depth n blocks p))"

definition visited_blocks :: "(uuid \<times> FullBlock) list \<Rightarrow> uuid set" where
  "visited_blocks blocks = fst ` set blocks \<union> set (concat (map (\<lambda>(k, b). case bbParent b of None \<Rightarrow> [] | Some p \<Rightarrow> [p]) blocks))"

definition blockDepths :: "(uuid \<times> FullBlock) list \<Rightarrow> (uuid \<Rightarrow> int) outcome" where
  "blockDepths blocks =
     (let visit = visit_depth (Suc (length blocks)) blocks in
      if list_all (\<lambda>(k, b). visit k \<noteq> None) blocks
      then Inr (\<lambda>k. if k \<in> visited_blocks blocks then (case visit k of None \<Rightarrow> 0 | Some d \<Rightarrow> d) else 0)
      else Inl Endless)"

definition sortUpsertsByDepth :: "(uuid \<times> FullBlock) list \<Rightarrow> uuid list \<Rightarrow> uuid list outcome" where
  "sortUpsertsByDepth blocks upserts =
     and_then (blockDepths blocks) (\<lambda>depth. Inr (sort_key (\<lambda>k. (depth k, k)) upserts))"

definition sortDeletesByDepth :: "(uuid \<times> FullBlock) list \<Rightarrow> uuid set \<Rightarrow> uuid list outcome" where
  "sortDeletesByDepth blocks deleted =
     and_then (blockDepths blocks) (\<lambda>depth. Inr (sort_key (\<lambda>k. (- depth k, k)) (sorted_list_of_set deleted)))"

section \<open>Applying a batch\<close>

type_synonym locale_inputs = "(string \<times> (uuid \<times> raw) list) list"

definition locale_input :: "(raw \<Rightarrow> string + raw) \<Rightarrow> LocaleMutationGroup \<Rightarrow> (uuid \<times> raw) list outcome" where
  "locale_input canon g = fold_result
     (\<lambda>s u. and_then (as_invalid ''inline line breaks'' (canon (luData u))) (\<lambda>d. Inr (AList.update (luBlock u) d s)))
     [] (lgUpserts g)"

definition locale_inputs_of :: "(raw \<Rightarrow> string + raw) \<Rightarrow> LocaleMutationGroup list \<Rightarrow> locale_inputs outcome" where
  "locale_inputs_of canon gs = fold_result
     (\<lambda>s g. and_then (locale_input canon g) (\<lambda>updates. Inr (AList.update (lgLocale g) updates s))) [] gs"

definition input_at :: "locale_inputs \<Rightarrow> string \<Rightarrow> uuid \<Rightarrow> raw option" where
  "input_at inputs l k = (case map_of inputs l of None \<Rightarrow> None | Some updates \<Rightarrow> map_of updates k)"

text \<open>A base upsert with its source locale, normalized; the second part lists the blocks whose kind changes.\<close>

definition upsert_round ::
    "Contract \<Rightarrow> aggregate \<Rightarrow> string \<Rightarrow> locale_inputs \<Rightarrow> bool \<Rightarrow> bool \<Rightarrow>
      (uuid \<times> FullBlock) list \<times> uuid list \<Rightarrow> BaseBlock \<Rightarrow> ((uuid \<times> FullBlock) list \<times> uuid list) outcome" where
  "upsert_round co before source inputs allowMissing replaceAll s u =
     (let submitted = (case input_at inputs source (bbID u) of
            Some d \<Rightarrow> Some d
          | None \<Rightarrow> if replaceAll then None else map_of (locales_of before (bbID u)) source)
      in case submitted of
        None \<Rightarrow> Inl (ErrInvalidMutation ''base Block requires a source locale overlay'')
      | Some localized \<Rightarrow>
          and_then (normalizeBlock co (cdProfile (agDocument before))
              (BaseBlock.extend u \<lparr>flLocalized = localized, flFiles = []\<rparr>))
            (\<lambda>n. guard_error
               (if \<not> allowMissing \<and> list_ex refMissing (flFiles n)
                then Some (ErrFileReference ''missing attachment is restore-only'') else None)
               (Inr (AList.update (bbID n) n (fst s),
                  case map_of (agBlocks before) (bbID n) of
                    Some current \<Rightarrow> if bbKind current \<noteq> bbKind n then List.insert (bbID n) (snd s) else snd s
                  | None \<Rightarrow> snd s))))"

definition put_upsert :: "uuid list \<Rightarrow> uuid \<times> FullBlock \<Rightarrow> aggregate \<Rightarrow> aggregate" where
  "put_upsert kindChanged e a =
     a\<lparr>agBlocks := AList.update (fst e) (snd e) (agBlocks a),
       agLocales := (if fst e \<in> set kindChanged then AList.update (fst e) [] (agLocales a) else agLocales a)\<rparr>"

definition apply_reorder :: "aggregate \<Rightarrow> Reorder \<Rightarrow> aggregate outcome" where
  "apply_reorder a r =
     (case map_of (agBlocks a) (roBlock r) of
        None \<Rightarrow> Inl (ErrInvalidMutation ''reorder target does not exist'')
      | Some b \<Rightarrow> Inr (a\<lparr>agBlocks := AList.update (roBlock r)
          (b\<lparr>bbParent := roParent r, bbSlot := trim_space (roSlot r), bbPosition := roPosition r\<rparr>) (agBlocks a)\<rparr>))"

definition put_locale :: "uuid \<Rightarrow> string \<Rightarrow> raw \<Rightarrow> aggregate \<Rightarrow> aggregate" where
  "put_locale k l d a = a\<lparr>agLocales := AList.update k (AList.update l d (locales_of a k)) (agLocales a)\<rparr>"

definition drop_locale :: "uuid \<Rightarrow> string \<Rightarrow> aggregate \<Rightarrow> aggregate" where
  "drop_locale k l a =
     (case map_of (agLocales a) k of
        None \<Rightarrow> a
      | Some ls \<Rightarrow> a\<lparr>agLocales := AList.update k (AList.delete l ls) (agLocales a)\<rparr>)"

type_synonym locale_state = "aggregate \<times> localeMutation list"

definition locale_delete :: "string \<Rightarrow> string \<Rightarrow> locale_state \<Rightarrow> uuid \<Rightarrow> locale_state outcome" where
  "locale_delete source l s k =
     (if l = source then Inl (ErrInvalidMutation ''source locale overlays cannot be deleted'')
      else Inr (drop_locale k l (fst s), snd s @ [\<lparr>lmLocale = l, lmBlock = k, lmDelete = True\<rparr>]))"

definition locale_update ::
    "Contract \<Rightarrow> locale_inputs \<Rightarrow> string \<Rightarrow> locale_state \<Rightarrow> LocaleBlockUpdate \<Rightarrow> locale_state outcome" where
  "locale_update co inputs l s u =
     (case map_of (agBlocks (fst s)) (luBlock u) of
        None \<Rightarrow> Inl (ErrInvalidMutation ''locale update Block does not exist'')
      | Some base \<Rightarrow>
          (let d = (case input_at inputs l (luBlock u) of None \<Rightarrow> RawBlank '''' | Some d \<Rightarrow> d) in
           and_then (normalizeBlock co (cdProfile (agDocument (fst s))) (base\<lparr>flLocalized := d\<rparr>))
             (\<lambda>n. guard_error (invalid_if (\<not> sameBlockShared base n) ''locale validation changed shared Block'')
                (Inr (put_locale (luBlock u) l (flLocalized n) (fst s),
                   snd s @ [\<lparr>lmLocale = l, lmBlock = luBlock u, lmDelete = False\<rparr>])))))"

definition apply_group :: "Contract \<Rightarrow> string \<Rightarrow> locale_inputs \<Rightarrow> locale_state \<Rightarrow> LocaleMutationGroup \<Rightarrow> locale_state outcome" where
  "apply_group co source inputs s g =
     and_then (fold_result (locale_delete source (lgLocale g)) s (lgDeletes g))
       (\<lambda>s. fold_result (locale_update co inputs (lgLocale g)) s (lgUpserts g))"

definition remove_blocks :: "uuid set \<Rightarrow> aggregate \<Rightarrow> aggregate" where
  "remove_blocks deleted a =
     a\<lparr>agBlocks := filter (\<lambda>e. fst e \<notin> deleted) (agBlocks a), agLocales := filter (\<lambda>e. fst e \<notin> deleted) (agLocales a)\<rparr>"

definition apply_batch ::
    "Contract \<Rightarrow> (raw \<Rightarrow> string + raw) \<Rightarrow> block_owners \<Rightarrow> aggregate \<Rightarrow> Batch \<Rightarrow> string \<Rightarrow> bool \<Rightarrow> bool \<Rightarrow>
      (aggregate \<times> persistedMutation) outcome" where
  "apply_batch co canon owners before b source allowMissing replaceAll =
     guard_error (validateOperationIDs b)
     (guard_error (rejectCrossDocumentIDs owners (cdID (agDocument before)) b)
     (and_then (locale_inputs_of canon (baGroups b)) (\<lambda>inputs.
      and_then (fold_result (upsert_round co before source inputs allowMissing replaceAll) ([], []) (baUpserts b))
        (\<lambda>(upserts, kindChanged).
      let retained = fst ` set upserts \<union> roBlock ` set (baReorders b);
          deleted = expandedDeletes (agBlocks before) (baDeletes b) retained;
          base = fold (put_upsert kindChanged) upserts (remove_blocks deleted before) in
      and_then (fold_result apply_reorder base (baReorders b)) (\<lambda>moved.
      and_then (fold_result (apply_group co source inputs) (moved, []) (baGroups b)) (\<lambda>(localized, mutations).
      and_then (validateAggregateEnvelope co localized source) (\<lambda>lim.
      and_then (fold_result (\<lambda>s k. validateAggregateBlockPayload co source k s) localized (map fst upserts)) (\<lambda>after.
      guard_error (if upserts \<noteq> [] \<or> deleted \<noteq> {} \<or> baReorders b \<noteq> [] then validateAggregateStructure co after lim else None)
     (and_then (sortUpsertsByDepth (agBlocks after) (map fst upserts)) (\<lambda>upsertOrder.
      and_then (sortDeletesByDepth (agBlocks before) deleted) (\<lambda>deleteOrder.
      Inr (after, \<lparr>pmSourceLocale = source, pmUpsertOrder = upsertOrder,
        pmLocaleMutations = sort_key (\<lambda>m. (lmLocale m, lmBlock m)) mutations, pmDeleteOrder = deleteOrder,
        pmReorders = baReorders b, pmKindChanged = kindChanged, pmAllowMissingFiles = allowMissing\<rparr>))))))))))))"

end
