(* ===== verification/Content_Valid.thy ===== *)
theory Content_Valid
  imports Content_Contract Content_Apply
begin

text \<open>
  Valid aggregates: what \<open>validateAggregate\<close> establishes and when it accepts. The invariant \<open>valid_aggregate\<close>
  is stated over the stored state and does not mention the loops of the code.
\<close>

section \<open>File references\<close>

lemma sameReference_refl [simp]: "sameReference r r"
  by (simp add: sameReference_def)

lemma sameFileReferences_refl [simp]: "sameFileReferences rs rs"
  by (simp add: sameFileReferences_def list_all2_refl)

lemma sameFileReferences_sym: "sameFileReferences l r \<Longrightarrow> sameFileReferences r l"
  unfolding sameFileReferences_def
  by (auto simp: list_all2_conv_all_nth sameReference_def)

lemma sameReference_trans: "sameReference l m \<Longrightarrow> sameReference m r \<Longrightarrow> sameReference l r"
  by (auto simp: sameReference_def split: if_splits)

lemma sameFileReferences_trans: "sameFileReferences l m \<Longrightarrow> sameFileReferences m r \<Longrightarrow> sameFileReferences l r"
  unfolding sameFileReferences_def list_all2_conv_all_nth by (clarsimp) (meson sameReference_trans)

section \<open>The invariant\<close>

definition keyed :: "(uuid \<times> FullBlock) list \<Rightarrow> bool" where
  "keyed blocks \<longleftrightarrow> distinct (map fst blocks) \<and> (\<forall>k b. map_of blocks k = Some b \<longrightarrow> bbID b = k)"

definition payload_ok :: "Contract \<Rightarrow> string \<Rightarrow> FullBlock \<Rightarrow> (string \<times> raw) list \<Rightarrow> bool" where
  "payload_ok co p b ls \<longleftrightarrow> (\<forall>(l, d) \<in> set ls. \<exists>n. normalizeBlock co p (b\<lparr>flLocalized := d\<rparr>) = Inr n \<and>
     bbShared n = bbShared b \<and> sameFileReferences (flFiles b) (flFiles n))"

definition block_ok :: "Contract \<Rightarrow> string \<Rightarrow> aggregate \<Rightarrow> uuid \<Rightarrow> FullBlock \<Rightarrow> bool" where
  "block_ok co source a k b \<longleftrightarrow> map_of (locales_of a k) source \<noteq> None \<and>
     payload_ok co (cdProfile (agDocument a)) b (locales_of a k)"

definition valid_aggregate :: "Contract \<Rightarrow> string \<Rightarrow> aggregate \<Rightarrow> bool" where
  "valid_aggregate co source a \<longleftrightarrow> keyed (agBlocks a) \<and>
     (\<forall>k b. map_of (agBlocks a) k = Some b \<longrightarrow> block_ok co source a k b) \<and>
     (\<exists>lim. validateAggregateEnvelope co a source = Inr lim \<and> structure_ok co (cdProfile (agDocument a)) (agBlocks a) lim)"

lemma keyed_update: "keyed blocks \<Longrightarrow> bbID b = k \<Longrightarrow> keyed (AList.update k b blocks)"
  unfolding keyed_def by (auto simp: distinct_update update_conv')

lemma keyed_at: "keyed blocks \<Longrightarrow> map_of blocks k = Some b \<Longrightarrow> bbID b = k"
  unfolding keyed_def by blast

section \<open>The locales of one block\<close>

lemma payloadRound_Inr:
  "payloadRound co p b (Some (s, r)) (l, d) = Inr x \<longleftrightarrow> x = Some (s, r) \<and>
     (\<exists>n. normalizeBlock co p (b\<lparr>flLocalized := d\<rparr>) = Inr n \<and> s = bbShared n \<and> sameFileReferences r (flFiles n))"
  "payloadRound co p b None (l, d) = Inr x \<longleftrightarrow>
     (\<exists>n. normalizeBlock co p (b\<lparr>flLocalized := d\<rparr>) = Inr n \<and> x = Some (bbShared n, flFiles n))"
  by (auto simp: payloadRound_def and_then_Inr guard_error_Inr first_error_None)

lemma payload_rest:
  "fold_result (payloadRound co p b) (Some (s, r)) ls = Inr x \<longleftrightarrow> x = Some (s, r) \<and>
     (\<forall>(l, d) \<in> set ls. \<exists>n. normalizeBlock co p (b\<lparr>flLocalized := d\<rparr>) = Inr n \<and> s = bbShared n \<and> sameFileReferences r (flFiles n))"
proof (induction ls)
  case (Cons e ls)
  show ?case
    using Cons.IH by (cases e) (auto simp: and_then_Inr payloadRound_Inr)
qed auto

lemma payload_first:
  assumes "ls \<noteq> []"
  shows "fold_result (payloadRound co p b) None ls = Inr x \<longleftrightarrow>
    (\<exists>n. normalizeBlock co p (b\<lparr>flLocalized := snd (hd ls)\<rparr>) = Inr n \<and> x = Some (bbShared n, flFiles n) \<and>
       (\<forall>(l, d) \<in> set ls. \<exists>m. normalizeBlock co p (b\<lparr>flLocalized := d\<rparr>) = Inr m \<and> bbShared n = bbShared m \<and>
          sameFileReferences (flFiles n) (flFiles m)))"
proof -
  obtain l d rest where ls: "ls = (l, d) # rest" using assms by (cases ls) auto
  have step: "fold_result (payloadRound co p b) None ls = Inr x \<longleftrightarrow>
      (\<exists>n. normalizeBlock co p (b\<lparr>flLocalized := d\<rparr>) = Inr n \<and> fold_result (payloadRound co p b) (Some (bbShared n, flFiles n)) rest = Inr x)"
    unfolding ls by (simp add: and_then_Inr payloadRound_Inr) blast
  show ?thesis
  proof (cases "normalizeBlock co p (b\<lparr>flLocalized := d\<rparr>)")
    case (Inr n)
    then show ?thesis unfolding step by (simp add: payload_rest ls)
  next
    case (Inl e)
    then show ?thesis unfolding step by (simp add: ls)
  qed
qed

lemma payload_accepts:
  assumes b: "map_of (agBlocks a) k = Some b" and ok: "block_ok co source a k b"
  shows "\<exists>refs. validateAggregateBlockPayload co source k a =
      Inr (a\<lparr>agBlocks := AList.update k (b\<lparr>flFiles := refs\<rparr>) (agBlocks a)\<rparr>) \<and> sameFileReferences (flFiles b) refs"
proof -
  let ?ls = "locales_of a k" and ?p = "cdProfile (agDocument a)"
  have ne: "?ls \<noteq> []" using ok by (auto simp: block_ok_def)
  have each: "\<exists>n. normalizeBlock co ?p (b\<lparr>flLocalized := d\<rparr>) = Inr n \<and> bbShared n = bbShared b \<and> sameFileReferences (flFiles b) (flFiles n)"
    if "(l, d) \<in> set ?ls" for l d
    using ok that by (auto simp: block_ok_def payload_ok_def)
  obtain n where n: "normalizeBlock co ?p (b\<lparr>flLocalized := snd (hd ?ls)\<rparr>) = Inr n" "bbShared n = bbShared b"
      "sameFileReferences (flFiles b) (flFiles n)"
    using each [of "fst (hd ?ls)" "snd (hd ?ls)"] ne by auto
  have "fold_result (payloadRound co ?p b) None ?ls = Inr (Some (bbShared n, flFiles n))"
    unfolding payload_first [OF ne]
    using n each by (fastforce intro: sameFileReferences_trans [OF sameFileReferences_sym])
  then show ?thesis
    using b ok n by (auto simp: validateAggregateBlockPayload_def block_ok_def)
qed

context placed_contract
begin

lemma payload_ok_moved:
  assumes "payload_ok co p b ls" and "same_kind b c" and "bbID c = bbID b" and "placed_ok c"
    and "sameFileReferences (flFiles b) (flFiles c)"
  shows "payload_ok co p c ls"
  unfolding payload_ok_def
proof (clarify)
  fix l d assume "(l, d) \<in> set ls"
  with assms(1) obtain n where n: "normalizeBlock co p (b\<lparr>flLocalized := d\<rparr>) = Inr n" "bbShared n = bbShared b"
      "sameFileReferences (flFiles b) (flFiles n)" by (auto simp: payload_ok_def)
  have "\<exists>m. normalizeBlock co p (c\<lparr>flLocalized := d\<rparr>) = Inr m \<and> bbShared m = bbShared n \<and> flLocalized m = flLocalized n \<and>
      flFiles m = flFiles n"
    by (rule normalize_moved [OF n(1)]) (use assms in \<open>auto simp: same_payload_def same_kind_def placed_ok_def\<close>)
  then obtain m where "normalizeBlock co p (c\<lparr>flLocalized := d\<rparr>) = Inr m" "bbShared m = bbShared n" "flFiles m = flFiles n" by blast
  then show "\<exists>n. normalizeBlock co p (c\<lparr>flLocalized := d\<rparr>) = Inr n \<and> bbShared n = bbShared c \<and>
      sameFileReferences (flFiles c) (flFiles n)"
    using n assms(2) sameFileReferences_trans [OF sameFileReferences_sym [OF assms(5)] n(3)] by (auto simp: same_kind_def)
qed

lemma payload_sound:
  assumes st: "stable_contract co" and v: "validateAggregateBlockPayload co source k a = Inr a'"
  shows "\<exists>b s r. map_of (agBlocks a) k = Some b \<and>
    a' = a\<lparr>agBlocks := AList.update k (b\<lparr>bbShared := s, flFiles := r\<rparr>) (agBlocks a)\<rparr> \<and>
    block_ok co source a k (b\<lparr>bbShared := s, flFiles := r\<rparr>)"
proof -
  let ?ls = "locales_of a k" and ?p = "cdProfile (agDocument a)"
  from v obtain b x where b: "map_of (agBlocks a) k = Some b" and src: "map_of ?ls source \<noteq> None"
      and x: "fold_result (payloadRound co ?p b) None ?ls = Inr x"
    by (auto simp: validateAggregateBlockPayload_def and_then_Inr split: option.splits if_splits)
  have ne: "?ls \<noteq> []" using src by auto
  from x [unfolded payload_first [OF ne]] obtain n :: FullBlock where n: "x = Some (bbShared n, flFiles n)"
      "\<forall>(l, d) \<in> set ?ls. \<exists>m. normalizeBlock co ?p (b\<lparr>flLocalized := d\<rparr>) = Inr m \<and> bbShared n = bbShared m \<and>
          sameFileReferences (flFiles n) (flFiles m)" by blast
  have same: "sameFileReferences (flFiles b) (flFiles n)"
    and a': "a' = a\<lparr>agBlocks := AList.update k (b\<lparr>bbShared := bbShared n, flFiles := flFiles n\<rparr>) (agBlocks a)\<rparr>"
    using v b src x n(1) by (auto simp: validateAggregateBlockPayload_def guard_error_Inr split: if_splits)
  let ?c = "b\<lparr>bbShared := bbShared n, flFiles := flFiles n\<rparr>"
  have "payload_ok co ?p ?c ?ls"
    unfolding payload_ok_def
  proof (clarify)
    fix l d assume "(l, d) \<in> set ?ls"
    from bspec [OF n(2) this] obtain m where m: "normalizeBlock co ?p (b\<lparr>flLocalized := d\<rparr>) = Inr m" "bbShared n = bbShared m"
        "sameFileReferences (flFiles n) (flFiles m)" by blast
    from normalize_stable(1) [OF st m(1)] obtain q where q:
        "normalizeBlock co ?p (b\<lparr>flLocalized := d, bbShared := bbShared m\<rparr>) = Inr q" "bbShared q = bbShared m" "flFiles q = flFiles m"
      by auto
    have pl: "placed_ok (?c\<lparr>flLocalized := d\<rparr>)"
      using m(1) by (auto simp: placed_ok_def normalizeBlock_def Let_def guard_error_Inr first_error_None)
    from normalize_moved [OF q(1) _ _ pl] show "\<exists>n'. normalizeBlock co ?p (?c\<lparr>flLocalized := d\<rparr>) = Inr n' \<and>
        bbShared n' = bbShared ?c \<and> sameFileReferences (flFiles ?c) (flFiles n')"
      using m q by (auto simp: same_payload_def)
  qed
  then have "block_ok co source a k ?c" using src by (simp add: block_ok_def)
  with b a' show ?thesis by blast
qed

end

end
