(* ===== verification/Content_Correct.thy ===== *)
theory Content_Correct
  imports Content_Valid "HOL-Library.Multiset"
begin

text \<open>
  A batch that \<open>apply\<close> accepts on a valid aggregate makes a valid aggregate: what was stored can be loaded again.
\<close>

section \<open>Tables\<close>

lemma baseBlock_eq:
  "baseBlock b = baseBlock c \<longleftrightarrow> bbID b = bbID c \<and> bbParent b = bbParent c \<and> bbSlot b = bbSlot c \<and>
     bbPosition b = bbPosition c \<and> bbKind b = bbKind c \<and> bbShared b = bbShared c"
  by (cases b; cases c) (simp add: baseBlock_def BaseBlock.defs)

lemma keys_update: "map_of xs k \<noteq> None \<Longrightarrow> map fst (AList.update k c xs) = map fst xs"
  by (induction xs) auto

text \<open>Two tables with the same base blocks.\<close>

definition same_base :: "(uuid \<times> FullBlock) list \<Rightarrow> (uuid \<times> FullBlock) list \<Rightarrow> bool" where
  "same_base bs cs \<longleftrightarrow> (\<forall>k. map_option baseBlock (map_of bs k) = map_option baseBlock (map_of cs k))"

lemma same_base_sym: "same_base bs cs \<Longrightarrow> same_base cs bs"
  by (simp add: same_base_def)

lemma same_base_trans: "same_base bs cs \<Longrightarrow> same_base cs ds \<Longrightarrow> same_base bs ds"
  by (simp add: same_base_def)

lemma same_base_update:
  "map_of xs k = Some b \<Longrightarrow> baseBlock c = baseBlock b \<Longrightarrow> same_base (AList.update k c xs) xs"
  by (simp add: same_base_def update_conv')

lemma same_base_at:
  assumes "same_base bs cs"
  shows "baseBlock (block_at bs k) = baseBlock (block_at cs k)"
    "(case map_of bs k of None \<Rightarrow> map_of cs k = None | Some b \<Rightarrow> \<exists>c. map_of cs k = Some c \<and> baseBlock b = baseBlock c)"
proof -
  have e: "map_option baseBlock (map_of bs k) = map_option baseBlock (map_of cs k)" using assms by (simp add: same_base_def)
  then show "baseBlock (block_at bs k) = baseBlock (block_at cs k)"
    by (cases "map_of bs k"; cases "map_of cs k") (simp_all add: block_at_def)
  from e show "(case map_of bs k of None \<Rightarrow> map_of cs k = None | Some b \<Rightarrow> \<exists>c. map_of cs k = Some c \<and> baseBlock b = baseBlock c)"
    by (cases "map_of bs k"; cases "map_of cs k") simp_all
qed

definition base_view :: "(uuid \<times> FullBlock) list \<Rightarrow> (uuid \<times> BaseBlock) list" where
  "base_view blocks = map (\<lambda>(k, b). (k, baseBlock b)) blocks"

lemma map_of_base_view: "map_of (base_view blocks) k = map_option baseBlock (map_of blocks k)"
  by (induction blocks) (auto simp: base_view_def)

lemma keys_base_view: "map fst (base_view blocks) = map fst blocks"
  by (induction blocks) (auto simp: base_view_def)

lemma same_base_mset:
  assumes "same_base bs cs" and "distinct (map fst bs)" and "distinct (map fst cs)"
  shows "mset (base_view bs) = mset (base_view cs)"
proof -
  have "distinct (base_view bs)" "distinct (base_view cs)" using assms(2,3) keys_base_view by (metis distinct_map)+
  moreover have "map_of (base_view bs) = map_of (base_view cs)"
    using assms(1) by (simp add: map_of_base_view same_base_def fun_eq_iff)
  then have "set (base_view bs) = set (base_view cs)"
    using assms(2,3) by (simp add: map_of_inject_set keys_base_view)
  ultimately show ?thesis using set_eq_iff_mset_eq_distinct by blast
qed

lemma dense_mset: "mset ps = mset qs \<Longrightarrow> dense ps = dense qs"
  unfolding dense_def by (metis mset_eq_length mset_sort properties_for_sort sorted_sort)

lemma dense_base:
  assumes "same_base bs cs" and "distinct (map fst bs)" and "distinct (map fst cs)"
  shows "dense (positions bs key) = dense (positions cs key)"
proof -
  have p: "positions xs key = map (\<lambda>(k, b). bbPosition b) (filter (\<lambda>(k, b). (bbParent b, bbSlot b) = key) (base_view xs))" for xs
    by (induction xs) (auto simp: positions_def sibling_key_def baseBlock_def BaseBlock.defs base_view_def)
  have "mset (positions bs key) = mset (positions cs key)"
    unfolding p mset_map mset_filter same_base_mset [OF assms] ..
  then show ?thesis by (rule dense_mset)
qed

context placed_contract
begin

lemma parent_ok_base:
  assumes "same_base bs cs" and "baseBlock b = baseBlock c"
  shows "parent_ok co p bs b = parent_ok co p cs c"
proof (cases "bbParent b")
  case None
  then show ?thesis
    using assms(2) parent_free [of None None b c p] by (simp add: parent_ok_def baseBlock_eq same_kind_def)
next
  case (Some q)
  note at = same_base_at(2) [OF assms(1), of q]
  have c: "bbParent c = Some q" using Some assms(2) by (simp add: baseBlock_eq)
  show ?thesis
  proof (cases "map_of bs q")
    case None
    then show ?thesis using at c \<open>bbParent b = Some q\<close> by (simp add: parent_ok_def)
  next
    case (Some x)
    then obtain y where "map_of cs q = Some y" "baseBlock x = baseBlock y" using at by auto
    moreover from this assms(2) have "coValidateParent co p (Some x) b = coValidateParent co p (Some y) c"
      by (intro parent_free) (simp_all add: baseBlock_eq same_kind_def)
    ultimately show ?thesis using Some c \<open>bbParent b = Some q\<close> by (simp add: parent_ok_def)
  qed
qed

lemma deep_base:
  assumes "same_base bs cs" and "deep co p bs lim k d"
  shows "deep co p cs lim k d"
  using assms(2)
proof (induction rule: deep.induct)
  case (root k)
  note e = same_base_at(1) [OF assms(1), of k]
  show ?case using root parent_ok_base [OF assms(1) e] e by (intro deep.root) (auto simp: baseBlock_eq)
next
  case (child k q d)
  note e = same_base_at(1) [OF assms(1), of k]
  show ?case using child parent_ok_base [OF assms(1) e] e by (intro deep.child [of cs k q]) (auto simp: baseBlock_eq)
qed

lemma structure_base:
  assumes "same_base bs cs" and "distinct (map fst bs)" and "distinct (map fst cs)"
  shows "structure_ok co p bs lim = structure_ok co p cs lim"
proof -
  have "map_of bs k = None \<longleftrightarrow> map_of cs k = None" for k using assms(1) by (metis same_base_def map_option_is_None)
  then have "fst ` set bs = fst ` set cs" by (auto simp: map_of_eq_None_iff)
  then show ?thesis
    using deep_base [OF assms(1)] deep_base [OF same_base_sym [OF assms(1)]] dense_base [OF assms]
    unfolding structure_ok_def by metis
qed

end

section \<open>Loading\<close>

lemma block_ok_cong:
  "agLocales a = agLocales a' \<Longrightarrow> agDocument a = agDocument a' \<Longrightarrow> block_ok co source a k b = block_ok co source a' k b"
  by (simp add: block_ok_def locales_of_def)

lemma payloads_accept:
  assumes "\<forall>k \<in> set ks. \<exists>b. map_of (agBlocks a) k = Some b \<and> block_ok co source a k b" and "distinct ks"
  shows "\<exists>a'. fold_result (\<lambda>s k. validateAggregateBlockPayload co source k s) a ks = Inr a' \<and>
    same_base (agBlocks a') (agBlocks a) \<and> map fst (agBlocks a') = map fst (agBlocks a) \<and>
    agDocument a' = agDocument a \<and> agLocales a' = agLocales a"
  using assms
proof (induction ks arbitrary: a)
  case (Cons k ks)
  then obtain b where b: "map_of (agBlocks a) k = Some b" "block_ok co source a k b" by auto
  from payload_accepts [OF this] obtain refs where v: "validateAggregateBlockPayload co source k a =
      Inr (a\<lparr>agBlocks := AList.update k (b\<lparr>flFiles := refs\<rparr>) (agBlocks a)\<rparr>)" by blast
  let ?a = "a\<lparr>agBlocks := AList.update k (b\<lparr>flFiles := refs\<rparr>) (agBlocks a)\<rparr>"
  have "\<forall>j \<in> set ks. \<exists>c. map_of (agBlocks ?a) j = Some c \<and> block_ok co source ?a j c"
    using Cons.prems block_ok_cong [of ?a a] by (auto simp: update_conv')
  from Cons.IH [OF this] Cons.prems(2) obtain a' where
    "fold_result (\<lambda>s k. validateAggregateBlockPayload co source k s) ?a ks = Inr a'"
    "same_base (agBlocks a') (agBlocks ?a)" "map fst (agBlocks a') = map fst (agBlocks ?a)"
    "agDocument a' = agDocument a" "agLocales a' = agLocales a" by auto
  moreover have "same_base (agBlocks ?a) (agBlocks a)"
    using same_base_update [OF b(1)] by (simp add: baseBlock_eq)
  ultimately show ?case using v b(1) keys_update [of "agBlocks a" k] same_base_trans by auto
qed (simp add: same_base_def)

context placed_contract
begin

lemma payloads_sound:
  assumes "stable_contract co"
    and "fold_result (\<lambda>s k. validateAggregateBlockPayload co source k s) a ks = Inr a'"
  shows "agDocument a' = agDocument a \<and> agLocales a' = agLocales a \<and> map fst (agBlocks a') = map fst (agBlocks a) \<and>
    (\<forall>k \<in> set ks. \<exists>b. map_of (agBlocks a') k = Some b \<and> block_ok co source a' k b) \<and>
    (\<forall>k. k \<notin> set ks \<longrightarrow> map_of (agBlocks a') k = map_of (agBlocks a) k) \<and> (keyed (agBlocks a) \<longrightarrow> keyed (agBlocks a'))"
  using assms(2)
proof (induction ks arbitrary: a)
  case (Cons k ks)
  then obtain t where t: "validateAggregateBlockPayload co source k a = Inr t"
      "fold_result (\<lambda>s k. validateAggregateBlockPayload co source k s) t ks = Inr a'" by (auto simp: and_then_Inr)
  from payload_sound [OF assms(1) t(1)] obtain b s r where b: "map_of (agBlocks a) k = Some b"
      "t = a\<lparr>agBlocks := AList.update k (b\<lparr>bbShared := s, flFiles := r\<rparr>) (agBlocks a)\<rparr>"
      "block_ok co source a k (b\<lparr>bbShared := s, flFiles := r\<rparr>)" by blast
  note ih = Cons.IH [OF t(2)]
  have "block_ok co source a' j c = block_ok co source a j c" for j c
    using ih b(2) by (intro block_ok_cong) simp_all
  then have "\<exists>c. map_of (agBlocks a') k = Some c \<and> block_ok co source a' k c"
    using ih b by (cases "k \<in> set ks") (auto simp: update_conv')
  moreover have "keyed (agBlocks a) \<Longrightarrow> keyed (agBlocks t)"
    using b(2) keyed_at [OF _ b(1)] by (simp add: keyed_update)
  ultimately show ?case using ih b keys_update [of "agBlocks a" k] by (auto simp: update_conv')
qed simp

lemma validateAggregate_valid:
  assumes st: "stable_contract co" and k: "keyed (agBlocks a)" and v: "validateAggregate co source a = Inr a'"
  shows "valid_aggregate co source a'"
proof -
  from v obtain lim where lim: "validateAggregateEnvelope co a source = Inr lim"
      and f: "fold_result (\<lambda>s k. validateAggregateBlockPayload co source k s) a (map fst (agBlocks a)) = Inr a'"
      and s: "validateAggregateStructure co a' lim = None"
    by (auto simp: validateAggregate_def and_then_Inr guard_error_Inr)
  note p = payloads_sound [OF st f]
  have "length (agBlocks a') = length (agBlocks a)" using p by (metis length_map)
  then have "validateAggregateEnvelope co a' source = Inr lim" using lim p by (simp add: validateAggregateEnvelope_def)
  moreover have "block_ok co source a' j b" if "map_of (agBlocks a') j = Some b" for j b
  proof -
    have "j \<in> set (map fst (agBlocks a'))" using that by (metis domI dom_map_of_conv_image_fst set_map)
    then show ?thesis using p that by auto
  qed
  ultimately show ?thesis using s p k by (auto simp: valid_aggregate_def validateAggregateStructure_iff)
qed

lemma valid_validates:
  assumes v: "valid_aggregate co source a"
  shows "\<exists>a'. validateAggregate co source a = Inr a'"
proof -
  from v obtain lim where lim: "validateAggregateEnvelope co a source = Inr lim"
      and s: "structure_ok co (cdProfile (agDocument a)) (agBlocks a) lim" and k: "keyed (agBlocks a)"
    by (auto simp: valid_aggregate_def)
  have "\<exists>b. map_of (agBlocks a) j = Some b \<and> block_ok co source a j b" if "j \<in> set (map fst (agBlocks a))" for j
    using that v by (cases "map_of (agBlocks a) j") (auto simp: valid_aggregate_def map_of_eq_None_iff)
  moreover have "distinct (map fst (agBlocks a))" using k by (simp add: keyed_def)
  ultimately obtain a' where a': "fold_result (\<lambda>s k. validateAggregateBlockPayload co source k s) a (map fst (agBlocks a)) = Inr a'"
      "same_base (agBlocks a') (agBlocks a)" "map fst (agBlocks a') = map fst (agBlocks a)" "agDocument a' = agDocument a"
    using payloads_accept [of "map fst (agBlocks a)" a co source] by blast
  then have "validateAggregateStructure co a' lim = None"
    using s structure_base [OF a'(2)] k by (simp add: validateAggregateStructure_iff keyed_def)
  then show ?thesis using lim a' by (simp add: validateAggregate_def)
qed

end

end
