(* ===== verification/Content_Preservation.thy ===== *)
theory Content_Preservation
  imports Content_Correct
begin

text \<open>
  A batch that \<open>apply\<close> accepts on a valid aggregate makes a valid aggregate, although the code checks again
  only the blocks it upserts.
\<close>

section \<open>Association lists\<close>



lemma map_of_filter_keys: "map_of (filter (\<lambda>e. fst e \<notin> D) xs) k = (if k \<in> D then None else map_of xs k)"
  by (induction xs) auto

lemma set_alist_update: "x \<in> set (AList.update l d ls) \<Longrightarrow> x = (l, d) \<or> x \<in> set ls"
  by (induction ls) (auto split: if_splits)

lemma set_alist_delete: "x \<in> set (AList.delete l ls) \<Longrightarrow> x \<in> set ls"
  by (simp add: AList.delete_eq)

lemma locales_put: "locales_of (put_locale k l d a) j = (if j = k then AList.update l d (locales_of a k) else locales_of a j)"
  by (simp add: put_locale_def locales_of_def update_conv')

lemma locales_drop: "locales_of (drop_locale k l a) j = (if j = k then AList.delete l (locales_of a k) else locales_of a j)"
  by (simp add: drop_locale_def locales_of_def update_conv' split: option.splits)

lemma locale_state_simps [simp]:
  "agBlocks (put_locale k l d a) = agBlocks a" "agDocument (put_locale k l d a) = agDocument a"
  "agBlocks (drop_locale k l a) = agBlocks a" "agDocument (drop_locale k l a) = agDocument a"
  by (simp_all add: put_locale_def drop_locale_def split: option.splits)

section \<open>Blocks that are not checked again\<close>

text \<open>The payload of the block is valid in some place, and its position is not negative.\<close>

definition loose_ok :: "Contract \<Rightarrow> string \<Rightarrow> FullBlock \<Rightarrow> (string \<times> raw) list \<Rightarrow> bool" where
  "loose_ok co p b ls \<longleftrightarrow> 0 \<le> bbPosition b \<and>
     (\<exists>c. same_kind c b \<and> bbID c = bbID b \<and> flFiles c = flFiles b \<and> payload_ok co p c ls)"

definition kept_ok :: "Contract \<Rightarrow> string \<Rightarrow> string \<Rightarrow> uuid set \<Rightarrow> aggregate \<Rightarrow> bool" where
  "kept_ok co source p checked a \<longleftrightarrow> cdProfile (agDocument a) = p \<and> keyed (agBlocks a) \<and>
     (\<forall>k b. map_of (agBlocks a) k = Some b \<and> k \<notin> checked \<longrightarrow>
        map_of (locales_of a k) source \<noteq> None \<and> loose_ok co p b (locales_of a k))"

lemma normalize_placed: "normalizeBlock co p b = Inr n \<Longrightarrow> placed_ok b"
  by (auto simp: normalizeBlock_def Let_def guard_error_Inr first_error_None placed_ok_def)

lemma payload_ok_placed: "payload_ok co p b ls \<Longrightarrow> ls \<noteq> [] \<Longrightarrow> placed_ok b"
  by (cases ls) (auto simp: payload_ok_def placed_ok_def dest!: normalize_placed)

lemma payload_loose: "payload_ok co p b ls \<Longrightarrow> ls \<noteq> [] \<Longrightarrow> loose_ok co p b ls"
  using payload_ok_placed [of co p b ls] by (auto simp: loose_ok_def placed_ok_def same_kind_def)

lemma loose_ok_subset: "loose_ok co p b ls \<Longrightarrow> set ls' \<subseteq> set ls \<Longrightarrow> loose_ok co p b ls'"
  unfolding loose_ok_def payload_ok_def by blast

lemma loose_ok_place:
  "loose_ok co p b ls \<Longrightarrow> 0 \<le> i \<Longrightarrow> loose_ok co p (b\<lparr>bbParent := q, bbSlot := s, bbPosition := i\<rparr>) ls"
  by (auto simp: loose_ok_def same_kind_def)

lemma kept_at:
  "kept_ok co source p checked a \<Longrightarrow> map_of (agBlocks a) k = Some b \<Longrightarrow> k \<notin> checked \<Longrightarrow>
   map_of (locales_of a k) source \<noteq> None \<and> loose_ok co p b (locales_of a k)"
  unfolding kept_ok_def by blast

lemma keptI:
  assumes "kept_ok co source p checked a" and "agDocument a' = agDocument a" and "keyed (agBlocks a')"
    and "\<And>k b. map_of (agBlocks a') k = Some b \<Longrightarrow> k \<notin> checked \<Longrightarrow>
      map_of (locales_of a' k) source \<noteq> None \<and> loose_ok co p b (locales_of a' k)"
  shows "kept_ok co source p checked a'"
  using assms unfolding kept_ok_def by simp

lemma valid_kept:
  assumes "valid_aggregate co source a"
  shows "kept_ok co source (cdProfile (agDocument a)) checked (remove_blocks D a)"
proof -
  have "map_of (locales_of a k) source \<noteq> None \<and> loose_ok co (cdProfile (agDocument a)) b (locales_of a k)"
    if "map_of (agBlocks a) k = Some b" for k b
  proof -
    have "block_ok co source a k b" using assms that by (simp add: valid_aggregate_def)
    then show ?thesis by (metis block_ok_def payload_loose map_of.simps(1))
  qed
  moreover have "keyed (filter (\<lambda>e. fst e \<notin> D) (agBlocks a))"
    using assms by (auto simp: valid_aggregate_def keyed_def map_of_filter_keys distinct_map_filter)
  ultimately show ?thesis
    by (auto simp: kept_ok_def remove_blocks_def locales_of_def map_of_filter_keys split: if_splits)
qed

lemma put_upsert_kept:
  assumes "kept_ok co source p checked a" and "fst e \<in> checked" and "bbID (snd e) = fst e"
  shows "kept_ok co source p checked (put_upsert kinds e a)"
  using assms by (auto simp: kept_ok_def put_upsert_def keyed_update locales_of_def update_conv')

lemma put_upserts_kept:
  "kept_ok co source p checked a \<Longrightarrow> \<forall>e \<in> set upserts. fst e \<in> checked \<and> bbID (snd e) = fst e \<Longrightarrow>
   kept_ok co source p checked (fold (put_upsert kinds) upserts a)"
  by (induction upserts arbitrary: a) (auto intro: put_upsert_kept)

lemma reorder_kept:
  assumes "kept_ok co source p checked a" and "apply_reorder a r = Inr a'" and "0 \<le> roPosition r"
  shows "kept_ok co source p checked a'"
proof -
  from assms(2) obtain b where b: "map_of (agBlocks a) (roBlock r) = Some b"
      and a': "a' = a\<lparr>agBlocks := AList.update (roBlock r)
          (b\<lparr>bbParent := roParent r, bbSlot := trim_space (roSlot r), bbPosition := roPosition r\<rparr>) (agBlocks a)\<rparr>"
    by (auto simp: apply_reorder_def split: option.splits)
  have k: "keyed (agBlocks a)" using assms(1) by (simp add: kept_ok_def)
  show ?thesis
  proof (rule keptI [OF assms(1)])
    show "keyed (agBlocks a')" using k keyed_at [OF k b] a' by (simp add: keyed_update)
    show "map_of (locales_of a' j) source \<noteq> None \<and> loose_ok co p c (locales_of a' j)"
      if "map_of (agBlocks a') j = Some c" "j \<notin> checked" for j c
      using that a' kept_at [OF assms(1), of j] b loose_ok_place [OF _ assms(3)]
      by (cases "j = roBlock r") (auto simp: locales_of_def update_conv')
  qed (simp add: a')
qed

lemma locale_delete_kept:
  assumes "kept_ok co source p checked (fst s)" and "locale_delete source l s k = Inr s'"
  shows "kept_ok co source p checked (fst s')"
proof -
  from assms(2) have l: "l \<noteq> source" and s': "fst s' = drop_locale k l (fst s)"
    by (auto simp: locale_delete_def split: if_splits)
  have d: "loose_ok co p b ls \<Longrightarrow> loose_ok co p b (AList.delete l ls)" for b ls
    by (erule loose_ok_subset) (auto dest: set_alist_delete)
  show ?thesis
  proof (rule keptI [OF assms(1)])
    show "keyed (agBlocks (fst s'))" using assms(1) s' by (simp add: kept_ok_def)
    show "map_of (locales_of (fst s') j) source \<noteq> None \<and> loose_ok co p b (locales_of (fst s') j)"
      if "map_of (agBlocks (fst s')) j = Some b" "j \<notin> checked" for j b
      using kept_at [OF assms(1), of j b] that l s' d by (auto simp: locales_drop delete_conv')
  qed (simp add: s')
qed

context placed_contract
begin

lemma loose_at:
  assumes "loose_ok co p b ls" and "placed_ok b"
  shows "payload_ok co p b ls"
  using assms payload_ok_moved [of p _ ls b] by (auto simp: loose_ok_def)

lemma locale_update_kept:
  assumes st: "stable_contract co" and k: "kept_ok co source p checked (fst s)"
    and u: "locale_update co inputs l s u = Inr s'"
  shows "kept_ok co source p checked (fst s')"
proof -
  from u obtain b d n where b: "map_of (agBlocks (fst s)) (luBlock u) = Some b"
      and n: "normalizeBlock co p (b\<lparr>flLocalized := d\<rparr>) = Inr n" "sameBlockShared b n"
      and s': "fst s' = put_locale (luBlock u) l (flLocalized n) (fst s)"
    using k by (auto simp: locale_update_def Let_def and_then_Inr guard_error_Inr kept_ok_def split: option.splits)
  have pb: "placed_ok b" using normalize_placed [OF n(1)] by (simp add: placed_ok_def)
  from normalize_stable(2) [OF st n(1)] obtain m where m: "normalizeBlock co p (b\<lparr>flLocalized := flLocalized n\<rparr>) = Inr m"
      "bbShared m = bbShared n" "flFiles m = flFiles n" by auto
  have "payload_ok co p b (AList.update l (flLocalized n) (locales_of (fst s) (luBlock u)))"
    if "luBlock u \<notin> checked"
    using loose_at [OF _ pb] k b that m n(2)
    by (fastforce simp: kept_ok_def payload_ok_def sameBlockShared_def dest!: set_alist_update)
  then have "loose_ok co p b (AList.update l (flLocalized n) (locales_of (fst s) (luBlock u)))"
    if "luBlock u \<notin> checked"
    using that by (intro payload_loose) auto
  note here = this
  show ?thesis
  proof (rule keptI [OF k])
    show "keyed (agBlocks (fst s'))" using k s' by (simp add: kept_ok_def)
    show "map_of (locales_of (fst s') j) source \<noteq> None \<and> loose_ok co p c (locales_of (fst s') j)"
      if "map_of (agBlocks (fst s')) j = Some c" "j \<notin> checked" for j c
      using kept_at [OF k, of j c] that s' b here by (cases "j = luBlock u") (auto simp: locales_put update_conv')
  qed (simp add: s')
qed

lemma groups_kept:
  assumes "stable_contract co" and "kept_ok co source p checked (fst s)"
    and "fold_result (apply_group co source inputs) s gs = Inr s'"
  shows "kept_ok co source p checked (fst s')"
proof (rule fold_result_invariant [where I = "\<lambda>s. kept_ok co source p checked (fst s)", OF _ assms(2,3)])
  fix s g s' assume s: "kept_ok co source p checked (fst s)" and g: "apply_group co source inputs s g = Inr s'"
  from g obtain t where t: "fold_result (locale_delete source (lgLocale g)) s (lgDeletes g) = Inr t"
      "fold_result (locale_update co inputs (lgLocale g)) t (lgUpserts g) = Inr s'"
    by (auto simp: apply_group_def and_then_Inr)
  have "kept_ok co source p checked (fst t)"
    by (rule fold_result_invariant [where I = "\<lambda>s. kept_ok co source p checked (fst s)", OF _ s t(1)])
      (rule locale_delete_kept)
  from fold_result_invariant [where I = "\<lambda>s. kept_ok co source p checked (fst s)", OF _ this t(2)]
  show "kept_ok co source p checked (fst s')" using locale_update_kept [OF assms(1)] by blast
qed

end

section \<open>Slots\<close>

text \<open>The catalog is the authority for slots: a parent check that accepts has seen the name of a slot.\<close>

definition slot_rules :: "Contract \<Rightarrow> bool" where
  "slot_rules co \<longleftrightarrow> (\<forall>p parent b. coValidateParent co p parent b = None \<longrightarrow> containerSlotPattern (bbSlot b))"

lemma strip_front_id: "(\<And>w. w \<in> set ws \<Longrightarrow> w \<noteq> [] \<Longrightarrow> s \<noteq> [] \<Longrightarrow> hd w \<noteq> hd s) \<Longrightarrow> strip_front ws s = s"
proof -
  assume h: "\<And>w. w \<in> set ws \<Longrightarrow> w \<noteq> [] \<Longrightarrow> s \<noteq> [] \<Longrightarrow> hd w \<noteq> hd s"
  have "find (\<lambda>w. w \<noteq> [] \<and> has_prefix s w) ws = None"
    unfolding find_None_iff
  proof (clarify)
    fix w assume w: "w \<in> set ws" "w \<noteq> []" "has_prefix s w"
    obtain x v where "w = x # v" using w(2) by (meson list.exhaust)
    moreover from this w(3) have "s \<noteq> []" "hd s = x" by (cases s; simp add: has_prefix_def)+
    ultimately show False using h [OF w(1,2)] by simp
  qed
  then show ?thesis by (subst strip_front.simps) simp
qed

lemma trim_space_id: "(\<forall>c \<in> set s. c \<notin> set (concat space_encodings)) \<Longrightarrow> trim_space s = s"
proof -
  assume s: "\<forall>c \<in> set s. c \<notin> set (concat space_encodings)"
  then have c: "x \<noteq> y" if "x \<in> set w" "w \<in> set space_encodings" "y \<in> set s" for w x y
    using that by fastforce
  have "strip_front space_encodings s = s"
    by (rule strip_front_id) (rule c, rule hd_in_set, assumption, assumption, rule hd_in_set)
  moreover have "strip_front (map rev space_encodings) (rev s) = rev s"
  proof (rule strip_front_id)
    fix w assume "w \<in> set (map rev space_encodings)" "w \<noteq> []" "rev s \<noteq> []"
    then show "hd w \<noteq> hd (rev s)" using c [of "hd w" "rev w" "hd (rev s)"] hd_in_set [of w] hd_in_set [of "rev s"] by auto
  qed
  ultimately show ?thesis by (simp add: trim_space_def)
qed

lemma slot_trimmed: "containerSlotPattern s \<Longrightarrow> trim_space s = s"
proof -
  assume s: "containerSlotPattern s"
  have "c \<notin> set (concat space_encodings)" if "is_lower c \<or> is_digit c \<or> c = CHR ''_'' \<or> c = CHR ''-''" for c
    using that by (auto simp: space_encodings_def is_lower_def is_digit_def less_eq_char_def)
  moreover have "\<forall>c \<in> set s. is_lower c \<or> is_digit c \<or> c = CHR ''_'' \<or> c = CHR ''-''"
    using s by (cases s) (auto simp: containerSlotPattern_def list_all_iff)
  ultimately show ?thesis by (intro trim_space_id) blast
qed

lemma deep_parent_ok: "deep co p blocks lim k d \<Longrightarrow> parent_ok co p blocks (block_at blocks k)"
  by (auto elim: deep.cases)

lemma structure_slot:
  assumes "slot_rules co" and "structure_ok co p blocks lim" and "map_of blocks k = Some b"
  shows "containerSlotPattern (trim_space (bbSlot b))"
proof -
  have "k \<in> fst ` set blocks" using assms(3) by (force dest: map_of_SomeD)
  then obtain d where "deep co p blocks lim k d" using assms(2) by (auto simp: structure_ok_def)
  then have "parent_ok co p blocks b" using deep_parent_ok assms(3) by (fastforce simp: block_at_def)
  then have "containerSlotPattern (bbSlot b)"
    using assms(1) by (auto simp: parent_ok_def slot_rules_def split: option.splits)
  then show ?thesis by (simp add: slot_trimmed)
qed

lemma structure_parent:
  assumes "structure_ok co p blocks lim" and "map_of blocks k = Some b" and "bbParent b = Some q"
  shows "map_of blocks q \<noteq> None"
proof -
  have "k \<in> fst ` set blocks" using assms(2) by (force dest: map_of_SomeD)
  then obtain d where "deep co p blocks lim k d" using assms(1) by (auto simp: structure_ok_def)
  then have "parent_ok co p blocks b" using deep_parent_ok assms(2) by (fastforce simp: block_at_def)
  then show ?thesis using assms(3) by (auto simp: parent_ok_def split: option.splits)
qed

section \<open>The batch\<close>

lemma upserts_keyed:
  assumes "fold_result (upsert_round co before source inputs allowMissing replaceAll) s us = Inr s'"
    and "\<forall>e \<in> set (fst s). bbID (snd e) = fst e"
  shows "\<forall>e \<in> set (fst s'). bbID (snd e) = fst e"
proof (rule fold_result_invariant [where I = "\<lambda>s. \<forall>e \<in> set (fst s). bbID (snd e) = fst e", OF _ assms(2,1)])
  fix s u s' assume s: "\<forall>e \<in> set (fst s). bbID (snd e) = fst e"
    and r: "upsert_round co before source inputs allowMissing replaceAll s u = Inr s'"
  from r obtain n :: FullBlock where "fst s' = AList.update (bbID n) n (fst s)"
    by (auto simp: upsert_round_def Let_def and_then_Inr guard_error_Inr split: option.splits if_splits)
  then show "\<forall>e \<in> set (fst s'). bbID (snd e) = fst e" using s by (auto dest!: set_alist_update)
qed

lemma reorder_positions:
  assumes "validateOperationIDs b = None" and "r \<in> set (baReorders b)"
  shows "0 \<le> roPosition r"
proof -
  from assms(1) obtain s t where "fold_result reorder_round s (baReorders b) = Inr t"
    by (auto simp: validateOperationIDs_def base_operations_def and_then_Inr split: sum.splits)
  from fold_result_each [OF this assms(2)] show ?thesis by (auto simp: reorder_round_def guard_error_Inr)
qed

lemma group_blocks:
  "apply_group co source inputs s g = Inr s' \<Longrightarrow> agBlocks (fst s') = agBlocks (fst s) \<and> agDocument (fst s') = agDocument (fst s)"
proof -
  let ?same = "\<lambda>t. agBlocks (fst t) = agBlocks (fst s) \<and> agDocument (fst t) = agDocument (fst s)"
  assume "apply_group co source inputs s g = Inr s'"
  then obtain t where t: "fold_result (locale_delete source (lgLocale g)) s (lgDeletes g) = Inr t"
      "fold_result (locale_update co inputs (lgLocale g)) t (lgUpserts g) = Inr s'"
    by (auto simp: apply_group_def and_then_Inr)
  have "?same t"
    by (rule fold_result_invariant [where I = ?same, OF _ _ t(1)]) (auto simp: locale_delete_def split: if_splits)
  show "?same s'"
    by (rule fold_result_invariant [where I = ?same, OF _ \<open>?same t\<close> t(2)])
      (auto simp: locale_update_def Let_def and_then_Inr guard_error_Inr split: option.splits)
qed

lemma groups_blocks:
  assumes "fold_result (apply_group co source inputs) s gs = Inr s'"
  shows "agBlocks (fst s') = agBlocks (fst s) \<and> agDocument (fst s') = agDocument (fst s)"
  by (rule fold_result_invariant [where I = "\<lambda>t. agBlocks (fst t) = agBlocks (fst s) \<and> agDocument (fst t) = agDocument (fst s)",
        OF _ _ assms]) (auto dest: group_blocks)

text \<open>The stages of an accepted batch.\<close>

lemma apply_batch_stages:
  assumes "apply_batch co canon owners before b source allowMissing replaceAll = Inr (after, m)"
  obtains inputs upserts kinds deleted moved localized mutations lim where
    "validateOperationIDs b = None"
    "fold_result (upsert_round co before source inputs allowMissing replaceAll) ([], []) (baUpserts b) = Inr (upserts, kinds)"
    "deleted = expandedDeletes (agBlocks before) (baDeletes b) (fst ` set upserts \<union> roBlock ` set (baReorders b))"
    "fold_result apply_reorder (fold (put_upsert kinds) upserts (remove_blocks deleted before)) (baReorders b) = Inr moved"
    "fold_result (apply_group co source inputs) (moved, []) (baGroups b) = Inr (localized, mutations)"
    "validateAggregateEnvelope co localized source = Inr lim"
    "fold_result (\<lambda>s k. validateAggregateBlockPayload co source k s) localized (map fst upserts) = Inr after"
    "upserts \<noteq> [] \<or> deleted \<noteq> {} \<or> baReorders b \<noteq> [] \<Longrightarrow> validateAggregateStructure co after lim = None"
    "sortUpsertsByDepth (agBlocks after) (map fst upserts) = Inr (pmUpsertOrder m)"
    "sortDeletesByDepth (agBlocks before) deleted = Inr (pmDeleteOrder m)"
    "pmLocaleMutations m = sort_key (\<lambda>m. (lmLocale m, lmBlock m)) mutations"
    "pmReorders m = baReorders b" "pmKindChanged m = kinds" "pmSourceLocale m = source"
proof -
  note [simp] = and_then_Inr guard_error_Inr Let_def
  from assms obtain inputs upserts kinds moved localized mutations lim where
    "validateOperationIDs b = None"
    "fold_result (upsert_round co before source inputs allowMissing replaceAll) ([], []) (baUpserts b) = Inr (upserts, kinds)"
    "fold_result apply_reorder (fold (put_upsert kinds) upserts (remove_blocks
      (expandedDeletes (agBlocks before) (baDeletes b) (fst ` set upserts \<union> roBlock ` set (baReorders b))) before)) (baReorders b) = Inr moved"
    "fold_result (apply_group co source inputs) (moved, []) (baGroups b) = Inr (localized, mutations)"
    "validateAggregateEnvelope co localized source = Inr lim"
    "fold_result (\<lambda>s k. validateAggregateBlockPayload co source k s) localized (map fst upserts) = Inr after"
    "(if upserts \<noteq> [] \<or> expandedDeletes (agBlocks before) (baDeletes b) (fst ` set upserts \<union> roBlock ` set (baReorders b)) \<noteq> {} \<or> baReorders b \<noteq> []
      then validateAggregateStructure co after lim else None) = None"
    "sortUpsertsByDepth (agBlocks after) (map fst upserts) = Inr (pmUpsertOrder m)"
    "sortDeletesByDepth (agBlocks before)
      (expandedDeletes (agBlocks before) (baDeletes b) (fst ` set upserts \<union> roBlock ` set (baReorders b))) = Inr (pmDeleteOrder m)"
    "pmLocaleMutations m = sort_key (\<lambda>m. (lmLocale m, lmBlock m)) mutations"
    "pmReorders m = baReorders b" "pmKindChanged m = kinds" "pmSourceLocale m = source"
    unfolding apply_batch_def by (simp add: split_beta) fastforce
  then show ?thesis by (intro that) (auto split: if_splits)
qed

context placed_contract
begin

text \<open>Checked blocks, kept blocks and an accepted structure make a valid aggregate.\<close>

lemma kept_valid:
  assumes sl: "slot_rules co" and kept: "kept_ok co source p U a" and env: "validateAggregateEnvelope co a source = Inr lim"
    and struct: "structure_ok co p (agBlocks a) lim"
    and checked: "\<And>k c. map_of (agBlocks a) k = Some c \<Longrightarrow> k \<in> U \<Longrightarrow> block_ok co source a k c"
  shows "valid_aggregate co source a"
proof -
  have prof: "cdProfile (agDocument a) = p" and keyed: "keyed (agBlocks a)" using kept by (simp_all add: kept_ok_def)
  have id: "bbID c \<noteq> 0" if c: "map_of (agBlocks a) k = Some c" for k c
  proof -
    have "locales_of a k \<noteq> []" using kept_at [OF kept c] checked [OF c] by (cases "k \<in> U") (auto simp: block_ok_def)
    then show ?thesis
      using kept_at [OF kept c] checked [OF c] payload_ok_placed [of co p _ "locales_of a k"] prof
      by (cases "k \<in> U") (auto simp: block_ok_def loose_ok_def placed_ok_def)
  qed
  have "block_ok co source a k c" if c: "map_of (agBlocks a) k = Some c" for k c
  proof (cases "k \<in> U")
    case False
    have "bbParent c \<noteq> Some 0" using structure_parent [OF struct c] keyed_at [OF keyed] id by fastforce
    then have "placed_ok c"
      using structure_slot [OF sl struct c] id [OF c] kept_at [OF kept c False] by (auto simp: placed_ok_def loose_ok_def)
    then show ?thesis using loose_at kept_at [OF kept c False] prof by (simp add: block_ok_def)
  qed (rule checked [OF c])
  then show ?thesis using keyed env struct prof by (auto simp: valid_aggregate_def)
qed

lemma apply_batch_valid:
  assumes st: "stable_contract co" and sl: "slot_rules co" and v: "valid_aggregate co source before"
    and a: "apply_batch co canon owners before b source allowMissing replaceAll = Inr (after, m)"
  shows "valid_aggregate co source after"
  using a
proof (rule apply_batch_stages)
  fix inputs and upserts :: "(uuid \<times> FullBlock) list" and kinds deleted moved localized mutations lim
  let ?p = "cdProfile (agDocument before)" and ?U = "fst ` set upserts"
  assume ids: "validateOperationIDs b = None"
    and ups: "fold_result (upsert_round co before source inputs allowMissing replaceAll) ([], []) (baUpserts b) = Inr (upserts, kinds)"
    and mv: "fold_result apply_reorder (fold (put_upsert kinds) upserts (remove_blocks deleted before)) (baReorders b) = Inr moved"
    and gr: "fold_result (apply_group co source inputs) (moved, []) (baGroups b) = Inr (localized, mutations)"
    and env: "validateAggregateEnvelope co localized source = Inr lim"
    and pay: "fold_result (\<lambda>s k. validateAggregateBlockPayload co source k s) localized (map fst upserts) = Inr after"
    and str: "upserts \<noteq> [] \<or> deleted \<noteq> {} \<or> baReorders b \<noteq> [] \<Longrightarrow> validateAggregateStructure co after lim = None"
  have "kept_ok co source ?p ?U (fold (put_upsert kinds) upserts (remove_blocks deleted before))"
    using upserts_keyed [OF ups] by (intro put_upserts_kept valid_kept v) auto
  from fold_result_invariant [where I = "kept_ok co source ?p ?U", OF _ this mv]
  have "kept_ok co source ?p ?U moved" using reorder_kept reorder_positions [OF ids] by blast
  then have kept: "kept_ok co source ?p ?U localized" using groups_kept [OF st _ gr] by simp
  note p = payloads_sound [OF st pay]
  have "locales_of after = locales_of localized" using p by (simp add: locales_of_def fun_eq_iff)
  then have after: "kept_ok co source ?p ?U after"
    using p kept_at [OF kept] kept by (intro keptI [OF kept]) (simp_all add: kept_ok_def)
  have "length (agBlocks after) = length (agBlocks localized)" using p by (metis length_map)
  then have env': "validateAggregateEnvelope co after source = Inr lim" using env p by (simp add: validateAggregateEnvelope_def)
  have struct: "structure_ok co ?p (agBlocks after) lim"
  proof (cases "upserts \<noteq> [] \<or> deleted \<noteq> {} \<or> baReorders b \<noteq> []")
    case True
    then show ?thesis using str after by (simp add: validateAggregateStructure_iff kept_ok_def)
  next
    case False
    then have "moved = before" "after = localized" using mv pay by (simp_all add: remove_blocks_def)
    then have same: "agBlocks after = agBlocks before" "agDocument after = agDocument before"
      using groups_blocks [OF gr] by simp_all
    then have "validateAggregateEnvelope co before source = Inr lim" using env' by (simp add: validateAggregateEnvelope_def)
    then show ?thesis using v same by (auto simp: valid_aggregate_def)
  qed
  show ?thesis by (rule kept_valid [OF sl after env' struct]) (use p in fastforce)
qed

end

end
