(* ===== verification/Content_Orders.thy ===== *)
theory Content_Orders
  imports Content_Preservation
begin

text \<open>
  The structure check in terms of the parent map, the closure of the deletes, the orders in which rows are written,
  and what a batch of one locale leaves alone.
\<close>

section \<open>Depth\<close>

lemma block_parents_at: "block_parents blocks k = bbParent (block_at blocks k)"
  by (simp add: block_parents_def block_at_def zeroBlock_def split: option.splits)

lemma deep_height:
  "deep co p blocks lim k d \<Longrightarrow> \<exists>n. height (block_parents blocks) k n \<and> d = int n + 1 \<and> d \<le> limMaxDepth lim"
proof (induction rule: deep.induct)
  case (root k)
  then show ?case by (intro exI [of _ 0]) (auto intro: height.outside simp: block_parents_at)
next
  case (child k q d)
  then obtain n where "height (block_parents blocks) q n" "d = int n + 1" by blast
  with child.hyps show ?case
    by (intro exI [of _ "Suc n"]) (auto intro: height.child [of _ _ q] simp: block_parents_at [of blocks k])
qed

lemma height_deep:
  assumes "height (block_parents blocks) k n" and "int n < limMaxDepth lim" and "map_of blocks k \<noteq> None"
    and ok: "\<And>j b. map_of blocks j = Some b \<Longrightarrow> parent_ok co p blocks b"
  shows "deep co p blocks lim k (int n + 1)"
  using assms(1-3)
proof (induction rule: height.induct)
  case (outside k)
  then show ?case
    using ok by (auto intro!: deep.root simp: block_parents_at block_at_def)
next
  case (child k q n)
  then obtain b where b: "map_of blocks k = Some b" "bbParent b = Some q"
    by (auto simp: block_parents_def)
  then have "parent_ok co p blocks b" using ok by blast
  moreover from this b(2) have "map_of blocks q \<noteq> None" by (auto simp: parent_ok_def split: option.splits)
  then have "deep co p blocks lim q (int n + 1)" using child.IH child.prems by simp
  ultimately have "deep co p blocks lim k (int n + 1 + 1)"
    using b child.prems by (intro deep.child [of blocks k q]) (simp_all add: block_at_def)
  then show ?case by (simp add: algebra_simps)
qed

lemma structure_ok_height:
  "structure_ok co p blocks lim \<longleftrightarrow>
     (\<forall>k b. map_of blocks k = Some b \<longrightarrow> parent_ok co p blocks b \<and>
        (\<exists>n. height (block_parents blocks) k n \<and> int n < limMaxDepth lim)) \<and>
     (\<forall>key. dense (positions blocks key))"
  (is "?s \<longleftrightarrow> ?h")
proof
  assume s: ?s
  have "parent_ok co p blocks b \<and> (\<exists>n. height (block_parents blocks) k n \<and> int n < limMaxDepth lim)"
    if b: "map_of blocks k = Some b" for k b
  proof -
    have "k \<in> fst ` set blocks" using b by (force dest: map_of_SomeD)
    then obtain d where d: "deep co p blocks lim k d" using s by (auto simp: structure_ok_def)
    show ?thesis using deep_height [OF d] deep_parent_ok [OF d] b by (auto simp: block_at_def)
  qed
  then show ?h using s by (simp add: structure_ok_def)
next
  assume h: ?h
  have "\<exists>d. deep co p blocks lim k d" if "k \<in> fst ` set blocks" for k
  proof -
    have "map_of blocks k \<noteq> None" using that by (simp add: map_of_eq_None_iff)
    then obtain b where "map_of blocks k = Some b" by blast
    with h height_deep [of blocks k _ lim co p] show ?thesis by (metis option.distinct(1))
  qed
  with h show ?s by (simp add: structure_ok_def)
qed

section \<open>Closure of the deletes\<close>

inductive doomed :: "(uuid \<times> FullBlock) list \<Rightarrow> uuid list \<Rightarrow> uuid set \<Rightarrow> uuid \<Rightarrow> bool"
  for blocks explicit retained where
  explicit: "k \<in> set explicit \<Longrightarrow> doomed blocks explicit retained k"
| below: "(k, b) \<in> set blocks \<Longrightarrow> bbParent b = Some p \<Longrightarrow> doomed blocks explicit retained p \<Longrightarrow> k \<notin> retained \<Longrightarrow>
    doomed blocks explicit retained k"

lemma delete_pass_sound:
  "(\<And>k. k \<in> deleted \<Longrightarrow> doomed all explicit retained k) \<Longrightarrow> set blocks \<subseteq> set all \<Longrightarrow>
   k \<in> fold (delete_round retained) blocks deleted \<Longrightarrow> doomed all explicit retained k"
proof (induction blocks arbitrary: deleted)
  case (Cons e blocks)
  obtain j b where e: "e = (j, b)" by (cases e)
  have "doomed all explicit retained i" if "i \<in> delete_round retained e deleted" for i
    using that Cons.prems(1,2) e doomed.below [of j b all] by (auto simp: delete_round_def split: if_splits option.splits)
  then show ?case using Cons.IH [of "delete_round retained e deleted"] Cons.prems by simp
qed simp

lemma delete_pass_closed:
  assumes "delete_pass blocks retained deleted = deleted" and "(k, b) \<in> set blocks"
    and "bbParent b = Some p" and "p \<in> deleted" and "k \<notin> retained"
  shows "k \<in> deleted"
proof -
  have mono: "D \<subseteq> fold (delete_round retained) xs D" for D xs
    using delete_pass_bounds(1) [of D xs retained] by (simp add: delete_pass_def)
  from split_list [OF assms(2)] obtain xs ys where bs: "blocks = xs @ (k, b) # ys" by blast
  let ?D = "fold (delete_round retained) xs deleted"
  have "p \<in> ?D" using mono assms(4) by blast
  then have "k \<in> delete_round retained (k, b) ?D" using assms(3,5) by (simp add: delete_round_def)
  then have "k \<in> delete_pass blocks retained deleted"
    using mono [of "delete_round retained (k, b) ?D" ys] by (auto simp: bs delete_pass_def)
  then show ?thesis using assms(1) by simp
qed

lemma expand_deletes_doomed:
  "(\<And>k. k \<in> deleted \<Longrightarrow> doomed blocks explicit retained k) \<Longrightarrow> set explicit \<subseteq> deleted \<Longrightarrow>
   expand_deletes blocks retained deleted = {k. doomed blocks explicit retained k}"
proof (induction blocks retained deleted rule: expand_deletes.induct)
  case (1 blocks retained deleted)
  let ?pass = "delete_pass blocks retained deleted"
  show ?case
  proof (cases "?pass = deleted")
    case True
    have "k \<in> deleted" if "doomed blocks explicit retained k" for k
      using that by (induction rule: doomed.induct) (use "1.prems"(2) delete_pass_closed [OF True] in auto)
    then show ?thesis using True "1.prems"(1) by (subst expand_deletes.simps) auto
  next
    case False
    have "doomed blocks explicit retained k" if "k \<in> ?pass" for k
      using delete_pass_sound [of deleted blocks explicit retained blocks k] that "1.prems"(1) by (simp add: delete_pass_def)
    moreover have "set explicit \<subseteq> ?pass" using "1.prems"(2) delete_pass_bounds(1) by blast
    ultimately show ?thesis using "1.IH" [OF refl False] False by (subst expand_deletes.simps) simp
  qed
qed

lemma expandedDeletes_doomed: "expandedDeletes blocks explicit retained = {k. doomed blocks explicit retained k}"
  by (simp add: expandedDeletes_def expand_deletes_doomed doomed.explicit)

section \<open>Orders by depth\<close>

lemma visit_depth_height: "height (block_parents blocks) k n \<Longrightarrow> n < m \<Longrightarrow> visit_depth m blocks k = Some (int n + 1)"
proof (induction arbitrary: m rule: height.induct)
  case (outside k)
  then show ?case by (cases m) (auto simp: block_parents_at)
next
  case (child k q n)
  then show ?case by (cases m) (auto simp: block_parents_at [of blocks k])
qed

lemma visit_depth_returns: "visit_depth m blocks k = Some d \<Longrightarrow> \<exists>n. height (block_parents blocks) k n \<and> d = int n + 1"
proof (induction m arbitrary: k d)
  case (Suc m)
  show ?case
  proof (cases "bbParent (block_at blocks k)")
    case None
    then show ?thesis using Suc.prems by (intro exI [of _ 0]) (auto intro: height.outside simp: block_parents_at)
  next
    case (Some q)
    with Suc.prems obtain e where e: "visit_depth m blocks q = Some e" "d = e + 1" by auto
    from Suc.IH [OF e(1)] obtain n where "height (block_parents blocks) q n" "e = int n + 1" by blast
    with Some e(2) show ?thesis
      by (intro exI [of _ "Suc n"]) (auto intro: height.child [of _ _ q] simp: block_parents_at [of blocks k])
  qed
qed simp

lemma block_parents_bound: "height (block_parents blocks) k n \<Longrightarrow> n < Suc (length blocks)"
proof -
  have sub: "dom (block_parents blocks) \<subseteq> fst ` set blocks"
    by (auto simp: block_parents_def dom_map_of_conv_image_fst [symmetric] split: option.splits)
  then have fin: "finite (dom (block_parents blocks))" by (rule finite_subset) simp
  have "card (dom (block_parents blocks)) \<le> card (fst ` set blocks)" using sub by (simp add: card_mono)
  also have "\<dots> \<le> length blocks" using card_length [of "map fst blocks"] by simp
  finally show "height (block_parents blocks) k n \<Longrightarrow> n < Suc (length blocks)"
    using height_bound [of "block_parents blocks" k n] fin by linarith
qed

lemma ancestor_visited:
  "ancestor (block_parents blocks) a k \<Longrightarrow> a \<in> visited_blocks blocks \<and> k \<in> visited_blocks blocks"
proof (induction rule: ancestor.induct)
  case (parent k a)
  then obtain b where "(k, b) \<in> set blocks" "bbParent b = Some a"
    by (auto simp: block_parents_def dest: map_of_SomeD split: option.splits)
  then show ?case by (force simp: visited_blocks_def)
next
  case (above k q a)
  then obtain b where "(k, b) \<in> set blocks" by (auto simp: block_parents_def dest: map_of_SomeD split: option.splits)
  with above.IH show ?case by (force simp: visited_blocks_def)
qed

text \<open>When \<open>blockDepths\<close> returns, depths increase from parent to child.\<close>

lemma blockDepths_ancestor:
  assumes "blockDepths blocks = Inr depth" and a: "ancestor (block_parents blocks) a k"
  shows "depth a < depth k"
proof -
  let ?visit = "visit_depth (Suc (length blocks)) blocks"
  from assms(1) have all: "\<forall>(k, b) \<in> set blocks. ?visit k \<noteq> None"
      and d: "depth = (\<lambda>k. if k \<in> visited_blocks blocks then (case ?visit k of None \<Rightarrow> 0 | Some d \<Rightarrow> d) else 0)"
    by (auto simp: blockDepths_def Let_def list_all_iff split: if_splits)
  have "block_parents blocks k \<noteq> None" using a by (auto elim: ancestor.cases)
  then obtain b where "(k, b) \<in> set blocks" by (auto simp: block_parents_def dest: map_of_SomeD split: option.splits)
  then obtain e where "?visit k = Some e" using all by fastforce
  from visit_depth_returns [OF this] obtain n where n: "height (block_parents blocks) k n" by blast
  have "\<exists>m. height (block_parents blocks) a m" if "height (block_parents blocks) k n"
    using a that by (induction arbitrary: n rule: ancestor.induct) (erule height_someE; fastforce)+
  then obtain m where m: "height (block_parents blocks) a m" using n by blast
  have "depth a = int m + 1" "depth k = int n + 1"
    using visit_depth_height [OF n block_parents_bound [OF n]] visit_depth_height [OF m block_parents_bound [OF m]]
      ancestor_visited [OF a] by (simp_all add: d)
  then show ?thesis using ancestor_height [OF a m n] by simp
qed

lemma blockDepths_returns:
  assumes "structure_ok co p blocks lim"
  shows "\<exists>depth. blockDepths blocks = Inr depth"
proof -
  have "visit_depth (Suc (length blocks)) blocks k \<noteq> None" if "k \<in> fst ` set blocks" for k
  proof -
    obtain d where "deep co p blocks lim k d" using assms \<open>k \<in> fst ` set blocks\<close> by (auto simp: structure_ok_def)
    from deep_height [OF this] obtain n where n: "height (block_parents blocks) k n" by blast
    from visit_depth_height [OF n block_parents_bound [OF n]] show ?thesis by simp
  qed
  then have "list_all (\<lambda>(k, b). visit_depth (Suc (length blocks)) blocks k \<noteq> None) blocks"
    by (force simp: list_all_iff)
  then show ?thesis by (simp add: blockDepths_def)
qed

lemma sorted_by_key: "sorted_wrt (\<lambda>x y. key x \<le> key y) (sort_key key xs)"
  using sorted_sort_key [of key xs] by (simp add: sorted_map)

lemma sortUpsertsByDepth_order:
  assumes "sortUpsertsByDepth blocks upserts = Inr order"
  shows "set order = set upserts \<and> sorted_wrt (\<lambda>x y. \<not> ancestor (block_parents blocks) y x) order"
proof -
  from assms obtain depth where d: "blockDepths blocks = Inr depth" "order = sort_key (\<lambda>k. (depth k, k)) upserts"
    by (auto simp: sortUpsertsByDepth_def and_then_Inr)
  have "\<not> ancestor (block_parents blocks) y x" if "(depth x, x) \<le> (depth y, y)" for x y
    using that blockDepths_ancestor [OF d(1), of y x] by auto
  then show ?thesis
    using sorted_by_key [of "\<lambda>k. (depth k, k)" upserts] by (auto simp: d(2) elim!: sorted_wrt_mono_rel [rotated])
qed

lemma sortDeletesByDepth_order:
  assumes "sortDeletesByDepth blocks deleted = Inr order" and "finite deleted"
  shows "set order = deleted \<and> sorted_wrt (\<lambda>x y. \<not> ancestor (block_parents blocks) x y) order"
proof -
  from assms(1) obtain depth where d: "blockDepths blocks = Inr depth"
      "order = sort_key (\<lambda>k. (- depth k, k)) (sorted_list_of_set deleted)"
    by (auto simp: sortDeletesByDepth_def and_then_Inr)
  have "\<not> ancestor (block_parents blocks) x y" if "(- depth x, x) \<le> (- depth y, y)" for x y
    using that blockDepths_ancestor [OF d(1), of x y] by auto
  then show ?thesis
    using sorted_by_key [of "\<lambda>k. (- depth k, k)" "sorted_list_of_set deleted"] assms(2)
    by (auto simp: d(2) elim!: sorted_wrt_mono_rel [rotated])
qed

section \<open>The batch\<close>

lemma normalize_fields:
  "normalizeBlock co p b = Inr n \<Longrightarrow> bbID n = bbID b \<and> bbParent n = bbParent b \<and> bbPosition n = bbPosition b \<and>
     bbKind n = trim_space (bbKind b) \<and> bbSlot n = trim_space (bbSlot b)"
  by (auto simp: normalizeBlock_def Let_def guard_error_Inr and_then_Inr)

lemma set_update_keys: "fst ` set (AList.update k v xs) = insert k (fst ` set xs)"
  using dom_update [of k v xs] by (simp add: dom_map_of_conv_image_fst)

lemma upserts_ids:
  "fold_result (upsert_round co before source inputs allowMissing replaceAll) s us = Inr s' \<Longrightarrow>
   fst ` set (fst s') = fst ` set (fst s) \<union> bbID ` set us"
proof (induction us arbitrary: s)
  case (Cons u us)
  then obtain t where t: "upsert_round co before source inputs allowMissing replaceAll s u = Inr t"
      "fold_result (upsert_round co before source inputs allowMissing replaceAll) t us = Inr s'" by (auto simp: and_then_Inr)
  from t(1) obtain n d where "fst t = AList.update (bbID n) n (fst s)"
      "normalizeBlock co (cdProfile (agDocument before)) (BaseBlock.extend u \<lparr>flLocalized = d, flFiles = []\<rparr>) = Inr n"
    by (auto simp: upsert_round_def Let_def and_then_Inr guard_error_Inr split: option.splits if_splits)
  then have "fst ` set (fst t) = insert (bbID u) (fst ` set (fst s))"
    by (auto simp: set_update_keys BaseBlock.defs dest!: normalize_fields)
  then show ?case using Cons.IH [OF t(2)] by auto
qed simp

definition operated :: "Batch \<Rightarrow> uuid set" where
  "operated b = bbID ` set (baUpserts b) \<union> roBlock ` set (baReorders b)"

lemma finite_doomed: "finite {k. doomed blocks explicit retained k}"
proof (rule finite_subset)
  have "k \<in> set explicit \<union> fst ` set blocks" if "doomed blocks explicit retained k" for k
    using that by (rule doomed.cases) force+
  then show "{k. doomed blocks explicit retained k} \<subseteq> set explicit \<union> fst ` set blocks" by blast
qed simp

lemma apply_batch_orders:
  assumes "apply_batch co canon owners before b source allowMissing replaceAll = Inr (after, m)"
  shows "set (pmUpsertOrder m) = bbID ` set (baUpserts b) \<and>
    sorted_wrt (\<lambda>x y. \<not> ancestor (block_parents (agBlocks after)) y x) (pmUpsertOrder m) \<and>
    set (pmDeleteOrder m) = {k. doomed (agBlocks before) (baDeletes b) (operated b) k} \<and>
    sorted_wrt (\<lambda>x y. \<not> ancestor (block_parents (agBlocks before)) x y) (pmDeleteOrder m)"
  using assms
proof (rule apply_batch_stages)
  fix inputs and upserts :: "(uuid \<times> FullBlock) list" and kinds deleted
  assume ups: "fold_result (upsert_round co before source inputs allowMissing replaceAll) ([], []) (baUpserts b) = Inr (upserts, kinds)"
    and del: "deleted = expandedDeletes (agBlocks before) (baDeletes b) (fst ` set upserts \<union> roBlock ` set (baReorders b))"
    and u: "sortUpsertsByDepth (agBlocks after) (map fst upserts) = Inr (pmUpsertOrder m)"
    and d: "sortDeletesByDepth (agBlocks before) deleted = Inr (pmDeleteOrder m)"
  have ids: "fst ` set upserts = bbID ` set (baUpserts b)" using upserts_ids [OF ups] by simp
  then have "deleted = {k. doomed (agBlocks before) (baDeletes b) (operated b) k}"
    using del by (simp add: expandedDeletes_doomed operated_def)
  then show ?thesis
    using sortUpsertsByDepth_order [OF u] sortDeletesByDepth_order [OF d] ids finite_doomed by auto
qed

text \<open>A batch of one locale.\<close>

definition locale_only :: "string \<Rightarrow> Batch \<Rightarrow> bool" where
  "locale_only l b \<longleftrightarrow> baUpserts b = [] \<and> baDeletes b = [] \<and> baReorders b = [] \<and> list_all (\<lambda>g. lgLocale g = l) (baGroups b)"

definition same_outside :: "string \<Rightarrow> aggregate \<Rightarrow> aggregate \<Rightarrow> bool" where
  "same_outside l a a' \<longleftrightarrow> agDocument a' = agDocument a \<and> agBlocks a' = agBlocks a \<and>
     (\<forall>k l'. l' \<noteq> l \<longrightarrow> map_of (locales_of a' k) l' = map_of (locales_of a k) l')"

lemma same_outside_refl [simp]: "same_outside l a a"
  by (simp add: same_outside_def)

lemma same_outside_trans: "same_outside l a b \<Longrightarrow> same_outside l b c \<Longrightarrow> same_outside l a c"
  by (simp add: same_outside_def)

lemma same_outside_put: "same_outside l a (put_locale k l d a)" "same_outside l a (drop_locale k l a)"
  by (simp_all add: same_outside_def locales_put locales_drop update_conv' delete_conv')

lemmas same_outside_step = same_outside_trans [OF _ same_outside_put(1)] same_outside_trans [OF _ same_outside_put(2)]

lemma group_outside:
  assumes "apply_group co source inputs s g = Inr s'"
  shows "same_outside (lgLocale g) (fst s) (fst s')"
proof -
  let ?same = "\<lambda>t. same_outside (lgLocale g) (fst s) (fst t)"
  from assms obtain t where t: "fold_result (locale_delete source (lgLocale g)) s (lgDeletes g) = Inr t"
      "fold_result (locale_update co inputs (lgLocale g)) t (lgUpserts g) = Inr s'"
    by (auto simp: apply_group_def and_then_Inr)
  have "?same t"
    by (rule fold_result_invariant [where I = ?same, OF _ _ t(1)])
      (auto simp: locale_delete_def intro: same_outside_step split: if_splits)
  show ?thesis
    by (rule fold_result_invariant [where I = ?same, OF _ \<open>?same t\<close> t(2)])
      (auto simp: locale_update_def Let_def and_then_Inr guard_error_Inr intro: same_outside_step split: option.splits)
qed

lemma no_doomed: "\<not> doomed blocks [] retained k"
proof
  assume "doomed blocks [] retained k"
  then show False by (induction rule: doomed.induct) simp_all
qed

lemma apply_batch_locale_only:
  assumes "apply_batch co canon owners before b source allowMissing replaceAll = Inr (after, m)" and "locale_only l b"
  shows "same_outside l before after \<and> pmUpsertOrder m = [] \<and> pmDeleteOrder m = [] \<and> pmReorders m = [] \<and> pmKindChanged m = []"
  using assms(1)
proof (rule apply_batch_stages)
  fix inputs and upserts :: "(uuid \<times> FullBlock) list" and kinds deleted moved localized mutations lim
  assume ups: "fold_result (upsert_round co before source inputs allowMissing replaceAll) ([], []) (baUpserts b) = Inr (upserts, kinds)"
    and del: "deleted = expandedDeletes (agBlocks before) (baDeletes b) (fst ` set upserts \<union> roBlock ` set (baReorders b))"
    and mv: "fold_result apply_reorder (fold (put_upsert kinds) upserts (remove_blocks deleted before)) (baReorders b) = Inr moved"
    and gr: "fold_result (apply_group co source inputs) (moved, []) (baGroups b) = Inr (localized, mutations)"
    and pay: "fold_result (\<lambda>s k. validateAggregateBlockPayload co source k s) localized (map fst upserts) = Inr after"
    and m: "pmReorders m = baReorders b" "pmKindChanged m = kinds"
  have e: "upserts = []" "kinds = []" "baReorders b = []" using ups assms(2) by (auto simp: locale_only_def)
  have "deleted = {}" using del assms(2) by (auto simp: locale_only_def expandedDeletes_doomed no_doomed)
  then have "moved = before" "after = localized" using e mv pay by (simp_all add: remove_blocks_def)
  moreover have "same_outside l (fst s) (fst s')" if "g \<in> set (baGroups b)" "apply_group co source inputs s g = Inr s'" for s g s'
    using group_outside [OF that(2)] that(1) assms(2) by (auto simp: locale_only_def list_all_iff)
  then have "same_outside l moved (fst (localized, mutations))"
    by (intro fold_result_invariant [where I = "\<lambda>t. same_outside l moved (fst t)", OF _ _ gr])
      (blast intro: same_outside_trans, simp)
  ultimately show ?thesis
    using m e apply_batch_orders [OF assms(1)] assms(2) by (simp add: locale_only_def no_doomed)
qed

end
