(* ===== verification/Content_Tables.thy ===== *)
theory Content_Tables
  imports Content_Orders
begin

text \<open>
  The repository of the content block store (\<open>repository.go\<close>, \<open>models.go\<close>) on the rows of its tables: loading,
  the statements of \<open>persist\<close> and the checks that read the rows back. A statement on the tables succeeds or
  breaks a primary key; other failures of the database roll the transaction back and are left out, like the
  time stamps of block rows, which no code of the store reads. Deleting a block deletes its overlays and attachments.
\<close>

section \<open>Rows\<close>

record blockRow =
  brID :: uuid
  brDocument :: uuid
  brParent :: "uuid option"
  brSlot :: string
  brPosition :: int
  brKind :: string
  brShared :: raw

record blockLocaleRow =
  olBlock :: uuid
  olLocale :: string
  olData :: raw

record blockAttachmentRow =
  arBlock :: uuid
  arPath :: string
  arSelector :: string
  arFile :: "uuid option"
  arMissing :: "string option"
  arAccess :: string

record criteriaRow =
  crBlock :: uuid
  crPath :: string
  crMember :: uuid

record tables =
  tbDocuments :: "ContentDocument list"
  tbBlocks :: "blockRow list"
  tbLocales :: "blockLocaleRow list"
  tbAttachments :: "blockAttachmentRow list"
  tbCriteria :: "criteriaRow list"
  tbFiles :: "File list"

definition locale_key :: "blockLocaleRow \<Rightarrow> uuid \<times> string" where
  "locale_key r = (olBlock r, olLocale r)"

definition attachment_key :: "blockAttachmentRow \<Rightarrow> uuid \<times> string" where
  "attachment_key r = (arBlock r, arPath r)"

text \<open>The primary keys, and that overlays and attachments belong to blocks.\<close>

definition consistent :: "tables \<Rightarrow> bool" where
  "consistent t \<longleftrightarrow> distinct (map cdID (tbDocuments t)) \<and> distinct (map brID (tbBlocks t)) \<and>
     distinct (map locale_key (tbLocales t)) \<and> distinct (map attachment_key (tbAttachments t)) \<and>
     olBlock ` set (tbLocales t) \<subseteq> brID ` set (tbBlocks t) \<and> arBlock ` set (tbAttachments t) \<subseteq> brID ` set (tbBlocks t)"

section \<open>Chunks of statements\<close>

definition persistenceChunkRows :: nat where
  "persistenceChunkRows = 1000"

function chunks :: "'a list \<Rightarrow> 'a list list" where
  "chunks xs = (if xs = [] then [] else take persistenceChunkRows xs # chunks (drop persistenceChunkRows xs))"
  by pat_completeness auto
termination by (relation "measure length") (simp_all add: persistenceChunkRows_def)

declare chunks.simps [simp del]

lemma concat_chunks: "concat (chunks xs) = xs"
  by (induction xs rule: chunks.induct) (simp add: chunks.simps)

definition uniqueUUIDs :: "uuid list \<Rightarrow> uuid list" where
  "uniqueUUIDs ids = rev (remdups (rev ids))"

section \<open>Loading\<close>

definition createDocument :: "ContentDocument \<Rightarrow> tables \<Rightarrow> tables outcome" where
  "createDocument d t =
     (if cdID d \<in> cdID ` set (tbDocuments t) then Inl (Fault ''create content document'')
      else Inr (t\<lparr>tbDocuments := tbDocuments t @ [d]\<rparr>))"

definition loadContentDocument :: "tables \<Rightarrow> uuid \<Rightarrow> ContentDocument outcome" where
  "loadContentDocument t k =
     (case find (\<lambda>d. cdID d = k) (tbDocuments t) of None \<Rightarrow> Inl ErrDocumentNotFound | Some d \<Rightarrow> Inr d)"

record documentRows =
  drDocument :: ContentDocument
  drBlocks :: "blockRow list"
  drLocales :: "blockLocaleRow list"
  drFiles :: "blockAttachmentRow list"

definition missing_kinds :: "string list" where
  "missing_kinds = [''image'', ''audio'', ''video'', ''file'']"

definition fileReferenceFromAttachmentRow :: "blockAttachmentRow \<Rightarrow> BlockFileReference outcome" where
  "fileReferenceFromAttachmentRow r =
     (let reference = (\<lambda>file missing kind. \<lparr>refBlock = arBlock r, refPath = arPath r, refFile = file, refMissing = missing,
            refMediaKind = kind, refTypes = [], refPrefixes = []\<rparr>) in
      if arSelector r = ''active'' then
        (case (arFile r, arMissing r) of
           (Some f, None) \<Rightarrow> Inr (reference f False '''')
         | _ \<Rightarrow> Inl (ErrInvalidMutation ''malformed active Block attachment''))
      else if arSelector r = ''missing'' then
        (case (arFile r, arMissing r) of
           (None, Some k) \<Rightarrow>
             if k = '''' then Inl (ErrInvalidMutation ''malformed missing Block attachment'')
             else if k \<in> set missing_kinds then Inr (reference 0 True k)
             else Inl (ErrInvalidMutation ''malformed missing Block attachment media kind'')
         | _ \<Rightarrow> Inl (ErrInvalidMutation ''malformed missing Block attachment''))
      else Inl (ErrInvalidMutation ''unknown Block attachment selector''))"

definition block_of_row :: "blockRow \<Rightarrow> raw \<Rightarrow> FullBlock" where
  "block_of_row r shared = \<lparr>bbID = brID r, bbParent = brParent r, bbSlot = brSlot r, bbPosition = brPosition r,
     bbKind = brKind r, bbShared = shared, flLocalized = RawBlank '''', flFiles = []\<rparr>"

definition load_block :: "aggregate \<Rightarrow> blockRow \<Rightarrow> aggregate outcome" where
  "load_block a r =
     and_then (as_invalid ''stored Block shared data'' (canonicalObject (brShared r)))
       (\<lambda>shared. Inr (a\<lparr>agBlocks := AList.update (brID r) (block_of_row r shared) (agBlocks a)\<rparr>))"

definition load_locale :: "aggregate \<Rightarrow> blockLocaleRow \<Rightarrow> aggregate outcome" where
  "load_locale a r =
     and_then (as_invalid ''stored Block locale data'' (canonicalObject (olData r)))
       (\<lambda>d. Inr (put_locale (olBlock r) (olLocale r) d a))"

definition load_file :: "aggregate \<Rightarrow> blockAttachmentRow \<Rightarrow> aggregate outcome" where
  "load_file a r =
     and_then (fileReferenceFromAttachmentRow r)
       (\<lambda>f. let b = block_at (agBlocks a) (arBlock r) in
          Inr (a\<lparr>agBlocks := AList.update (arBlock r) (b\<lparr>flFiles := flFiles b @ [f]\<rparr>) (agBlocks a)\<rparr>))"

definition rows_aggregate :: "documentRows \<Rightarrow> aggregate outcome" where
  "rows_aggregate r =
     and_then (fold_result load_block (newAggregate (drDocument r)) (drBlocks r))
       (\<lambda>a. and_then (fold_result load_locale a (drLocales r))
         (\<lambda>a. fold_result load_file a (drFiles r)))"

definition loadAggregate :: "tables \<Rightarrow> uuid \<Rightarrow> aggregate outcome" where
  "loadAggregate t k =
     and_then (loadContentDocument t k)
       (\<lambda>d. let blocks = filter (\<lambda>r. brDocument r = k) (tbBlocks t); ids = map brID blocks in
          rows_aggregate (if blocks = [] then \<lparr>drDocument = d, drBlocks = [], drLocales = [], drFiles = []\<rparr>
            else \<lparr>drDocument = d, drBlocks = blocks,
              drLocales = filter (\<lambda>r. olBlock r \<in> set ids) (tbLocales t),
              drFiles = filter (\<lambda>r. arBlock r \<in> set ids) (tbAttachments t)\<rparr>))"

text \<open>
  \<open>loadDocumentRows\<close> distributes the rows of one statement per table over the documents; the pointers of
  \<open>documentOfBlock\<close> are the identifiers of the documents here.
\<close>

definition distribute ::
    "('r \<Rightarrow> uuid option) \<Rightarrow> ('r \<Rightarrow> documentRows \<Rightarrow> documentRows) \<Rightarrow> (uuid \<times> documentRows) list \<Rightarrow> 'r list \<Rightarrow>
      (uuid \<times> documentRows) list" where
  "distribute owner add = foldl (\<lambda>m r.
     case owner r of
       None \<Rightarrow> m
     | Some k \<Rightarrow> (case map_of m k of None \<Rightarrow> m | Some rows \<Rightarrow> AList.update k (add r rows) m))"

definition loadDocumentRows :: "tables \<Rightarrow> uuid list \<Rightarrow> (uuid \<times> documentRows) list" where
  "loadDocumentRows t ids =
     (let documents = filter (\<lambda>d. cdID d \<in> set ids) (tbDocuments t);
          result = foldl (\<lambda>m d. AList.update (cdID d)
            \<lparr>drDocument = d, drBlocks = [], drLocales = [], drFiles = []\<rparr> m) [] documents;
          blocks = filter (\<lambda>r. brDocument r \<in> set ids) (tbBlocks t);
          owned = filter (\<lambda>r. map_of result (brDocument r) \<noteq> None) blocks;
          documentOfBlock = foldl (\<lambda>m r. AList.update (brID r) (brDocument r) m) [] owned;
          inside = (\<lambda>k. k \<in> brID ` set blocks);
          result = distribute (\<lambda>r. Some (brDocument r)) (\<lambda>r rows. rows\<lparr>drBlocks := drBlocks rows @ [r]\<rparr>) result blocks;
          result = distribute (\<lambda>r. map_of documentOfBlock (olBlock r)) (\<lambda>r rows. rows\<lparr>drLocales := drLocales rows @ [r]\<rparr>)
            result (filter (\<lambda>r. inside (olBlock r)) (tbLocales t))
      in distribute (\<lambda>r. map_of documentOfBlock (arBlock r)) (\<lambda>r rows. rows\<lparr>drFiles := drFiles rows @ [r]\<rparr>)
           result (filter (\<lambda>r. inside (arBlock r)) (tbAttachments t)))"

definition blockDocuments :: "tables \<Rightarrow> block_owners" where
  "blockDocuments t ids =
     Inr (foldl (\<lambda>m chunk. foldl (\<lambda>m r. AList.update (brID r) (brDocument r) m) m
            (filter (\<lambda>r. brID r \<in> set chunk) (tbBlocks t))) [] (chunks (uniqueUUIDs ids)))"

definition lockFiles :: "tables \<Rightarrow> uuid list \<Rightarrow> (uuid \<times> File) list" where
  "lockFiles t ids =
     foldl (\<lambda>m chunk. foldl (\<lambda>m r. AList.update (fileID r) r m) m
       (filter (\<lambda>r. fileID r \<in> set chunk) (tbFiles t))) [] (chunks (sort (uniqueUUIDs ids)))"

end
