(* ===== verification/Content_Persist.thy ===== *)
theory Content_Persist
  imports Content_Tables
begin

text \<open>
  \<open>persist\<close> of \<open>repository.go\<close>: the statements that write one mutation, in chunks of 1000 rows, and the checks that
  compare the written rows with the aggregate.
\<close>

section \<open>Blocks\<close>

definition delete_rows :: "uuid \<Rightarrow> uuid list \<Rightarrow> tables \<Rightarrow> tables" where
  "delete_rows document ids t =
     (let gone = brID ` set (filter (\<lambda>r. brDocument r = document \<and> brID r \<in> set ids) (tbBlocks t)) in
      t\<lparr>tbBlocks := filter (\<lambda>r. brID r \<notin> gone) (tbBlocks t),
        tbLocales := filter (\<lambda>r. olBlock r \<notin> gone) (tbLocales t),
        tbAttachments := filter (\<lambda>r. arBlock r \<notin> gone) (tbAttachments t),
        tbCriteria := filter (\<lambda>r. crBlock r \<notin> gone) (tbCriteria t)\<rparr>)"

definition delete_chunk :: "uuid \<Rightarrow> tables \<Rightarrow> uuid list \<Rightarrow> tables outcome" where
  "delete_chunk document t chunk =
     (let affected = length (filter (\<lambda>r. brDocument r = document \<and> brID r \<in> set chunk) (tbBlocks t)) in
      guard_error (invalid_if (affected \<noteq> length chunk) ''deleted some of the Blocks'') (Inr (delete_rows document chunk t)))"

definition deleteBlocks :: "aggregate \<Rightarrow> uuid list \<Rightarrow> tables \<Rightarrow> tables outcome" where
  "deleteBlocks before order t =
     fold_result (delete_chunk (cdID (agDocument before))) t
       (chunks (filter (\<lambda>k. map_of (agBlocks before) k \<noteq> None) order))"

definition row_of_block :: "uuid \<Rightarrow> FullBlock \<Rightarrow> blockRow" where
  "row_of_block document b = \<lparr>brID = bbID b, brDocument = document, brParent = bbParent b, brSlot = bbSlot b,
     brPosition = bbPosition b, brKind = bbKind b, brShared = bbShared b\<rparr>"

definition create_chunk :: "tables \<Rightarrow> blockRow list \<Rightarrow> tables outcome" where
  "create_chunk t chunk =
     (if \<not> distinct (map brID chunk) \<or> brID ` set chunk \<inter> brID ` set (tbBlocks t) \<noteq> {}
      then Inl (Fault ''create content blocks'')
      else Inr (t\<lparr>tbBlocks := tbBlocks t @ chunk\<rparr>))"

text \<open>\<open>UPDATE \<dots> FROM (VALUES \<dots>)\<close>: the values of a row with the same identifier, if there is one.\<close>

definition update_rows :: "uuid \<Rightarrow> blockRow list \<Rightarrow> blockRow list \<Rightarrow> blockRow list" where
  "update_rows document chunk rows =
     map (\<lambda>r. if brDocument r = document then (case find (\<lambda>c. brID c = brID r) chunk of None \<Rightarrow> r | Some c \<Rightarrow> c) else r) rows"

definition update_chunk :: "uuid \<Rightarrow> tables \<Rightarrow> blockRow list \<Rightarrow> tables outcome" where
  "update_chunk document t chunk =
     (let affected = length (filter (\<lambda>r. brDocument r = document \<and> brID r \<in> brID ` set chunk) (tbBlocks t)) in
      guard_error (invalid_if (affected \<noteq> length chunk) ''updated some of the Blocks'')
        (Inr (t\<lparr>tbBlocks := update_rows document chunk (tbBlocks t)\<rparr>)))"

definition persistBaseBlocks :: "aggregate \<Rightarrow> aggregate \<Rightarrow> uuid list \<Rightarrow> tables \<Rightarrow> tables outcome" where
  "persistBaseBlocks before after order t =
     (let document = cdID (agDocument after);
          row = (\<lambda>k. row_of_block document (block_at (agBlocks after) k));
          created = map row (filter (\<lambda>k. map_of (agBlocks before) k = None) order);
          updated = map row (filter (\<lambda>k. map_of (agBlocks before) k \<noteq> None) order)
      in and_then (fold_result create_chunk t (chunks created))
           (\<lambda>t. fold_result (update_chunk document) t (chunks updated)))"

definition reorder_rows :: "uuid \<Rightarrow> Reorder list \<Rightarrow> blockRow list \<Rightarrow> blockRow list" where
  "reorder_rows document chunk rows =
     map (\<lambda>r. if brDocument r = document
          then (case find (\<lambda>c. roBlock c = brID r) chunk of
                  None \<Rightarrow> r
                | Some c \<Rightarrow> r\<lparr>brParent := roParent c, brSlot := roSlot c, brPosition := roPosition c\<rparr>)
          else r) rows"

definition reorder_chunk :: "uuid \<Rightarrow> tables \<Rightarrow> Reorder list \<Rightarrow> tables outcome" where
  "reorder_chunk document t chunk =
     (let affected = length (filter (\<lambda>r. brDocument r = document \<and> brID r \<in> roBlock ` set chunk) (tbBlocks t)) in
      guard_error (invalid_if (affected \<noteq> length chunk) ''reordered some of the Blocks'')
        (Inr (t\<lparr>tbBlocks := reorder_rows document chunk (tbBlocks t)\<rparr>)))"

definition persistReorders :: "uuid \<Rightarrow> Reorder list \<Rightarrow> tables \<Rightarrow> tables outcome" where
  "persistReorders document reorders t = fold_result (reorder_chunk document) t (chunks reorders)"

section \<open>Overlays\<close>

definition clearChangedKindLocales :: "persistedMutation \<Rightarrow> tables \<Rightarrow> tables" where
  "clearChangedKindLocales m t =
     foldl (\<lambda>t chunk. t\<lparr>tbLocales := filter (\<lambda>r. \<not> (olBlock r \<in> set chunk \<and> olLocale r \<noteq> pmSourceLocale m)) (tbLocales t)\<rparr>)
       t (chunks (sort (pmKindChanged m)))"

definition delete_locales :: "tables \<Rightarrow> localeMutation list \<Rightarrow> tables" where
  "delete_locales t chunk =
     t\<lparr>tbLocales := filter (\<lambda>r. locale_key r \<notin> (\<lambda>m. (lmBlock m, lmLocale m)) ` set chunk) (tbLocales t)\<rparr>"

text \<open>\<open>INSERT \<dots> ON CONFLICT (block_id, locale) DO UPDATE\<close>\<close>

definition put_locale_row :: "blockLocaleRow list \<Rightarrow> blockLocaleRow \<Rightarrow> blockLocaleRow list" where
  "put_locale_row rows r =
     (if locale_key r \<in> locale_key ` set rows
      then map (\<lambda>x. if locale_key x = locale_key r then x\<lparr>olData := olData r\<rparr> else x) rows
      else rows @ [r])"

text \<open>PostgreSQL refuses a statement that inserts one key twice and a row for a block that does not exist.\<close>

definition upsert_locales :: "tables \<Rightarrow> blockLocaleRow list \<Rightarrow> tables outcome" where
  "upsert_locales t chunk =
     (if \<not> distinct (map locale_key chunk) \<or> \<not> olBlock ` set chunk \<subseteq> brID ` set (tbBlocks t)
      then Inl (Fault ''upsert content Block locales'')
      else Inr (t\<lparr>tbLocales := foldl put_locale_row (tbLocales t) chunk\<rparr>))"

definition persistLocaleMutations :: "aggregate \<Rightarrow> localeMutation list \<Rightarrow> tables \<Rightarrow> tables outcome" where
  "persistLocaleMutations after mutations t =
     (let deletes = filter lmDelete mutations;
          upserts = map (\<lambda>m. \<lparr>olBlock = lmBlock m, olLocale = lmLocale m,
            olData = localizedData after (lmBlock m) (lmLocale m)\<rparr>) (filter (\<lambda>m. \<not> lmDelete m) mutations)
      in fold_result upsert_locales (foldl delete_locales t (chunks deletes)) (chunks upserts))"

section \<open>Attachments\<close>

definition attachment_row :: "uuid \<Rightarrow> BlockFileReference \<Rightarrow> blockAttachmentRow" where
  "attachment_row k r = \<lparr>arBlock = k, arPath = refPath r,
     arSelector = (if refMissing r then ''missing'' else ''active''),
     arFile = (if refMissing r then None else Some (refFile r)),
     arMissing = (if refMissing r then Some (refMediaKind r) else None), arAccess = ''disabled''\<rparr>"

type_synonym desired = "((uuid \<times> string) \<times> blockAttachmentRow) list"

definition desired_rows :: "aggregate \<Rightarrow> uuid list \<Rightarrow> desired" where
  "desired_rows after order =
     foldl (\<lambda>m (k, r). AList.update (k, refPath r) (attachment_row k r) m) []
       (concat (map (\<lambda>k. map (Pair k) (flFiles (block_at (agBlocks after) k))) order))"

definition sameBlockAttachmentSelector :: "blockAttachmentRow \<Rightarrow> blockAttachmentRow \<Rightarrow> bool" where
  "sameBlockAttachmentSelector l r \<longleftrightarrow> arSelector l = arSelector r \<and> arFile l = arFile r \<and> arMissing l = arMissing r"

definition replace_attachment :: "tables \<times> desired \<Rightarrow> blockAttachmentRow \<Rightarrow> (tables \<times> desired) outcome" where
  "replace_attachment s current =
     (let key = attachment_key current; t = fst s; desired = snd s;
          here = (\<lambda>r. attachment_key r = key)
      in case map_of desired key of
        None \<Rightarrow> Inr (t\<lparr>tbAttachments := filter (\<lambda>r. \<not> here r) (tbAttachments t),
            tbCriteria := filter (\<lambda>r. (crBlock r, crPath r) \<noteq> key) (tbCriteria t)\<rparr>, desired)
      | Some new \<Rightarrow>
          (let desired = AList.delete key desired in
           if sameBlockAttachmentSelector current new then Inr (t, desired)
           else guard_error (invalid_if (length (filter here (tbAttachments t)) \<noteq> 1) ''replaced some of the content Block attachments'')
             (Inr (t\<lparr>tbCriteria := filter (\<lambda>r. (crBlock r, crPath r) \<noteq> key) (tbCriteria t),
                tbAttachments := map (\<lambda>r. if here r then r\<lparr>arSelector := arSelector new, arFile := arFile new,
                  arMissing := arMissing new, arAccess := ''disabled''\<rparr> else r) (tbAttachments t)\<rparr>, desired))))"

definition attachment_chunk :: "tables \<times> desired \<Rightarrow> uuid list \<Rightarrow> (tables \<times> desired) outcome" where
  "attachment_chunk s chunk =
     fold_result replace_attachment s (filter (\<lambda>r. arBlock r \<in> set chunk) (tbAttachments (fst s)))"

definition attach_chunk :: "tables \<Rightarrow> blockAttachmentRow list \<Rightarrow> tables outcome" where
  "attach_chunk t chunk =
     (if \<not> distinct (map attachment_key chunk) \<or> attachment_key ` set chunk \<inter> attachment_key ` set (tbAttachments t) \<noteq> {} \<or>
         \<not> arBlock ` set chunk \<subseteq> brID ` set (tbBlocks t)
      then Inl (Fault ''attach content Block selectors'')
      else Inr (t\<lparr>tbAttachments := tbAttachments t @ chunk\<rparr>))"

definition replaceBlockAttachments :: "aggregate \<Rightarrow> uuid list \<Rightarrow> tables \<Rightarrow> tables outcome" where
  "replaceBlockAttachments after order t =
     and_then (fold_result attachment_chunk (t, desired_rows after order) (chunks order))
       (\<lambda>(t, desired).
          let rows = concat (map (\<lambda>k. sort_key arPath (map snd (filter (\<lambda>e. fst (fst e) = k) desired))) order)
          in fold_result attach_chunk t (chunks rows))"

section \<open>Reading the rows back\<close>

definition samePersistedBlockFields :: "FullBlock \<Rightarrow> FullBlock \<Rightarrow> string + bool" where
  "samePersistedBlockFields expected persisted =
     (if bbID expected \<noteq> bbID persisted \<or> bbParent expected \<noteq> bbParent persisted \<or> bbSlot expected \<noteq> bbSlot persisted \<or>
         bbPosition expected \<noteq> bbPosition persisted \<or> bbKind expected \<noteq> bbKind persisted then Inr False
      else sameCanonicalJSON (bbShared expected) (bbShared persisted))"

definition persisted_blocks :: "blockRow list \<Rightarrow> (uuid \<times> FullBlock) list outcome" where
  "persisted_blocks rows =
     fold_result (\<lambda>m r. and_then (as_invalid ''persisted Block shared data'' (canonicalObject (brShared r)))
       (\<lambda>shared. Inr (AList.update (brID r) (block_of_row r shared) m))) [] rows"

text \<open>An expected and a found entry: both absent, or both present and the same.\<close>

definition same_entry :: "('a \<Rightarrow> 'a \<Rightarrow> string + bool) \<Rightarrow> 'a option \<Rightarrow> 'a option \<Rightarrow> block_error option" where
  "same_entry same expected found =
     (case (expected, found) of
        (None, None) \<Rightarrow> None
      | (Some x, Some y) \<Rightarrow>
          (case same x y of
             Inl e \<Rightarrow> Some (Fault ''verify persisted Block'')
           | Inr s \<Rightarrow> if s then None else Some (ErrInvalidMutation ''persisted affected Block differs''))
      | _ \<Rightarrow> Some (ErrInvalidMutation ''persisted affected Block differs''))"

definition verify_blocks :: "aggregate \<Rightarrow> persistedMutation \<Rightarrow> tables \<Rightarrow> block_error option" where
  "verify_blocks after m t =
     (let ids = uniqueUUIDs (pmUpsertOrder m @ pmDeleteOrder m @ map roBlock (pmReorders m)) in
      case persisted_blocks (filter (\<lambda>r. brDocument r = cdID (agDocument after) \<and> brID r \<in> set ids) (tbBlocks t)) of
        Inl e \<Rightarrow> Some e
      | Inr persisted \<Rightarrow>
          check_all (\<lambda>k. same_entry samePersistedBlockFields (map_of (agBlocks after) k) (map_of persisted k)) ids)"

definition persisted_locales :: "blockLocaleRow list \<Rightarrow> (uuid \<times> (string \<times> raw) list) list outcome" where
  "persisted_locales rows =
     fold_result (\<lambda>m r. and_then (as_invalid ''persisted Block locale data'' (canonicalObject (olData r)))
       (\<lambda>d. Inr (AList.update (olBlock r)
          (AList.update (olLocale r) d (case map_of m (olBlock r) of None \<Rightarrow> [] | Some ls \<Rightarrow> ls)) m))) [] rows"

definition same_locale_set :: "(string \<times> raw) list \<Rightarrow> (string \<times> raw) list \<Rightarrow> block_error option" where
  "same_locale_set expected found = first_error
     [invalid_if (length expected \<noteq> length found) ''persisted affected Block locale set differs'',
      check_all (\<lambda>(l, d). same_entry sameCanonicalJSON (Some d) (map_of found l)) expected]"

definition verifyPersistedMutationLocales :: "aggregate \<Rightarrow> persistedMutation \<Rightarrow> tables \<Rightarrow> block_error option" where
  "verifyPersistedMutationLocales after m t =
     (let kinds = pmKindChanged m;
          requested = remdups (map (\<lambda>x. (lmBlock x, lmLocale x)) (pmLocaleMutations m));
          loose = filter (\<lambda>(k, l). k \<notin> set kinds) requested
      in if kinds = [] \<and> loose = [] then None
         else (case persisted_locales (filter (\<lambda>r. olBlock r \<in> set kinds \<or> locale_key r \<in> set loose) (tbLocales t)) of
           Inl e \<Rightarrow> Some e
         | Inr persisted \<Rightarrow>
             (let at = (\<lambda>k. case map_of persisted k of None \<Rightarrow> [] | Some ls \<Rightarrow> ls) in
              first_error
                [check_all (\<lambda>k. same_locale_set (locales_of after k) (at k)) kinds,
                 check_all (\<lambda>(k, l). same_entry sameCanonicalJSON (map_of (locales_of after k) l) (map_of (at k) l)) loose])))"

definition persisted_references :: "blockAttachmentRow list \<Rightarrow> (uuid \<times> BlockFileReference list) list outcome" where
  "persisted_references rows =
     fold_result (\<lambda>m r. and_then (fileReferenceFromAttachmentRow r)
       (\<lambda>f. Inr (AList.update (arBlock r) ((case map_of m (arBlock r) of None \<Rightarrow> [] | Some fs \<Rightarrow> fs) @ [f]) m))) [] rows"

definition verifyPersistedMutationAttachments :: "aggregate \<Rightarrow> aggregate \<Rightarrow> uuid list \<Rightarrow> tables \<Rightarrow> block_error option" where
  "verifyPersistedMutationAttachments before after upserts t =
     (let ids = filter (\<lambda>k. flFiles (block_at (agBlocks before) k) \<noteq> [] \<or> flFiles (block_at (agBlocks after) k) \<noteq> []) upserts in
      if ids = [] then None
      else (case persisted_references (filter (\<lambda>r. arBlock r \<in> set ids) (tbAttachments t)) of
          Inl e \<Rightarrow> Some e
        | Inr persisted \<Rightarrow>
            check_all (\<lambda>k. invalid_if (\<not> sameFileReferences (flFiles (block_at (agBlocks after) k))
              (case map_of persisted k of None \<Rightarrow> [] | Some fs \<Rightarrow> fs)) ''persisted affected Block attachments differ'') ids))"

definition verifyPersistedMutation :: "aggregate \<Rightarrow> aggregate \<Rightarrow> persistedMutation \<Rightarrow> tables \<Rightarrow> block_error option" where
  "verifyPersistedMutation before after m t = first_error
     [verify_blocks after m t, verifyPersistedMutationLocales after m t,
      verifyPersistedMutationAttachments before after (pmUpsertOrder m) t]"

section \<open>Persisting\<close>

definition updateDocument :: "ContentDocument \<Rightarrow> ContentDocument \<Rightarrow> tables \<Rightarrow> tables outcome" where
  "updateDocument before after t =
     (let here = (\<lambda>d. cdID d = cdID after \<and> cdRevision d = cdRevision before) in
      if length (filter here (tbDocuments t)) \<noteq> 1
      then (case find (\<lambda>d. cdID d = cdID after) (tbDocuments t) of
          None \<Rightarrow> Inl (Fault ''load current content document revision'')
        | Some d \<Rightarrow> Inl (ErrStaleRevision (cdRevision d)))
      else Inr (t\<lparr>tbDocuments := map (\<lambda>d. if here d
        then d\<lparr>cdRevision := cdRevision after, cdUpdatedAt := cdUpdatedAt after\<rparr> else d) (tbDocuments t)\<rparr>))"

definition persist :: "aggregate \<Rightarrow> aggregate \<Rightarrow> persistedMutation \<Rightarrow> tables \<Rightarrow> tables outcome" where
  "persist before after m t =
     and_then (deleteBlocks before (pmDeleteOrder m) t) (\<lambda>t.
     and_then (persistBaseBlocks before after (pmUpsertOrder m) t) (\<lambda>t.
     and_then (replaceBlockAttachments after (pmUpsertOrder m) (clearChangedKindLocales m t)) (\<lambda>t.
     and_then (persistLocaleMutations after (pmLocaleMutations m) t) (\<lambda>t.
     and_then (persistReorders (cdID (agDocument after)) (pmReorders m) t) (\<lambda>t.
     guard_error (verifyPersistedMutation before after m t)
       (updateDocument (agDocument before) (agDocument after) t))))))"

definition persistTargetLocale :: "aggregate \<Rightarrow> persistedMutation \<Rightarrow> tables \<Rightarrow> tables outcome" where
  "persistTargetLocale after m t =
     guard_error (invalid_if (pmUpsertOrder m \<noteq> [] \<or> pmDeleteOrder m \<noteq> [] \<or> pmReorders m \<noteq> [] \<or> pmKindChanged m \<noteq> [])
       ''target locale persistence received a shared mutation'')
     (and_then (persistLocaleMutations after (pmLocaleMutations m) t) (\<lambda>t.
      guard_error (verifyPersistedMutationLocales after m t) (Inr t)))"

text \<open>The number of deleted rows is returned with the tables.\<close>

definition deleteDocumentLocale :: "uuid \<Rightarrow> string \<Rightarrow> tables \<Rightarrow> tables \<times> nat" where
  "deleteDocumentLocale document l t =
     (let ids = brID ` set (filter (\<lambda>r. brDocument r = document) (tbBlocks t));
          gone = (\<lambda>r. olLocale r = l \<and> olBlock r \<in> ids)
      in (t\<lparr>tbLocales := filter (\<lambda>r. \<not> gone r) (tbLocales t)\<rparr>, length (filter gone (tbLocales t))))"

definition deleteDocument :: "uuid \<Rightarrow> tables \<Rightarrow> tables outcome" where
  "deleteDocument document t =
     (if length (filter (\<lambda>d. cdID d = document) (tbDocuments t)) \<noteq> 1 then Inl ErrDocumentNotFound
      else (let blocks = map brID (filter (\<lambda>r. brDocument r = document) (tbBlocks t)) in
        Inr ((delete_rows document blocks t)\<lparr>tbDocuments := filter (\<lambda>d. cdID d \<noteq> document) (tbDocuments t)\<rparr>)))"

end
