(* ===== verification/Content_Store.thy ===== *)
theory Content_Store
  imports Content_Persist
begin

text \<open>
  The operations of \<open>Store\<close> (\<open>store.go\<close>) on the tables, and \<open>target_locale.go\<close>. Parameters of the store
  (\<open>store_env\<close>): the contract, \<open>CanonicalizeStorageLocale\<close>, the hash of the catalog and the authorizer of File
  reuse. Arguments of an operation: the answer of the domain fence, the answer of the metadata callback (both
  belong to the owning domain), new UUIDs and the time. Every operation returns the tables it leaves; an error
  leaves the tables of the caller's transaction, which rolls back.
\<close>

section \<open>The store\<close>

record store_env =
  seContract :: Contract
  seCanon :: "raw \<Rightarrow> string + raw"
  seHash :: "string \<Rightarrow> ContentStorageRow list \<Rightarrow> string + string"
  seReuse :: "ContentDocument \<Rightarrow> FullBlock \<Rightarrow> BlockFileReference \<Rightarrow> File \<Rightarrow> string option"

type_synonym fence = "uuid \<Rightarrow> string outcome"

section \<open>Digest and snapshots\<close>

definition fault_as :: "string \<Rightarrow> string + 'a \<Rightarrow> 'a outcome" where
  "fault_as m r = (case r of Inl e \<Rightarrow> Inl (Fault m) | Inr x \<Rightarrow> Inr x)"

definition digest_locales :: "(string \<times> raw) list \<Rightarrow> ContentStorageLocale list outcome" where
  "digest_locales ls = fold_result (\<lambda>acc (l, d). and_then (fault_as ''canonicalize Block locale'' (canonicalObject d))
     (\<lambda>c. Inr (acc @ [\<lparr>slLocale = l, slData = c\<rparr>]))) [] (sort_key fst ls)"

definition digest_row :: "aggregate \<Rightarrow> FullBlock \<Rightarrow> ContentStorageRow outcome" where
  "digest_row a b =
     and_then (fault_as ''canonicalize Block shared data'' (canonicalObject (bbShared b)))
       (\<lambda>shared. and_then (digest_locales (locales_of a (bbID b)))
         (\<lambda>ls. Inr \<lparr>srBlock = bbID b, srParent = bbParent b, srSlot = bbSlot b, srPosition = word_of_int (bbPosition b),
            srKind = bbKind b, srShared = shared, srLocales = ls\<rparr>))"

definition digest_rows :: "aggregate \<Rightarrow> ContentStorageRow list outcome" where
  "digest_rows a = fold_result (\<lambda>acc b. and_then (digest_row a b) (\<lambda>r. Inr (acc @ [r]))) []
     (sort_key bbID (map snd (agBlocks a)))"

definition snapshotDigest :: "store_env \<Rightarrow> aggregate \<Rightarrow> string outcome" where
  "snapshotDigest se a =
     and_then (digest_rows a) (\<lambda>rows. fault_as ''hash'' (seHash se (cdProfile (agDocument a)) rows))"

definition store_snapshot :: "store_env \<Rightarrow> aggregate \<Rightarrow> string \<Rightarrow> Snapshot outcome" where
  "store_snapshot se a source = and_then (snapshotDigest se a) (\<lambda>d. Inr ((aggregate_snapshot a source)\<lparr>snDigest := d\<rparr>))"

definition validatedSnapshot :: "store_env \<Rightarrow> aggregate \<Rightarrow> string \<Rightarrow> Snapshot outcome" where
  "validatedSnapshot se a source = and_then (validateAggregate (seContract se) source a) (\<lambda>a. store_snapshot se a source)"

definition LoadSnapshotInTransaction :: "store_env \<Rightarrow> tables \<Rightarrow> uuid \<Rightarrow> string \<Rightarrow> Snapshot outcome" where
  "LoadSnapshotInTransaction se t document source =
     guard_error (first_error [invalid_if (document = 0) ''document transaction and UUID are required'', validateBlockLocale source])
       (and_then (loadAggregate t document) (\<lambda>a. validatedSnapshot se a source))"

text \<open>The deferred snapshot of a document in a batch of requests.\<close>

definition LoadSnapshotBatch :: "store_env \<Rightarrow> tables \<Rightarrow> (uuid \<times> string) list \<Rightarrow> (uuid \<times> Snapshot outcome) list" where
  "LoadSnapshotBatch se t requests =
     (if requests = [] then []
      else (let documents = loadDocumentRows t (map fst requests) in
        foldl (\<lambda>m (k, source). AList.update k
          (case map_of documents k of
             None \<Rightarrow> Inl ErrDocumentNotFound
           | Some rows \<Rightarrow> guard_error (validateBlockLocale source)
               (and_then (rows_aggregate rows) (\<lambda>a. validatedSnapshot se a source))) m) [] requests))"

definition CreateDocument :: "store_env \<Rightarrow> uuid \<Rightarrow> uuid \<Rightarrow> int \<Rightarrow> uuid \<Rightarrow> string \<Rightarrow> string \<Rightarrow> tables \<Rightarrow> (tables \<times> Snapshot) outcome" where
  "CreateDocument se newID newRevision now document profile source t =
     (let profile = trim_space profile;
          d = \<lparr>cdID = (if document = 0 then newID else document), cdProfile = profile, cdRevision = newRevision,
            cdCreatedAt = now, cdUpdatedAt = now\<rparr>
      in guard_error (first_error
           [invalid_if (profile = '''') ''document profile is required'',
            invalid_if (case coLimits (seContract se) profile of Inl e \<Rightarrow> True | Inr l \<Rightarrow> False) ''validate document profile'',
            validateBlockLocale source])
         (and_then (createDocument d t) (\<lambda>t. and_then (store_snapshot se (newAggregate d) source) (\<lambda>s. Inr (t, s)))))"

section \<open>File changes\<close>

definition referenceMap :: "BlockFileReference list \<Rightarrow> (string \<times> BlockFileReference) list" where
  "referenceMap rs = foldl (\<lambda>m r. AList.update (refPath r) r m) [] rs"

definition active_files :: "BlockFileReference list \<Rightarrow> uuid list" where
  "active_files rs = map refFile (filter (\<lambda>r. \<not> refMissing r) rs)"

definition check_reference ::
    "store_env \<Rightarrow> bool \<Rightarrow> (uuid \<times> File) list \<Rightarrow> ContentDocument \<Rightarrow> (string \<times> BlockFileReference) list \<Rightarrow> FullBlock \<Rightarrow>
      BlockFileReference \<Rightarrow> block_error option" where
  "check_reference se allowMissing files document previous b r =
     (let bad = (\<lambda>m. Some (ErrFileReference m)) in
      if refMissing r then (if allowMissing then None else bad ''missing attachment is restore-only'')
      else if (case map_of previous (refPath r) of None \<Rightarrow> False | Some p \<Rightarrow> \<not> refMissing p \<and> refFile p = refFile r) then None
      else (case map_of files (refFile r) of
          None \<Rightarrow> bad ''File does not exist''
        | Some f \<Rightarrow>
            if fileDeleteRequested f then bad ''File is pending deletion''
            else if \<not> validateMIME r (fileMIMEType f) then bad ''File MIME is not allowed''
            else if seReuse se document b r f \<noteq> None then bad ''authorize File reuse''
            else None))"

text \<open>The changed blocks are the keys of a map; their order is open in Go.\<close>

definition validateFileChanges :: "store_env \<Rightarrow> tables \<Rightarrow> aggregate \<Rightarrow> aggregate \<Rightarrow> persistedMutation \<Rightarrow> block_error option" where
  "validateFileChanges se t before after m =
     (let changed = remdups (pmUpsertOrder m @ pmDeleteOrder m);
          files = lockFiles t (concat (map (\<lambda>k. active_files (flFiles (block_at (agBlocks before) k)) @
            active_files (flFiles (block_at (agBlocks after) k))) changed))
      in check_all (\<lambda>k. case map_of (agBlocks after) k of
             None \<Rightarrow> None
           | Some b \<Rightarrow> check_all (check_reference se (pmAllowMissingFiles m) files (agDocument after)
               (referenceMap (flFiles (block_at (agBlocks before) k))) b) (flFiles b)) changed)"

section \<open>What a mutation changed\<close>

definition mergeChangedLocales :: "string list \<Rightarrow> string list \<Rightarrow> string list" where
  "mergeChangedLocales l r = sort (remdups (l @ r))"

definition validateMetadataEffect :: "MetadataEffect \<Rightarrow> string \<Rightarrow> block_error option" where
  "validateMetadataEffect e source =
     (if meAffectsSource e \<and> \<not> meChanged e then Some (ErrInvalidMutation ''unchanged metadata cannot affect translation source'')
      else if meSourceLocale e = '''' then None
      else first_error
        [validateBlockLocale (meSourceLocale e),
         invalid_if (meSourceLocale e \<noteq> source \<and> \<not> meAffectsSource e) ''source locale change must affect translation source''])"

definition validateMetadataChangedLocales :: "string list \<Rightarrow> block_error option" where
  "validateMetadataChangedLocales ls = check_all validateBlockLocale ls"

definition mutationCanAffectTranslationSource :: "persistedMutation \<Rightarrow> string \<Rightarrow> bool" where
  "mutationCanAffectTranslationSource m source \<longleftrightarrow> pmUpsertOrder m \<noteq> [] \<or> pmDeleteOrder m \<noteq> [] \<or> pmReorders m \<noteq> [] \<or>
     list_ex (\<lambda>x. lmLocale x = source) (pmLocaleMutations m)"

definition deriveTranslationSourceChanged ::
    "Contract \<Rightarrow> aggregate \<Rightarrow> aggregate \<Rightarrow> persistedMutation \<Rightarrow> string \<Rightarrow> bool outcome" where
  "deriveTranslationSourceChanged co before after m source =
     (if mutationCanAffectTranslationSource m source
      then as_invalid ''derive translation source change'' (coTranslationSourceChanged co (cdProfile (agDocument before))
        (localizedBlocks before source) (localizedBlocks after source))
      else Inr False)"

definition locale_differs :: "aggregate \<Rightarrow> aggregate \<Rightarrow> string \<Rightarrow> uuid \<Rightarrow> bool outcome" where
  "locale_differs before after l k =
     (case (map_of (locales_of before k) l, map_of (locales_of after k) l) of
        (None, None) \<Rightarrow> Inr False
      | (Some x, Some y) \<Rightarrow> and_then (fault_as ''compare Block locale'' (sameCanonicalJSON x y)) (\<lambda>s. Inr (\<not> s))
      | _ \<Rightarrow> Inr True)"

fun any_differs :: "aggregate \<Rightarrow> aggregate \<Rightarrow> string \<Rightarrow> uuid list \<Rightarrow> bool outcome" where
  "any_differs before after l [] = Inr False"
| "any_differs before after l (k # ks) =
     and_then (locale_differs before after l k) (\<lambda>d. if d then Inr True else any_differs before after l ks)"

definition changedMutationLocales :: "aggregate \<Rightarrow> aggregate \<Rightarrow> persistedMutation \<Rightarrow> string list outcome" where
  "changedMutationLocales before after m =
     (let affected = remdups (pmUpsertOrder m @ pmDeleteOrder m @ map lmBlock (pmLocaleMutations m));
          names = sort (remdups (concat (map (\<lambda>k. map fst (locales_of before k) @ map fst (locales_of after k)) affected)))
      in fold_result (\<lambda>acc l. and_then (any_differs before after l affected) (\<lambda>d. Inr (if d then acc @ [l] else acc))) [] names)"

section \<open>Applying a batch\<close>

definition noMetadata :: MetadataEffect where
  "noMetadata = \<lparr>meChanged = False, meAffectsSource = False, meSourceLocale = '''', meChangedLocales = []\<rparr>"

definition unchangedResult :: "uuid \<Rightarrow> BatchResult" where
  "unchangedResult revision = \<lparr>brRevision = revision, brChanged = False, brContentChanged = False, brMetadataChanged = False,
     brSourceChanged = False, brChangedLocales = []\<rparr>"

text \<open>\<open>replaceAll\<close>: every block that the batch does not name is deleted.\<close>

definition replace_deletes :: "bool \<Rightarrow> aggregate \<Rightarrow> Batch \<Rightarrow> Batch" where
  "replace_deletes replaceAll before b =
     (if replaceAll then b\<lparr>baDeletes := baDeletes b @ filter (\<lambda>k. k \<notin> bbID ` set (baUpserts b)) (map fst (agBlocks before))\<rparr> else b)"

text \<open>Whether the content changed, whether its source view changed, and which locales did.\<close>

definition content_effect ::
    "store_env \<Rightarrow> tables \<Rightarrow> aggregate \<Rightarrow> aggregate \<Rightarrow> persistedMutation \<Rightarrow> string \<Rightarrow> (bool \<times> bool \<times> string list) outcome" where
  "content_effect se t before after m source =
     and_then (snapshotDigest se before) (\<lambda>old.
     and_then (snapshotDigest se after) (\<lambda>new.
     if old = new then Inr (False, False, [])
     else and_then (deriveTranslationSourceChanged (seContract se) before after m source) (\<lambda>sourceChanged.
       and_then (changedMutationLocales before after m) (\<lambda>ls.
       guard_error (validateFileChanges se t before after m) (Inr (True, sourceChanged, ls))))))"

definition metadata_effect :: "MetadataEffect outcome option \<Rightarrow> string \<Rightarrow> MetadataEffect outcome" where
  "metadata_effect metadata source =
     (case metadata of
        None \<Rightarrow> Inr noMetadata
      | Some r \<Rightarrow> and_then r (\<lambda>e.
          guard_error (first_error [validateMetadataEffect e source, validateMetadataChangedLocales (meChangedLocales e)]) (Inr e)))"

definition applyBatchAfterFenceWithMetadata ::
    "store_env \<Rightarrow> uuid \<Rightarrow> int \<Rightarrow> tables \<Rightarrow> Batch \<Rightarrow> string \<Rightarrow> bool \<Rightarrow> bool \<Rightarrow> MetadataEffect outcome option \<Rightarrow>
      (tables \<times> BatchResult) outcome" where
  "applyBatchAfterFenceWithMetadata se fresh now t batch source allowMissing replaceAll metadata =
     (let co = seContract se in
      and_then (loadAggregate t (baDocument batch)) (\<lambda>stored.
      and_then (validateAggregate co source stored) (\<lambda>before.
      if cdRevision (agDocument before) \<noteq> baExpectedRevision batch then Inl (ErrStaleRevision (cdRevision (agDocument before)))
      else and_then (apply_batch co (seCanon se) (blockDocuments t) before (replace_deletes replaceAll before batch)
          source allowMissing replaceAll) (\<lambda>(after, m).
      and_then (content_effect se t before after m source) (\<lambda>(contentChanged, sourceChanged, ls).
      and_then (metadata_effect metadata source) (\<lambda>effect.
      let effective = (if meSourceLocale effect \<noteq> '''' then meSourceLocale effect else source);
          ls = (if metadata = None then ls else mergeChangedLocales ls (meChangedLocales effect));
          sourceChanged = (sourceChanged \<or> meAffectsSource effect)
      in and_then (if effective \<noteq> source then validateAggregate co effective after else Inr after) (\<lambda>after.
      if \<not> contentChanged \<and> \<not> meChanged effect then Inr (t, unchangedResult (cdRevision (agDocument before)))
      else (let after = after\<lparr>agDocument := (agDocument after)\<lparr>cdRevision := fresh, cdUpdatedAt := now\<rparr>\<rparr> in
        and_then (persist before after m t) (\<lambda>t'.
        Inr (t', \<lparr>brRevision = fresh, brChanged = True, brContentChanged = contentChanged,
          brMetadataChanged = meChanged effect, brSourceChanged = sourceChanged, brChangedLocales = ls\<rparr>))))))))))"

definition through_fence :: "fence \<Rightarrow> uuid \<Rightarrow> (string \<Rightarrow> 'a outcome) \<Rightarrow> 'a outcome" where
  "through_fence fence document f =
     and_then (fence document) (\<lambda>source. guard_error (validateBlockLocale source) (f source))"

text \<open>\<open>applyBatch\<close> and \<open>applyBatchAfterFence\<close>\<close>

definition applyBatch ::
    "store_env \<Rightarrow> uuid \<Rightarrow> int \<Rightarrow> tables \<Rightarrow> Batch \<Rightarrow> fence \<Rightarrow> bool \<Rightarrow> bool \<Rightarrow> (tables \<times> BatchResult) outcome" where
  "applyBatch se fresh now t batch fence allowMissing replaceAll =
     guard_error (validateBatchEnvelope batch replaceAll)
       (through_fence fence (baDocument batch) (\<lambda>source.
          applyBatchAfterFenceWithMetadata se fresh now t batch source allowMissing replaceAll None))"

definition ApplyBatchWithMetadata ::
    "store_env \<Rightarrow> uuid \<Rightarrow> int \<Rightarrow> tables \<Rightarrow> Batch \<Rightarrow> fence \<Rightarrow> MetadataEffect outcome \<Rightarrow> (tables \<times> BatchResult) outcome" where
  "ApplyBatchWithMetadata se fresh now t batch fence metadata =
     guard_error (validateBatchEnvelope batch True)
       (through_fence fence (baDocument batch) (\<lambda>source.
          applyBatchAfterFenceWithMetadata se fresh now t batch source False False (Some metadata)))"

definition ReplaceSnapshot ::
    "store_env \<Rightarrow> uuid \<Rightarrow> int \<Rightarrow> tables \<Rightarrow> uuid \<Rightarrow> uuid \<Rightarrow> BaseBlock list \<Rightarrow> LocaleOverlay list \<Rightarrow> fence \<Rightarrow>
      (tables \<times> BatchResult) outcome" where
  "ReplaceSnapshot se fresh now t document revision blocks overlays fence =
     applyBatch se fresh now t \<lparr>baDocument = document, baExpectedRevision = revision, baUpserts = blocks, baDeletes = [],
       baReorders = [], baGroups = map (\<lambda>v. \<lparr>lgLocale = loLocale v, lgUpserts = loBlocks v, lgDeletes = []\<rparr>) overlays,
       baContributors = [], baProfile = '''', baReferences = []\<rparr> fence True True"

section \<open>Switching the source locale\<close>

definition localeOverlayByBlock :: "LocaleOverlay list \<Rightarrow> string \<Rightarrow> (uuid \<times> LocaleBlockUpdate) list" where
  "localeOverlayByBlock overlays l =
     (case find (\<lambda>v. loLocale v = l) overlays of
        None \<Rightarrow> []
      | Some v \<Rightarrow> foldl (\<lambda>m u. AList.update (luBlock u) u m) [] (loBlocks v))"

definition empty_updates :: "Contract \<Rightarrow> Snapshot \<Rightarrow> string \<Rightarrow> string \<Rightarrow> LocaleBlockUpdate list outcome" where
  "empty_updates co s source requested =
     (let sourceByBlock = localeOverlayByBlock (snOverlays s) source;
          requestedByBlock = localeOverlayByBlock (snOverlays s) requested
      in if requested = source then Inr []
         else fold_result (\<lambda>acc b.
           if map_of requestedByBlock (bbID b) \<noteq> None then Inr acc
           else (case map_of sourceByBlock (bbID b) of
               None \<Rightarrow> Inl (ErrInvalidMutation ''Block has no source locale overlay'')
             | Some u \<Rightarrow> and_then (as_invalid ''build explicit-empty locale''
                   (coBuildExplicitEmptyLocale co (cdProfile (snDocument s)) (bbKind b) (luData u)))
                 (\<lambda>e. Inr (acc @ [\<lparr>luBlock = bbID b, luExpectedKind = bbKind b, luData = e\<rparr>])))) [] (snBlocks s))"

definition accepts_switch :: "string \<Rightarrow> string \<Rightarrow> MetadataEffect outcome \<Rightarrow> MetadataEffect outcome" where
  "accepts_switch source requested metadata =
     and_then metadata (\<lambda>e. guard_error
       (invalid_if (requested \<noteq> source \<and> (\<not> meChanged e \<or> \<not> meAffectsSource e \<or> meSourceLocale e \<noteq> requested))
          ''source locale metadata did not accept the requested locale'') (Inr e))"

definition SwitchSourceLocale ::
    "store_env \<Rightarrow> uuid \<Rightarrow> int \<Rightarrow> tables \<Rightarrow> uuid \<Rightarrow> uuid \<Rightarrow> string \<Rightarrow> uuid list \<Rightarrow> fence \<Rightarrow> MetadataEffect outcome \<Rightarrow>
      (tables \<times> BatchResult) outcome" where
  "SwitchSourceLocale se fresh now t document revision requested contributors fence metadata =
     guard_error (first_error
       [invalid_if (document = 0 \<or> revision = 0) ''invalid source locale switch'',
        validateBlockLocale requested, validateContributorMemberIDs contributors])
     (through_fence fence document (\<lambda>source.
      and_then (LoadSnapshotInTransaction se t document source) (\<lambda>snapshot.
      and_then (empty_updates (seContract se) snapshot source requested) (\<lambda>updates.
      ApplyBatchWithMetadata se fresh now t \<lparr>baDocument = document, baExpectedRevision = revision, baUpserts = [], baDeletes = [],
        baReorders = [], baGroups = (if updates = [] then [] else [\<lparr>lgLocale = requested, lgUpserts = updates, lgDeletes = []\<rparr>]),
        baContributors = contributors, baProfile = '''', baReferences = []\<rparr> fence (accepts_switch source requested metadata)))))"

section \<open>Target locales\<close>

definition target_metadata :: "string \<Rightarrow> MetadataEffect outcome \<Rightarrow> MetadataEffect outcome" where
  "target_metadata target metadata =
     and_then metadata (\<lambda>e. guard_error (first_error
       [invalid_if (meAffectsSource e \<or> meSourceLocale e \<noteq> '''') ''target locale metadata cannot affect source authority'',
        invalid_if (list_ex (\<lambda>l. l \<noteq> target) (meChangedLocales e)) ''target metadata reported another locale'']) (Inr e))"

definition ApplyTargetLocaleBatchWithMetadata ::
    "store_env \<Rightarrow> tables \<Rightarrow> Batch \<Rightarrow> string \<Rightarrow> fence \<Rightarrow> (bool \<Rightarrow> MetadataEffect outcome) \<Rightarrow> (tables \<times> BatchResult) outcome" where
  "ApplyTargetLocaleBatchWithMetadata se t batch target fence metadata =
     (let co = seContract se in
      guard_error (first_error
        [validateBatchEnvelope batch True, validateBlockLocale target,
         invalid_if (baUpserts batch \<noteq> [] \<or> baDeletes batch \<noteq> [] \<or> baReorders batch \<noteq> [])
           ''target locale cannot mutate the shared Block graph'',
         invalid_if (list_ex (\<lambda>g. lgLocale g \<noteq> target) (baGroups batch)) ''target locale batch contains another locale''])
      (through_fence fence (baDocument batch) (\<lambda>source.
       guard_error (invalid_if (target = source) ''target locale must differ from source locale'')
      (and_then (loadAggregate t (baDocument batch)) (\<lambda>stored.
       and_then (validateAggregate co source stored) (\<lambda>before.
       if cdRevision (agDocument before) \<noteq> baExpectedRevision batch then Inl (ErrStaleRevision (cdRevision (agDocument before)))
       else and_then (apply_batch co (seCanon se) (blockDocuments t) before batch source False False) (\<lambda>(after, m).
       and_then (snapshotDigest se before) (\<lambda>old.
       and_then (snapshotDigest se after) (\<lambda>new.
       let contentChanged = (old \<noteq> new) in
       guard_error (if contentChanged then
           (case deriveTranslationSourceChanged co before after m source of
              Inl e \<Rightarrow> Some e
            | Inr changed \<Rightarrow> first_error
                [invalid_if changed ''target locale changed the source-owned Block view'', validateFileChanges se t before after m])
         else None)
      (and_then (target_metadata target (metadata contentChanged)) (\<lambda>effect.
       if \<not> contentChanged \<and> \<not> meChanged effect then Inr (t, unchangedResult (cdRevision (agDocument before)))
       else and_then (if contentChanged then persistTargetLocale after m t else Inr t) (\<lambda>t'.
       Inr (t', \<lparr>brRevision = cdRevision (agDocument before), brChanged = True, brContentChanged = contentChanged,
         brMetadataChanged = meChanged effect, brSourceChanged = False, brChangedLocales = [target]\<rparr>)))))))))))))"

text \<open>\<open>ValidateTargetLocaleBatch\<close>; its rejections are the client errors of the collaboration rooms.\<close>

datatype target_rejection =
    TargetIdentity | NonSourceStructureForbidden | RoomLocaleMismatch

definition ValidateTargetLocaleBatch :: "Batch \<Rightarrow> uuid \<Rightarrow> uuid \<Rightarrow> string \<Rightarrow> bool \<Rightarrow> target_rejection option" where
  "ValidateTargetLocaleBatch b document revision l allowDeletes =
     (if baDocument b \<noteq> document \<or> baExpectedRevision b \<noteq> revision then Some TargetIdentity
      else if baUpserts b \<noteq> [] \<or> baDeletes b \<noteq> [] \<or> baReorders b \<noteq> [] then Some NonSourceStructureForbidden
      else if length (baGroups b) > 1 then Some RoomLocaleMismatch
      else check_all (\<lambda>g. if lgLocale g \<noteq> l then Some RoomLocaleMismatch
        else if lgDeletes g \<noteq> [] \<and> \<not> allowDeletes then Some NonSourceStructureForbidden else None) (baGroups b))"

definition seed_overlay :: "Snapshot \<Rightarrow> string \<Rightarrow> (uuid \<times> LocaleBlockUpdate) list outcome" where
  "seed_overlay s source =
     (case find (\<lambda>v. loLocale v = source) (snOverlays s) of
        None \<Rightarrow> Inr []
      | Some v \<Rightarrow> fold_result (\<lambda>m u.
          let kind = (case map_of (rev (map (\<lambda>b. (bbID b, bbKind b)) (snBlocks s))) (luBlock u) of None \<Rightarrow> '''' | Some k \<Rightarrow> k) in
          if kind = '''' then Inl (Fault ''source locale contains an unknown Block'')
          else Inr (AList.update (luBlock u) \<lparr>luBlock = luBlock u, luExpectedKind = kind, luData = luData u\<rparr> m)) [] (loBlocks v))"

definition seed_group :: "(uuid \<times> LocaleBlockUpdate) list \<Rightarrow> LocaleMutationGroup \<Rightarrow> (uuid \<times> LocaleBlockUpdate) list" where
  "seed_group m g = foldl (\<lambda>m k. AList.delete k m) (foldl (\<lambda>m u. AList.update (luBlock u) u m) m (lgUpserts g)) (lgDeletes g)"

definition SeedTargetLocaleBatch :: "Batch \<Rightarrow> Snapshot \<Rightarrow> string \<Rightarrow> string \<Rightarrow> Batch outcome" where
  "SeedTargetLocaleBatch b s source target =
     and_then (seed_overlay s source) (\<lambda>m.
       let seeded = foldl seed_group m (baGroups b); updates = map snd (sort_key fst seeded)
       in Inr (b\<lparr>baGroups := (if updates = [] then [] else [\<lparr>lgLocale = target, lgUpserts = updates, lgDeletes = []\<rparr>])\<rparr>))"

section \<open>Locales, revisions and documents\<close>

definition bump :: "uuid \<Rightarrow> int \<Rightarrow> ContentDocument \<Rightarrow> ContentDocument" where
  "bump fresh now d = d\<lparr>cdRevision := fresh, cdUpdatedAt := now\<rparr>"

definition DeleteLocale ::
    "uuid \<Rightarrow> int \<Rightarrow> tables \<Rightarrow> uuid \<Rightarrow> uuid \<Rightarrow> string \<Rightarrow> uuid list \<Rightarrow> fence \<Rightarrow> bool outcome \<Rightarrow> (tables \<times> BatchResult) outcome" where
  "DeleteLocale fresh now t document revision l contributors fence deleteMetadata =
     guard_error (first_error
       [invalid_if (document = 0 \<or> revision = 0) ''document and expected revision must be UUIDs'',
        validateBlockLocale l, validateContributorMemberIDs contributors])
     (through_fence fence document (\<lambda>source.
      and_then (loadContentDocument t document) (\<lambda>d.
      if cdRevision d \<noteq> revision then Inl (ErrStaleRevision (cdRevision d))
      else guard_error (invalid_if (l = source) ''source locale cannot be deleted'')
       (and_then deleteMetadata (\<lambda>metadataChanged.
        case deleteDocumentLocale document l t of (t, rows) \<Rightarrow>
        if rows = 0 \<and> \<not> metadataChanged then Inr (t, unchangedResult (cdRevision d))
        else and_then (updateDocument d (bump fresh now d) t) (\<lambda>t.
        Inr (t, \<lparr>brRevision = fresh, brChanged = True, brContentChanged = rows > 0, brMetadataChanged = metadataChanged,
          brSourceChanged = False, brChangedLocales = [l]\<rparr>)))))))"

record AdvanceResult =
  advRevision :: uuid
  advChanged :: bool
  advSourceChanged :: bool

definition AdvanceRevision ::
    "uuid \<Rightarrow> int \<Rightarrow> tables \<Rightarrow> uuid \<Rightarrow> uuid \<Rightarrow> fence \<Rightarrow> MetadataEffect outcome \<Rightarrow> (tables \<times> AdvanceResult) outcome" where
  "AdvanceRevision fresh now t document revision fence mutation =
     guard_error (invalid_if (document = 0 \<or> revision = 0) ''invalid revision advance'')
     (through_fence fence document (\<lambda>source.
      and_then (loadContentDocument t document) (\<lambda>d.
      if cdRevision d \<noteq> revision then Inl (ErrStaleRevision (cdRevision d))
      else and_then mutation (\<lambda>e.
        guard_error (validateMetadataEffect e source)
        (if \<not> meChanged e then Inr (t, \<lparr>advRevision = cdRevision d, advChanged = False, advSourceChanged = False\<rparr>)
         else and_then (updateDocument d (bump fresh now d) t) (\<lambda>t.
           Inr (t, \<lparr>advRevision = fresh, advChanged = True, advSourceChanged = meAffectsSource e\<rparr>)))))))"

definition DeleteDocument :: "tables \<Rightarrow> uuid \<Rightarrow> fence \<Rightarrow> tables outcome" where
  "DeleteDocument t document fence =
     guard_error (invalid_if (document = 0) ''invalid document delete'')
       (and_then (fence document) (\<lambda>_. and_then (loadContentDocument t document) (\<lambda>_. deleteDocument document t)))"

end
