(* ===== verification/Content_Loading.thy ===== *)
theory Content_Loading
  imports Content_Store
begin

text \<open>
  Loading on consistent tables: when it succeeds, and what the aggregate holds in terms of single rows.
\<close>

section \<open>Rows\<close>

definition canonical_raw :: "raw \<Rightarrow> raw" where
  "canonical_raw d = (case canonicalObject d of Inl _ \<Rightarrow> d | Inr c \<Rightarrow> c)"

definition decodes :: "raw \<Rightarrow> bool" where
  "decodes d \<longleftrightarrow> (\<exists>c. canonicalObject d = Inr c)"

definition reference_of :: "blockAttachmentRow \<Rightarrow> BlockFileReference" where
  "reference_of r = (case fileReferenceFromAttachmentRow r of Inl _ \<Rightarrow> \<lparr>refBlock = 0, refPath = [], refFile = 0,
     refMissing = False, refMediaKind = [], refTypes = [], refPrefixes = []\<rparr> | Inr f \<Rightarrow> f)"

definition well_formed :: "blockAttachmentRow \<Rightarrow> bool" where
  "well_formed r \<longleftrightarrow> (\<exists>f. fileReferenceFromAttachmentRow r = Inr f)"

definition row_at :: "tables \<Rightarrow> uuid \<Rightarrow> uuid \<Rightarrow> blockRow option" where
  "row_at t document k = find (\<lambda>r. brID r = k \<and> brDocument r = document) (tbBlocks t)"

definition locale_at :: "tables \<Rightarrow> uuid \<Rightarrow> string \<Rightarrow> blockLocaleRow option" where
  "locale_at t k l = find (\<lambda>r. locale_key r = (k, l)) (tbLocales t)"

definition attachments_at :: "tables \<Rightarrow> uuid \<Rightarrow> blockAttachmentRow list" where
  "attachments_at t k = filter (\<lambda>r. arBlock r = k) (tbAttachments t)"

definition stored_block :: "tables \<Rightarrow> blockRow \<Rightarrow> FullBlock" where
  "stored_block t r = (block_of_row r (canonical_raw (brShared r)))\<lparr>flFiles := map reference_of (attachments_at t (brID r))\<rparr>"

lemma decodes_canonical: "decodes d \<Longrightarrow> canonicalObject d = Inr (canonical_raw d)"
  by (auto simp: decodes_def canonical_raw_def)

lemma canonicalObject_Inr: "canonicalObject d = Inr c \<longleftrightarrow> decodes d \<and> c = canonical_raw d"
  by (auto simp: decodes_def canonical_raw_def)

lemma reference_Inr: "fileReferenceFromAttachmentRow r = Inr f \<longleftrightarrow> well_formed r \<and> f = reference_of r"
  by (auto simp: well_formed_def reference_of_def)

lemma canonical_raw_idem: "decodes d \<Longrightarrow> canonical_raw (canonical_raw d) = canonical_raw d"
  using canonicalObject_idem [of d "canonical_raw d"] decodes_canonical [of d] by (auto simp: canonicalObject_Inr)

section \<open>The loops of loading\<close>

lemma update_new: "k \<notin> fst ` set xs \<Longrightarrow> AList.update k v xs = xs @ [(k, v)]"
  by (induction xs) auto

lemma load_blocks:
  assumes "distinct (map brID rows)" and "brID ` set rows \<inter> fst ` set (agBlocks a) = {}"
  shows "fold_result load_block a rows = Inr a' \<longleftrightarrow> (\<forall>r \<in> set rows. decodes (brShared r)) \<and>
    a' = a\<lparr>agBlocks := agBlocks a @ map (\<lambda>r. (brID r, block_of_row r (canonical_raw (brShared r)))) rows\<rparr>"
  using assms
proof (induction rows arbitrary: a)
  case (Cons r rows)
  let ?a = "a\<lparr>agBlocks := agBlocks a @ [(brID r, block_of_row r (canonical_raw (brShared r)))]\<rparr>"
  have "fold_result load_block a (r # rows) = Inr a' \<longleftrightarrow> decodes (brShared r) \<and> fold_result load_block ?a rows = Inr a'"
    using Cons.prems by (auto simp: and_then_Inr load_block_def canonicalObject_Inr update_new)
  also have "fold_result load_block ?a rows = Inr a' \<longleftrightarrow> (\<forall>r \<in> set rows. decodes (brShared r)) \<and>
      a' = ?a\<lparr>agBlocks := agBlocks ?a @ map (\<lambda>r. (brID r, block_of_row r (canonical_raw (brShared r)))) rows\<rparr>"
    by (rule Cons.IH) (use Cons.prems in auto)
  finally show ?case by auto
qed auto

lemma load_locales:
  assumes "distinct (map locale_key rows)"
  shows "fold_result load_locale a rows = Inr a' \<Longrightarrow> (\<forall>r \<in> set rows. decodes (olData r)) \<and>
      agBlocks a' = agBlocks a \<and> agDocument a' = agDocument a \<and>
      (\<forall>k l. map_of (locales_of a' k) l = (case find (\<lambda>r. locale_key r = (k, l)) rows of
        None \<Rightarrow> map_of (locales_of a k) l | Some r \<Rightarrow> Some (canonical_raw (olData r)))) \<and>
      ((\<forall>k. distinct (map fst (locales_of a k))) \<longrightarrow> (\<forall>k. distinct (map fst (locales_of a' k))))"
  using assms
proof (induction rows arbitrary: a)
  case (Cons r rows)
  from Cons.prems(1) have d: "decodes (olData r)"
      and rest: "fold_result load_locale (put_locale (olBlock r) (olLocale r) (canonical_raw (olData r)) a) rows = Inr a'"
    by (auto simp: and_then_Inr load_locale_def [of a r] canonicalObject_Inr)
  have no: "find (\<lambda>x. locale_key x = locale_key r) rows = None"
    unfolding find_None_iff using Cons.prems(2) by simp (metis image_eqI)
  show ?case
    using Cons.IH [OF rest] Cons.prems(2) d no
    by (auto simp: locales_put update_conv' locale_key_def distinct_update split: option.splits)
qed auto

lemma load_locales_returns: "\<forall>r \<in> set rows. decodes (olData r) \<Longrightarrow> \<exists>a'. fold_result load_locale a rows = Inr a'"
  by (induction rows arbitrary: a) (auto simp: load_locale_def [of _ "_ :: blockLocaleRow"] decodes_canonical as_invalid_def)

lemma load_files:
  assumes "arBlock ` set rows \<subseteq> fst ` set (agBlocks a)"
  shows "fold_result load_file a rows = Inr a' \<Longrightarrow> (\<forall>r \<in> set rows. well_formed r) \<and>
      agLocales a' = agLocales a \<and> agDocument a' = agDocument a \<and> map fst (agBlocks a') = map fst (agBlocks a) \<and>
      (\<forall>k. map_of (agBlocks a') k = map_option (\<lambda>b. b\<lparr>flFiles := flFiles b @ map reference_of (filter (\<lambda>r. arBlock r = k) rows)\<rparr>)
        (map_of (agBlocks a) k))"
  using assms
proof (induction rows arbitrary: a)
  case Nil
  then show ?case by (auto simp: option.map_ident)
next
  case (Cons r rows)
  obtain b where b: "map_of (agBlocks a) (arBlock r) = Some b"
    using Cons.prems(2) by (auto simp: dom_map_of_conv_image_fst [symmetric])
  let ?a = "a\<lparr>agBlocks := AList.update (arBlock r) (b\<lparr>flFiles := flFiles b @ [reference_of r]\<rparr>) (agBlocks a)\<rparr>"
  from Cons.prems(1) b have w: "well_formed r" and rest: "fold_result load_file ?a rows = Inr a'"
    by (auto simp: and_then_Inr load_file_def [of a r] reference_Inr block_at_def Let_def)
  have keys: "map fst (agBlocks ?a) = map fst (agBlocks a)" using keys_update [of "agBlocks a" "arBlock r"] b by simp
  then have "fst ` set (agBlocks ?a) = fst ` set (agBlocks a)" by (metis set_map)
  then have "arBlock ` set rows \<subseteq> fst ` set (agBlocks ?a)" using Cons.prems(2) by simp
  note ih = Cons.IH [OF rest this]
  show ?case
    using ih w keys b by (auto simp: update_conv' option.map_comp o_def)
qed

lemma load_files_returns: "\<forall>r \<in> set rows. well_formed r \<Longrightarrow> \<exists>a'. fold_result load_file a rows = Inr a'"
  by (induction rows arbitrary: a) (auto simp: load_file_def well_formed_def Let_def)

section \<open>A document\<close>

definition document_rows :: "tables \<Rightarrow> uuid \<Rightarrow> blockRow list" where
  "document_rows t k = filter (\<lambda>r. brDocument r = k) (tbBlocks t)"

definition decodable :: "tables \<Rightarrow> uuid \<Rightarrow> bool" where
  "decodable t k \<longleftrightarrow> (\<forall>r \<in> set (document_rows t k). decodes (brShared r)) \<and>
     (\<forall>r \<in> set (tbLocales t). olBlock r \<in> brID ` set (document_rows t k) \<longrightarrow> decodes (olData r)) \<and>
     (\<forall>r \<in> set (tbAttachments t). arBlock r \<in> brID ` set (document_rows t k) \<longrightarrow> well_formed r)"

definition held_rows :: "tables \<Rightarrow> uuid \<Rightarrow> ContentDocument \<Rightarrow> documentRows" where
  "held_rows t k d = \<lparr>drDocument = d, drBlocks = document_rows t k,
     drLocales = filter (\<lambda>r. olBlock r \<in> brID ` set (document_rows t k)) (tbLocales t),
     drFiles = filter (\<lambda>r. arBlock r \<in> brID ` set (document_rows t k)) (tbAttachments t)\<rparr>"

lemma loadAggregate_rows:
  "loadAggregate t k = and_then (loadContentDocument t k) (\<lambda>d. rows_aggregate (held_rows t k d))"
  by (cases "document_rows t k = []")
    (auto simp: loadAggregate_def held_rows_def Let_def document_rows_def image_image intro!: arg_cong2 [where f = and_then])

lemma held_locales_find:
  assumes "k \<in> brID ` set (document_rows t document)"
  shows "find (\<lambda>r. locale_key r = (k, l)) (drLocales (held_rows t document d)) = locale_at t k l"
proof -
  have "find P (filter Q rows) = find P rows" if "\<And>r. P r \<Longrightarrow> Q r" for P Q and rows :: "blockLocaleRow list"
    by (induction rows) (use that in auto)
  from this [of "\<lambda>r. locale_key r = (k, l)"] assms show ?thesis
    by (simp add: held_rows_def locale_at_def locale_key_def)
qed

text \<open>What an aggregate that was loaded from the tables holds.\<close>

definition stored_as :: "tables \<Rightarrow> uuid \<Rightarrow> aggregate \<Rightarrow> bool" where
  "stored_as t k a \<longleftrightarrow> loadContentDocument t k = Inr (agDocument a) \<and> map fst (agBlocks a) = map brID (document_rows t k) \<and>
     (\<forall>j. map_of (agBlocks a) j = map_option (stored_block t) (row_at t k j)) \<and>
     (\<forall>j l. row_at t k j \<noteq> None \<longrightarrow> map_of (locales_of a j) l = map_option (\<lambda>r. canonical_raw (olData r)) (locale_at t j l)) \<and>
     (\<forall>j. row_at t k j = None \<longrightarrow> locales_of a j = []) \<and> (\<forall>j. distinct (map fst (locales_of a j)))"

lemma consistent_filters:
  assumes "consistent t"
  shows "distinct (map brID (document_rows t k))" "distinct (map locale_key (drLocales (held_rows t k d)))"
  using assms by (auto simp: consistent_def document_rows_def held_rows_def distinct_map_filter)

lemma row_at_map_of:
  assumes "consistent t"
  shows "map_of (map (\<lambda>r. (brID r, f r)) (document_rows t k)) j = map_option f (row_at t k j)"
proof -
  have "map_of (map (\<lambda>r. (brID r, f r)) (filter (\<lambda>r. brDocument r = k) rows)) j =
      map_option f (find (\<lambda>r. brID r = j \<and> brDocument r = k) rows)" for rows
    by (induction rows) auto
  then show ?thesis by (simp add: document_rows_def row_at_def)
qed

lemma row_at_Some: "row_at t k j = Some r \<Longrightarrow> r \<in> set (document_rows t k) \<and> brID r = j"
  by (auto simp: row_at_def document_rows_def find_Some_iff)

lemma row_at_None: "row_at t k j = None \<longleftrightarrow> j \<notin> brID ` set (document_rows t k)"
  by (auto simp: row_at_def document_rows_def find_None_iff)

lemma load_stored:
  assumes c: "consistent t" and l: "loadAggregate t k = Inr a"
  shows "decodable t k \<and> stored_as t k a"
proof -
  let ?h = "\<lambda>d. held_rows t k d"
  from l obtain d a1 a2 where d: "loadContentDocument t k = Inr d"
      and s1: "fold_result load_block (newAggregate d) (document_rows t k) = Inr a1"
      and s2: "fold_result load_locale a1 (drLocales (?h d)) = Inr a2"
      and s3: "fold_result load_file a2 (drFiles (?h d)) = Inr a"
    by (auto simp: loadAggregate_rows and_then_Inr rows_aggregate_def held_rows_def)
  have b1: "\<forall>r \<in> set (document_rows t k). decodes (brShared r)"
      and a1: "a1 = (newAggregate d)\<lparr>agBlocks := map (\<lambda>r. (brID r, block_of_row r (canonical_raw (brShared r)))) (document_rows t k)\<rparr>"
    using s1 load_blocks [of "document_rows t k" "newAggregate d" a1] consistent_filters(1) [OF c]
    by (simp_all add: newAggregate_def)
  have none: "locales_of a1 j = []" for j by (simp add: a1 newAggregate_def locales_of_def)
  note b2 = load_locales [OF consistent_filters(2) [OF c] s2, unfolded none]
  have keys: "map fst (agBlocks a2) = map brID (document_rows t k)" using b2 a1 by simp
  have "arBlock ` set (drFiles (?h d)) \<subseteq> fst ` set (agBlocks a2)" using keys by (auto simp: held_rows_def) (metis image_eqI set_map)
  note b3 = load_files [OF this s3]
  have dec: "decodable t k" using b1 b2 b3 by (auto simp: decodable_def held_rows_def)
  have blocks: "map_of (agBlocks a) j = map_option (stored_block t) (row_at t k j)" for j
  proof -
    have m: "map_of (agBlocks a2) j = map_option (\<lambda>r. block_of_row r (canonical_raw (brShared r))) (row_at t k j)"
      using b2 a1 row_at_map_of [OF c] by simp
    have f: "filter (\<lambda>r. arBlock r = j) (drFiles (?h d)) = attachments_at t j" if "row_at t k j \<noteq> None"
      using that by (auto simp: held_rows_def attachments_at_def row_at_None intro: filter_cong)
    show ?thesis
      using b3 m f by (cases "row_at t k j") (auto simp: stored_block_def block_of_row_def dest: row_at_Some)
  qed
  moreover have locs: "map_of (locales_of a j) l = map_option (\<lambda>r. canonical_raw (olData r)) (locale_at t j l)"
    if "row_at t k j \<noteq> None" for j l
  proof -
    have "find (\<lambda>r. locale_key r = (j, l)) (drLocales (?h d)) = locale_at t j l"
      by (rule held_locales_find) (use that in \<open>simp add: row_at_None\<close>)
    moreover have "locales_of a = locales_of a2" using b3 by (simp add: locales_of_def fun_eq_iff)
    ultimately show ?thesis using b2 by (simp split: option.splits)
  qed
  moreover have "locales_of a j = []" if "row_at t k j = None" for j
  proof -
    have "find (\<lambda>r. locale_key r = (j, l)) (drLocales (?h d)) = None" for l
      using that by (auto simp: find_None_iff held_rows_def locale_key_def row_at_None)
    then have "map_of (locales_of a2 j) = Map.empty" using b2 by (simp add: fun_eq_iff)
    then show ?thesis using b3 by (simp add: locales_of_def)
  qed
  moreover have "distinct (map fst (locales_of a j))" for j
    using b2 b3 by (simp add: locales_of_def)
  ultimately show ?thesis using dec blocks locs keys b2 b3 a1 d by (simp add: stored_as_def newAggregate_def)
qed

lemma decodable_loads:
  assumes c: "consistent t" and "loadContentDocument t k = Inr d" and dec: "decodable t k"
  shows "\<exists>a. loadAggregate t k = Inr a"
proof -
  obtain a1 where a1: "fold_result load_block (newAggregate d) (document_rows t k) = Inr a1"
    using load_blocks [of "document_rows t k" "newAggregate d"] consistent_filters(1) [OF c] dec
    by (auto simp: newAggregate_def decodable_def)
  obtain a2 where a2: "fold_result load_locale a1 (drLocales (held_rows t k d)) = Inr a2"
    using load_locales_returns [of "drLocales (held_rows t k d)" a1] dec by (auto simp: decodable_def held_rows_def)
  obtain a3 where "fold_result load_file a2 (drFiles (held_rows t k d)) = Inr a3"
    using load_files_returns [of "drFiles (held_rows t k d)" a2] dec by (auto simp: decodable_def held_rows_def)
  with a1 a2 assms(2) show ?thesis by (auto simp: loadAggregate_rows rows_aggregate_def held_rows_def)
qed

section \<open>Loading many documents\<close>

lemma map_of_foldl_update:
  "distinct (map key xs) \<Longrightarrow> map_of (foldl (\<lambda>m x. AList.update (key x) (val x) m) m xs) k =
     (case find (\<lambda>x. key x = k) xs of None \<Rightarrow> map_of m k | Some x \<Rightarrow> Some (val x))"
proof (induction xs arbitrary: m)
  case (Cons x xs)
  have "find (\<lambda>y. key y = key x) xs = None"
    unfolding find_None_iff using Cons.prems by simp (metis image_eqI)
  then show ?case using Cons by (auto simp: update_conv' split: option.splits)
qed simp

lemma find_filter: "(\<And>x. P x \<Longrightarrow> Q x) \<Longrightarrow> find P (filter Q xs) = find P xs"
  by (induction xs) auto

lemma map_of_distribute:
  "map_of (distribute owner add m rows) k =
     map_option (\<lambda>x. foldl (\<lambda>x r. add r x) x (filter (\<lambda>r. owner r = Some k) rows)) (map_of m k)"
proof (induction rows arbitrary: m)
  case Nil
  then show ?case by (simp add: distribute_def option.map_ident)
next
  case (Cons r rows)
  let ?m = "case owner r of None \<Rightarrow> m | Some k \<Rightarrow> (case map_of m k of None \<Rightarrow> m | Some x \<Rightarrow> AList.update k (add r x) m)"
  have "distribute owner add m (r # rows) = distribute owner add ?m rows" by (simp add: distribute_def)
  then show ?case using Cons.IH [of ?m]
    by (auto simp: update_conv' option.map_comp o_def split: option.splits)
qed

lemma foldl_append_rows:
  "foldl (\<lambda>x r. x\<lparr>drBlocks := drBlocks x @ [r]\<rparr>) d bs = d\<lparr>drBlocks := drBlocks d @ bs\<rparr>"
  "foldl (\<lambda>x r. x\<lparr>drLocales := drLocales x @ [r]\<rparr>) d ls = d\<lparr>drLocales := drLocales d @ ls\<rparr>"
  "foldl (\<lambda>x r. x\<lparr>drFiles := drFiles x @ [r]\<rparr>) d fs = d\<lparr>drFiles := drFiles d @ fs\<rparr>"
  subgoal by (induction bs arbitrary: d) simp_all
  subgoal by (induction ls arbitrary: d) simp_all
  subgoal by (induction fs arbitrary: d) simp_all
  done

lemma loadDocumentRows_held:
  assumes c: "consistent t" and k: "k \<in> set ids"
  shows "map_of (loadDocumentRows t ids) k =
    (case loadContentDocument t k of Inl e \<Rightarrow> None | Inr d \<Rightarrow> Some (held_rows t k d))"
proof -
  let ?docs = "filter (\<lambda>d. cdID d \<in> set ids) (tbDocuments t)"
  let ?blocks = "filter (\<lambda>r. brDocument r \<in> set ids) (tbBlocks t)"
  define result where "result = foldl (\<lambda>m d. AList.update (cdID d) \<lparr>drDocument = d, drBlocks = [], drLocales = [], drFiles = []\<rparr> m) [] ?docs"
  define owned where "owned = filter (\<lambda>r. map_of result (brDocument r) \<noteq> None) ?blocks"
  define of_block where "of_block = foldl (\<lambda>m r. AList.update (brID r) (brDocument r) m) [] owned"
  have dd: "distinct (map cdID ?docs)" "distinct (map brID owned)"
    using c by (auto simp: consistent_def owned_def distinct_map_filter)
  have res: "map_of result j = (case find (\<lambda>d. cdID d = j) ?docs of None \<Rightarrow> None
      | Some d \<Rightarrow> Some \<lparr>drDocument = d, drBlocks = [], drLocales = [], drFiles = []\<rparr>)" for j
    unfolding result_def
    using map_of_foldl_update [OF dd(1), of "\<lambda>d. \<lparr>drDocument = d, drBlocks = [], drLocales = [], drFiles = []\<rparr>" "[]" j]
    by (simp split: option.splits)
  have fk: "find (\<lambda>d. cdID d = k) ?docs = find (\<lambda>d. cdID d = k) (tbDocuments t)" by (rule find_filter) (use k in simp)
  show ?thesis
  proof (cases "find (\<lambda>d. cdID d = k) (tbDocuments t)")
    case None
    then show ?thesis using res [of k] fk
      by (simp add: loadDocumentRows_def Let_def map_of_distribute loadContentDocument_def result_def)
  next
    case (Some d)
    have resk: "map_of result k = Some \<lparr>drDocument = d, drBlocks = [], drLocales = [], drFiles = []\<rparr>"
      using res [of k] fk Some by simp
    have ob: "map_of of_block j = Some k \<longleftrightarrow> j \<in> brID ` set (document_rows t k)" for j
    proof -
      have "map_of of_block j = map_option brDocument (find (\<lambda>r. brID r = j) owned)"
        unfolding of_block_def using map_of_foldl_update [OF dd(2), of brDocument "[]" j] by (simp split: option.splits)
      moreover have "(\<exists>r. find (\<lambda>r. brID r = j) owned = Some r \<and> brDocument r = k) \<longleftrightarrow> j \<in> brID ` set (document_rows t k)"
      proof
        assume "\<exists>r. find (\<lambda>r. brID r = j) owned = Some r \<and> brDocument r = k"
        then show "j \<in> brID ` set (document_rows t k)" by (auto simp: owned_def document_rows_def dest!: find_SomeD)
      next
        assume "j \<in> brID ` set (document_rows t k)"
        then obtain r where r: "r \<in> set (tbBlocks t)" "brDocument r = k" "brID r = j" by (auto simp: document_rows_def)
        then have "r \<in> set owned" using resk k by (simp add: owned_def)
        then have "find (\<lambda>r. brID r = j) owned = Some r" using dd(2) r(3) find_distinct_key by metis
        with r show "\<exists>r. find (\<lambda>r. brID r = j) owned = Some r \<and> brDocument r = k" by blast
      qed
      ultimately show ?thesis by (auto simp: map_option_eq_Some)
    qed
    have bl: "filter (\<lambda>r. Some (brDocument r) = Some k) ?blocks = document_rows t k"
      using k by (auto simp: document_rows_def intro: filter_cong)
    have sub: "brID ` set (document_rows t k) \<subseteq> brID ` set ?blocks" using k by (auto simp: document_rows_def)
    have fl: "filter (\<lambda>r. map_of of_block (g r) = Some k) (filter (\<lambda>r. g r \<in> brID ` set ?blocks) rows) =
        filter (\<lambda>r. g r \<in> brID ` set (document_rows t k)) rows" for g :: "'r \<Rightarrow> uuid" and rows
      unfolding filter_filter ob by (rule filter_cong [OF refl]) (use sub in blast)
    show ?thesis
      using resk bl fl [of olBlock "tbLocales t"] fl [of arBlock "tbAttachments t"] Some
      unfolding loadDocumentRows_def Let_def result_def [symmetric] owned_def [symmetric] of_block_def [symmetric]
      by (simp add: map_of_distribute foldl_append_rows loadContentDocument_def held_rows_def)
  qed
qed

lemma batch_load_single:
  assumes "consistent t" and "distinct (map fst requests)" and r: "(k, source) \<in> set requests"
    and "k \<noteq> 0" and "validateBlockLocale source = None"
  shows "map_of (LoadSnapshotBatch se t requests) k = Some (LoadSnapshotInTransaction se t k source)"
proof -
  let ?docs = "loadDocumentRows t (map fst requests)"
  let ?answer = "\<lambda>(k, source). case map_of ?docs k of
      None \<Rightarrow> Inl ErrDocumentNotFound
    | Some rows \<Rightarrow> guard_error (validateBlockLocale source) (and_then (rows_aggregate rows) (\<lambda>a. validatedSnapshot se a source))"
  have f: "find (\<lambda>x. fst x = k) requests = Some (k, source)"
    using find_distinct_key [OF assms(2) r] by simp
  have "(\<lambda>m (k, source). AList.update k (?answer (k, source)) m) = (\<lambda>m x. AList.update (fst x) (?answer x) m)"
    by (simp add: fun_eq_iff split_beta)
  then have "map_of (LoadSnapshotBatch se t requests) k = Some (?answer (k, source))"
    using map_of_foldl_update [OF assms(2), of ?answer "[]" k] f r by (auto simp: LoadSnapshotBatch_def)
  moreover have "k \<in> set (map fst requests)" using r by force
  ultimately show ?thesis
    using assms(4,5) loadDocumentRows_held [OF assms(1), of k "map fst requests"]
    by (auto simp: LoadSnapshotInTransaction_def loadAggregate_rows loadContentDocument_def split: option.splits)
qed

end
