(* ===== verification/Content_State.thy ===== *)
theory Content_State
  imports Content_Loading
begin

text \<open>
  Two aggregates with the same stored state, and what \<open>apply\<close> leaves alone: blocks and overlays that the mutation
  does not name.
\<close>

section \<open>The same state\<close>

definition same_stored :: "FullBlock \<Rightarrow> FullBlock \<Rightarrow> bool" where
  "same_stored b c \<longleftrightarrow> baseBlock b = baseBlock c \<and> sameFileReferences (flFiles b) (flFiles c)"

definition same_state :: "aggregate \<Rightarrow> aggregate \<Rightarrow> bool" where
  "same_state a a' \<longleftrightarrow> agDocument a' = agDocument a \<and>
     (\<forall>k. rel_option same_stored (map_of (agBlocks a) k) (map_of (agBlocks a') k)) \<and>
     (\<forall>k. map_of (agBlocks a) k \<noteq> None \<longrightarrow> map_of (locales_of a k) = map_of (locales_of a' k))"

text \<open>Overlays are maps of canonical objects.\<close>

definition tidy :: "aggregate \<Rightarrow> bool" where
  "tidy a \<longleftrightarrow> (\<forall>k. distinct (map fst (locales_of a k))) \<and>
     (\<forall>k l d. map_of (locales_of a k) l = Some d \<longrightarrow> canonicalObject d = Inr d)"

lemma same_stored_refl [simp]: "same_stored b b"
  by (simp add: same_stored_def)

lemma same_stored_trans: "same_stored b c \<Longrightarrow> same_stored c d \<Longrightarrow> same_stored b d"
  unfolding same_stored_def using sameFileReferences_trans by metis

lemma same_stored_sym: "same_stored b c \<Longrightarrow> same_stored c b"
  unfolding same_stored_def using sameFileReferences_sym by metis

lemma same_state_at:
  "same_state a a' \<Longrightarrow> map_of (agBlocks a) k = Some b \<Longrightarrow> \<exists>c. map_of (agBlocks a') k = Some c \<and> same_stored b c"
  unfolding same_state_def by (metis option_rel_Some1)

lemma same_state_back:
  "same_state a a' \<Longrightarrow> map_of (agBlocks a') k = Some c \<Longrightarrow> \<exists>b. map_of (agBlocks a) k = Some b \<and> same_stored b c"
  unfolding same_state_def by (metis option_rel_Some2)

lemma same_state_base: "same_state a a' \<Longrightarrow> same_base (agBlocks a) (agBlocks a')"
  unfolding same_base_def
proof
  fix k assume "same_state a a'"
  then have "rel_option same_stored (map_of (agBlocks a) k) (map_of (agBlocks a') k)" by (simp add: same_state_def)
  then show "map_option baseBlock (map_of (agBlocks a) k) = map_option baseBlock (map_of (agBlocks a') k)"
    by (cases rule: option.rel_cases) (simp_all add: same_stored_def)
qed

lemma payload_ok_subset: "payload_ok co p b ls \<Longrightarrow> set ls' \<subseteq> set ls \<Longrightarrow> payload_ok co p b ls'"
  unfolding payload_ok_def by blast

lemma same_base_length:
  assumes "same_base bs cs" and "distinct (map fst bs)" and "distinct (map fst cs)"
  shows "length bs = length cs"
  using mset_eq_length [OF same_base_mset [OF assms]] by (simp add: base_view_def)

context placed_contract
begin

lemma valid_same_state:
  assumes v: "valid_aggregate co source a" and s: "same_state a a'" and k: "keyed (agBlocks a')"
    and d: "\<And>k. distinct (map fst (locales_of a' k))"
  shows "valid_aggregate co source a'"
proof -
  from v obtain lim where lim: "validateAggregateEnvelope co a source = Inr lim"
      "structure_ok co (cdProfile (agDocument a)) (agBlocks a) lim" and ka: "keyed (agBlocks a)"
    by (auto simp: valid_aggregate_def)
  have doc: "agDocument a' = agDocument a" using s by (simp add: same_state_def)
  note sb = same_state_base [OF s]
  have dk: "distinct (map fst (agBlocks a))" "distinct (map fst (agBlocks a'))" using ka k by (simp_all add: keyed_def)
  have "validateAggregateEnvelope co a' source = Inr lim"
    using lim(1) doc same_base_length [OF sb dk] by (simp add: validateAggregateEnvelope_def)
  moreover have "structure_ok co (cdProfile (agDocument a')) (agBlocks a') lim"
    using lim(2) doc structure_base [OF sb dk] by simp
  moreover have "block_ok co source a' j c" if c: "map_of (agBlocks a') j = Some c" for j c
  proof -
    from same_state_back [OF s c] obtain b where b: "map_of (agBlocks a) j = Some b" "same_stored b c" by blast
    have bo: "block_ok co source a j b" using v b(1) by (simp add: valid_aggregate_def)
    have m: "map_of (locales_of a j) = map_of (locales_of a' j)" using s b(1) by (simp add: same_state_def)
    have sub: "set (locales_of a' j) \<subseteq> set (locales_of a j)"
    proof
      fix e assume "e \<in> set (locales_of a' j)"
      then have "map_of (locales_of a j) (fst e) = Some (snd e)" using d [of j] m by simp
      then show "e \<in> set (locales_of a j)" by (metis map_of_SomeD prod.collapse)
    qed
    have p: "payload_ok co (cdProfile (agDocument a)) b (locales_of a' j)"
      using bo sub by (auto simp: block_ok_def intro: payload_ok_subset)
    have ne: "locales_of a j \<noteq> []" using bo by (auto simp: block_ok_def)
    have "placed_ok b" using payload_ok_placed [OF _ ne] bo by (auto simp: block_ok_def)
    then have "placed_ok c" using b(2) by (auto simp: same_stored_def baseBlock_eq placed_ok_def)
    then have "payload_ok co (cdProfile (agDocument a)) c (locales_of a' j)"
      using payload_ok_moved [OF p] b(2) by (auto simp: same_stored_def baseBlock_eq same_kind_def)
    then show ?thesis using bo m doc by (simp add: block_ok_def)
  qed
  ultimately show ?thesis using k by (auto simp: valid_aggregate_def)
qed

end

section \<open>What a batch leaves alone\<close>

lemma put_upserts_frame:
  "k \<notin> fst ` set upserts \<Longrightarrow> map_of (agBlocks (fold (put_upsert kinds) upserts a)) k = map_of (agBlocks a) k"
  "agDocument (fold (put_upsert kinds) upserts a) = agDocument a"
  by (induction upserts arbitrary: a) (auto simp: put_upsert_def update_conv')

lemma put_upserts_locales:
  "j \<notin> set kinds \<Longrightarrow> locales_of (fold (put_upsert kinds) upserts a) j = locales_of a j"
  by (induction upserts arbitrary: a) (auto simp: put_upsert_def update_conv' locales_of_def)

lemma put_upserts_tidy: "tidy a \<Longrightarrow> tidy (fold (put_upsert kinds) upserts a)"
proof (induction upserts arbitrary: a)
  case (Cons e upserts)
  have "locales_of (put_upsert kinds e a) j = (if fst e \<in> set kinds \<and> j = fst e then [] else locales_of a j)" for j
    by (auto simp: put_upsert_def update_conv' locales_of_def)
  then have "tidy (put_upsert kinds e a)" using Cons.prems by (auto simp: tidy_def)
  then show ?case using Cons.IH by simp
qed simp

lemma remove_blocks_frame:
  "k \<notin> D \<Longrightarrow> map_of (agBlocks (remove_blocks D a)) k = map_of (agBlocks a) k"
  "locales_of (remove_blocks D a) k = (if k \<in> D then [] else locales_of a k)"
  "agDocument (remove_blocks D a) = agDocument a"
  by (simp_all add: remove_blocks_def map_of_filter_keys locales_of_def)

lemma reorders_frame:
  assumes "fold_result apply_reorder a rs = Inr a'"
  shows "agLocales a' = agLocales a \<and> agDocument a' = agDocument a \<and>
    (\<forall>k. k \<notin> roBlock ` set rs \<longrightarrow> map_of (agBlocks a') k = map_of (agBlocks a) k) \<and>
    (\<forall>k. map_option flFiles (map_of (agBlocks a') k) = map_option flFiles (map_of (agBlocks a) k))"
  using assms
proof (induction rs arbitrary: a)
  case (Cons r rs)
  then obtain b where b: "map_of (agBlocks a) (roBlock r) = Some b" and rest: "fold_result apply_reorder (a\<lparr>agBlocks := AList.update (roBlock r)
      (b\<lparr>bbParent := roParent r, bbSlot := trim_space (roSlot r), bbPosition := roPosition r\<rparr>) (agBlocks a)\<rparr>) rs = Inr a'"
    by (auto simp: and_then_Inr apply_reorder_def [of a r] split: option.splits)
  show ?case using Cons.IH [OF rest] b by (auto simp: update_conv')
qed simp

definition mutated :: "localeMutation list \<Rightarrow> (uuid \<times> string) set" where
  "mutated ms = (\<lambda>m. (lmBlock m, lmLocale m)) ` set ms"

text \<open>The overlays of one locale state against the state at the start.\<close>

definition overlays_from :: "aggregate \<Rightarrow> locale_state \<Rightarrow> bool" where
  "overlays_from a s \<longleftrightarrow> tidy (fst s) \<and>
     (\<forall>k l. (k, l) \<notin> mutated (snd s) \<longrightarrow> map_of (locales_of (fst s) k) l = map_of (locales_of a k) l)"

lemma tidy_drop: "tidy a \<Longrightarrow> tidy (drop_locale k l a)"
  by (auto simp: tidy_def locales_drop delete_conv' distinct_delete dest: set_alist_delete split: if_splits)

lemma tidy_put: "tidy a \<Longrightarrow> canonicalObject d = Inr d \<Longrightarrow> tidy (put_locale k l d a)"
  by (auto simp: tidy_def locales_put update_conv' distinct_update dest: set_alist_update split: if_splits)

lemma normalize_localized: "normalizeBlock co p b = Inr n \<Longrightarrow> canonicalObject (flLocalized n) = Inr (flLocalized n)"
  by (auto simp: normalizeBlock_def Let_def guard_error_Inr and_then_Inr dest: canonicalObject_idem)

lemma normalize_shared: "normalizeBlock co p b = Inr n \<Longrightarrow> canonicalObject (bbShared n) = Inr (bbShared n)"
  by (auto simp: normalizeBlock_def Let_def guard_error_Inr and_then_Inr dest: canonicalObject_idem)

lemma groups_overlays:
  assumes "fold_result (apply_group co source inputs) s gs = Inr s'" and "overlays_from a s"
  shows "overlays_from a s'"
proof (rule fold_result_invariant [where I = "overlays_from a", OF _ assms(2,1)])
  fix s g s' assume s: "overlays_from a s" and g: "apply_group co source inputs s g = Inr s'"
  from g obtain t where t: "fold_result (locale_delete source (lgLocale g)) s (lgDeletes g) = Inr t"
      "fold_result (locale_update co inputs (lgLocale g)) t (lgUpserts g) = Inr s'"
    by (auto simp: apply_group_def and_then_Inr)
  have "overlays_from a t"
    by (rule fold_result_invariant [where I = "overlays_from a", OF _ s t(1)])
      (auto simp: locale_delete_def overlays_from_def mutated_def locales_drop delete_conv' tidy_drop split: if_splits)
  show "overlays_from a s'"
    by (rule fold_result_invariant [where I = "overlays_from a", OF _ \<open>overlays_from a t\<close> t(2)])
      (auto simp: locale_update_def Let_def and_then_Inr guard_error_Inr overlays_from_def mutated_def locales_put update_conv'
        intro!: tidy_put normalize_localized split: option.splits if_splits)
qed

lemma kinds_upserted:
  assumes "fold_result (upsert_round co before source inputs allowMissing replaceAll) s us = Inr s'"
    and "set (snd s) \<subseteq> fst ` set (fst s)"
  shows "set (snd s') \<subseteq> fst ` set (fst s')"
  by (rule fold_result_invariant [where I = "\<lambda>s. set (snd s) \<subseteq> fst ` set (fst s)", OF _ assms(2,1)])
    (auto simp: upsert_round_def Let_def and_then_Inr guard_error_Inr set_update_keys split: option.splits if_splits)

definition affected :: "persistedMutation \<Rightarrow> uuid set" where
  "affected m = set (pmUpsertOrder m) \<union> set (pmDeleteOrder m) \<union> roBlock ` set (pmReorders m)"

context placed_contract
begin

lemma apply_batch_frame:
  assumes st: "stable_contract co" and ti: "tidy before"
    and a: "apply_batch co canon owners before b source allowMissing replaceAll = Inr (after, m)"
  shows "agDocument after = agDocument before \<and> tidy after \<and> set (pmKindChanged m) \<subseteq> set (pmUpsertOrder m) \<and>
    (\<forall>k \<in> set (pmUpsertOrder m). map_of (agBlocks after) k \<noteq> None) \<and>
    (\<forall>k \<in> set (pmDeleteOrder m). k \<notin> set (pmUpsertOrder m) \<longrightarrow> map_of (agBlocks after) k = None) \<and>
    (\<forall>k. k \<notin> affected m \<longrightarrow> map_of (agBlocks after) k = map_of (agBlocks before) k) \<and>
    (\<forall>k. k \<notin> set (pmUpsertOrder m) \<union> set (pmDeleteOrder m) \<longrightarrow>
      map_option flFiles (map_of (agBlocks after) k) = map_option flFiles (map_of (agBlocks before) k)) \<and>
    (\<forall>k l. k \<notin> set (pmKindChanged m) \<union> set (pmDeleteOrder m) \<longrightarrow> (k, l) \<notin> mutated (pmLocaleMutations m) \<longrightarrow>
      map_of (locales_of after k) l = map_of (locales_of before k) l)"
  using a
proof (rule apply_batch_stages)
  fix inputs and upserts :: "(uuid \<times> FullBlock) list" and kinds deleted moved localized mutations lim
  let ?base = "fold (put_upsert kinds) upserts (remove_blocks deleted before)"
  assume ups: "fold_result (upsert_round co before source inputs allowMissing replaceAll) ([], []) (baUpserts b) = Inr (upserts, kinds)"
    and del: "deleted = expandedDeletes (agBlocks before) (baDeletes b) (fst ` set upserts \<union> roBlock ` set (baReorders b))"
    and mv: "fold_result apply_reorder ?base (baReorders b) = Inr moved"
    and gr: "fold_result (apply_group co source inputs) (moved, []) (baGroups b) = Inr (localized, mutations)"
    and pay: "fold_result (\<lambda>s k. validateAggregateBlockPayload co source k s) localized (map fst upserts) = Inr after"
    and u: "sortUpsertsByDepth (agBlocks after) (map fst upserts) = Inr (pmUpsertOrder m)"
    and d: "sortDeletesByDepth (agBlocks before) deleted = Inr (pmDeleteOrder m)"
    and m: "pmLocaleMutations m = sort_key (\<lambda>m. (lmLocale m, lmBlock m)) mutations" "pmReorders m = baReorders b" "pmKindChanged m = kinds"
  have us: "set (pmUpsertOrder m) = fst ` set upserts" using sortUpsertsByDepth_order [OF u] by simp
  have ds: "set (pmDeleteOrder m) = deleted"
    using sortDeletesByDepth_order [OF d] del finite_doomed by (simp add: expandedDeletes_doomed)
  have ks: "set kinds \<subseteq> fst ` set upserts" using kinds_upserted [OF ups] by simp
  have ms: "mutated (pmLocaleMutations m) = mutated mutations" by (simp add: m mutated_def)
  note mf = reorders_frame [OF mv] and p = payloads_sound [OF st pay] and gb = groups_blocks [OF gr]
  have rl: "tidy (remove_blocks deleted before)" using ti by (auto simp: tidy_def remove_blocks_frame split: if_splits)
  have ml: "locales_of moved = locales_of ?base" using mf by (simp add: locales_of_def fun_eq_iff)
  have "tidy moved" using put_upserts_tidy [OF rl, of kinds upserts] ml by (simp add: tidy_def)
  then have "overlays_from moved (moved, [])" by (simp add: overlays_from_def)
  then have ov: "overlays_from moved (localized, mutations)" by (rule groups_overlays [OF gr])
  have al: "locales_of after = locales_of localized" using p by (simp add: locales_of_def fun_eq_iff)
  have "map_of (locales_of after k) l = map_of (locales_of before k) l"
    if "k \<notin> set kinds \<union> deleted" "(k, l) \<notin> mutated mutations" for k l
    using that ov al ml by (auto simp: overlays_from_def put_upserts_locales remove_blocks_frame)
  moreover have "map_of (agBlocks after) k = map_of (agBlocks moved) k" if "k \<notin> fst ` set upserts" for k
    using that p gb by auto
  moreover have "map_of (agBlocks ?base) k = map_of (agBlocks before) k" if "k \<notin> fst ` set upserts \<union> deleted" for k
    using that by (simp add: put_upserts_frame remove_blocks_frame)
  moreover have "tidy after" using ov al by (simp add: overlays_from_def tidy_def)
  moreover have "agDocument after = agDocument before"
    using p gb mf by (simp add: put_upserts_frame remove_blocks_frame)
  moreover have "map_of (agBlocks after) k = None" if "k \<in> deleted" "k \<notin> fst ` set upserts" for k
  proof -
    have "map_of (agBlocks ?base) k = None" using that by (simp add: put_upserts_frame remove_blocks_def map_of_filter_keys)
    then have "map_of (agBlocks moved) k = None" using mf by (metis map_option_is_None)
    then show ?thesis using that p gb by auto
  qed
  moreover have "map_of (agBlocks after) k \<noteq> None" if "k \<in> fst ` set upserts" for k using that p by auto
  ultimately show ?thesis
    using mf ks unfolding affected_def us ds ms m(2,3) by auto
qed

end

end
