(* ===== verification/Content_Written.thy ===== *)
theory Content_Written
  imports Content_State
begin

text \<open>
  What the statements of \<open>persist\<close> leave alone. Together with the checks that read the written rows back this
  shows which aggregate the tables hold after \<open>persist\<close>.
\<close>

section \<open>Frames\<close>

definition keeps :: "uuid set \<Rightarrow> (uuid \<times> string) set \<Rightarrow> uuid set \<Rightarrow> tables \<Rightarrow> tables \<Rightarrow> bool" where
  "keeps A B C t t' \<longleftrightarrow> tbDocuments t' = tbDocuments t \<and> (consistent t \<longrightarrow> consistent t') \<and>
     (\<forall>d j. j \<notin> A \<longrightarrow> row_at t' d j = row_at t d j) \<and> (\<forall>k l. (k, l) \<notin> B \<longrightarrow> locale_at t' k l = locale_at t k l) \<and>
     (\<forall>j. j \<notin> C \<longrightarrow> attachments_at t' j = attachments_at t j)"

lemma keeps_refl [simp]: "keeps A B C t t"
  by (simp add: keeps_def)

lemma keeps_trans: "keeps A B C t t' \<Longrightarrow> keeps A B C t' t'' \<Longrightarrow> keeps A B C t t''"
  by (simp add: keeps_def)

lemma keeps_mono: "keeps A B C t t' \<Longrightarrow> A \<subseteq> A' \<Longrightarrow> B \<subseteq> B' \<Longrightarrow> C \<subseteq> C' \<Longrightarrow> keeps A' B' C' t t'"
  unfolding keeps_def by blast

lemma chunk_subset: "chunk \<in> set (chunks xs) \<Longrightarrow> set chunk \<subseteq> set xs"
  using concat_chunks [of xs] by (metis UN_upper set_concat)

text \<open>A loop over chunks keeps what each of its statements keeps.\<close>

lemma chunks_keep:
  assumes "fold_result f t (chunks xs) = Inr t'"
    and "\<And>t chunk t'. set chunk \<subseteq> set xs \<Longrightarrow> f t chunk = Inr t' \<Longrightarrow> keeps A B C t t'"
  shows "keeps A B C t t'"
  by (rule fold_result_invariant [where I = "keeps A B C t", OF _ _ assms(1)])
    (use assms(2) chunk_subset keeps_trans in blast, simp)

lemma foldl_keep:
  "(\<And>t x. x \<in> set xs \<Longrightarrow> keeps A B C t (f t x)) \<Longrightarrow> keeps A B C t (foldl f t xs)"
proof (induction xs arbitrary: t)
  case (Cons x xs)
  then show ?case using keeps_trans [of A B C t "f t x"] by simp
qed simp

lemma find_append: "find P (xs @ ys) = (case find P xs of None \<Rightarrow> find P ys | Some x \<Rightarrow> Some x)"
  by (induction xs) auto

lemma find_map: "(\<And>x. P (f x) = P x) \<Longrightarrow> find P (map f xs) = map_option f (find P xs)"
  by (induction xs) auto

section \<open>Blocks\<close>

lemma delete_rows_keeps: "keeps (set ids) (set ids \<times> UNIV) (set ids) t (delete_rows document ids t)"
proof -
  let ?gone = "brID ` set (filter (\<lambda>r. brDocument r = document \<and> brID r \<in> set ids) (tbBlocks t))"
  have g: "?gone \<subseteq> set ids" by auto
  show ?thesis
    unfolding keeps_def
  proof (intro conjI impI allI)
    assume "consistent t"
    then show "consistent (delete_rows document ids t)"
      by (auto simp: consistent_def delete_rows_def Let_def distinct_map_filter)
  next
    fix d j assume "j \<notin> set ids"
    then show "row_at (delete_rows document ids t) d j = row_at t d j"
      unfolding row_at_def delete_rows_def Let_def by (simp, intro find_filter) auto
  next
    fix k and l :: string assume "(k, l) \<notin> set ids \<times> UNIV"
    then show "locale_at (delete_rows document ids t) k l = locale_at t k l"
      unfolding locale_at_def delete_rows_def Let_def by (simp, intro find_filter) (auto simp: locale_key_def)
  next
    fix j assume "j \<notin> set ids"
    then show "attachments_at (delete_rows document ids t) j = attachments_at t j"
      unfolding attachments_at_def delete_rows_def Let_def by (simp, intro filter_cong) auto
  qed (simp add: delete_rows_def Let_def)
qed

lemma deleteBlocks_keeps:
  assumes "deleteBlocks before order t = Inr t'"
  shows "keeps (set order) (set order \<times> UNIV) (set order) t t'"
  using assms unfolding deleteBlocks_def
  by (rule chunks_keep) (auto simp: delete_chunk_def Let_def guard_error_Inr intro: keeps_mono [OF delete_rows_keeps])

lemma create_chunk_keeps:
  assumes "create_chunk t chunk = Inr t'"
  shows "keeps (brID ` set chunk) {} {} t t'"
proof -
  from assms have new: "distinct (map brID chunk)" "brID ` set chunk \<inter> brID ` set (tbBlocks t) = {}"
      and t': "t' = t\<lparr>tbBlocks := tbBlocks t @ chunk\<rparr>" by (auto simp: create_chunk_def split: if_splits)
  have "find (\<lambda>r. brID r = j \<and> brDocument r = d) chunk = None" if "j \<notin> brID ` set chunk" for d j
    using that by (auto simp: find_None_iff)
  then show ?thesis
    using new by (auto simp: keeps_def t' row_at_def locale_at_def attachments_at_def find_append consistent_def split: option.splits)
qed

lemma map_rows_keeps:
  assumes "\<And>r. brID (f r) = brID r" "\<And>r. brDocument (f r) = brDocument r" and "\<And>r. brID r \<notin> A \<Longrightarrow> f r = r"
  shows "keeps A {} {} t (t\<lparr>tbBlocks := map f (tbBlocks t)\<rparr>)"
proof -
  have "find (\<lambda>r. brID r = j \<and> brDocument r = d) (map f (tbBlocks t)) = find (\<lambda>r. brID r = j \<and> brDocument r = d) (tbBlocks t)"
    if "j \<notin> A" for d j
    using find_map [of "\<lambda>r. brID r = j \<and> brDocument r = d" f "tbBlocks t"] assms that
    by (cases "find (\<lambda>r. brID r = j \<and> brDocument r = d) (tbBlocks t)") (auto dest: find_SomeD)
  moreover have "map brID (map f (tbBlocks t)) = map brID (tbBlocks t)" using assms(1) by simp
  moreover have "brID ` set (map f (tbBlocks t)) = brID ` set (tbBlocks t)" using assms(1) by (simp add: image_image)
  ultimately show ?thesis
    by (simp add: keeps_def row_at_def locale_at_def attachments_at_def consistent_def del: map_map)
qed

lemma persistBaseBlocks_keeps:
  assumes "persistBaseBlocks before after order t = Inr t'" and "\<And>k. k \<in> set order \<Longrightarrow> bbID (block_at (agBlocks after) k) = k"
  shows "keeps (set order) {} {} t t'"
proof -
  let ?row = "\<lambda>k. row_of_block (cdID (agDocument after)) (block_at (agBlocks after) k)"
  let ?created = "map ?row (filter (\<lambda>k. map_of (agBlocks before) k = None) order)"
  let ?updated = "map ?row (filter (\<lambda>k. map_of (agBlocks before) k \<noteq> None) order)"
  have ids: "brID ` set ?created \<subseteq> set order" "brID ` set ?updated \<subseteq> set order"
    using assms(2) by (auto simp: row_of_block_def)
  from assms(1) obtain s where s: "fold_result create_chunk t (chunks ?created) = Inr s"
      "fold_result (update_chunk (cdID (agDocument after))) s (chunks ?updated) = Inr t'"
    by (auto simp: persistBaseBlocks_def Let_def and_then_Inr)
  have "keeps (set order) {} {} t s"
    by (rule chunks_keep [OF s(1)]) (use ids(1) in \<open>auto intro!: keeps_mono [OF create_chunk_keeps]\<close>)
  moreover have "keeps (set order) {} {} s t'"
  proof (rule chunks_keep [OF s(2)])
    fix t chunk t' assume sub: "set chunk \<subseteq> set ?updated" and u: "update_chunk (cdID (agDocument after)) t chunk = Inr t'"
    have doc: "\<forall>c \<in> set chunk. brDocument c = cdID (agDocument after)" using sub by (auto simp: row_of_block_def)
    have inside: "\<forall>c \<in> set chunk. brID c \<in> set order" using sub ids(2) by (meson image_subset_iff subset_iff)
    have t': "t' = t\<lparr>tbBlocks := update_rows (cdID (agDocument after)) chunk (tbBlocks t)\<rparr>"
      using u by (auto simp: update_chunk_def Let_def guard_error_Inr)
    show "keeps (set order) {} {} t t'"
      unfolding t' update_rows_def
      by (rule map_rows_keeps) (use doc inside in \<open>auto split: option.splits dest!: find_SomeD\<close>)
  qed
  ultimately show ?thesis by (rule keeps_trans)
qed

lemma persistReorders_keeps:
  assumes "persistReorders document reorders t = Inr t'"
  shows "keeps (roBlock ` set reorders) {} {} t t'"
proof (rule chunks_keep)
  show "fold_result (reorder_chunk document) t (chunks reorders) = Inr t'" using assms by (simp add: persistReorders_def)
next
  fix t chunk t' assume sub: "set chunk \<subseteq> set reorders" and u: "reorder_chunk document t chunk = Inr t'"
  have t': "t' = t\<lparr>tbBlocks := reorder_rows document chunk (tbBlocks t)\<rparr>"
    using u by (auto simp: reorder_chunk_def Let_def guard_error_Inr)
  have inside: "\<forall>c \<in> set chunk. roBlock c \<in> roBlock ` set reorders" using sub by blast
  show "keeps (roBlock ` set reorders) {} {} t t'"
    unfolding t' reorder_rows_def
  proof (rule map_rows_keeps)
    fix r assume "brID r \<notin> roBlock ` set reorders"
    then have "find (\<lambda>c. roBlock c = brID r) chunk = None" unfolding find_None_iff using inside by metis
    then show "(if brDocument r = document then (case find (\<lambda>c. roBlock c = brID r) chunk of None \<Rightarrow> r
        | Some c \<Rightarrow> r\<lparr>brParent := roParent c, brSlot := roSlot c, brPosition := roPosition c\<rparr>) else r) = r" by simp
  qed (auto split: option.splits)
qed

section \<open>Overlays\<close>

lemma filter_locales_keeps:
  assumes "\<And>r. locale_key r \<notin> B \<Longrightarrow> Q r"
  shows "keeps {} B {} t (t\<lparr>tbLocales := filter Q (tbLocales t)\<rparr>)"
proof -
  have "find (\<lambda>r. locale_key r = (k, l)) (filter Q (tbLocales t)) = find (\<lambda>r. locale_key r = (k, l)) (tbLocales t)"
    if "(k, l) \<notin> B" for k l
    by (rule find_filter) (use that assms in auto)
  then show ?thesis
    by (auto simp: keeps_def row_at_def locale_at_def attachments_at_def consistent_def distinct_map_filter)
qed

lemma clearChangedKindLocales_keeps: "keeps {} (set (pmKindChanged m) \<times> UNIV) {} t (clearChangedKindLocales m t)"
  unfolding clearChangedKindLocales_def
proof (rule foldl_keep, rule filter_locales_keeps)
  fix chunk r assume "chunk \<in> set (chunks (sort (pmKindChanged m)))" "locale_key r \<notin> set (pmKindChanged m) \<times> UNIV"
  then show "\<not> (olBlock r \<in> set chunk \<and> olLocale r \<noteq> pmSourceLocale m)"
    using chunk_subset [of chunk "sort (pmKindChanged m)"] by (auto simp: locale_key_def)
qed

lemma put_locale_row_keys:
  "map locale_key (put_locale_row rows r) =
     (if locale_key r \<in> set (map locale_key rows) then map locale_key rows else map locale_key rows @ [locale_key r])"
  by (auto simp: put_locale_row_def locale_key_def)

lemma put_locale_row_find:
  "key \<noteq> locale_key r \<Longrightarrow> find (\<lambda>x. locale_key x = key) (put_locale_row rows r) = find (\<lambda>x. locale_key x = key) rows"
proof -
  assume k: "key \<noteq> locale_key r"
  let ?f = "\<lambda>x. if locale_key x = locale_key r then x\<lparr>olData := olData r\<rparr> else x"
  have "find (\<lambda>x. locale_key x = key) (map ?f rows) = map_option ?f (find (\<lambda>x. locale_key x = key) rows)"
    by (rule find_map) (auto simp: locale_key_def)
  then show ?thesis
    using k by (cases "find (\<lambda>x. locale_key x = key) rows") (auto simp: put_locale_row_def find_append dest: find_SomeD)
qed

lemma put_locale_rows:
  "distinct (map locale_key rows) \<Longrightarrow> distinct (map locale_key (foldl put_locale_row rows new))"
  "olBlock ` set (foldl put_locale_row rows new) = olBlock ` set rows \<union> olBlock ` set new"
  "key \<notin> locale_key ` set new \<Longrightarrow>
     find (\<lambda>x. locale_key x = key) (foldl put_locale_row rows new) = find (\<lambda>x. locale_key x = key) rows"
proof -
  have b: "olBlock ` set (put_locale_row rows r) = insert (olBlock r) (olBlock ` set rows)" for rows r
  proof -
    have "fst ` set (map locale_key (put_locale_row rows r)) = insert (olBlock r) (fst ` set (map locale_key rows))"
      unfolding put_locale_row_keys by (auto simp: locale_key_def image_iff)
    then show ?thesis by (simp add: image_image locale_key_def)
  qed
  show "distinct (map locale_key rows) \<Longrightarrow> distinct (map locale_key (foldl put_locale_row rows new))"
    by (induction new arbitrary: rows) (simp_all add: put_locale_row_keys)
  show "olBlock ` set (foldl put_locale_row rows new) = olBlock ` set rows \<union> olBlock ` set new"
    by (induction new arbitrary: rows) (auto simp: b)
  show "key \<notin> locale_key ` set new \<Longrightarrow>
     find (\<lambda>x. locale_key x = key) (foldl put_locale_row rows new) = find (\<lambda>x. locale_key x = key) rows"
    by (induction new arbitrary: rows) (auto simp: put_locale_row_find)
qed

lemma upsert_locales_keeps:
  assumes "upsert_locales t chunk = Inr t'"
  shows "keeps {} (locale_key ` set chunk) {} t t'"
proof -
  from assms have fk: "olBlock ` set chunk \<subseteq> brID ` set (tbBlocks t)" and t': "t' = t\<lparr>tbLocales := foldl put_locale_row (tbLocales t) chunk\<rparr>"
    by (auto simp: upsert_locales_def split: if_splits)
  have "consistent t'" if "consistent t"
    using that fk unfolding t' consistent_def by (simp add: put_locale_rows)
  moreover have "locale_at t' k l = locale_at t k l" if "(k, l) \<notin> locale_key ` set chunk" for k l
    using put_locale_rows(3) [OF that] by (simp add: t' locale_at_def)
  ultimately show ?thesis by (simp add: keeps_def t' row_at_def attachments_at_def)
qed

lemma persistLocaleMutations_keeps:
  assumes "persistLocaleMutations after ms t = Inr t'"
  shows "keeps {} (mutated ms) {} t t'"
proof -
  let ?upserts = "map (\<lambda>m. \<lparr>olBlock = lmBlock m, olLocale = lmLocale m,
      olData = localizedData after (lmBlock m) (lmLocale m)\<rparr>) (filter (\<lambda>m. \<not> lmDelete m) ms)"
  let ?t = "foldl delete_locales t (chunks (filter lmDelete ms))"
  have "keeps {} (mutated ms) {} t ?t"
  proof (rule foldl_keep)
    fix t chunk assume "chunk \<in> set (chunks (filter lmDelete ms))"
    then have "set chunk \<subseteq> set ms" using chunk_subset by fastforce
    then show "keeps {} (mutated ms) {} t (delete_locales t chunk)"
      unfolding delete_locales_def by (intro filter_locales_keeps) (auto simp: mutated_def)
  qed
  moreover have "keeps {} (mutated ms) {} ?t t'"
  proof (rule chunks_keep)
    show "fold_result upsert_locales ?t (chunks ?upserts) = Inr t'" using assms by (simp add: persistLocaleMutations_def Let_def)
  next
    fix t chunk t' assume sub: "set chunk \<subseteq> set ?upserts" and u: "upsert_locales t chunk = Inr t'"
    have "locale_key ` set chunk \<subseteq> locale_key ` set ?upserts" using sub by blast
    also have "\<dots> \<subseteq> mutated ms" by (auto simp: locale_key_def mutated_def)
    finally show "keeps {} (mutated ms) {} t t'" by (intro keeps_mono [OF upsert_locales_keeps [OF u]]) auto
  qed
  ultimately show ?thesis by (rule keeps_trans)
qed

section \<open>Attachments\<close>

lemma filter_map_frame:
  "(\<And>r. arBlock (f r) = arBlock r) \<Longrightarrow> (\<And>r. arBlock r = j \<Longrightarrow> f r = r) \<Longrightarrow>
   filter (\<lambda>r. arBlock r = j) (map f rows) = filter (\<lambda>r. arBlock r = j) rows"
  by (induction rows) auto

lemma attachments_keep:
  assumes "distinct (map attachment_key (tbAttachments t)) \<Longrightarrow> distinct (map attachment_key rows)"
    and "arBlock ` set rows \<subseteq> arBlock ` set (tbAttachments t)"
    and "\<And>j. j \<notin> C \<Longrightarrow> filter (\<lambda>r. arBlock r = j) rows = filter (\<lambda>r. arBlock r = j) (tbAttachments t)"
  shows "keeps {} {} C t (t\<lparr>tbAttachments := rows, tbCriteria := criteria\<rparr>)"
proof -
  let ?t = "t\<lparr>tbAttachments := rows, tbCriteria := criteria\<rparr>"
  have "consistent ?t" if "consistent t" using that assms(1) order_trans [OF assms(2)] by (simp add: consistent_def)
  then show ?thesis using assms(3) by (simp add: keeps_def row_at_def locale_at_def attachments_at_def)
qed

lemma replace_attachment_keeps:
  assumes "replace_attachment s current = Inr s'"
  shows "keeps {} {} {arBlock current} (fst s) (fst s') \<and> set (snd s') \<subseteq> set (snd s)"
proof (cases "map_of (snd s) (attachment_key current)")
  case None
  let ?rows = "filter (\<lambda>r. attachment_key r \<noteq> attachment_key current) (tbAttachments (fst s))"
  have "keeps {} {} {arBlock current} (fst s) (fst s\<lparr>tbAttachments := ?rows, tbCriteria := c\<rparr>)" for c
  proof (rule attachments_keep)
    show "filter (\<lambda>r. arBlock r = j) ?rows = filter (\<lambda>r. arBlock r = j) (tbAttachments (fst s))" if "j \<notin> {arBlock current}" for j
      unfolding filter_filter by (rule filter_cong [OF refl]) (use that in \<open>auto simp: attachment_key_def\<close>)
  qed (auto simp: distinct_map_filter)
  then show ?thesis using assms None by (auto simp: replace_attachment_def Let_def)
next
  case (Some new)
  let ?f = "\<lambda>r. if attachment_key r = attachment_key current then r\<lparr>arSelector := arSelector new, arFile := arFile new,
      arMissing := arMissing new, arAccess := ''disabled''\<rparr> else r"
  have k: "keeps {} {} {arBlock current} (fst s) (fst s\<lparr>tbAttachments := map ?f (tbAttachments (fst s)), tbCriteria := c\<rparr>)" for c
  proof (rule attachments_keep)
    show "filter (\<lambda>r. arBlock r = j) (map ?f (tbAttachments (fst s))) = filter (\<lambda>r. arBlock r = j) (tbAttachments (fst s))"
      if "j \<notin> {arBlock current}" for j
      by (rule filter_map_frame) (use that in \<open>auto simp: attachment_key_def\<close>)
    have "map attachment_key (map ?f rows) = map attachment_key rows" for rows by (auto simp: attachment_key_def)
    then show "distinct (map attachment_key (tbAttachments (fst s))) \<Longrightarrow> distinct (map attachment_key (map ?f (tbAttachments (fst s))))"
      by metis
  qed auto
  have e: "replace_attachment s current = (if sameBlockAttachmentSelector current new then Inr (fst s, AList.delete (attachment_key current) (snd s))
      else guard_error (invalid_if (length (filter (\<lambda>r. attachment_key r = attachment_key current) (tbAttachments (fst s))) \<noteq> 1)
          ''replaced some of the content Block attachments'')
        (Inr (fst s\<lparr>tbAttachments := map ?f (tbAttachments (fst s)),
           tbCriteria := filter (\<lambda>r. (crBlock r, crPath r) \<noteq> attachment_key current) (tbCriteria (fst s))\<rparr>,
           AList.delete (attachment_key current) (snd s))))"
    using Some by (cases "fst s") (simp add: replace_attachment_def Let_def)
  have "fst s' = fst s \<and> snd s' = AList.delete (attachment_key current) (snd s) \<or>
      s' = (fst s\<lparr>tbAttachments := map ?f (tbAttachments (fst s)),
        tbCriteria := filter (\<lambda>r. (crBlock r, crPath r) \<noteq> attachment_key current) (tbCriteria (fst s))\<rparr>,
        AList.delete (attachment_key current) (snd s))"
    using assms unfolding e by (auto simp: guard_error_Inr split: if_splits)
  then show ?thesis using k by (auto dest: set_alist_delete)
qed

text \<open>The desired rows of a block carry its identifier and its path.\<close>

definition desired_ok :: "uuid set \<Rightarrow> desired \<Rightarrow> bool" where
  "desired_ok C m \<longleftrightarrow> (\<forall>e \<in> set m. arBlock (snd e) = fst (fst e) \<and> fst (fst e) \<in> C)"

lemma desired_rows_ok:
  "desired_ok {k \<in> set order. flFiles (block_at (agBlocks after) k) \<noteq> []} (desired_rows after order)"
proof -
  have ok: "desired_ok C (foldl (\<lambda>m (k, r). AList.update (k, refPath r) (attachment_row k r) m) m xs)"
    if "desired_ok C m" "fst ` set xs \<subseteq> C" for C m and xs :: "(uuid \<times> BlockFileReference) list"
    using that
  proof (induction xs arbitrary: m)
    case (Cons x xs)
    have "desired_ok C (AList.update (fst x, refPath (snd x)) (attachment_row (fst x) (snd x)) m)"
      using Cons.prems by (auto simp: desired_ok_def attachment_row_def dest!: set_alist_update)
    then show ?case using Cons by (simp add: split_beta)
  qed simp
  show ?thesis
    unfolding desired_rows_def by (rule ok) (auto simp: desired_ok_def)
qed

lemma attachment_chunk_keeps:
  assumes "attachment_chunk s chunk = Inr s'" and "keeps {} {} C t (fst s)" and "desired_ok C (snd s)"
    and quiet: "\<And>k. k \<in> set chunk \<Longrightarrow> k \<notin> C \<Longrightarrow> attachments_at t k = []"
  shows "keeps {} {} C t (fst s') \<and> desired_ok C (snd s')"
proof -
  have inside: "arBlock r \<in> C" if "r \<in> set (filter (\<lambda>r. arBlock r \<in> set chunk) (tbAttachments (fst s)))" for r
  proof (rule ccontr)
    assume n: "arBlock r \<notin> C"
    then have "attachments_at (fst s) (arBlock r) = []" using assms(2) quiet that by (simp add: keeps_def)
    then show False using that by (auto simp: attachments_at_def filter_empty_conv)
  qed
  show ?thesis
  proof (rule fold_result_invariant [where I = "\<lambda>s. keeps {} {} C t (fst s) \<and> desired_ok C (snd s)",
        OF _ _ assms(1) [unfolded attachment_chunk_def]])
    fix u r u' assume u: "keeps {} {} C t (fst u) \<and> desired_ok C (snd u)"
      and r: "r \<in> set (filter (\<lambda>r. arBlock r \<in> set chunk) (tbAttachments (fst s)))" and s: "replace_attachment u r = Inr u'"
    from replace_attachment_keeps [OF s] have "keeps {} {} {arBlock r} (fst u) (fst u')" "set (snd u') \<subseteq> set (snd u)" by auto
    moreover from this(1) have "keeps {} {} C (fst u) (fst u')" by (rule keeps_mono) (use inside [OF r] in auto)
    ultimately show "keeps {} {} C t (fst u') \<and> desired_ok C (snd u')"
      using u keeps_trans by (auto simp: desired_ok_def)
  qed (use assms in simp)
qed

lemma attach_chunk_keeps:
  assumes "attach_chunk t chunk = Inr t'" and "arBlock ` set chunk \<subseteq> C"
  shows "keeps {} {} C t t'"
proof -
  from assms(1) have c: "distinct (map attachment_key chunk)" "attachment_key ` set chunk \<inter> attachment_key ` set (tbAttachments t) = {}"
      "arBlock ` set chunk \<subseteq> brID ` set (tbBlocks t)" and t': "t' = t\<lparr>tbAttachments := tbAttachments t @ chunk\<rparr>"
    by (auto simp: attach_chunk_def split: if_splits)
  have "filter (\<lambda>r. arBlock r = j) chunk = []" if "j \<notin> C" for j using that assms(2) by (auto simp: filter_empty_conv)
  moreover have "consistent t'" if "consistent t" using that c by (auto simp: consistent_def t' image_Un)
  ultimately show ?thesis by (simp add: keeps_def t' row_at_def locale_at_def attachments_at_def)
qed

lemma replaceBlockAttachments_keeps:
  assumes "replaceBlockAttachments after order t = Inr t'"
  shows "keeps {} {} {k \<in> set order. attachments_at t k \<noteq> [] \<or> flFiles (block_at (agBlocks after) k) \<noteq> []} t t'"
proof -
  let ?C = "{k \<in> set order. attachments_at t k \<noteq> [] \<or> flFiles (block_at (agBlocks after) k) \<noteq> []}"
  let ?I = "\<lambda>s. keeps {} {} ?C t (fst s) \<and> desired_ok ?C (snd s)"
  from assms obtain u desired where u: "fold_result attachment_chunk (t, desired_rows after order) (chunks order) = Inr (u, desired)"
      and a: "fold_result attach_chunk u
        (chunks (concat (map (\<lambda>k. sort_key arPath (map snd (filter (\<lambda>e. fst (fst e) = k) desired))) order))) = Inr t'"
    by (auto simp: replaceBlockAttachments_def and_then_Inr Let_def)
  have "?I (u, desired)"
  proof (rule fold_result_invariant [where I = ?I, OF _ _ u])
    show "?I (t, desired_rows after order)" using desired_rows_ok [of order after] by (auto simp: desired_ok_def)
    fix s chunk s' assume s: "?I s" and c: "chunk \<in> set (chunks order)" and r: "attachment_chunk s chunk = Inr s'"
    have "set chunk \<subseteq> set order" using chunk_subset [OF c] .
    then show "?I s'" using attachment_chunk_keeps [OF r, of ?C t] s by auto
  qed
  moreover have "keeps {} {} ?C u t'"
  proof (rule chunks_keep [OF a])
    fix t chunk t' assume sub: "set chunk \<subseteq> set (concat (map (\<lambda>k. sort_key arPath (map snd (filter (\<lambda>e. fst (fst e) = k) desired))) order))"
      and r: "attach_chunk t chunk = Inr t'"
    have "arBlock ` set chunk \<subseteq> ?C" using sub \<open>?I (u, desired)\<close> by (fastforce simp: desired_ok_def)
    then show "keeps {} {} ?C t t'" by (rule attach_chunk_keeps [OF r])
  qed
  ultimately show ?thesis using keeps_trans [of "{}" "{}" ?C t u t'] unfolding fst_conv by blast
qed

end
