(* ===== verification/Content_Refine.thy ===== *)
theory Content_Refine
  imports Content_Written
begin

text \<open>
  The tables represent an aggregate: every row decodes to what the aggregate has. Loading and \<open>persist\<close> are
  correct for this relation.
\<close>

section \<open>Representation\<close>

definition agrees :: "tables \<Rightarrow> uuid \<Rightarrow> aggregate \<Rightarrow> uuid \<Rightarrow> bool" where
  "agrees t document a j \<longleftrightarrow>
     rel_option same_stored (map_of (agBlocks a) j) (map_option (stored_block t) (row_at t document j)) \<and>
     (case row_at t document j of
        None \<Rightarrow> True
      | Some r \<Rightarrow> decodes (brShared r) \<and> (\<forall>x \<in> set (attachments_at t j). well_formed x) \<and>
          (\<forall>l. map_of (locales_of a j) l = map_option (\<lambda>x. canonical_raw (olData x)) (locale_at t j l)) \<and>
          (\<forall>l x. locale_at t j l = Some x \<longrightarrow> decodes (olData x)))"

definition represents :: "tables \<Rightarrow> uuid \<Rightarrow> aggregate \<Rightarrow> bool" where
  "represents t document a \<longleftrightarrow> loadContentDocument t document = Inr (agDocument a) \<and> (\<forall>j. agrees t document a j)"

lemma locale_at_Some: "locale_at t k l = Some x \<Longrightarrow> x \<in> set (tbLocales t) \<and> locale_key x = (k, l)"
  unfolding locale_at_def by (rule find_SomeD)

lemma load_represents:
  assumes c: "consistent t" and l: "loadAggregate t document = Inr a"
  shows "represents t document a \<and> tidy a \<and> keyed (agBlocks a) \<and> (\<forall>j. row_at t document j = None \<longrightarrow> locales_of a j = [])"
proof -
  have s: "stored_as t document a" and d: "decodable t document" using load_stored [OF c l] by simp_all
  have loc: "decodes (olData x)" if "row_at t document j = Some r" "locale_at t j i = Some x" for j r i x
    using d row_at_Some [OF that(1)] locale_at_Some [OF that(2)] by (auto simp: decodable_def locale_key_def)
  have "well_formed x" if "row_at t document j = Some r" "x \<in> set (attachments_at t j)" for j r x
    using d row_at_Some [OF that(1)] that(2) by (auto simp: decodable_def attachments_at_def)
  then have "agrees t document a j" for j
    using s d loc row_at_Some [of t document j] option.rel_refl [of same_stored]
    by (auto simp: agrees_def stored_as_def decodable_def split: option.splits)
  then have r: "represents t document a" using s by (simp add: represents_def stored_as_def)
  have "canonicalObject e = Inr e" if e: "map_of (locales_of a j) i = Some e" for j i e
  proof -
    have "row_at t document j \<noteq> None" using s e by (auto simp: stored_as_def)
    then obtain q x where q: "row_at t document j = Some q" "locale_at t j i = Some x" "e = canonical_raw (olData x)"
      using s e by (auto simp: stored_as_def)
    show ?thesis using canonicalObject_idem [OF decodes_canonical [OF loc [OF q(1,2)]]] q(3) by simp
  qed
  then have "tidy a" using s by (simp add: tidy_def stored_as_def)
  moreover have "keyed (agBlocks a)"
    using s consistent_filters(1) [OF c]
    by (auto simp: keyed_def stored_as_def stored_block_def block_of_row_def dest: row_at_Some)
  ultimately show ?thesis using r s by (simp add: stored_as_def)
qed

lemma find_unique: "distinct (map key xs) \<Longrightarrow> x \<in> set xs \<Longrightarrow> Q x \<Longrightarrow> find (\<lambda>y. key y = key x \<and> Q y) xs = Some x"
  by (induction xs) (auto simp: image_iff)

lemma represents_loads:
  assumes c: "consistent t" and r: "represents t document a"
  shows "\<exists>a'. loadAggregate t document = Inr a' \<and> same_state a a'"
proof -
  have at: "agrees t document a j" for j using r by (simp add: represents_def)
  have row: "row_at t document (brID x) = Some x" if "x \<in> set (document_rows t document)" for x
    using that c find_unique [of brID "tbBlocks t" x "\<lambda>r. brDocument r = document"]
    by (simp add: consistent_def document_rows_def row_at_def)
  have "decodable t document"
    unfolding decodable_def
  proof (intro conjI ballI impI)
    fix x assume "x \<in> set (document_rows t document)"
    then show "decodes (brShared x)" using row at [of "brID x"] by (simp add: agrees_def)
  next
    fix x assume x: "x \<in> set (tbLocales t)" "olBlock x \<in> brID ` set (document_rows t document)"
    then obtain y where y: "y \<in> set (document_rows t document)" "olBlock x = brID y" by auto
    have "locale_at t (olBlock x) (olLocale x) = Some x"
      using c x(1) find_distinct_key [of locale_key "tbLocales t" x] by (simp add: consistent_def locale_at_def locale_key_def)
    then show "decodes (olData x)" using at [of "brID y"] row [OF y(1)] y(2) by (simp add: agrees_def)
  next
    fix x assume x: "x \<in> set (tbAttachments t)" "arBlock x \<in> brID ` set (document_rows t document)"
    then obtain y where y: "y \<in> set (document_rows t document)" "arBlock x = brID y" by auto
    then have "x \<in> set (attachments_at t (brID y))" using x by (simp add: attachments_at_def)
    then show "well_formed x" using at [of "brID y"] row [OF y(1)] by (simp add: agrees_def)
  qed
  then obtain a' where a': "loadAggregate t document = Inr a'"
    using decodable_loads [OF c] r unfolding represents_def by blast
  have s: "stored_as t document a'" using load_stored [OF c a'] by simp
  have "map_of (locales_of a j) = map_of (locales_of a' j)" if ne: "map_of (agBlocks a) j \<noteq> None" for j
  proof -
    obtain x where "row_at t document j = Some x"
      using at [of j] ne by (cases "row_at t document j") (auto simp: agrees_def)
    then show ?thesis using at [of j] s by (simp add: agrees_def stored_as_def fun_eq_iff)
  qed
  moreover have "rel_option same_stored (map_of (agBlocks a) j) (map_of (agBlocks a') j)" for j
    using at [of j] s by (simp add: agrees_def stored_as_def)
  ultimately have "same_state a a'" using s r by (simp add: same_state_def stored_as_def represents_def)
  with a' show ?thesis by blast
qed

lemma represents_same:
  assumes r: "represents t document a" and s: "same_state a a'"
  shows "represents t document a'"
proof -
  have "agrees t document a' j" for j
  proof -
    have at: "agrees t document a j" using r by (simp add: represents_def)
    have m: "rel_option same_stored (map_of (agBlocks a) j) (map_of (agBlocks a') j)" using s by (simp add: same_state_def)
    show ?thesis
    proof (cases "row_at t document j")
      case None
      then show ?thesis using at m by (auto simp: agrees_def)
    next
      case (Some x)
      then obtain b where b: "map_of (agBlocks a) j = Some b" "same_stored b (stored_block t x)"
        using at by (auto simp: agrees_def option_rel_Some2)
      then obtain c where c: "map_of (agBlocks a') j = Some c" "same_stored b c" using same_state_at [OF s] by blast
      have "same_stored c (stored_block t x)" using b(2) c(2) same_stored_sym same_stored_trans by blast
      moreover have "map_of (locales_of a j) = map_of (locales_of a' j)" using s b(1) by (simp add: same_state_def)
      ultimately show ?thesis using at Some c by (simp add: agrees_def)
    qed
  qed
  then show ?thesis using r s by (simp add: represents_def same_state_def)
qed

section \<open>What the checks establish\<close>

lemma same_entry_None:
  "same_entry same x y = None \<longleftrightarrow> rel_option (\<lambda>a b. same a b = Inr True) x y"
  by (cases x; cases y) (auto simp: same_entry_def split: sum.splits)

lemma sameCanonicalJSON_True: "sameCanonicalJSON l r = Inr True \<longleftrightarrow> decodes l \<and> decodes r \<and> canonical_raw l = canonical_raw r"
  by (auto simp: sameCanonicalJSON_def and_then_Inr canonicalObject_Inr)

lemma persisted_blocks_Inr:
  assumes "distinct (map brID rows)" and "persisted_blocks rows = Inr m"
  shows "(\<forall>r \<in> set rows. decodes (brShared r)) \<and> m = map (\<lambda>r. (brID r, block_of_row r (canonical_raw (brShared r)))) rows"
proof -
  have "fold_result (\<lambda>m r. and_then (as_invalid s (canonicalObject (brShared r)))
      (\<lambda>shared. Inr (AList.update (brID r) (block_of_row r shared) m))) m0 rows = Inr m \<Longrightarrow>
    brID ` set rows \<inter> fst ` set m0 = {} \<Longrightarrow>
    (\<forall>r \<in> set rows. decodes (brShared r)) \<and> m = m0 @ map (\<lambda>r. (brID r, block_of_row r (canonical_raw (brShared r)))) rows" for m0 s
    using assms(1)
  proof (induction rows arbitrary: m0)
    case (Cons r rows)
    from Cons.prems have d: "decodes (brShared r)"
        and rest: "fold_result (\<lambda>m r. and_then (as_invalid s (canonicalObject (brShared r)))
          (\<lambda>shared. Inr (AList.update (brID r) (block_of_row r shared) m)))
            (m0 @ [(brID r, block_of_row r (canonical_raw (brShared r)))]) rows = Inr m"
      by (auto simp: and_then_Inr canonicalObject_Inr update_new)
    show ?case using Cons.IH [OF rest] Cons.prems d by auto
  qed simp
  from this [of _ "[]"] assms(2) show ?thesis by (simp add: persisted_blocks_def)
qed

lemma set_uniqueUUIDs [simp]: "set (uniqueUUIDs ids) = set ids"
  by (simp add: uniqueUUIDs_def)

definition row_matches :: "FullBlock \<Rightarrow> blockRow \<Rightarrow> bool" where
  "row_matches b r \<longleftrightarrow> bbID b = brID r \<and> bbParent b = brParent r \<and> bbSlot b = brSlot r \<and> bbPosition b = brPosition r \<and>
     bbKind b = brKind r \<and> decodes (bbShared b) \<and> decodes (brShared r) \<and> canonical_raw (bbShared b) = canonical_raw (brShared r)"

lemma verified_blocks:
  assumes c: "consistent t" and v: "verify_blocks after m t = None" and j: "j \<in> affected m"
  shows "rel_option row_matches (map_of (agBlocks after) j) (row_at t (cdID (agDocument after)) j)"
proof -
  let ?ids = "uniqueUUIDs (pmUpsertOrder m @ pmDeleteOrder m @ map roBlock (pmReorders m))"
  let ?rows = "filter (\<lambda>r. brDocument r = cdID (agDocument after) \<and> brID r \<in> set ?ids) (tbBlocks t)"
  have ids: "set ?ids = affected m" by (auto simp: affected_def)
  from v obtain p where p: "persisted_blocks ?rows = Inr p"
      and chk: "\<forall>k \<in> set ?ids. same_entry samePersistedBlockFields (map_of (agBlocks after) k) (map_of p k) = None"
    by (auto simp: verify_blocks_def Let_def check_all_None split: sum.splits)
  have "distinct (map brID ?rows)" using c by (simp add: consistent_def distinct_map_filter)
  from persisted_blocks_Inr [OF this p] have d: "\<forall>r \<in> set ?rows. decodes (brShared r)"
      and pm: "p = map (\<lambda>r. (brID r, block_of_row r (canonical_raw (brShared r)))) ?rows" by auto
  have e1: "map_of (map (\<lambda>r. (brID r, block_of_row r (canonical_raw (brShared r)))) rows) j =
      map_option (\<lambda>r. block_of_row r (canonical_raw (brShared r))) (find (\<lambda>r. brID r = j) rows)" for rows
    by (induction rows) auto
  have e2: "find (\<lambda>r. brID r = j) (filter (\<lambda>r. brDocument r = doc \<and> brID r \<in> set ?ids) rows) =
      find (\<lambda>r. brID r = j \<and> brDocument r = doc) rows" for doc rows
    unfolding ids by (induction rows) (use j in auto)
  have pj: "map_of p j = map_option (\<lambda>r. block_of_row r (canonical_raw (brShared r))) (row_at t (cdID (agDocument after)) j)"
    unfolding pm row_at_def e1 e2 ..
  have "rel_option (\<lambda>a b. samePersistedBlockFields a b = Inr True) (map_of (agBlocks after) j) (map_of p j)"
    using chk j ids by (simp add: same_entry_None)
  then show ?thesis
    unfolding pj option.rel_map
  proof (rule option.rel_mono_strong)
    fix b r assume "r \<in> set_option (row_at t (cdID (agDocument after)) j)"
      and s: "samePersistedBlockFields b (block_of_row r (canonical_raw (brShared r))) = Inr True"
    then have "r \<in> set ?rows" using row_at_Some [of t _ j r] j ids by (auto simp: document_rows_def)
    then have dr: "decodes (brShared r)" using d by blast
    then show "row_matches b r"
      using s canonical_raw_idem [OF dr]
      by (auto simp: samePersistedBlockFields_def block_of_row_def row_matches_def sameCanonicalJSON_True split: if_splits)
  qed
qed

lemma persisted_locales_load:
  assumes "persisted_locales rows = Inr m"
  shows "fold_result load_locale (a\<lparr>agLocales := []\<rparr>) rows = Inr (a\<lparr>agLocales := m\<rparr>)"
proof -
  have "fold_result (\<lambda>m r. and_then (as_invalid s (canonicalObject (olData r)))
       (\<lambda>d. Inr (AList.update (olBlock r)
          (AList.update (olLocale r) d (case map_of m (olBlock r) of None \<Rightarrow> [] | Some ls \<Rightarrow> ls)) m))) m0 rows = Inr m \<Longrightarrow>
    fold_result load_locale (a\<lparr>agLocales := m0\<rparr>) rows = Inr (a\<lparr>agLocales := m\<rparr>)" for m0 s
    by (induction rows arbitrary: m0)
      (auto simp: and_then_Inr load_locale_def [of _ "_ :: blockLocaleRow"] put_locale_def locales_of_def)
  from this [of _ "[]"] assms show ?thesis by (simp add: persisted_locales_def)
qed

lemma same_maps:
  assumes "distinct (map fst xs)" "distinct (map fst ys)" "length xs = length ys"
    and "\<And>l d. (l, d) \<in> set xs \<Longrightarrow> map_of ys l = Some d"
  shows "map_of xs = map_of ys"
proof -
  have "set xs \<subseteq> set ys" using assms(4) by (auto dest: map_of_SomeD)
  moreover have "card (set xs) = card (set ys)"
    using assms(1-3) by (simp add: distinct_map distinct_card)
  ultimately have "set xs = set ys" by (simp add: card_subset_eq)
  then show ?thesis using assms(1,2) by (simp add: map_of_inject_set)
qed

text \<open>The overlays that a mutation names are stored as the aggregate has them.\<close>

lemma verified_locales:
  assumes c: "consistent t" and ti: "tidy after" and v: "verifyPersistedMutationLocales after m t = None"
    and j: "j \<in> set (pmKindChanged m) \<or> (j, l) \<in> mutated (pmLocaleMutations m)"
  shows "map_of (locales_of after j) l = map_option (\<lambda>x. canonical_raw (olData x)) (locale_at t j l) \<and>
    (\<forall>x. locale_at t j l = Some x \<longrightarrow> decodes (olData x))"
proof -
  let ?kinds = "pmKindChanged m"
  let ?loose = "filter (\<lambda>(k, l). k \<notin> set ?kinds) (remdups (map (\<lambda>x. (lmBlock x, lmLocale x)) (pmLocaleMutations m)))"
  let ?rows = "filter (\<lambda>r. olBlock r \<in> set ?kinds \<or> locale_key r \<in> set ?loose) (tbLocales t)"
  have loose: "set ?loose = {(k, l) \<in> mutated (pmLocaleMutations m). k \<notin> set ?kinds}" by (auto simp: mutated_def)
  have "\<not> (?kinds = [] \<and> ?loose = [])"
  proof
    assume e: "?kinds = [] \<and> ?loose = []"
    have "set ?loose = {}" by (subst conjunct2 [OF e]) (rule list.set(1))
    with loose j e show False by auto
  qed
  then obtain p where p: "persisted_locales ?rows = Inr p"
      and k: "\<forall>k \<in> set ?kinds. same_locale_set (locales_of after k) (case map_of p k of None \<Rightarrow> [] | Some ls \<Rightarrow> ls) = None"
      and o: "\<forall>(k, l) \<in> set ?loose. same_entry sameCanonicalJSON (map_of (locales_of after k) l)
        (map_of (case map_of p k of None \<Rightarrow> [] | Some ls \<Rightarrow> ls) l) = None"
    using v by (auto simp: verifyPersistedMutationLocales_def Let_def first_error_None check_all_None split: sum.splits if_splits)
  have at: "locales_of (after\<lparr>agLocales := p\<rparr>) i = (case map_of p i of None \<Rightarrow> [] | Some ls \<Rightarrow> ls)" for i
    by (simp add: locales_of_def)
  have none: "locales_of (after\<lparr>agLocales := []\<rparr>) i = []" for i by (simp add: locales_of_def)
  have "distinct (map locale_key ?rows)" using c by (simp add: consistent_def distinct_map_filter)
  note ld = load_locales [OF this persisted_locales_load [OF p, of after], unfolded at none]
  have canon: "canonical_raw d = d" if "map_of (locales_of after i) n = Some d" for i n d
    using ti that by (auto simp: tidy_def canonicalObject_Inr)
  have found: "find (\<lambda>r. locale_key r = (i, n)) ?rows = locale_at t i n" if "i \<in> set ?kinds \<or> (i, n) \<in> set ?loose" for i n
    unfolding locale_at_def by (rule find_filter) (use that in \<open>auto simp: locale_key_def\<close>)
  have in_j: "j \<in> set ?kinds \<or> (j, l) \<in> set ?loose" using j loose by auto
  have pj: "map_of (case map_of p j of None \<Rightarrow> [] | Some ls \<Rightarrow> ls) l = map_option (\<lambda>x. canonical_raw (olData x)) (locale_at t j l)"
    using ld found [OF in_j] by (simp split: option.splits)
  have dec: "decodes (olData x)" if "locale_at t j l = Some x" for x
    using ld in_j locale_at_Some [OF that] by (auto simp: locale_key_def)
  have equal: "d = e" if h: "map_of (locales_of after j) n = Some d" "map_of (case map_of p j of None \<Rightarrow> [] | Some ls \<Rightarrow> ls) n = Some e"
      "sameCanonicalJSON d e = Inr True" for n d e
  proof -
    obtain r where r: "find (\<lambda>r. locale_key r = (j, n)) ?rows = Some r" "e = canonical_raw (olData r)"
      using ld h(2) by (auto split: option.splits)
    then have "canonical_raw e = e" using ld canonical_raw_idem find_SomeD [OF r(1)] by auto
    then show ?thesis using h canon by (auto simp: sameCanonicalJSON_True)
  qed
  have "map_of (locales_of after j) l = map_of (case map_of p j of None \<Rightarrow> [] | Some ls \<Rightarrow> ls) l"
  proof (cases "j \<in> set ?kinds")
    case True
    then have sls: "same_locale_set (locales_of after j) (case map_of p j of None \<Rightarrow> [] | Some ls \<Rightarrow> ls) = None" using k by blast
    have "map_of (locales_of after j) = map_of (case map_of p j of None \<Rightarrow> [] | Some ls \<Rightarrow> ls)"
    proof (rule same_maps)
      show d: "distinct (map fst (locales_of after j))" using ti by (simp add: tidy_def)
      show "distinct (map fst (case map_of p j of None \<Rightarrow> [] | Some ls \<Rightarrow> ls))" using ld by simp
      show "length (locales_of after j) = length (case map_of p j of None \<Rightarrow> [] | Some ls \<Rightarrow> ls)"
        using sls by (simp add: same_locale_set_def first_error_None)
      fix n e assume n: "(n, e) \<in> set (locales_of after j)"
      then have "same_entry sameCanonicalJSON (Some e) (map_of (case map_of p j of None \<Rightarrow> [] | Some ls \<Rightarrow> ls) n) = None"
        using sls by (auto simp: same_locale_set_def first_error_None check_all_None)
      then show "map_of (case map_of p j of None \<Rightarrow> [] | Some ls \<Rightarrow> ls) n = Some e"
        using equal [of n e] n d by (auto simp: same_entry_None option_rel_Some1)
    qed
    then show ?thesis by simp
  next
    case False
    then have "same_entry sameCanonicalJSON (map_of (locales_of after j) l) (map_of (case map_of p j of None \<Rightarrow> [] | Some ls \<Rightarrow> ls) l) = None"
      using o in_j by blast
    then show ?thesis
      unfolding same_entry_None using equal [of l] by (auto elim!: option.rel_cases)
  qed
  then show ?thesis using pj dec by simp
qed

lemma persisted_references_Inr:
  assumes "persisted_references rows = Inr m"
  shows "(\<forall>r \<in> set rows. well_formed r) \<and>
    (case map_of m k of None \<Rightarrow> [] | Some fs \<Rightarrow> fs) = map reference_of (filter (\<lambda>r. arBlock r = k) rows)"
proof -
  have "fold_result (\<lambda>m r. and_then (fileReferenceFromAttachmentRow r)
      (\<lambda>f. Inr (AList.update (arBlock r) ((case map_of m (arBlock r) of None \<Rightarrow> [] | Some fs \<Rightarrow> fs) @ [f]) m))) m0 rows = Inr m \<Longrightarrow>
    (\<forall>r \<in> set rows. well_formed r) \<and> (case map_of m k of None \<Rightarrow> [] | Some fs \<Rightarrow> fs) =
      (case map_of m0 k of None \<Rightarrow> [] | Some fs \<Rightarrow> fs) @ map reference_of (filter (\<lambda>r. arBlock r = k) rows)" for m0
  proof (induction rows arbitrary: m0)
    case (Cons r rows)
    from Cons.prems have w: "well_formed r" and rest: "fold_result (\<lambda>m r. and_then (fileReferenceFromAttachmentRow r)
        (\<lambda>f. Inr (AList.update (arBlock r) ((case map_of m (arBlock r) of None \<Rightarrow> [] | Some fs \<Rightarrow> fs) @ [f]) m)))
        (AList.update (arBlock r) ((case map_of m0 (arBlock r) of None \<Rightarrow> [] | Some fs \<Rightarrow> fs) @ [reference_of r]) m0) rows = Inr m"
      by (auto simp: and_then_Inr reference_Inr)
    show ?case using Cons.IH [OF rest] w by (auto simp: update_conv')
  qed simp
  from this [of "[]"] assms show ?thesis by (simp add: persisted_references_def)
qed

lemma verified_files:
  assumes v: "verifyPersistedMutationAttachments before after ups t = None" and k: "k \<in> set ups"
    and f: "flFiles (block_at (agBlocks before) k) \<noteq> [] \<or> flFiles (block_at (agBlocks after) k) \<noteq> []"
  shows "sameFileReferences (flFiles (block_at (agBlocks after) k)) (map reference_of (attachments_at t k)) \<and>
    (\<forall>x \<in> set (attachments_at t k). well_formed x)"
proof -
  let ?ids = "filter (\<lambda>k. flFiles (block_at (agBlocks before) k) \<noteq> [] \<or> flFiles (block_at (agBlocks after) k) \<noteq> []) ups"
  let ?rows = "filter (\<lambda>r. arBlock r \<in> set ?ids) (tbAttachments t)"
  have ki: "k \<in> set ?ids" using k f by simp
  then have "?ids \<noteq> []" by (metis empty_iff list.set(1))
  then obtain p where p: "persisted_references ?rows = Inr p"
      and same: "\<forall>k \<in> set ?ids. sameFileReferences (flFiles (block_at (agBlocks after) k)) (case map_of p k of None \<Rightarrow> [] | Some fs \<Rightarrow> fs)"
    using v unfolding verifyPersistedMutationAttachments_def Let_def
    by (auto simp: check_all_None split: sum.splits if_splits)
  have "filter (\<lambda>r. arBlock r = k) ?rows = attachments_at t k"
    unfolding attachments_at_def filter_filter by (rule filter_cong [OF refl]) (use ki in blast)
  moreover have "set (attachments_at t k) \<subseteq> set ?rows" using ki by (auto simp: attachments_at_def)
  ultimately show ?thesis using persisted_references_Inr [OF p, of k] same ki by auto
qed

section \<open>Persisting\<close>

text \<open>What a mutation may have changed, up to the order of file references.\<close>

definition leaves :: "aggregate \<Rightarrow> aggregate \<Rightarrow> persistedMutation \<Rightarrow> bool" where
  "leaves before after m \<longleftrightarrow> tidy after \<and> keyed (agBlocks after) \<and> set (pmKindChanged m) \<subseteq> set (pmUpsertOrder m) \<and>
     set (pmUpsertOrder m) \<inter> set (pmDeleteOrder m) = {} \<and>
     (\<forall>k \<in> set (pmUpsertOrder m). map_of (agBlocks after) k \<noteq> None) \<and>
     (\<forall>k \<in> set (pmDeleteOrder m). map_of (agBlocks after) k = None) \<and>
     (\<forall>k. k \<notin> affected m \<longrightarrow> rel_option same_stored (map_of (agBlocks after) k) (map_of (agBlocks before) k)) \<and>
     (\<forall>k. k \<notin> set (pmUpsertOrder m) \<union> set (pmDeleteOrder m) \<longrightarrow>
       rel_option (\<lambda>b c. sameFileReferences (flFiles b) (flFiles c)) (map_of (agBlocks after) k) (map_of (agBlocks before) k)) \<and>
     (\<forall>k l. k \<notin> set (pmKindChanged m) \<union> set (pmDeleteOrder m) \<longrightarrow> (k, l) \<notin> mutated (pmLocaleMutations m) \<longrightarrow>
       map_of (locales_of after k) l = map_of (locales_of before k) l) \<and>
     (\<forall>k b. map_of (agBlocks after) k = Some b \<longrightarrow> canonical_raw (bbShared b) = bbShared b)"

definition written_frame :: "aggregate \<Rightarrow> persistedMutation \<Rightarrow> tables \<Rightarrow> tables \<Rightarrow> bool" where
  "written_frame after m t t' \<longleftrightarrow> keeps (affected m)
     (mutated (pmLocaleMutations m) \<union> (set (pmKindChanged m) \<union> set (pmDeleteOrder m)) \<times> UNIV)
     (set (pmDeleteOrder m) \<union>
       {k \<in> set (pmUpsertOrder m). attachments_at t k \<noteq> [] \<or> flFiles (block_at (agBlocks after) k) \<noteq> []}) t t'"

lemma persist_frame:
  assumes p: "persist before after m t = Inr t'" and l: "leaves before after m"
  shows "\<exists>u. written_frame after m t u \<and> verifyPersistedMutation before after m u = None \<and>
    updateDocument (agDocument before) (agDocument after) u = Inr t'"
proof -
  let ?A = "affected m" and ?B = "mutated (pmLocaleMutations m) \<union> (set (pmKindChanged m) \<union> set (pmDeleteOrder m)) \<times> UNIV"
  let ?C = "set (pmDeleteOrder m) \<union> {k \<in> set (pmUpsertOrder m). attachments_at t k \<noteq> [] \<or> flFiles (block_at (agBlocks after) k) \<noteq> []}"
  from p obtain t1 t2 t3 t4 t5 where s:
      "deleteBlocks before (pmDeleteOrder m) t = Inr t1" "persistBaseBlocks before after (pmUpsertOrder m) t1 = Inr t2"
      "replaceBlockAttachments after (pmUpsertOrder m) (clearChangedKindLocales m t2) = Inr t3"
      "persistLocaleMutations after (pmLocaleMutations m) t3 = Inr t4"
      "persistReorders (cdID (agDocument after)) (pmReorders m) t4 = Inr t5"
      and v: "verifyPersistedMutation before after m t5 = None" "updateDocument (agDocument before) (agDocument after) t5 = Inr t'"
    by (auto simp: persist_def and_then_Inr guard_error_Inr)
  have "bbID (block_at (agBlocks after) k) = k" if "k \<in> set (pmUpsertOrder m)" for k
    using l that keyed_at by (fastforce simp: leaves_def block_at_def)
  note k2 = persistBaseBlocks_keeps [OF s(2) this] and k1 = deleteBlocks_keeps [OF s(1)]
    and kc = clearChangedKindLocales_keeps [of m t2] and k3 = replaceBlockAttachments_keeps [OF s(3)]
    and k4 = persistLocaleMutations_keeps [OF s(4)] and k5 = persistReorders_keeps [OF s(5)]
  have "attachments_at (clearChangedKindLocales m t2) k = attachments_at t k" if "k \<notin> set (pmDeleteOrder m)" for k
    using k1 k2 kc that by (simp add: keeps_def)
  then have C: "{k \<in> set (pmUpsertOrder m). attachments_at (clearChangedKindLocales m t2) k \<noteq> [] \<or>
      flFiles (block_at (agBlocks after) k) \<noteq> []} \<subseteq> ?C" by fastforce
  have a: "keeps ?A ?B ?C t t1" by (rule keeps_mono [OF k1]) (auto simp: affected_def)
  have b: "keeps ?A ?B ?C t1 t2" by (rule keeps_mono [OF k2]) (auto simp: affected_def)
  have c: "keeps ?A ?B ?C t2 (clearChangedKindLocales m t2)" by (rule keeps_mono [OF kc]) auto
  have d: "keeps ?A ?B ?C (clearChangedKindLocales m t2) t3" by (rule keeps_mono [OF k3]) (use C in auto)
  have e: "keeps ?A ?B ?C t3 t4" by (rule keeps_mono [OF k4]) auto
  have f: "keeps ?A ?B ?C t4 t5" by (rule keeps_mono [OF k5]) (auto simp: affected_def)
  have "keeps ?A ?B ?C t t5"
    by (rule keeps_trans [OF keeps_trans [OF keeps_trans [OF a b] keeps_trans [OF c d]] keeps_trans [OF e f]])
  with v show ?thesis by (auto simp: written_frame_def)
qed

end
