(* ===== verification/Content_Commit.thy ===== *)
theory Content_Commit
  imports Content_Refine
begin

text \<open>
  After \<open>persist\<close> the tables represent the aggregate that \<open>apply\<close> computed: the rows that the mutation names were
  read back and compared, all other rows are as before.
\<close>

section \<open>One write\<close>

definition write_step :: "tables \<Rightarrow> uuid \<Rightarrow> aggregate \<Rightarrow> aggregate \<Rightarrow> persistedMutation \<Rightarrow> tables \<Rightarrow> bool" where
  "write_step t document before after m u \<longleftrightarrow> consistent t \<and> represents t document before \<and> cdID (agDocument after) = document \<and>
     leaves before after m \<and> (\<forall>j. row_at t document j = None \<longrightarrow> locales_of before j = []) \<and>
     (\<forall>j \<in> set (pmUpsertOrder m). row_at t document j = None \<longrightarrow> j \<notin> brID ` set (tbBlocks t)) \<and>
     written_frame after m t u \<and> verifyPersistedMutation before after m u = None"

lemma write_step_keeps:
  assumes "write_step t document before after m u"
  shows "consistent u" "tbDocuments u = tbDocuments t" "\<And>j. j \<notin> affected m \<Longrightarrow> row_at u document j = row_at t document j"
    "\<And>j l. j \<notin> set (pmKindChanged m) \<Longrightarrow> j \<notin> set (pmDeleteOrder m) \<Longrightarrow> (j, l) \<notin> mutated (pmLocaleMutations m) \<Longrightarrow>
      locale_at u j l = locale_at t j l"
    "\<And>j. j \<notin> set (pmUpsertOrder m) \<Longrightarrow> j \<notin> set (pmDeleteOrder m) \<Longrightarrow> attachments_at u j = attachments_at t j"
    "\<And>j. j \<notin> set (pmDeleteOrder m) \<Longrightarrow> attachments_at t j = [] \<Longrightarrow> flFiles (block_at (agBlocks after) j) = [] \<Longrightarrow>
      attachments_at u j = attachments_at t j"
  using assms by (auto simp: write_step_def written_frame_def keeps_def)

lemma no_rows:
  assumes "consistent t" and "j \<notin> brID ` set (tbBlocks t)"
  shows "attachments_at t j = []" "locale_at t j l = None"
  using assms by (auto simp: consistent_def attachments_at_def filter_empty_conv locale_at_def find_None_iff locale_key_def)

lemma sameFileReferences_Nil: "sameFileReferences [] rs \<longleftrightarrow> rs = []" "sameFileReferences rs [] \<longleftrightarrow> rs = []"
  by (auto simp: sameFileReferences_def)

lemma write_step_row:
  assumes w: "write_step t document before after m u"
  shows "rel_option row_matches (map_of (agBlocks after) j) (row_at u document j) \<or>
    j \<notin> affected m \<and> row_at u document j = row_at t document j"
  using verified_blocks [of u after m j] write_step_keeps [OF w] w
  by (auto simp: write_step_def verifyPersistedMutation_def first_error_None)

lemma represents_at:
  assumes "represents t document a"
  shows "(case row_at t document j of None \<Rightarrow> map_of (agBlocks a) j = None
    | Some r \<Rightarrow> \<exists>b. map_of (agBlocks a) j = Some b \<and> same_stored b (stored_block t r) \<and> decodes (brShared r) \<and>
        (\<forall>x \<in> set (attachments_at t j). well_formed x) \<and>
        (\<forall>l. map_of (locales_of a j) l = map_option (\<lambda>x. canonical_raw (olData x)) (locale_at t j l)) \<and>
        (\<forall>l x. locale_at t j l = Some x \<longrightarrow> decodes (olData x)))"
proof -
  have "agrees t document a j" using assms by (simp add: represents_def)
  then show ?thesis by (auto simp: agrees_def option_rel_Some2 split: option.splits)
qed

lemma stored_files: "same_stored b (stored_block t r) \<Longrightarrow> sameFileReferences (flFiles b) (map reference_of (attachments_at t (brID r)))"
  by (simp add: same_stored_def stored_block_def)

lemma write_step_files:
  assumes w: "write_step t document before after m u" and b: "map_of (agBlocks after) j = Some b"
  shows "sameFileReferences (flFiles b) (map reference_of (attachments_at u j)) \<and> (\<forall>x \<in> set (attachments_at u j). well_formed x)"
proof -
  have l: "leaves before after m" and c: "consistent t" and r: "represents t document before"
    using w by (simp_all add: write_step_def)
  have nd: "j \<notin> set (pmDeleteOrder m)" using l b by (auto simp: leaves_def)
  have at: "block_at (agBlocks after) j = b" using b by (simp add: block_at_def)
  show ?thesis
  proof (cases "j \<in> set (pmUpsertOrder m)")
    case True
    show ?thesis
    proof (cases "flFiles (block_at (agBlocks before) j) \<noteq> [] \<or> flFiles b \<noteq> []")
      case True
      then show ?thesis
        using verified_files [of before after "pmUpsertOrder m" u j] \<open>j \<in> set (pmUpsertOrder m)\<close> at w
        by (simp add: write_step_def verifyPersistedMutation_def first_error_None)
    next
      case False
      have "attachments_at t j = []"
      proof (cases "row_at t document j")
        case None
        then show ?thesis using no_rows(1) [OF c] w \<open>j \<in> set (pmUpsertOrder m)\<close> by (simp add: write_step_def)
      next
        case (Some x)
        then obtain b0 where "map_of (agBlocks before) j = Some b0" "same_stored b0 (stored_block t x)" "brID x = j"
          using represents_at [OF r, of j] row_at_Some [OF Some] by auto
        then show ?thesis using stored_files [of b0 t x] False by (simp add: block_at_def sameFileReferences_Nil)
      qed
      then show ?thesis using write_step_keeps(6) [OF w nd] at False by simp
    qed
  next
    case False
    then have "rel_option (\<lambda>b c. sameFileReferences (flFiles b) (flFiles c)) (map_of (agBlocks after) j) (map_of (agBlocks before) j)"
      using l nd by (simp add: leaves_def)
    then obtain b0 where b0: "map_of (agBlocks before) j = Some b0" "sameFileReferences (flFiles b) (flFiles b0)"
      using b by (auto simp: option_rel_Some1)
    obtain x where x: "row_at t document j = Some x" using represents_at [OF r, of j] b0(1) by (auto split: option.splits)
    then have "same_stored b0 (stored_block t x)" "\<forall>x \<in> set (attachments_at t j). well_formed x" "brID x = j"
      using represents_at [OF r, of j] b0(1) row_at_Some [OF x] by auto
    then show ?thesis
      using stored_files sameFileReferences_trans [OF b0(2)] write_step_keeps(5) [OF w False nd] by auto
  qed
qed

lemma write_step_locales:
  assumes w: "write_step t document before after m u" and b: "map_of (agBlocks after) j = Some b"
  shows "map_of (locales_of after j) l = map_option (\<lambda>x. canonical_raw (olData x)) (locale_at u j l) \<and>
    (\<forall>x. locale_at u j l = Some x \<longrightarrow> decodes (olData x))"
proof (cases "j \<in> set (pmKindChanged m) \<or> (j, l) \<in> mutated (pmLocaleMutations m)")
  case True
  then show ?thesis
    using verified_locales [of u after m j l] write_step_keeps(1) [OF w] w
    by (simp add: write_step_def verifyPersistedMutation_def first_error_None leaves_def)
next
  case False
  have ll: "leaves before after m" and c: "consistent t" and r: "represents t document before"
    using w by (simp_all add: write_step_def)
  have nd: "j \<notin> set (pmDeleteOrder m)" using ll b by (auto simp: leaves_def)
  have u: "locale_at u j l = locale_at t j l" using write_step_keeps(4) [OF w] False nd by simp
  have al: "map_of (locales_of after j) l = map_of (locales_of before j) l" using ll False nd by (simp add: leaves_def)
  show ?thesis
  proof (cases "row_at t document j")
    case (Some x)
    then show ?thesis using represents_at [OF r, of j] u al by auto
  next
    case None
    then have bn: "map_of (agBlocks before) j = None" using represents_at [OF r, of j] by simp
    have "j \<in> set (pmUpsertOrder m)"
    proof (rule ccontr)
      assume "j \<notin> set (pmUpsertOrder m)"
      then have "rel_option (\<lambda>b c. sameFileReferences (flFiles b) (flFiles c)) (map_of (agBlocks after) j) (map_of (agBlocks before) j)"
        using ll nd by (simp add: leaves_def)
      then show False using b bn by simp
    qed
    then have "j \<notin> brID ` set (tbBlocks t)" using w None by (simp add: write_step_def)
    then show ?thesis using no_rows(2) [OF c] u al w None by (simp add: write_step_def)
  qed
qed

lemma write_step_agrees:
  assumes w: "write_step t document before after m u"
  shows "agrees u document after j"
proof -
  have l: "leaves before after m" and r: "represents t document before" using w by (simp_all add: write_step_def)
  have row: "rel_option (\<lambda>b x. baseBlock b = baseBlock (stored_block u x) \<and> decodes (brShared x) \<and> brID x = j)
      (map_of (agBlocks after) j) (row_at u document j)"
    using write_step_row [OF w, of j]
  proof
    assume "rel_option row_matches (map_of (agBlocks after) j) (row_at u document j)"
    then show ?thesis
    proof (rule option.rel_mono_strong)
      fix b x assume b: "b \<in> set_option (map_of (agBlocks after) j)" and x: "x \<in> set_option (row_at u document j)" and m: "row_matches b x"
      have "canonical_raw (bbShared b) = bbShared b" using l b by (simp add: leaves_def)
      then show "baseBlock b = baseBlock (stored_block u x) \<and> decodes (brShared x) \<and> brID x = j"
        using m x row_at_Some [of u document j x] by (auto simp: row_matches_def baseBlock_eq stored_block_def block_of_row_def)
    qed
  next
    assume h: "j \<notin> affected m \<and> row_at u document j = row_at t document j"
    then have "rel_option same_stored (map_of (agBlocks after) j) (map_of (agBlocks before) j)" using l by (simp add: leaves_def)
    then show ?thesis
      using h represents_at [OF r, of j] row_at_Some [of t document j]
      by (cases "row_at t document j")
        (auto simp: option_rel_Some2 same_stored_def stored_block_def baseBlock_eq block_of_row_def)
  qed
  show ?thesis
  proof (cases "row_at u document j")
    case None
    then show ?thesis using row by (simp add: agrees_def)
  next
    case (Some x)
    then obtain b where b: "map_of (agBlocks after) j = Some b" "baseBlock b = baseBlock (stored_block u x)" "decodes (brShared x)" "brID x = j"
      using row by (auto simp: option_rel_Some2)
    have "same_stored b (stored_block u x)"
      using b write_step_files [OF w b(1)] by (simp add: same_stored_def stored_block_def)
    then show ?thesis
      using Some b write_step_files [OF w b(1)] write_step_locales [OF w b(1)] by (simp add: agrees_def)
  qed
qed

section \<open>The document row\<close>

lemma updateDocument_stored:
  assumes u: "updateDocument d d' t = Inr t'" and l: "loadContentDocument t k = Inr d" and c: "consistent t"
    and d': "d' = d\<lparr>cdRevision := fresh, cdUpdatedAt := now\<rparr>"
  shows "consistent t' \<and> loadContentDocument t' k = Inr d' \<and> tbBlocks t' = tbBlocks t \<and> tbLocales t' = tbLocales t \<and>
    tbAttachments t' = tbAttachments t"
proof -
  let ?f = "\<lambda>x. if cdID x = cdID d' \<and> cdRevision x = cdRevision d then x\<lparr>cdRevision := fresh, cdUpdatedAt := now\<rparr> else x"
  have t': "t' = t\<lparr>tbDocuments := map ?f (tbDocuments t)\<rparr>" using u by (auto simp: updateDocument_def d' Let_def split: if_splits option.splits)

  have f: "find (\<lambda>x. cdID x = k) (tbDocuments t) = Some d" using l by (auto simp: loadContentDocument_def split: option.splits)
  have "find (\<lambda>x. cdID x = k) (map ?f (tbDocuments t)) = map_option ?f (find (\<lambda>x. cdID x = k) (tbDocuments t))"
    by (rule find_map) simp
  then have "loadContentDocument t' k = Inr d'" using f by (simp add: t' loadContentDocument_def d')
  moreover have "map cdID (tbDocuments t') = map cdID (tbDocuments t)" unfolding t' by simp
  moreover have "tbBlocks t' = tbBlocks t" "tbLocales t' = tbLocales t" "tbAttachments t' = tbAttachments t" by (simp_all add: t')
  ultimately show ?thesis using c by (simp add: consistent_def)
qed

lemma agrees_cong:
  "tbBlocks t' = tbBlocks t \<Longrightarrow> tbLocales t' = tbLocales t \<Longrightarrow> tbAttachments t' = tbAttachments t \<Longrightarrow>
   agBlocks a' = agBlocks a \<Longrightarrow> agLocales a' = agLocales a \<Longrightarrow> agrees t' k a' j = agrees t k a j"
proof -
  assume "tbBlocks t' = tbBlocks t" "tbLocales t' = tbLocales t" "tbAttachments t' = tbAttachments t"
    "agBlocks a' = agBlocks a" "agLocales a' = agLocales a"
  moreover from this have "row_at t' = row_at t" "locale_at t' = locale_at t" "attachments_at t' = attachments_at t"
      "locales_of a' = locales_of a"
    by (simp_all add: fun_eq_iff row_at_def locale_at_def attachments_at_def locales_of_def)
  moreover from this have "stored_block t' = stored_block t" by (simp add: fun_eq_iff stored_block_def)
  ultimately show ?thesis by (simp add: agrees_def cong: option.case_cong)
qed

lemma persist_represents:
  assumes p: "persist before after m t = Inr t'" and l: "leaves before after m" and c: "consistent t"
    and r: "represents t document before" and id: "cdID (agDocument before) = document"
    and doc: "agDocument after = (agDocument before)\<lparr>cdRevision := fresh, cdUpdatedAt := now\<rparr>"
    and e: "\<And>j. row_at t document j = None \<Longrightarrow> locales_of before j = []"
    and o: "\<And>j. j \<in> set (pmUpsertOrder m) \<Longrightarrow> row_at t document j = None \<Longrightarrow> j \<notin> brID ` set (tbBlocks t)"
  shows "consistent t' \<and> represents t' document after"
proof -
  from persist_frame [OF p l] obtain u where f: "written_frame after m t u" and v: "verifyPersistedMutation before after m u = None"
      and ud: "updateDocument (agDocument before) (agDocument after) u = Inr t'" by blast
  have w: "write_step t document before after m u"
    using c r l e o f v id doc by (simp add: write_step_def)
  note k = write_step_keeps [OF w]
  have "loadContentDocument u document = Inr (agDocument before)" using r k(2) by (simp add: represents_def loadContentDocument_def)
  from updateDocument_stored [OF ud this k(1) doc] show ?thesis
    using write_step_agrees [OF w] agrees_cong [of t' u after after] by (simp add: represents_def)
qed

section \<open>Batches and mutations\<close>

lemma base_rounds:
  assumes "fold_result (base_round op) s ks = Inr s'"
  shows "(\<forall>k \<in> set ks. map_of s k = None) \<and> (\<forall>k. map_of s k \<noteq> None \<longrightarrow> map_of s' k \<noteq> None) \<and> (\<forall>k \<in> set ks. map_of s' k \<noteq> None)"
  using assms
proof (induction ks arbitrary: s)
  case (Cons k ks)
  then have n: "map_of s k = None" and rest: "fold_result (base_round op) ((k, op) # s) ks = Inr s'"
    by (auto simp: and_then_Inr base_round_def [of op s k] guard_error_Inr first_error_None)
  show ?case using Cons.IH [OF rest] n by (auto split: if_splits)
qed simp

lemma upserts_not_deleted:
  assumes "validateOperationIDs b = None"
  shows "bbID ` set (baUpserts b) \<inter> set (baDeletes b) = {}"
proof -
  from assms obtain s t where "fold_result (base_round BaseUpsert) [] (map bbID (baUpserts b)) = Inr s"
      "fold_result (base_round BaseDelete) s (baDeletes b) = Inr t"
    by (auto simp: validateOperationIDs_def base_operations_def and_then_Inr split: sum.splits)
  from base_rounds [OF this(1)] base_rounds [OF this(2)] show ?thesis by auto
qed

lemma doomed_explicit: "doomed blocks explicit retained k \<Longrightarrow> k \<in> retained \<Longrightarrow> k \<in> set explicit"
  by (cases rule: doomed.cases) auto

lemma owners_map:
  assumes "distinct (map brID rows)"
  shows "map_of (foldl (\<lambda>m chunk. foldl (\<lambda>m r. AList.update (brID r) (brDocument r) m) m (filter (\<lambda>r. brID r \<in> set chunk) rows)) m cs) k =
    (if k \<in> set (concat cs) then (case find (\<lambda>r. brID r = k) rows of None \<Rightarrow> map_of m k | Some r \<Rightarrow> Some (brDocument r)) else map_of m k)"
proof (induction cs arbitrary: m)
  case (Cons c cs)
  have d: "distinct (map brID (filter (\<lambda>r. brID r \<in> set c) rows))" using assms by (simp add: distinct_map_filter)
  have "find (\<lambda>r. brID r = k) (filter (\<lambda>r. brID r \<in> set c) rows) = (if k \<in> set c then find (\<lambda>r. brID r = k) rows else None)"
    by (induction rows) auto
  then show ?case
    using map_of_foldl_update [OF d, of brDocument m k] by (simp add: Cons.IH split: option.splits)
qed simp

lemma owned_ids:
  assumes c: "consistent t" and r: "rejectCrossDocumentIDs (blockDocuments t) document b = None"
    and k: "k \<in> set (batch_ids b)" and n: "row_at t document k = None"
  shows "k \<notin> brID ` set (tbBlocks t)"
proof
  assume "k \<in> brID ` set (tbBlocks t)"
  then obtain x where x: "x \<in> set (tbBlocks t)" "brID x = k" by auto
  have d: "distinct (map brID (tbBlocks t))" using c by (simp add: consistent_def)
  have f: "find (\<lambda>r. brID r = k) (tbBlocks t) = Some x" using find_distinct_key [OF d x(1)] x(2) by simp
  have "set (concat (chunks (uniqueUUIDs (batch_ids b)))) = set (batch_ids b)" by (simp only: concat_chunks set_uniqueUUIDs)
  then have "\<exists>m. blockDocuments t (batch_ids b) = Inr m \<and> map_of m k = Some (brDocument x)"
    using owners_map [OF d, of "[]" "chunks (uniqueUUIDs (batch_ids b))" k] f k by (simp add: blockDocuments_def)
  then obtain m where "blockDocuments t (batch_ids b) = Inr m" "(k, brDocument x) \<in> set m" by (auto dest: map_of_SomeD)
  then have "brDocument x = document"
    using r by (fastforce simp: rejectCrossDocumentIDs_def check_all_None split: if_splits)
  then show False using n x by (auto simp: row_at_None document_rows_def)
qed

lemma upsert_batch_ids: "bbID ` set (baUpserts b) \<subseteq> set (batch_ids b)"
  by (auto simp: batch_ids_def)

lemma apply_batch_checked:
  assumes "apply_batch co canon owners before b source allowMissing replaceAll = Inr r"
  shows "validateOperationIDs b = None \<and> rejectCrossDocumentIDs owners (cdID (agDocument before)) b = None"
  using assms by (auto simp: apply_batch_def guard_error_Inr)

section \<open>Validating again\<close>

lemma payloads_same:
  assumes "fold_result (\<lambda>s k. validateAggregateBlockPayload co source k s) a ks = Inr a'" and "distinct ks"
    and "\<And>k b. map_of (agBlocks a) k = Some b \<Longrightarrow> payload_ok co (cdProfile (agDocument a)) b (locales_of a k)"
  shows "agDocument a' = agDocument a \<and> agLocales a' = agLocales a \<and>
    (\<forall>j. rel_option same_stored (map_of (agBlocks a) j) (map_of (agBlocks a') j)) \<and>
    (\<forall>j. j \<notin> set ks \<longrightarrow> map_of (agBlocks a') j = map_of (agBlocks a) j)"
proof -
  have "fold_result (\<lambda>s k. validateAggregateBlockPayload co source k s) x ks = Inr a' \<Longrightarrow> agDocument x = agDocument a \<Longrightarrow>
      agLocales x = agLocales a \<Longrightarrow> (\<And>j. j \<in> set ks \<Longrightarrow> map_of (agBlocks x) j = map_of (agBlocks a) j) \<Longrightarrow>
      (\<And>j. rel_option same_stored (map_of (agBlocks a) j) (map_of (agBlocks x) j)) \<Longrightarrow>
    agDocument a' = agDocument a \<and> agLocales a' = agLocales a \<and>
      (\<forall>j. rel_option same_stored (map_of (agBlocks a) j) (map_of (agBlocks a') j)) \<and>
      (\<forall>j. j \<notin> set ks \<longrightarrow> map_of (agBlocks a') j = map_of (agBlocks x) j)" for x
    using assms(2)
  proof (induction ks arbitrary: x)
    case (Cons k ks)
    from Cons.prems(1) obtain y where y: "validateAggregateBlockPayload co source k x = Inr y"
        "fold_result (\<lambda>s k. validateAggregateBlockPayload co source k s) y ks = Inr a'" by (auto simp: and_then_Inr)
    from y(1) obtain b where b: "map_of (agBlocks x) k = Some b" "map_of (locales_of x k) source \<noteq> None"
      by (auto simp: validateAggregateBlockPayload_def split: option.splits if_splits)
    have lo: "locales_of x = locales_of a" using Cons.prems(3) by (simp add: locales_of_def fun_eq_iff)
    have ak: "map_of (agBlocks a) k = Some b" using Cons.prems(4) [of k] b(1) by simp
    have "block_ok co source x k b" using b assms(3) [OF ak] lo Cons.prems(2) by (simp add: block_ok_def)
    from payload_accepts [OF b(1) this] y(1) obtain refs where
        yx: "y = x\<lparr>agBlocks := AList.update k (b\<lparr>flFiles := refs\<rparr>) (agBlocks x)\<rparr>" "sameFileReferences (flFiles b) refs" by auto
    have "same_stored b (b\<lparr>flFiles := refs\<rparr>)" using yx(2) by (simp add: same_stored_def baseBlock_eq)
    then have "rel_option same_stored (map_of (agBlocks a) j) (map_of (agBlocks y) j)" for j
      using Cons.prems(5) [of j] ak by (simp add: yx(1) update_conv')
    moreover have "map_of (agBlocks y) j = map_of (agBlocks a) j" if "j \<in> set ks" for j
      using Cons.prems(4) [of j] Cons.prems(6) that by (auto simp: yx(1) update_conv')
    ultimately have "agDocument a' = agDocument a \<and> agLocales a' = agLocales a \<and>
        (\<forall>j. rel_option same_stored (map_of (agBlocks a) j) (map_of (agBlocks a') j)) \<and>
        (\<forall>j. j \<notin> set ks \<longrightarrow> map_of (agBlocks a') j = map_of (agBlocks y) j)"
      using Cons.prems(2,3,6) by (intro Cons.IH [OF y(2)]) (simp_all add: yx(1))
    then show ?case by (auto simp: yx(1) update_conv')
  qed simp
  from this [of a] assms(1) show ?thesis by (simp add: option.rel_refl)
qed

context placed_contract
begin

lemma revalidated:
  assumes st: "stable_contract co" and v: "valid_aggregate co source a" and e: "validateAggregate co source' a = Inr a'"
  shows "valid_aggregate co source' a' \<and> same_state a a' \<and> agLocales a' = agLocales a"
proof -
  have k: "keyed (agBlocks a)" using v by (simp add: valid_aggregate_def)
  from e have f: "fold_result (\<lambda>s k. validateAggregateBlockPayload co source' k s) a (map fst (agBlocks a)) = Inr a'"
    by (auto simp: validateAggregate_def and_then_Inr guard_error_Inr)
  have "payload_ok co (cdProfile (agDocument a)) b (locales_of a j)" if "map_of (agBlocks a) j = Some b" for j b
    using v that by (simp add: valid_aggregate_def block_ok_def)
  from payloads_same [OF f _ this] k have p: "agDocument a' = agDocument a" "agLocales a' = agLocales a"
      "\<And>j. rel_option same_stored (map_of (agBlocks a) j) (map_of (agBlocks a') j)" by (auto simp: keyed_def)
  then have "same_state a a'" by (simp add: same_state_def locales_of_def)
  then show ?thesis using validateAggregate_valid [OF st k e] p by simp
qed

end

end
