(* ===== verification/Content_Accepted.thy ===== *)
theory Content_Accepted
  imports Content_Commit
begin

text \<open>
  The store as a whole: an accepted batch leaves tables that load, the loaded document is valid, and it is the
  aggregate that \<open>apply\<close> computed with the new revision.
\<close>

section \<open>Mutations of a valid aggregate\<close>

lemma same_state_trans:
  assumes "same_state a b" and "same_state b c"
  shows "same_state a c"
proof -
  have "rel_option same_stored (map_of (agBlocks a) k) (map_of (agBlocks c) k)" for k
  proof -
    have "rel_option same_stored (map_of (agBlocks a) k) (map_of (agBlocks b) k)"
      "rel_option same_stored (map_of (agBlocks b) k) (map_of (agBlocks c) k)" using assms by (simp_all add: same_state_def)
    then show ?thesis
      by (cases "map_of (agBlocks b) k") (auto simp: option_rel_Some1 option_rel_Some2 intro: same_stored_trans)
  qed
  moreover have "map_of (agBlocks b) k \<noteq> None" if ne: "map_of (agBlocks a) k \<noteq> None" for k
    using ne same_state_at [OF assms(1)] by fastforce
  ultimately show ?thesis using assms by (simp add: same_state_def)
qed

lemma same_state_document:
  "same_state a b \<Longrightarrow> same_state (a\<lparr>agDocument := d\<rparr>) (b\<lparr>agDocument := d\<rparr>)"
  by (simp add: same_state_def locales_of_def)

lemma leaves_same:
  assumes l: "leaves before after m" and s: "same_state after after'" and k: "keyed (agBlocks after')"
    and lo: "agLocales after' = agLocales after"
  shows "leaves before (after'\<lparr>agDocument := d\<rparr>) m"
proof -
  let ?a = "after'\<lparr>agDocument := d\<rparr>"
  have loc: "locales_of ?a = locales_of after" using lo by (simp add: locales_of_def fun_eq_iff)
  have rel: "rel_option same_stored (map_of (agBlocks after) j) (map_of (agBlocks after') j)" for j
    using s by (simp add: same_state_def)
  have none: "map_of (agBlocks after') j = None \<longleftrightarrow> map_of (agBlocks after) j = None" for j
    using rel [of j] by (cases "map_of (agBlocks after) j"; cases "map_of (agBlocks after') j") auto
  have far: "rel_option same_stored (map_of (agBlocks after') j) (map_of (agBlocks before) j)" if "j \<notin> affected m" for j
  proof -
    have "rel_option same_stored (map_of (agBlocks after) j) (map_of (agBlocks before) j)" using l that by (simp add: leaves_def)
    then show ?thesis using rel [of j]
      by (cases "map_of (agBlocks after) j")
        (auto simp: option_rel_Some1 intro: same_stored_trans [OF same_stored_sym])
  qed
  have files: "rel_option (\<lambda>b c. sameFileReferences (flFiles b) (flFiles c)) (map_of (agBlocks after') j) (map_of (agBlocks before) j)"
    if "j \<notin> set (pmUpsertOrder m) \<union> set (pmDeleteOrder m)" for j
  proof -
    have "rel_option (\<lambda>b c. sameFileReferences (flFiles b) (flFiles c)) (map_of (agBlocks after) j) (map_of (agBlocks before) j)"
      using l that by (simp add: leaves_def)
    then show ?thesis using rel [of j]
      by (cases "map_of (agBlocks after) j")
        (auto simp: option_rel_Some1 same_stored_def intro: sameFileReferences_trans [OF sameFileReferences_sym])
  qed
  have "canonical_raw (bbShared c) = bbShared c" if at: "map_of (agBlocks after') j = Some c" for j c
  proof -
    obtain b where b: "map_of (agBlocks after) j = Some b" "same_stored b c" using same_state_back [OF s at] by blast
    then have "canonical_raw (bbShared b) = bbShared b" using l by (simp add: leaves_def)
    then show ?thesis using b(2) by (simp add: same_stored_def baseBlock_eq)
  qed
  then show ?thesis
    using l k loc none far files by (simp add: leaves_def tidy_def)
qed

lemma valid_shared:
  assumes "valid_aggregate co source a" and "map_of (agBlocks a) k = Some b"
  shows "canonical_raw (bbShared b) = bbShared b"
proof -
  have o: "block_ok co source a k b" using assms by (simp add: valid_aggregate_def)
  then obtain l d where "(l, d) \<in> set (locales_of a k)" by (cases "locales_of a k") (auto simp: block_ok_def)
  with o obtain n where "normalizeBlock co (cdProfile (agDocument a)) (b\<lparr>flLocalized := d\<rparr>) = Inr n" "bbShared n = bbShared b"
    by (auto simp: block_ok_def payload_ok_def)
  with normalize_shared [of co] show ?thesis by (metis canonicalObject_Inr)
qed

context placed_contract
begin

lemma apply_leaves:
  assumes st: "stable_contract co" and sl: "slot_rules co" and v: "valid_aggregate co source before" and ti: "tidy before"
    and a: "apply_batch co canon owners before b source allowMissing replaceAll = Inr (after, m)"
  shows "leaves before after m \<and> valid_aggregate co source after"
proof -
  note f = apply_batch_frame [OF st ti a] and o = apply_batch_orders [OF a]
  have va: "valid_aggregate co source after" by (rule apply_batch_valid [OF st sl v a])
  have dis: "set (pmUpsertOrder m) \<inter> set (pmDeleteOrder m) = {}"
  proof -
    have "k \<notin> bbID ` set (baUpserts b)" if "doomed (agBlocks before) (baDeletes b) (operated b) k" for k
      using doomed_explicit [OF that] upserts_not_deleted [of b] apply_batch_checked [OF a] by (auto simp: operated_def)
    then show ?thesis using o by blast
  qed
  have "rel_option same_stored (map_of (agBlocks after) k) (map_of (agBlocks before) k)" if "k \<notin> affected m" for k
    using f that by (simp add: option.rel_refl)
  moreover have "rel_option (\<lambda>b c. sameFileReferences (flFiles b) (flFiles c)) (map_of (agBlocks after) k) (map_of (agBlocks before) k)"
    if "k \<notin> set (pmUpsertOrder m) \<union> set (pmDeleteOrder m)" for k
  proof -
    have "map_option flFiles (map_of (agBlocks after) k) = map_option flFiles (map_of (agBlocks before) k)" using f that by blast
    then show ?thesis by (cases "map_of (agBlocks after) k"; cases "map_of (agBlocks before) k") auto
  qed
  moreover have "keyed (agBlocks after)" using va by (simp add: valid_aggregate_def)
  ultimately show ?thesis
    using f va dis valid_shared [OF va] unfolding leaves_def by blast
qed

end

section \<open>The store\<close>

definition effective_source :: "MetadataEffect outcome option \<Rightarrow> string \<Rightarrow> string" where
  "effective_source metadata source =
     (case metadata of Some (Inr e) \<Rightarrow> if meSourceLocale e \<noteq> '''' then meSourceLocale e else source | _ \<Rightarrow> source)"

lemma metadata_effect_source:
  assumes "metadata_effect metadata source = Inr e"
  shows "effective_source metadata source = (if meSourceLocale e \<noteq> '''' then meSourceLocale e else source)"
    "\<not> meChanged e \<Longrightarrow> effective_source metadata source = source"
  using assms
  by (auto simp: metadata_effect_def effective_source_def noMetadata_def and_then_Inr guard_error_Inr first_error_None
      validateMetadataEffect_def split: option.splits if_splits sum.splits)

lemma loadContentDocument_id: "loadContentDocument t k = Inr d \<Longrightarrow> cdID d = k"
  by (auto simp: loadContentDocument_def dest: find_SomeD split: option.splits)

lemma replace_deletes_upserts [simp]: "baUpserts (replace_deletes r a b) = baUpserts b"
  by (simp add: replace_deletes_def)

lemma valid_document:
  "valid_aggregate co source a \<Longrightarrow> cdProfile d = cdProfile (agDocument a) \<Longrightarrow> valid_aggregate co source (a\<lparr>agDocument := d\<rparr>)"
  by (simp add: valid_aggregate_def block_ok_def locales_of_def validateAggregateEnvelope_def cong: if_cong)

lemma accepted_stages:
  assumes a: "applyBatchAfterFenceWithMetadata se fresh now t batch source allowMissing replaceAll metadata = Inr (t', res)"
    and l: "loadAggregate t (baDocument batch) = Inr stored"
  shows "\<exists>before after m changed effect after'. validateAggregate (seContract se) source stored = Inr before \<and>
    cdRevision (agDocument before) = baExpectedRevision batch \<and>
    apply_batch (seContract se) (seCanon se) (blockDocuments t) before (replace_deletes replaceAll before batch) source
      allowMissing replaceAll = Inr (after, m) \<and>
    metadata_effect metadata source = Inr effect \<and>
    (if effective_source metadata source \<noteq> source then validateAggregate (seContract se) (effective_source metadata source) after
      else Inr after) = Inr after' \<and>
    (if \<not> changed \<and> \<not> meChanged effect then t' = t \<and> res = unchangedResult (cdRevision (agDocument before))
     else persist before (after'\<lparr>agDocument := bump fresh now (agDocument after')\<rparr>) m t = Inr t' \<and> brRevision res = fresh \<and> brChanged res)"
proof -
  have refused: "((if c then Inl e else x) = Inr r) = (\<not> c \<and> x = Inr r)" for c and e :: block_error and x and r :: "tables \<times> BatchResult"
    by simp
  have "(if meSourceLocale x \<noteq> '''' then meSourceLocale x else source) = effective_source metadata source"
    if "metadata_effect metadata source = Inr x" for x using metadata_effect_source(1) [OF that] by simp
  moreover have "\<exists>before after m x effect after'. validateAggregate (seContract se) source stored = Inr before \<and>
    cdRevision (agDocument before) = baExpectedRevision batch \<and>
    apply_batch (seContract se) (seCanon se) (blockDocuments t) before (replace_deletes replaceAll before batch) source
      allowMissing replaceAll = Inr (after, m) \<and>
    metadata_effect metadata source = Inr effect \<and>
    (let effective = (if meSourceLocale effect \<noteq> '''' then meSourceLocale effect else source)
     in if effective \<noteq> source then validateAggregate (seContract se) effective after else Inr after) = Inr after' \<and>
    (if \<not> fst x \<and> \<not> meChanged effect then Inr (t, unchangedResult (cdRevision (agDocument before)))
     else and_then (persist before (after'\<lparr>agDocument := bump fresh now (agDocument after')\<rparr>) m t)
       (\<lambda>t'. Inr (t', \<lparr>brRevision = fresh, brChanged = True, brContentChanged = fst x,
          brMetadataChanged = meChanged effect, brSourceChanged = fst (snd x) \<or> meAffectsSource effect,
          brChangedLocales = (if metadata = None then snd (snd x) else mergeChangedLocales (snd (snd x)) (meChangedLocales effect))\<rparr>))) =
      Inr (t', res)"
    using a l unfolding applyBatchAfterFenceWithMetadata_def Let_def
    by (simp only: and_then_Inr refused bump_def Let_def split_paired_Ex prod.case fst_conv snd_conv sum.inject simp_thms) blast
  ultimately show ?thesis
    by (simp only: Let_def) (fastforce simp: and_then_Inr split: if_splits)
qed

context placed_contract
begin

lemma stored_revalidated:
  assumes st: "stable_contract co" and c: "consistent t" and l: "loadAggregate t document = Inr stored"
    and v: "valid_aggregate co source stored" and e: "validateAggregate co source stored = Inr before"
  shows "represents t document before \<and> tidy before \<and> valid_aggregate co source before \<and> agDocument before = agDocument stored \<and>
    cdID (agDocument before) = document \<and> (\<forall>j. row_at t document j = None \<longrightarrow> locales_of before j = [])"
proof -
  note r = load_represents [OF c l] and s = revalidated [OF st v e]
  have lo: "locales_of before = locales_of stored" using s by (simp add: locales_of_def fun_eq_iff)
  have d: "agDocument before = agDocument stored" using s by (simp add: same_state_def)
  have "loadContentDocument t document = Inr (agDocument stored)" using r by (simp add: represents_def)
  then have "cdID (agDocument stored) = document" by (rule loadContentDocument_id)
  then show ?thesis using r s d lo represents_same [of t document stored before] by (simp add: tidy_def)
qed

lemma batch_leaves:
  assumes st: "stable_contract co" and sl: "slot_rules co" and c: "consistent t"
    and l: "loadAggregate t document = Inr stored" and v: "valid_aggregate co source stored"
    and e: "validateAggregate co source stored = Inr before"
    and a: "apply_batch co canon owners before b source allowMissing replaceAll = Inr (after, m)"
    and f: "(if effective \<noteq> source then validateAggregate co effective after else Inr after) = Inr after'"
  shows "leaves before (after'\<lparr>agDocument := d\<rparr>) m \<and> valid_aggregate co effective after' \<and> same_state after after' \<and>
    agDocument after' = agDocument before"
proof -
  have b: "tidy before" "valid_aggregate co source before" using stored_revalidated [OF st c l v e] by blast+
  note le = apply_leaves [OF st sl b(2,1) a]
  have after: "agDocument after = agDocument before" using apply_batch_frame [OF st b(1) a] by simp
  have s: "valid_aggregate co effective after' \<and> same_state after after' \<and> agLocales after' = agLocales after"
    using revalidated [OF st] le f by (auto simp: same_state_def option.rel_refl split: if_splits)
  then have "keyed (agBlocks after')" "agDocument after' = agDocument before"
    using after by (simp_all add: valid_aggregate_def same_state_def)
  then show ?thesis using leaves_same le s by blast
qed

lemma committed_batch:
  assumes st: "stable_contract co" and sl: "slot_rules co" and c: "consistent t"
    and l: "loadAggregate t document = Inr stored" and v: "valid_aggregate co source stored"
    and e: "validateAggregate co source stored = Inr before"
    and a: "apply_batch co canon (blockDocuments t) before b source allowMissing replaceAll = Inr (after, m)"
    and f: "(if effective \<noteq> source then validateAggregate co effective after else Inr after) = Inr after'"
    and p: "persist before (after'\<lparr>agDocument := bump fresh now (agDocument after')\<rparr>) m t = Inr t'"
  shows "\<exists>stored'. consistent t' \<and> loadAggregate t' document = Inr stored' \<and> valid_aggregate co effective stored' \<and>
    same_state (after\<lparr>agDocument := bump fresh now (agDocument stored)\<rparr>) stored'"
proof -
  note r = stored_revalidated [OF st c l v e] and s = batch_leaves [OF st sl c l v e a f]
  then have b: "represents t document before" "cdID (agDocument before) = document" by blast+
  let ?d = "bump fresh now (agDocument before)"
  have doc: "agDocument after' = agDocument before" and leave: "leaves before (after'\<lparr>agDocument := ?d\<rparr>) m" using s by blast+
  have fresh_ids: "j \<notin> brID ` set (tbBlocks t)" if "j \<in> set (pmUpsertOrder m)" "row_at t document j = None" for j
    using owned_ids [OF c _ _ that(2), of b] apply_batch_checked [OF a] apply_batch_orders [OF a] that(1) b(2) upsert_batch_ids [of b]
    by auto
  have "consistent t' \<and> represents t' document (after'\<lparr>agDocument := ?d\<rparr>)"
    using r by (intro persist_represents [OF p [unfolded doc] leave c b _ _ fresh_ids]) (auto simp: bump_def)
  then obtain stored' where c': "consistent t'" and l': "loadAggregate t' document = Inr stored'"
      and same: "same_state (after'\<lparr>agDocument := ?d\<rparr>) stored'" using represents_loads by blast
  have "valid_aggregate co effective (after'\<lparr>agDocument := ?d\<rparr>)" using s doc by (simp add: valid_document bump_def)
  then have "valid_aggregate co effective stored'"
    using valid_same_state [OF _ same] load_represents [OF c' l'] by (simp add: tidy_def)
  moreover have "same_state (after\<lparr>agDocument := ?d\<rparr>) stored'"
    using same_state_trans [OF same_state_document same] s by blast
  ultimately show ?thesis using c' l' r by auto
qed

lemma accepted_batch_stored:
  assumes se: "seContract se = co" and st: "stable_contract co" and sl: "slot_rules co" and c: "consistent t"
    and l: "loadAggregate t (baDocument batch) = Inr stored" and v: "valid_aggregate co source stored"
    and a: "applyBatchAfterFenceWithMetadata se fresh now t batch source allowMissing replaceAll metadata = Inr (t', res)"
  shows "\<exists>before after m stored'. validateAggregate co source stored = Inr before \<and>
    cdRevision (agDocument stored) = baExpectedRevision batch \<and>
    apply_batch co (seCanon se) (blockDocuments t) before (replace_deletes replaceAll before batch) source allowMissing replaceAll = Inr (after, m) \<and>
    consistent t' \<and> loadAggregate t' (baDocument batch) = Inr stored' \<and>
    valid_aggregate co (effective_source metadata source) stored' \<and> brRevision res = cdRevision (agDocument stored') \<and>
    (if brChanged res then same_state (after\<lparr>agDocument := bump fresh now (agDocument stored)\<rparr>) stored' else t' = t)"
proof -
  from accepted_stages [OF a l] obtain before after m changed effect after' where e: "validateAggregate co source stored = Inr before"
      and rev: "cdRevision (agDocument before) = baExpectedRevision batch"
      and ab: "apply_batch co (seCanon se) (blockDocuments t) before (replace_deletes replaceAll before batch) source allowMissing replaceAll = Inr (after, m)"
      and me: "metadata_effect metadata source = Inr effect"
      and f: "(if effective_source metadata source \<noteq> source then validateAggregate co (effective_source metadata source) after else Inr after) = Inr after'"
      and out: "if \<not> changed \<and> \<not> meChanged effect then t' = t \<and> res = unchangedResult (cdRevision (agDocument before))
        else persist before (after'\<lparr>agDocument := bump fresh now (agDocument after')\<rparr>) m t = Inr t' \<and> brRevision res = fresh \<and> brChanged res"
    unfolding se by blast
  have doc: "agDocument before = agDocument stored" using stored_revalidated [OF st c l v e] by simp
  show ?thesis
  proof (cases "\<not> changed \<and> \<not> meChanged effect")
    case True
    then show ?thesis
      using out e rev ab c l v doc metadata_effect_source(2) [OF me] by (auto simp: unchangedResult_def)
  next
    case False
    then have out: "persist before (after'\<lparr>agDocument := bump fresh now (agDocument after')\<rparr>) m t = Inr t'"
        "brRevision res = fresh" "brChanged res" using out by (auto split: if_splits)
    from committed_batch [OF st sl c l v e ab f out(1)] obtain stored' where
        s: "consistent t'" "loadAggregate t' (baDocument batch) = Inr stored'" "valid_aggregate co (effective_source metadata source) stored'"
        "same_state (after\<lparr>agDocument := bump fresh now (agDocument stored)\<rparr>) stored'" by blast
    then have "cdRevision (agDocument stored') = fresh" by (simp add: same_state_def bump_def)
    then show ?thesis using s e rev ab doc out by auto
  qed
qed

end

end
