(* ===== verification/Content_Isolation.thy ===== *)
theory Content_Isolation
  imports Content_Accepted
begin

text \<open>
  What a batch cannot touch: the rows of other documents, the revision and the other locales when it is a target
  locale batch, and anything at all when it was made for an older revision.
\<close>

section \<open>The blocks a batch names\<close>

lemma apply_batch_mutated:
  assumes "apply_batch co canon owners before b source allowMissing replaceAll = Inr (after, m)"
  shows "(k, l) \<in> mutated (pmLocaleMutations m) \<Longrightarrow> l \<in> lgLocale ` set (baGroups b) \<and> k \<in> set (batch_ids b)"
  using assms
proof (rule apply_batch_stages)
  fix inputs moved localized mutations
  let ?N = "{(k, lgLocale g) | k g. g \<in> set (baGroups b) \<and> k \<in> set (map luBlock (lgUpserts g) @ lgDeletes g)}"
  let ?I = "\<lambda>s :: locale_state. mutated (snd s) \<subseteq> ?N"
  assume k: "(k, l) \<in> mutated (pmLocaleMutations m)"
    and gr: "fold_result (apply_group co source inputs) (moved, []) (baGroups b) = Inr (localized, mutations)"
    and m: "pmLocaleMutations m = sort_key (\<lambda>m. (lmLocale m, lmBlock m)) mutations"
  have "?I (localized, mutations)"
  proof (rule fold_result_invariant [where I = ?I, OF _ _ gr])
    fix s g s' assume i: "?I s" and g: "g \<in> set (baGroups b)" and a: "apply_group co source inputs s g = Inr s'"
    have n: "(k, lgLocale g) \<in> ?N" if "k \<in> luBlock ` set (lgUpserts g) \<union> set (lgDeletes g)" for k using g that by auto
    from a obtain t where t: "fold_result (locale_delete source (lgLocale g)) s (lgDeletes g) = Inr t"
        "fold_result (locale_update co inputs (lgLocale g)) t (lgUpserts g) = Inr s'"
      by (auto simp: apply_group_def and_then_Inr)
    have it: "?I t"
      by (rule fold_result_invariant [where I = ?I, OF _ i t(1)])
        (use n in \<open>simp add: locale_delete_def mutated_def split: if_splits; force\<close>)
    show "?I s'"
      by (rule fold_result_invariant [where I = ?I, OF _ it t(2)])
        (use n in \<open>simp add: locale_update_def Let_def and_then_Inr guard_error_Inr mutated_def split: option.splits; force\<close>)
  qed (simp add: mutated_def)
  moreover have "(k, l) \<in> mutated mutations" using k m by (simp add: mutated_def)
  ultimately have "(k, l) \<in> ?N" by (simp only: snd_conv) (rule subsetD)
  then show ?thesis by (force simp: batch_ids_def)
qed

lemma apply_batch_names:
  assumes a: "apply_batch co canon owners before b source allowMissing replaceAll = Inr (after, m)" and "k \<in> affected m"
  shows "k \<in> set (batch_ids b) \<or> map_of (agBlocks before) k \<noteq> None"
proof -
  have "pmReorders m = baReorders b" using a by (rule apply_batch_stages)
  then consider "k \<in> bbID ` set (baUpserts b)" | "k \<in> roBlock ` set (baReorders b)" |
      "doomed (agBlocks before) (baDeletes b) (operated b) k"
    using assms(2) apply_batch_orders [OF a] by (auto simp: affected_def)
  then show ?thesis
  proof cases
    case 1
    then show ?thesis using upsert_batch_ids [of b] by blast
  next
    case 2
    then show ?thesis by (auto simp: batch_ids_def)
  next
    case 3
    then show ?thesis
    proof cases
      case explicit
      then show ?thesis by (simp add: batch_ids_def)
    next
      case (below b p)
      then show ?thesis by (metis weak_map_of_SomeI option.distinct(1))
    qed
  qed
qed

section \<open>Other documents\<close>

definition foreign_row :: "tables \<Rightarrow> uuid \<Rightarrow> uuid \<Rightarrow> bool" where
  "foreign_row t document k \<longleftrightarrow> (\<exists>r \<in> set (tbBlocks t). brID r = k \<and> brDocument r \<noteq> document)"

text \<open>Every row of another document stays as it is: its block, its overlays and its attachments.\<close>

definition keeps_foreign :: "uuid \<Rightarrow> tables \<Rightarrow> tables \<Rightarrow> bool" where
  "keeps_foreign document t t' \<longleftrightarrow>
     (\<forall>d. d \<noteq> document \<longrightarrow> loadContentDocument t' d = loadContentDocument t d) \<and>
     (\<forall>k. foreign_row t document k \<longrightarrow> (\<forall>d. row_at t' d k = row_at t d k) \<and> (\<forall>l. locale_at t' k l = locale_at t k l) \<and>
       attachments_at t' k = attachments_at t k)"

lemma foreign_row_at: "consistent t \<Longrightarrow> foreign_row t document k \<Longrightarrow> row_at t document k = None"
  unfolding foreign_row_def row_at_None document_rows_def consistent_def distinct_map inj_on_def by auto

lemma foreign_batch_ids:
  assumes "consistent t" and "rejectCrossDocumentIDs (blockDocuments t) document b = None" and f: "foreign_row t document k"
  shows "k \<notin> set (batch_ids b)"
  using owned_ids [OF assms(1,2), of k] foreign_row_at [OF assms(1) f] f by (auto simp: foreign_row_def)

lemma updateDocument_others:
  assumes "updateDocument d d' t = Inr t'" and "cdID d' = k" and "j \<noteq> k"
  shows "loadContentDocument t' j = loadContentDocument t j"
proof -
  let ?f = "\<lambda>x. if cdID x = cdID d' \<and> cdRevision x = cdRevision d then x\<lparr>cdRevision := cdRevision d', cdUpdatedAt := cdUpdatedAt d'\<rparr> else x"
  have t': "tbDocuments t' = map ?f (tbDocuments t)"
    using assms(1) by (auto simp: updateDocument_def Let_def split: if_splits option.splits)
  have "find (\<lambda>x. cdID x = j) (map ?f (tbDocuments t)) = map_option ?f (find (\<lambda>x. cdID x = j) (tbDocuments t))"
    by (rule find_map) simp
  moreover have "?f x = x" if "find (\<lambda>x. cdID x = j) (tbDocuments t) = Some x" for x
    using find_SomeD [OF that] assms(2,3) by auto
  ultimately show ?thesis
    unfolding loadContentDocument_def t' by (cases "find (\<lambda>x. cdID x = j) (tbDocuments t)") simp_all
qed

context placed_contract
begin

lemma committed_foreign:
  assumes st: "stable_contract co" and sl: "slot_rules co" and c: "consistent t"
    and l: "loadAggregate t document = Inr stored" and v: "valid_aggregate co source stored"
    and e: "validateAggregate co source stored = Inr before"
    and a: "apply_batch co canon (blockDocuments t) before b source allowMissing replaceAll = Inr (after, m)"
    and le: "leaves before after' m" and p: "persist before after' m t = Inr t'" and d: "cdID (agDocument after') = document"
  shows "keeps_foreign document t t'"
proof -
  from persist_frame [OF p le] obtain u where f: "written_frame after' m t u"
      and u: "updateDocument (agDocument before) (agDocument after') u = Inr t'" by blast
  note r = stored_revalidated [OF st c l v e]
  have away: "k \<notin> affected m \<and> (\<forall>l. (k, l) \<notin> mutated (pmLocaleMutations m))" if k: "foreign_row t document k" for k
  proof -
    have n: "k \<notin> set (batch_ids b)"
      using foreign_batch_ids [OF c _ k] apply_batch_checked [OF a] r by auto
    have "agrees t document before k" using r by (simp add: represents_def)
    then have "map_of (agBlocks before) k = None" using foreign_row_at [OF c k] by (simp add: agrees_def)
    then show ?thesis using n apply_batch_names [OF a] apply_batch_mutated [OF a] by blast
  qed
  have kinds: "set (pmKindChanged m) \<subseteq> affected m" using le by (auto simp: leaves_def affected_def)
  have "(\<forall>d. row_at u d k = row_at t d k) \<and> (\<forall>l. locale_at u k l = locale_at t k l) \<and> attachments_at u k = attachments_at t k"
    if "foreign_row t document k" for k
  proof -
    have "k \<notin> affected m" "k \<notin> set (pmKindChanged m)" "k \<notin> set (pmDeleteOrder m)" "k \<notin> set (pmUpsertOrder m)"
        "\<And>l. (k, l) \<notin> mutated (pmLocaleMutations m)"
      using away [OF that] kinds by (auto simp: affected_def)
    then show ?thesis using f unfolding written_frame_def keeps_def by auto
  qed
  moreover have "tbBlocks t' = tbBlocks u" "tbLocales t' = tbLocales u" "tbAttachments t' = tbAttachments u"
    using u by (auto simp: updateDocument_def Let_def split: if_splits option.splits)
  moreover have "loadContentDocument u = loadContentDocument t" using f by (simp add: written_frame_def keeps_def loadContentDocument_def fun_eq_iff)
  ultimately show ?thesis
    using updateDocument_others [OF u d] by (simp add: keeps_foreign_def row_at_def locale_at_def attachments_at_def)
qed

lemma accepted_batch_foreign:
  assumes se: "seContract se = co" and st: "stable_contract co" and sl: "slot_rules co" and c: "consistent t"
    and l: "loadAggregate t (baDocument batch) = Inr stored" and v: "valid_aggregate co source stored"
    and a: "applyBatchAfterFenceWithMetadata se fresh now t batch source allowMissing replaceAll metadata = Inr (t', res)"
  shows "keeps_foreign (baDocument batch) t t'"
proof -
  from accepted_stages [OF a l] obtain before after m changed effect after' where e: "validateAggregate co source stored = Inr before"
      and ab: "apply_batch co (seCanon se) (blockDocuments t) before (replace_deletes replaceAll before batch) source allowMissing replaceAll = Inr (after, m)"
      and f: "(if effective_source metadata source \<noteq> source then validateAggregate co (effective_source metadata source) after else Inr after) = Inr after'"
      and out: "t' = t \<or> persist before (after'\<lparr>agDocument := bump fresh now (agDocument after')\<rparr>) m t = Inr t'"
    unfolding se by (metis (no_types, lifting))
  note r = stored_revalidated [OF st c l v e] and s = batch_leaves [OF st sl c l v e ab f]
  from out show ?thesis
  proof
    assume "t' = t"
    then show ?thesis by (simp add: keeps_foreign_def)
  next
    assume p: "persist before (after'\<lparr>agDocument := bump fresh now (agDocument after')\<rparr>) m t = Inr t'"
    have "leaves before (after'\<lparr>agDocument := bump fresh now (agDocument after')\<rparr>) m" "cdID (agDocument after') = baDocument batch"
      using s r by auto
    then show ?thesis by (intro committed_foreign [OF st sl c l v e ab _ p]) (simp_all add: bump_def)
  qed
qed

text \<open>After a batch has changed the document, a batch for any other revision than the new one is refused.\<close>

lemma changed_refuses:
  assumes se: "seContract se = co" and st: "stable_contract co" and sl: "slot_rules co" and c: "consistent t"
    and l: "loadAggregate t (baDocument batch) = Inr stored" and v: "valid_aggregate co source stored"
    and a: "applyBatchAfterFenceWithMetadata se fresh now t batch source allowMissing replaceAll metadata = Inr (t', res)"
    and o: "baDocument other = baDocument batch" "baExpectedRevision other \<noteq> brRevision res"
  shows "applyBatchAfterFenceWithMetadata se fresh' now' t' other (effective_source metadata source) allowMissing' replaceAll' metadata' =
    Inl (ErrStaleRevision (brRevision res))"
proof -
  from accepted_batch_stored [OF se st sl c l v a] obtain stored' where
      l': "loadAggregate t' (baDocument other) = Inr stored'" and v': "valid_aggregate co (effective_source metadata source) stored'"
      and r: "brRevision res = cdRevision (agDocument stored')" unfolding o(1) by blast
  from valid_validates [OF v'] obtain before where b: "validateAggregate co (effective_source metadata source) stored' = Inr before" by blast
  have "agDocument before = agDocument stored'" using revalidated [OF st v' b] by (simp add: same_state_def)
  then show ?thesis using l' b o(2) r by (simp add: applyBatchAfterFenceWithMetadata_def se)
qed

end

section \<open>Target locales\<close>

text \<open>The documents, the blocks, the attachments and the overlays of every other locale stay.\<close>

definition keeps_other_locales :: "string \<Rightarrow> tables \<Rightarrow> tables \<Rightarrow> bool" where
  "keeps_other_locales target t t' \<longleftrightarrow> tbDocuments t' = tbDocuments t \<and> (\<forall>d k. row_at t' d k = row_at t d k) \<and>
     (\<forall>k l. l \<noteq> target \<longrightarrow> locale_at t' k l = locale_at t k l) \<and> (\<forall>k. attachments_at t' k = attachments_at t k)"

lemma persistTargetLocale_keeps:
  assumes a: "apply_batch co canon owners before b source allowMissing replaceAll = Inr (after, m)" and lo: "locale_only l b"
    and p: "persistTargetLocale after m t = Inr t'"
  shows "keeps_other_locales l t t'"
proof -
  have "persistLocaleMutations after (pmLocaleMutations m) t = Inr t'"
    using p by (auto simp: persistTargetLocale_def guard_error_Inr and_then_Inr)
  moreover have "(k, l') \<notin> mutated (pmLocaleMutations m)" if "l' \<noteq> l" for k l'
    using apply_batch_mutated [OF a] lo that by (force simp: locale_only_def list_all_iff)
  ultimately show ?thesis
    using persistLocaleMutations_keeps by (simp add: keeps_other_locales_def keeps_def)
qed

lemma target_batch_keeps:
  assumes "ApplyTargetLocaleBatchWithMetadata se t batch target fence metadata = Inr (t', res)"
  shows "keeps_other_locales target t t' \<and> brRevision res = baExpectedRevision batch \<and> \<not> brSourceChanged res \<and>
    set (brChangedLocales res) \<subseteq> {target} \<and> fence (baDocument batch) \<noteq> Inr target"
proof -
  from assms have lo: "locale_only target batch"
    by (auto simp: ApplyTargetLocaleBatchWithMetadata_def Let_def guard_error_Inr first_error_None locale_only_def list_ex_iff list_all_iff)
  show ?thesis
    using assms persistTargetLocale_keeps [OF _ lo]
    by (auto simp: ApplyTargetLocaleBatchWithMetadata_def Let_def guard_error_Inr first_error_None through_fence_def and_then_Inr
        unchangedResult_def keeps_other_locales_def split: if_splits)
qed

end
