(* ===== verification/Content_Hot.thy ===== *)
theory Content_Hot
  imports Content_Isolation
begin

text \<open>
  The PostgreSQL path of batches that only move blocks (\<open>hot_reorder.go\<close>, \<open>affected_reorder.go\<close>): one statement
  checks the batch against the rows, writes them and returns the rows around the moved blocks, on which the
  code then runs the checks of the contract. An error of these checks rolls the transaction back. The order of
  the returned rows is left out: they go into maps, and file references are compared in the order of their paths.
\<close>

section \<open>The blocks around the moved ones\<close>

definition isReorderOnlyBatch :: "Batch \<Rightarrow> bool" where
  "isReorderOnlyBatch b \<longleftrightarrow> baReorders b \<noteq> [] \<and> baUpserts b = [] \<and> baDeletes b = [] \<and> baGroups b = []"

text \<open>The keys \<open>slot NUL parent\<close> of the code are pairs here: neither a UUID nor \<open>root\<close> contains a NUL.\<close>

definition affectedSiblingContainers :: "(uuid \<times> FullBlock) list \<Rightarrow> Reorder list \<Rightarrow> sibling list" where
  "affectedSiblingContainers current reorders =
     rev (remdups (rev (concat (map (\<lambda>r.
       [sibling_key (block_at current (roBlock r)), (roParent r, trim_space (roSlot r))]) reorders))))"

text \<open>The walk of the inner loop; the first argument is how many more depths the limit allows.\<close>

fun ancestry_walk :: "nat \<Rightarrow> (uuid \<times> FullBlock) list \<Rightarrow> uuid list \<Rightarrow> uuid \<Rightarrow> uuid list outcome" where
  "ancestry_walk 0 blocks path k = Inl (ErrInvalidMutation ''document exceeds Block depth'')"
| "ancestry_walk (Suc n) blocks path k =
     (if k \<in> set path then Inl (ErrInvalidMutation ''Block parent cycle'')
      else (case map_of blocks k of
          None \<Rightarrow> Inl (ErrInvalidMutation ''affected Block does not exist'')
        | Some b \<Rightarrow>
            (case bbParent b of
               None \<Rightarrow> Inr (k # path)
             | Some p \<Rightarrow> ancestry_walk n blocks (k # path) p)))"

definition affectedAncestryIDs :: "(uuid \<times> FullBlock) list \<Rightarrow> Reorder list \<Rightarrow> int \<Rightarrow> uuid list outcome" where
  "affectedAncestryIDs blocks reorders maxDepth =
     and_then (fold_result (\<lambda>seen r. and_then (ancestry_walk (nat maxDepth) blocks [] (roBlock r)) (\<lambda>path. Inr (path @ seen)))
        [] reorders)
       (\<lambda>seen. Inr (sort (remdups seen)))"

definition validateAffectedParents ::
    "Contract \<Rightarrow> string \<Rightarrow> (uuid \<times> FullBlock) list \<Rightarrow> uuid list \<Rightarrow> block_error option" where
  "validateAffectedParents co profile blocks =
     check_all (\<lambda>k. let b = block_at blocks k in
       case bbParent b of
         None \<Rightarrow> invalid_if (coValidateParent co profile None b \<noteq> None) ''invalid parent for Block''
       | Some p \<Rightarrow>
           (case map_of blocks p of
              None \<Rightarrow> Some (ErrInvalidMutation ''Block parent does not exist'')
            | Some parent \<Rightarrow> invalid_if (coValidateParent co profile (Some parent) b \<noteq> None) ''invalid parent for Block''))"

definition validateAffectedSiblingDensity :: "(uuid \<times> FullBlock) list \<Rightarrow> sibling list \<Rightarrow> block_error option" where
  "validateAffectedSiblingDensity blocks =
     check_all (\<lambda>c. invalid_if (\<not> dense (map bbPosition (filter (\<lambda>b. sibling_key b = c) (map snd blocks))))
       ''affected sibling positions must be dense from zero'')"

section \<open>The statement\<close>

record hotReorderResultRow =
  hrStatus :: string
  hrProfile :: string
  hrRevision :: uuid
  hrTargets :: "blockRow list"
  hrSiblings :: "blockRow list"
  hrAncestors :: "blockRow list"
  hrLocales :: "blockLocaleRow list"
  hrAttachments :: "blockAttachmentRow list"

text \<open>A join with \<open>content_block\<close> on its primary key.\<close>

definition block_row :: "tables \<Rightarrow> uuid \<Rightarrow> blockRow option" where
  "block_row t k = find (\<lambda>r. brID r = k) (tbBlocks t)"

definition displaced :: "Reorder \<Rightarrow> blockRow \<Rightarrow> bool" where
  "displaced m r \<longleftrightarrow> brParent r \<noteq> roParent m \<or> brSlot r \<noteq> roSlot m \<or> brPosition r \<noteq> roPosition m"

text \<open>The counts of \<open>assessment\<close>, as whether there is a row to count, and the \<open>CASE\<close> over them.\<close>

definition missing_row :: "tables \<Rightarrow> uuid list \<Rightarrow> bool" where
  "missing_row t ids \<longleftrightarrow> list_ex (\<lambda>k. block_row t k = None) ids"

definition foreign_rows :: "tables \<Rightarrow> uuid \<Rightarrow> uuid list \<Rightarrow> bool" where
  "foreign_rows t document ids \<longleftrightarrow>
     list_ex (\<lambda>k. case block_row t k of None \<Rightarrow> False | Some r \<Rightarrow> brDocument r \<noteq> document) ids"

definition moves_some :: "tables \<Rightarrow> Reorder list \<Rightarrow> bool" where
  "moves_some t reorders \<longleftrightarrow>
     list_ex (\<lambda>m. case block_row t (roBlock m) of None \<Rightarrow> False | Some r \<Rightarrow> displaced m r) reorders"

definition new_parents :: "Reorder list \<Rightarrow> uuid list" where
  "new_parents reorders = concat (map (\<lambda>m. case roParent m of None \<Rightarrow> [] | Some p \<Rightarrow> [p]) reorders)"

definition reorder_status :: "tables \<Rightarrow> Batch \<Rightarrow> string" where
  "reorder_status t b =
     (let targets = map roBlock (baReorders b); parents = new_parents (baReorders b) in
      case find (\<lambda>d. cdID d = baDocument b) (tbDocuments t) of
        None \<Rightarrow> ''not_found''
      | Some d \<Rightarrow>
          if cdRevision d \<noteq> baExpectedRevision b then ''stale''
          else if foreign_rows t (baDocument b) (targets @ parents) then ''cross_document''
          else if missing_row t targets then ''missing_target''
          else if missing_row t parents then ''missing_parent''
          else if \<not> moves_some t (baReorders b) then ''noop''
          else ''applied'')"

text \<open>The recursive \<open>ancestry\<close> from one new parent, along the parents that the batch gives.\<close>

function ancestry_rows :: "blockRow list \<Rightarrow> Reorder list \<Rightarrow> uuid list \<Rightarrow> uuid \<Rightarrow> blockRow list" where
  "ancestry_rows rows reorders visited k =
     (case find (\<lambda>r. brID r = k) rows of
        None \<Rightarrow> []
      | Some r \<Rightarrow>
          if k \<in> set visited then []
          else r # (case (case find (\<lambda>m. roBlock m = k) reorders of None \<Rightarrow> brParent r | Some m \<Rightarrow> roParent m) of
              None \<Rightarrow> []
            | Some p \<Rightarrow> ancestry_rows rows reorders (k # visited) p))"
  by pat_completeness auto
termination
proof (relation "measure (\<lambda>(rows, reorders, visited, k). card (brID ` set rows - set visited))", goal_cases)
  case (2 rows reorders visited k r p)
  then have "k \<in> brID ` set rows - set visited" by (auto simp: find_Some_iff)
  then have "brID ` set rows - set (k # visited) \<subset> brID ` set rows - set visited" by auto
  then show ?case by (simp add: psubset_card_mono)
qed simp

declare ancestry_rows.simps [simp del]

definition reorder_siblings :: "tables \<Rightarrow> uuid \<Rightarrow> Reorder list \<Rightarrow> blockRow list" where
  "reorder_siblings t document reorders =
     (let containers = concat (map (\<lambda>m. (roParent m, roSlot m) #
            (case block_row t (roBlock m) of None \<Rightarrow> [] | Some r \<Rightarrow>
               if brDocument r = document then [(brParent r, brSlot r)] else [])) reorders)
      in filter (\<lambda>r. brDocument r = document \<and> (brParent r, brSlot r) \<in> set containers \<and> brID r \<notin> roBlock ` set reorders)
           (tbBlocks t))"

definition hotReorderMutationSQL :: "uuid \<Rightarrow> int \<Rightarrow> tables \<Rightarrow> Batch \<Rightarrow> string \<Rightarrow> tables \<times> hotReorderResultRow" where
  "hotReorderMutationSQL fresh now t b source =
     (let document = baDocument b; reorders = baReorders b;
          status = reorder_status t b; applied = (status = ''applied'');
          targets = concat (map (\<lambda>m. case block_row t (roBlock m) of None \<Rightarrow> [] | Some r \<Rightarrow> [r]) reorders);
          ancestry = concat (map (ancestry_rows (filter (\<lambda>r. brDocument r = document) (tbBlocks t)) reorders []) (new_parents reorders));
          ids = map brID (targets @ ancestry);
          d = find (\<lambda>d. cdID d = document) (tbDocuments t)
      in (if applied then t\<lparr>tbDocuments := map (\<lambda>d. if cdID d = document then d\<lparr>cdRevision := fresh, cdUpdatedAt := now\<rparr> else d) (tbDocuments t),
            tbBlocks := reorder_rows document (filter (\<lambda>m. case block_row t (roBlock m) of None \<Rightarrow> False | Some r \<Rightarrow> displaced m r) reorders)
              (tbBlocks t)\<rparr> else t,
          \<lparr>hrStatus = status, hrProfile = (case d of None \<Rightarrow> '''' | Some d \<Rightarrow> cdProfile d),
           hrRevision = (if applied then fresh else case d of None \<Rightarrow> 0 | Some d \<Rightarrow> cdRevision d),
           hrTargets = targets, hrSiblings = reorder_siblings t document reorders,
           hrAncestors = filter (\<lambda>r. brID r \<notin> roBlock ` set reorders) ancestry,
           hrLocales = filter (\<lambda>r. olLocale r = source \<and> olBlock r \<in> set ids) (tbLocales t),
           hrAttachments = filter (\<lambda>r. arBlock r \<in> set ids) (tbAttachments t)\<rparr>))"

section \<open>The checks on the returned rows\<close>

definition baseBlockFromHotReorder :: "blockRow \<Rightarrow> FullBlock outcome" where
  "baseBlockFromHotReorder r =
     and_then (as_invalid ''stored Block shared data'' (canonicalObject (brShared r))) (\<lambda>shared. Inr (block_of_row r shared))"

definition hot_blocks :: "blockRow list \<Rightarrow> (uuid \<times> FullBlock) list outcome" where
  "hot_blocks rows = fold_result (\<lambda>m r. and_then (baseBlockFromHotReorder r) (\<lambda>b. Inr (AList.update (bbID b) b m))) [] rows"

definition move_block :: "Reorder \<Rightarrow> (uuid \<times> FullBlock) list \<Rightarrow> (uuid \<times> FullBlock) list" where
  "move_block m blocks = AList.update (roBlock m)
     ((block_at blocks (roBlock m))\<lparr>bbParent := roParent m, bbSlot := roSlot m, bbPosition := roPosition m\<rparr>) blocks"

definition hot_locales :: "blockLocaleRow list \<Rightarrow> (uuid \<times> raw) list outcome" where
  "hot_locales rows = fold_result (\<lambda>m r. and_then (as_invalid ''stored Block locale data'' (canonicalObject (olData r)))
     (\<lambda>d. Inr (AList.update (olBlock r) d m))) [] rows"

definition normalize_affected ::
    "Contract \<Rightarrow> string \<Rightarrow> (uuid \<times> raw) list \<Rightarrow> (uuid \<times> BlockFileReference list) list \<Rightarrow> (uuid \<times> FullBlock) list \<Rightarrow> uuid \<Rightarrow>
      (uuid \<times> FullBlock) list outcome" where
  "normalize_affected co profile locales attachments blocks k =
     (case map_of locales k of
        None \<Rightarrow> Inl (ErrInvalidMutation ''Block has no source locale overlay'')
      | Some localized \<Rightarrow>
          and_then (normalizeBlock co profile ((block_at blocks k)\<lparr>flLocalized := localized\<rparr>))
            (\<lambda>n. guard_error (invalid_if (\<not> sameFileReferences (flFiles n)
                 (case map_of attachments k of None \<Rightarrow> [] | Some fs \<Rightarrow> fs)) ''stored File references differ from Block payload'')
               (Inr (AList.update k n blocks))))"

definition validateHotReorderResult :: "Contract \<Rightarrow> hotReorderResultRow \<Rightarrow> Reorder list \<Rightarrow> unit outcome" where
  "validateHotReorderResult co row reorders =
     and_then (as_invalid ''validate document profile'' (coLimits co (hrProfile row))) (\<lambda>lim.
     and_then (hot_blocks (hrTargets row @ hrSiblings row @ hrAncestors row)) (\<lambda>context.
     and_then (hot_blocks (hrTargets row)) (\<lambda>requested.
     let containers = affectedSiblingContainers requested reorders; moved = fold move_block reorders context in
     and_then (affectedAncestryIDs moved reorders (limMaxDepth lim)) (\<lambda>ids.
     and_then (hot_locales (hrLocales row)) (\<lambda>locales.
     and_then (persisted_references (hrAttachments row)) (\<lambda>attachments.
     and_then (fold_result (normalize_affected co (hrProfile row) locales attachments) moved ids) (\<lambda>blocks.
     guard_error (validateAffectedParents co (hrProfile row) blocks ids)
     (guard_error (validateAffectedSiblingDensity blocks containers) (Inr ())))))))))"

definition applyReorderCTEPostgres ::
    "store_env \<Rightarrow> uuid \<Rightarrow> int \<Rightarrow> tables \<Rightarrow> Batch \<Rightarrow> string \<Rightarrow> (tables \<times> BatchResult) outcome" where
  "applyReorderCTEPostgres se fresh now t b source =
     guard_error (validateOperationIDs b)
     (case hotReorderMutationSQL fresh now t b source of (t', row) \<Rightarrow>
      let status = hrStatus row in
      if status = ''not_found'' then Inl ErrDocumentNotFound
      else if status = ''stale'' then Inl (ErrStaleRevision (hrRevision row))
      else if status = ''cross_document'' then Inl ErrCrossDocument
      else if status = ''missing_target'' then Inl (ErrInvalidMutation ''reorder target does not exist'')
      else if status = ''missing_parent'' then Inl (ErrInvalidMutation ''reorder parent does not exist'')
      else if status \<noteq> ''noop'' \<and> status \<noteq> ''applied'' then Inl (ErrInvalidMutation ''unexpected reorder status'')
      else and_then (validateHotReorderResult (seContract se) row (baReorders b)) (\<lambda>_.
        if status = ''noop'' then Inr (t', unchangedResult (hrRevision row))
        else Inr (t', \<lparr>brRevision = hrRevision row, brChanged = True, brContentChanged = True, brMetadataChanged = False,
          brSourceChanged = True, brChangedLocales = []\<rparr>)))"

definition applyReorderBatchPostgres ::
    "store_env \<Rightarrow> uuid \<Rightarrow> int \<Rightarrow> tables \<Rightarrow> Batch \<Rightarrow> string \<Rightarrow> (tables \<times> BatchResult) outcome" where
  "applyReorderBatchPostgres = applyReorderCTEPostgres"

end
