(* ===== verification/Content_Hot_Locale.thy ===== *)
theory Content_Hot_Locale
  imports Content_Hot
begin

text \<open>
  The PostgreSQL path of batches that only write overlays (\<open>hot_locale.go\<close>): the overlays are normalized against
  the contract, then one statement checks and writes them. Parameter: \<open>same\<close> is the equality of \<open>jsonb\<close> values.
\<close>

record hotLocaleInput =
  hlBlock :: uuid
  hlLocale :: string
  hlExpectedKind :: string
  hlDelete :: bool
  hlData :: raw

record hotLocaleTarget =
  htBlock :: uuid
  htLocale :: string
  htDelete :: bool
  htData :: raw
  htChanged :: bool

record hotLocaleResultRow =
  hlrStatus :: string
  hlrRevision :: uuid
  hlrTargets :: "hotLocaleTarget list"

definition isLocaleOnlyBatch :: "Batch \<Rightarrow> bool" where
  "isLocaleOnlyBatch b \<longleftrightarrow> baProfile b \<noteq> '''' \<and> baGroups b \<noteq> [] \<and> baUpserts b = [] \<and> baDeletes b = [] \<and> baReorders b = []"

section \<open>Inputs\<close>

definition hot_update :: "store_env \<Rightarrow> string \<Rightarrow> string \<Rightarrow> hotLocaleInput list \<Rightarrow> LocaleBlockUpdate \<Rightarrow> hotLocaleInput list outcome" where
  "hot_update se profile l acc u =
     guard_error (invalid_if (luExpectedKind u = '''') ''locale expected kind is required'')
     (and_then (as_invalid ''locale payload'' (coValidateLocale (seContract se) profile (luExpectedKind u) (luData u))) (\<lambda>d.
      and_then (as_invalid ''inline line breaks'' (seCanon se d)) (\<lambda>d.
      Inr (acc @ [\<lparr>hlBlock = luBlock u, hlLocale = l, hlExpectedKind = luExpectedKind u, hlDelete = False, hlData = d\<rparr>]))))"

definition hot_delete :: "string \<Rightarrow> string \<Rightarrow> hotLocaleInput list \<Rightarrow> uuid \<Rightarrow> hotLocaleInput list outcome" where
  "hot_delete source l acc k =
     guard_error (invalid_if (l = source) ''source locale Block overlay cannot be deleted'')
       (Inr (acc @ [\<lparr>hlBlock = k, hlLocale = l, hlExpectedKind = '''', hlDelete = True, hlData = RawBlank ''''\<rparr>]))"

definition hot_group :: "store_env \<Rightarrow> string \<Rightarrow> string \<Rightarrow> hotLocaleInput list \<Rightarrow> LocaleMutationGroup \<Rightarrow> hotLocaleInput list outcome" where
  "hot_group se profile source acc g =
     and_then (fold_result (hot_update se profile (lgLocale g)) acc (lgUpserts g))
       (\<lambda>acc. fold_result (hot_delete source (lgLocale g)) acc (lgDeletes g))"

definition normalizeHotLocaleInputs :: "store_env \<Rightarrow> Batch \<Rightarrow> string \<Rightarrow> hotLocaleInput list outcome" where
  "normalizeHotLocaleInputs se b source =
     guard_error (validateOperationIDs b)
     (and_then (fold_result (hot_group se (baProfile b) source) [] (baGroups b)) (\<lambda>inputs.
      guard_error (invalid_if (inputs = []) ''empty locale mutation batch'') (Inr inputs)))"

text \<open>\<open>json.Marshal\<close> refuses a raw message that is not one JSON value; a missing value is refused by the table.\<close>

definition encodable :: "raw \<Rightarrow> bool" where
  "encodable d \<longleftrightarrow> (case d of RawJSON j \<Rightarrow> True | _ \<Rightarrow> False)"

section \<open>The statement\<close>

definition overlay_changes :: "(raw \<Rightarrow> raw \<Rightarrow> bool) \<Rightarrow> tables \<Rightarrow> hotLocaleInput \<Rightarrow> bool" where
  "overlay_changes same t i \<longleftrightarrow>
     (case find (\<lambda>r. locale_key r = (hlBlock i, hlLocale i)) (tbLocales t) of
        None \<Rightarrow> \<not> hlDelete i
      | Some r \<Rightarrow> hlDelete i \<or> \<not> same (olData r) (hlData i))"

definition kind_differs :: "tables \<Rightarrow> hotLocaleInput \<Rightarrow> bool" where
  "kind_differs t i \<longleftrightarrow> \<not> hlDelete i \<and>
     (case block_row t (hlBlock i) of None \<Rightarrow> False | Some r \<Rightarrow> brKind r \<noteq> hlExpectedKind i)"

definition owned_block :: "tables \<Rightarrow> uuid \<Rightarrow> uuid \<Rightarrow> bool" where
  "owned_block t document k \<longleftrightarrow> (case block_row t k of None \<Rightarrow> False | Some r \<Rightarrow> brDocument r = document)"

definition locale_status :: "(raw \<Rightarrow> raw \<Rightarrow> bool) \<Rightarrow> tables \<Rightarrow> Batch \<Rightarrow> hotLocaleInput list \<Rightarrow> string" where
  "locale_status same t b inputs =
     (case find (\<lambda>d. cdID d = baDocument b) (tbDocuments t) of
        None \<Rightarrow> ''not_found''
      | Some d \<Rightarrow>
          if cdRevision d \<noteq> baExpectedRevision b then ''stale''
          else if cdProfile d \<noteq> baProfile b then ''invalid_profile''
          else if foreign_rows t (baDocument b) (map hlBlock inputs) then ''cross_document''
          else if missing_row t (map hlBlock inputs) then ''missing_block''
          else if list_ex (kind_differs t) inputs then ''invalid_kind''
          else if \<not> list_ex (\<lambda>i. owned_block t (baDocument b) (hlBlock i) \<and> overlay_changes same t i) inputs then ''noop''
          else ''applied'')"

text \<open>A statement that inserts one key twice is refused; the inputs of a batch have different keys.\<close>

definition hotLocaleMutationSQL ::
    "(raw \<Rightarrow> raw \<Rightarrow> bool) \<Rightarrow> uuid \<Rightarrow> int \<Rightarrow> tables \<Rightarrow> Batch \<Rightarrow> hotLocaleInput list \<Rightarrow> tables \<times> hotLocaleResultRow" where
  "hotLocaleMutationSQL same fresh now t b inputs =
     (let document = baDocument b; status = locale_status same t b inputs; applied = (status = ''applied'');
          owned = (\<lambda>i. owned_block t document (hlBlock i));
          deleted = filter (\<lambda>i. hlDelete i \<and> owned i) inputs;
          upserted = filter (\<lambda>i. \<not> hlDelete i \<and> owned i \<and> overlay_changes same t i) inputs
      in (if applied then t\<lparr>tbDocuments := map (\<lambda>d. if cdID d = document then d\<lparr>cdRevision := fresh, cdUpdatedAt := now\<rparr> else d) (tbDocuments t),
            tbLocales := foldl put_locale_row
              (filter (\<lambda>r. locale_key r \<notin> (\<lambda>i. (hlBlock i, hlLocale i)) ` set deleted) (tbLocales t))
              (map (\<lambda>i. \<lparr>olBlock = hlBlock i, olLocale = hlLocale i, olData = hlData i\<rparr>) upserted)\<rparr>
          else t,
          \<lparr>hlrStatus = status,
           hlrRevision = (if applied then fresh else case find (\<lambda>d. cdID d = document) (tbDocuments t) of None \<Rightarrow> 0 | Some d \<Rightarrow> cdRevision d),
           hlrTargets = map (\<lambda>i. \<lparr>htBlock = hlBlock i, htLocale = hlLocale i, htDelete = hlDelete i, htData = hlData i,
             htChanged = (owned i \<and> overlay_changes same t i)\<rparr>) (sort_key (\<lambda>i. (hlLocale i, hlBlock i)) inputs)\<rparr>))"

section \<open>The result\<close>

definition changedHotLocales :: "hotLocaleTarget list \<Rightarrow> string list" where
  "changedHotLocales targets = sort (remdups (map htLocale (filter htChanged targets)))"

text \<open>\<open>sort.SearchStrings\<close> is the first index that is not below.\<close>

definition containsLocale :: "string list \<Rightarrow> string \<Rightarrow> bool" where
  "containsLocale locales l \<longleftrightarrow> (let i = length (takeWhile (\<lambda>x. x < l) locales) in i < length locales \<and> locales ! i = l)"

definition applyLocaleBatchPostgres ::
    "(raw \<Rightarrow> raw \<Rightarrow> bool) \<Rightarrow> store_env \<Rightarrow> uuid \<Rightarrow> int \<Rightarrow> tables \<Rightarrow> Batch \<Rightarrow> string \<Rightarrow> (tables \<times> BatchResult) outcome" where
  "applyLocaleBatchPostgres same se fresh now t b source =
     and_then (normalizeHotLocaleInputs se b source) (\<lambda>inputs.
     if list_ex (\<lambda>i. \<not> hlDelete i \<and> \<not> encodable (hlData i)) inputs then Inl (Fault ''encode locale mutation'')
     else (case hotLocaleMutationSQL same fresh now t b inputs of (t', row) \<Rightarrow>
       let status = hlrStatus row in
       if status = ''not_found'' then Inl ErrDocumentNotFound
       else if status = ''stale'' then Inl (ErrStaleRevision (hlrRevision row))
       else if status = ''cross_document'' then Inl ErrCrossDocument
       else if status = ''missing_block'' then Inl (ErrInvalidMutation ''locale mutation Block does not exist'')
       else if status = ''invalid_profile'' then Inl (ErrInvalidMutation ''mutation profile does not match document'')
       else if status = ''invalid_kind'' then Inl (ErrInvalidMutation ''locale payload kind does not match stored Block'')
       else if status \<noteq> ''noop'' \<and> status \<noteq> ''applied'' then Inl (ErrInvalidMutation ''unexpected locale mutation status'')
       else if status = ''noop'' then Inr (t', unchangedResult (hlrRevision row))
       else (let changed = changedHotLocales (hlrTargets row) in
         Inr (t', \<lparr>brRevision = hlrRevision row, brChanged = True, brContentChanged = True, brMetadataChanged = False,
           brSourceChanged = containsLocale changed source, brChangedLocales = changed\<rparr>))))"

end
