(* ===== verification/Content_Hot_Shared.thy ===== *)
theory Content_Hot_Shared
  imports Content_Hot_Locale
begin

text \<open>
  The PostgreSQL path of batches that only change the shared data of existing blocks (\<open>hot_shared.go\<close>,
  \<open>affected_shared.go\<close>), and \<open>Store.ApplyBatch\<close>, which chooses between this path, those of reorders and overlays,
  and the generic one. A batch that moves, creates or retypes a block is not applicable here. Locks are left out;
  deleting an attachment deletes the criteria of its downloads.
\<close>

definition isSharedPresentationBatch :: "Batch \<Rightarrow> bool" where
  "isSharedPresentationBatch b \<longleftrightarrow> baProfile b \<noteq> '''' \<and> baUpserts b \<noteq> [] \<and> length (baReferences b) = length (baUpserts b) \<and>
     baDeletes b = [] \<and> baReorders b = [] \<and> baGroups b = []"

section \<open>Inputs\<close>

definition references_at :: "(uuid \<times> BlockFileReference list) list \<Rightarrow> uuid \<Rightarrow> BlockFileReference list" where
  "references_at m k = (case map_of m k of None \<Rightarrow> [] | Some fs \<Rightarrow> fs)"

text \<open>\<open>hotSharedAttachment\<close> as a row of \<open>input_attachments\<close>: a zero file and an empty kind are null.\<close>

definition hot_attachment :: "uuid \<Rightarrow> BlockFileReference \<Rightarrow> blockAttachmentRow" where
  "hot_attachment k r = \<lparr>arBlock = k, arPath = refPath r, arSelector = (if refMissing r then ''missing'' else ''active''),
     arFile = (if refFile r = 0 then None else Some (refFile r)),
     arMissing = (if refMediaKind r = '''' then None else Some (refMediaKind r)), arAccess = ''disabled''\<rparr>"

definition input_attachments :: "Batch \<Rightarrow> blockAttachmentRow list" where
  "input_attachments b = concat (map (\<lambda>u. map (hot_attachment (bbID u)) (references_at (baReferences b) (bbID u))) (baUpserts b))"

definition active_inputs :: "Batch \<Rightarrow> uuid list" where
  "active_inputs b = concat (map (\<lambda>r. case arFile r of Some f \<Rightarrow> if arSelector r = ''active'' then [f] else [] | None \<Rightarrow> []) (input_attachments b))"

section \<open>The statement\<close>

record hotSharedResultRow =
  hsStatus :: string
  hsProfile :: string
  hsRevision :: uuid
  hsTargets :: "blockRow list"
  hsLocales :: "blockLocaleRow list"
  hsAttachments :: "blockAttachmentRow list"
  hsFiles :: "File list"

definition shared_row :: "tables \<Rightarrow> BaseBlock \<Rightarrow> blockRow list" where
  "shared_row t u = (case block_row t (bbID u) of None \<Rightarrow> [] | Some r \<Rightarrow> [r])"

definition has_attachment :: "blockAttachmentRow list \<Rightarrow> blockAttachmentRow \<Rightarrow> bool" where
  "has_attachment rows r \<longleftrightarrow> list_ex (\<lambda>x. attachment_key x = attachment_key r \<and> sameBlockAttachmentSelector x r) rows"

definition shared_changes :: "(raw \<Rightarrow> raw \<Rightarrow> bool) \<Rightarrow> tables \<Rightarrow> blockAttachmentRow list \<Rightarrow> BaseBlock \<Rightarrow> bool" where
  "shared_changes same t inputs u \<longleftrightarrow>
     (case block_row t (bbID u) of
        None \<Rightarrow> False
      | Some r \<Rightarrow> \<not> same (brShared r) (bbShared u) \<or>
          list_ex (\<lambda>x. arBlock x = bbID u \<and> \<not> has_attachment (tbAttachments t) x) inputs \<or>
          list_ex (\<lambda>x. arBlock x = bbID u \<and> \<not> has_attachment inputs x) (tbAttachments t))"

definition restructures :: "tables \<Rightarrow> BaseBlock \<Rightarrow> bool" where
  "restructures t u \<longleftrightarrow>
     (case block_row t (bbID u) of
        None \<Rightarrow> False
      | Some r \<Rightarrow> brParent r \<noteq> bbParent u \<or> brSlot r \<noteq> bbSlot u \<or> brPosition r \<noteq> bbPosition u \<or> brKind r \<noteq> bbKind u)"

definition shared_status :: "(raw \<Rightarrow> raw \<Rightarrow> bool) \<Rightarrow> tables \<Rightarrow> Batch \<Rightarrow> string" where
  "shared_status same t b =
     (let ids = map bbID (baUpserts b); inputs = input_attachments b; files = active_inputs b in
      case find (\<lambda>d. cdID d = baDocument b) (tbDocuments t) of
        None \<Rightarrow> ''not_found''
      | Some d \<Rightarrow>
          if cdRevision d \<noteq> baExpectedRevision b then ''stale''
          else if cdProfile d \<noteq> baProfile b then ''invalid_profile''
          else if foreign_rows t (baDocument b) ids then ''cross_document''
          else if missing_row t ids then ''missing_target''
          else if list_ex (restructures t) (baUpserts b) then ''structural_change''
          else if list_ex (\<lambda>r. arSelector r = ''missing'') inputs then ''missing_selector''
          else if list_ex (\<lambda>f. f \<notin> fileID ` set (tbFiles t)) files then ''missing_file''
          else if list_ex (\<lambda>f. fileID f \<in> set files \<and> fileDeleteRequested f) (tbFiles t) then ''pending_file''
          else if \<not> list_ex (shared_changes same t inputs) (baUpserts b) then ''noop''
          else ''applied'')"

text \<open>\<open>INSERT \<dots> ON CONFLICT (block_id, reference_path) DO UPDATE\<close>: the access stays if the selector does.\<close>

definition put_attachment :: "blockAttachmentRow list \<Rightarrow> blockAttachmentRow \<Rightarrow> blockAttachmentRow list" where
  "put_attachment rows r =
     (if attachment_key r \<in> attachment_key ` set rows
      then map (\<lambda>x. if attachment_key x = attachment_key r then r\<lparr>arAccess := (if sameBlockAttachmentSelector x r then arAccess x else ''disabled'')\<rparr> else x) rows
      else rows @ [r])"

definition changed_inputs :: "(raw \<Rightarrow> raw \<Rightarrow> bool) \<Rightarrow> tables \<Rightarrow> Batch \<Rightarrow> blockAttachmentRow list" where
  "changed_inputs same t b =
     filter (\<lambda>r. arBlock r \<in> bbID ` set (filter (shared_changes same t (input_attachments b)) (baUpserts b))) (input_attachments b)"

definition write_shared :: "(raw \<Rightarrow> raw \<Rightarrow> bool) \<Rightarrow> uuid \<Rightarrow> int \<Rightarrow> tables \<Rightarrow> Batch \<Rightarrow> tables" where
  "write_shared same fresh now t b =
     (let document = baDocument b; inputs = input_attachments b;
          changed = filter (shared_changes same t inputs) (baUpserts b); ids = bbID ` set changed;
          desired = changed_inputs same t b;
          gone = (\<lambda>x. arBlock x \<in> ids \<and> attachment_key x \<notin> attachment_key ` set inputs);
          reset = (\<lambda>key. list_ex (\<lambda>x. attachment_key x = key \<and> (gone x \<or>
            list_ex (\<lambda>r. attachment_key r = key \<and> \<not> sameBlockAttachmentSelector x r) desired)) (tbAttachments t))
      in t\<lparr>tbDocuments := map (\<lambda>d. if cdID d = document then d\<lparr>cdRevision := fresh, cdUpdatedAt := now\<rparr> else d) (tbDocuments t),
           tbBlocks := map (\<lambda>r. if brDocument r = document
             then (case find (\<lambda>u. bbID u = brID r) changed of None \<Rightarrow> r | Some u \<Rightarrow> r\<lparr>brShared := bbShared u\<rparr>) else r) (tbBlocks t),
           tbAttachments := foldl put_attachment (filter (\<lambda>x. \<not> gone x) (tbAttachments t)) desired,
           tbCriteria := filter (\<lambda>r. \<not> reset (crBlock r, crPath r)) (tbCriteria t)\<rparr>)"

definition hotSharedMutationSQL ::
    "(raw \<Rightarrow> raw \<Rightarrow> bool) \<Rightarrow> uuid \<Rightarrow> int \<Rightarrow> tables \<Rightarrow> Batch \<Rightarrow> (tables \<times> hotSharedResultRow) outcome" where
  "hotSharedMutationSQL same fresh now t b =
     (let status = shared_status same t b; applied = (status = ''applied''); ids = map bbID (baUpserts b);
          d = find (\<lambda>d. cdID d = baDocument b) (tbDocuments t)
      in if applied \<and> \<not> distinct (map attachment_key (changed_inputs same t b)) then Inl (Fault ''apply shared content Block mutation'')
         else Inr (if applied then write_shared same fresh now t b else t,
           \<lparr>hsStatus = status, hsProfile = (case d of None \<Rightarrow> '''' | Some d \<Rightarrow> cdProfile d),
            hsRevision = (if applied then fresh else case d of None \<Rightarrow> 0 | Some d \<Rightarrow> cdRevision d),
            hsTargets = concat (map (shared_row t) (baUpserts b)),
            hsLocales = filter (\<lambda>r. olBlock r \<in> set ids) (tbLocales t),
            hsAttachments = filter (\<lambda>r. arBlock r \<in> set ids) (tbAttachments t),
            hsFiles = filter (\<lambda>f. fileID f \<in> set (active_inputs b)) (tbFiles t)\<rparr>))"

section \<open>The checks on the returned rows\<close>

record shared_state =
  shBefore :: "(uuid \<times> FullBlock) list"
  shAfter :: "(uuid \<times> FullBlock) list"
  shChanged :: "uuid list"

definition hot_overlays :: "blockLocaleRow list \<Rightarrow> (uuid \<times> (string \<times> raw) list) list outcome" where
  "hot_overlays rows =
     fold_result (\<lambda>m r. and_then (as_invalid ''stored Block locale data'' (canonicalObject (olData r)))
       (\<lambda>d. Inr (AList.update (olBlock r)
          (AList.update (olLocale r) d (case map_of m (olBlock r) of None \<Rightarrow> [] | Some ls \<Rightarrow> ls)) m))) [] rows"

definition incompatible :: "Contract \<Rightarrow> string \<Rightarrow> FullBlock \<Rightarrow> string \<times> raw \<Rightarrow> bool" where
  "incompatible co profile after e =
     (case normalizeBlock co profile (after\<lparr>flLocalized := snd e\<rparr>) of Inl _ \<Rightarrow> True | Inr n \<Rightarrow> \<not> sameBlockShared after n)"

definition shared_round ::
    "Contract \<Rightarrow> string \<Rightarrow> string \<Rightarrow> (uuid \<times> BlockFileReference list) list \<Rightarrow> (uuid \<times> FullBlock) list \<Rightarrow> (uuid \<times> (string \<times> raw) list) list \<Rightarrow>
      (uuid \<times> BlockFileReference list) list \<Rightarrow> shared_state \<Rightarrow> BaseBlock \<Rightarrow> shared_state outcome" where
  "shared_round co profile source wanted stored locales attachments s u =
     (let k = bbID u; ls = (case map_of locales k of None \<Rightarrow> [] | Some ls \<Rightarrow> ls) in
      case map_of ls source of
        None \<Rightarrow> Inl (ErrInvalidMutation ''Block has no source locale overlay'')
      | Some localized \<Rightarrow>
          and_then (normalizeBlock co profile ((block_at stored k)\<lparr>flLocalized := localized\<rparr>)) (\<lambda>before.
          guard_error (invalid_if (\<not> sameFileReferences (flFiles before) (references_at attachments k))
            ''stored File references differ from Block payload'')
          (and_then (normalizeBlock co profile (BaseBlock.extend u \<lparr>flLocalized = localized, flFiles = []\<rparr>)) (\<lambda>after.
          guard_error (first_error
            [invalid_if (\<not> sameFileReferences (flFiles after) (references_at wanted k)) ''generated shared File references differ'',
             invalid_if (list_ex (incompatible co profile after) ls) ''locale is incompatible with shared edit''])
          (Inr \<lparr>shBefore = AList.update k before (shBefore s), shAfter = AList.update k after (shAfter s),
             shChanged = (if sameBlockShared before after then shChanged s else shChanged s @ [k])\<rparr>)))))"

definition orderedAffectedBlocks :: "(uuid \<times> FullBlock) list \<Rightarrow> uuid list \<Rightarrow> FullBlock list" where
  "orderedAffectedBlocks blocks ids = orderedBlocks (foldl (\<lambda>m k. AList.update k (block_at blocks k) m) [] ids)"

definition check_shared_reference ::
    "store_env \<Rightarrow> (uuid \<times> File) list \<Rightarrow> ContentDocument \<Rightarrow> (string \<times> BlockFileReference) list \<Rightarrow> FullBlock \<Rightarrow> BlockFileReference \<Rightarrow>
      block_error option" where
  "check_shared_reference se files d previous b r =
     (if (case map_of previous (refPath r) of None \<Rightarrow> False | Some p \<Rightarrow> \<not> refMissing p \<and> refFile p = refFile r) then None
      else (case map_of files (refFile r) of
          None \<Rightarrow> Some (ErrFileReference ''File is unavailable or incompatible'')
        | Some f \<Rightarrow>
            if fileDeleteRequested f \<or> \<not> validateMIME r (fileMIMEType f) then Some (ErrFileReference ''File is unavailable or incompatible'')
            else if seReuse se d b r f \<noteq> None then Some (ErrFileReference ''authorize File reuse'') else None))"

definition validateHotSharedResult :: "store_env \<Rightarrow> hotSharedResultRow \<Rightarrow> Batch \<Rightarrow> string \<Rightarrow> BatchResult outcome" where
  "validateHotSharedResult se row b source =
     (let co = seContract se; profile = hsProfile row in
      and_then (hot_blocks (hsTargets row)) (\<lambda>stored.
      and_then (hot_overlays (hsLocales row)) (\<lambda>locales.
      and_then (persisted_references (hsAttachments row)) (\<lambda>attachments.
      and_then (fold_result (shared_round co profile source (baReferences b) stored locales attachments)
        \<lparr>shBefore = [], shAfter = [], shChanged = []\<rparr> (baUpserts b)) (\<lambda>s.
      and_then (if shChanged s = [] then Inr False
        else as_invalid ''derive affected translation source change'' (coTranslationSourceChanged co profile
          (orderedAffectedBlocks (shBefore s) (shChanged s)) (orderedAffectedBlocks (shAfter s) (shChanged s)))) (\<lambda>sourceChanged.
      let files = foldl (\<lambda>m f. AList.update (fileID f) f m) [] (hsFiles row);
          d = \<lparr>cdID = baDocument b, cdProfile = profile, cdRevision = hsRevision row, cdCreatedAt = 0, cdUpdatedAt = 0\<rparr> in
      guard_error (check_all (\<lambda>k. let after = block_at (shAfter s) k in
          check_all (check_shared_reference se files d (referenceMap (flFiles (block_at (shBefore s) k))) after) (flFiles after)) (shChanged s))
      (if hsStatus row = ''noop'' then Inr (unchangedResult (hsRevision row))
       else Inr \<lparr>brRevision = hsRevision row, brChanged = True, brContentChanged = True, brMetadataChanged = False,
         brSourceChanged = sourceChanged, brChangedLocales = []\<rparr>)))))))"

text \<open>\<open>None\<close> is a batch that is not applicable.\<close>

definition applySharedCTEPostgres ::
    "(raw \<Rightarrow> raw \<Rightarrow> bool) \<Rightarrow> store_env \<Rightarrow> uuid \<Rightarrow> int \<Rightarrow> tables \<Rightarrow> Batch \<Rightarrow> string \<Rightarrow> (tables \<times> BatchResult) option outcome" where
  "applySharedCTEPostgres same se fresh now t b source =
     guard_error (validateOperationIDs b)
     (if list_ex (\<lambda>u. \<not> encodable (bbShared u)) (baUpserts b) then Inl (Fault ''encode shared content Block mutation'')
      else and_then (hotSharedMutationSQL same fresh now t b) (\<lambda>(t', row).
       let status = hsStatus row in
       if status = ''not_found'' then Inl ErrDocumentNotFound
       else if status = ''stale'' then Inl (ErrStaleRevision (hsRevision row))
       else if status = ''invalid_profile'' then Inl (ErrInvalidMutation ''mutation profile does not match document'')
       else if status = ''cross_document'' then Inl ErrCrossDocument
       else if status = ''missing_target'' \<or> status = ''structural_change'' then Inr None
       else if status = ''missing_file'' \<or> status = ''pending_file'' then Inl (ErrFileReference ''shared Block File is unavailable'')
       else if status = ''missing_selector'' then Inl (ErrFileReference ''missing attachment is restore-only'')
       else if status \<noteq> ''noop'' \<and> status \<noteq> ''applied'' then Inl (ErrInvalidMutation ''unexpected shared mutation status'')
       else and_then (validateHotSharedResult se row b source) (\<lambda>res. Inr (Some (t', res)))))"

section \<open>Choosing a path\<close>

text \<open>\<open>Store.ApplyBatch\<close> on PostgreSQL; \<open>fresh'\<close> is the revision that the generic path draws after a batch turned out
  to be not applicable.\<close>

definition ApplyBatch ::
    "(raw \<Rightarrow> raw \<Rightarrow> bool) \<Rightarrow> store_env \<Rightarrow> uuid \<Rightarrow> uuid \<Rightarrow> int \<Rightarrow> tables \<Rightarrow> Batch \<Rightarrow> fence \<Rightarrow> (tables \<times> BatchResult) outcome" where
  "ApplyBatch same se fresh fresh' now t b fence =
     (if isLocaleOnlyBatch b \<or> isReorderOnlyBatch b \<or> isSharedPresentationBatch b
      then guard_error (validateBatchEnvelope b False)
        (through_fence fence (baDocument b) (\<lambda>source.
           if isReorderOnlyBatch b then applyReorderBatchPostgres se fresh now t b source
           else if isSharedPresentationBatch b then
             and_then (applySharedCTEPostgres same se fresh now t b source) (\<lambda>r. case r of
                 Some x \<Rightarrow> Inr x
               | None \<Rightarrow> applyBatchAfterFenceWithMetadata se fresh' now t b source False False None)
           else applyLocaleBatchPostgres same se fresh now t b source))
      else applyBatch se fresh now t b fence False False)"

end
