(* ===== verification/Content_Moves.thy ===== *)
theory Content_Moves
  imports Content_Hot
begin

text \<open>
  The PostgreSQL path of reorders against the whole document: what it stores, and which checks of the generic
  path it implies. Its own checks see the moved blocks, their siblings and their ancestors only.
\<close>

section \<open>What the statement stores\<close>

definition moved_block :: "Reorder list \<Rightarrow> FullBlock \<Rightarrow> FullBlock" where
  "moved_block reorders b =
     (case find (\<lambda>m. roBlock m = bbID b) reorders of
        None \<Rightarrow> b
      | Some m \<Rightarrow> b\<lparr>bbParent := roParent m, bbSlot := roSlot m, bbPosition := roPosition m\<rparr>)"

lemma moved_block_keeps [simp]:
  "bbID (moved_block ms b) = bbID b" "bbKind (moved_block ms b) = bbKind b" "bbShared (moved_block ms b) = bbShared b"
  "flLocalized (moved_block ms b) = flLocalized b" "flFiles (moved_block ms b) = flFiles b"
  by (auto simp: moved_block_def split: option.splits)

lemma moved_block_unmoved: "bbID b \<notin> roBlock ` set ms \<Longrightarrow> moved_block ms b = b"
  by (auto simp: moved_block_def find_Some_iff split: option.splits) (metis imageI nth_mem)

lemma find_key: "distinct (map f xs) \<Longrightarrow> x \<in> set xs \<Longrightarrow> find (\<lambda>y. f y = f x) xs = Some x"
  by (induction xs) (auto simp: rev_image_eqI)

lemma moved_block_moved:
  "distinct (map roBlock ms) \<Longrightarrow> m \<in> set ms \<Longrightarrow> bbID b = roBlock m \<Longrightarrow>
   moved_block ms b = b\<lparr>bbParent := roParent m, bbSlot := roSlot m, bbPosition := roPosition m\<rparr>"
  by (simp add: moved_block_def find_key)

lemma block_row_member: "consistent t \<Longrightarrow> r \<in> set (tbBlocks t) \<Longrightarrow> block_row t (brID r) = Some r"
  by (simp add: consistent_def block_row_def find_key)

lemma block_row_Some: "block_row t k = Some r \<Longrightarrow> r \<in> set (tbBlocks t) \<and> brID r = k"
  by (auto simp: block_row_def find_Some_iff)

text \<open>Rows that would not change need not be written.\<close>

lemma reorder_rows_displaced:
  assumes c: "consistent t" and d: "distinct (map roBlock ms)"
  shows "reorder_rows document (filter (\<lambda>m. case block_row t (roBlock m) of None \<Rightarrow> False | Some r \<Rightarrow> displaced m r) ms) (tbBlocks t) =
    reorder_rows document ms (tbBlocks t)"
proof -
  let ?f = "\<lambda>m. case block_row t (roBlock m) of None \<Rightarrow> False | Some r \<Rightarrow> displaced m r"
  have "(case find (\<lambda>m. roBlock m = brID r) (filter ?f ms) of None \<Rightarrow> r
          | Some m \<Rightarrow> r\<lparr>brParent := roParent m, brSlot := roSlot m, brPosition := roPosition m\<rparr>) =
        (case find (\<lambda>m. roBlock m = brID r) ms of None \<Rightarrow> r
          | Some m \<Rightarrow> r\<lparr>brParent := roParent m, brSlot := roSlot m, brPosition := roPosition m\<rparr>)"
    if r: "r \<in> set (tbBlocks t)" for r
    using d
  proof (induction ms)
    case (Cons m ms)
    show ?case
    proof (cases "roBlock m = brID r")
      case True
      have "find (\<lambda>x. roBlock x = brID r) (filter ?f ms) = None"
        using Cons.prems True by (auto simp: find_None_iff rev_image_eqI)
      then show ?thesis using True block_row_member [OF c r] by (auto simp: displaced_def)
    qed (use Cons in auto)
  qed simp
  then show ?thesis unfolding reorder_rows_def by (intro map_cong) auto
qed

lemma distinct_reorders:
  assumes "validateOperationIDs b = None"
  shows "distinct (map roBlock (baReorders b))"
proof -
  have "fold_result reorder_round s rs = Inr s' \<Longrightarrow> distinct (map roBlock rs) \<and> (\<forall>r \<in> set rs. map_of s (roBlock r) = None)" for s s' rs
  proof (induction rs arbitrary: s)
    case (Cons r rs)
    then have n: "map_of s (roBlock r) = None" and rest: "fold_result reorder_round ((roBlock r, BaseReorder) # s) rs = Inr s'"
      by (auto simp: and_then_Inr reorder_round_def [of s] base_round_def [of _ s] guard_error_Inr first_error_None)
    show ?case using Cons.IH [OF rest] n by (auto split: if_splits)
  qed simp
  with assms show ?thesis
    by (auto simp: validateOperationIDs_def base_operations_def and_then_Inr split: sum.splits)
qed

text \<open>Loading after the statement: every block in its new place, payloads and overlays as before.\<close>

definition moved_state :: "Reorder list \<Rightarrow> aggregate \<Rightarrow> aggregate \<Rightarrow> bool" where
  "moved_state ms a a' \<longleftrightarrow>
     (\<forall>k. map_of (agBlocks a') k = map_option (moved_block ms) (map_of (agBlocks a) k)) \<and>
     map fst (agBlocks a') = map fst (agBlocks a) \<and>
     (\<forall>k. set (locales_of a' k) = set (locales_of a k)) \<and> (\<forall>k. distinct (map fst (locales_of a' k))) \<and>
     cdProfile (agDocument a') = cdProfile (agDocument a)"

definition moved_row :: "Reorder list \<Rightarrow> blockRow \<Rightarrow> blockRow" where
  "moved_row ms r =
     (case find (\<lambda>m. roBlock m = brID r) ms of
        None \<Rightarrow> r
      | Some m \<Rightarrow> r\<lparr>brParent := roParent m, brSlot := roSlot m, brPosition := roPosition m\<rparr>)"

lemma moved_row_keeps [simp]:
  "brID (moved_row ms r) = brID r" "brDocument (moved_row ms r) = brDocument r" "brKind (moved_row ms r) = brKind r"
  "brShared (moved_row ms r) = brShared r"
  by (auto simp: moved_row_def split: option.splits)

lemma reorder_rows_moved: "reorder_rows document ms rows = map (\<lambda>r. if brDocument r = document then moved_row ms r else r) rows"
  by (simp add: reorder_rows_def moved_row_def)

lemma stored_block_moved:
  "tbAttachments t' = tbAttachments t \<Longrightarrow> stored_block t' (moved_row ms r) = moved_block ms (stored_block t r)"
  by (auto simp: stored_block_def attachments_at_def block_of_row_def moved_row_def moved_block_def split: option.splits)

lemma reordered_rows:
  assumes "tbBlocks t' = reorder_rows document ms (tbBlocks t)"
  shows "row_at t' document k = map_option (moved_row ms) (row_at t document k)"
    and "document_rows t' document = map (moved_row ms) (document_rows t document)"
proof -
  have "find (\<lambda>r. brID r = k \<and> brDocument r = document) (map (\<lambda>r. if brDocument r = document then moved_row ms r else r) rows) =
      map_option (moved_row ms) (find (\<lambda>r. brID r = k \<and> brDocument r = document) rows)" for rows
    by (induction rows) auto
  then show "row_at t' document k = map_option (moved_row ms) (row_at t document k)"
    by (simp add: row_at_def assms reorder_rows_moved)
  have "filter (\<lambda>r. brDocument r = document) (map (\<lambda>r. if brDocument r = document then moved_row ms r else r) rows) =
      map (moved_row ms) (filter (\<lambda>r. brDocument r = document) rows)" for rows
    by (induction rows) auto
  then show "document_rows t' document = map (moved_row ms) (document_rows t document)"
    by (simp add: document_rows_def assms reorder_rows_moved)
qed

lemma set_of_map: "distinct (map fst xs) \<Longrightarrow> distinct (map fst ys) \<Longrightarrow> map_of xs = map_of ys \<Longrightarrow> set xs = set ys"
  by (simp add: map_of_inject_set)

lemma statement_stores:
  assumes c: "consistent t" and l: "loadAggregate t document = Inr stored" and d: "distinct (map roBlock ms)"
    and t': "t' = t\<lparr>tbDocuments := map (\<lambda>d. if cdID d = document then bump fresh now d else d) (tbDocuments t),
      tbBlocks := reorder_rows document ms (tbBlocks t)\<rparr>"
  shows "consistent t' \<and> (\<exists>stored'. loadAggregate t' document = Inr stored' \<and> moved_state ms stored stored' \<and>
    agDocument stored' = bump fresh now (agDocument stored))"
proof -
  have tb: "tbBlocks t' = reorder_rows document ms (tbBlocks t)" "tbLocales t' = tbLocales t" "tbAttachments t' = tbAttachments t"
    by (simp_all add: t')
  note rows = reordered_rows [OF tb(1)]
  have ids: "map brID (tbBlocks t') = map brID (tbBlocks t)"
    by (simp add: tb(1) reorder_rows_moved)
  have "map cdID (tbDocuments t') = map cdID (tbDocuments t)" by (simp add: t' bump_def)
  moreover have "brID ` set (tbBlocks t') = brID ` set (tbBlocks t)" using ids by (metis set_map)
  ultimately have c': "consistent t'" using c ids by (simp add: consistent_def tb(2,3))
  note st = load_stored [OF c l]
  have doc: "loadContentDocument t' document = Inr (bump fresh now (agDocument stored))"
  proof -
    have "find (\<lambda>d. cdID d = document) (map (\<lambda>d. if cdID d = document then bump fresh now d else d) ds) =
        map_option (bump fresh now) (find (\<lambda>d. cdID d = document) ds)" for ds
      by (induction ds) (auto simp: bump_def)
    moreover have "loadContentDocument t document = Inr (agDocument stored)" using st by (simp add: stored_as_def)
    ultimately show ?thesis by (auto simp: loadContentDocument_def t' split: option.splits)
  qed
  have "decodable t' document" using st by (simp add: decodable_def rows(2) tb(2,3) image_image)
  with decodable_loads [OF c' doc] obtain stored' where l': "loadAggregate t' document = Inr stored'" by blast
  note st' = load_stored [OF c' l']
  have "map_of (locales_of stored' k) = map_of (locales_of stored k)" for k
  proof (cases "row_at t document k")
    case None
    then show ?thesis using st st' rows(1) by (simp add: stored_as_def)
  next
    case (Some r)
    then show ?thesis using st st' rows(1) by (intro ext) (simp add: stored_as_def locale_at_def tb(2))
  qed
  then have "set (locales_of stored' k) = set (locales_of stored k)" for k
    using st st' by (intro set_of_map) (simp_all add: stored_as_def)
  moreover have "map_of (agBlocks stored') k = map_option (moved_block ms) (map_of (agBlocks stored) k)" for k
    using st st' rows(1) stored_block_moved [OF tb(3)]
    by (cases "row_at t document k") (simp_all add: stored_as_def)
  moreover have "map fst (agBlocks stored') = map fst (agBlocks stored)" "agDocument stored' = bump fresh now (agDocument stored)"
    using st st' rows(2) doc by (simp_all add: stored_as_def)
  moreover have "distinct (map fst (locales_of stored' k))" for k using st' by (simp add: stored_as_def)
  ultimately show ?thesis using c' l' by (auto simp: moved_state_def bump_def)
qed

section \<open>The rows that come back\<close>

definition row_block :: "blockRow \<Rightarrow> FullBlock" where
  "row_block r = block_of_row r (canonical_raw (brShared r))"

lemma hot_blocks_rounds:
  assumes "fold_result (\<lambda>m r. and_then (baseBlockFromHotReorder r) (\<lambda>b. Inr (AList.update (bbID b) b m))) m rows = Inr m'"
    and "\<forall>r \<in> set rows. row_at t document (brID r) = Some r"
  shows "map_of m' k = (if k \<in> brID ` set rows then map_option row_block (row_at t document k) else map_of m k)"
    and "distinct (map fst m) \<Longrightarrow> distinct (map fst m')"
proof -
  have "map_of m' k = (if k \<in> brID ` set rows then map_option row_block (row_at t document k) else map_of m k) \<and>
      (distinct (map fst m) \<longrightarrow> distinct (map fst m'))"
    using assms
  proof (induction rows arbitrary: m)
    case (Cons r rows)
    then have "fold_result (\<lambda>m r. and_then (baseBlockFromHotReorder r) (\<lambda>b. Inr (AList.update (bbID b) b m)))
        (AList.update (brID r) (row_block r) m) rows = Inr m'"
      by (auto simp: and_then_Inr baseBlockFromHotReorder_def canonicalObject_Inr row_block_def block_of_row_def)
    from Cons.IH [OF this] Cons.prems(2) show ?case by (auto simp: update_conv' distinct_update)
  qed simp
  then show "map_of m' k = (if k \<in> brID ` set rows then map_option row_block (row_at t document k) else map_of m k)"
    "distinct (map fst m) \<Longrightarrow> distinct (map fst m')" by blast+
qed

lemma hot_blocks_map:
  assumes "hot_blocks rows = Inr m" and "\<forall>r \<in> set rows. row_at t document (brID r) = Some r"
  shows "map_of m k = (if k \<in> brID ` set rows then map_option row_block (row_at t document k) else None)" and "distinct (map fst m)"
  using hot_blocks_rounds [OF assms(1) [unfolded hot_blocks_def] assms(2)] by auto

lemma move_blocks_map:
  assumes "distinct (map roBlock ms)" and "\<forall>m \<in> set ms. map_of blocks (roBlock m) \<noteq> None" and "keyed blocks"
  shows "map_of (fold move_block ms blocks) k = map_option (moved_block ms) (map_of blocks k) \<and> keyed (fold move_block ms blocks)"
  using assms
proof (induction ms arbitrary: blocks)
  case Nil
  then show ?case by (simp add: moved_block_def option.map_ident)
next
  case (Cons m ms)
  obtain b where b: "map_of blocks (roBlock m) = Some b" using Cons.prems(2) by auto
  then have bid: "bbID b = roBlock m" using Cons.prems(3) by (simp add: keyed_at)
  let ?c = "b\<lparr>bbParent := roParent m, bbSlot := roSlot m, bbPosition := roPosition m\<rparr>"
  have step: "move_block m blocks = AList.update (roBlock m) ?c blocks" by (simp add: move_block_def block_at_def b)
  have "map_of (fold move_block ms (move_block m blocks)) k = map_option (moved_block ms) (map_of (move_block m blocks) k) \<and>
      keyed (fold move_block ms (move_block m blocks))"
    using Cons.prems keyed_update [OF Cons.prems(3), of ?c "roBlock m"] bid
    by (intro Cons.IH) (auto simp: step update_conv')
  moreover have "map_option (moved_block ms) (map_of (move_block m blocks) k) = map_option (moved_block (m # ms)) (map_of blocks k)"
  proof (cases "k = roBlock m")
    case True
    then show ?thesis using b bid Cons.prems(1) by (simp add: step update_conv' moved_block_unmoved) (simp add: moved_block_def)
  next
    case False
    then show ?thesis using Cons.prems(3) by (auto simp: step update_conv' moved_block_def keyed_at option.map_comp intro!: map_option_cong)
  qed
  ultimately show ?case by simp
qed

section \<open>Walks to the root\<close>

text \<open>A walk that ends gives a height below the limit, in every table that has the parents of the walked blocks.\<close>

lemma ancestry_walk_height:
  assumes "ancestry_walk n blocks path k = Inr s" and "\<And>j b. map_of blocks j = Some b \<Longrightarrow> par j = bbParent b"
  shows "(\<exists>m < n. height par k m) \<and> k \<in> set s \<and> (\<forall>j \<in> set s. j \<in> set path \<or> map_of blocks j \<noteq> None)"
  using assms(1)
proof (induction n arbitrary: path k)
  case (Suc n)
  then obtain b where b: "map_of blocks k = Some b"
    by (auto split: if_splits option.splits)
  then have par: "par k = bbParent b" by (rule assms(2))
  show ?case
  proof (cases "bbParent b")
    case None
    then show ?thesis using Suc.prems b par by (auto split: if_splits intro: height.outside)
  next
    case (Some p)
    with Suc.prems b have "ancestry_walk n blocks (k # path) p = Inr s" by (auto split: if_splits)
    from Suc.IH [OF this] obtain m where "m < n" "height par p m" "\<forall>j \<in> set s. j \<in> set (k # path) \<or> map_of blocks j \<noteq> None" by blast
    moreover have "k \<in> set s" if "ancestry_walk i blocks path' j = Inr s" "k \<in> set path'" for i path' j
      using that by (induction i arbitrary: path' j) (auto split: if_splits option.splits)
    ultimately show ?thesis using \<open>ancestry_walk n blocks (k # path) p = Inr s\<close> par Some b
      by (fastforce intro: height.child)
  qed
qed simp

lemma affectedAncestryIDs_walks:
  assumes "affectedAncestryIDs blocks ms maxDepth = Inr ids"
  shows "distinct ids \<and> (\<forall>m \<in> set ms. \<exists>s. ancestry_walk (nat maxDepth) blocks [] (roBlock m) = Inr s \<and> set s \<subseteq> set ids) \<and>
    (\<forall>k \<in> set ids. map_of blocks k \<noteq> None)"
proof -
  let ?f = "\<lambda>seen r. and_then (ancestry_walk (nat maxDepth) blocks [] (roBlock r)) (\<lambda>path. Inr (path @ seen))"
  from assms obtain seen where seen: "fold_result ?f [] ms = Inr seen" "ids = sort (remdups seen)"
    by (auto simp: affectedAncestryIDs_def and_then_Inr)
  have "set seen0 \<subseteq> set seen \<and> (\<forall>m \<in> set rs. \<exists>s. ancestry_walk (nat maxDepth) blocks [] (roBlock m) = Inr s \<and> set s \<subseteq> set seen) \<and>
      ((\<forall>k \<in> set seen0. map_of blocks k \<noteq> None) \<longrightarrow> (\<forall>k \<in> set seen. map_of blocks k \<noteq> None))"
    if "fold_result ?f seen0 rs = Inr seen" for seen0 rs
    using that
  proof (induction rs arbitrary: seen0)
    case (Cons r rs)
    then obtain s where s: "ancestry_walk (nat maxDepth) blocks [] (roBlock r) = Inr s" "fold_result ?f (s @ seen0) rs = Inr seen"
      by (auto simp: and_then_Inr)
    have "\<forall>j \<in> set s. map_of blocks j \<noteq> None"
      using ancestry_walk_height [OF s(1), of "block_parents blocks"] by (auto simp: block_parents_def)
    then show ?case using Cons.IH [OF s(2)] s(1) by auto
  qed simp
  from this [OF seen(1)] show ?thesis using seen(2) by simp
qed

section \<open>Normalized blocks\<close>

text \<open>The statement writes slots as they are in the batch; kinds in the rows are as \<open>normalizeBlock\<close> left them.\<close>

definition trimmed_slots :: "Reorder list \<Rightarrow> bool" where
  "trimmed_slots ms \<longleftrightarrow> list_all (\<lambda>m. trim_space (roSlot m) = roSlot m) ms"

definition trimmed_kinds :: "aggregate \<Rightarrow> bool" where
  "trimmed_kinds a \<longleftrightarrow> list_all (\<lambda>(k, b). trim_space (bbKind b) = bbKind b) (agBlocks a)"

lemma trimmed_kinds_at: "trimmed_kinds a \<Longrightarrow> map_of (agBlocks a) k = Some b \<Longrightarrow> trim_space (bbKind b) = bbKind b"
  by (auto simp: trimmed_kinds_def list_all_iff dest: map_of_SomeD)

lemma stored_slot_trimmed:
  assumes "slot_rules co" and "valid_aggregate co source a" and "map_of (agBlocks a) k = Some b"
  shows "trim_space (bbSlot b) = bbSlot b"
proof -
  have "parent_ok co (cdProfile (agDocument a)) (agBlocks a) b"
    using assms(2,3) by (auto simp: valid_aggregate_def structure_ok_height)
  then have "containerSlotPattern (bbSlot b)" using assms(1) by (auto simp: parent_ok_def slot_rules_def split: option.splits)
  then show ?thesis by (rule slot_trimmed)
qed

lemma moved_slot_trimmed:
  assumes "trimmed_slots ms" and "trim_space (bbSlot b) = bbSlot b"
  shows "trim_space (bbSlot (moved_block ms b)) = bbSlot (moved_block ms b)"
  using assms by (auto simp: moved_block_def trimmed_slots_def list_all_iff find_Some_iff split: option.splits)

lemma hot_locales_at:
  assumes "hot_locales rows = Inr m" and "map_of m k = Some d"
  shows "\<exists>r \<in> set rows. olBlock r = k \<and> canonicalObject (olData r) = Inr d"
proof -
  have "\<forall>k d. map_of m k = Some d \<longrightarrow> (\<exists>r \<in> set rows. olBlock r = k \<and> canonicalObject (olData r) = Inr d)"
    by (rule fold_result_invariant [OF _ _ assms(1) [unfolded hot_locales_def]])
      (auto simp: and_then_Inr update_conv' split: if_splits)
  with assms(2) show ?thesis by blast
qed

text \<open>Blocks of the tables in their new places.\<close>

definition placed_in :: "(uuid \<times> FullBlock) list \<Rightarrow> (uuid \<times> FullBlock) list \<Rightarrow> bool" where
  "placed_in blocks all \<longleftrightarrow> (\<forall>k c. map_of blocks k = Some c \<longrightarrow> (\<exists>b. map_of all k = Some b \<and> baseBlock c = baseBlock b))"

lemma placed_in_at: "placed_in blocks all \<Longrightarrow> map_of blocks k = Some c \<Longrightarrow> \<exists>b. map_of all k = Some b \<and> baseBlock c = baseBlock b"
  unfolding placed_in_def by blast

context placed_contract
begin

lemma normalize_affected_placed:
  assumes c: "consistent t" and l: "loadAggregate t document = Inr stored" and v: "valid_aggregate co source stored"
    and sl: "slot_rules co" and kinds: "trimmed_kinds stored" and slots: "trimmed_slots ms" and m: "moved_state ms stored stored'"
    and loc: "hot_locales (filter (\<lambda>r. olLocale r = source \<and> olBlock r \<in> X) (tbLocales t)) = Inr locales"
    and n: "normalize_affected co (cdProfile (agDocument stored)) locales attachments blocks k = Inr blocks'"
    and p: "placed_in blocks (agBlocks stored')" and k: "map_of blocks k \<noteq> None"
  shows "placed_in blocks' (agBlocks stored') \<and> map fst blocks' = map fst blocks"
proof -
  let ?p = "cdProfile (agDocument stored)"
  from k obtain b where b: "map_of blocks k = Some b" by blast
  from placed_in_at [OF p b] m obtain b0 where b0: "map_of (agBlocks stored) k = Some b0"
      "map_of (agBlocks stored') k = Some (moved_block ms b0)" "baseBlock b = baseBlock (moved_block ms b0)"
    by (auto simp: moved_state_def)
  from n b obtain d x where d: "map_of locales k = Some d" and x: "normalizeBlock co ?p (b\<lparr>flLocalized := d\<rparr>) = Inr x"
      and upd: "blocks' = AList.update k x blocks"
    by (auto simp: normalize_affected_def and_then_Inr guard_error_Inr block_at_def split: option.splits)
  from hot_locales_at [OF loc d] obtain r where r: "r \<in> set (tbLocales t)" "olLocale r = source" "olBlock r = k"
      "canonicalObject (olData r) = Inr d" by auto
  have "locale_at t k source = Some r"
    using find_key [of locale_key "tbLocales t" r] c r by (simp add: consistent_def locale_at_def locale_key_def)
  moreover have "row_at t document k \<noteq> None" using load_stored [OF c l] b0(1) by (auto simp: stored_as_def)
  then have "map_of (locales_of stored k) source = map_option (\<lambda>r. canonical_raw (olData r)) (locale_at t k source)"
    using load_stored [OF c l] unfolding stored_as_def by blast
  ultimately have "map_of (locales_of stored k) source = Some d" using r(4) by (simp add: canonicalObject_Inr)
  moreover have "payload_ok co ?p b0 (locales_of stored k)" using v b0(1) by (auto simp: valid_aggregate_def block_ok_def)
  ultimately obtain n0 where n0: "normalizeBlock co ?p (b0\<lparr>flLocalized := d\<rparr>) = Inr n0" "bbShared n0 = bbShared b0"
    by (fastforce simp: payload_ok_def dest: map_of_SomeD)
  have "bbShared x = bbShared b0"
    using normalize_moved [OF n0(1), of "b\<lparr>flLocalized := d\<rparr>"] normalize_placed [OF x] x n0(2) b0(3)
    by (auto simp: same_payload_def baseBlock_eq)
  moreover have "bbKind x = bbKind b0" using normalize_fields [OF x] b0(3) trimmed_kinds_at [OF kinds b0(1)] by (simp add: baseBlock_eq)
  moreover have "bbSlot x = bbSlot (moved_block ms b0)"
    using normalize_fields [OF x] b0(3) moved_slot_trimmed [OF slots stored_slot_trimmed [OF sl v b0(1)]] by (simp add: baseBlock_eq)
  ultimately have "baseBlock x = baseBlock (moved_block ms b0)" using normalize_fields [OF x] b0(3) by (simp add: baseBlock_eq)
  then show ?thesis using p b0(2) keys_update [OF k] by (auto simp: placed_in_def upd update_conv')
qed

lemma normalized_placed:
  assumes "consistent t" and "loadAggregate t document = Inr stored" and "valid_aggregate co source stored"
    and "slot_rules co" and "trimmed_kinds stored" and "trimmed_slots ms" and "moved_state ms stored stored'"
    and "hot_locales (filter (\<lambda>r. olLocale r = source \<and> olBlock r \<in> X) (tbLocales t)) = Inr locales"
    and "fold_result (normalize_affected co (cdProfile (agDocument stored)) locales attachments) blocks ids = Inr blocks'"
    and "placed_in blocks (agBlocks stored')" and "\<forall>k \<in> set ids. map_of blocks k \<noteq> None"
  shows "placed_in blocks' (agBlocks stored') \<and> map fst blocks' = map fst blocks"
proof (rule fold_result_invariant [where I = "\<lambda>s. placed_in s (agBlocks stored') \<and> map fst s = map fst blocks", OF _ _ assms(9)])
  fix s k s'
  assume s: "placed_in s (agBlocks stored') \<and> map fst s = map fst blocks" and k: "k \<in> set ids"
    and n: "normalize_affected co (cdProfile (agDocument stored)) locales attachments s k = Inr s'"
  have "map_of s k \<noteq> None" using s k assms(11) by (metis map_of_eq_None_iff set_map)
  with normalize_affected_placed [OF assms(1-8) n] s
  show "placed_in s' (agBlocks stored') \<and> map fst s' = map fst blocks" by simp
qed (use assms(10) in simp)

end

section \<open>The context of a reorder\<close>

lemma row_at_member:
  assumes "consistent t" and "r \<in> set (tbBlocks t)" and "brDocument r = document"
  shows "row_at t document (brID r) = Some r"
proof -
  have "distinct (map brID rows) \<Longrightarrow> r \<in> set rows \<Longrightarrow> find (\<lambda>x. brID x = brID r \<and> brDocument x = document) rows = Some r" for rows
    using assms(3) by (induction rows) (auto simp: rev_image_eqI)
  then show ?thesis using assms(1,2) by (simp add: consistent_def row_at_def)
qed

lemma ancestry_rows_subset: "set (ancestry_rows rows ms visited k) \<subseteq> set rows"
proof (induction rows ms visited k rule: ancestry_rows.induct)
  case (1 rows ms visited k)
  show ?case
  proof (cases "find (\<lambda>r. brID r = k) rows")
    case None
    then show ?thesis by (simp add: ancestry_rows.simps)
  next
    case (Some r)
    then have "r \<in> set rows" by (auto simp: find_Some_iff)
    then show ?thesis using 1 [OF Some] Some
      by (subst ancestry_rows.simps) (auto split: option.split_asm if_splits dest!: sym [of "Some _"])
  qed
qed

definition hot_rows :: "hotReorderResultRow \<Rightarrow> blockRow list" where
  "hot_rows row = hrTargets row @ hrSiblings row @ hrAncestors row"

lemma accepted_status:
  assumes "reorder_status t b = ''noop'' \<or> reorder_status t b = ''applied''"
  shows "\<exists>d. find (\<lambda>d. cdID d = baDocument b) (tbDocuments t) = Some d \<and> cdRevision d = baExpectedRevision b"
    and "\<not> foreign_rows t (baDocument b) (map roBlock (baReorders b) @ new_parents (baReorders b))"
    and "\<not> missing_row t (map roBlock (baReorders b))" and "\<not> missing_row t (new_parents (baReorders b))"
    and "reorder_status t b = ''noop'' \<longleftrightarrow> \<not> moves_some t (baReorders b)"
  using assms unfolding reorder_status_def Let_def by (simp_all split: option.splits if_splits)

lemma accepted_targets:
  assumes "reorder_status t b = ''noop'' \<or> reorder_status t b = ''applied''" and "consistent t" and "m \<in> set (baReorders b)"
  shows "\<exists>r. block_row t (roBlock m) = Some r \<and> row_at t (baDocument b) (roBlock m) = Some r"
proof -
  note s = accepted_status(2,3) [OF assms(1)]
  from s(2) assms(3) obtain r where r: "block_row t (roBlock m) = Some r"
    unfolding missing_row_def list_ex_iff by fastforce
  have "roBlock m \<in> set (map roBlock (baReorders b) @ new_parents (baReorders b))" using assms(3) by simp
  with s(1) r have "brDocument r = baDocument b" by (force simp: foreign_rows_def list_ex_iff)
  then show ?thesis using row_at_member [OF assms(2), of r] block_row_Some [OF r] r by simp
qed

lemma hot_rows_stored:
  assumes s: "reorder_status t b = ''noop'' \<or> reorder_status t b = ''applied''" and c: "consistent t"
    and r: "r \<in> set (hot_rows (snd (hotReorderMutationSQL fresh now t b source)))"
  shows "row_at t (baDocument b) (brID r) = Some r"
proof -
  have "r \<in> set (tbBlocks t) \<and> brDocument r = baDocument b \<or> (\<exists>m \<in> set (baReorders b). block_row t (roBlock m) = Some r)"
    using r ancestry_rows_subset
    by (fastforce simp: hot_rows_def hotReorderMutationSQL_def Let_def reorder_siblings_def split: option.splits)
  then show ?thesis using row_at_member [OF c] accepted_targets [OF s c] block_row_Some by fastforce
qed

text \<open>The containers that are checked: those the moved blocks leave and those they enter.\<close>

definition affected_key :: "Reorder list \<Rightarrow> (uuid \<times> FullBlock) list \<Rightarrow> sibling \<Rightarrow> bool" where
  "affected_key ms blocks key \<longleftrightarrow>
     (\<exists>m \<in> set ms. key = (roParent m, roSlot m) \<or> (\<exists>b. map_of blocks (roBlock m) = Some b \<and> key = sibling_key b))"

lemma stored_key: "sibling_key (stored_block t r) = (brParent r, brSlot r)" "sibling_key (row_block r) = (brParent r, brSlot r)"
  by (simp_all add: sibling_key_def stored_block_def block_of_row_def row_block_def)

lemma stored_base: "baseBlock (stored_block t r) = baseBlock (row_block r)"
  by (simp add: baseBlock_eq stored_block_def row_block_def)

lemma moved_block_base: "baseBlock x = baseBlock y \<Longrightarrow> baseBlock (moved_block ms x) = baseBlock (moved_block ms y)"
  by (auto simp: baseBlock_eq moved_block_def split: option.splits)

lemma affected_siblings:
  assumes s: "reorder_status t b = ''noop'' \<or> reorder_status t b = ''applied''" and c: "consistent t"
    and st: "\<And>k. map_of (agBlocks stored) k = map_option (stored_block t) (row_at t (baDocument b) k)"
    and r: "r \<in> set (document_rows t (baDocument b))" "brID r \<notin> roBlock ` set (baReorders b)"
    and a: "affected_key (baReorders b) (agBlocks stored) (brParent r, brSlot r)"
  shows "r \<in> set (reorder_siblings t (baDocument b) (baReorders b))"
proof -
  from a obtain m where m: "m \<in> set (baReorders b)"
      "(brParent r, brSlot r) = (roParent m, roSlot m) \<or> (\<exists>x. map_of (agBlocks stored) (roBlock m) = Some x \<and> (brParent r, brSlot r) = sibling_key x)"
    unfolding affected_key_def by blast
  obtain q where q: "block_row t (roBlock m) = Some q" "row_at t (baDocument b) (roBlock m) = Some q"
    using accepted_targets [OF s c m(1)] by blast
  have "brDocument q = baDocument b" using row_at_Some [OF q(2)] by (simp add: document_rows_def)
  moreover have "(brParent r, brSlot r) = (roParent m, roSlot m) \<or> (brParent r, brSlot r) = (brParent q, brSlot q)"
    using m(2) st [of "roBlock m"] q(2) by (auto simp: stored_key)
  ultimately show ?thesis using r m(1) q(1)
    by (auto simp: reorder_siblings_def Let_def document_rows_def intro!: bexI [of _ m])
qed

lemma hot_context:
  assumes s: "reorder_status t b = ''noop'' \<or> reorder_status t b = ''applied''" and c: "consistent t"
    and l: "loadAggregate t (baDocument b) = Inr stored" and m: "moved_state (baReorders b) stored stored'"
    and d: "distinct (map roBlock (baReorders b))"
    and h: "hot_blocks (hot_rows (snd (hotReorderMutationSQL fresh now t b source))) = Inr context"
  defines "blocks \<equiv> fold move_block (baReorders b) context"
  shows "placed_in blocks (agBlocks stored') \<and> distinct (map fst blocks) \<and>
    (\<forall>k x. map_of (agBlocks stored') k = Some x \<and> (k \<in> roBlock ` set (baReorders b) \<or> affected_key (baReorders b) (agBlocks stored) (sibling_key x)) \<longrightarrow>
       map_of blocks k \<noteq> None)"
proof -
  let ?row = "snd (hotReorderMutationSQL fresh now t b source)" and ?ms = "baReorders b"
  note rows = hot_blocks_map [OF h, of t "baDocument b"]
  have ctx: "map_of context k = (if k \<in> brID ` set (hot_rows ?row) then map_option row_block (row_at t (baDocument b) k) else None)" for k
    using rows(1) hot_rows_stored [OF s c] by blast
  have keyed: "keyed context"
    using rows(2) hot_rows_stored [OF s c] ctx
    by (auto simp: keyed_def row_block_def block_of_row_def dest: row_at_Some split: if_splits)
  have target: "roBlock m \<in> brID ` set (hot_rows ?row)" if "m \<in> set ?ms" for m
    using accepted_targets [OF s c that] block_row_Some that
    by (force simp: hot_rows_def hotReorderMutationSQL_def Let_def)
  have "map_of context (roBlock m) \<noteq> None" if "m \<in> set ?ms" for m
    using ctx target [OF that] accepted_targets [OF s c that] by auto
  with move_blocks_map [OF d _ keyed] have mv: "map_of blocks k = map_option (moved_block ?ms) (map_of context k)" "keyed blocks" for k
    unfolding blocks_def by blast+
  have st: "map_of (agBlocks stored) k = map_option (stored_block t) (row_at t (baDocument b) k)" for k
    using load_stored [OF c l] by (simp add: stored_as_def)
  have st': "map_of (agBlocks stored') k = map_option (moved_block ?ms) (map_of (agBlocks stored) k)" for k
    using m by (simp add: moved_state_def)
  have "placed_in blocks (agBlocks stored')"
    unfolding placed_in_def
  proof (intro allI impI)
    fix k x
    assume "map_of blocks k = Some x"
    then obtain r where r: "row_at t (baDocument b) k = Some r" "x = moved_block ?ms (row_block r)"
      by (auto simp: mv(1) ctx split: if_splits)
    then show "\<exists>b. map_of (agBlocks stored') k = Some b \<and> baseBlock x = baseBlock b"
      using st st' moved_block_base [OF stored_base] by simp
  qed
  moreover have "map_of blocks k \<noteq> None"
    if x: "map_of (agBlocks stored') k = Some x" and a: "k \<in> roBlock ` set ?ms \<or> affected_key ?ms (agBlocks stored) (sibling_key x)" for k x
  proof -
    from x obtain r where r: "row_at t (baDocument b) k = Some r" "x = moved_block ?ms (stored_block t r)" using st st' by auto
    have "k \<in> brID ` set (hot_rows ?row)"
    proof (cases "k \<in> roBlock ` set ?ms")
      case True
      then show ?thesis using target by blast
    next
      case False
      have k: "r \<in> set (document_rows t (baDocument b))" "brID r = k" using row_at_Some [OF r(1)] by simp_all
      with False have "x = stored_block t r"
        by (simp add: r(2) moved_block_unmoved stored_block_def block_of_row_def)
      with a False have "affected_key ?ms (agBlocks stored) (brParent r, brSlot r)" by (simp add: stored_key)
      with affected_siblings [OF s c st k(1)] False k(2) have "r \<in> set (reorder_siblings t (baDocument b) ?ms)" by simp
      then show ?thesis using k(2) by (auto simp: hot_rows_def hotReorderMutationSQL_def Let_def)
    qed
    then show ?thesis using mv(1) ctx r(1) by simp
  qed
  ultimately show ?thesis using mv(2) by (auto simp: keyed_def)
qed

section \<open>Positions\<close>

lemma map_of_filter_value:
  "distinct (map fst xs) \<Longrightarrow>
   map_of (filter (\<lambda>(k, b). P b) xs) k = (case map_of xs k of None \<Rightarrow> None | Some b \<Rightarrow> if P b then Some b else None)"
  by (induction xs) (auto simp: map_of_eq_None_iff image_iff split: option.splits)

text \<open>The siblings of one container decide whether its positions are dense.\<close>

lemma dense_container:
  assumes "distinct (map fst bs)" and "distinct (map fst cs)"
    and bc: "\<And>k x. map_of bs k = Some x \<Longrightarrow> sibling_key x = key \<Longrightarrow> \<exists>y. map_of cs k = Some y \<and> baseBlock x = baseBlock y"
    and cb: "\<And>k y. map_of cs k = Some y \<Longrightarrow> sibling_key y = key \<Longrightarrow> \<exists>x. map_of bs k = Some x \<and> baseBlock x = baseBlock y"
  shows "dense (positions bs key) = dense (positions cs key)"
proof -
  let ?f = "filter (\<lambda>(k, b). sibling_key b = key)"
  have key: "baseBlock x = baseBlock y \<Longrightarrow> sibling_key x = sibling_key y" for x y by (simp add: baseBlock_eq sibling_key_def)
  have "same_base (?f bs) (?f cs)"
    unfolding same_base_def
  proof
    fix k
    show "map_option baseBlock (map_of (?f bs) k) = map_option baseBlock (map_of (?f cs) k)"
    proof (cases "\<exists>x. map_of bs k = Some x \<and> sibling_key x = key")
      case True
      then obtain x y where "map_of bs k = Some x" "sibling_key x = key" "map_of cs k = Some y" "baseBlock x = baseBlock y"
        using bc [of k] by blast
      then show ?thesis using key [of x y] by (simp add: map_of_filter_value assms(1,2))
    next
      case False
      then have "\<nexists>y. map_of cs k = Some y \<and> sibling_key y = key" using cb [of k] key by metis
      then show ?thesis using False by (simp add: map_of_filter_value assms(1,2) split: option.splits)
    qed
  qed
  moreover have "distinct (map fst (?f xs))" if "distinct (map fst xs)" for xs :: "(uuid \<times> FullBlock) list"
    using that by (induction xs) auto
  ultimately have "dense (positions (?f bs) key) = dense (positions (?f cs) key)"
    using dense_base assms(1,2) by blast
  then show ?thesis by (simp add: positions_def)
qed

lemma containers_affected:
  assumes s: "reorder_status t b = ''noop'' \<or> reorder_status t b = ''applied''" and c: "consistent t"
    and l: "loadAggregate t (baDocument b) = Inr stored" and slots: "trimmed_slots (baReorders b)"
    and h: "hot_blocks (hrTargets (snd (hotReorderMutationSQL fresh now t b source))) = Inr requested"
  shows "key \<in> set (affectedSiblingContainers requested (baReorders b)) \<longleftrightarrow> affected_key (baReorders b) (agBlocks stored) key"
proof -
  let ?row = "snd (hotReorderMutationSQL fresh now t b source)" and ?ms = "baReorders b"
  have r: "k = sibling_key (block_at requested (roBlock m)) \<longleftrightarrow>
      (\<exists>x. map_of (agBlocks stored) (roBlock m) = Some x \<and> k = sibling_key x)" if m: "m \<in> set ?ms" for m k
  proof -
    obtain q where q: "block_row t (roBlock m) = Some q" "row_at t (baDocument b) (roBlock m) = Some q"
      using accepted_targets [OF s c m] by blast
    have "roBlock m \<in> brID ` set (hrTargets ?row)"
      using q(1) block_row_Some [OF q(1)] m by (force simp: hotReorderMutationSQL_def Let_def)
    moreover have "\<forall>r \<in> set (hrTargets ?row). row_at t (baDocument b) (brID r) = Some r"
      by (intro ballI hot_rows_stored [OF s c, of _ fresh now source]) (simp add: hot_rows_def)
    ultimately have "map_of requested (roBlock m) = Some (row_block q)" using hot_blocks_map(1) [OF h] q(2) by fastforce
    moreover have "map_of (agBlocks stored) (roBlock m) = Some (stored_block t q)"
      using load_stored [OF c l] q(2) by (simp add: stored_as_def)
    ultimately show ?thesis by (auto simp: block_at_def stored_key)
  qed
  have trim: "trim_space (roSlot m) = roSlot m" if "m \<in> set ?ms" for m using slots that by (simp add: trimmed_slots_def list_all_iff)
  have "key \<in> set (affectedSiblingContainers requested ?ms) \<longleftrightarrow>
      (\<exists>m \<in> set ?ms. key = (roParent m, trim_space (roSlot m)) \<or> key = sibling_key (block_at requested (roBlock m)))"
    by (auto simp: affectedSiblingContainers_def)
  also have "\<dots> \<longleftrightarrow> affected_key ?ms (agBlocks stored) key"
    unfolding affected_key_def by (intro bex_cong refl) (simp only: r trim)
  finally show ?thesis .
qed

section \<open>The whole document\<close>

text \<open>Above an unmoved block the old walk goes on until it meets a moved one.\<close>

lemma height_after_moves:
  assumes "height old k n" and "\<And>j. j \<notin> moved \<Longrightarrow> new j = old j" and "\<And>j. j \<in> moved \<Longrightarrow> \<exists>m. height new j m"
  shows "\<exists>m. height new k m"
  using assms(1)
proof (induction rule: height.induct)
  case (outside x)
  then show ?case using assms(2) [of x] assms(3) [of x] height.outside [of new x] by (cases "x \<in> moved") auto
next
  case (child x p n)
  then show ?case using assms(2) [of x] assms(3) [of x] height.child [of new x p] by (cases "x \<in> moved") auto
qed

lemma validateHotReorderResult_stages:
  assumes "validateHotReorderResult co row ms = Inr u"
  obtains lim ctx requested ids locales attachments blocks where
    "coLimits co (hrProfile row) = Inr lim" "hot_blocks (hot_rows row) = Inr ctx" "hot_blocks (hrTargets row) = Inr requested"
    "affectedAncestryIDs (fold move_block ms ctx) ms (limMaxDepth lim) = Inr ids"
    "hot_locales (hrLocales row) = Inr locales"
    "fold_result (normalize_affected co (hrProfile row) locales attachments) (fold move_block ms ctx) ids = Inr blocks"
    "validateAffectedParents co (hrProfile row) blocks ids = None"
    "validateAffectedSiblingDensity blocks (affectedSiblingContainers requested ms) = None"
  using assms by (auto simp: validateHotReorderResult_def hot_rows_def and_then_Inr Let_def guard_error_Inr)

text \<open>The structure of the document after a reorder, but for the depth of what hangs below the moved blocks.\<close>

definition placed_forest :: "Contract \<Rightarrow> string \<Rightarrow> (uuid \<times> FullBlock) list \<Rightarrow> bool" where
  "placed_forest co p blocks \<longleftrightarrow>
     (\<forall>k b. map_of blocks k = Some b \<longrightarrow> parent_ok co p blocks b \<and> (\<exists>n. height (block_parents blocks) k n)) \<and>
     (\<forall>key. dense (positions blocks key))"

lemma density_positions: "validateAffectedSiblingDensity blocks cs = None \<longleftrightarrow> (\<forall>c \<in> set cs. dense (positions blocks c))"
proof -
  have "map bbPosition (filter (\<lambda>b. sibling_key b = c) (map snd blocks)) = positions blocks c" for c
    by (simp add: positions_def filter_map o_def case_prod_unfold)
  then show ?thesis by (simp add: validateAffectedSiblingDensity_def check_all_None)
qed

lemma density_after_moves:
  assumes v: "valid_aggregate co source stored" and m: "moved_state ms stored stored'" and d: "distinct (map roBlock ms)"
    and p: "placed_in blocks (agBlocks stored')" and "distinct (map fst blocks)"
    and held: "\<And>k x. map_of (agBlocks stored') k = Some x \<Longrightarrow> affected_key ms (agBlocks stored) (sibling_key x) \<Longrightarrow> map_of blocks k \<noteq> None"
    and ok: "affected_key ms (agBlocks stored) key \<Longrightarrow> dense (positions blocks key)"
  shows "dense (positions (agBlocks stored') key)"
proof -
  let ?new = "agBlocks stored'" and ?old = "agBlocks stored"
  have keyed: "keyed ?old" using v by (simp add: valid_aggregate_def)
  have new: "map_of ?new k = map_option (moved_block ms) (map_of ?old k)" for k using m by (simp add: moved_state_def)
  have dist: "distinct (map fst ?new)" "distinct (map fst ?old)" using m keyed by (simp_all add: moved_state_def keyed_def)
  show ?thesis
  proof (cases "affected_key ms ?old key")
    case True
    have "dense (positions blocks key) = dense (positions ?new key)"
    proof (rule dense_container [OF assms(5) dist(1)])
      fix k y
      assume y: "map_of ?new k = Some y" "sibling_key y = key"
      then obtain x where x: "map_of blocks k = Some x" using held True by blast
      then show "\<exists>x. map_of blocks k = Some x \<and> baseBlock x = baseBlock y" using placed_in_at [OF p x] y by auto
    qed (use placed_in_at [OF p] in blast)
    then show ?thesis using ok True by simp
  next
    case False
    have out: "sibling_key (moved_block ms x) \<noteq> key \<and> sibling_key x \<noteq> key"
      if "k \<in> roBlock ` set ms" "map_of ?old k = Some x" for k x
      using that False moved_block_moved [OF d] keyed_at [OF keyed that(2)] by (auto simp: affected_key_def sibling_key_def)
    have same: "map_of ?new k = map_of ?old k" if "k \<notin> roBlock ` set ms" for k
      using new keyed_at [OF keyed] moved_block_unmoved that by (cases "map_of ?old k") auto
    have "dense (positions ?new key) = dense (positions ?old key)"
    proof (rule dense_container [OF dist])
      fix k x
      assume x: "map_of ?new k = Some x" "sibling_key x = key"
      then obtain y where y: "map_of ?old k = Some y" "x = moved_block ms y" using new by auto
      then have "k \<notin> roBlock ` set ms" using out x by blast
      then show "\<exists>y. map_of ?old k = Some y \<and> baseBlock x = baseBlock y" using same x by auto
    next
      fix k y
      assume y: "map_of ?old k = Some y" "sibling_key y = key"
      then have "k \<notin> roBlock ` set ms" using out by blast
      then show "\<exists>x. map_of ?new k = Some x \<and> baseBlock x = baseBlock y" using same y by auto
    qed
    then show ?thesis using v unfolding valid_aggregate_def structure_ok_height by blast
  qed
qed

context placed_contract
begin

lemma parents_after_moves:
  assumes v: "valid_aggregate co source stored" and m: "moved_state ms stored stored'"
    and p: "placed_in blocks (agBlocks stored')" and ids: "roBlock ` set ms \<subseteq> set ids"
    and inside: "\<And>k. k \<in> set ids \<Longrightarrow> map_of blocks k \<noteq> None"
    and ok: "validateAffectedParents co (cdProfile (agDocument stored)) blocks ids = None"
    and x: "map_of (agBlocks stored') k = Some x"
  shows "parent_ok co (cdProfile (agDocument stored)) (agBlocks stored') x"
proof -
  let ?p = "cdProfile (agDocument stored)"
  from x m obtain b where b: "map_of (agBlocks stored) k = Some b" "x = moved_block ms b" by (auto simp: moved_state_def)
  have bid: "bbID b = k" using v b(1) by (auto simp: valid_aggregate_def keyed_at)
  show ?thesis
  proof (cases "k \<in> roBlock ` set ms")
    case True
    then have k: "k \<in> set ids" using ids by blast
    then obtain y where y: "map_of blocks k = Some y" using inside by blast
    have yx: "baseBlock y = baseBlock x" using placed_in_at [OF p y] x by auto
    have ch: "(case bbParent y of None \<Rightarrow> coValidateParent co ?p None y = None
        | Some q \<Rightarrow> (case map_of blocks q of None \<Rightarrow> False | Some parent \<Rightarrow> coValidateParent co ?p (Some parent) y = None))"
      using bspec [OF ok [unfolded validateAffectedParents_def check_all_None] k] y
      by (auto simp: block_at_def Let_def split: option.splits)
    show ?thesis
    proof (cases "bbParent y")
      case None
      then show ?thesis using ch yx parent_free [of None None y x ?p] by (simp add: parent_ok_def baseBlock_eq same_kind_def)
    next
      case (Some q)
      with ch obtain parent where q: "map_of blocks q = Some parent" "coValidateParent co ?p (Some parent) y = None"
        by (auto split: option.splits)
      from placed_in_at [OF p q(1)] obtain z where "map_of (agBlocks stored') q = Some z" "baseBlock parent = baseBlock z" by blast
      moreover from this have "coValidateParent co ?p (Some z) x = None"
        using q(2) yx parent_free [of "Some parent" "Some z" y x ?p] by (simp add: baseBlock_eq same_kind_def)
      moreover have "bbParent x = Some q" using yx Some by (simp add: baseBlock_eq)
      ultimately show ?thesis by (simp add: parent_ok_def)
    qed
  next
    case False
    then have xb: "x = b" using b(2) bid by (simp add: moved_block_unmoved)
    have "parent_ok co ?p (agBlocks stored) b" using v b(1) by (auto simp: valid_aggregate_def structure_ok_height)
    then show ?thesis using m parent_free [of "Some z" "Some (moved_block ms z)" b b ?p for z]
      by (auto simp: parent_ok_def xb moved_state_def same_kind_def split: option.splits)
  qed
qed

lemma reorder_forest:
  assumes c: "consistent t" and l: "loadAggregate t (baDocument b) = Inr stored" and v: "valid_aggregate co source stored"
    and sl: "slot_rules co" and kinds: "trimmed_kinds stored" and slots: "trimmed_slots (baReorders b)"
    and s: "reorder_status t b = ''noop'' \<or> reorder_status t b = ''applied''" and ids: "validateOperationIDs b = None"
    and m: "moved_state (baReorders b) stored stored'"
    and h: "validateHotReorderResult co (snd (hotReorderMutationSQL fresh now t b source)) (baReorders b) = Inr u"
  shows "placed_forest co (cdProfile (agDocument stored)) (agBlocks stored') \<and>
    (\<exists>lim. coLimits co (cdProfile (agDocument stored)) = Inr lim \<and>
       (\<forall>r \<in> set (baReorders b). \<exists>n. height (block_parents (agBlocks stored')) (roBlock r) n \<and> int n < limMaxDepth lim))"
proof -
  let ?row = "snd (hotReorderMutationSQL fresh now t b source)" and ?ms = "baReorders b"
  let ?p = "cdProfile (agDocument stored)" and ?new = "agBlocks stored'" and ?old = "agBlocks stored"
  from load_stored [OF c l] have "loadContentDocument t (baDocument b) = Inr (agDocument stored)" by (simp add: stored_as_def)
  then have prof: "hrProfile ?row = ?p"
    by (auto simp: hotReorderMutationSQL_def Let_def loadContentDocument_def split: option.splits)
  from validateHotReorderResult_stages [OF h] obtain lim ctx requested vids locales attachments blocks where
      lim: "coLimits co ?p = Inr lim" and ctx: "hot_blocks (hot_rows ?row) = Inr ctx" and req: "hot_blocks (hrTargets ?row) = Inr requested"
      and walks: "affectedAncestryIDs (fold move_block ?ms ctx) ?ms (limMaxDepth lim) = Inr vids"
      and locales: "hot_locales (hrLocales ?row) = Inr locales"
      and norm: "fold_result (normalize_affected co ?p locales attachments) (fold move_block ?ms ctx) vids = Inr blocks"
      and parents: "validateAffectedParents co ?p blocks vids = None"
      and dense: "validateAffectedSiblingDensity blocks (affectedSiblingContainers requested ?ms) = None"
    unfolding prof by blast
  note d = distinct_reorders [OF ids]
  note in_ctx = hot_context [OF s c l m d ctx]
  note walked = affectedAncestryIDs_walks [OF walks]
  have "\<exists>X. hrLocales ?row = filter (\<lambda>r. olLocale r = source \<and> olBlock r \<in> X) (tbLocales t)"
    by (simp only: hotReorderMutationSQL_def Let_def snd_conv hotReorderResultRow.simps) (rule exI, rule refl)
  then obtain X where X: "hot_locales (filter (\<lambda>r. olLocale r = source \<and> olBlock r \<in> X) (tbLocales t)) = Inr locales"
    using locales by auto
  have placed: "placed_in blocks ?new" "map fst blocks = map fst (fold move_block ?ms ctx)"
    using normalized_placed [OF c l v sl kinds slots m X norm] in_ctx walked by blast+
  have keys: "map_of blocks k = None \<longleftrightarrow> map_of (fold move_block ?ms ctx) k = None" for k
    using placed(2) by (metis map_of_eq_None_iff set_map)
  have height: "\<exists>n. height (block_parents ?new) (roBlock r) n \<and> int n < limMaxDepth lim" "roBlock r \<in> set vids" if "r \<in> set ?ms" for r
  proof -
    from walked that obtain path where path: "ancestry_walk (nat (limMaxDepth lim)) (fold move_block ?ms ctx) [] (roBlock r) = Inr path" "set path \<subseteq> set vids"
      by blast
    have "block_parents ?new j = bbParent x" if "map_of (fold move_block ?ms ctx) j = Some x" for j x
      using placed_in_at [OF conjunct1 [OF in_ctx] that] by (auto simp: block_parents_def baseBlock_eq)
    from ancestry_walk_height [where par = "block_parents ?new", OF path(1) this] path(2)
    show "\<exists>n. height (block_parents ?new) (roBlock r) n \<and> int n < limMaxDepth lim" "roBlock r \<in> set vids" by auto
  qed
  have keyed: "keyed ?old" using v by (simp add: valid_aggregate_def)
  have new: "map_of ?new k = map_option (moved_block ?ms) (map_of ?old k)" for k using m by (simp add: moved_state_def)
  have unmoved: "map_of ?new k = map_of ?old k" if "k \<notin> roBlock ` set ?ms" for k
    using new keyed_at [OF keyed] moved_block_unmoved that by (cases "map_of ?old k") auto
  have "parent_ok co ?p ?new x \<and> (\<exists>n. height (block_parents ?new) k n)" if x: "map_of ?new k = Some x" for k x
  proof
    show "parent_ok co ?p ?new x"
      by (rule parents_after_moves [OF v m placed(1) _ _ parents x]) (use height(2) walked keys in auto)
    from x obtain y where "map_of ?old k = Some y" using new by auto
    then obtain n where "height (block_parents ?old) k n" using v unfolding valid_aggregate_def structure_ok_height by blast
    then show "\<exists>n. height (block_parents ?new) k n"
      by (rule height_after_moves [where moved = "roBlock ` set ?ms"]) (use unmoved height(1) in \<open>auto simp: block_parents_def\<close>)
  qed
  moreover have "dense (positions ?new key)" for key
    by (rule density_after_moves [OF v m d placed(1)])
      (use dense containers_affected [OF s c l slots req] placed(2) in_ctx keys in
        \<open>auto simp: density_positions simp del: split_paired_All\<close>)
  ultimately show ?thesis using lim height(1) by (auto simp: placed_forest_def)
qed

text \<open>Payloads do not depend on places, so only the depth is left to check.\<close>

lemma moved_valid:
  assumes sl: "slot_rules co" and v: "valid_aggregate co source stored" and m: "moved_state ms stored stored'"
    and pos: "\<And>r. r \<in> set ms \<Longrightarrow> 0 \<le> roPosition r" and lim: "coLimits co (cdProfile (agDocument stored)) = Inr lim"
    and f: "placed_forest co (cdProfile (agDocument stored)) (agBlocks stored')"
    and deep: "\<And>k n. map_of (agBlocks stored') k \<noteq> None \<Longrightarrow> height (block_parents (agBlocks stored')) k n \<Longrightarrow> int n < limMaxDepth lim"
  shows "valid_aggregate co source stored'"
proof -
  let ?p = "cdProfile (agDocument stored)"
  have keyed: "keyed (agBlocks stored)" using v by (simp add: valid_aggregate_def)
  have new: "map_of (agBlocks stored') k = map_option (moved_block ms) (map_of (agBlocks stored) k)" for k using m by (simp add: moved_state_def)
  have len: "length (agBlocks stored') = length (agBlocks stored)" and prof: "cdProfile (agDocument stored') = ?p"
    using m by (simp_all add: moved_state_def) (metis length_map)
  obtain lim' where "validateAggregateEnvelope co stored source = Inr lim'" using v by (auto simp: valid_aggregate_def)
  then have env: "validateAggregateEnvelope co stored' source = Inr lim"
    using lim len prof by (auto simp: validateAggregateEnvelope_def guard_error_Inr and_then_Inr)
  have "map_of (locales_of stored' k) source \<noteq> None \<and> loose_ok co ?p x (locales_of stored' k)"
    if x: "map_of (agBlocks stored') k = Some x" for k x
  proof -
    from x obtain y where y: "map_of (agBlocks stored) k = Some y" "x = moved_block ms y" using new by auto
    have ls: "set (locales_of stored' k) = set (locales_of stored k)" using m by (simp add: moved_state_def)
    have b: "map_of (locales_of stored k) source \<noteq> None" "payload_ok co ?p y (locales_of stored k)"
      using v y(1) by (auto simp: valid_aggregate_def block_ok_def)
    then have "loose_ok co ?p y (locales_of stored k)" by (intro payload_loose) auto
    then have "loose_ok co ?p x (locales_of stored k)"
      using loose_ok_place [of co ?p y "locales_of stored k"] pos
      by (auto simp: y(2) moved_block_def find_Some_iff split: option.splits)
    moreover have "map_of (locales_of stored' k) source \<noteq> None" using b(1) ls by (simp add: map_of_eq_None_iff)
    ultimately show ?thesis using loose_ok_subset ls by blast
  qed
  moreover have "keyed (agBlocks stored')"
    using keyed m keyed_at [OF keyed] by (auto simp: keyed_def moved_state_def)
  ultimately have kept: "kept_ok co source ?p {} stored'" by (simp add: kept_ok_def prof)
  have "structure_ok co ?p (agBlocks stored') lim"
    unfolding structure_ok_height using f deep unfolding placed_forest_def by (metis option.distinct(1))
  then show ?thesis by (rule kept_valid [OF sl kept env]) simp
qed

end

lemma noop_moves:
  assumes s: "reorder_status t b = ''noop''" and c: "consistent t" and l: "loadAggregate t (baDocument b) = Inr stored"
  shows "moved_state (baReorders b) stored stored"
proof -
  let ?ms = "baReorders b"
  note st = load_stored [OF c l]
  have "moved_block ?ms x = x" if x: "map_of (agBlocks stored) k = Some x" for k x
  proof (cases "find (\<lambda>m. roBlock m = bbID x) ?ms")
    case (Some m)
    then have m: "m \<in> set ?ms" "roBlock m = bbID x" by (auto simp: find_Some_iff)
    obtain q where q: "row_at t (baDocument b) k = Some q" "x = stored_block t q" using st x by (auto simp: stored_as_def)
    obtain r where r: "block_row t (roBlock m) = Some r" "row_at t (baDocument b) (roBlock m) = Some r"
      using accepted_targets [OF disjI1 [OF s] c m(1)] by blast
    have "r = q" using q r(2) m(2) row_at_Some [OF q(1)] by (simp add: stored_block_def block_of_row_def)
    moreover have "\<not> displaced m r"
      using accepted_status(5) [OF disjI1 [OF s]] s m(1) r(1) by (force simp: moves_some_def list_ex_iff)
    ultimately show ?thesis using Some q(2) by (simp add: moved_block_def displaced_def stored_block_def block_of_row_def)
  qed (simp add: moved_block_def)
  then have "map_of (agBlocks stored) k = map_option (moved_block ?ms) (map_of (agBlocks stored) k)" for k
    by (cases "map_of (agBlocks stored) k") simp_all
  then show ?thesis using st by (simp add: moved_state_def stored_as_def)
qed

text \<open>An accepted reorder is the statement with an accepting status and accepting checks.\<close>

lemma reorder_accepted:
  assumes "applyReorderCTEPostgres se fresh now t b source = Inr (t', res)"
  shows "validateOperationIDs b = None" and "reorder_status t b = ''noop'' \<or> reorder_status t b = ''applied''"
    and "validateHotReorderResult (seContract se) (snd (hotReorderMutationSQL fresh now t b source)) (baReorders b) = Inr ()"
    and "t' = fst (hotReorderMutationSQL fresh now t b source)" and "brRevision res = hrRevision (snd (hotReorderMutationSQL fresh now t b source))"
    and "brChanged res \<longleftrightarrow> reorder_status t b = ''applied''"
proof -
  let ?r = "hotReorderMutationSQL fresh now t b source"
  have st: "hrStatus (snd ?r) = reorder_status t b" by (simp add: hotReorderMutationSQL_def Let_def)
  have "validateOperationIDs b = None \<and> (reorder_status t b = ''noop'' \<or> reorder_status t b = ''applied'') \<and>
      validateHotReorderResult (seContract se) (snd ?r) (baReorders b) = Inr () \<and> t' = fst ?r \<and> brRevision res = hrRevision (snd ?r) \<and>
      (brChanged res \<longleftrightarrow> reorder_status t b = ''applied'')"
    using assms st by (auto simp: applyReorderCTEPostgres_def guard_error_Inr and_then_Inr Let_def unchangedResult_def split: prod.splits if_splits)
  then show "validateOperationIDs b = None" "reorder_status t b = ''noop'' \<or> reorder_status t b = ''applied''"
    "validateHotReorderResult (seContract se) (snd ?r) (baReorders b) = Inr ()" "t' = fst ?r" "brRevision res = hrRevision (snd ?r)"
    "brChanged res \<longleftrightarrow> reorder_status t b = ''applied''" by blast+
qed

lemma reorder_loads:
  assumes c: "consistent t" and l: "loadAggregate t (baDocument b) = Inr stored"
    and a: "applyReorderCTEPostgres se fresh now t b source = Inr (t', res)"
  shows "consistent t' \<and> cdRevision (agDocument stored) = baExpectedRevision b \<and>
    (\<exists>stored'. loadAggregate t' (baDocument b) = Inr stored' \<and> moved_state (baReorders b) stored stored' \<and>
       brRevision res = cdRevision (agDocument stored') \<and> brRevision res = (if brChanged res then fresh else baExpectedRevision b))"
proof -
  note r = reorder_accepted [OF a]
  note s = accepted_status [OF r(2)]
  have doc: "find (\<lambda>d. cdID d = baDocument b) (tbDocuments t) = Some (agDocument stored)"
    using load_stored [OF c l] by (auto simp: stored_as_def loadContentDocument_def split: option.splits)
  show ?thesis
  proof (cases "reorder_status t b = ''applied''")
    case True
    have "t' = t\<lparr>tbDocuments := map (\<lambda>d. if cdID d = baDocument b then bump fresh now d else d) (tbDocuments t),
        tbBlocks := reorder_rows (baDocument b) (baReorders b) (tbBlocks t)\<rparr>"
      using True r(4) reorder_rows_displaced [OF c distinct_reorders [OF r(1)]]
      by (simp add: hotReorderMutationSQL_def Let_def bump_def [abs_def])
    from statement_stores [OF c l distinct_reorders [OF r(1)] this] show ?thesis
      using s(1) doc r(5,6) True by (auto simp: hotReorderMutationSQL_def Let_def bump_def)
  next
    case False
    then have n: "reorder_status t b = ''noop''" using r(2) by blast
    then have "t' = t" using r(4) by (simp add: hotReorderMutationSQL_def Let_def)
    then show ?thesis using noop_moves [OF n c l] c l s(1) doc r(5,6) n by (auto simp: hotReorderMutationSQL_def Let_def)
  qed
qed

context placed_contract
begin

lemma reorder_stored:
  assumes "seContract se = co" and sl: "slot_rules co" and c: "consistent t" and l: "loadAggregate t (baDocument b) = Inr stored"
    and v: "valid_aggregate co source stored" and kinds: "trimmed_kinds stored" and slots: "trimmed_slots (baReorders b)"
    and a: "applyReorderCTEPostgres se fresh now t b source = Inr (t', res)"
  shows "\<exists>stored' lim. consistent t' \<and> cdRevision (agDocument stored) = baExpectedRevision b \<and>
    loadAggregate t' (baDocument b) = Inr stored' \<and> moved_state (baReorders b) stored stored' \<and>
    brRevision res = cdRevision (agDocument stored') \<and>
    placed_forest co (cdProfile (agDocument stored)) (agBlocks stored') \<and>
    coLimits co (cdProfile (agDocument stored)) = Inr lim \<and>
    (\<forall>r \<in> set (baReorders b). \<exists>n. height (block_parents (agBlocks stored')) (roBlock r) n \<and> int n < limMaxDepth lim) \<and>
    ((\<forall>k n. map_of (agBlocks stored') k \<noteq> None \<and> height (block_parents (agBlocks stored')) k n \<longrightarrow> int n < limMaxDepth lim) \<longrightarrow>
       valid_aggregate co source stored')"
proof -
  note r = reorder_accepted [OF a, unfolded assms(1)]
  obtain stored' where st: "consistent t'" "cdRevision (agDocument stored) = baExpectedRevision b" "loadAggregate t' (baDocument b) = Inr stored'"
      "moved_state (baReorders b) stored stored'" "brRevision res = cdRevision (agDocument stored')"
    using reorder_loads [OF c l a] by blast
  from reorder_forest [OF c l v sl kinds slots r(2,1) st(4) r(3)] obtain lim where
      f: "placed_forest co (cdProfile (agDocument stored)) (agBlocks stored')" and lim: "coLimits co (cdProfile (agDocument stored)) = Inr lim"
      and h: "\<forall>r \<in> set (baReorders b). \<exists>n. height (block_parents (agBlocks stored')) (roBlock r) n \<and> int n < limMaxDepth lim"
    by blast
  show ?thesis using st f lim h moved_valid [OF sl v st(4) reorder_positions [OF r(1)] lim f] by blast
qed

end

end
