(* ===== verification/Content_Dispatch.thy ===== *)
theory Content_Dispatch
  imports Content_Hot_Shared Content_Moves
begin

text \<open>
  What all paths of \<open>ApplyBatch\<close> have in common: the batch was made for the stored revision, other documents are
  not touched, and the document row has the reported revision afterwards. For batches of overlays: what is stored.
\<close>

section \<open>Rows of other documents\<close>

text \<open>The three statements update the document row and nothing else in its table.\<close>

definition bumps :: "uuid \<Rightarrow> uuid \<Rightarrow> int \<Rightarrow> tables \<Rightarrow> tables \<Rightarrow> bool" where
  "bumps document fresh now t t' \<longleftrightarrow>
     tbDocuments t' = map (\<lambda>d. if cdID d = document then d\<lparr>cdRevision := fresh, cdUpdatedAt := now\<rparr> else d) (tbDocuments t)"

lemma bumps_others:
  assumes "bumps document fresh now t t'" and "d \<noteq> document"
  shows "loadContentDocument t' d = loadContentDocument t d"
proof -
  have "find (\<lambda>x. cdID x = d) (map (\<lambda>x. if cdID x = document then x\<lparr>cdRevision := fresh, cdUpdatedAt := now\<rparr> else x) ds) =
      find (\<lambda>x. cdID x = d) ds" for ds :: "ContentDocument list" using assms(2) by (induction ds) auto
  then show ?thesis using assms(1) by (simp add: loadContentDocument_def bumps_def)
qed

lemma bumps_document:
  assumes "bumps document fresh now t t'" and "loadContentDocument t document = Inr d"
  shows "loadContentDocument t' document = Inr (bump fresh now d)"
proof -
  have "find (\<lambda>x. cdID x = document) (map (\<lambda>x. if cdID x = document then x\<lparr>cdRevision := fresh, cdUpdatedAt := now\<rparr> else x) ds) =
      map_option (bump fresh now) (find (\<lambda>x. cdID x = document) ds)" for ds :: "ContentDocument list"
    by (induction ds) (auto simp: bump_def)
  then show ?thesis using assms by (auto simp: loadContentDocument_def bumps_def split: option.splits)
qed

lemma foreign_block_row: "consistent t \<Longrightarrow> foreign_row t document k \<Longrightarrow> \<exists>r. block_row t k = Some r \<and> brDocument r \<noteq> document"
  using block_row_member by (fastforce simp: foreign_row_def)

lemma not_foreign:
  assumes "consistent t" and "\<not> foreign_rows t document ids" and "foreign_row t document k"
  shows "k \<notin> set ids"
proof
  assume "k \<in> set ids"
  moreover obtain r where "block_row t k = Some r" "brDocument r \<noteq> document" using foreign_block_row [OF assms(1,3)] by blast
  ultimately show False using assms(2) by (force simp: foreign_rows_def list_ex_iff)
qed

text \<open>Rewriting the block rows of one document.\<close>

lemma rewritten_rows:
  assumes c: "consistent t" and b: "tbBlocks t' = map (\<lambda>r. if brDocument r = document then f r else r) (tbBlocks t)"
    and f: "\<And>r. brID (f r) = brID r \<and> brDocument (f r) = brDocument r" and k: "foreign_row t document k"
  shows "row_at t' d k = row_at t d k"
proof -
  let ?g = "\<lambda>r. if brDocument r = document then f r else r"
  have g: "row_at t' d k = map_option ?g (row_at t d k)"
    unfolding row_at_def b by (rule find_map) (simp add: f)
  show ?thesis
  proof (cases "row_at t d k")
    case (Some r)
    then have r: "brID r = k" "brDocument r = d" "r \<in> set (tbBlocks t)" by (auto simp: row_at_def find_Some_iff)
    then have "row_at t document k = Some r" if "d = document" using Some that by simp
    then have "d \<noteq> document" using foreign_row_at [OF c k] by auto
    then show ?thesis using g Some r(2) by simp
  qed (simp add: g)
qed

section \<open>The contract of every path\<close>

definition path_ok :: "Batch \<Rightarrow> uuid \<Rightarrow> tables \<Rightarrow> tables \<Rightarrow> BatchResult \<Rightarrow> bool" where
  "path_ok b fresh t t' res \<longleftrightarrow> keeps_foreign (baDocument b) t t' \<and>
     (\<exists>d d'. loadContentDocument t (baDocument b) = Inr d \<and> cdRevision d = baExpectedRevision b \<and>
        loadContentDocument t' (baDocument b) = Inr d' \<and> cdRevision d' = brRevision res) \<and>
     (if brChanged res then brRevision res = fresh else t' = t \<and> brRevision res = baExpectedRevision b)"

lemma path_okI:
  assumes "loadContentDocument t (baDocument b) = Inr d" and "cdRevision d = baExpectedRevision b"
    and "if changed then bumps (baDocument b) fresh now t t' else t' = t"
    and "brRevision res = (if changed then fresh else cdRevision d)" and "brChanged res = changed"
    and "\<And>k. changed \<Longrightarrow> foreign_row t (baDocument b) k \<Longrightarrow>
      (\<forall>d. row_at t' d k = row_at t d k) \<and> (\<forall>l. locale_at t' k l = locale_at t k l) \<and> attachments_at t' k = attachments_at t k"
  shows "path_ok b fresh t t' res"
proof (cases changed)
  case True
  then have k: "keeps_foreign (baDocument b) t t'" using assms(3,6) bumps_others by (auto simp: keeps_foreign_def)
  have "loadContentDocument t' (baDocument b) = Inr (bump fresh now d)" using True assms(1,3) bumps_document by auto
  then show ?thesis using True assms(1,2,4,5) k by (auto simp: path_ok_def bump_def)
next
  case False
  then show ?thesis using assms(1-5) by (auto simp: path_ok_def keeps_foreign_def)
qed

lemma reorder_path:
  assumes c: "consistent t" and a: "applyReorderCTEPostgres se fresh now t b source = Inr (t', res)"
  shows "path_ok b fresh t t' res"
proof -
  note r = reorder_accepted [OF a]
  note s = accepted_status [OF r(2)]
  obtain d where d: "loadContentDocument t (baDocument b) = Inr d" "cdRevision d = baExpectedRevision b"
    using s(1) by (auto simp: loadContentDocument_def)
  have doc: "find (\<lambda>d. cdID d = baDocument b) (tbDocuments t) = Some d"
    using d(1) by (auto simp: loadContentDocument_def split: option.splits)
  show ?thesis
  proof (rule path_okI [OF d, where changed = "reorder_status t b = ''applied''"])
    fix k assume ap: "reorder_status t b = ''applied''" and k: "foreign_row t (baDocument b) k"
    have "tbBlocks t' = map (\<lambda>r. if brDocument r = baDocument b then moved_row (baReorders b) r else r) (tbBlocks t)"
      using r(4) ap reorder_rows_displaced [OF c distinct_reorders [OF r(1)]] by (simp add: hotReorderMutationSQL_def Let_def reorder_rows_moved)
    from rewritten_rows [OF c this _ k] have "row_at t' d k = row_at t d k" for d by simp
    moreover have "tbLocales t' = tbLocales t" "tbAttachments t' = tbAttachments t" using r(4) ap by (simp_all add: hotReorderMutationSQL_def Let_def)
    ultimately show "(\<forall>d. row_at t' d k = row_at t d k) \<and> (\<forall>l. locale_at t' k l = locale_at t k l) \<and> attachments_at t' k = attachments_at t k"
      by (simp add: locale_at_def attachments_at_def)
  next
    show "if reorder_status t b = ''applied'' then bumps (baDocument b) fresh now t t' else t' = t"
      unfolding r(4) by (simp add: hotReorderMutationSQL_def Let_def bumps_def)
    show "brRevision res = (if reorder_status t b = ''applied'' then fresh else cdRevision d)"
      unfolding r(5) by (simp add: hotReorderMutationSQL_def Let_def doc)
    show "brChanged res = (reorder_status t b = ''applied'')" by (rule r(6))
  qed
qed

section \<open>Overlays\<close>

lemma locale_accepted:
  assumes "applyLocaleBatchPostgres same se fresh now t b source = Inr (t', res)"
  obtains inputs where "normalizeHotLocaleInputs se b source = Inr inputs"
    and "locale_status same t b inputs = ''noop'' \<or> locale_status same t b inputs = ''applied''"
    and "t' = fst (hotLocaleMutationSQL same fresh now t b inputs)"
    and "brRevision res = hlrRevision (snd (hotLocaleMutationSQL same fresh now t b inputs))"
    and "brChanged res \<longleftrightarrow> locale_status same t b inputs = ''applied''"
proof -
  from assms obtain inputs where i: "normalizeHotLocaleInputs se b source = Inr inputs"
    by (auto simp: applyLocaleBatchPostgres_def and_then_Inr)
  let ?r = "hotLocaleMutationSQL same fresh now t b inputs"
  have st: "hlrStatus (snd ?r) = locale_status same t b inputs" by (simp add: hotLocaleMutationSQL_def Let_def)
  have "(locale_status same t b inputs = ''noop'' \<or> locale_status same t b inputs = ''applied'') \<and> t' = fst ?r \<and>
      brRevision res = hlrRevision (snd ?r) \<and> (brChanged res \<longleftrightarrow> locale_status same t b inputs = ''applied'')"
    using assms i st by (cases ?r) (auto simp: applyLocaleBatchPostgres_def and_then_Inr Let_def unchangedResult_def split: if_splits)
  then show thesis using that i by blast
qed

lemma locale_accepted_status:
  assumes "locale_status same t b inputs = ''noop'' \<or> locale_status same t b inputs = ''applied''"
  shows "\<exists>d. find (\<lambda>d. cdID d = baDocument b) (tbDocuments t) = Some d \<and> cdRevision d = baExpectedRevision b \<and> cdProfile d = baProfile b"
    and "\<not> foreign_rows t (baDocument b) (map hlBlock inputs)" and "\<not> missing_row t (map hlBlock inputs)"
    and "locale_status same t b inputs = ''noop'' \<longleftrightarrow>
      \<not> list_ex (\<lambda>i. owned_block t (baDocument b) (hlBlock i) \<and> overlay_changes same t i) inputs"
  using assms unfolding locale_status_def
  by (cases "find (\<lambda>d. cdID d = baDocument b) (tbDocuments t)"; simp split: if_splits)+

lemma inputs_owned:
  assumes "locale_status same t b inputs = ''noop'' \<or> locale_status same t b inputs = ''applied''" and "i \<in> set inputs"
  shows "owned_block t (baDocument b) (hlBlock i)"
proof -
  note s = locale_accepted_status(2,3) [OF assms(1)]
  from s(2) assms(2) obtain r where r: "block_row t (hlBlock i) = Some r" unfolding missing_row_def list_ex_iff by fastforce
  have "hlBlock i \<in> set (map hlBlock inputs)" using assms(2) by simp
  with s(1) r have "brDocument r = baDocument b" by (force simp: foreign_rows_def list_ex_iff)
  then show ?thesis using r by (simp add: owned_block_def)
qed

definition input_key :: "hotLocaleInput \<Rightarrow> uuid \<times> string" where
  "input_key i = (hlBlock i, hlLocale i)"

definition input_row :: "hotLocaleInput \<Rightarrow> blockLocaleRow" where
  "input_row i = \<lparr>olBlock = hlBlock i, olLocale = hlLocale i, olData = hlData i\<rparr>"

lemma input_row_key [simp]: "locale_key (input_row i) = input_key i"
  by (simp add: locale_key_def input_row_def input_key_def)

text \<open>The overlays after the statement.\<close>

lemma locale_statement:
  assumes "locale_status same t b inputs = ''applied''"
  shows "fst (hotLocaleMutationSQL same fresh now t b inputs) =
    t\<lparr>tbDocuments := map (\<lambda>d. if cdID d = baDocument b then d\<lparr>cdRevision := fresh, cdUpdatedAt := now\<rparr> else d) (tbDocuments t),
      tbLocales := foldl put_locale_row (filter (\<lambda>r. locale_key r \<notin> input_key ` set (filter hlDelete inputs)) (tbLocales t))
        (map input_row (filter (\<lambda>i. \<not> hlDelete i \<and> overlay_changes same t i) inputs))\<rparr>"
proof -
  have o: "owned_block t (baDocument b) (hlBlock i)" if "i \<in> set inputs" for i using inputs_owned [OF disjI2 [OF assms] that] .
  have "filter (\<lambda>i. hlDelete i \<and> owned_block t (baDocument b) (hlBlock i)) inputs = filter hlDelete inputs"
    "filter (\<lambda>i. \<not> hlDelete i \<and> owned_block t (baDocument b) (hlBlock i) \<and> overlay_changes same t i) inputs =
      filter (\<lambda>i. \<not> hlDelete i \<and> overlay_changes same t i) inputs"
    using o by (auto intro!: filter_cong)
  then show ?thesis by (simp add: hotLocaleMutationSQL_def Let_def assms input_key_def [abs_def] input_row_def [abs_def] del: set_filter)
qed

lemma locale_path:
  assumes c: "consistent t" and a: "applyLocaleBatchPostgres same se fresh now t b source = Inr (t', res)"
  shows "path_ok b fresh t t' res"
proof -
  from locale_accepted [OF a] obtain inputs where s: "locale_status same t b inputs = ''noop'' \<or> locale_status same t b inputs = ''applied''"
      and t': "t' = fst (hotLocaleMutationSQL same fresh now t b inputs)"
      and rev: "brRevision res = hlrRevision (snd (hotLocaleMutationSQL same fresh now t b inputs))"
      and ch: "brChanged res \<longleftrightarrow> locale_status same t b inputs = ''applied''" .
  from locale_accepted_status(1) [OF s] obtain d where
      doc: "find (\<lambda>d. cdID d = baDocument b) (tbDocuments t) = Some d" and d: "cdRevision d = baExpectedRevision b" by blast
  show ?thesis
  proof (rule path_okI [where d = d and changed = "locale_status same t b inputs = ''applied''" and now = now])
    fix k assume ap: "locale_status same t b inputs = ''applied''" and k: "foreign_row t (baDocument b) k"
    have no: "k \<notin> set (map hlBlock inputs)" by (rule not_foreign [OF c locale_accepted_status(2) [OF s] k])
    have "locale_at t' k l = locale_at t k l" for l
    proof -
      have "(k, l) \<notin> locale_key ` set (map input_row (filter (\<lambda>i. \<not> hlDelete i \<and> overlay_changes same t i) inputs))"
        using no by (auto simp: input_row_key input_key_def image_image)
      moreover have "find (\<lambda>x. locale_key x = (k, l)) (filter (\<lambda>r. locale_key r \<notin> input_key ` set (filter hlDelete inputs)) rows) =
          find (\<lambda>x. locale_key x = (k, l)) rows" for rows
        using no by (induction rows) (auto simp: input_key_def)
      ultimately show ?thesis by (simp add: locale_at_def t' locale_statement [OF ap] put_locale_rows(3))
    qed
    then show "(\<forall>d. row_at t' d k = row_at t d k) \<and> (\<forall>l. locale_at t' k l = locale_at t k l) \<and> attachments_at t' k = attachments_at t k"
      by (simp add: t' locale_statement [OF ap] row_at_def attachments_at_def)
  next
    show "if locale_status same t b inputs = ''applied'' then bumps (baDocument b) fresh now t t' else t' = t"
      unfolding t' by (simp add: hotLocaleMutationSQL_def Let_def bumps_def)
    show "brRevision res = (if locale_status same t b inputs = ''applied'' then fresh else cdRevision d)"
      unfolding rev by (simp add: hotLocaleMutationSQL_def Let_def doc)
  qed (use doc d ch in \<open>simp_all add: loadContentDocument_def\<close>)
qed

text \<open>The inputs have the keys of the batch, and these are different.\<close>

definition group_keys :: "LocaleMutationGroup \<Rightarrow> (uuid \<times> string) list" where
  "group_keys g = map (\<lambda>u. (luBlock u, lgLocale g)) (lgUpserts g) @ map (\<lambda>k. (k, lgLocale g)) (lgDeletes g)"

lemma group_check_distinct:
  assumes "group_check base g = None"
  shows "distinct (group_keys g)"
proof -
  from assms have "loop_seen luBlock (\<lambda>seen u. first_error
           [invalid_if (luBlock u = 0) ''locale update Block ID must be a UUID'',
            invalid_if (map_of base (luBlock u) = Some BaseDelete) ''deleted Block also has a locale update'',
            invalid_if (luBlock u \<in> seen) ''Block appears twice in locale'']) {} (lgUpserts g) = None"
    and "loop_seen id (\<lambda>seen k. first_error
           [invalid_if (k = 0) ''locale delete Block ID must be a UUID'',
            invalid_if (map_of base k \<noteq> None) ''Block has conflicting base and locale delete operations'',
            invalid_if (k \<in> seen) ''Block appears twice in locale'']) (luBlock ` set (lgUpserts g)) (lgDeletes g) = None"
    by (simp_all add: group_check_def first_error_None)
  then have "distinct (map luBlock (lgUpserts g))" "distinct (lgDeletes g)" "set (lgDeletes g) \<inter> luBlock ` set (lgUpserts g) = {}"
    by (subst (asm) loop_seen_distinct [where P = "\<lambda>u. luBlock u \<noteq> 0 \<and> map_of base (luBlock u) \<noteq> Some BaseDelete"], auto simp: first_error_None)
      (subst (asm) loop_seen_distinct [where P = "\<lambda>k. k \<noteq> 0 \<and> map_of base k = None"], auto simp: first_error_None)+
  then show ?thesis by (auto simp: group_keys_def distinct_map inj_on_def)
qed

lemma batch_keys_distinct:
  assumes "validateOperationIDs b = None"
  shows "distinct (concat (map group_keys (baGroups b)))"
proof -
  from assms obtain base where "loop_seen lgLocale (\<lambda>seen g. first_error
      [validateBlockLocale (lgLocale g), invalid_if (lgLocale g \<in> seen) ''duplicate locale mutation group'', group_check base g]) {} (baGroups b) = None"
    by (auto simp: validateOperationIDs_def split: sum.splits)
  then have g: "\<forall>g \<in> set (baGroups b). group_check base g = None" "distinct (map lgLocale (baGroups b))"
    by (subst (asm) loop_seen_distinct [where P = "\<lambda>g. validateBlockLocale (lgLocale g) = None \<and> group_check base g = None"],
        auto simp: first_error_None)+
  have "distinct (map lgLocale gs) \<Longrightarrow> \<forall>g \<in> set gs. distinct (group_keys g) \<Longrightarrow> distinct (concat (map group_keys gs))" for gs
    by (induction gs) (auto simp: group_keys_def rev_image_eqI)
  then show ?thesis using g group_check_distinct by blast
qed

lemma input_keys:
  assumes "normalizeHotLocaleInputs se b source = Inr inputs"
  shows "map input_key inputs = concat (map group_keys (baGroups b)) \<and> distinct (map input_key inputs)"
proof -
  from assms have ids: "validateOperationIDs b = None" and f: "fold_result (hot_group se (baProfile b) source) [] (baGroups b) = Inr inputs"
    by (auto simp: normalizeHotLocaleInputs_def guard_error_Inr and_then_Inr)
  have u: "map input_key acc' = map input_key acc @ map (\<lambda>u. (luBlock u, l)) us"
    if "fold_result (hot_update se p l) acc us = Inr acc'" for acc acc' us p l
    using that by (induction us arbitrary: acc) (fastforce simp: hot_update_def guard_error_Inr and_then_Inr input_key_def)+
  have d: "map input_key acc' = map input_key acc @ map (\<lambda>k. (k, l)) ks"
    if "fold_result (hot_delete source l) acc ks = Inr acc'" for acc acc' ks l
    using that by (induction ks arbitrary: acc) (fastforce simp: hot_delete_def guard_error_Inr and_then_Inr input_key_def)+
  have "map input_key acc' = map input_key acc @ concat (map group_keys gs)"
    if "fold_result (hot_group se (baProfile b) source) acc gs = Inr acc'" for acc acc' gs
    using that
  proof (induction gs arbitrary: acc)
    case (Cons g gs)
    then obtain m1 m2 where m: "fold_result (hot_update se (baProfile b) (lgLocale g)) acc (lgUpserts g) = Inr m1"
        "fold_result (hot_delete source (lgLocale g)) m1 (lgDeletes g) = Inr m2"
        "fold_result (hot_group se (baProfile b) source) m2 gs = Inr acc'"
      by (auto simp: and_then_Inr hot_group_def [of _ _ _ acc])
    show ?case using u [OF m(1)] d [OF m(2)] Cons.IH [OF m(3)] by (simp add: group_keys_def)
  qed simp
  from this [OF f] show ?thesis using batch_keys_distinct [OF ids] by simp
qed

lemma find_filtered_row:
  "find (\<lambda>x. f x = key) (filter (\<lambda>x. f x \<notin> S) xs) = (if key \<in> S then None else find (\<lambda>x. f x = key) xs)"
  by (induction xs) auto

lemma put_locale_rows_at:
  assumes "distinct (map locale_key new)" and "r \<in> set new"
  shows "\<exists>x. find (\<lambda>x. locale_key x = locale_key r) (foldl put_locale_row rows new) = Some x \<and> olData x = olData r"
  using assms
proof (induction new arbitrary: rows)
  case (Cons n new)
  show ?case
  proof (cases "r = n")
    case True
    have "\<exists>x. find (\<lambda>x. locale_key x = locale_key n) (put_locale_row rows n) = Some x \<and> olData x = olData n"
    proof (cases "locale_key n \<in> locale_key ` set rows")
      case True
      let ?f = "\<lambda>x. if locale_key x = locale_key n then x\<lparr>olData := olData n\<rparr> else x"
      have "find (\<lambda>x. locale_key x = locale_key n) rows \<noteq> None" using True by (auto simp: find_None_iff)
      then obtain x where x: "find (\<lambda>x. locale_key x = locale_key n) rows = Some x" by blast
      then have k: "locale_key x = locale_key n" by (auto simp: find_Some_iff)
      have "find (\<lambda>x. locale_key x = locale_key n) (map ?f rows) = map_option ?f (find (\<lambda>x. locale_key x = locale_key n) rows)"
        by (rule find_map) (simp add: locale_key_def)
      then show ?thesis using True x k by (simp add: put_locale_row_def)
    next
      case False
      then have "find (\<lambda>x. locale_key x = locale_key n) rows = None" unfolding find_None_iff by (metis imageI)
      then show ?thesis using False by (simp add: put_locale_row_def find_append)
    qed
    moreover have "locale_key n \<notin> locale_key ` set new" using Cons.prems(1) by simp
    ultimately show ?thesis using True by (simp add: put_locale_rows(3))
  next
    case False
    then show ?thesis using Cons by simp
  qed
qed simp

text \<open>What a batch of overlays stores: each named overlay is as the batch has it, every other row is as before.\<close>

definition overlays_stored :: "(raw \<Rightarrow> raw \<Rightarrow> bool) \<Rightarrow> hotLocaleInput list \<Rightarrow> tables \<Rightarrow> tables \<Rightarrow> bool" where
  "overlays_stored same inputs t t' \<longleftrightarrow> tbBlocks t' = tbBlocks t \<and> tbAttachments t' = tbAttachments t \<and>
     (\<forall>i \<in> set inputs. case locale_at t' (hlBlock i) (hlLocale i) of
        None \<Rightarrow> hlDelete i
      | Some r \<Rightarrow> \<not> hlDelete i \<and> (olData r = hlData i \<or> same (olData r) (hlData i))) \<and>
     (\<forall>k l. (k, l) \<notin> input_key ` set inputs \<longrightarrow> locale_at t' k l = locale_at t k l)"

lemma noop_overlays:
  assumes "\<forall>i \<in> set inputs. \<not> overlay_changes same t i"
  shows "overlays_stored same inputs t t"
  using assms by (auto simp: overlays_stored_def overlay_changes_def locale_at_def split: option.splits)

lemma applied_overlays:
  assumes d: "distinct (map input_key inputs)"
    and t': "tbBlocks t' = tbBlocks t" "tbAttachments t' = tbAttachments t"
      "tbLocales t' = foldl put_locale_row (filter (\<lambda>r. locale_key r \<notin> input_key ` set (filter hlDelete inputs)) (tbLocales t))
        (map input_row (filter (\<lambda>i. \<not> hlDelete i \<and> overlay_changes same t i) inputs))"
  shows "overlays_stored same inputs t t'"
proof -
  let ?kept = "filter (\<lambda>r. locale_key r \<notin> input_key ` set (filter hlDelete inputs)) (tbLocales t)"
  let ?up = "filter (\<lambda>i. \<not> hlDelete i \<and> overlay_changes same t i) inputs"
  have at: "locale_at t' k l = find (\<lambda>x. locale_key x = (k, l)) (foldl put_locale_row ?kept (map input_row ?up))" for k l
    by (simp add: locale_at_def t'(3))
  have kept: "find (\<lambda>x. locale_key x = key) ?kept = (if key \<in> input_key ` set (filter hlDelete inputs) then None else find (\<lambda>x. locale_key x = key) (tbLocales t))" for key
    by (rule find_filtered_row)
  have other: "locale_at t' k l = find (\<lambda>x. locale_key x = (k, l)) ?kept" if "(k, l) \<notin> input_key ` set ?up" for k l
    using put_locale_rows(3) [of "(k, l)" "map input_row ?up" ?kept] that by (simp add: at image_image)
  have inj: "i = j" if "i \<in> set inputs" "j \<in> set inputs" "input_key i = input_key j" for i j
    using d that by (auto simp: distinct_map inj_on_def)
  have "case locale_at t' (hlBlock i) (hlLocale i) of None \<Rightarrow> hlDelete i
      | Some r \<Rightarrow> \<not> hlDelete i \<and> (olData r = hlData i \<or> same (olData r) (hlData i))" if i: "i \<in> set inputs" for i
  proof (cases "i \<in> set ?up")
    case True
    have "distinct (map locale_key (map input_row ?up))" using d by (simp add: o_def distinct_map_filter)
    from put_locale_rows_at [OF this, of "input_row i" ?kept] True obtain x where
        "find (\<lambda>x. locale_key x = input_key i) (foldl put_locale_row ?kept (map input_row ?up)) = Some x" "olData x = olData (input_row i)"
      by auto
    then have "locale_at t' (hlBlock i) (hlLocale i) = Some x" "olData x = hlData i" by (simp_all only: at input_key_def input_row_def blockLocaleRow.simps)
    then show ?thesis using True by simp
  next
    case False
    have "(hlBlock i, hlLocale i) \<notin> input_key ` set ?up" using False inj [OF i] by (auto simp: input_key_def)
    then have l: "locale_at t' (hlBlock i) (hlLocale i) = find (\<lambda>x. locale_key x = (hlBlock i, hlLocale i)) ?kept" by (rule other)
    show ?thesis
    proof (cases "hlDelete i")
      case True
      then have "(hlBlock i, hlLocale i) \<in> input_key ` set (filter hlDelete inputs)" using i by (force simp: input_key_def)
      then show ?thesis using l kept True by simp
    next
      case no: False
      then have "(hlBlock i, hlLocale i) \<notin> input_key ` set (filter hlDelete inputs)" using inj [OF i] by (auto simp: input_key_def)
      moreover have "\<not> overlay_changes same t i" using no i False by simp
      ultimately show ?thesis using l kept no by (auto simp: overlay_changes_def split: option.splits)
    qed
  qed
  moreover have "locale_at t' k l = locale_at t k l" if "(k, l) \<notin> input_key ` set inputs" for k l
  proof -
    have "(k, l) \<notin> input_key ` set ?up" "(k, l) \<notin> input_key ` set (filter hlDelete inputs)" using that by auto
    then show ?thesis using other kept by (simp add: locale_at_def)
  qed
  ultimately show ?thesis using t' by (simp add: overlays_stored_def)
qed

lemma locale_batch_overlays:
  assumes "applyLocaleBatchPostgres same se fresh now t b source = Inr (t', res)"
  shows "\<exists>inputs. normalizeHotLocaleInputs se b source = Inr inputs \<and> map input_key inputs = concat (map group_keys (baGroups b)) \<and>
    overlays_stored same inputs t t'"
proof -
  from locale_accepted [OF assms] obtain inputs where n: "normalizeHotLocaleInputs se b source = Inr inputs"
      and s: "locale_status same t b inputs = ''noop'' \<or> locale_status same t b inputs = ''applied''"
      and t': "t' = fst (hotLocaleMutationSQL same fresh now t b inputs)" .
  note k = input_keys [OF n]
  have "overlays_stored same inputs t t'"
  proof (cases "locale_status same t b inputs = ''applied''")
    case True
    show ?thesis by (rule applied_overlays [OF conjunct2 [OF k]]) (simp_all add: t' locale_statement [OF True])
  next
    case False
    then have "t' = t" by (simp add: t' hotLocaleMutationSQL_def Let_def)
    moreover have "\<forall>i \<in> set inputs. \<not> overlay_changes same t i"
      using locale_accepted_status(4) [OF s] s False inputs_owned [OF s] by (auto simp: list_ex_iff)
    ultimately show ?thesis using noop_overlays by simp
  qed
  then show ?thesis using n k by blast
qed

section \<open>Shared data\<close>

lemma shared_accepted:
  assumes "applySharedCTEPostgres same se fresh now t b source = Inr (Some (t', res))"
  shows "shared_status same t b = ''noop'' \<or> shared_status same t b = ''applied''"
    and "t' = (if shared_status same t b = ''applied'' then write_shared same fresh now t b else t)"
    and "brChanged res \<longleftrightarrow> shared_status same t b = ''applied''"
    and "brRevision res = (if shared_status same t b = ''applied'' then fresh
      else case find (\<lambda>d. cdID d = baDocument b) (tbDocuments t) of None \<Rightarrow> 0 | Some d \<Rightarrow> cdRevision d)"
proof -
  from assms obtain row where h: "hotSharedMutationSQL same fresh now t b = Inr (t', row)"
      and s: "hsStatus row = ''noop'' \<or> hsStatus row = ''applied''" and v: "validateHotSharedResult se row b source = Inr res"
    by (auto simp: applySharedCTEPostgres_def guard_error_Inr and_then_Inr Let_def split: if_splits prod.splits)
  have r: "hsStatus row = shared_status same t b" "t' = (if shared_status same t b = ''applied'' then write_shared same fresh now t b else t)"
      "hsRevision row = (if shared_status same t b = ''applied'' then fresh
      else case find (\<lambda>d. cdID d = baDocument b) (tbDocuments t) of None \<Rightarrow> 0 | Some d \<Rightarrow> cdRevision d)"
    using h unfolding hotSharedMutationSQL_def Let_def by (auto split: if_splits)
  have "brRevision res = hsRevision row \<and> (brChanged res \<longleftrightarrow> hsStatus row \<noteq> ''noop'')"
    using v unfolding validateHotSharedResult_def Let_def by (auto simp: and_then_Inr guard_error_Inr unchangedResult_def split: if_splits)
  with r s show "shared_status same t b = ''noop'' \<or> shared_status same t b = ''applied''"
    "t' = (if shared_status same t b = ''applied'' then write_shared same fresh now t b else t)"
    "brChanged res \<longleftrightarrow> shared_status same t b = ''applied''"
    "brRevision res = (if shared_status same t b = ''applied'' then fresh
      else case find (\<lambda>d. cdID d = baDocument b) (tbDocuments t) of None \<Rightarrow> 0 | Some d \<Rightarrow> cdRevision d)"
    by auto
qed

lemma shared_accepted_status:
  assumes "shared_status same t b = ''noop'' \<or> shared_status same t b = ''applied''"
  shows "\<exists>d. find (\<lambda>d. cdID d = baDocument b) (tbDocuments t) = Some d \<and> cdRevision d = baExpectedRevision b"
    and "\<not> foreign_rows t (baDocument b) (map bbID (baUpserts b))"
  using assms unfolding shared_status_def Let_def
  by (cases "find (\<lambda>d. cdID d = baDocument b) (tbDocuments t)"; simp split: if_splits)+

lemma put_attachments_other:
  "k \<notin> arBlock ` set new \<Longrightarrow> filter (\<lambda>r. arBlock r = k) (foldl put_attachment rows new) = filter (\<lambda>r. arBlock r = k) rows"
proof (induction new arbitrary: rows)
  case (Cons n new)
  have "filter (\<lambda>r. arBlock r = k) (map (\<lambda>x. if attachment_key x = attachment_key n then f x else x) rows) = filter (\<lambda>r. arBlock r = k) rows"
    if "\<And>x. arBlock (f x) = arBlock n" for f
    using Cons.prems that by (induction rows) (auto simp: attachment_key_def)
  then have "filter (\<lambda>r. arBlock r = k) (put_attachment rows n) = filter (\<lambda>r. arBlock r = k) rows"
    using Cons.prems by (auto simp: put_attachment_def)
  then show ?case using Cons by simp
qed simp

lemma shared_path:
  assumes c: "consistent t" and a: "applySharedCTEPostgres same se fresh now t b source = Inr (Some (t', res))"
  shows "path_ok b fresh t t' res"
proof -
  note r = shared_accepted [OF a]
  note s = shared_accepted_status [OF r(1)]
  obtain d where doc: "find (\<lambda>d. cdID d = baDocument b) (tbDocuments t) = Some d" and d: "cdRevision d = baExpectedRevision b" using s(1) by blast
  show ?thesis
  proof (rule path_okI [where d = d and changed = "shared_status same t b = ''applied''" and now = now])
    fix k assume ap: "shared_status same t b = ''applied''" and k: "foreign_row t (baDocument b) k"
    have no: "k \<notin> bbID ` set (baUpserts b)" using not_foreign [OF c s(2) k] by simp
    let ?ch = "filter (shared_changes same t (input_attachments b)) (baUpserts b)"
    have w: "t' = write_shared same fresh now t b" using r(2) ap by simp
    let ?f = "\<lambda>r. case find (\<lambda>u. bbID u = brID r) ?ch of None \<Rightarrow> r | Some u \<Rightarrow> r\<lparr>brShared := bbShared u\<rparr>"
    have b: "tbBlocks t' = map (\<lambda>r. if brDocument r = baDocument b then ?f r else r) (tbBlocks t)"
      by (simp add: w write_shared_def Let_def)
    have f: "brID (?f r) = brID r \<and> brDocument (?f r) = brDocument r" for r by (auto split: option.splits)
    have "row_at t' d k = row_at t d k" for d by (rule rewritten_rows [OF c b f k])
    moreover have "locale_at t' k l = locale_at t k l" for l by (simp add: w write_shared_def Let_def locale_at_def)
    moreover have "attachments_at t' k = attachments_at t k"
    proof -
      have "k \<notin> arBlock ` set (changed_inputs same t b)" using no by (auto simp: changed_inputs_def)
      from put_attachments_other [OF this] have "attachments_at t' k =
          filter (\<lambda>r. arBlock r = k) (filter (\<lambda>x. \<not> (arBlock x \<in> bbID ` set ?ch \<and> attachment_key x \<notin> attachment_key ` set (input_attachments b))) (tbAttachments t))"
        by (simp add: attachments_at_def w write_shared_def Let_def)
      also have "\<dots> = attachments_at t k" using no by (auto simp: attachments_at_def intro!: filter_cong)
      finally show ?thesis .
    qed
    ultimately show "(\<forall>d. row_at t' d k = row_at t d k) \<and> (\<forall>l. locale_at t' k l = locale_at t k l) \<and> attachments_at t' k = attachments_at t k" by blast
  next
    show "if shared_status same t b = ''applied'' then bumps (baDocument b) fresh now t t' else t' = t"
      using r(2) by (simp add: write_shared_def Let_def bumps_def)
  qed (use doc d r(3,4) in \<open>simp_all add: loadContentDocument_def\<close>)
qed

section \<open>All paths\<close>

context placed_contract
begin

lemma generic_path:
  assumes "seContract se = co" and "stable_contract co" and "slot_rules co" and "consistent t"
    and l: "loadAggregate t (baDocument b) = Inr stored" and "valid_aggregate co source stored"
    and a: "applyBatchAfterFenceWithMetadata se fresh now t b source allowMissing replaceAll metadata = Inr (t', res)"
  shows "path_ok b fresh t t' res"
proof -
  from accepted_batch_stored [OF assms(1-4) l assms(6) a] obtain before after m stored' where
      rev: "cdRevision (agDocument stored) = baExpectedRevision b" and c': "consistent t'" and l': "loadAggregate t' (baDocument b) = Inr stored'"
      and r: "brRevision res = cdRevision (agDocument stored')"
      and ch: "if brChanged res then same_state (after\<lparr>agDocument := bump fresh now (agDocument stored)\<rparr>) stored' else t' = t"
    by blast
  have d: "loadContentDocument t (baDocument b) = Inr (agDocument stored)" "loadContentDocument t' (baDocument b) = Inr (agDocument stored')"
    using load_stored [OF assms(4) l] load_stored [OF c' l'] by (simp_all add: stored_as_def)
  have "brRevision res = fresh" if "brChanged res" using ch r that by (simp add: same_state_def bump_def)
  moreover have "t' = t \<and> brRevision res = baExpectedRevision b" if "\<not> brChanged res" using that ch r rev l l' by auto
  ultimately show ?thesis using accepted_batch_foreign [OF assms(1-4) l assms(6) a] d rev r by (auto simp: path_ok_def)
qed

lemma ApplyBatch_path:
  assumes se: "seContract se = co" and st: "stable_contract co" and sl: "slot_rules co" and c: "consistent t"
    and f: "fence (baDocument b) = Inr source" and l: "loadAggregate t (baDocument b) = Inr stored" and v: "valid_aggregate co source stored"
    and a: "ApplyBatch same se fresh fresh' now t b fence = Inr (t', res)"
  shows "path_ok b fresh t t' res \<or> path_ok b fresh' t t' res"
proof -
  note g = generic_path [OF se st sl c l v]
  show ?thesis
  proof (cases "isReorderOnlyBatch b")
    case True
    then have "applyReorderCTEPostgres se fresh now t b source = Inr (t', res)"
      using a by (simp add: ApplyBatch_def guard_error_Inr through_fence_def f applyReorderBatchPostgres_def)
    then show ?thesis using reorder_path [OF c] by blast
  next
    case no: False
    show ?thesis
    proof (cases "isSharedPresentationBatch b")
      case True
      with no a obtain r where r: "applySharedCTEPostgres same se fresh now t b source = Inr r"
          "(case r of Some x \<Rightarrow> Inr x | None \<Rightarrow> applyBatchAfterFenceWithMetadata se fresh' now t b source False False None) = Inr (t', res)"
        by (auto simp: ApplyBatch_def guard_error_Inr through_fence_def f and_then_Inr)
      then show ?thesis using shared_path [OF c] g by (cases r) auto
    next
      case False
      then show ?thesis using no a locale_path [OF c] g
        by (auto simp: ApplyBatch_def guard_error_Inr through_fence_def f applyBatch_def split: if_splits)
    qed
  qed
qed

end

end
