(* ===== verification/Content_Sample.thy ===== *)
theory Content_Sample
  imports Content_Dispatch
begin

text \<open>
  The catalog, the tables and the batches of the witnesses for the content block store: a catalog that
  accepts every JSON object and every well-formed slot, and a document with two root blocks and a child.
\<close>

definition sample_normalize :: "string \<Rightarrow> string \<Rightarrow> raw \<Rightarrow> raw \<Rightarrow> string + ContentStorageBlock" where
  "sample_normalize profile kind shared localized =
     and_then (canonicalObject shared) (\<lambda>s. and_then (canonicalObject localized) (\<lambda>l.
       Inr \<lparr>csShared = s, csLocalized = l, csFiles = []\<rparr>))"

definition sample_content :: content_catalog where
  "sample_content = \<lparr>ccParseProfile = (\<lambda>p. if p = ''page'' then None else Some ''unknown profile''),
     ccNormalizeBlock = sample_normalize, ccNormalizeLocale = (\<lambda>p k d. canonicalObject d), ccBuildExplicitEmptyLocale = (\<lambda>p k d. Inr emptyObject),
     ccValidateParent = (\<lambda>p parentKind parentShared kind shared slot. if containerSlotPattern slot then None else Some ''slot''),
     ccTranslationSourceChanged = (\<lambda>p before after l. Inr (before \<noteq> after)), ccParseUUID = (\<lambda>s. None)\<rparr>"

fun sample_mark :: "raw \<Rightarrow> string" where
  "sample_mark (RawJSON (JObject [(k, JNumber s)])) = s"
| "sample_mark _ = ''x''"

text \<open>A digest that tells the overlays apart.\<close>

definition sample_hash :: "string \<Rightarrow> ContentStorageRow list \<Rightarrow> string + string" where
  "sample_hash p rows = Inr (concat (map (\<lambda>r. concat (map (\<lambda>l. sample_mark (slData l)) (srLocales r))) rows))"

definition sample_store :: store_env where
  "sample_store = \<lparr>seContract = generatedContract sample_content, seCanon = canonicalObject,
     seHash = sample_hash, seReuse = (\<lambda>d b r f. None)\<rparr>"

definition sample_text :: "string \<Rightarrow> raw" where
  "sample_text s = RawJSON (JObject [(''n'', JNumber s)])"

definition sample_row :: "uuid \<Rightarrow> uuid option \<Rightarrow> int \<Rightarrow> blockRow" where
  "sample_row k parent i = \<lparr>brID = k, brDocument = 1, brParent = parent, brSlot = ''body'', brPosition = i, brKind = ''text'',
     brShared = emptyObject\<rparr>"

definition sample_overlay :: "uuid \<Rightarrow> string \<Rightarrow> string \<Rightarrow> blockLocaleRow" where
  "sample_overlay k l s = \<lparr>olBlock = k, olLocale = l, olData = sample_text s\<rparr>"

definition sample_content_document :: ContentDocument where
  "sample_content_document = \<lparr>cdID = 1, cdProfile = ''page'', cdRevision = 5, cdCreatedAt = 0, cdUpdatedAt = 0\<rparr>"

definition sample_tables :: tables where
  "sample_tables = \<lparr>tbDocuments = [sample_content_document],
     tbBlocks = [sample_row 10 None 0, sample_row 11 (Some 10) 0, sample_row 12 None 1],
     tbLocales = [sample_overlay 10 ''en'' ''a'', sample_overlay 11 ''en'' ''b'', sample_overlay 12 ''en'' ''c'', sample_overlay 12 ''ko'' ''d''],
     tbAttachments = [], tbCriteria = [], tbFiles = []\<rparr>"

definition sample_block :: "uuid \<Rightarrow> uuid option \<Rightarrow> int \<Rightarrow> FullBlock" where
  "sample_block k parent i = \<lparr>bbID = k, bbParent = parent, bbSlot = ''body'', bbPosition = i, bbKind = ''text'',
     bbShared = emptyObject, flLocalized = RawBlank '''', flFiles = []\<rparr>"

definition sample_stored :: aggregate where
  "sample_stored = \<lparr>agDocument = sample_content_document,
     agBlocks = [(10, sample_block 10 None 0), (11, sample_block 11 (Some 10) 0), (12, sample_block 12 None 1)],
     agLocales = [(10, [(''en'', sample_text ''a'')]), (11, [(''en'', sample_text ''b'')]),
       (12, [(''en'', sample_text ''c''), (''ko'', sample_text ''d'')])]\<rparr>"

text \<open>Delete a block with its child, move the other block to the front and change its translation.\<close>

definition sample_batch :: Batch where
  "sample_batch = \<lparr>baDocument = 1, baExpectedRevision = 5, baUpserts = [], baDeletes = [10],
     baReorders = [\<lparr>roBlock = 12, roParent = None, roSlot = ''body'', roPosition = 0\<rparr>],
     baGroups = [\<lparr>lgLocale = ''ko'', lgUpserts = [\<lparr>luBlock = 12, luExpectedKind = ''text'', luData = sample_text ''e''\<rparr>], lgDeletes = []\<rparr>],
     baContributors = [], baProfile = '''', baReferences = []\<rparr>"

lemma sample_canonical [simp]: "canonicalObject (sample_text s) = Inr (sample_text s)" "canonicalObject emptyObject = Inr emptyObject"
proof -
  have "coerce_utf8 ''n'' = ''n''" by (simp add: coerce_utf8_ascii)
  then show "canonicalObject (sample_text s) = Inr (sample_text s)" by (simp add: canonicalObject_def sample_text_def last_members_def)
  show "canonicalObject emptyObject = Inr emptyObject" by (simp add: canonicalObject_def emptyObject_def last_members_def)
qed

lemma as_invalid_ok [simp]: "as_invalid m (Inr x) = Inr x"
  by (simp add: as_invalid_def)

lemma sample_loads: "loadAggregate sample_tables 1 = Inr sample_stored"
  by (simp add: loadAggregate_def loadContentDocument_def sample_tables_def sample_content_document_def sample_row_def sample_overlay_def
      rows_aggregate_def load_block_def load_locale_def newAggregate_def block_of_row_def put_locale_def locales_of_def
      sample_stored_def sample_block_def)

lemma sample_trim [simp]: "trim_space ''body'' = ''body''" "trim_space ''text'' = ''text''" "trim_space ''en'' = ''en''" "trim_space ''ko'' = ''ko''"
  by (rule trim_space_id, simp add: space_encodings_def)+

lemma sample_patterns [simp]: "containerSlotPattern ''body''" "blockKindPattern ''text''" "validateBlockLocale ''en'' = None" "validateBlockLocale ''ko'' = None"
  by (simp_all add: containerSlotPattern_def blockKindPattern_def validateBlockLocale_def is_lower_def)

lemma sample_normalizes:
  assumes "canonicalObject d = Inr d" and "k \<noteq> 0" and "parent \<noteq> Some 0" and "0 \<le> i"
  shows "normalizeBlock (generatedContract sample_content) p ((sample_block k parent i)\<lparr>flLocalized := d\<rparr>) =
    Inr ((sample_block k parent i)\<lparr>flLocalized := d\<rparr>)"
  using assms
  by (simp add: normalizeBlock_def sample_block_def Let_def generatedContract_def generated_ValidateBlock_def sample_content_def
      sample_normalize_def normalizeReferences_def fileReferencesFromGenerated_def)

lemma sample_block_simps [simp]:
  "bbID (sample_block k parent i) = k" "bbParent (sample_block k parent i) = parent" "bbSlot (sample_block k parent i) = ''body''"
  "bbPosition (sample_block k parent i) = i" "bbKind (sample_block k parent i) = ''text''" "bbShared (sample_block k parent i) = emptyObject"
  "flFiles (sample_block k parent i) = []"
  by (simp_all add: sample_block_def)

lemma sample_block_eq [simp]: "sample_block k parent i = sample_block k' parent' i' \<longleftrightarrow> k = k' \<and> parent = parent' \<and> i = i'"
  by (auto simp: sample_block_def)

lemma sample_parents: "coValidateParent (generatedContract sample_content) p par (sample_block k parent i) = None"
  by (simp add: generatedContract_def generated_ValidateParent_def sample_content_def Let_def sample_block_def)

lemma sample_limits: "coLimits (generatedContract sample_content) ''page'' = Inr \<lparr>limMaxBlocks = 10000, limMaxDepth = 32\<rparr>"
  by (simp add: generatedContract_def generated_Limits_def sample_content_def generatedMaxDocumentBlocks_def generatedMaxBlockDepth_def)

lemma sample_structure:
  assumes "\<And>k b. map_of blocks k = Some b \<Longrightarrow> b = sample_block k (bbParent b) (bbPosition b) \<and>
      (case bbParent b of None \<Rightarrow> True | Some q \<Rightarrow> \<exists>j. map_of blocks q = Some (sample_block q None j))"
    and "\<And>key. dense (positions blocks key)"
  shows "structure_ok (generatedContract sample_content) p blocks \<lparr>limMaxBlocks = n, limMaxDepth = 32\<rparr>"
  unfolding structure_ok_height
proof (intro conjI allI impI)
  fix k b assume b: "map_of blocks k = Some b"
  from assms(1) [OF b] obtain parent i where d: "b = sample_block k parent i"
      and c: "parent = None \<or> (\<exists>q j. parent = Some q \<and> map_of blocks q = Some (sample_block q None j))"
    by (auto split: option.splits)
  show "parent_ok (generatedContract sample_content) p blocks b"
    using c by (auto simp: parent_ok_def d sample_parents)
  show "\<exists>h. height (block_parents blocks) k h \<and> int h < limMaxDepth \<lparr>limMaxBlocks = n, limMaxDepth = 32\<rparr>"
    using c
  proof
    assume "parent = None"
    then have "height (block_parents blocks) k 0" using b d by (intro height.outside) (simp add: block_parents_def)
    then show ?thesis by force
  next
    assume "\<exists>q j. parent = Some q \<and> map_of blocks q = Some (sample_block q None j)"
    then obtain q j where q: "parent = Some q" "map_of blocks q = Some (sample_block q None j)" by blast
    then have "height (block_parents blocks) q 0" by (intro height.outside) (simp add: block_parents_def)
    then have "height (block_parents blocks) k (Suc 0)"
      using b d q by (intro height.child) (simp_all add: block_parents_def)
    then show ?thesis by force
  qed
qed (rule assms(2))

lemma sample_payload:
  assumes "map_of (agBlocks a) k = Some (sample_block k parent i)" and "k \<noteq> 0" and "parent \<noteq> Some 0" and "0 \<le> i"
    and "map_of (locales_of a k) source \<noteq> None" and "list_all (\<lambda>e. canonicalObject (snd e) = Inr (snd e)) (locales_of a k)"
  shows "validateAggregateBlockPayload (generatedContract sample_content) source k a = Inr (a\<lparr>agBlocks := AList.update k (sample_block k parent i) (agBlocks a)\<rparr>)"
proof -
  have r: "payloadRound (generatedContract sample_content) p (sample_block k parent i) x e = Inr (Some (emptyObject, []))"
    if "x = None \<or> x = Some (emptyObject, [])" "canonicalObject (snd e) = Inr (snd e)" for x e p
    using that assms(2-4) by (auto simp: payloadRound_def sample_normalizes sameFileReferences_def)
  have "fold_result (payloadRound (generatedContract sample_content) p (sample_block k parent i)) x ls = Inr (if ls = [] then x else Some (emptyObject, []))"
    if "x = None \<or> x = Some (emptyObject, [])" "list_all (\<lambda>e. canonicalObject (snd e) = Inr (snd e)) ls" for x ls p
    using that
  proof (induction ls arbitrary: x)
    case (Cons e ls)
    have "payloadRound (generatedContract sample_content) p (sample_block k parent i) x e = Inr (Some (emptyObject, []))" using r Cons.prems by simp
    moreover have "fold_result (payloadRound (generatedContract sample_content) p (sample_block k parent i)) (Some (emptyObject, [])) ls =
        Inr (Some (emptyObject, []))" using Cons.IH [of "Some (emptyObject, [])"] Cons.prems(2) by auto
    ultimately show ?case by simp
  qed simp
  from this [of None "locales_of a k" "cdProfile (agDocument a)"] assms(1,5,6) show ?thesis
    by (auto simp: validateAggregateBlockPayload_def sameFileReferences_def) (auto simp: sample_block_def)
qed

definition sample_after :: aggregate where
  "sample_after = \<lparr>agDocument = sample_content_document, agBlocks = [(12, sample_block 12 None 0)],
     agLocales = [(12, [(''en'', sample_text ''c''), (''ko'', sample_text ''e'')])]\<rparr>"

definition sample_mutation :: persistedMutation where
  "sample_mutation = \<lparr>pmSourceLocale = ''en'', pmUpsertOrder = [],
     pmLocaleMutations = [\<lparr>lmLocale = ''ko'', lmBlock = 12, lmDelete = False\<rparr>], pmDeleteOrder = [11, 10],
     pmReorders = baReorders sample_batch, pmKindChanged = [], pmAllowMissingFiles = False\<rparr>"

lemma sample_dense: "dense (positions (agBlocks sample_stored) key)" "dense (positions (agBlocks sample_after) key)"
  by (auto simp: sample_stored_def sample_after_def positions_def dense_def sibling_key_def)

lemma sample_structures:
  "validateAggregateStructure (generatedContract sample_content) sample_stored \<lparr>limMaxBlocks = 10000, limMaxDepth = 32\<rparr> = None"
  "validateAggregateStructure (generatedContract sample_content) sample_after \<lparr>limMaxBlocks = 10000, limMaxDepth = 32\<rparr> = None"
proof -
  show "validateAggregateStructure (generatedContract sample_content) sample_stored \<lparr>limMaxBlocks = 10000, limMaxDepth = 32\<rparr> = None"
    unfolding validateAggregateStructure_iff
    by (rule sample_structure [OF _ sample_dense(1)]) (auto simp: sample_stored_def split: if_splits)
  show "validateAggregateStructure (generatedContract sample_content) sample_after \<lparr>limMaxBlocks = 10000, limMaxDepth = 32\<rparr> = None"
    unfolding validateAggregateStructure_iff
    by (rule sample_structure [OF _ sample_dense(2)]) (auto simp: sample_after_def split: if_splits)
qed

lemma sample_validates: "validateAggregate (generatedContract sample_content) ''en'' sample_stored = Inr sample_stored"
proof -
  have "validateAggregateBlockPayload (generatedContract sample_content) ''en'' k sample_stored = Inr sample_stored" if "k \<in> {10, 11, 12}" for k
    using that sample_payload [of sample_stored 10 None 0 "''en''"] sample_payload [of sample_stored 11 "Some 10" 0 "''en''"] sample_payload [of sample_stored 12 None 1 "''en''"]
    by (auto simp: sample_stored_def locales_of_def)
  moreover have "map fst (agBlocks sample_stored) = [10, 11, 12]" by (simp add: sample_stored_def)
  moreover have "validateAggregateEnvelope (generatedContract sample_content) sample_stored ''en'' = Inr \<lparr>limMaxBlocks = 10000, limMaxDepth = 32\<rparr>"
    by (simp add: validateAggregateEnvelope_def sample_stored_def sample_content_document_def sample_limits)
  ultimately show ?thesis by (simp add: validateAggregate_def sample_structures(1))
qed

lemma sample_checked: "validateOperationIDs sample_batch = None"
  by (simp add: validateOperationIDs_def base_operations_def sample_batch_def base_round_def reorder_round_def group_check_def)

lemma chunks_short: "xs \<noteq> [] \<Longrightarrow> length xs \<le> 1000 \<Longrightarrow> chunks xs = [xs]"
  by (simp add: chunks.simps [of xs] chunks.simps [of "[]"] persistenceChunkRows_def)

lemma sample_owned: "rejectCrossDocumentIDs (blockDocuments sample_tables) 1 sample_batch = None"
  by (simp add: rejectCrossDocumentIDs_def blockDocuments_def batch_ids_def sample_batch_def uniqueUUIDs_def chunks_short sample_tables_def sample_row_def)

lemma sample_deletes: "expandedDeletes (agBlocks sample_stored) [10] {12} = {10, 11}"
proof -
  have "delete_pass (agBlocks sample_stored) {12} {10} = {10, 11}" "delete_pass (agBlocks sample_stored) {12} {10, 11} = {10, 11}"
    by (auto simp: delete_pass_def delete_round_def sample_stored_def)
  then show ?thesis
    by (simp add: expandedDeletes_def expand_deletes.simps [of _ _ "{10}"] expand_deletes.simps [of _ _ "{10, 11}"] Let_def)
qed

lemma sample_order: "sortDeletesByDepth (agBlocks sample_stored) {10, 11} = Inr [11, 10]"
  by (simp add: sortDeletesByDepth_def blockDepths_def sample_stored_def block_at_def Let_def visited_blocks_def)

lemma sample_applies:
  "apply_batch (generatedContract sample_content) canonicalObject (blockDocuments sample_tables) sample_stored sample_batch ''en'' False False =
    Inr (sample_after, sample_mutation)"
proof -
  have del: "expandedDeletes (agBlocks sample_stored) (baDeletes sample_batch) (fst ` set [] \<union> roBlock ` set (baReorders sample_batch)) = {10, 11}"
    using sample_deletes by (simp add: sample_batch_def)
  have base: "remove_blocks {10, 11} sample_stored = sample_stored\<lparr>agBlocks := [(12, sample_block 12 None 1)],
      agLocales := [(12, [(''en'', sample_text ''c''), (''ko'', sample_text ''d'')])]\<rparr>"
    by (simp add: remove_blocks_def sample_stored_def)
  have moved: "fold_result apply_reorder (remove_blocks {10, 11} sample_stored) (baReorders sample_batch) =
      Inr (sample_after\<lparr>agLocales := [(12, [(''en'', sample_text ''c''), (''ko'', sample_text ''d'')])]\<rparr>)"
    unfolding base by (simp add: apply_reorder_def sample_batch_def sample_after_def sample_stored_def sample_block_def)
  have inputs: "locale_inputs_of canonicalObject (baGroups sample_batch) = Inr [(''ko'', [(12, sample_text ''e'')])]"
    by (simp add: locale_inputs_of_def locale_input_def sample_batch_def)
  have "normalizeBlock (generatedContract sample_content) p ((sample_block 12 None 0)\<lparr>flLocalized := sample_text ''e''\<rparr>) =
      Inr ((sample_block 12 None 0)\<lparr>flLocalized := sample_text ''e''\<rparr>)" for p by (simp add: sample_normalizes)
  then have groups: "fold_result (apply_group (generatedContract sample_content) ''en'' [(''ko'', [(12, sample_text ''e'')])])
      (sample_after\<lparr>agLocales := [(12, [(''en'', sample_text ''c''), (''ko'', sample_text ''d'')])]\<rparr>, []) (baGroups sample_batch) =
      Inr (sample_after, pmLocaleMutations sample_mutation)"
    by (simp add: apply_group_def locale_update_def sample_batch_def sample_after_def input_at_def sameBlockShared_def
        sameFileReferences_def put_locale_def locales_of_def sample_mutation_def)
  have envelope: "validateAggregateEnvelope (generatedContract sample_content) sample_after ''en'' = Inr \<lparr>limMaxBlocks = 10000, limMaxDepth = 32\<rparr>"
    by (simp add: validateAggregateEnvelope_def sample_after_def sample_content_document_def sample_limits)
  have "baUpserts sample_batch = []" "sortUpsertsByDepth (agBlocks sample_after) [] = Inr []" "cdID (agDocument sample_stored) = 1"
    by (simp_all add: sample_batch_def sample_stored_def sample_content_document_def sortUpsertsByDepth_def blockDepths_def sample_after_def block_at_def Let_def)
  with del moved inputs groups envelope show ?thesis
    by (simp add: apply_batch_def sample_checked sample_owned sample_structures sample_order) (simp add: sample_mutation_def)
qed

definition sample_written :: tables where
  "sample_written = \<lparr>tbDocuments = [bump 6 1 sample_content_document], tbBlocks = [sample_row 12 None 0],
     tbLocales = [sample_overlay 12 ''en'' ''c'', sample_overlay 12 ''ko'' ''e''], tbAttachments = [], tbCriteria = [], tbFiles = []\<rparr>"

lemma chunks_Nil [simp]: "chunks [] = []"
  by (simp add: chunks.simps)

lemma sample_persists:
  "persist sample_stored (sample_after\<lparr>agDocument := bump 6 1 (agDocument sample_after)\<rparr>) sample_mutation sample_tables = Inr sample_written"
proof -
  let ?a = "sample_after\<lparr>agDocument := bump 6 1 (agDocument sample_after)\<rparr>"
  let ?t1 = "sample_tables\<lparr>tbBlocks := [sample_row 12 None 1], tbLocales := [sample_overlay 12 ''en'' ''c'', sample_overlay 12 ''ko'' ''d'']\<rparr>"
  let ?t2 = "sample_tables\<lparr>tbBlocks := [sample_row 12 None 1], tbLocales := [sample_overlay 12 ''en'' ''c'', sample_overlay 12 ''ko'' ''e'']\<rparr>"
  let ?t3 = "sample_tables\<lparr>tbBlocks := [sample_row 12 None 0], tbLocales := [sample_overlay 12 ''en'' ''c'', sample_overlay 12 ''ko'' ''e'']\<rparr>"
  have id: "cdID (agDocument sample_stored) = 1" "cdID (bump 6 1 (agDocument sample_after)) = 1"
    by (simp_all add: sample_stored_def sample_after_def bump_def sample_content_document_def)
  have "deleteBlocks sample_stored (pmDeleteOrder sample_mutation) sample_tables = Inr ?t1"
    unfolding deleteBlocks_def id
    by (simp add: sample_stored_def sample_mutation_def chunks_short delete_chunk_def delete_rows_def sample_tables_def sample_row_def sample_overlay_def)
  moreover have "persistLocaleMutations ?a (pmLocaleMutations sample_mutation) ?t1 = Inr ?t2"
    by (simp add: persistLocaleMutations_def sample_mutation_def chunks_short upsert_locales_def put_locale_row_def locale_key_def
        sample_row_def sample_overlay_def sample_tables_def localizedData_def sample_after_def locales_of_def sample_text_def)
  moreover have "persistReorders 1 (pmReorders sample_mutation) ?t2 = Inr ?t3"
    by (simp add: persistReorders_def sample_mutation_def sample_batch_def chunks_short reorder_chunk_def reorder_rows_def sample_row_def sample_tables_def)
  moreover have "verifyPersistedMutation sample_stored ?a sample_mutation ?t3 = None"
    by (simp add: verifyPersistedMutation_def verify_blocks_def sample_mutation_def sample_batch_def uniqueUUIDs_def sample_tables_def sample_row_def
        sample_overlay_def persisted_blocks_def block_of_row_def sample_after_def bump_def sample_content_document_def same_entry_def
        samePersistedBlockFields_def sample_block_def sameCanonicalJSON_def verifyPersistedMutationLocales_def persisted_locales_def
        locale_key_def locales_of_def verifyPersistedMutationAttachments_def)
  moreover have "updateDocument (agDocument sample_stored) (agDocument ?a) ?t3 = Inr sample_written"
    by (simp add: updateDocument_def sample_stored_def sample_after_def sample_tables_def sample_written_def bump_def sample_content_document_def)
  moreover have "pmUpsertOrder sample_mutation = []" "pmKindChanged sample_mutation = []" by (simp_all add: sample_mutation_def)
  ultimately show ?thesis
    by (simp add: persist_def id persistBaseBlocks_def replaceBlockAttachments_def clearChangedKindLocales_def desired_rows_def)
qed

lemma sample_mark_text [simp]: "sample_mark (sample_text s) = s"
  by (simp add: sample_text_def)

lemma sample_digests: "snapshotDigest sample_store sample_stored = Inr ''abcd''" "snapshotDigest sample_store sample_after = Inr ''ce''"
  by (simp_all add: snapshotDigest_def sample_store_def sample_hash_def digest_rows_def sample_stored_def sample_after_def digest_row_def
      fault_as_def digest_locales_def locales_of_def)

lemma sample_effect: "\<exists>ls. content_effect sample_store sample_tables sample_stored sample_after sample_mutation ''en'' = Inr (True, True, ls)"
proof -
  have "deriveTranslationSourceChanged (generatedContract sample_content) sample_stored sample_after sample_mutation ''en'' = Inr True"
    by (simp add: deriveTranslationSourceChanged_def mutationCanAffectTranslationSource_def sample_mutation_def generatedContract_def
        generated_TranslationSourceChanged_def sample_content_def sample_stored_def sample_after_def localizedBlocks_def orderedBlocks_def
        fullBlocksToStorageRows_def localizedData_def)
  moreover have "\<exists>ls. changedMutationLocales sample_stored sample_after sample_mutation = Inr ls"
    by (simp add: changedMutationLocales_def sample_mutation_def sample_stored_def sample_after_def Let_def locales_of_def locale_differs_def
        sameCanonicalJSON_def fault_as_def)
  moreover have "validateFileChanges sample_store sample_tables sample_stored sample_after sample_mutation = None"
    by (simp add: validateFileChanges_def sample_mutation_def sample_stored_def sample_after_def block_at_def Let_def)
  ultimately show ?thesis by (auto simp: content_effect_def sample_digests) (simp add: sample_store_def)
qed

lemma sample_committed:
  "\<exists>res. applyBatchAfterFenceWithMetadata sample_store 6 1 sample_tables sample_batch ''en'' False False None = Inr (sample_written, res) \<and>
    brRevision res = 6 \<and> brChanged res"
proof -
  from sample_effect obtain ls where "content_effect sample_store sample_tables sample_stored sample_after sample_mutation ''en'' = Inr (True, True, ls)" by blast
  moreover have "cdRevision (agDocument sample_stored) = 5" "baExpectedRevision sample_batch = 5" "baDocument sample_batch = 1"
      "seContract sample_store = generatedContract sample_content" "seCanon sample_store = canonicalObject"
    by (simp_all add: sample_stored_def sample_content_document_def sample_batch_def sample_store_def)
  ultimately show ?thesis
    using sample_persists
    by (simp add: applyBatchAfterFenceWithMetadata_def sample_loads sample_validates replace_deletes_def sample_applies metadata_effect_def
        noMetadata_def bump_def)
qed

lemma sample_hypotheses:
  "stable_contract (generatedContract sample_content)" "slot_rules (generatedContract sample_content)" "consistent sample_tables"
  "valid_aggregate (generatedContract sample_content) ''en'' sample_stored"
proof -
  show st: "stable_contract (generatedContract sample_content)"
    by (auto simp: stable_contract_def generatedContract_def generated_ValidateBlock_def sample_content_def sample_normalize_def and_then_Inr
        fileReferencesFromGenerated_def dest: canonicalObject_idem)
  show "slot_rules (generatedContract sample_content)"
    by (simp add: slot_rules_def generatedContract_def generated_ValidateParent_def sample_content_def)
  show "consistent sample_tables"
    by (simp add: consistent_def sample_tables_def sample_row_def sample_overlay_def locale_key_def)
  have "keyed (agBlocks sample_stored)" by (simp add: keyed_def sample_stored_def)
  from generated.validateAggregate_valid [OF st this sample_validates] show "valid_aggregate (generatedContract sample_content) ''en'' sample_stored"
    by simp
qed

section \<open>A translation\<close>

definition sample_translation :: Batch where
  "sample_translation = sample_batch\<lparr>baDeletes := [], baReorders := []\<rparr>"

definition sample_translated :: aggregate where
  "sample_translated = sample_stored\<lparr>agLocales := [(10, [(''en'', sample_text ''a'')]), (11, [(''en'', sample_text ''b'')]),
     (12, [(''en'', sample_text ''c''), (''ko'', sample_text ''e'')])]\<rparr>"

definition sample_translation_mutation :: persistedMutation where
  "sample_translation_mutation = sample_mutation\<lparr>pmDeleteOrder := [], pmReorders := []\<rparr>"

lemma sample_translates:
  "apply_batch (generatedContract sample_content) canonicalObject (blockDocuments sample_tables) sample_stored sample_translation ''en'' False False =
    Inr (sample_translated, sample_translation_mutation)"
proof -
  have checked: "validateOperationIDs sample_translation = None"
    by (simp add: validateOperationIDs_def base_operations_def sample_translation_def sample_batch_def group_check_def)
  have owned: "rejectCrossDocumentIDs (blockDocuments sample_tables) 1 sample_translation = None"
    by (simp add: rejectCrossDocumentIDs_def blockDocuments_def batch_ids_def sample_translation_def sample_batch_def uniqueUUIDs_def
        chunks_short sample_tables_def sample_row_def)
  have inputs: "locale_inputs_of canonicalObject (baGroups sample_translation) = Inr [(''ko'', [(12, sample_text ''e'')])]"
    by (simp add: locale_inputs_of_def locale_input_def sample_translation_def sample_batch_def)
  have "normalizeBlock (generatedContract sample_content) p ((sample_block 12 None 1)\<lparr>flLocalized := sample_text ''e''\<rparr>) =
      Inr ((sample_block 12 None 1)\<lparr>flLocalized := sample_text ''e''\<rparr>)" for p by (simp add: sample_normalizes)
  then have groups: "fold_result (apply_group (generatedContract sample_content) ''en'' [(''ko'', [(12, sample_text ''e'')])])
      (sample_stored, []) (baGroups sample_translation) = Inr (sample_translated, pmLocaleMutations sample_mutation)"
    by (simp add: apply_group_def locale_update_def sample_translation_def sample_batch_def sample_stored_def sample_translated_def
        input_at_def sameBlockShared_def sameFileReferences_def put_locale_def locales_of_def sample_mutation_def)
  have envelope: "validateAggregateEnvelope (generatedContract sample_content) sample_translated ''en'' = Inr \<lparr>limMaxBlocks = 10000, limMaxDepth = 32\<rparr>"
    by (simp add: validateAggregateEnvelope_def sample_translated_def sample_stored_def sample_content_document_def sample_limits)
  have none: "expandedDeletes (agBlocks sample_stored) [] {} = {}" by (simp add: expandedDeletes_doomed no_doomed)
  have keep: "remove_blocks {} sample_stored = sample_stored" by (simp add: remove_blocks_def)
  have "baUpserts sample_translation = []" "baDeletes sample_translation = []" "baReorders sample_translation = []"
      "cdID (agDocument sample_stored) = 1"
      "sortUpsertsByDepth (agBlocks sample_translated) [] = Inr []" "sortDeletesByDepth (agBlocks sample_stored) {} = Inr []"
    by (simp_all add: sample_translation_def sample_batch_def sample_stored_def sample_content_document_def sortUpsertsByDepth_def
        sortDeletesByDepth_def blockDepths_def sample_translated_def block_at_def Let_def)
  with checked owned inputs groups envelope none keep show ?thesis
    by (simp add: apply_batch_def) (simp add: sample_translation_mutation_def sample_mutation_def)
qed

lemma sample_translation_stored:
  "\<exists>t' res. ApplyTargetLocaleBatchWithMetadata sample_store sample_tables sample_translation ''ko'' (\<lambda>_. Inr ''en'')
     (\<lambda>_. Inr noMetadata) = Inr (t', res) \<and> brContentChanged res"
proof -
  have checks: "validateBatchEnvelope sample_translation True = None" "baUpserts sample_translation = []" "baDeletes sample_translation = []"
      "baReorders sample_translation = []" "baDocument sample_translation = 1" "baExpectedRevision sample_translation = 5"
      "list_ex (\<lambda>g. lgLocale g \<noteq> ''ko'') (baGroups sample_translation) = False"
    by (simp_all add: sample_translation_def sample_batch_def validateBatchEnvelope_def validateContributorMemberIDs_def)
  have rest: "seContract sample_store = generatedContract sample_content" "seCanon sample_store = canonicalObject"
      "cdRevision (agDocument sample_stored) = 5"
    by (simp_all add: sample_store_def sample_stored_def sample_content_document_def)
  have digest: "snapshotDigest sample_store sample_translated = Inr ''abce''"
    by (simp add: snapshotDigest_def sample_store_def sample_hash_def digest_rows_def sample_stored_def sample_translated_def digest_row_def
        fault_as_def digest_locales_def locales_of_def)
  have source: "deriveTranslationSourceChanged (generatedContract sample_content) sample_stored sample_translated sample_translation_mutation ''en'' = Inr False"
    by (simp add: deriveTranslationSourceChanged_def mutationCanAffectTranslationSource_def sample_translation_mutation_def sample_mutation_def)
  have files: "validateFileChanges sample_store sample_tables sample_stored sample_translated sample_translation_mutation = None"
    by (simp add: validateFileChanges_def sample_translation_mutation_def sample_mutation_def)
  have "\<exists>t'. persistTargetLocale sample_translated sample_translation_mutation sample_tables = Inr t'"
    by (simp add: persistTargetLocale_def sample_translation_mutation_def sample_mutation_def persistLocaleMutations_def chunks_short
        upsert_locales_def put_locale_row_def locale_key_def sample_row_def sample_overlay_def sample_tables_def localizedData_def
        sample_translated_def locales_of_def verifyPersistedMutationLocales_def persisted_locales_def same_entry_def sameCanonicalJSON_def)
      (simp add: sample_text_def)
  then show ?thesis
    by (auto simp: ApplyTargetLocaleBatchWithMetadata_def checks rest through_fence_def sample_loads sample_validates sample_translates
        sample_digests digest source files target_metadata_def noMetadata_def)
qed

section \<open>A move\<close>

text \<open>Move the first root, which has a child, below the second one.\<close>

definition sample_moves :: Batch where
  "sample_moves = sample_batch\<lparr>baDeletes := [], baGroups := [],
     baReorders := [\<lparr>roBlock = 10, roParent = Some 12, roSlot = ''body'', roPosition = 0\<rparr>,
       \<lparr>roBlock = 12, roParent = None, roSlot = ''body'', roPosition = 0\<rparr>]\<rparr>"

definition sample_moved :: tables where
  "sample_moved = sample_tables\<lparr>tbDocuments := [bump 6 1 sample_content_document],
     tbBlocks := [sample_row 10 (Some 12) 0, sample_row 11 (Some 10) 0, sample_row 12 None 0]\<rparr>"

text \<open>The same catalog with a lower limit of the depth.\<close>

definition sample_shallow :: Contract where
  "sample_shallow = (generatedContract sample_content)\<lparr>coLimits := \<lambda>p. Inr \<lparr>limMaxBlocks = 10000, limMaxDepth = 2\<rparr>\<rparr>"

definition sample_move_rows :: hotReorderResultRow where
  "sample_move_rows = \<lparr>hrStatus = ''applied'', hrProfile = ''page'', hrRevision = 6,
     hrTargets = [sample_row 10 None 0, sample_row 12 None 1], hrSiblings = [], hrAncestors = [],
     hrLocales = [sample_overlay 10 ''en'' ''a'', sample_overlay 12 ''en'' ''c''], hrAttachments = []\<rparr>"

lemma sample_statement: "hotReorderMutationSQL 6 1 sample_tables sample_moves ''en'' = (sample_moved, sample_move_rows)"
proof -
  have rows: "block_row sample_tables 10 = Some (sample_row 10 None 0)" "block_row sample_tables 12 = Some (sample_row 12 None 1)"
    by (simp_all add: block_row_def sample_tables_def sample_row_def)
  have status: "reorder_status sample_tables sample_moves = ''applied''"
    by (simp add: reorder_status_def Let_def sample_moves_def sample_batch_def rows foreign_rows_def missing_row_def new_parents_def moves_some_def)
      (simp add: sample_tables_def sample_content_document_def sample_row_def displaced_def)
  have "ancestry_rows (filter (\<lambda>r. brDocument r = 1) (tbBlocks sample_tables)) (baReorders sample_moves) [] 12 = [sample_row 12 None 1]"
    by (simp add: ancestry_rows.simps sample_tables_def sample_row_def sample_moves_def)
  moreover have "new_parents (baReorders sample_moves) = [12]" by (simp add: new_parents_def sample_moves_def)
  moreover have "reorder_siblings sample_tables 1 (baReorders sample_moves) = []"
    by (simp add: reorder_siblings_def sample_moves_def rows) (simp add: sample_tables_def sample_row_def)
  moreover have "baDocument sample_moves = 1" by (simp add: sample_moves_def sample_batch_def)
  ultimately show ?thesis
    by (simp add: hotReorderMutationSQL_def status)
      (simp add: sample_moves_def rows sample_moved_def sample_move_rows_def, simp add: sample_tables_def sample_row_def sample_overlay_def
        reorder_rows_def displaced_def bump_def sample_content_document_def)
qed

lemma sample_move_checks:
  assumes "coValidateBlock co = coValidateBlock (generatedContract sample_content)"
    and "coValidateParent co = coValidateParent (generatedContract sample_content)"
    and "coLimits co ''page'' = Inr lim" and "2 \<le> limMaxDepth lim"
  shows "validateHotReorderResult co sample_move_rows (baReorders sample_moves) = Inr ()"
proof -
  let ?b = "\<lambda>k parent i d. (sample_block k parent i)\<lparr>flLocalized := sample_text d\<rparr>"
  let ?moved = "[(10, sample_block 10 (Some 12) 0), (12, sample_block 12 None 0)]"
  let ?done = "[(10, ?b 10 (Some 12) 0 ''a''), (12, ?b 12 None 0 ''c'')]"
  have n: "normalizeBlock co p (?b k parent i d) = Inr (?b k parent i d)" if "k \<noteq> 0" "parent \<noteq> Some 0" "0 \<le> i" for k parent i d p
    using sample_normalizes [of "sample_text d" k parent i p] that by (simp add: normalizeBlock_def assms(1))
  have blocks: "hot_blocks [sample_row 10 None 0, sample_row 12 None 1] = Inr [(10, sample_block 10 None 0), (12, sample_block 12 None 1)]"
    by (simp add: hot_blocks_def baseBlockFromHotReorder_def sample_row_def block_of_row_def sample_block_def)
  have moved: "fold move_block (baReorders sample_moves) [(10, sample_block 10 None 0), (12, sample_block 12 None 1)] = ?moved"
    by (simp add: sample_moves_def move_block_def block_at_def sample_block_def)
  have n2: "nat (limMaxDepth lim) = Suc (Suc (nat (limMaxDepth lim - 2)))" using assms(4) by linarith
  have walks: "affectedAncestryIDs ?moved (baReorders sample_moves) (limMaxDepth lim) = Inr [10, 12]"
    by (simp add: affectedAncestryIDs_def n2 sample_moves_def)
  have locales: "hot_locales [sample_overlay 10 ''en'' ''a'', sample_overlay 12 ''en'' ''c''] = Inr [(10, sample_text ''a''), (12, sample_text ''c'')]"
    by (simp add: hot_locales_def sample_overlay_def)
  have norm: "fold_result (normalize_affected co ''page'' [(10, sample_text ''a''), (12, sample_text ''c'')] []) ?moved [10, 12] = Inr ?done"
    by (simp add: normalize_affected_def block_at_def n sameFileReferences_def)
  have parents: "validateAffectedParents co ''page'' ?done [10, 12] = None"
    by (simp add: validateAffectedParents_def block_at_def assms(2) generatedContract_def generated_ValidateParent_def sample_content_def Let_def)
  have dense: "validateAffectedSiblingDensity ?done (affectedSiblingContainers [(10, sample_block 10 None 0), (12, sample_block 12 None 1)] (baReorders sample_moves)) = None"
    by (simp add: validateAffectedSiblingDensity_def affectedSiblingContainers_def sample_moves_def block_at_def sibling_key_def dense_def)
  show ?thesis
    using blocks moved walks locales norm parents dense assms(3)
    by (simp add: validateHotReorderResult_def sample_move_rows_def persisted_references_def)
qed

lemma sample_moves_checked: "validateOperationIDs sample_moves = None"
  by (simp add: validateOperationIDs_def base_operations_def sample_moves_def sample_batch_def base_round_def reorder_round_def)

lemma sample_reorders:
  assumes "seContract se = generatedContract sample_content \<or> seContract se = sample_shallow"
  shows "\<exists>res. applyReorderCTEPostgres se 6 1 sample_tables sample_moves ''en'' = Inr (sample_moved, res) \<and> brRevision res = 6"
proof -
  have "validateHotReorderResult (seContract se) sample_move_rows (baReorders sample_moves) = Inr ()"
    using assms sample_move_checks [OF refl refl sample_limits] sample_move_checks [of sample_shallow]
    by (auto simp: sample_shallow_def)
  then show ?thesis
    by (simp add: applyReorderCTEPostgres_def sample_moves_checked sample_statement) (simp add: sample_move_rows_def)
qed

lemma sample_moved_loads:
  "loadAggregate sample_moved 1 = Inr (sample_stored\<lparr>agDocument := bump 6 1 sample_content_document,
     agBlocks := [(10, sample_block 10 (Some 12) 0), (11, sample_block 11 (Some 10) 0), (12, sample_block 12 None 0)]\<rparr>)"
  by (simp add: loadAggregate_def loadContentDocument_def sample_moved_def sample_tables_def sample_content_document_def sample_row_def sample_overlay_def
      rows_aggregate_def load_block_def load_locale_def newAggregate_def block_of_row_def put_locale_def locales_of_def
      sample_stored_def sample_block_def bump_def)

lemma sample_trimmed: "trimmed_kinds sample_stored" "trimmed_slots (baReorders sample_moves)"
  by (simp_all add: trimmed_kinds_def sample_stored_def trimmed_slots_def sample_moves_def)

lemma sample_shallow_normalizes:
  "normalizeBlock sample_shallow p b = normalizeBlock (generatedContract sample_content) p b"
  by (simp add: normalizeBlock_def sample_shallow_def)

lemma sample_shallow_payload:
  "validateAggregateBlockPayload sample_shallow source k a = validateAggregateBlockPayload (generatedContract sample_content) source k a"
proof -
  have r: "payloadRound sample_shallow = payloadRound (generatedContract sample_content)"
    by (intro ext) (simp add: payloadRound_def sample_shallow_normalizes)
  show ?thesis unfolding validateAggregateBlockPayload_def r ..
qed

lemma sample_too_deep:
  "validateAggregate sample_shallow ''en'' (sample_stored\<lparr>agDocument := bump 6 1 sample_content_document,
     agBlocks := [(10, sample_block 10 (Some 12) 0), (11, sample_block 11 (Some 10) 0), (12, sample_block 12 None 0)]\<rparr>) =
   Inl (ErrInvalidMutation ''document exceeds Block depth'')"
proof -
  let ?a = "sample_stored\<lparr>agDocument := bump 6 1 sample_content_document,
     agBlocks := [(10, sample_block 10 (Some 12) 0), (11, sample_block 11 (Some 10) 0), (12, sample_block 12 None 0)]\<rparr>"
  have "validateAggregateBlockPayload sample_shallow ''en'' k ?a = Inr ?a" if "k \<in> {10, 11, 12}" for k
    using that sample_payload [of ?a 10 "Some 12" 0 "''en''"] sample_payload [of ?a 11 "Some 10" 0 "''en''"] sample_payload [of ?a 12 None 0 "''en''"]
    by (auto simp: sample_shallow_payload sample_stored_def locales_of_def)
  moreover have "validateAggregateEnvelope sample_shallow ?a ''en'' = Inr \<lparr>limMaxBlocks = 10000, limMaxDepth = 2\<rparr>"
    by (simp add: validateAggregateEnvelope_def sample_stored_def sample_shallow_def)
  moreover have "validateAggregateStructure sample_shallow ?a \<lparr>limMaxBlocks = 10000, limMaxDepth = 2\<rparr> = Some (ErrInvalidMutation ''document exceeds Block depth'')"
  proof -
    have p: "coValidateParent sample_shallow p par (sample_block k parent i) = None" for p par k parent i
      using sample_parents by (simp add: sample_shallow_def)
    show ?thesis
      by (simp add: validateAggregateStructure_def structureRound_def block_depth.simps [of sample_shallow] block_at_def p store_depth_def
          sibling_key_def Let_def bump_def sample_content_document_def)
  qed
  ultimately show ?thesis by (simp add: validateAggregate_def)
qed

section \<open>A batch of overlays\<close>

definition sample_overlays :: Batch where
  "sample_overlays = sample_translation\<lparr>baProfile := ''page''\<rparr>"

definition sample_overlaid :: tables where
  "sample_overlaid = sample_tables\<lparr>tbDocuments := [bump 6 1 sample_content_document],
     tbLocales := [sample_overlay 10 ''en'' ''a'', sample_overlay 11 ''en'' ''b'', sample_overlay 12 ''en'' ''c'', sample_overlay 12 ''ko'' ''e'']\<rparr>"

lemma sample_overlays_applied:
  "\<exists>res. applyLocaleBatchPostgres (=) sample_store 6 1 sample_tables sample_overlays ''en'' = Inr (sample_overlaid, res) \<and> brChangedLocales res = [''ko'']"
proof -
  let ?i = "\<lparr>hlBlock = 12, hlLocale = ''ko'', hlExpectedKind = ''text'', hlDelete = False, hlData = sample_text ''e''\<rparr>"
  have ids: "validateOperationIDs sample_overlays = None"
    by (simp add: validateOperationIDs_def base_operations_def sample_overlays_def sample_translation_def sample_batch_def group_check_def)
  have g: "baGroups sample_overlays = [\<lparr>lgLocale = ''ko'', lgUpserts = [\<lparr>luBlock = 12, luExpectedKind = ''text'', luData = sample_text ''e''\<rparr>], lgDeletes = []\<rparr>]"
      "baProfile sample_overlays = ''page''" "baDocument sample_overlays = 1" "baExpectedRevision sample_overlays = 5"
    by (simp_all add: sample_overlays_def sample_translation_def sample_batch_def)
  have "seContract sample_store = generatedContract sample_content" "seCanon sample_store = canonicalObject"
      "coValidateLocale (generatedContract sample_content) p k d = canonicalObject d" for p k d
    by (simp_all add: sample_store_def generatedContract_def sample_content_def)
  then have inputs: "normalizeHotLocaleInputs sample_store sample_overlays ''en'' = Inr [?i]"
    by (simp add: normalizeHotLocaleInputs_def ids g hot_group_def hot_update_def)
  have row: "block_row sample_tables 12 = Some (sample_row 12 None 1)" by (simp add: block_row_def sample_tables_def sample_row_def)
  have doc: "find (\<lambda>d. cdID d = 1) (tbDocuments sample_tables) = Some sample_content_document"
    by (simp add: sample_tables_def sample_content_document_def)
  have ch: "overlay_changes (=) sample_tables ?i"
    by (simp add: overlay_changes_def sample_tables_def sample_overlay_def locale_key_def) (simp add: sample_text_def)
  have status: "locale_status (=) sample_tables sample_overlays [?i] = ''applied''"
    using row ch doc by (simp add: locale_status_def g foreign_rows_def missing_row_def kind_differs_def owned_block_def)
      (simp add: sample_content_document_def sample_row_def)
  have st: "hotLocaleMutationSQL (=) 6 1 sample_tables sample_overlays [?i] = (sample_overlaid, \<lparr>hlrStatus = ''applied'', hlrRevision = 6,
      hlrTargets = [\<lparr>htBlock = 12, htLocale = ''ko'', htDelete = False, htData = sample_text ''e'', htChanged = True\<rparr>]\<rparr>)"
    by (simp add: hotLocaleMutationSQL_def g owned_block_def row ch status)
      (simp add: sample_overlaid_def sample_tables_def sample_overlay_def sample_row_def put_locale_row_def locale_key_def bump_def sample_content_document_def)
  have "encodable (sample_text ''e'')" by (simp add: encodable_def sample_text_def)
  then show ?thesis by (simp add: applyLocaleBatchPostgres_def inputs st changedHotLocales_def Let_def)
qed

lemma sample_dispatch:
  "\<exists>res. ApplyBatch (=) sample_store 6 7 1 sample_tables sample_moves (\<lambda>_. Inr ''en'') = Inr (sample_moved, res) \<and> brRevision res = 6"
proof -
  have "isReorderOnlyBatch sample_moves" "validateBatchEnvelope sample_moves False = None" "baDocument sample_moves = 1"
    by (simp_all add: isReorderOnlyBatch_def sample_moves_def sample_batch_def validateBatchEnvelope_def validateContributorMemberIDs_def)
  moreover have "seContract sample_store = generatedContract sample_content" by (simp add: sample_store_def)
  ultimately show ?thesis
    using sample_reorders [of sample_store] by (simp add: ApplyBatch_def through_fence_def applyReorderBatchPostgres_def)
qed

end
