(* ===== verification/Content_Properties.thy ===== *)
theory Content_Properties
  imports Content_Sample
begin

text \<open>
  The properties of the content block store, over the production contract \<open>generatedContract\<close> and an arbitrary
  generated catalog. Hypotheses on the catalog: \<open>stable_contract\<close> (what it has normalized it accepts unchanged)
  and \<open>slot_rules\<close> (it accepts a parent only for a well-formed container slot).
\<close>

section \<open>Batches on the tables\<close>

text \<open>
  C7. A batch that the store accepts is stored as computed: the tables stay consistent, the document loads again
  and is valid for the source locale in effect, and, unless nothing changed and the tables are the same, what loads is
  what \<open>apply\<close> computed from the stored document, with the new revision that the result reports. The batch was made for
  the stored revision.
\<close>

theorem accepted_batch_committed:
  assumes "seContract se = generatedContract cc" and "stable_contract (generatedContract cc)" and "slot_rules (generatedContract cc)"
    and "consistent t" and "loadAggregate t (baDocument batch) = Inr stored"
    and "valid_aggregate (generatedContract cc) source stored"
    and "applyBatchAfterFenceWithMetadata se fresh now t batch source allowMissing replaceAll metadata = Inr (t', res)"
  shows "\<exists>before after m stored'. validateAggregate (generatedContract cc) source stored = Inr before \<and>
    cdRevision (agDocument stored) = baExpectedRevision batch \<and>
    apply_batch (generatedContract cc) (seCanon se) (blockDocuments t) before (replace_deletes replaceAll before batch) source
      allowMissing replaceAll = Inr (after, m) \<and>
    consistent t' \<and> loadAggregate t' (baDocument batch) = Inr stored' \<and>
    valid_aggregate (generatedContract cc) (effective_source metadata source) stored' \<and>
    brRevision res = cdRevision (agDocument stored') \<and>
    (if brChanged res then same_state (after\<lparr>agDocument := bump fresh now (agDocument stored)\<rparr>) stored' else t' = t)"
  by (rule generated.accepted_batch_stored [OF assms])

theorem accepted_batch_committed_witness:
  "consistent sample_written \<and> (\<exists>stored'. loadAggregate sample_written 1 = Inr stored' \<and>
     valid_aggregate (generatedContract sample_content) ''en'' stored' \<and> cdRevision (agDocument stored') = 6)"
proof -
  from sample_committed obtain res where
      a: "applyBatchAfterFenceWithMetadata sample_store 6 1 sample_tables sample_batch ''en'' False False None = Inr (sample_written, res)"
      "brRevision res = 6" by blast
  have "seContract sample_store = generatedContract sample_content" "baDocument sample_batch = 1"
    by (simp_all add: sample_store_def sample_batch_def)
  with accepted_batch_committed [OF _ sample_hypotheses(1-3) _ sample_hypotheses(4) a(1)] sample_loads a(2) show ?thesis
    by (fastforce simp: effective_source_def)
qed

text \<open>
  C8. Concurrent editors cannot overwrite each other: once a batch has been accepted, every batch for the same
  document that was made for another revision than the one now reported is refused as stale, with that revision.
\<close>

theorem old_revision_refused:
  assumes "seContract se = generatedContract cc" and "stable_contract (generatedContract cc)" and "slot_rules (generatedContract cc)"
    and "consistent t" and "loadAggregate t (baDocument batch) = Inr stored"
    and "valid_aggregate (generatedContract cc) source stored"
    and "applyBatchAfterFenceWithMetadata se fresh now t batch source allowMissing replaceAll metadata = Inr (t', res)"
    and "baDocument other = baDocument batch" and "baExpectedRevision other \<noteq> brRevision res"
  shows "applyBatchAfterFenceWithMetadata se fresh' now' t' other (effective_source metadata source) allowMissing' replaceAll' metadata' =
    Inl (ErrStaleRevision (brRevision res))"
  by (rule generated.changed_refuses [OF assms])

theorem old_revision_refused_witness:
  "applyBatchAfterFenceWithMetadata sample_store 7 2 sample_written sample_batch ''en'' False False None = Inl (ErrStaleRevision 6)"
proof -
  from sample_committed obtain res where
      a: "applyBatchAfterFenceWithMetadata sample_store 6 1 sample_tables sample_batch ''en'' False False None = Inr (sample_written, res)"
      "brRevision res = 6" by blast
  have s: "seContract sample_store = generatedContract sample_content" "baDocument sample_batch = 1" "baExpectedRevision sample_batch = 5"
    by (simp_all add: sample_store_def sample_batch_def)
  have l: "loadAggregate sample_tables (baDocument sample_batch) = Inr sample_stored" using sample_loads s by simp
  have "baExpectedRevision sample_batch \<noteq> brRevision res" using a(2) s(3) by simp
  from old_revision_refused [OF s(1) sample_hypotheses(1-3) l sample_hypotheses(4) a(1) refl this, of 7 2 False False None]
  show ?thesis using a(2) by (simp add: effective_source_def)
qed

text \<open>
  C9. An accepted batch touches its own document only: the other document rows, and the block row, the overlays and
  the attachments of every block of another document, stay as they are.
\<close>

theorem other_documents_kept:
  assumes "seContract se = generatedContract cc" and "stable_contract (generatedContract cc)" and "slot_rules (generatedContract cc)"
    and "consistent t" and "loadAggregate t (baDocument batch) = Inr stored"
    and "valid_aggregate (generatedContract cc) source stored"
    and "applyBatchAfterFenceWithMetadata se fresh now t batch source allowMissing replaceAll metadata = Inr (t', res)"
  shows "keeps_foreign (baDocument batch) t t'"
  by (rule generated.accepted_batch_foreign [OF assms])

theorem other_documents_kept_witness: "keeps_foreign 1 sample_tables sample_written"
proof -
  from sample_committed obtain res where
      a: "applyBatchAfterFenceWithMetadata sample_store 6 1 sample_tables sample_batch ''en'' False False None = Inr (sample_written, res)"
    by blast
  have "seContract sample_store = generatedContract sample_content" "baDocument sample_batch = 1"
    by (simp_all add: sample_store_def sample_batch_def)
  with other_documents_kept [OF _ sample_hypotheses(1-3) _ sample_hypotheses(4) a] sample_loads show ?thesis by simp
qed

section \<open>Batches on the aggregate\<close>

text \<open>
  C10. \<open>apply\<close> keeps documents valid: from a valid aggregate an accepted batch of upserts, deletes, reorders and
  locale groups leads to a valid one, although only the written blocks are validated again.
\<close>

theorem apply_keeps_valid:
  assumes "stable_contract (generatedContract cc)" and "slot_rules (generatedContract cc)"
    and "valid_aggregate (generatedContract cc) source before"
    and "apply_batch (generatedContract cc) canon owners before b source allowMissing replaceAll = Inr (after, m)"
  shows "valid_aggregate (generatedContract cc) source after"
  by (rule generated.apply_batch_valid [OF assms])

theorem apply_keeps_valid_witness: "valid_aggregate (generatedContract sample_content) ''en'' sample_after"
  by (rule apply_keeps_valid [OF sample_hypotheses(1,2,4) sample_applies])

text \<open>
  C11. A mutation is written in an order that respects the tree: parents are upserted before their
  descendants and deleted after them, and the deleted blocks are exactly those named by the batch and those
  below a deleted block that the batch does not keep by an upsert or a reorder.
\<close>

theorem mutation_orders:
  assumes "apply_batch co canon owners before b source allowMissing replaceAll = Inr (after, m)"
  shows "set (pmUpsertOrder m) = bbID ` set (baUpserts b) \<and>
    sorted_wrt (\<lambda>x y. \<not> ancestor (block_parents (agBlocks after)) y x) (pmUpsertOrder m) \<and>
    set (pmDeleteOrder m) = {k. doomed (agBlocks before) (baDeletes b) (operated b) k} \<and>
    sorted_wrt (\<lambda>x y. \<not> ancestor (block_parents (agBlocks before)) x y) (pmDeleteOrder m)"
  by (rule apply_batch_orders [OF assms])

theorem mutation_orders_witness: "{11, 10} = {k. doomed (agBlocks sample_stored) [10] {12} k}"
  using mutation_orders [OF sample_applies] by (simp add: sample_mutation_def sample_batch_def operated_def)

text \<open>
  C12. The structure check accepts exactly the well-placed forests: every block has a parent that exists and that
  the contract accepts, every path to a root is shorter than the depth limit (so there is no cycle), and the siblings of
  every container have the positions 0, 1, 2 and so on.
\<close>

theorem structure_check_characterized:
  "validateAggregateStructure co a lim = None \<longleftrightarrow>
     (\<forall>k b. map_of (agBlocks a) k = Some b \<longrightarrow> parent_ok co (cdProfile (agDocument a)) (agBlocks a) b \<and>
        (\<exists>n. height (block_parents (agBlocks a)) k n \<and> int n < limMaxDepth lim)) \<and>
     (\<forall>key. dense (positions (agBlocks a) key))"
  by (simp only: validateAggregateStructure_iff structure_ok_height)

theorem structure_check_characterized_witness:
  "\<forall>key. dense (positions (agBlocks sample_stored) key)"
  using sample_structures(1) unfolding structure_check_characterized by blast

section \<open>Locales and loading\<close>

text \<open>
  C13. A target locale batch changes overlays of the target locale only: documents with their revisions, blocks,
  attachments and the overlays of every other locale stay; the revision it reports is the one it was made for,
  and the target is never the source locale.
\<close>

theorem target_locale_isolated:
  assumes "ApplyTargetLocaleBatchWithMetadata se t batch target fence metadata = Inr (t', res)"
  shows "keeps_other_locales target t t' \<and> brRevision res = baExpectedRevision batch \<and> \<not> brSourceChanged res \<and>
    set (brChangedLocales res) \<subseteq> {target} \<and> fence (baDocument batch) \<noteq> Inr target"
  by (rule target_batch_keeps [OF assms])

theorem target_locale_isolated_witness:
  "\<exists>t' res. ApplyTargetLocaleBatchWithMetadata sample_store sample_tables sample_translation ''ko'' (\<lambda>_. Inr ''en'') (\<lambda>_. Inr noMetadata) =
     Inr (t', res) \<and> brContentChanged res \<and> keeps_other_locales ''ko'' sample_tables t' \<and> brRevision res = 5"
proof -
  from sample_translation_stored obtain t' res where
      a: "ApplyTargetLocaleBatchWithMetadata sample_store sample_tables sample_translation ''ko'' (\<lambda>_. Inr ''en'') (\<lambda>_. Inr noMetadata) = Inr (t', res)"
      "brContentChanged res" by blast
  have "baExpectedRevision sample_translation = 5" by (simp add: sample_translation_def sample_batch_def)
  with target_locale_isolated [OF a(1)] a show ?thesis by auto
qed



section \<open>PostgreSQL paths\<close>

text \<open>
  C16. A reorder that the PostgreSQL path accepts, which loads the moved blocks, their siblings and their ancestors
  only, leaves a well-placed forest: the document loads again with the reported revision and every block in its new
  place, every parent exists and is accepted, there is no cycle, all siblings of the document are numbered 0, 1, 2 and
  so on, and the moved blocks respect the depth limit of 32. If the blocks below them do too, the whole document is valid.
  The slots of the batch and the stored kinds have no surrounding white space.
\<close>

theorem reorder_keeps_forest:
  assumes "seContract se = generatedContract cc" and "slot_rules (generatedContract cc)" and "consistent t"
    and "loadAggregate t (baDocument b) = Inr stored" and "valid_aggregate (generatedContract cc) source stored"
    and "trimmed_kinds stored" and "trimmed_slots (baReorders b)"
    and "applyReorderCTEPostgres se fresh now t b source = Inr (t', res)"
  shows "\<exists>stored'. consistent t' \<and> cdRevision (agDocument stored) = baExpectedRevision b \<and>
    loadAggregate t' (baDocument b) = Inr stored' \<and> moved_state (baReorders b) stored stored' \<and>
    brRevision res = cdRevision (agDocument stored') \<and>
    placed_forest (generatedContract cc) (cdProfile (agDocument stored)) (agBlocks stored') \<and>
    (\<forall>r \<in> set (baReorders b). \<exists>n < 32. height (block_parents (agBlocks stored')) (roBlock r) n) \<and>
    ((\<forall>k n. map_of (agBlocks stored') k \<noteq> None \<and> height (block_parents (agBlocks stored')) k n \<longrightarrow> n < 32) \<longrightarrow>
       valid_aggregate (generatedContract cc) source stored')"
proof -
  from generated.reorder_stored [OF assms] obtain stored' lim where s: "consistent t'" "cdRevision (agDocument stored) = baExpectedRevision b"
      "loadAggregate t' (baDocument b) = Inr stored'" "moved_state (baReorders b) stored stored'"
      "brRevision res = cdRevision (agDocument stored')"
      "placed_forest (generatedContract cc) (cdProfile (agDocument stored)) (agBlocks stored')"
      and lim: "coLimits (generatedContract cc) (cdProfile (agDocument stored)) = Inr lim"
      and h: "\<forall>r \<in> set (baReorders b). \<exists>n. height (block_parents (agBlocks stored')) (roBlock r) n \<and> int n < limMaxDepth lim"
      and v: "(\<forall>k n. map_of (agBlocks stored') k \<noteq> None \<and> height (block_parents (agBlocks stored')) k n \<longrightarrow> int n < limMaxDepth lim) \<longrightarrow>
         valid_aggregate (generatedContract cc) source stored'"
    by blast
  have l: "limMaxDepth lim = 32" by (rule generated_depth [OF lim])
  have "\<forall>r \<in> set (baReorders b). \<exists>n < 32. height (block_parents (agBlocks stored')) (roBlock r) n" using h l by fastforce
  then show ?thesis using s v l by (intro exI [of _ stored']) simp
qed

theorem reorder_keeps_forest_witness:
  "\<exists>stored'. loadAggregate sample_moved 1 = Inr stored' \<and> cdRevision (agDocument stored') = 6 \<and>
     placed_forest (generatedContract sample_content) ''page'' (agBlocks stored')"
proof -
  have se: "seContract sample_store = generatedContract sample_content" "baDocument sample_moves = 1" "cdProfile (agDocument sample_stored) = ''page''"
    by (simp_all add: sample_store_def sample_moves_def sample_batch_def sample_stored_def sample_content_document_def)
  from sample_reorders [OF disjI1 [OF se(1)]] obtain res where
      a: "applyReorderCTEPostgres sample_store 6 1 sample_tables sample_moves ''en'' = Inr (sample_moved, res)" "brRevision res = 6" by blast
  have l: "loadAggregate sample_tables (baDocument sample_moves) = Inr sample_stored" using sample_loads se(2) by simp
  from reorder_keeps_forest [OF se(1) sample_hypotheses(2,3) l sample_hypotheses(4) sample_trimmed a(1)] se a(2) show ?thesis by auto
qed

text \<open>
  The depth of the blocks below a moved one is not checked: with a limit of 2, the PostgreSQL path accepts a reorder of
  a valid document after which the stored document exceeds the limit and is refused by every later load.
\<close>

theorem reorder_exceeds_depth:
  "\<exists>res stored'. applyReorderCTEPostgres (sample_store\<lparr>seContract := sample_shallow\<rparr>) 6 1 sample_tables sample_moves ''en'' = Inr (sample_moved, res) \<and>
     loadAggregate sample_moved 1 = Inr stored' \<and>
     validateAggregate sample_shallow ''en'' stored' = Inl (ErrInvalidMutation ''document exceeds Block depth'')"
  using sample_reorders [of "sample_store\<lparr>seContract := sample_shallow\<rparr>"] sample_moved_loads sample_too_deep by auto





end
