(* ===== verification/Spec2Isabelle.thy ===== *)
theory Spec2Isabelle
  imports Demo Edit_Correct Read_Correct Wire_Requests Wire_Nodes Content_Properties
begin

text \<open>
  \<^bold>\<open>The document engine and the content block store of geul-api.\<close> This library verifies two Go packages.
  \<open>internal/aidocument\<close> is the engine through which every owning domain (posts, pages, works, forms, mails
  and so on) lets a caller describe, read and change its documents. A document is a forest of typed blocks
  with field values that all locales share, field values of one locale, files, and relations of ordered items;
  a catalog says which kinds, fields and relations a document may have. A caller reads pages of projected
  blocks and sends batches of operations against the revisions it has seen; the engine validates a batch as a
  whole, the owning domain applies it in a transaction and reports a result, which the engine checks.
  \<open>internal/contentblock\<close> is the storage below most of those domains: a document row with a revision, block
  rows with shared data, an overlay row for each block and locale, and attachment rows for the files in the
  payloads. A batch of upserts, deletes, reorders and overlays is applied to the loaded aggregate, checked
  against the generated block contract, written row by row and read back. The packages meet in the domains,
  which translate operations to batches; that translation is outside both.

  \<^bold>\<open>Theories.\<close> Each names the Go file it models; a Go function keeps its name, a method \<open>T.m\<close> is \<open>T_m\<close>
  where the name is taken.
  \<^item> \<open>Prelude\<close>: errors, early returns, panics and loops that may not end; the loop shapes of the validators;
    list lemmas. \<open>Go_Strings\<close>, \<open>Go_Runes\<close>: what the package uses of \<open>strings\<close>, \<open>strconv\<close>, \<open>unicode/utf8\<close>.
  \<^item> \<open>Doc_Types\<close> (\<open>types.go\<close>, \<open>values.go\<close>, \<open>operations.go\<close>): the data, one record or datatype per struct.
  \<^item> \<open>Value_Validation\<close>, \<open>Catalog_Validation\<close>, \<open>Doc_Validation\<close> (\<open>values.go\<close>, \<open>catalog_index.go\<close>,
    \<open>validate_catalog.go\<close>, \<open>validate_document.go\<close>): the checks of identifiers, values, schemas, catalogs and
    documents. \<open>Forest\<close> holds the walks over parent links; \<open>Validation_Safety\<close> shows that no check panics.
  \<^item> \<open>Canonical\<close> (\<open>clone.go\<close>): the canonical order of blocks, fields and items. \<open>Handles\<close>
    (\<open>operation_handles.go\<close>): the reported handles.
  \<^item> \<open>Doc_Mutation\<close> (\<open>mutation.go\<close>): the effect of every operation. \<open>Placement\<close> is the contract of an
    ordered sequence; \<open>Block_Order\<close> interprets it for the children of a block and for relation items.
    \<open>Field_Paths\<close>: writes below the top level of a field.
  \<^item> \<open>Op_Validation\<close> (\<open>validation.go\<close>): the batch validator with its block graph. \<open>Op_Graph\<close> keeps the graph a
    tree; \<open>Tree_Refinement\<close>, \<open>View_Refinement\<close>, \<open>Op_Simulation\<close>, \<open>Batch_Apply\<close> and \<open>Batch_Correct\<close> relate the
    graph to the mutated document, step by step and for whole batches; \<open>Locale_Isolation\<close> shows what a
    translation request cannot touch.
  \<^item> \<open>Text_Format\<close>, \<open>Text_Edit\<close> (\<open>text_edit_format.go\<close>, \<open>text_edit.go\<close>): planning of text edits, with
    \<open>Format_Correct\<close> and \<open>Edit_Correct\<close>.
  \<^item> \<open>Apply_Service\<close>, \<open>Read_Service\<close>, \<open>Outline\<close> (\<open>service.go\<close>, \<open>batch.go\<close>, \<open>codec.go\<close>, \<open>outline_preview.go\<close>): the
    service that callers use, with \<open>Read_Correct\<close>. \<open>Wire\<close> (\<open>codec.go\<close>, \<open>operations.go\<close>): the JSON of values,
    operations and requests, with \<open>Wire_Correct\<close> and \<open>Wire_Requests\<close>; \<open>Wire_Nodes\<close>: the JSON of nodes and
    projections. \<open>Json\<close>: parsed JSON, its canonical form and its text encoding of strings.
  \<^item> \<open>Content_Types\<close> (\<open>types.go\<close>, \<open>errors.go\<close>, \<open>state.go\<close> of \<open>internal/contentblock\<close>): UUIDs, blocks, aggregates,
    batches, errors. \<open>Content_Payload\<close> (\<open>canonical.go\<close>, \<open>validation.go\<close>): canonical payloads and file references.
    \<open>Content_Structure\<close> (\<open>validation.go\<close>): the tree checks. \<open>Content_Contract\<close> (\<open>generated_contract.go\<close>): the
    block contract over the generated catalog.
  \<^item> \<open>Content_Apply\<close> (\<open>store.go\<close>): a batch on an aggregate. \<open>Content_Valid\<close>, \<open>Content_Correct\<close> and
    \<open>Content_Preservation\<close>: valid aggregates stay valid. \<open>Content_Orders\<close>: the structure check in terms of
    the parent map, the closure of deletes, the orders of writing.
  \<^item> \<open>Content_Tables\<close>, \<open>Content_Persist\<close> (\<open>repository.go\<close>, \<open>models.go\<close>): rows, loading, the statements of
    \<open>persist\<close>. \<open>Content_Store\<close> (\<open>store.go\<close>, \<open>target_locale.go\<close>): the operations of \<open>Store\<close>.
  \<^item> \<open>Content_Loading\<close>, \<open>Content_State\<close>, \<open>Content_Written\<close>, \<open>Content_Refine\<close>, \<open>Content_Commit\<close>,
    \<open>Content_Accepted\<close>: the tables refine the aggregate, through loading, through each statement and through a
    whole accepted batch. \<open>Content_Isolation\<close>: what a batch cannot touch.
  \<^item> \<open>Content_Hot\<close> (\<open>hot_reorder.go\<close>, \<open>affected_reorder.go\<close>), \<open>Content_Hot_Locale\<close> (\<open>hot_locale.go\<close>),
    \<open>Content_Hot_Shared\<close> (\<open>hot_shared.go\<close>, \<open>affected_shared.go\<close>): the PostgreSQL paths, which write reorders,
    overlays or shared data with one statement and without loading the document, and \<open>ApplyBatch\<close>, which chooses a
    path. \<open>Content_Moves\<close>: reorders against the whole document. \<open>Content_Dispatch\<close>: what all paths have in common.
  \<^item> \<open>Demo\<close>, \<open>Content_Sample\<close>: the concrete documents, requests, reads and batches of the witnesses.
    \<open>Content_Properties\<close> holds the properties of the store, this theory all others.

  \<^bold>\<open>State and effects.\<close> The engine keeps no state of its own: documents are values, pointers into a slice
  are a find and a replacement at the first match, Go maps are association lists where their order or
  their absence matters and sets or maps otherwise. A returned error is \<open>Err\<close> with the constant part of
  its message; a nil dereference, a write to a nil map and an index out of range are \<open>NilDeref\<close>. The state of
  the store is the record \<open>tables\<close>, four lists of rows; a statement is a function on them with the number of
  affected rows it is checked against, in chunks of 1000 rows as the code sends them. An operation returns the
  tables it leaves, an error returns none: the caller's transaction rolls back. The statements are those for
  PostgreSQL. \<open>consistent\<close> states the primary and foreign keys of the schema.

  \<^bold>\<open>Interfaces.\<close> \<open>block_table\<close> (\<open>Forest\<close>) is the tree invariant under insertion, move and deletion,
  interpreted for the validator's graph and for the document; \<open>placement\<close> is insert-after in a sequence,
  interpreted for blocks and for relation items; \<open>node_projection\<close> (\<open>Read_Correct\<close>) is a read mode that keeps a
  part of a block, interpreted for whole blocks, outlines, field selections and the canonical form;
  \<open>cursor_codec\<close> is a cursor bound to its read, interpreted for \<open>encodeCursor\<close> and \<open>decodeCursor\<close>;
  \<open>placed_contract\<close> (\<open>Content_Contract\<close>) is what the store relies on in a block contract (the place of a block
  does not change its payload), interpreted for \<open>generatedContract\<close> over every catalog.

  \<^bold>\<open>Parameters.\<close> \<open>K\<close> is the set of site variable keys (\<open>internal/sitevariable\<close>), \<open>lower\<close> is
  \<open>unicode.ToLower\<close>, \<open>digest\<close> the truncated SHA-256 in hexadecimal of the parts a cursor is bound to,
  \<open>load\<close> and \<open>port\<close> the owning domain's port with an error type of its own. What a property needs of them
  is a hypothesis: the digest has no \<open>.\<close>, or the digests of two reads differ. Of the store: the functions of
  the generated content catalog (\<open>content_catalog\<close>), \<open>CanonicalizeStorageLocale\<close>, the catalog's hash, the
  authorizer of file reuse, the answers of the domain's fence and metadata callback, new UUIDs, the time, and the
  equality of \<open>jsonb\<close> values in the database (\<open>same\<close>).
  Hypotheses on the catalog are \<open>stable_contract\<close> (what it has normalized it accepts unchanged) and \<open>slot_rules\<close> (it
  accepts a parent only for a well-formed container slot).

  \<^bold>\<open>Bounds and fuel.\<close> Nesting is limited to 32 levels by the validators, a batch to 100 operations.
  \<open>appendSubtree\<close> gets the number of blocks as fuel and \<open>isDescendant\<close> the size of the graph, both enough for
  any forest (C19, C2); without a forest the code may recurse forever and the model answers \<open>NoReturn\<close>.
  \<open>rebuildInline\<close>, the closures of deleted subtrees, the recursive query for ancestors and the memoized depth of
  a block end by a measure; the walk of \<open>affectedAncestryIDs\<close> ends at the depth limit. \<open>follow\<close> (the client of a paged read)
  gets one more than the number of selected blocks. Revisions and positions are \<open>int\<close>; the one place where
  the width of \<open>int\<close> shows, \<open>strconv.Atoi\<close> of a cursor, keeps its bound of \<open>2 ^ 63\<close>; the position in a
  stored row that is hashed is a \<open>32 word\<close>, as the code converts it, and UUIDs are \<open>128 word\<close>.

  \<^bold>\<open>Properties.\<close> C1 to C6: an accepted batch applies, validation always answers, the tree is kept, graph and
  document agree, requests are current, translations are isolated. C7 to C14 (\<open>Content_Properties\<close>): the store
  commits what it computed, refuses old revisions, leaves other documents and other locales alone, keeps
  documents valid and writes in tree order; the structure check and the batched load are characterized. C15 to
  C17 (also there): every path of \<open>ApplyBatch\<close> is current and isolated, reorders keep the forest, overlays are
  stored; \<open>reorder_exceeds_depth\<close> shows what the reorder path does not check. C18 to C22: documents,
  canonical order and the structural operations against sequences and parent maps. C23 to C25: nested values. C26
  to C28: text edits against styled text. C29 and C30: acceptance of results. C31 to C35: reads, paging,
  selections, batches. C36 and C37: search and previews. C38 to C40: wire round trips. Further theorems without a
  number complete these groups.

  \<^bold>\<open>Not modelled.\<close> Log lines and interpolated parts of messages; the JSON text that \<open>encoding/json\<close> reads and
  writes (the model is at parsed documents) and the encoding of metadata; the discovery
  metadata of schemas (enumerations, numeric bounds, required flags), which no code of the engine reads;
  \<open>issue_log.go\<close> and \<open>interactive_completion.go\<close> (log attributes, a deprecated context marker). Of the store: the
  statements for other databases, row locks, presence queries, publication attachments, protobuf conversion and
  rendering. Outside the two packages: the owning domains, authorization, media, mail and HTTP,
  which are I/O around the port and the store.
\<close>

section \<open>Accepted requests\<close>

text \<open>
  C1. A batch that \<open>ValidateOperations\<close> accepts is applied by \<open>DocumentAfterOperations\<close> without an
  error, and the resulting blocks are again a forest with distinct identifiers whose relations have
  distinct items. The batch has whole-field writes and no kind replacement, and the identifiers of
  the catalog contain no NUL byte (its rule keys are joined with NUL).
\<close>

theorem accepted_batch_applies:
  assumes "ValidateOperations K d r = Inr res" and "Valid res"
    and "plain_catalog (docCatalog d)" and "list_all flat_operation (arOperations r)"
  shows "\<exists>d'. DocumentAfterOperations d (arOperations r) = Inr d' \<and>
    nodes_ok (docNodes d') \<and> struct_ok (docNodes d')"
  using accepted_request_applies [OF assms(1-3)] assms(4) by (simp add: list_all_iff)

theorem accepted_batch_applies_witness:
  "\<exists>d'. DocumentAfterOperations demo_document demo_operations = Inr d' \<and>
    nodes_ok (docNodes d') \<and> struct_ok (docNodes d')"
  using accepted_batch_applies [OF demo_accepted demo_plain] demo_flat by (simp add: demo_request_def)

text \<open>
  C2. \<open>ValidateOperations\<close> returns a result for every document and request: no nil pointer or nil map
  is dereferenced and no loop runs forever, whatever the catalog, the document and the operations.
\<close>

theorem ValidateOperations_returns: "\<exists>res. ValidateOperations K d r = Inr res"
  by (rule ValidateOperations_total)

text \<open>
  C3. Whenever an accepted batch of any operations, nested writes and kind replacements included, is
  applied, the blocks of the result are a forest with distinct identifiers and existing parents.
\<close>

theorem accepted_batch_keeps_tree:
  assumes "ValidateOperations K d r = Inr res" and "Valid res"
    and "DocumentAfterOperations d (arOperations r) = Inr d'"
  shows "nodes_ok (docNodes d')"
  by (rule DocumentAfterOperations_tree [OF assms])

theorem accepted_batch_keeps_tree_witness:
  "\<exists>d'. DocumentAfterOperations demo_document demo_operations = Inr d' \<and> nodes_ok (docNodes d')"
proof -
  from accepted_request_applies [OF demo_accepted demo_plain] demo_flat
  obtain d' where d': "DocumentAfterOperations demo_document demo_operations = Inr d'"
    by (auto simp: demo_request_def list_all_iff)
  then have "nodes_ok (docNodes d')"
    by (intro accepted_batch_keeps_tree [OF demo_accepted]) (simp add: demo_request_def)
  with d' show ?thesis by blast
qed

text \<open>
  C4. The validator's block graph is a refinement abstraction of the document: if graph and document
  agree on the kind, parent and relation items of every block, they still agree after an accepted
  operation (other than a kind replacement) has been applied to both.
\<close>

theorem accepted_operation_refines:
  assumes "simulates (vGraph v) d" and "graph_ok (vGraph v)"
    and "validator_validate K v op = Inr None" and "accept v op = Inr v'"
    and "applyDocumentOperation d op = Inr d'" and "opKind op \<noteq> OperationReplaceBlockKind"
  shows "simulates (vGraph v') d'"
  by (rule accepted_simulates [OF assms])

definition demo_move :: Operation where
  "demo_move = MoveBlockOperation ''b'' '''' ''a''"

theorem accepted_operation_refines_witness:
  "\<exists>v' d'. accept (newValidator demo_document (demo_request [demo_move])) demo_move = Inr v' \<and>
     applyDocumentOperation demo_document demo_move = Inr d' \<and> simulates (vGraph v') d'"
proof -
  let ?v = "newValidator demo_document (demo_request [demo_move])"
  have st: "struct_ok (docNodes demo_document)"
    using Document_validate_parts [OF demo_document_valid] validateNodes_struct by blast
  have s: "simulates (vGraph ?v) demo_document"
    using newOperationGraph_view [OF st] st by (simp add: simulates_def newValidator_def)
  have g: "graph_ok (vGraph ?v)" by (rule newValidator_ok(1) [OF demo_document_valid])
  have ok: "validator_validate demo_keys ?v demo_move = Inr None" by code_simp
  obtain v' where v': "accept ?v demo_move = Inr v'" using accept_graph_ok [OF g ok] by blast
  obtain d' where d': "applyDocumentOperation demo_document demo_move = Inr d'"
    by (simp add: applyDocumentOperation_def demo_move_def operation_builders)
  show ?thesis
    using accepted_operation_refines [OF s g ok v' d'] v' d'
    by (simp add: demo_move_def operation_builders)
qed

text \<open>
  C5. An accepted request is current: the document has the requested identity and locale and both
  expected revisions; a stale request is never accepted.
\<close>

theorem accepted_request_is_current:
  assumes "ValidateOperations K d r = Inr res" and "Valid res"
  shows "docIdentity d = ApplyRequest_Identity r \<and> docLocale d = arLocale r \<and>
    docRevision d = arExpectedDocumentRevision r \<and> docTargetRevision d = arExpectedTargetRevision r \<and>
    arOperations r \<noteq> [] \<and> length (arOperations r) \<le> 100"
proof -
  note a = Valid_accepted [OF assms]
  have "arOperations r \<noteq> [] \<and> length (arOperations r) \<le> 100"
    using a(1) by (simp add: validateEnvelope_def first_error_None)
  then show ?thesis using a(3-6) by (auto simp: equalRevision_def split: option.splits)
qed

theorem accepted_request_is_current_witness:
  "docRevision demo_document = arExpectedDocumentRevision (demo_request demo_operations)"
  using accepted_request_is_current [OF demo_accepted] by blast



section \<open>Documents\<close>

text \<open>
  C18. The node checks accept exactly the block forests: distinct non-empty identifiers, existing
  parents and no cycle, with every block valid on its own.
\<close>

theorem validateNodes_characterized:
  "validateNodes K nodes = None \<longleftrightarrow>
     nodes_ok nodes \<and>
     list_all (\<lambda>n. validateStableID ''block ID'' (nodeID n) maxHandleLength = None \<and>
       validateProjectedNode K n = None) nodes"
  by (simp add: validateNodes_iff list_all_iff)

text \<open>
  C19. Canonical ordering ends on every forest of blocks (parents outside the selection included) and
  lists every block once, in canonical form, each after its parent.
\<close>

theorem canonicalNodes_lists_forest:
  assumes "nodes_forest nodes"
  shows "\<exists>r. canonicalNodes nodes = Inr r \<and> mset r = mset (map canonicalNode nodes) \<and>
    parents_first (nodeID ` set nodes) {} r"
  using canonicalNodes_forest [OF assms] canonicalNodes_parents_first by blast

theorem canonicalNodes_lists_forest_witness:
  "\<exists>r. canonicalNodes (docNodes demo_document) = Inr r \<and>
    mset r = mset (map canonicalNode (docNodes demo_document))"
proof -
  have "nodes_forest (docNodes demo_document)"
    using Document_validate_parts [OF demo_document_valid] validateNodes_ok nodes_ok_forest by blast
  from canonicalNodes_lists_forest [OF this] show ?thesis by blast
qed

text \<open>
  The canonical order does not depend on the order of the input, and ordering twice changes
  nothing.
\<close>

theorem canonicalNodes_deterministic:
  assumes "nodes_forest nodes" and "mset ms = mset nodes"
  shows "canonicalNodes ms = canonicalNodes nodes \<and>
    and_then (canonicalNodes nodes) canonicalNodes = canonicalNodes nodes"
proof -
  have "canonicalNodes ms = canonicalNodes nodes"
    using canonicalNodes_perm [OF assms(2)] assms(1) by (simp add: nodes_forest_def)
  moreover have "and_then (canonicalNodes nodes) canonicalNodes = canonicalNodes nodes"
    using canonicalNodes_forest [OF assms(1)] canonicalNodes_idem [OF assms(1)] by auto
  ultimately show ?thesis by blast
qed

theorem canonicalNodes_deterministic_witness:
  "canonicalNodes (rev (docNodes demo_document)) = canonicalNodes (docNodes demo_document)"
proof -
  have "nodes_forest (docNodes demo_document)"
    using Document_validate_parts [OF demo_document_valid] validateNodes_ok nodes_ok_forest by blast
  from canonicalNodes_deterministic [OF this, of "rev (docNodes demo_document)"] show ?thesis by simp
qed

section \<open>Structural operations\<close>

text \<open>
  C20. Placing a block after an anchor puts it right after the anchor (or first) in the child sequence
  of the new parent and keeps the relative order of the other children of every parent.
\<close>

theorem placeBlockAfter_places:
  assumes "ready_block p nodes b a"
  shows "block_sequence p (placeBlockAfter nodes b p a) = insert_after a b (removeAll b (block_sequence p nodes)) \<and>
    (q = p \<or> block_sequence q (placeBlockAfter nodes b p a) = removeAll b (block_sequence q nodes)) \<and>
    node_parents (placeBlockAfter nodes b p a) = (node_parents nodes)(b \<mapsto> p)"
  using placeBlockAfter_sequence [OF assms] placeBlockAfter_other_sequence [of q p nodes b a]
    placeBlockAfter_parents [of b nodes p a] assms by (auto simp: ready_block_def)

theorem placeBlockAfter_places_witness:
  "block_sequence '''' (placeBlockAfter (docNodes demo_document) ''b'' '''' ''a'') = [''a'', ''b'', ''g'']"
proof -
  have seq: "block_sequence '''' (docNodes demo_document) = [''a'', ''g'']" by code_simp
  have "ready_block '''' (docNodes demo_document) ''b'' ''a''"
    using seq by (simp add: ready_block_def demo_document_def demo_node_def)
  from placeBlockAfter_places [OF this, of "''''"] seq show ?thesis by simp
qed

text \<open>
  C21. Deleting a block removes exactly its subtree; the children that remain keep their parents and
  their relative order.
\<close>

theorem deleteBlockSubtree_exact:
  assumes "distinct (map nodeID nodes)"
  shows "node_parents (deleteBlockSubtree b nodes) = node_parents nodes |` {x. x \<notin> subtree nodes b} \<and>
    block_sequence q (deleteBlockSubtree b nodes) =
      filter (\<lambda>x. x \<notin> subtree nodes b) (block_sequence q nodes)"
  using deleteBlockSubtree_parents [OF assms] deleteBlockSubtree_sequence [OF assms] by blast

theorem deleteBlockSubtree_exact_witness:
  "node_parents (deleteBlockSubtree ''a'' (docNodes demo_document)) =
     node_parents (docNodes demo_document) |` {x. x \<notin> subtree (docNodes demo_document) ''a''}"
  using deleteBlockSubtree_exact [of "docNodes demo_document" "''a''"]
  by (simp add: demo_document_def demo_node_def)

text \<open>
  C22. Placing a relation item after an anchor puts it right after the anchor (or first), keeps the
  order of the others, keeps every item with its fields and files, and renumbers from 0.
\<close>

theorem placeRelationItemAfter_places:
  assumes "ready_item items x a"
  shows "map riID (placeRelationItemAfter x a items) = insert_after a x (removeAll x (map riID items)) \<and>
    mset (map unordered (placeRelationItemAfter x a items)) = mset (map unordered items) \<and>
    map riOrder (placeRelationItemAfter x a items) = map int [0..<length items]"
proof -
  have s: "map riID (placeRelationItemAfter x a items) = insert_after a x (removeAll x (map riID items))"
    using placeRelationItemAfter_sequence [OF assms] by (simp add: item_sequence_def)
  have m: "mset (map unordered (placeRelationItemAfter x a items)) = mset (map unordered items)"
    by (rule placeRelationItemAfter_mset [OF assms])
  from arg_cong [OF m, of size] have "length (placeRelationItemAfter x a items) = length items" by simp
  moreover obtain ys where "placeRelationItemAfter x a items = renumberRelationOrders ys"
    by (simp add: placeRelationItemAfter_def Let_def)
  moreover have "length (renumberRelationOrders ys) = length ys" for ys
    by (simp add: renumberRelationOrders_def)
  ultimately have "map riOrder (placeRelationItemAfter x a items) = map int [0..<length items]"
    using renumberRelationOrders_sorted by metis
  with s m show ?thesis by blast
qed

theorem placeRelationItemAfter_places_witness:
  "map riID (placeRelationItemAfter ''x'' ''z''
     [zeroRelationItem\<lparr>riID := ''x''\<rparr>, zeroRelationItem\<lparr>riID := ''y''\<rparr>, zeroRelationItem\<lparr>riID := ''z''\<rparr>]) =
   [''y'', ''z'', ''x'']"
  using placeRelationItemAfter_places [of
      "[zeroRelationItem\<lparr>riID := ''x''\<rparr>, zeroRelationItem\<lparr>riID := ''y''\<rparr>, zeroRelationItem\<lparr>riID := ''z''\<rparr>]"
      "''x''" "''z''"]
  by (simp add: ready_item_def zeroRelationItem_def)

text \<open>
  Deleting a translation leaves a document that an absent locale may have: it no longer exists
  and no block and no relation item has a locale-owned value, while everything shared is kept.
\<close>

theorem deleteTranslation_clears:
  "\<not> docLocaleExists (deleteTranslation d) \<and>
   validateAbsentLocaleValues (docNodes (deleteTranslation d)) = None \<and>
   map shared_part (docNodes (deleteTranslation d)) = map shared_part (docNodes d)"
proof -
  have "validateAbsentLocaleValues (docNodes (deleteTranslation d)) = None"
    by (auto simp: validateAbsentLocaleValues_def deleteTranslation_def check_all_None first_error_None)
  then show ?thesis using shared_deleteTranslation by (simp add: deleteTranslation_def)
qed

text \<open>
  The affected handles of a batch of well-shaped operations are sorted, without repetition, and
  exactly the handles of its operations that are not blank and not the bare block prefix.
\<close>

theorem AffectedHandles_canonical:
  assumes "list_all (\<lambda>op. validateShape op = None) ops"
  shows "\<exists>hs. AffectedHandles ops l = Inr hs \<and> sorted hs \<and> distinct hs \<and>
    set hs = {h. trim_space h \<noteq> '''' \<and> h \<noteq> ''block:'' \<and>
      (\<exists>op gs. op \<in> set ops \<and> operationHandles op l = Inr gs \<and> h \<in> set gs)}"
proof -
  have shapes: "validateShape op = None" if "op \<in> set ops" for op using assms that by (simp add: list_all_iff)
  let ?hs = "canonicalHandles (concat (map (\<lambda>op. projr (operationHandles op l)) ops))"
  have "AffectedHandles ops l = Inr ?hs" using shapes by (intro AffectedHandles_eq) blast
  moreover have "sorted ?hs" "distinct ?hs" using canonicalHandles_sorted by blast+
  moreover have "\<exists>gs. operationHandles op l = Inr gs" if "op \<in> set ops" for op
    using operationHandles_shape [OF shapes [OF that]] by blast
  then have "set ?hs = {h. trim_space h \<noteq> '''' \<and> h \<noteq> ''block:'' \<and>
      (\<exists>op gs. op \<in> set ops \<and> operationHandles op l = Inr gs \<and> h \<in> set gs)}"
    unfolding set_canonicalHandles set_concat set_map by (force simp: image_iff)
  ultimately show ?thesis by blast
qed

theorem AffectedHandles_canonical_witness:
  "\<exists>hs. AffectedHandles [DeleteBlockOperation ''b'', DeleteBlockOperation ''a''] ''en'' = Inr hs \<and>
     sorted hs \<and> distinct hs"
  using AffectedHandles_canonical [of "[DeleteBlockOperation ''b'', DeleteBlockOperation ''a'']" "''en''"]
  by (auto simp: operation_builders validateShape_def payloadCount_def kindMatchesPayload_def)

section \<open>Nested values\<close>









section \<open>Text edits\<close>

text \<open>
  C26. Formatting the occurrences of a text changes the marks of exactly the selected bytes: the
  styled text of the result is that of the input with the format applied to the marks of the bytes
  in the occurrences, and no item or byte is added, lost or moved.
\<close>

theorem format_text_styles:
  assumes "list_all is_mark (ifAddMarks f)" and "selLink s = ''''"
  shows "\<exists>items'. formatInline s items f = Inr items' \<and>
    items_style [] items' =
      restyle f (textRanges (joinLeaves (flattenInline items)) (selText s)) 0 (items_style [] items) \<and>
    map fst (items_style [] items') = map fst (items_style [] items)"
  using formatInline_text [of f s items] assms by (auto simp: list_all_iff restyle_content)

definition demo_format :: InlineFormat where
  "demo_format = \<lparr>ifAddMarks = [InlineKindBold], ifRemoveMarks = [], ifLink = None,
     ifTextColor = None, ifBackgroundColor = None\<rparr>"

theorem format_text_styles_witness:
  "\<exists>items'. formatInline \<lparr>selText = ''b'', selLink = ''''\<rparr> [InlineText ''abc''] demo_format = Inr items' \<and>
    map fst (items_style [] items') = [Inl CHR ''a'', Inl CHR ''b'', Inl CHR ''c'']"
  using format_text_styles [of demo_format "\<lparr>selText = ''b'', selLink = ''''\<rparr>" "[InlineText ''abc'']"]
  by (auto simp: demo_format_def is_mark_def InlineText_def leaf_style_def)

text \<open>
  Formatting the links to an address changes the marks of exactly the text and items inside
  those links.
\<close>

theorem format_link_styles:
  assumes "list_all is_mark (ifAddMarks f)" and "selLink s \<noteq> ''''"
  shows "\<exists>items'. formatInline s items f = Inr items' \<and>
    items_style [] items' =
      map (\<lambda>(x, m). (x, if (InlineKindLink, selLink s) \<in> set m then apply_marks f m else m)) (items_style [] items)"
  using formatInline_link [of f s items] assms by (simp add: list_all_iff)

theorem format_link_styles_witness:
  "\<exists>items'. formatInline \<lparr>selText = '''', selLink = ''u''\<rparr>
      [Mark InlineKindLink ''u'' [InlineText ''a''], InlineText ''b''] demo_format = Inr items'"
  using format_link_styles [of demo_format "\<lparr>selText = '''', selLink = ''u''\<rparr>"
      "[Mark InlineKindLink ''u'' [InlineText ''a''], InlineText ''b'']"]
  by (auto simp: demo_format_def is_mark_def)

text \<open>
  The selected ranges of a text are its non-overlapping occurrences from left to right: each is
  an occurrence, they are ordered and disjoint, and there are \<open>strings.Count\<close> of them.
\<close>

theorem textRanges_occurrences:
  assumes "needle \<noteq> []"
  shows "length (textRanges joined needle) = str_count joined needle \<and>
    sorted_wrt (\<lambda>x y. snd x \<le> fst y) (textRanges joined needle) \<and>
    list_all (\<lambda>(a, b). b = a + length needle \<and> b \<le> length joined \<and>
      take (length needle) (drop a joined) = needle) (textRanges joined needle)"
  using textRangesFrom_count [OF assms, of 0 joined] textRangesFrom_sorted [of 0 joined needle]
    textRangesFrom_occurrences [of _ _ 0 joined needle]
  by (auto simp: textRanges_def list_all_iff)

theorem textRanges_occurrences_witness:
  "length (textRanges ''abab'' ''ab'') = str_count ''abab'' ''ab''"
  using textRanges_occurrences [of "''ab''" "''abab''"] by simp

text \<open>
  Planning text edits never panics: every failure is an ordinary error of one of the edits.
\<close>

theorem PlanTextEdits_errors:
  "case PlanTextEdits nodes edits of
     Inl (i, e) \<Rightarrow> i < length edits \<and> reported e
   | Inr plan \<Rightarrow> length (planMatches plan) = length edits"
proof (cases "planEdits 0 (editableFields nodes) edits")
  case (Inl x)
  then show ?thesis using planEdits_error [of 0 "editableFields nodes" edits]
    by (cases x) (auto simp: PlanTextEdits_def)
next
  case (Inr p)
  then show ?thesis using planEdits_result [of 0 "editableFields nodes" edits]
    by (cases p) (auto simp: PlanTextEdits_def Let_def dest: list_all2_lengthD)
qed






text \<open>
  C28. Replacing text in rich text keeps it valid: empty runs and the marks left empty by the
  replacement are dropped.
\<close>

theorem replaceInlineText_keeps_valid:
  assumes "ValidateInlineItems K items = None"
  shows "ValidateInlineItems K (replaceInlineText items needle replacement) = None"
  using replaceInlineText_valid [of K 0 items] assms by (simp add: ValidateInlineItems_def)

theorem replaceInlineText_keeps_valid_witness:
  "ValidateInlineItems demo_keys (replaceInlineText [Mark InlineKindBold '''' [InlineText ''a'']] ''a'' '''') = None"
proof (rule replaceInlineText_keeps_valid)
  show "ValidateInlineItems demo_keys [Mark InlineKindBold '''' [InlineText ''a'']] = None" by code_simp
qed

text \<open>
  Each side of a text edit preview has at most 202 characters, the 200 of the window and the
  two ellipses.
\<close>

theorem newTextEditPreview_short:
  "rune_count (tpBefore (newTextEditPreview f)) \<le> 202 \<and> rune_count (tpAfter (newTextEditPreview f)) \<le> 202"
  by (rule newTextEditPreview_bound)

section \<open>The mutation service\<close>




text \<open>
  Every operation of an accepted request is canonical, so the request can be encoded and its
  normalized batch passes the checks that a port's result has to pass.
\<close>

theorem accepted_operations_canonical:
  assumes "ValidateOperations K d r = Inr res" and "Valid res"
  shows "vrNormalized res = arOperations r \<and> validateCanonicalOperations K (arOperations r) = None"
  by (rule accepted_request_canonical [OF assms])

theorem accepted_operations_canonical_witness:
  "validateCanonicalOperations demo_keys demo_operations = None"
  using accepted_operations_canonical [OF demo_accepted] by (simp add: demo_request_def)




section \<open>Reads\<close>

text \<open>
  C31. A projection that \<open>Service.Read\<close> returns passes the validation that \<open>EncodeProjection\<close> runs, in
  every read mode and on every page, and it is one of the requested document and locale.
\<close>

theorem Service_Read_valid:
  fixes load :: "'e loader"
  assumes "Service_Read K lower digest load r = Inr p"
  shows "Projection_validate K p = None \<and> Projection_Identity p = rqDocument r \<and> prLocale p = rqLocale r \<and>
    prMode p = rqMode r"
proof -
  from assms obtain d where r: "validateReadRequest r = None"
    and l: "loadDocument K load \<lparr>opnDocument = rqDocument r, opnLocale = rqLocale r\<rparr> = Inr d"
    and p: "(readDocument lower digest d r :: ('e, Projection) answer) = Inr p"
    by (auto simp: Service_Read_def answer_Inr)
  from l have v: "Document_validate K d = None" and "docIdentity d = rqDocument r" "docLocale d = rqLocale r"
    by (simp_all add: loadDocument_Inr)
  moreover have "Projection_Identity p = docIdentity d \<and> prLocale p = docLocale d \<and> prMode p = rqMode r"
    by (rule readDocument_header [OF p])
  ultimately show ?thesis using readDocument_valid [OF v r p] by simp
qed

theorem Service_Read_valid_witness:
  "\<exists>p. Service_Read demo_keys id demo_digest demo_load demo_read = Inr p \<and> Projection_validate demo_keys p = None"
proof -
  obtain p where p: "Service_Read demo_keys id demo_digest demo_load demo_read = Inr p" using demo_page by blast
  from Service_Read_valid [OF p] p show ?thesis by blast
qed




text \<open>
  C33. Following the cursors of a read from its first page visits every selected block exactly once, in
  canonical form and parents first, whatever the page limit. The digest of the cursor is free of the
  separator \<open>.\<close> (it is hexadecimal) and the selection is smaller than the range of \<open>int\<close>.
\<close>

theorem paging_visits_selection:
  assumes "Document_validate K d = None" and "validateReadRequest r = None" and "selectNodes d r = Inr nodes"
    and "CHR ''.'' \<notin> set (readCursorFingerprint digest d r)" and "int (length nodes) < 2 ^ 63"
  shows "\<exists>ns. follow (Suc (length nodes)) (fetch_page lower digest d r) '''' = Some ns \<and>
    mset ns = mset (map canonicalNode (selected_page lower d r nodes)) \<and>
    parents_first (nodeID ` set (selected_page lower d r nodes)) {} ns"
proof -
  have m: "0 \<le> rqLimit r" using validateReadRequest_mode [OF assms(2)] by blast
  obtain ns where l: "read_list lower d r = Inr ns" and ns: "mset ns = mset (map canonicalNode (selected_page lower d r nodes))"
    using read_list_page [OF assms(1,3)] by blast
  have len: "length ns \<le> length nodes"
    using mset_eq_length [OF ns] by (simp add: selected_page_def)
  have "follow (Suc (length nodes)) (fetch_page lower digest d r) '''' = Some ns"
    by (rule follow_reads_all [OF l m assms(4)]) (use len assms(5) in linarith)+
  moreover have "parents_first (nodeID ` set (selected_page lower d r nodes)) {} ns"
    using l assms(3) by (intro canonicalNodes_parents_first) (simp add: read_list_def)
  ultimately show ?thesis using ns by blast
qed

theorem paging_visits_selection_witness:
  "\<exists>ns. follow 4 (fetch_page id demo_digest demo_document demo_read) '''' = Some ns \<and>
    mset (map nodeID ns) = {#''a'', ''b'', ''g''#}"
proof -
  have "CHR ''.'' \<notin> set (readCursorFingerprint demo_digest demo_document demo_read)"
    by (simp add: readCursorFingerprint_def demo_digest_def demo_document_def)
  from paging_visits_selection [OF demo_document_valid demo_read_valid demo_outline this, of id] obtain ns where
    f: "follow (Suc (length (projectOutline (docNodes demo_document)))) (fetch_page id demo_digest demo_document demo_read) '''' = Some ns"
    and m: "mset ns = mset (map canonicalNode (selected_page id demo_document demo_read (projectOutline (docNodes demo_document))))"
    by (auto simp: projectOutline_def demo_document_def)
  have "mset (map nodeID ns) =
      mset (map nodeID (map canonicalNode (selected_page id demo_document demo_read (projectOutline (docNodes demo_document)))))"
    using m by (metis mset_map)
  then have "mset (map nodeID ns) = mset (map nodeID (docNodes demo_document))"
    by (simp add: demo_read_def selected_page_def projectOutline_def outlineNode_def comp_def)
  with f show ?thesis by (simp add: projectOutline_def demo_document_def demo_node_def numeral_eq_Suc add.commute)
qed

text \<open>
  A cursor decodes to its offset for the read it was made for and to nothing for any other read.
\<close>

theorem cursor_roundtrip:
  assumes "0 \<le> n" and "n < 2 ^ 63" and "CHR ''.'' \<notin> set fp"
  shows "decodeCursor (encodeCursor n fp) fp' = Inr m \<longleftrightarrow> fp' = fp \<and> m = n"
  using cursors.decode_encode [OF assms] cursors.decode_bound [OF assms(1,3), of fp' m] by auto

theorem cursor_roundtrip_witness: "decodeCursor (encodeCursor 64 ''0af3'') ''0af3'' = Inr 64"
  using cursor_roundtrip [of 64 "''0af3''" "''0af3''" 64] by simp

text \<open>
  A cursor of another revision, locale, selection or query is refused with the document's current
  revisions, as long as the digests of the two reads differ; the order of the selectors in the request
  does not matter.
\<close>

theorem stale_cursor_rejected:
  assumes "Document_validate K d = None" and "validateReadRequest r = None" and "selectNodes d r = Inr nodes"
    and "rqCursor r = encodeCursor n fp" and "0 \<le> n" and "CHR ''.'' \<notin> set fp"
    and "fp \<noteq> readCursorFingerprint digest d r"
  shows "readDocument lower digest d r = Inl (CursorError (docRevision d) (docTargetRevision d)) \<and>
    (mset (rqBlocks r') \<noteq> mset (rqBlocks r) \<or> mset (rqFields r') \<noteq> mset (rqFields r) \<or> rqMode r' \<noteq> rqMode r \<or>
     rqQuery r' \<noteq> rqQuery r \<or> readCursorFingerprint digest d r' = readCursorFingerprint digest d r)"
proof -
  obtain ns where l: "read_list lower d r = Inr ns" using read_list_page [OF assms(1,3)] by blast
  have "0 \<le> rqLimit r" using validateReadRequest_mode [OF assms(2)] by blast
  from stale_cursor_refused [OF l this assms(4-7)] fingerprint_selector_order [of r' r] show ?thesis by blast
qed

theorem stale_cursor_rejected_witness:
  "readDocument id demo_digest demo_document (demo_read\<lparr>rqCursor := encodeCursor 2 ''r0''\<rparr>) =
     Inl (CursorError ''r1'' None)"
proof -
  let ?r = "demo_read\<lparr>rqCursor := encodeCursor 2 ''r0''\<rparr>"
  have "validateReadRequest ?r = None" using demo_read_valid by (simp add: validateReadRequest_def demo_read_def)
  moreover have "selectNodes demo_document ?r = Inr (projectOutline (docNodes demo_document))"
    using demo_outline by (simp add: selectNodes_cursor)
  moreover have "''r0'' \<noteq> readCursorFingerprint demo_digest demo_document ?r"
    by (simp add: readCursorFingerprint_def demo_digest_def demo_document_def)
  ultimately have "readDocument id demo_digest demo_document ?r =
      Inl (CursorError (docRevision demo_document) (docTargetRevision demo_document))"
    using stale_cursor_rejected [OF demo_document_valid, of ?r _ 2 "''r0''" demo_digest id ?r] by simp
  then show ?thesis by (simp add: demo_document_def)
qed





text \<open>
  A block read returns the requested blocks whole and in document order, each once, or fails when
  an identifier is malformed or a requested block does not exist.
\<close>

theorem block_read_selects:
  assumes "distinct (map nodeID nodes)"
  shows "selectBlocks nodes blocks = Inr taken \<longleftrightarrow>
    list_all (\<lambda>b. validateStableID ''block ID'' b maxHandleLength = None \<and> b \<in> nodeID ` set nodes) blocks \<and>
    taken = filter (\<lambda>n. nodeID n \<in> set blocks) nodes"
  by (auto simp: selectBlocks_result [OF assms] guard_error_Inr check_all_None list_all_iff)

theorem block_read_selects_witness:
  "selectBlocks (docNodes demo_document) [''g'', ''a''] =
     Inr [demo_node ''a'' ''section'' '''' 0, demo_node ''g'' ''gallery'' '''' 1]"
proof -
  have ids: "distinct (map nodeID (docNodes demo_document))" by (simp add: demo_document_def demo_node_def)
  have "validateStableID ''block ID'' ''g'' maxHandleLength = None" "validateStableID ''block ID'' ''a'' maxHandleLength = None"
    by code_simp+
  then show ?thesis
    by (subst block_read_selects [OF ids]) (simp add: demo_document_def demo_node_def)
qed

text \<open>
  C35. A batched read answers like a single one: where the batch delivers for each request what the
  port would load, a read of one of its documents through the batch is \<open>Service.Read\<close>.
\<close>

theorem batched_read_is_read:
  assumes "LoadBatch load batch requests = map (\<lambda>q. load' (lrDocument q) (lrLocale q)) requests"
    and "\<lparr>lrDocument = rqDocument r, lrLocale = rqLocale r\<rparr> \<in> set requests"
  shows "batch_Read lower digest (OpenBatch K load batch requests) r = Service_Read K lower digest load' r"
  by (rule batch_Read_service [OF assms])

theorem batched_read_is_read_witness:
  "batch_Read id demo_digest
     (OpenBatch demo_keys demo_load None [\<lparr>lrDocument = rqDocument demo_read, lrLocale = rqLocale demo_read\<rparr>]) demo_read =
   Service_Read demo_keys id demo_digest demo_load demo_read"
  by (rule batched_read_is_read) (simp_all add: LoadBatch_def)

section \<open>Search and previews\<close>



text \<open>
  C37. Previews are short: an outline preview is not empty and has at most 81 characters (80 and an
  ellipsis), a search preview at most 82.
\<close>

theorem previews_short:
  "list_all (\<lambda>(b, p). p \<noteq> '''' \<and> rune_count p \<le> 81) (outlinePreviews nodes) \<and>
   list_all (\<lambda>(b, p). rune_count p \<le> 82) (searchNodes lower nodes query)"
  using outlinePreviews_bound [of nodes] searchNodes_bound [of lower nodes query] by (auto simp: list_all_iff)

text \<open>
  The existing blocks that a batch of well-shaped operations touches are collected without
  repetition and are exactly the non-empty targets of its operations that the batch does not insert.
\<close>

theorem existing_targets_exact:
  assumes "list_all (\<lambda>op. validateShape op = None) ops"
  shows "\<exists>blocks. ExistingTargetBlocks ops = Inr blocks \<and> distinct blocks \<and>
    set blocks = {b. b \<noteq> '''' \<and> b \<notin> (\<Union>op \<in> set ops. insertedBy op) \<and>
      (\<exists>op bs. op \<in> set ops \<and> operationTargets op = Inr bs \<and> b \<in> set bs)}"
  using ExistingTargetBlocks_result assms by (simp add: list_all_iff)

theorem existing_targets_exact_witness:
  "\<exists>blocks. ExistingTargetBlocks demo_operations = Inr blocks \<and> distinct blocks \<and> ''c'' \<notin> set blocks"
proof -
  have "list_all (\<lambda>op. validateShape op = None) demo_operations" by code_simp
  from existing_targets_exact [OF this] show ?thesis
    by (auto simp: demo_operations_def insertedBy_def operation_builders)
qed

section \<open>Wire format\<close>









end
